(* ===== verification/Prelude.thy ===== *)
theory Prelude
  imports Main "HOL-Library.Word" "HOL-Library.Monad_Syntax"
begin

text \<open>
  Shared vocabulary of the development: the value types the Python code works with
  (identifiers, digests, UTC instants), the two checks every component repeats
  (canonical UUIDv4 text and canonical UTC datetimes), the \<open>option\<close> idioms that stand for
  ``raise'', and the collections of facts the component proofs use.

  \<^item> \<open>None\<close> of an \<open>option\<close> result is a raised exception; \<open>require b\<close> is
    \<open>if not b: raise\<close>.
  \<^item> An instant is the number of microseconds since \<open>0001-01-01T00:00:00Z\<close>, the range of
    Python's \<open>datetime\<close>; the stored text \<open>YYYY-MM-DDTHH:MM:SS.ffffffZ\<close> has a fixed width, so
    comparing it as text is comparing instants.
\<close>

named_theorems op_defs "definitions of operations, unfolded to analyse a successful call"
named_theorems frame_simps "what an operation leaves unchanged"

type_synonym str = string
type_synonym bytes = "8 word list"
type_synonym instant = int

subsection \<open>Raising\<close>

definition require :: "bool \<Rightarrow> unit option" where
  "require b = (if b then Some () else None)"

lemma require_eq_Some [simp]: "require b = Some u \<longleftrightarrow> b"
  by (simp add: require_def)

lemma require_eq_None [simp]: "require b = None \<longleftrightarrow> \<not> b"
  by (simp add: require_def)

lemma require_True [simp]: "require True = Some ()"
  by (simp add: require_def)

lemma require_False [simp]: "require False = None"
  by (simp add: require_def)

lemma bind_require [simp]:
  "Option.bind (require b) f = (if b then f () else None)"
  by (simp add: require_def)

lemma bind_SomeD: "Option.bind x f = Some y \<Longrightarrow> \<exists>a. x = Some a \<and> f a = Some y"
  by (cases x) auto

subsection \<open>UTC instants\<close>

text \<open>A Python \<open>datetime\<close> is naive or aware; an aware one carries its UTC offset.\<close>

datatype py_datetime = Naive instant | Aware int instant

definition seconds :: "int \<Rightarrow> int" where
  "seconds n = n * 1000000"

definition max_instant :: instant where
  "max_instant = 3652059 * 86400 * 1000000 - 1"

definition valid_instant :: "instant \<Rightarrow> bool" where
  "valid_instant t \<longleftrightarrow> 0 \<le> t \<and> t \<le> max_instant"

text \<open>\<open>_canonical_utc\<close>: only a datetime whose offset is zero, as a UTC instant.\<close>

definition canonical_utc :: "py_datetime \<Rightarrow> instant option" where
  "canonical_utc v = (case v of
     Naive t \<Rightarrow> None
   | Aware off t \<Rightarrow> if off = 0 then Some t else None)"

text \<open>\<open>value.astimezone(UTC)\<close>: any aware datetime; leaving the range raises.\<close>

definition astimezone_utc :: "py_datetime \<Rightarrow> instant option" where
  "astimezone_utc v = (case v of
     Naive t \<Rightarrow> None
   | Aware off t \<Rightarrow> if valid_instant (t - off) then Some (t - off) else None)"

text \<open>\<open>datetime + timedelta\<close>: leaving the range raises \<open>OverflowError\<close>.\<close>

definition add_delta :: "instant \<Rightarrow> int \<Rightarrow> instant option" where
  "add_delta t d = (if valid_instant (t + d) then Some (t + d) else None)"

lemma canonical_utc_Aware0 [simp]: "canonical_utc (Aware 0 t) = Some t"
  by (simp add: canonical_utc_def)

lemma canonical_utc_Some: "canonical_utc v = Some t \<longleftrightarrow> v = Aware 0 t"
  by (cases v) (auto simp: canonical_utc_def)

lemma add_delta_Some: "add_delta t d = Some u \<longleftrightarrow> u = t + d \<and> valid_instant u"
  by (auto simp: add_delta_def)

subsection \<open>Canonical UUIDv4 text and SHA-256 digests\<close>

definition hex_digit :: "char \<Rightarrow> bool" where
  "hex_digit c \<longleftrightarrow> c \<in> set ''0123456789abcdef''"

definition uuid_shape :: "nat \<Rightarrow> char \<Rightarrow> bool" where
  "uuid_shape i c =
     (if i \<in> {8, 13, 18, 23} then c = CHR ''-''
      else if i = 14 then c = CHR ''4''
      else if i = 19 then c \<in> set ''89ab''
      else hex_digit c)"

text \<open>
  \<open>UUID(value)\<close> with version 4, the RFC 4122 variant and \<open>str(parsed) == value\<close>: exactly the
  36-character lowercase text with the version and variant digits in their places.
\<close>

definition is_canonical_uuid_v4 :: "str \<Rightarrow> bool" where
  "is_canonical_uuid_v4 s \<longleftrightarrow>
     length s = 36 \<and> list_all (\<lambda>(i, c). uuid_shape i c) (enumerate 0 s)"

definition canonical_uuid_v4 :: "str \<Rightarrow> str option" where
  "canonical_uuid_v4 s = (if is_canonical_uuid_v4 s then Some s else None)"

lemma canonical_uuid_v4_Some:
  "canonical_uuid_v4 s = Some t \<longleftrightarrow> t = s \<and> is_canonical_uuid_v4 s"
  by (auto simp: canonical_uuid_v4_def)

lemma canonical_uuid_length: "is_canonical_uuid_v4 s \<Longrightarrow> length s = 36"
  by (simp add: is_canonical_uuid_v4_def)

definition is_sha256_hex :: "str \<Rightarrow> bool" where
  "is_sha256_hex s \<longleftrightarrow> length s = 64 \<and> list_all hex_digit s"

text \<open>\<open>_require_fingerprint\<close>: exactly 32 bytes.\<close>

definition is_fingerprint :: "bytes \<Rightarrow> bool" where
  "is_fingerprint b \<longleftrightarrow> length b = 32"

subsection \<open>Bounds shared across runtimes\<close>

definition max_cross_runtime_sequence :: int where
  "max_cross_runtime_sequence = 2 ^ 53 - 1"

subsection \<open>The latest of some instants\<close>

text \<open>\<open>SELECT x ... ORDER BY x DESC LIMIT 1\<close>.\<close>

definition latest :: "instant list \<Rightarrow> instant option" where
  "latest xs = (case xs of [] \<Rightarrow> None | y # ys \<Rightarrow> Some (fold max ys y))"

lemma latest_None [simp]: "latest xs = None \<longleftrightarrow> xs = []"
  by (simp add: latest_def split: list.split)

lemma latest_Some: "latest xs = Some m \<longleftrightarrow> m \<in> set xs \<and> (\<forall>x \<in> set xs. x \<le> m)"
proof (cases xs)
  case Nil
  then show ?thesis by (simp add: latest_def)
next
  case (Cons y ys)
  then have "latest xs = Some (Max (set xs))"
    by (simp add: latest_def Max.set_eq_fold [symmetric])
  moreover have "Max (set xs) = m \<longleftrightarrow> m \<in> set xs \<and> (\<forall>x \<in> set xs. x \<le> m)"
    using Cons by (intro Max_eq_iff) auto
  ultimately show ?thesis by simp
qed

subsection \<open>Lists with a first match\<close>

lemma find_Some_set: "List.find P xs = Some x \<Longrightarrow> x \<in> set xs \<and> P x"
  by (induction xs) (auto split: if_splits)

lemma find_None_all: "List.find P xs = None \<longleftrightarrow> (\<forall>x \<in> set xs. \<not> P x)"
  by (induction xs) auto

lemma find_append:
  "List.find P (xs @ ys) = (case List.find P xs of Some x \<Rightarrow> Some x | None \<Rightarrow> List.find P ys)"
  by (induction xs) auto

lemma find_map_same_key:
  assumes "\<And>r. P (f r) \<longleftrightarrow> P r"
  shows "List.find P (map f xs) = map_option f (List.find P xs)"
  using assms by (induction xs) auto

lemma find_cong_key: "(\<And>r. r \<in> set xs \<Longrightarrow> P r = Q r) \<Longrightarrow> List.find P xs = List.find Q xs"
  by (induction xs) auto

end
