(* ===== verification/Sql_Table.thy ===== *)
theory Sql_Table
  imports Prelude
begin

text \<open>
  The SQL statements the executor ledger issues, over one table held as the list of its rows in
  \<open>rowid\<close> order. A table is given by its row \<open>CHECK\<close> and by \<open>clash\<close>, which holds of two rows that
  share a \<open>PRIMARY KEY\<close> or \<open>UNIQUE\<close> value. An \<open>INSERT\<close> that breaks a constraint, and an
  \<open>UPDATE\<close> whose new row breaks the \<open>CHECK\<close>, raise \<open>sqlite3.IntegrityError\<close>: \<open>None\<close>. No
  statement of the ledger deletes a row or updates a key column.

  The locale \<open>keyed_table\<close> states what the operations rely on (the key decides the clash) and proves
  the lookup and preservation laws once; the schema theory interprets it for every table.
\<close>

definition sql_wf :: "('r \<Rightarrow> bool) \<Rightarrow> ('r \<Rightarrow> 'r \<Rightarrow> bool) \<Rightarrow> 'r list \<Rightarrow> bool" where
  "sql_wf row_ok clash rows \<longleftrightarrow>
     list_all row_ok rows \<and> sorted_wrt (\<lambda>a b. \<not> clash a b) rows"

definition sql_insert ::
  "('r \<Rightarrow> bool) \<Rightarrow> ('r \<Rightarrow> 'r \<Rightarrow> bool) \<Rightarrow> 'r \<Rightarrow> 'r list \<Rightarrow> 'r list option" where
  "sql_insert row_ok clash r rows =
     (if row_ok r \<and> list_all (\<lambda>x. \<not> clash x r) rows then Some (rows @ [r]) else None)"

definition sql_update ::
  "('r \<Rightarrow> bool) \<Rightarrow> ('r \<Rightarrow> bool) \<Rightarrow> ('r \<Rightarrow> 'r) \<Rightarrow> 'r list \<Rightarrow> 'r list option" where
  "sql_update row_ok P f rows =
     (if list_all (\<lambda>r. P r \<longrightarrow> row_ok (f r)) rows
      then Some (map (\<lambda>r. if P r then f r else r) rows) else None)"

definition sql_rowcount :: "('r \<Rightarrow> bool) \<Rightarrow> 'r list \<Rightarrow> int" where
  "sql_rowcount P rows = int (length (filter P rows))"

definition sql_lookup :: "('r \<Rightarrow> 'k) \<Rightarrow> 'k \<Rightarrow> 'r list \<Rightarrow> 'r option" where
  "sql_lookup key k rows = List.find (\<lambda>r. key r = k) rows"

lemma sql_insert_Some:
  "sql_insert row_ok clash r rows = Some rows' \<longleftrightarrow>
     rows' = rows @ [r] \<and> row_ok r \<and> (\<forall>x \<in> set rows. \<not> clash x r)"
  by (auto simp: sql_insert_def list_all_iff)

lemma sql_update_Some:
  "sql_update row_ok P f rows = Some rows' \<longleftrightarrow>
     rows' = map (\<lambda>r. if P r then f r else r) rows \<and> (\<forall>r \<in> set rows. P r \<longrightarrow> row_ok (f r))"
  by (auto simp: sql_update_def list_all_iff)

lemma sql_lookup_SomeD: "sql_lookup key k rows = Some r \<Longrightarrow> r \<in> set rows \<and> key r = k"
  unfolding sql_lookup_def by (drule find_Some_set) simp

lemma sql_lookup_None: "sql_lookup key k rows = None \<longleftrightarrow> k \<notin> key ` set rows"
  unfolding sql_lookup_def by (auto simp: find_None_all)

lemma sql_lookup_append:
  "sql_lookup key k (rows @ [r]) =
     (case sql_lookup key k rows of Some x \<Rightarrow> Some x
      | None \<Rightarrow> if key r = k then Some r else None)"
  by (simp add: sql_lookup_def find_append split: option.split)

lemma sql_lookup_map:
  "(\<And>r. key (f r) = key r) \<Longrightarrow> sql_lookup key k (map f rows) = map_option f (sql_lookup key k rows)"
  unfolding sql_lookup_def by (rule find_map_same_key) simp

lemma sql_lookup_mapped:
  assumes "\<And>r. key (f r) = key r"
  shows "sql_lookup key k (map (\<lambda>r. if P r then f r else r) rows) =
    map_option (\<lambda>r. if P r then f r else r) (sql_lookup key k rows)"
  by (rule sql_lookup_map) (simp add: assms)

lemma sql_wf_Nil [simp]: "sql_wf row_ok clash []"
  by (simp add: sql_wf_def)

lemma sql_wf_row: "sql_wf row_ok clash rows \<Longrightarrow> r \<in> set rows \<Longrightarrow> row_ok r"
  by (auto simp: sql_wf_def list_all_iff)

lemma sql_wf_insert:
  "sql_wf row_ok clash rows \<Longrightarrow> sql_insert row_ok clash r rows = Some rows' \<Longrightarrow>
   sql_wf row_ok clash rows'"
  by (auto simp: sql_wf_def sql_insert_Some sorted_wrt_append)

lemma sql_wf_update:
  assumes wf: "sql_wf row_ok clash rows"
    and up: "sql_update row_ok P f rows = Some rows'"
    and keep: "\<And>a b. clash (f a) b = clash a b" "\<And>a b. clash a (f b) = clash a b"
  shows "sql_wf row_ok clash rows'"
proof -
  let ?g = "\<lambda>r. if P r then f r else r"
  have c: "clash (?g a) (?g b) = clash a b" for a b
    by (simp add: keep)
  have "sorted_wrt (\<lambda>a b. \<not> clash a b) (map ?g rows)"
    unfolding sorted_wrt_map c using wf by (simp add: sql_wf_def)
  with wf up show ?thesis
    by (auto simp: sql_wf_def sql_update_Some list_all_iff)
qed

locale keyed_table =
  fixes row_ok :: "'r \<Rightarrow> bool"
    and clash :: "'r \<Rightarrow> 'r \<Rightarrow> bool"
    and key :: "'r \<Rightarrow> 'k"
  assumes key_clash: "key a = key b \<Longrightarrow> clash a b"
begin

lemma key_inj:
  assumes "sql_wf row_ok clash rows" and "a \<in> set rows" and "b \<in> set rows" and "key a = key b"
  shows "a = b"
  using assms
proof (induction rows)
  case Nil
  then show ?case by simp
next
  case (Cons r rows)
  have sub: "sql_wf row_ok clash rows" and dis: "\<forall>x \<in> set rows. \<not> clash r x"
    using Cons.prems(1) by (auto simp: sql_wf_def)
  have "a = r \<longleftrightarrow> b = r"
    using Cons.prems(2-4) dis key_clash by (metis set_ConsD)
  then show ?case
    using Cons.IH [OF sub] Cons.prems(2-4) by auto
qed

lemma lookup_row:
  assumes "sql_wf row_ok clash rows" and "r \<in> set rows"
  shows "sql_lookup key (key r) rows = Some r"
proof (cases "sql_lookup key (key r) rows")
  case None
  with assms show ?thesis by (auto simp: sql_lookup_None)
next
  case (Some x)
  with sql_lookup_SomeD [OF Some] key_inj [OF assms(1)] assms(2) show ?thesis by metis
qed

lemma lookup_iff:
  assumes "sql_wf row_ok clash rows"
  shows "sql_lookup key k rows = Some r \<longleftrightarrow> r \<in> set rows \<and> key r = k"
  using lookup_row [OF assms] sql_lookup_SomeD by metis

lemma fresh_key:
  assumes "sql_insert row_ok clash r rows = Some rows'"
  shows "sql_lookup key (key r) rows = None"
  using assms key_clash by (auto simp: sql_insert_Some sql_lookup_None)

lemma lookup_insert:
  assumes "sql_insert row_ok clash r rows = Some rows'"
  shows "sql_lookup key k rows' = (if k = key r then Some r else sql_lookup key k rows)"
  using fresh_key [OF assms] assms
  by (auto simp: sql_insert_Some sql_lookup_append split: option.splits)

lemma rowcount_at_key:
  assumes "sql_wf row_ok clash rows"
  shows "sql_rowcount (\<lambda>r. key r = k \<and> P r) rows =
    (case sql_lookup key k rows of None \<Rightarrow> 0 | Some r \<Rightarrow> if P r then 1 else 0)"
  using assms
proof (induction rows)
  case Nil
  then show ?case by (simp add: sql_rowcount_def sql_lookup_def)
next
  case (Cons r rows)
  have sub: "sql_wf row_ok clash rows" and dis: "\<forall>x \<in> set rows. \<not> clash r x"
    using Cons.prems by (auto simp: sql_wf_def)
  have "key r = k \<Longrightarrow> filter (\<lambda>r. key r = k \<and> P r) rows = []"
    using dis key_clash by (auto simp: filter_empty_conv)
  with Cons.IH [OF sub] show ?case
    by (auto simp: sql_rowcount_def sql_lookup_def)
qed

end

end
