(* ===== verification/Safe_Text.thy ===== *)
theory Safe_Text
  imports Prelude
begin

text \<open>
  Text that crosses or outlives a trust boundary (\<open>protocol/safe_text.py\<close>).

  A Python \<open>str\<close> is modelled on code points below 256, one \<open>char\<close> each: the character classes the
  source uses (\<open>str.strip\<close>, \<open>\s\<close>, \<open>\b\<close>, \<open>str.casefold\<close>, \<open>re.IGNORECASE\<close>) are written out for that
  range. Code points from 256 on, the bidirectional controls of the pattern among them, do not
  occur in a \<open>str\<close> of the model. \<open>pattern.search\<close> tries every position, with the preceding
  character at hand: a leading \<open>(?:^|[...])\<close> or \<open>\b\<close> looks at that character.
\<close>

subsection \<open>Characters\<close>

abbreviation code :: "char \<Rightarrow> nat" where
  "code c \<equiv> of_char c"

definition py_space :: "char \<Rightarrow> bool" where
  "py_space c \<longleftrightarrow>
     (9 \<le> code c \<and> code c \<le> 13) \<or> (28 \<le> code c \<and> code c \<le> 32) \<or> code c = 133 \<or> code c = 160"

definition ascii_lower :: "char \<Rightarrow> bool" where
  "ascii_lower c \<longleftrightarrow> 97 \<le> code c \<and> code c \<le> 122"

definition ascii_upper :: "char \<Rightarrow> bool" where
  "ascii_upper c \<longleftrightarrow> 65 \<le> code c \<and> code c \<le> 90"

definition ascii_digit :: "char \<Rightarrow> bool" where
  "ascii_digit c \<longleftrightarrow> 48 \<le> code c \<and> code c \<le> 57"

definition ascii_alnum :: "char \<Rightarrow> bool" where
  "ascii_alnum c \<longleftrightarrow> ascii_lower c \<or> ascii_upper c \<or> ascii_digit c"

text \<open>\<open>\w\<close>: alphanumeric in Unicode, or the underscore.\<close>

definition word_char :: "char \<Rightarrow> bool" where
  "word_char c \<longleftrightarrow> ascii_alnum c \<or> c = CHR ''_''
     \<or> code c \<in> {170, 178, 179, 181, 185, 186, 188, 189, 190}
     \<or> (192 \<le> code c \<and> code c \<noteq> 215 \<and> code c \<noteq> 247)"

definition lower_char :: "char \<Rightarrow> char" where
  "lower_char c =
     (if ascii_upper c \<or> (192 \<le> code c \<and> code c \<le> 222 \<and> code c \<noteq> 215)
      then char_of (code c + 32) else c)"

text \<open>
  \<open>str.casefold\<close>: as \<open>str.lower\<close>, with the sharp s unfolded. The micro sign folds to a code
  point above 255; it is kept, since only ASCII words are looked for in folded text.
\<close>

definition casefold :: "str \<Rightarrow> str" where
  "casefold s = concat (map (\<lambda>c. if code c = 223 then ''ss'' else [lower_char c]) s)"

definition strip :: "str \<Rightarrow> str" where
  "strip s = rev (dropWhile py_space (rev (dropWhile py_space s)))"

text \<open>\<open>re.IGNORECASE\<close> on ASCII letters.\<close>

definition same_letter :: "char \<Rightarrow> char \<Rightarrow> bool" where
  "same_letter a b \<longleftrightarrow>
     a = b \<or> (ascii_upper a \<and> code b = code a + 32) \<or> (ascii_upper b \<and> code a = code b + 32)"

subsection \<open>Searching\<close>

fun after_prefix :: "(char \<Rightarrow> char \<Rightarrow> bool) \<Rightarrow> str \<Rightarrow> str \<Rightarrow> str option" where
  "after_prefix same [] s = Some s"
| "after_prefix same (p # ps) [] = None"
| "after_prefix same (p # ps) (c # cs) = (if same p c then after_prefix same ps cs else None)"

fun search :: "(char option \<Rightarrow> str \<Rightarrow> bool) \<Rightarrow> char option \<Rightarrow> str \<Rightarrow> bool" where
  "search found prev [] = found prev []"
| "search found prev (c # cs) = (found prev (c # cs) \<or> search found (Some c) cs)"

definition contains :: "str \<Rightarrow> str \<Rightarrow> bool" where
  "contains w s = search (\<lambda>_ t. after_prefix (=) w t \<noteq> None) None s"

definition contains_control_or_bidi :: "str \<Rightarrow> bool" where
  "contains_control_or_bidi s = list_ex (\<lambda>c. code c \<le> 31 \<or> (127 \<le> code c \<and> code c \<le> 159)) s"

text \<open>The words of \<open>_SENSITIVE_ASSIGNMENT_PATTERN\<close>, each optional separator written out.\<close>

definition sensitive_words :: "str list" where
  "sensitive_words =
     [''accesstoken'', ''access_token'', ''access-token'', ''apikey'', ''api_key'', ''api-key'',
      ''authorization'', ''cookie'', ''credential'', ''password'',
      ''privatekey'', ''private_key'', ''private-key'',
      ''refreshtoken'', ''refresh_token'', ''refresh-token'', ''secret'',
      ''sessioncookie'', ''session_cookie'', ''session-cookie'', ''token'']"

definition sensitive_assignment_at :: "char option \<Rightarrow> str \<Rightarrow> bool" where
  "sensitive_assignment_at prev s \<longleftrightarrow>
     (case prev of None \<Rightarrow> True | Some c \<Rightarrow> \<not> (ascii_alnum c \<or> c = CHR ''_''))
     \<and> list_ex (\<lambda>w. case after_prefix same_letter w s of
           None \<Rightarrow> False
         | Some rest \<Rightarrow> (case dropWhile py_space rest of
             [] \<Rightarrow> False | c # _ \<Rightarrow> c = CHR '':'' \<or> c = CHR ''='')) sensitive_words"

definition media_char :: "char \<Rightarrow> bool" where
  "media_char c \<longleftrightarrow> ascii_alnum c \<or> c \<in> set ''.+-''"

definition inline_data_at :: "char option \<Rightarrow> str \<Rightarrow> bool" where
  "inline_data_at prev s \<longleftrightarrow>
     (case prev of None \<Rightarrow> True | Some c \<Rightarrow> \<not> word_char c)
     \<and> (case after_prefix same_letter ''data:'' s of
          None \<Rightarrow> False
        | Some rest \<Rightarrow> takeWhile media_char rest \<noteq> []
            \<and> (case dropWhile media_char rest of
                 [] \<Rightarrow> False
               | c # cs \<Rightarrow> c = CHR ''/'' \<and> takeWhile media_char cs \<noteq> []
                   \<and> CHR '','' \<in> set (dropWhile media_char cs)))"

definition path_boundary :: "char option \<Rightarrow> bool" where
  "path_boundary prev =
     (case prev of None \<Rightarrow> True | Some c \<Rightarrow> py_space c \<or> code c = 34 \<or> code c = 39 \<or> c = CHR ''='')"

text \<open>\<open>$\<close> also matches before a final line feed.\<close>

definition private_posix_at :: "char option \<Rightarrow> str \<Rightarrow> bool" where
  "private_posix_at prev s \<longleftrightarrow> path_boundary prev
     \<and> list_ex (\<lambda>w. case after_prefix same_letter (CHR ''/'' # w) s of
           None \<Rightarrow> False
         | Some rest \<Rightarrow> (case rest of
             [] \<Rightarrow> True | c # cs \<Rightarrow> c = CHR ''/'' \<or> (code c = 10 \<and> cs = [])))
         [''users'', ''home'', ''root'', ''tmp'', ''var/folders'']"

definition windows_path_at :: "char option \<Rightarrow> str \<Rightarrow> bool" where
  "windows_path_at prev s \<longleftrightarrow> path_boundary prev
     \<and> (case s of
          a # b # c # _ \<Rightarrow> (ascii_lower a \<or> ascii_upper a) \<and> b = CHR '':'' \<and> (code c = 92 \<or> c = CHR ''/'')
        | _ \<Rightarrow> False)"

definition is_unsafe_text :: "str \<Rightarrow> nat \<Rightarrow> bool" where
  "is_unsafe_text s maximum \<longleftrightarrow>
     length s > maximum
     \<or> contains_control_or_bidi s
     \<or> contains ''bearer '' (casefold s)
     \<or> contains ''file://'' (casefold s)
     \<or> search sensitive_assignment_at None s
     \<or> search inline_data_at None s
     \<or> search private_posix_at None s
     \<or> search windows_path_at None s"

subsection \<open>Text without separators is safe\<close>

text \<open>
  Every pattern of the policy needs a blank, a control, a \<open>:\<close>, a \<open>/\<close> or a \<open>=\<close>; a text made of
  other characters is refused for its length only.
\<close>

definition plain_char :: "char \<Rightarrow> bool" where
  "plain_char c \<longleftrightarrow>
     33 \<le> code c \<and> code c < 127 \<and> c \<noteq> CHR '':'' \<and> c \<noteq> CHR ''/'' \<and> c \<noteq> CHR ''=''"

lemma plain_char_facts:
  assumes "plain_char c"
  shows "\<not> py_space c" "c \<noteq> CHR '' ''" "c \<noteq> CHR '':''" "c \<noteq> CHR ''/''" "c \<noteq> CHR ''=''"
    "plain_char (lower_char c)" "code c \<noteq> 223" "\<not> (code c \<le> 31 \<or> (127 \<le> code c \<and> code c \<le> 159))"
proof -
  show "c \<noteq> CHR '' ''" using assms by (auto simp: plain_char_def)
  show "plain_char (lower_char c)"
  proof (cases "ascii_upper c")
    case True
    then have "code (lower_char c) = code c + 32"
      using assms by (simp add: lower_char_def plain_char_def ascii_upper_def of_char_of take_bit_eq_mod)
    then show ?thesis using True by (auto simp: plain_char_def ascii_upper_def)
  next
    case False
    then show ?thesis using assms by (auto simp: lower_char_def plain_char_def)
  qed
qed (use assms in \<open>auto simp: plain_char_def py_space_def\<close>)

lemma search_iff:
  "search found prev s \<longleftrightarrow>
     (\<exists>a b. s = a @ b \<and> found (if a = [] then prev else Some (last a)) b)"
proof (induction s arbitrary: prev)
  case Nil
  then show ?case by simp
next
  case (Cons c cs)
  show ?case (is "_ = ?rhs")
  proof
    assume "search found prev (c # cs)"
    then consider "found prev (c # cs)" | "search found (Some c) cs" by auto
    then show ?rhs
    proof cases
      case 1
      then show ?thesis by (intro exI [of _ "[]"] exI [of _ "c # cs"]) simp
    next
      case 2
      then obtain a b where "cs = a @ b" "found (if a = [] then Some c else Some (last a)) b"
        using Cons.IH by blast
      then show ?thesis by (intro exI [of _ "c # a"] exI [of _ b]) (simp split: if_splits)
    qed
  next
    assume ?rhs
    then obtain a b where "c # cs = a @ b" "found (if a = [] then prev else Some (last a)) b"
      by blast
    then show "search found prev (c # cs)"
      using Cons.IH [of "Some c"] by (cases a) (auto split: if_splits)
  qed
qed

lemma after_prefix_Some:
  "after_prefix same p s = Some r \<longleftrightarrow> (\<exists>q. s = q @ r \<and> list_all2 same p q)"
  by (induction same p s rule: after_prefix.induct) (auto simp: list_all2_Cons1 Cons_eq_append_conv)

lemma contains_iff: "contains w s \<longleftrightarrow> (\<exists>a b. s = a @ w @ b)"
  by (auto simp: contains_def search_iff after_prefix_Some list.rel_eq)

lemma after_prefix_rest: "after_prefix same p s = Some r \<Longrightarrow> set r \<subseteq> set s"
  by (auto simp: after_prefix_Some)

lemma dropWhile_head: "dropWhile P r = c # t \<Longrightarrow> c \<in> set r"
  by (metis list.set_intros(1) set_dropWhileD)

lemma search_hit:
  assumes "search found p s" and "\<And>q t. found q t \<Longrightarrow> \<exists>c \<in> set t. bad c"
  shows "\<exists>c \<in> set s. bad c"
  using assms by (fastforce simp: search_iff)

text \<open>A hit of one of the patterns shows a character it separates with.\<close>

lemma case_list_head: "(case xs of [] \<Rightarrow> False | c # _ \<Rightarrow> P c) \<Longrightarrow> \<exists>c t. xs = c # t \<and> P c"
  by (cases xs) auto

lemma assignment_hit:
  assumes "sensitive_assignment_at p s"
  shows "CHR '':'' \<in> set s \<or> CHR ''='' \<in> set s"
proof -
  obtain w where w: "case after_prefix same_letter w s of None \<Rightarrow> False
      | Some rest \<Rightarrow> (case dropWhile py_space rest of
          [] \<Rightarrow> False | c # _ \<Rightarrow> c = CHR '':'' \<or> c = CHR ''='')"
    using assms unfolding sensitive_assignment_at_def list_ex_iff by blast
  then obtain r where r: "after_prefix same_letter w s = Some r"
    by (cases "after_prefix same_letter w s") simp_all
  with w have "case dropWhile py_space r of [] \<Rightarrow> False | c # _ \<Rightarrow> c = CHR '':'' \<or> c = CHR ''=''"
    by simp
  then have "\<exists>c t. dropWhile py_space r = c # t \<and> (c = CHR '':'' \<or> c = CHR ''='')"
    by (rule case_list_head)
  then obtain c t where c: "dropWhile py_space r = c # t" and sep: "c = CHR '':'' \<or> c = CHR ''=''"
    by (elim exE conjE)
  have "c \<in> set s" using dropWhile_head [OF c] after_prefix_rest [OF r] by (rule rev_subsetD)
  with sep show ?thesis by (elim disjE) simp_all
qed

lemma after_prefix_first:
  assumes "after_prefix same (w @ x # v) s = Some r"
  shows "\<exists>c \<in> set s. same x c"
  using assms by (auto simp: after_prefix_Some list_all2_append1 list_all2_Cons1)

lemma same_letter_plain [simp]: "\<not> ascii_upper x \<Longrightarrow> \<not> ascii_lower x \<Longrightarrow> same_letter x c \<longleftrightarrow> c = x"
  by (auto simp: same_letter_def ascii_upper_def ascii_lower_def)

lemma separators [simp]:
  "\<not> ascii_upper CHR '':''" "\<not> ascii_lower CHR '':''" "\<not> ascii_upper CHR ''/''" "\<not> ascii_lower CHR ''/''"
  by (simp_all add: ascii_upper_def ascii_lower_def)

lemma inline_data_hit:
  assumes "inline_data_at p s"
  shows "CHR '':'' \<in> set s"
proof -
  obtain r where "after_prefix same_letter (''data'' @ CHR '':'' # []) s = Some r"
    using assms by (auto simp: inline_data_at_def simp del: after_prefix.simps split: option.splits)
  from after_prefix_first [OF this] show ?thesis by simp
qed

lemma private_posix_hit:
  assumes "private_posix_at p s"
  shows "CHR ''/'' \<in> set s"
proof -
  obtain w where w: "case after_prefix same_letter (CHR ''/'' # w) s of None \<Rightarrow> False
      | Some rest \<Rightarrow> (case rest of [] \<Rightarrow> True | c # cs \<Rightarrow> c = CHR ''/'' \<or> (code c = 10 \<and> cs = []))"
    using assms unfolding private_posix_at_def list_ex_iff by blast
  then obtain r where "after_prefix same_letter ([] @ CHR ''/'' # w) s = Some r"
    by (cases "after_prefix same_letter (CHR ''/'' # w) s") simp_all
  from after_prefix_first [OF this] show ?thesis by simp
qed

lemma windows_path_hit: "windows_path_at p s \<Longrightarrow> CHR '':'' \<in> set s"
  by (auto simp: windows_path_at_def split: list.splits)

lemma plain_casefold:
  assumes "list_all plain_char s"
  shows "list_all plain_char (casefold s)"
  using assms by (induction s) (auto simp: casefold_def plain_char_facts)

lemma plain_text_safe:
  assumes "list_all plain_char s"
  shows "is_unsafe_text s maximum \<longleftrightarrow> length s > maximum"
proof -
  have no: "\<not> plain_char CHR '':''" "\<not> plain_char CHR ''/''" "\<not> plain_char CHR ''=''"
    "\<not> plain_char CHR '' ''"
    by (simp_all add: plain_char_def)
  have "\<not> contains ''bearer '' (casefold s)" "\<not> contains ''file://'' (casefold s)"
    using plain_casefold [OF assms] no by (auto simp: contains_iff)
  moreover have "\<not> search sensitive_assignment_at None s" "\<not> search inline_data_at None s"
    "\<not> search private_posix_at None s" "\<not> search windows_path_at None s"
    using assms no search_hit [of _ None s "\<lambda>c. \<not> plain_char c"]
    by (metis (no_types, lifting) assignment_hit inline_data_hit private_posix_hit windows_path_hit
        list_all_iff)+
  moreover have "\<not> contains_control_or_bidi s"
    using assms plain_char_facts(8) by (fastforce simp: contains_control_or_bidi_def list_all_iff list_ex_iff)
  ultimately show ?thesis by (auto simp: is_unsafe_text_def)
qed

lemma is_unsafe_text_mono: "\<not> is_unsafe_text s m \<Longrightarrow> m \<le> n \<Longrightarrow> \<not> is_unsafe_text s n"
  by (auto simp: is_unsafe_text_def)

lemma safe_text_length: "\<not> is_unsafe_text s m \<Longrightarrow> length s \<le> m"
  by (auto simp: is_unsafe_text_def)

end
