(* ===== verification/Shared_Policies.thy ===== *)
theory Shared_Policies
  imports Safe_Text
begin

text \<open>
  The input policies both runtimes share: search input (\<open>protocol/douyin_search.py\<close>), the
  candidate model with its stable key (\<open>protocol/douyin_candidate.py\<close>) and the closed message
  template (\<open>protocol/action_message_template.py\<close>).

  SHA-256 is \<open>hashlib\<close>'s: a parameter of \<open>derive_key\<close>. \<open>base64.urlsafe_b64encode\<close> is written out.
\<close>

subsection \<open>Search input\<close>

definition max_search_keyword_characters :: nat where
  "max_search_keyword_characters = 80"

definition max_task_target_limit :: nat where
  "max_task_target_limit = 100"

definition search_input_ok :: "str \<Rightarrow> int \<Rightarrow> bool" where
  "search_input_ok keyword target_limit \<longleftrightarrow>
     keyword \<noteq> [] \<and> strip keyword = keyword
     \<and> \<not> is_unsafe_text keyword max_search_keyword_characters
     \<and> 1 \<le> target_limit \<and> target_limit \<le> int max_task_target_limit"

subsection \<open>Candidates\<close>

definition max_douyin_target_id_characters :: nat where
  "max_douyin_target_id_characters = 128"

definition max_candidate_display_name_characters :: nat where
  "max_candidate_display_name_characters = 80"

definition max_candidate_public_handle_characters :: nat where
  "max_candidate_public_handle_characters = 64"

text \<open>\<open>[A-Za-z0-9][A-Za-z0-9_.-]*\<close>, matched in full.\<close>

definition platform_identifier_pattern :: "str \<Rightarrow> bool" where
  "platform_identifier_pattern s =
     (case s of [] \<Rightarrow> False
      | c # cs \<Rightarrow> ascii_alnum c \<and> list_all (\<lambda>x. ascii_alnum x \<or> x \<in> set ''_.-'') cs)"

definition valid_platform_identifier :: "str \<Rightarrow> nat \<Rightarrow> bool" where
  "valid_platform_identifier s maximum \<longleftrightarrow>
     1 \<le> length s \<and> length s \<le> maximum \<and> platform_identifier_pattern s"

definition valid_display_name :: "str \<Rightarrow> bool" where
  "valid_display_name s \<longleftrightarrow>
     s \<noteq> [] \<and> strip s = s \<and> \<not> is_unsafe_text s max_candidate_display_name_characters"

definition valid_public_handle :: "str option \<Rightarrow> bool" where
  "valid_public_handle h = (case h of None \<Rightarrow> True
     | Some s \<Rightarrow> valid_platform_identifier s max_candidate_public_handle_characters)"

definition candidate_ok :: "str \<Rightarrow> str \<Rightarrow> str option \<Rightarrow> int \<Rightarrow> bool" where
  "candidate_ok platform_target_id display_name public_handle page_revision \<longleftrightarrow>
     valid_platform_identifier platform_target_id max_douyin_target_id_characters
     \<and> valid_display_name display_name \<and> valid_public_handle public_handle
     \<and> 1 \<le> page_revision \<and> page_revision \<le> max_cross_runtime_sequence"

subsection \<open>Stable candidate keys\<close>

definition b64_alphabet :: str where
  "b64_alphabet = ''ABCDEFGHIJKLMNOPQRSTUVWXYZabcdefghijklmnopqrstuvwxyz0123456789-_''"

definition b64_digit :: "nat \<Rightarrow> char" where
  "b64_digit n = b64_alphabet ! n"

text \<open>The four digits of a 24-bit group.\<close>

definition b64_group :: "nat \<Rightarrow> str" where
  "b64_group n = map b64_digit [n div 262144, n div 4096 mod 64, n div 64 mod 64, n mod 64]"

fun urlsafe_b64encode :: "bytes \<Rightarrow> str" where
  "urlsafe_b64encode [] = []"
| "urlsafe_b64encode [a] = take 2 (b64_group (unat a * 65536)) @ ''==''"
| "urlsafe_b64encode [a, b] = take 3 (b64_group (unat a * 65536 + unat b * 256)) @ ''=''"
| "urlsafe_b64encode (a # b # c # rest) =
     b64_group (unat a * 65536 + unat b * 256 + unat c) @ urlsafe_b64encode rest"

definition rstrip_equals :: "str \<Rightarrow> str" where
  "rstrip_equals s = rev (dropWhile (\<lambda>c. c = CHR ''='') (rev s))"

definition candidate_key_domain :: str where
  "candidate_key_domain = ''automation-tool.douyin.candidate-key.v1'' @ [char_of (0::nat)]"

definition candidate_key_prefix :: str where
  "candidate_key_prefix = ''atdck1_''"

text \<open>\<open>atdck1_[A-Za-z0-9_-]{43}\<close>, matched in full.\<close>

definition candidate_key_ok :: "str \<Rightarrow> bool" where
  "candidate_key_ok s \<longleftrightarrow>
     take 7 s = candidate_key_prefix \<and> length s = 50
     \<and> list_all (\<lambda>x. ascii_alnum x \<or> x \<in> set ''_-'') (drop 7 s)"

definition encode_ascii :: "str \<Rightarrow> bytes" where
  "encode_ascii s = map (\<lambda>c. word_of_nat (code c)) s"

definition derive_key :: "(bytes \<Rightarrow> bytes) \<Rightarrow> str \<Rightarrow> str option" where
  "derive_key sha256 platform_target_id = do {
     let key = candidate_key_prefix
       @ rstrip_equals (urlsafe_b64encode (sha256 (encode_ascii (candidate_key_domain @ platform_target_id))));
     require (candidate_key_ok key);
     Some key
   }"

lemma b64_alphabet:
  "length b64_alphabet = 64" "distinct b64_alphabet"
  "list_all (\<lambda>c. (ascii_alnum c \<or> c \<in> set ''_-'') \<and> c \<noteq> CHR ''='') b64_alphabet"
  by (simp_all add: b64_alphabet_def ascii_alnum_def ascii_lower_def ascii_upper_def ascii_digit_def)

lemma b64_digit_inj: "m < 64 \<Longrightarrow> n < 64 \<Longrightarrow> b64_digit m = b64_digit n \<longleftrightarrow> m = n"
  unfolding b64_digit_def by (rule nth_eq_iff_index_eq) (simp_all add: b64_alphabet)

definition b64_char :: "char \<Rightarrow> bool" where
  "b64_char c \<longleftrightarrow> (ascii_alnum c \<or> c \<in> set ''_-'') \<and> c \<noteq> CHR ''=''"

lemma b64_digit_char [simp]: "n < 64 \<Longrightarrow> b64_char (b64_digit n)"
  using b64_alphabet(1,3) unfolding b64_char_def b64_digit_def list_all_length by simp

lemma digits_of:
  fixes n :: nat
  assumes "n < 16777216"
  shows "n div 262144 < 64" and "n div 64 = (n div 262144 * 64 + n div 4096 mod 64) * 64 + n div 64 mod 64"
    and "n div 4096 = n div 262144 * 64 + n div 4096 mod 64" and "n = n div 64 * 64 + n mod 64"
proof -
  have "n div 4096 = n div 64 div 64" "n div 262144 = n div 64 div 64 div 64"
    by (simp_all add: div_mult2_eq [symmetric])
  then show "n div 64 = (n div 262144 * 64 + n div 4096 mod 64) * 64 + n div 64 mod 64"
    "n div 4096 = n div 262144 * 64 + n div 4096 mod 64" by simp_all
qed (use assms in simp_all)

lemma b64_group_inj:
  assumes "m < 16777216" "n < 16777216"
  shows "take 2 (b64_group m) = take 2 (b64_group n) \<Longrightarrow> m div 4096 = n div 4096"
    and "take 3 (b64_group m) = take 3 (b64_group n) \<Longrightarrow> m div 64 = n div 64"
    and "b64_group m = b64_group n \<Longrightarrow> m = n"
proof -
  note d = digits_of [OF assms(1)] digits_of [OF assms(2)]
  have eqs: "b64_digit (m div 262144) = b64_digit (n div 262144) \<Longrightarrow> m div 262144 = n div 262144"
    "b64_digit (m div 4096 mod 64) = b64_digit (n div 4096 mod 64) \<Longrightarrow> m div 4096 mod 64 = n div 4096 mod 64"
    "b64_digit (m div 64 mod 64) = b64_digit (n div 64 mod 64) \<Longrightarrow> m div 64 mod 64 = n div 64 mod 64"
    "b64_digit (m mod 64) = b64_digit (n mod 64) \<Longrightarrow> m mod 64 = n mod 64"
    by (metis b64_digit_inj d(1,5)) (simp_all add: b64_digit_inj)
  show "m div 4096 = n div 4096" if "take 2 (b64_group m) = take 2 (b64_group n)"
  proof -
    from that have "m div 262144 = n div 262144" "m div 4096 mod 64 = n div 4096 mod 64"
      by (intro eqs, simp add: b64_group_def)+
    then show ?thesis using d(3,7) by metis
  qed
  show two: "m div 64 = n div 64" if "take 3 (b64_group m) = take 3 (b64_group n)"
  proof -
    from that have "m div 262144 = n div 262144" "m div 4096 mod 64 = n div 4096 mod 64"
      "m div 64 mod 64 = n div 64 mod 64"
      by (intro eqs, simp add: b64_group_def)+
    then show ?thesis using d(2,6) by metis
  qed
  show "m = n" if "b64_group m = b64_group n"
  proof -
    from that have "m mod 64 = n mod 64" by (intro eqs) (simp add: b64_group_def)
    moreover from that have "m div 64 = n div 64" by (intro two) simp
    ultimately show ?thesis using d(4,8) by metis
  qed
qed

lemma byte_bound: "unat (a :: 8 word) < 256"
  using unsigned_less [of a, where ?'a = nat] by simp

lemma packed_bound: "unat (a :: 8 word) * 65536 + unat (b :: 8 word) * 256 + unat (c :: 8 word) < 16777216"
  using byte_bound [of a] byte_bound [of b] byte_bound [of c] by simp

lemma byte_split:
  fixes x c :: nat
  assumes "x * 256 + c = x' * 256 + c'" "c < 256" "c' < 256"
  shows "x = x' \<and> c = c'"
proof -
  have "(x * 256 + c) mod 256 = c" "(x' * 256 + c') mod 256 = c'" using assms(2,3) by simp_all
  with assms(1) show ?thesis by simp
qed

lemma packed_inj:
  fixes a b c :: "8 word"
  assumes "unat a * 65536 + unat b * 256 + unat c = unat a' * 65536 + unat b' * 256 + unat c'"
  shows "a = a' \<and> b = b' \<and> c = (c' :: 8 word)"
proof -
  have "(unat a * 256 + unat b) * 256 + unat c = (unat a' * 256 + unat b') * 256 + unat c'"
    using assms by simp
  from byte_split [OF this byte_bound byte_bound]
  have ab: "unat a * 256 + unat b = unat a' * 256 + unat b'" and c: "unat c = unat c'"
    by simp_all
  from byte_split [OF ab byte_bound byte_bound] c
  have "unat a = unat a' \<and> unat b = unat b' \<and> unat c = unat c'" by simp
  then show ?thesis by (simp add: word_unat_eq_iff)
qed

lemma b64_group_chars:
  assumes "n < 16777216"
  shows "list_all b64_char (b64_group n)" and "length (b64_group n) = 4"
  using digits_of(1) [OF assms] by (simp_all add: b64_group_def)

text \<open>Without its padding the encoding is text of the base64 alphabet, four digits per group.\<close>

lemma b64encode_unpadded:
  "\<exists>d. urlsafe_b64encode bs = d @ replicate ((3 - length bs mod 3) mod 3) CHR ''=''
     \<and> length d = (length bs * 4 + 2) div 3 \<and> list_all b64_char d"
proof (induction bs rule: urlsafe_b64encode.induct)
  case (2 a)
  have b: "unat a * 65536 < 16777216" using packed_bound [of a 0 0] by simp
  show ?case using b64_group_chars [OF b]
    by (intro exI [of _ "take 2 (b64_group (unat a * 65536))"])
      (auto simp: numeral_2_eq_2 list_all_iff dest: in_set_takeD)
next
  case (3 a b)
  have b: "unat a * 65536 + unat b * 256 < 16777216" using packed_bound [of a b 0] by simp
  show ?case using b64_group_chars [OF b]
    by (intro exI [of _ "take 3 (b64_group (unat a * 65536 + unat b * 256))"])
      (auto simp: list_all_iff dest: in_set_takeD)
next
  case (4 a b c rest)
  then obtain d where d: "urlsafe_b64encode rest = d @ replicate ((3 - length rest mod 3) mod 3) CHR ''=''"
    "length d = (length rest * 4 + 2) div 3" "list_all b64_char d" by blast
  have "length (a # b # c # rest) mod 3 = length rest mod 3"
    "(length (a # b # c # rest) * 4 + 2) div 3 = 4 + (length rest * 4 + 2) div 3"
    by (simp_all add: mod_Suc) presburger+
  with d show ?case using b64_group_chars [OF packed_bound [of a b c]]
    by (intro exI [of _ "b64_group (unat a * 65536 + unat b * 256 + unat c) @ d"]) simp
qed simp

lemma b64encode_inj:
  assumes "length xs = length ys" and "urlsafe_b64encode xs = urlsafe_b64encode ys"
  shows "xs = ys"
  using assms
proof (induction xs arbitrary: ys rule: urlsafe_b64encode.induct)
  case (2 a)
  then obtain a' where ys: "ys = [a']" by (cases ys) auto
  have b: "unat a * 65536 < 16777216" "unat a' * 65536 < 16777216"
    using packed_bound [of a 0 0] packed_bound [of a' 0 0] by simp_all
  have "unat a * 65536 div 4096 = unat a' * 65536 div 4096"
    using 2 ys by (intro b64_group_inj(1) [OF b]) simp
  then show ?case using ys by (simp add: word_unat_eq_iff)
next
  case (3 a b)
  then have "length ys = 2" by simp
  then obtain a' b' where ys: "ys = [a', b']"
    by (cases ys rule: urlsafe_b64encode.cases) simp_all
  have b: "unat a * 65536 + unat b * 256 < 16777216" "unat a' * 65536 + unat b' * 256 < 16777216"
    using packed_bound [of a b 0] packed_bound [of a' b' 0] by simp_all
  have "(unat a * 65536 + unat b * 256) div 64 = (unat a' * 65536 + unat b' * 256) div 64"
    using 3 ys by (intro b64_group_inj(2) [OF b]) simp
  moreover have "(x * 65536 + y * 256) div 64 = x * 1024 + y * 4" for x y :: nat
    using nonzero_mult_div_cancel_left [of 64 "x * 1024 + y * 4"] by simp
  ultimately have "unat a * 1024 + unat b * 4 = unat a' * 1024 + unat b' * 4" by (simp only:)
  then have "unat a * 65536 + unat b * 256 = unat a' * 65536 + unat b' * 256" by simp
  then show ?case using packed_inj [of a b 0 a' b' 0] ys by simp
next
  case (4 a b c rest)
  from 4(2) obtain a' b' c' rest' where ys: "ys = a' # b' # c' # rest'"
    by (cases ys rule: urlsafe_b64encode.cases) simp_all
  then have group: "b64_group (unat a * 65536 + unat b * 256 + unat c)
      = b64_group (unat a' * 65536 + unat b' * 256 + unat c')"
    and tail: "urlsafe_b64encode rest = urlsafe_b64encode rest'"
    using 4(3) b64_group_chars(2) [OF packed_bound] by (simp_all add: append_eq_append_conv)
  have "rest = rest'" using 4(2) ys tail by (intro 4(1)) simp_all
  with packed_inj [OF b64_group_inj(3) [OF packed_bound packed_bound group]] show ?case
    using ys by simp
qed simp

lemma rstrip_equals_padded:
  assumes "list_all b64_char d"
  shows "rstrip_equals (d @ replicate n CHR ''='') = d"
proof (cases "rev d")
  case (Cons c cs)
  then have "b64_char c" using assms by (metis list.set_intros(1) list_all_iff set_rev)
  then show ?thesis using Cons by (simp add: rstrip_equals_def dropWhile_append b64_char_def)
qed (simp add: rstrip_equals_def)

text \<open>A 32-byte digest always gives a well-formed key, and the key determines the digest.\<close>

lemma derive_key_total:
  assumes "length (sha256 (encode_ascii (candidate_key_domain @ t))) = 32"
  shows "\<exists>d. derive_key sha256 t = Some (candidate_key_prefix @ d)
    \<and> urlsafe_b64encode (sha256 (encode_ascii (candidate_key_domain @ t))) = d @ ''=''
    \<and> candidate_key_ok (candidate_key_prefix @ d)"
proof -
  obtain d where d: "urlsafe_b64encode (sha256 (encode_ascii (candidate_key_domain @ t))) = d @ ''=''"
    "length d = 43" "list_all b64_char d"
    using b64encode_unpadded [of "sha256 (encode_ascii (candidate_key_domain @ t))"] assms by auto
  have "rstrip_equals (d @ ''='') = d" using rstrip_equals_padded [OF d(3), of 1] by simp
  moreover have "candidate_key_ok (candidate_key_prefix @ d)"
    using d(2,3) by (auto simp: candidate_key_ok_def candidate_key_prefix_def b64_char_def list_all_iff)
  ultimately show ?thesis using d by (simp add: derive_key_def)
qed

lemma encode_ascii_inj: "encode_ascii s = encode_ascii t \<longleftrightarrow> s = t"
proof -
  have "inj (\<lambda>c. word_of_nat (code c) :: 8 word)"
  proof (rule injI)
    fix a b :: char
    assume "word_of_nat (code a) = (word_of_nat (code b) :: 8 word)"
    then have "unat (word_of_nat (code a) :: 8 word) = unat (word_of_nat (code b) :: 8 word)" by simp
    then have "code a = code b" by (simp add: unsigned_of_nat take_bit_eq_mod)
    then show "a = b" by simp
  qed
  then show ?thesis by (simp add: encode_ascii_def inj_map_eq_map)
qed

subsection \<open>Message templates\<close>

definition max_action_message_template_characters :: nat where
  "max_action_message_template_characters = 500"

definition variable_char :: "char \<Rightarrow> bool" where
  "variable_char c \<longleftrightarrow> ascii_lower c \<or> ascii_digit c \<or> c = CHR ''_''"

text \<open>\<open>\{\{([a-z][a-z0-9_]*)\}\}\<close> at the start of a text: the name and what follows.\<close>

definition variable_at :: "str \<Rightarrow> (str \<times> str) option" where
  "variable_at s =
     (case after_prefix (=) ''{{'' s of
        None \<Rightarrow> None
      | Some t \<Rightarrow>
          (case takeWhile variable_char t of
             [] \<Rightarrow> None
           | c # cs \<Rightarrow> if ascii_lower c
               then map_option (Pair (c # cs)) (after_prefix (=) ''}}'' (dropWhile variable_char t))
               else None))"

lemma variable_at_shorter:
  assumes "variable_at s = Some (name, rest)"
  shows "length rest < length s"
proof -
  obtain t where "s = ''{{'' @ t" "dropWhile variable_char t = ''}}'' @ rest"
    using assms by (auto simp: variable_at_def after_prefix_Some list.rel_eq
        split: option.splits list.splits if_splits)
  then show ?thesis using length_dropWhile_le [of variable_char t] by simp
qed

text \<open>
  \<open>finditer\<close> and \<open>sub("", ...)\<close>: the names in order, and the text that is left when every match is
  taken out.
\<close>

function template_parts :: "str \<Rightarrow> str list \<times> str" where
  "template_parts s =
     (case variable_at s of
        Some (name, rest) \<Rightarrow> apfst (Cons name) (template_parts rest)
      | None \<Rightarrow> (case s of
          [] \<Rightarrow> ([], [])
        | c # cs \<Rightarrow> apsnd (Cons c) (template_parts cs)))"
  by pat_completeness auto
termination
  by (relation "measure length") (auto dest: variable_at_shorter)

declare template_parts.simps [simp del]

text \<open>\<open>ActionMessageTemplate.__post_init__\<close>: the variables, each once.\<close>

definition message_template :: "str \<Rightarrow> str list option" where
  "message_template source = do {
     require (source \<noteq> [] \<and> strip source = source
       \<and> \<not> is_unsafe_text source max_action_message_template_characters);
     let (names, literal) = template_parts source;
     require (strip literal \<noteq> [] \<and> CHR ''{'' \<notin> set literal \<and> CHR ''}'' \<notin> set literal);
     require (list_all (\<lambda>n. n = ''target_display_name'') names);
     Some (rev (remdups (rev names)))
   }"

text \<open>What a template is: literal text without braces, and occurrences of the one variable.\<close>

inductive template_text :: "str \<Rightarrow> nat \<Rightarrow> str \<Rightarrow> bool" where
  T_end: "template_text [] 0 []"
| T_char: "c \<noteq> CHR ''{'' \<Longrightarrow> c \<noteq> CHR ''}'' \<Longrightarrow> template_text s n literal
    \<Longrightarrow> template_text (c # s) n (c # literal)"
| T_variable: "template_text s n literal
    \<Longrightarrow> template_text (''{{target_display_name}}'' @ s) (Suc n) literal"

lemma variable_at_literal: "c \<noteq> CHR ''{'' \<Longrightarrow> variable_at (c # s) = None"
  by (simp add: variable_at_def)

lemma variable_at_variable: "variable_at (''{{target_display_name}}'' @ s) = Some (''target_display_name'', s)"
  by (simp add: variable_at_def variable_char_def ascii_lower_def ascii_digit_def)

lemma variable_at_Some:
  assumes "variable_at s = Some (name, rest)"
  shows "s = ''{{'' @ name @ ''}}'' @ rest"
proof -
  obtain t where "s = ''{{'' @ t" "name = takeWhile variable_char t"
    "dropWhile variable_char t = ''}}'' @ rest"
    using assms by (auto simp: variable_at_def after_prefix_Some list.rel_eq
        split: option.splits list.splits if_splits)
  then show ?thesis by (metis takeWhile_dropWhile_id)
qed

lemma template_parts_text:
  assumes "template_text s n literal"
  shows "template_parts s = (replicate n ''target_display_name'', literal)"
  using assms
proof induction
  case T_end
  show ?case by (subst template_parts.simps) (simp add: variable_at_def)
next
  case (T_char c s n literal)
  then show ?case by (subst template_parts.simps) (simp add: variable_at_literal)
next
  case (T_variable s n literal)
  have "template_parts (''{{target_display_name}}'' @ s)
      = apfst (Cons ''target_display_name'') (template_parts s)"
    by (subst template_parts.simps) (simp only: variable_at_variable option.case prod.case)
  then show ?case using T_variable.IH by simp
qed

lemma template_text_parts:
  assumes "template_parts s = (names, literal)" and "CHR ''{'' \<notin> set literal" "CHR ''}'' \<notin> set literal"
    and "list_all (\<lambda>n. n = ''target_display_name'') names"
  shows "template_text s (length names) literal"
  using assms
proof (induction s arbitrary: names literal rule: template_parts.induct)
  case (1 s)
  show ?case
  proof (cases "variable_at s")
    case None
    show ?thesis
    proof (cases s)
      case Nil
      then show ?thesis using 1(3) None by (simp add: template_parts.simps T_end)
    next
      case (Cons c cs)
      obtain ns l where parts: "template_parts cs = (ns, l)" by fastforce
      have eqs: "names = ns" "literal = c # l"
        using 1(3) None Cons parts by (simp_all add: template_parts.simps [of "c # cs"])
      then show ?thesis using 1(1) [OF None Cons parts] 1(4-) Cons by (auto intro: T_char)
    qed
  next
    case (Some p)
    obtain name rest where p: "p = (name, rest)" by fastforce
    obtain ns l where parts: "template_parts rest = (ns, l)" by fastforce
    have eqs: "names = name # ns" "literal = l"
      using 1(3) Some p parts by (simp_all add: template_parts.simps [of s])
    have name: "name = ''target_display_name''" using 1(6) eqs by simp
    have "template_text rest (length ns) l" using 1(2) [OF Some p [symmetric] parts] 1(4-) eqs by simp
    then have "template_text (''{{target_display_name}}'' @ rest) (Suc (length ns)) l"
      by (rule T_variable)
    moreover have "s = ''{{target_display_name}}'' @ rest"
      using variable_at_Some [of s name rest] Some p name by simp
    ultimately show ?thesis using eqs by (simp only: list.size add_0_right add_Suc_right)
  qed
qed

end
