(* ===== verification/Wire.thy ===== *)
theory Wire
  imports Shared_Policies
begin

text \<open>
  The task-scoped part of the Executor v1 protocol (\<open>protocol/executor_envelope.py\<close>,
  \<open>protocol/action_result.py\<close>, \<open>protocol/action_authorization.py\<close>): message types, payloads,
  envelopes with the validators the models declare, and the signed action claims.

  An \<open>envelope\<close> is one validated message. Its canonical JSON text, and SHA-256 of a text, come
  from pydantic, \<open>json\<close> and \<open>hashlib\<close>; they are the parameters collected in \<open>codec\<close>:
  \<^item> \<open>cd_dumps\<close> is \<open>_canonical_message\<close> (the UTF-8 bytes of \<open>json.dumps(message.model_dump(...))\<close>);
  \<^item> \<open>cd_intent\<close> is the same text with \<open>message_id\<close> and \<open>sent_at\<close> excluded, so the operations
    apply it to an envelope whose two fields have been blanked (\<open>intent_of\<close>);
  \<^item> \<open>cd_sha256\<close> is the digest.
  A finite \<open>float\<close> of a payload is \<open>JFloat m e\<close>, of value \<open>m * 2 ^ e\<close>; the validators refuse the
  others. The bound of 16 KiB on the encoded payload depends on the JSON text and is not part of
  \<open>valid_envelope\<close>.
\<close>

datatype exposure_action = Browse | Comment | Direct_message

datatype message_type =
    M_task_offer | M_task_pause | M_task_resume | M_task_cancel | M_task_emergency_stop
  | M_task_discover | M_action_execute
  | M_task_accept | M_task_reject | M_task_control_ack | M_action_accept | M_action_reject
  | M_task_started | M_step_started | M_step_progress | M_step_completed | M_step_failed
  | M_session_login_required | M_handoff_requested | M_task_paused | M_task_resumed
  | M_task_cancelled | M_task_completed | M_task_partially_completed | M_task_failed
  | M_task_outcome_uncertain
  | M_task_discovery_batch | M_task_discovery_completed

text \<open>The classes of the discriminated union, by message type.\<close>

definition task_command_types :: "message_type set" where
  "task_command_types =
     {M_task_offer, M_task_pause, M_task_resume, M_task_cancel, M_task_emergency_stop}"

definition control_types :: "message_type set" where
  "control_types = {M_task_pause, M_task_resume, M_task_cancel, M_task_emergency_stop}"

definition inbound_types :: "message_type set" where
  "inbound_types = task_command_types \<union> {M_task_discover, M_action_execute}"

definition result_types :: "message_type set" where
  "result_types =
     {M_task_accept, M_task_reject, M_task_control_ack, M_action_accept, M_action_reject}"

definition event_types :: "message_type set" where
  "event_types =
     {M_task_started, M_step_started, M_step_progress, M_step_completed, M_step_failed,
      M_session_login_required, M_handoff_requested, M_task_paused, M_task_resumed,
      M_task_cancelled, M_task_completed, M_task_partially_completed, M_task_failed,
      M_task_outcome_uncertain}"

definition outbound_types :: "message_type set" where
  "outbound_types =
     result_types \<union> event_types \<union> {M_task_discovery_batch, M_task_discovery_completed}"

lemmas type_classes =
  task_command_types_def control_types_def inbound_types_def result_types_def event_types_def
  outbound_types_def

subsection \<open>Payloads\<close>

datatype json =
  JNull | JBool bool | JInt int | JFloat int int | JStr str | JArr "json list" | JObj "(str \<times> json) list"

text \<open>
  Python's \<open>==\<close> on JSON values: numbers by value, booleans among them, and dictionaries whatever
  their key order (the keys of a dictionary are distinct).
\<close>

definition json_number :: "json \<Rightarrow> (int \<times> int) option" where
  "json_number v = (case v of
     JBool b \<Rightarrow> Some (if b then 1 else 0, 0) | JInt n \<Rightarrow> Some (n, 0) | JFloat m e \<Rightarrow> Some (m, e)
   | _ \<Rightarrow> None)"

definition same_number :: "json \<Rightarrow> json \<Rightarrow> bool" where
  "same_number v w = (case (json_number v, json_number w) of
     (Some (m, e), Some (n, f)) \<Rightarrow> m * 2 ^ nat (e - f) = n * 2 ^ nat (f - e)
   | _ \<Rightarrow> False)"

fun json_eq :: "json \<Rightarrow> json \<Rightarrow> bool" where
  "json_eq (JObj a) (JObj b) \<longleftrightarrow> length a = length b
     \<and> list_all (\<lambda>kv. list_ex (\<lambda>kv'. fst kv' = fst kv \<and> json_eq (snd kv) (snd kv')) b) a"
| "json_eq (JArr xs) (JArr ys) \<longleftrightarrow> list_all2 json_eq xs ys"
| "json_eq (JStr s) (JStr t) \<longleftrightarrow> s = t"
| "json_eq JNull JNull \<longleftrightarrow> True"
| "json_eq v w \<longleftrightarrow> same_number v w"

lemma json_eq_refl [simp]: "json_eq v v"
proof (induction v)
  case (JObj kvs)
  then show ?case by (fastforce simp: list_all_iff list_ex_iff)
next
  case (JArr xs)
  then show ?case by (simp add: list.rel_refl_strong)
qed (simp_all add: same_number_def json_number_def)

record discovery_command =
  dc_keyword :: str
  dc_target_limit :: int
  dc_page_revision :: int

record candidate_payload =
  cp_platform_target_id :: str
  cp_display_name :: str
  cp_public_handle :: "str option"
  cp_page_revision :: int

record discovery_batch =
  db_page_revision :: int
  db_batch_index :: int
  db_batch_count :: int
  db_candidates :: "candidate_payload list"

record discovery_completed =
  dd_outcome :: str
  dd_evidence :: str
  dd_page_revision :: int
  dd_batch_count :: int
  dd_candidate_count :: int

record action_command =
  ac_action_id :: str
  ac_target_id :: str
  ac_action :: exposure_action
  ac_candidate :: candidate_payload
  ac_template_version :: "str option"
  ac_template :: "str option"

datatype payload =
    P_object "(str \<times> json) list"
  | P_discovery discovery_command
  | P_action action_command
  | P_batch discovery_batch
  | P_completed discovery_completed

definition payload_get :: "payload \<Rightarrow> str \<Rightarrow> json option" where
  "payload_get p k = (case p of P_object kvs \<Rightarrow> map_of kvs k | _ \<Rightarrow> None)"

text \<open>\<open>model_dump(mode="json")\<close>: the JSON object of a payload model.\<close>

definition action_name :: "exposure_action \<Rightarrow> str" where
  "action_name a = (case a of Browse \<Rightarrow> ''browse'' | Comment \<Rightarrow> ''comment''
     | Direct_message \<Rightarrow> ''direct_message'')"

definition json_opt :: "str option \<Rightarrow> json" where
  "json_opt v = (case v of None \<Rightarrow> JNull | Some s \<Rightarrow> JStr s)"

definition candidate_labels :: "candidate_payload \<Rightarrow> (str \<times> json) list" where
  "candidate_labels c =
     [(''platform_target_id'', JStr (cp_platform_target_id c)),
      (''display_name'', JStr (cp_display_name c)),
      (''public_handle'', json_opt (cp_public_handle c)),
      (''source'', JStr ''general_search_author''),
      (''page_revision'', JInt (cp_page_revision c))]"

definition payload_json :: "payload \<Rightarrow> json" where
  "payload_json p = (case p of
     P_object kvs \<Rightarrow> JObj kvs
   | P_discovery d \<Rightarrow> JObj
       [(''discovery_version'', JStr ''douyin.discovery.v1''), (''keyword'', JStr (dc_keyword d)),
        (''target_limit'', JInt (dc_target_limit d)), (''page_revision'', JInt (dc_page_revision d))]
   | P_action a \<Rightarrow> JObj
       ([(''action_version'', JStr ''douyin.action-command.v1''),
         (''action_id'', JStr (ac_action_id a)), (''target_id'', JStr (ac_target_id a)),
         (''action'', JStr (action_name (ac_action a)))]
        @ candidate_labels (ac_candidate a)
        @ [(''message_template_version'', json_opt (ac_template_version a)),
           (''message_template'', json_opt (ac_template a))])
   | P_batch b \<Rightarrow> JObj
       [(''discovery_version'', JStr ''douyin.discovery.v1''),
        (''page_revision'', JInt (db_page_revision b)), (''batch_index'', JInt (db_batch_index b)),
        (''batch_count'', JInt (db_batch_count b)),
        (''candidates'', JArr (map (\<lambda>c. JObj ((''candidate_version'', JStr ''douyin.candidate.v1'')
            # candidate_labels c)) (db_candidates b)))]
   | P_completed d \<Rightarrow> JObj
       [(''discovery_version'', JStr ''douyin.discovery.v1''), (''outcome'', JStr (dd_outcome d)),
        (''evidence'', JStr (dd_evidence d)), (''page_revision'', JInt (dd_page_revision d)),
        (''batch_count'', JInt (dd_batch_count d)),
        (''candidate_count'', JInt (dd_candidate_count d))])"

definition max_discovery_batch_candidates :: nat where
  "max_discovery_batch_candidates = 10"

definition max_discovery_batch_count :: int where
  "max_discovery_batch_count = 10"

definition sequence_ok :: "int \<Rightarrow> bool" where
  "sequence_ok n \<longleftrightarrow> 1 \<le> n \<and> n \<le> max_cross_runtime_sequence"

definition discovery_command_ok :: "discovery_command \<Rightarrow> bool" where
  "discovery_command_ok p \<longleftrightarrow>
     1 \<le> length (dc_keyword p) \<and> length (dc_keyword p) \<le> max_search_keyword_characters
     \<and> 1 \<le> dc_target_limit p \<and> dc_target_limit p \<le> int max_task_target_limit
     \<and> sequence_ok (dc_page_revision p)
     \<and> search_input_ok (dc_keyword p) (dc_target_limit p)"

text \<open>The candidate of a discovery batch or an action command, with its field bounds.\<close>

definition candidate_payload_ok :: "candidate_payload \<Rightarrow> bool" where
  "candidate_payload_ok c \<longleftrightarrow>
     1 \<le> length (cp_platform_target_id c)
     \<and> length (cp_platform_target_id c) \<le> max_douyin_target_id_characters
     \<and> 1 \<le> length (cp_display_name c)
     \<and> length (cp_display_name c) \<le> max_candidate_display_name_characters
     \<and> (case cp_public_handle c of None \<Rightarrow> True
        | Some h \<Rightarrow> 1 \<le> length h \<and> length h \<le> max_candidate_public_handle_characters)
     \<and> sequence_ok (cp_page_revision c)
     \<and> candidate_ok (cp_platform_target_id c) (cp_display_name c) (cp_public_handle c)
          (cp_page_revision c)"

text \<open>\<open>DouyinDiscoveryBatchPayload.require_consistent_page_and_batch\<close> and its field bounds.\<close>

definition discovery_batch_ok :: "discovery_batch \<Rightarrow> bool" where
  "discovery_batch_ok p \<longleftrightarrow>
     sequence_ok (db_page_revision p)
     \<and> 1 \<le> db_batch_index p \<and> db_batch_index p \<le> max_discovery_batch_count
     \<and> 1 \<le> db_batch_count p \<and> db_batch_count p \<le> max_discovery_batch_count
     \<and> 1 \<le> length (db_candidates p)
     \<and> length (db_candidates p) \<le> max_discovery_batch_candidates
     \<and> list_all candidate_payload_ok (db_candidates p)
     \<and> \<not> (db_batch_index p > db_batch_count p)
     \<and> list_all (\<lambda>c. cp_page_revision c = db_page_revision p) (db_candidates p)"

definition expected_evidence :: "str \<Rightarrow> str list" where
  "expected_evidence outcome =
     (if outcome = ''completed'' then [''candidates_extracted'']
      else if outcome = ''login_required'' then [''login_required'']
      else if outcome = ''handoff_required'' then
        [''blocking_dialog'', ''page_version_unknown'', ''conflicting_anchors'']
      else if outcome = ''failed'' then
        [''no_candidates'', ''navigation_timed_out'', ''home_ready_timed_out'',
         ''action_timed_out'', ''result_url_timed_out'', ''results_ready_timed_out'',
         ''results_unavailable'', ''privacy_rejected'', ''result_count_decreased'',
         ''cancellation_unavailable'', ''cancellation_requested'', ''page_unavailable'']
      else [])"

text \<open>\<open>DouyinDiscoveryCompletedPayload.require_consistent_outcome\<close> and its field bounds.\<close>

definition discovery_completed_ok :: "discovery_completed \<Rightarrow> bool" where
  "discovery_completed_ok p \<longleftrightarrow>
     sequence_ok (dd_page_revision p)
     \<and> 0 \<le> dd_batch_count p \<and> dd_batch_count p \<le> max_discovery_batch_count
     \<and> 0 \<le> dd_candidate_count p \<and> dd_candidate_count p \<le> 100
     \<and> dd_evidence p \<in> set (expected_evidence (dd_outcome p))
     \<and> (if dd_outcome p = ''completed''
        then dd_candidate_count p \<noteq> 0
          \<and> dd_batch_count p =
              (dd_candidate_count p + int max_discovery_batch_candidates - 1)
              div int max_discovery_batch_candidates
        else dd_batch_count p = 0 \<and> dd_candidate_count p = 0)"

text \<open>\<open>DouyinActionCommandPayload.require_closed_action_intent\<close>.\<close>

definition action_command_ok :: "action_command \<Rightarrow> bool" where
  "action_command_ok p \<longleftrightarrow>
     is_canonical_uuid_v4 (ac_action_id p) \<and> is_canonical_uuid_v4 (ac_target_id p)
     \<and> candidate_payload_ok (ac_candidate p)
     \<and> (if ac_action p = Browse
        then ac_template_version p = None \<and> ac_template p = None
        else ac_template_version p = Some ''action-message-template.v1''
          \<and> (case ac_template p of None \<Rightarrow> False | Some t \<Rightarrow> message_template t \<noteq> None))"

subsection \<open>Payload safety\<close>

definition max_executor_payload_depth :: nat where
  "max_executor_payload_depth = 8"

definition max_executor_collection_items :: nat where
  "max_executor_collection_items = 64"

definition max_executor_string_length :: nat where
  "max_executor_string_length = 4096"

text \<open>\<open>_normalized_payload_name\<close>: camel case split, separators squeezed, lower case.\<close>

fun camel_split :: "str \<Rightarrow> str" where
  "camel_split (a # b # cs) =
     a # (if (ascii_lower a \<or> ascii_digit a) \<and> ascii_upper b then ''_'' else [])
       @ camel_split (b # cs)"
| "camel_split cs = cs"

function squeeze_separators :: "str \<Rightarrow> str" where
  "squeeze_separators [] = []"
| "squeeze_separators (c # cs) =
     (if c \<in> set ''.-'' then CHR ''_'' # squeeze_separators (dropWhile (\<lambda>x. x \<in> set ''.-'') cs)
      else c # squeeze_separators cs)"
  by pat_completeness auto
termination
  by (relation "measure length") (auto simp: le_imp_less_Suc length_dropWhile_le)

definition normalized_payload_name :: "str \<Rightarrow> str" where
  "normalized_payload_name s = map lower_char (squeeze_separators (camel_split s))"

fun split_underscore :: "str \<Rightarrow> str list" where
  "split_underscore [] = [[]]"
| "split_underscore (c # cs) =
     (if c = CHR ''_'' then [] # split_underscore cs
      else (case split_underscore cs of [] \<Rightarrow> [[c]] | w # ws \<Rightarrow> (c # w) # ws))"

definition sensitive_payload_segments :: "str list" where
  "sensitive_payload_segments =
     [''cookie'', ''cookies'', ''credential'', ''credentials'', ''password'', ''secret'',
      ''secrets'', ''token'', ''tokens'']"

definition sensitive_payload_names :: "str list" where
  "sensitive_payload_names =
     [''access_token'', ''api_key'', ''authorization'', ''captcha_code'', ''cookie'', ''cookies'',
      ''credential'', ''credentials'', ''file_path'', ''image'', ''image_data'', ''inline_image'',
      ''inline_screenshot'', ''local_path'', ''otp'', ''password'', ''private_key'',
      ''refresh_token'', ''screenshot'', ''secret'', ''secrets'', ''session_cookie'', ''token'',
      ''tokens'', ''verification_code'']"

definition forbidden_field :: "str \<Rightarrow> bool" where
  "forbidden_field key \<longleftrightarrow>
     key = [] \<or> length key > 128 \<or> contains_control_or_bidi key
     \<or> normalized_payload_name key \<in> set sensitive_payload_names
     \<or> list_ex (\<lambda>w. w \<in> set sensitive_payload_segments)
          (split_underscore (normalized_payload_name key))"

definition unsafe_payload_string :: "str \<Rightarrow> bool" where
  "unsafe_payload_string s = is_unsafe_text s max_executor_string_length"

fun payload_value_ok :: "nat \<Rightarrow> json \<Rightarrow> bool" where
  "payload_value_ok depth (JObj kvs) \<longleftrightarrow>
     depth \<le> max_executor_payload_depth \<and> length kvs \<le> max_executor_collection_items
     \<and> list_all (\<lambda>kv. \<not> forbidden_field (fst kv) \<and> payload_value_ok (depth + 1) (snd kv)) kvs"
| "payload_value_ok depth (JArr vs) \<longleftrightarrow>
     depth \<le> max_executor_payload_depth \<and> length vs \<le> max_executor_collection_items
     \<and> list_all (payload_value_ok (depth + 1)) vs"
| "payload_value_ok depth (JStr s) \<longleftrightarrow>
     depth \<le> max_executor_payload_depth \<and> \<not> unsafe_payload_string s"
| "payload_value_ok depth v \<longleftrightarrow> depth \<le> max_executor_payload_depth"

subsection \<open>Envelopes\<close>

record envelope =
  message_id :: str
  message_type :: message_type
  sent_at :: instant
  deadline_at :: instant
  installation_id :: str
  executor_id :: str
  correlation_id :: str
  idempotency_key :: str
  sequence :: int
  payload :: payload
  task_id :: str
  execution_attempt_id :: str

text \<open>\<open>^[A-Za-z0-9][A-Za-z0-9._:/-]{0,127}$\<close>, matched in full.\<close>

definition alnum :: "char \<Rightarrow> bool" where
  "alnum c \<longleftrightarrow>
     c \<in> set ''ABCDEFGHIJKLMNOPQRSTUVWXYZabcdefghijklmnopqrstuvwxyz0123456789''"

definition idempotency_key_ok :: "str \<Rightarrow> bool" where
  "idempotency_key_ok s =
     (case s of [] \<Rightarrow> False
      | c # cs \<Rightarrow> alnum c \<and> length cs \<le> 127 \<and> list_all (\<lambda>x. alnum x \<or> x \<in> set ''._:/-'') cs)"

definition offer_baseline :: "envelope \<Rightarrow> int option" where
  "offer_baseline e =
     (case payload_get (payload e) ''task_event_sequence_baseline'' of
        Some (JInt n) \<Rightarrow> Some n
      | _ \<Rightarrow> None)"

text \<open>\<open>TaskCommandEnvelope.require_exact_command_payload\<close>.\<close>

definition task_command_payload_ok :: "envelope \<Rightarrow> bool" where
  "task_command_payload_ok e =
     (case payload e of
        P_object kvs \<Rightarrow>
          (if message_type e = M_task_offer
           then map fst kvs = [''task_event_sequence_baseline'']
             \<and> (case offer_baseline e of
                  Some n \<Rightarrow> 0 \<le> n \<and> n < max_cross_runtime_sequence
                | None \<Rightarrow> False)
           else kvs = [])
      | _ \<Rightarrow> False)"

definition envelope_payload_ok :: "envelope \<Rightarrow> bool" where
  "envelope_payload_ok e =
     (if message_type e \<in> task_command_types then task_command_payload_ok e
      else if message_type e = M_task_discover then
        (case payload e of P_discovery p \<Rightarrow> discovery_command_ok p | _ \<Rightarrow> False)
      else if message_type e = M_action_execute then
        (case payload e of
           P_action p \<Rightarrow> action_command_ok p \<and> idempotency_key e = ''action:'' @ ac_action_id p
         | _ \<Rightarrow> False)
      else if message_type e = M_task_discovery_batch then
        (case payload e of P_batch p \<Rightarrow> discovery_batch_ok p | _ \<Rightarrow> False)
      else if message_type e = M_task_discovery_completed then
        (case payload e of P_completed p \<Rightarrow> discovery_completed_ok p | _ \<Rightarrow> False)
      else (case payload e of P_object kvs \<Rightarrow> distinct (map fst kvs) | _ \<Rightarrow> False))"

text \<open>The validators of \<open>_ExecutorEnvelopeBase\<close> and of the class of the message type.\<close>

definition valid_envelope :: "envelope \<Rightarrow> bool" where
  "valid_envelope e \<longleftrightarrow>
     is_canonical_uuid_v4 (message_id e) \<and> is_canonical_uuid_v4 (installation_id e)
     \<and> is_canonical_uuid_v4 (executor_id e) \<and> is_canonical_uuid_v4 (correlation_id e)
     \<and> is_canonical_uuid_v4 (task_id e) \<and> is_canonical_uuid_v4 (execution_attempt_id e)
     \<and> idempotency_key_ok (idempotency_key e) \<and> sequence_ok (sequence e)
     \<and> valid_instant (sent_at e) \<and> valid_instant (deadline_at e)
     \<and> sent_at e < deadline_at e \<and> envelope_payload_ok e
     \<and> payload_value_ok 0 (payload_json (payload e))"

text \<open>\<open>model_validate\<close> of a message the executor builds.\<close>

definition model_validate :: "envelope \<Rightarrow> envelope option" where
  "model_validate e = (if valid_envelope e then Some e else None)"

lemma model_validate_Some: "model_validate e = Some e' \<longleftrightarrow> e' = e \<and> valid_envelope e"
  by (auto simp: model_validate_def)

record codec =
  cd_dumps :: "envelope \<Rightarrow> str"
  cd_intent :: "envelope \<Rightarrow> str"
  cd_sha256 :: "str \<Rightarrow> bytes"

definition intent_of :: "envelope \<Rightarrow> envelope" where
  "intent_of e = e\<lparr>message_id := [], sent_at := 0\<rparr>"

subsection \<open>Action authorization claims\<close>

record claims =
  cl_action_id :: str
  cl_target_id :: str
  cl_attempt_id :: str
  cl_task_id :: str
  cl_installation_id :: str
  cl_executor_id :: str
  cl_platform :: str
  cl_action :: exposure_action
  cl_idempotency_key :: str
  cl_authorized_at :: instant
  cl_deadline_at :: instant

definition authorization_clock_skew :: int where
  "authorization_clock_skew = seconds 30"

definition authorization_max_lifetime :: int where
  "authorization_max_lifetime = seconds 300"

text \<open>\<open>ActionAuthorizationClaims.__post_init__\<close>; the two instants are already canonical.\<close>

definition claims_ok :: "claims \<Rightarrow> bool" where
  "claims_ok c \<longleftrightarrow>
     is_canonical_uuid_v4 (cl_action_id c) \<and> is_canonical_uuid_v4 (cl_target_id c)
     \<and> is_canonical_uuid_v4 (cl_attempt_id c) \<and> is_canonical_uuid_v4 (cl_task_id c)
     \<and> is_canonical_uuid_v4 (cl_installation_id c) \<and> is_canonical_uuid_v4 (cl_executor_id c)
     \<and> cl_platform c = ''douyin''
     \<and> cl_idempotency_key c = ''action:'' @ cl_action_id c
     \<and> cl_authorized_at c < cl_deadline_at c
     \<and> cl_deadline_at c - cl_authorized_at c \<le> authorization_max_lifetime"

end
