(* ===== verification/Ledger_Schema.thy ===== *)
theory Ledger_Schema
  imports Sql_Table Wire
begin

text \<open>
  The durable state of the Local Executor (\<open>executor/ledger.py\<close>): one record field per SQLite
  table of schema version 9, the row types, the \<open>CHECK\<close>, \<open>UNIQUE\<close> and \<open>FOREIGN KEY\<close>
  constraints of the migrations, and the value objects the readers build from rows
  (\<open>executor/side_effect_ledger.py\<close>) with the validation their constructors do.

  Enumerated \<open>TEXT\<close> columns are datatypes (their \<open>CHECK (... IN ...)\<close> is the type); instants are
  stored as instants; the \<open>envelope\<close> column holds the message its canonical JSON text stands for,
  and the redacted projection of an action command keeps only the two fields the code keeps.
  \<open>side_effects\<close> and \<open>publish_dispatches\<close> share the columns of the prepared / dispatched /
  settled protocol, the record \<open>progress\<close>, and so share their \<open>CHECK\<close>.
\<close>

subsection \<open>Rows\<close>

datatype effect_state = Prepared | Dispatched | Verified | Uncertain

record progress =
  pg_state :: effect_state
  pg_prepared_at :: instant
  pg_dispatched_at :: "instant option"
  pg_settled_at :: "instant option"
  pg_verification :: "bytes option"
  pg_revision :: int

record guard_row =
  gr_engaged :: bool
  gr_revision :: int
  gr_changed_at :: "instant option"
  gr_network_connected :: bool

record policy_row =
  pr_minimum_interval :: "int option"
  pr_task_limit :: "int option"

record admission_row =
  ad_action_id :: str
  ad_target_id :: str
  ad_attempt_id :: str
  ad_task_id :: str
  ad_installation_id :: str
  ad_executor_id :: str
  ad_platform :: str
  ad_action :: exposure_action
  ad_idempotency_key :: str
  ad_fingerprint :: bytes
  ad_authorized_at :: instant
  ad_deadline_at :: instant
  ad_admitted_at :: instant
  ad_ordinal :: int

record effect_row =
  ef_action_id :: str
  ef_fingerprint :: bytes
  ef_progress :: progress

record publish_row =
  pu_job_id :: str
  pu_content_hash :: str
  pu_progress :: progress

datatype checkpoint_state = CK_received | CK_running | CK_paused | CK_terminal | CK_outcome_uncertain

record checkpoint_row =
  ck_attempt_id :: str
  ck_task_id :: str
  ck_last_command :: int
  ck_last_event :: int
  ck_state :: checkpoint_state
  ck_revision :: int

datatype stored_envelope = Stored_full envelope | Stored_redacted str message_type

record command_row =
  cm_message_id :: str
  cm_idempotency_key :: str
  cm_intent_sha256 :: bytes
  cm_envelope :: stored_envelope
  cm_task_id :: str
  cm_attempt_id :: str
  cm_sequence :: int
  cm_message_type :: message_type

record outbox_row =
  ob_ordinal :: int
  ob_message_id :: str
  ob_idempotency_key :: str
  ob_intent_sha256 :: bytes
  ob_envelope :: envelope
  ob_source :: str
  ob_delivered :: bool
  ob_expired :: bool

datatype session_state = Healthy | Expired | Missing | Risk | Unknown

record session_row =
  ss_platform :: str
  ss_state :: session_state
  ss_revision :: int
  ss_observed_at :: instant

record ledger =
  own_installation_id :: str
  own_executor_id :: str
  action_guard :: guard_row
  action_policy :: policy_row
  admissions :: "admission_row list"
  side_effects :: "effect_row list"
  publish_dispatches :: "publish_row list"
  checkpoints :: "checkpoint_row list"
  commands :: "command_row list"
  outbox :: "outbox_row list"
  sessions :: "session_row list"

text \<open>The generated column \<open>correlation_id\<close> of \<open>executor_commands\<close>.\<close>

definition cm_correlation :: "command_row \<Rightarrow> str" where
  "cm_correlation r = (case cm_envelope r of
     Stored_full e \<Rightarrow> correlation_id e
   | Stored_redacted c _ \<Rightarrow> c)"

subsection \<open>Constraints\<close>

text \<open>
  The table \<open>CHECK\<close> of migrations 5 and 8, which is also what the constructors of
  \<open>LocalSideEffect\<close> and \<open>LocalPublishDispatch\<close> require of these fields.
\<close>

definition progress_ok :: "progress \<Rightarrow> bool" where
  "progress_ok p = (case pg_state p of
     Prepared \<Rightarrow> pg_revision p = 1 \<and> pg_dispatched_at p = None \<and> pg_settled_at p = None
       \<and> pg_verification p = None
   | Dispatched \<Rightarrow> pg_revision p = 2 \<and> pg_settled_at p = None \<and> pg_verification p = None
       \<and> (case pg_dispatched_at p of None \<Rightarrow> False | Some d \<Rightarrow> pg_prepared_at p \<le> d)
   | Verified \<Rightarrow> pg_revision p = 3
       \<and> (case pg_verification p of None \<Rightarrow> False | Some v \<Rightarrow> is_fingerprint v)
       \<and> (case (pg_dispatched_at p, pg_settled_at p) of
            (Some d, Some s) \<Rightarrow> pg_prepared_at p \<le> d \<and> d \<le> s | _ \<Rightarrow> False)
   | Uncertain \<Rightarrow> pg_revision p = 3 \<and> pg_verification p = None
       \<and> (case (pg_dispatched_at p, pg_settled_at p) of
            (Some d, Some s) \<Rightarrow> pg_prepared_at p \<le> d \<and> d \<le> s | _ \<Rightarrow> False))"

definition guard_ok :: "guard_row \<Rightarrow> bool" where
  "guard_ok g \<longleftrightarrow>
     (gr_revision g = 0 \<and> \<not> gr_engaged g \<and> gr_changed_at g = None)
     \<or> (1 \<le> gr_revision g \<and> gr_changed_at g \<noteq> None)"

definition max_local_action_interval_seconds :: int where
  "max_local_action_interval_seconds = 3600"

definition max_local_task_actions :: int where
  "max_local_task_actions = 100"

definition hard_policy_ok :: "int \<Rightarrow> int \<Rightarrow> bool" where
  "hard_policy_ok interval limit \<longleftrightarrow>
     1 \<le> interval \<and> interval \<le> max_local_action_interval_seconds
     \<and> 1 \<le> limit \<and> limit \<le> max_local_task_actions"

definition policy_ok :: "policy_row \<Rightarrow> bool" where
  "policy_ok p = (case (pr_minimum_interval p, pr_task_limit p) of
     (None, None) \<Rightarrow> True
   | (Some i, Some n) \<Rightarrow> hard_policy_ok i n
   | _ \<Rightarrow> False)"

definition admission_ok :: "admission_row \<Rightarrow> bool" where
  "admission_ok r \<longleftrightarrow>
     length (ad_action_id r) = 36 \<and> length (ad_target_id r) = 36
     \<and> length (ad_attempt_id r) = 36 \<and> length (ad_task_id r) = 36
     \<and> length (ad_installation_id r) = 36 \<and> length (ad_executor_id r) = 36
     \<and> ad_platform r = ''douyin'' \<and> is_fingerprint (ad_fingerprint r)
     \<and> 1 \<le> ad_ordinal r \<and> ad_ordinal r \<le> max_local_task_actions"

definition admission_clash :: "admission_row \<Rightarrow> admission_row \<Rightarrow> bool" where
  "admission_clash a b \<longleftrightarrow>
     ad_action_id a = ad_action_id b \<or> ad_idempotency_key a = ad_idempotency_key b
     \<or> (ad_task_id a = ad_task_id b \<and> ad_platform a = ad_platform b
        \<and> ad_action a = ad_action b \<and> ad_ordinal a = ad_ordinal b)"

definition effect_ok :: "effect_row \<Rightarrow> bool" where
  "effect_ok r \<longleftrightarrow>
     length (ef_action_id r) = 36 \<and> is_fingerprint (ef_fingerprint r) \<and> progress_ok (ef_progress r)"

definition effect_clash :: "effect_row \<Rightarrow> effect_row \<Rightarrow> bool" where
  "effect_clash a b \<longleftrightarrow> ef_action_id a = ef_action_id b"

definition publish_ok :: "publish_row \<Rightarrow> bool" where
  "publish_ok r \<longleftrightarrow>
     length (pu_job_id r) = 36 \<and> length (pu_content_hash r) = 64 \<and> progress_ok (pu_progress r)"

definition publish_clash :: "publish_row \<Rightarrow> publish_row \<Rightarrow> bool" where
  "publish_clash a b \<longleftrightarrow> pu_job_id a = pu_job_id b"

definition checkpoint_ok :: "checkpoint_row \<Rightarrow> bool" where
  "checkpoint_ok r \<longleftrightarrow> 1 \<le> ck_last_command r \<and> 0 \<le> ck_last_event r \<and> 1 \<le> ck_revision r"

definition checkpoint_clash :: "checkpoint_row \<Rightarrow> checkpoint_row \<Rightarrow> bool" where
  "checkpoint_clash a b \<longleftrightarrow> ck_attempt_id a = ck_attempt_id b"

definition command_ok :: "command_row \<Rightarrow> bool" where
  "command_ok r \<longleftrightarrow>
     is_fingerprint (cm_intent_sha256 r) \<and> 1 \<le> cm_sequence r \<and> cm_message_type r \<in> inbound_types"

definition command_clash :: "command_row \<Rightarrow> command_row \<Rightarrow> bool" where
  "command_clash a b \<longleftrightarrow>
     cm_message_id a = cm_message_id b \<or> cm_idempotency_key a = cm_idempotency_key b
     \<or> (cm_attempt_id a = cm_attempt_id b \<and> cm_sequence a = cm_sequence b)"

definition outbox_ok :: "outbox_row \<Rightarrow> bool" where
  "outbox_ok r \<longleftrightarrow> 1 \<le> ob_ordinal r \<and> is_fingerprint (ob_intent_sha256 r)"

definition outbox_clash :: "outbox_row \<Rightarrow> outbox_row \<Rightarrow> bool" where
  "outbox_clash a b \<longleftrightarrow>
     ob_message_id a = ob_message_id b \<or> ob_idempotency_key a = ob_idempotency_key b
     \<or> ob_ordinal a = ob_ordinal b"

definition session_ok :: "session_row \<Rightarrow> bool" where
  "session_ok r \<longleftrightarrow> ss_platform r = ''douyin'' \<and> 1 \<le> ss_revision r"

definition session_clash :: "session_row \<Rightarrow> session_row \<Rightarrow> bool" where
  "session_clash a b \<longleftrightarrow> ss_platform a = ss_platform b"

interpretation admission_table: keyed_table admission_ok admission_clash ad_action_id
  by unfold_locales (simp add: admission_clash_def)

interpretation effect_table: keyed_table effect_ok effect_clash ef_action_id
  by unfold_locales (simp add: effect_clash_def)

interpretation publish_table: keyed_table publish_ok publish_clash pu_job_id
  by unfold_locales (simp add: publish_clash_def)

interpretation checkpoint_table: keyed_table checkpoint_ok checkpoint_clash ck_attempt_id
  by unfold_locales (simp add: checkpoint_clash_def)

interpretation command_table: keyed_table command_ok command_clash cm_message_id
  by unfold_locales (simp add: command_clash_def)

interpretation outbox_table: keyed_table outbox_ok outbox_clash ob_message_id
  by unfold_locales (simp add: outbox_clash_def)

interpretation session_table: keyed_table session_ok session_clash ss_platform
  by unfold_locales (simp add: session_clash_def)

text \<open>Every constraint of the schema, over the whole ledger.\<close>

definition ledger_wf :: "ledger \<Rightarrow> bool" where
  "ledger_wf L \<longleftrightarrow>
     guard_ok (action_guard L) \<and> policy_ok (action_policy L)
     \<and> sql_wf admission_ok admission_clash (admissions L)
     \<and> sql_wf effect_ok effect_clash (side_effects L)
     \<and> sql_wf publish_ok publish_clash (publish_dispatches L)
     \<and> sql_wf checkpoint_ok checkpoint_clash (checkpoints L)
     \<and> sql_wf command_ok command_clash (commands L)
     \<and> sql_wf outbox_ok outbox_clash (outbox L)
     \<and> sql_wf session_ok session_clash (sessions L)
     \<and> ef_action_id ` set (side_effects L) \<subseteq> ad_action_id ` set (admissions L)
     \<and> cm_attempt_id ` set (commands L) \<subseteq> ck_attempt_id ` set (checkpoints L)
     \<and> ob_source ` set (outbox L) \<subseteq> cm_message_id ` set (commands L)"

text \<open>A database that has just been migrated and bound to one installation and executor.\<close>

definition new_ledger :: "str \<Rightarrow> str \<Rightarrow> ledger" where
  "new_ledger installation executor = \<lparr>
     own_installation_id = installation, own_executor_id = executor,
     action_guard = \<lparr>gr_engaged = False, gr_revision = 0, gr_changed_at = None,
       gr_network_connected = True\<rparr>,
     action_policy = \<lparr>pr_minimum_interval = None, pr_task_limit = None\<rparr>,
     admissions = [], side_effects = [], publish_dispatches = [], checkpoints = [],
     commands = [], outbox = [], sessions = []\<rparr>"

lemma new_ledger_wf: "ledger_wf (new_ledger i e)"
  by (simp add: ledger_wf_def new_ledger_def guard_ok_def policy_ok_def)

subsection \<open>Values read from rows\<close>

record emergency_stop =
  es_engaged :: bool
  es_revision :: int
  es_changed_at :: "instant option"

text \<open>\<open>_action_emergency_stop\<close> and \<open>LocalActionEmergencyStop.__post_init__\<close>.\<close>

definition read_emergency_stop :: "guard_row \<Rightarrow> emergency_stop option" where
  "read_emergency_stop g =
     (if gr_revision g < 0
       \<or> (gr_revision g = 0 \<and> (gr_engaged g \<or> gr_changed_at g \<noteq> None))
       \<or> (gr_revision g > 0 \<and> gr_changed_at g = None)
      then None
      else Some \<lparr>es_engaged = gr_engaged g, es_revision = gr_revision g,
        es_changed_at = gr_changed_at g\<rparr>)"

record admission =
  am_row :: admission_row
  am_replayed :: bool

text \<open>\<open>_action_admission\<close> and \<open>LocalActionAdmission.__post_init__\<close>.\<close>

definition make_admission :: "admission_row \<Rightarrow> bool \<Rightarrow> admission option" where
  "make_admission r replayed =
     (if is_canonical_uuid_v4 (ad_action_id r) \<and> is_canonical_uuid_v4 (ad_target_id r)
       \<and> is_canonical_uuid_v4 (ad_attempt_id r) \<and> is_canonical_uuid_v4 (ad_task_id r)
       \<and> is_canonical_uuid_v4 (ad_installation_id r) \<and> is_canonical_uuid_v4 (ad_executor_id r)
       \<and> ad_platform r = ''douyin''
       \<and> ad_idempotency_key r = ''action:'' @ ad_action_id r
       \<and> is_fingerprint (ad_fingerprint r)
       \<and> ad_authorized_at r < ad_deadline_at r \<and> ad_admitted_at r < ad_deadline_at r
       \<and> 1 \<le> ad_ordinal r \<and> ad_ordinal r \<le> max_local_task_actions
      then Some \<lparr>am_row = r, am_replayed = replayed\<rparr> else None)"

record side_effect =
  se_admission :: admission_row
  se_fingerprint :: bytes
  se_progress :: progress
  se_replayed :: bool

text \<open>
  \<open>_SIDE_EFFECT_SELECT\<close> joins a row with its admission (a missing one leaves nulls, which the
  constructor refuses); \<open>_side_effect\<close> and \<open>LocalSideEffect.__post_init__\<close> check the rest.
\<close>

definition make_side_effect :: "admission_row \<Rightarrow> effect_row \<Rightarrow> bool \<Rightarrow> side_effect option" where
  "make_side_effect a r replayed =
     (if is_canonical_uuid_v4 (ef_action_id r) \<and> is_canonical_uuid_v4 (ad_target_id a)
       \<and> is_canonical_uuid_v4 (ad_attempt_id a) \<and> is_canonical_uuid_v4 (ad_task_id a)
       \<and> is_canonical_uuid_v4 (ad_installation_id a) \<and> is_canonical_uuid_v4 (ad_executor_id a)
       \<and> ad_platform a = ''douyin'' \<and> ad_action a \<in> {Comment, Direct_message}
       \<and> ad_idempotency_key a = ''action:'' @ ef_action_id r
       \<and> is_fingerprint (ef_fingerprint r) \<and> progress_ok (ef_progress r)
      then Some \<lparr>se_admission = a, se_fingerprint = ef_fingerprint r,
        se_progress = ef_progress r, se_replayed = replayed\<rparr> else None)"

definition read_side_effect :: "ledger \<Rightarrow> effect_row \<Rightarrow> bool \<Rightarrow> side_effect option" where
  "read_side_effect L r replayed = do {
     a \<leftarrow> sql_lookup ad_action_id (ef_action_id r) (admissions L);
     make_side_effect a r replayed
   }"

definition se_state :: "side_effect \<Rightarrow> effect_state" where
  "se_state e = pg_state (se_progress e)"

definition se_action_id :: "side_effect \<Rightarrow> str" where
  "se_action_id e = ad_action_id (se_admission e)"

record publish_dispatch =
  pd_job_id :: str
  pd_content_hash :: str
  pd_progress :: progress
  pd_replayed :: bool

text \<open>\<open>_publish_dispatch\<close> and \<open>LocalPublishDispatch.__post_init__\<close>.\<close>

definition read_publish_dispatch :: "publish_row \<Rightarrow> bool \<Rightarrow> publish_dispatch option" where
  "read_publish_dispatch r replayed =
     (if is_canonical_uuid_v4 (pu_job_id r) \<and> is_sha256_hex (pu_content_hash r)
       \<and> progress_ok (pu_progress r)
      then Some \<lparr>pd_job_id = pu_job_id r, pd_content_hash = pu_content_hash r,
        pd_progress = pu_progress r, pd_replayed = replayed\<rparr> else None)"

lemma read_emergency_stop_Some:
  "read_emergency_stop g = Some s \<Longrightarrow>
     es_engaged s = gr_engaged g \<and> es_revision s = gr_revision g \<and> es_changed_at s = gr_changed_at g"
  by (auto simp: read_emergency_stop_def split: if_splits)

lemma read_emergency_stop_ok:
  "guard_ok g \<Longrightarrow> read_emergency_stop g =
     Some \<lparr>es_engaged = gr_engaged g, es_revision = gr_revision g, es_changed_at = gr_changed_at g\<rparr>"
  by (auto simp: read_emergency_stop_def guard_ok_def)

lemma read_side_effect_Some:
  assumes "read_side_effect L r b = Some e"
  shows "se_progress e = ef_progress r \<and> se_fingerprint e = ef_fingerprint r
    \<and> se_action_id e = ef_action_id r \<and> se_replayed e = b
    \<and> sql_lookup ad_action_id (ef_action_id r) (admissions L) = Some (se_admission e)"
  using assms
  by (auto simp: read_side_effect_def make_side_effect_def bind_eq_Some_conv se_action_id_def
      split: if_splits dest: sql_lookup_SomeD)

lemma read_publish_dispatch_Some:
  "read_publish_dispatch r b = Some e \<Longrightarrow>
     pd_progress e = pu_progress r \<and> pd_content_hash e = pu_content_hash r
     \<and> pd_job_id e = pu_job_id r \<and> pd_replayed e = b"
  by (auto simp: read_publish_dispatch_def split: if_splits)

end
