(* ===== verification/Ledger_Effects.thy ===== *)
theory Ledger_Effects
  imports Ledger_Schema "HOL-Library.Product_Lexorder" "HOL-Library.List_Lexorder"
    "HOL-Library.Char_ord"
begin

text \<open>
  The operations of \<open>ExecutorLedger\<close> that decide whether a platform action may happen: the
  transport gate, the emergency-stop latch, the monotone hard policy, action admission, and the
  two write-ahead protocols (side effects of admitted actions, and operator-confirmed publishes)
  that grant at most one dispatch each.

  An operation takes the ledger and returns its result with the next ledger. \<open>None\<close> is
  \<open>ExecutorLedgerRejected\<close>; the transaction is then rolled back, so the ledger is unchanged.
\<close>

subsection \<open>Transport gate\<close>

definition transport_connected :: "ledger \<Rightarrow> bool" where
  "transport_connected L = gr_network_connected (action_guard L)"

definition set_transport_connected :: "ledger \<Rightarrow> bool \<Rightarrow> bool \<times> ledger" where
  "set_transport_connected L online =
     (if gr_network_connected (action_guard L) = online then (False, L)
      else (True, L\<lparr>action_guard := (action_guard L)\<lparr>gr_network_connected := online\<rparr>\<rparr>))"

subsection \<open>Emergency-stop latch\<close>

definition get_action_emergency_stop :: "ledger \<Rightarrow> emergency_stop option" where
  "get_action_emergency_stop L = read_emergency_stop (action_guard L)"

text \<open>\<open>_engage_action_latch_in_connection\<close>: already engaged is a no-op.\<close>

definition engage_action_latch :: "ledger \<Rightarrow> instant \<Rightarrow> (emergency_stop \<times> ledger) option" where
  "engage_action_latch L changed_at = do {
     cur \<leftarrow> read_emergency_stop (action_guard L);
     if es_engaged cur then Some (cur, L)
     else do {
       require (case es_changed_at cur of None \<Rightarrow> True | Some c \<Rightarrow> \<not> changed_at \<le> c);
       let g = (action_guard L)\<lparr>gr_engaged := True, gr_revision := es_revision cur + 1,
         gr_changed_at := Some changed_at\<rparr>;
       require (guard_ok g);
       Some (\<lparr>es_engaged = True, es_revision = es_revision cur + 1,
         es_changed_at = Some changed_at\<rparr>, L\<lparr>action_guard := g\<rparr>)
     }
   }"

definition engage_action_emergency_stop ::
  "ledger \<Rightarrow> py_datetime \<Rightarrow> (emergency_stop \<times> ledger) option" where
  "engage_action_emergency_stop L changed_at = do {
     t \<leftarrow> canonical_utc changed_at;
     engage_action_latch L t
   }"

definition clear_action_emergency_stop ::
  "ledger \<Rightarrow> int \<Rightarrow> py_datetime \<Rightarrow> (emergency_stop \<times> ledger) option" where
  "clear_action_emergency_stop L expected_revision changed_at = do {
     t \<leftarrow> canonical_utc changed_at;
     require (\<not> expected_revision \<le> 0);
     cur \<leftarrow> read_emergency_stop (action_guard L);
     require (es_engaged cur \<and> es_revision cur = expected_revision
       \<and> (case es_changed_at cur of None \<Rightarrow> False | Some c \<Rightarrow> \<not> t \<le> c));
     let g = (action_guard L)\<lparr>gr_engaged := False, gr_revision := es_revision cur + 1,
       gr_changed_at := Some t\<rparr>;
     require (guard_ok g);
     Some (\<lparr>es_engaged = False, es_revision = es_revision cur + 1, es_changed_at = Some t\<rparr>,
       L\<lparr>action_guard := g\<rparr>)
   }"

subsection \<open>Hard policy\<close>

record hard_policy =
  hp_interval :: int
  hp_limit :: int

definition make_hard_policy :: "int \<Rightarrow> int \<Rightarrow> hard_policy option" where
  "make_hard_policy interval limit =
     (if hard_policy_ok interval limit then Some \<lparr>hp_interval = interval, hp_limit = limit\<rparr>
      else None)"

definition bind_action_hard_policy ::
  "ledger \<Rightarrow> int \<Rightarrow> int \<Rightarrow> (hard_policy \<times> ledger) option" where
  "bind_action_hard_policy L interval limit = do {
     proposed \<leftarrow> make_hard_policy interval limit;
     effective \<leftarrow> (case (pr_minimum_interval (action_policy L), pr_task_limit (action_policy L)) of
         (None, None) \<Rightarrow> Some proposed
       | (Some i, Some n) \<Rightarrow> do {
           current \<leftarrow> make_hard_policy i n;
           make_hard_policy (max (hp_interval current) (hp_interval proposed))
             (min (hp_limit current) (hp_limit proposed))
         }
       | _ \<Rightarrow> None);
     Some (effective, L\<lparr>action_policy := \<lparr>pr_minimum_interval = Some (hp_interval effective),
       pr_task_limit = Some (hp_limit effective)\<rparr>\<rparr>)
   }"

subsection \<open>Action admission\<close>

datatype limit_reason = Limit_emergency_stop | Limit_minimum_interval | Limit_task_actions

datatype admit_error = Admit_rejected | Admit_limited limit_reason

definition get_action_admission :: "ledger \<Rightarrow> str \<Rightarrow> admission option option" where
  "get_action_admission L action_id = do {
     aid \<leftarrow> canonical_uuid_v4 action_id;
     (case sql_lookup ad_action_id aid (admissions L) of
        None \<Rightarrow> Some None
      | Some r \<Rightarrow> map_option Some (make_admission r False))
   }"

text \<open>The checks \<open>admit_action\<close> makes before it opens the transaction.\<close>

definition admit_request ::
  "ledger \<Rightarrow> claims \<Rightarrow> bytes \<Rightarrow> py_datetime \<Rightarrow> int \<Rightarrow> int \<Rightarrow> instant option" where
  "admit_request L c fingerprint admitted_at interval limit = do {
     t \<leftarrow> canonical_utc admitted_at;
     skewed \<leftarrow> add_delta t authorization_clock_skew;
     require (cl_installation_id c = own_installation_id L
       \<and> cl_executor_id c = own_executor_id L
       \<and> is_fingerprint fingerprint
       \<and> \<not> skewed < cl_authorized_at c \<and> \<not> cl_deadline_at c \<le> t
       \<and> hard_policy_ok interval limit);
     Some t
   }"

definition same_action_admission :: "admission_row \<Rightarrow> claims \<Rightarrow> bytes \<Rightarrow> bool" where
  "same_action_admission r c fingerprint \<longleftrightarrow>
     ad_action_id r = cl_action_id c \<and> ad_target_id r = cl_target_id c
     \<and> ad_attempt_id r = cl_attempt_id c \<and> ad_task_id r = cl_task_id c
     \<and> ad_installation_id r = cl_installation_id c \<and> ad_executor_id r = cl_executor_id c
     \<and> ad_platform r = cl_platform c \<and> ad_action r = cl_action c
     \<and> ad_idempotency_key r = cl_idempotency_key c \<and> ad_fingerprint r = fingerprint
     \<and> ad_authorized_at r = cl_authorized_at c \<and> ad_deadline_at r = cl_deadline_at c"

definition latest_admitted_at :: "ledger \<Rightarrow> str \<Rightarrow> exposure_action \<Rightarrow> instant option" where
  "latest_admitted_at L platform action =
     latest (map ad_admitted_at (filter (\<lambda>r. ad_installation_id r = own_installation_id L
       \<and> ad_platform r = platform \<and> ad_action r = action) (admissions L)))"

definition task_action_count :: "ledger \<Rightarrow> str \<Rightarrow> str \<Rightarrow> exposure_action \<Rightarrow> int" where
  "task_action_count L task platform action =
     sql_rowcount (\<lambda>r. ad_task_id r = task \<and> ad_platform r = platform \<and> ad_action r = action)
       (admissions L)"

definition admission_of_claims :: "claims \<Rightarrow> bytes \<Rightarrow> instant \<Rightarrow> int \<Rightarrow> admission_row" where
  "admission_of_claims c fingerprint t ordinal = \<lparr>
     ad_action_id = cl_action_id c, ad_target_id = cl_target_id c,
     ad_attempt_id = cl_attempt_id c, ad_task_id = cl_task_id c,
     ad_installation_id = cl_installation_id c, ad_executor_id = cl_executor_id c,
     ad_platform = cl_platform c, ad_action = cl_action c,
     ad_idempotency_key = cl_idempotency_key c, ad_fingerprint = fingerprint,
     ad_authorized_at = cl_authorized_at c, ad_deadline_at = cl_deadline_at c,
     ad_admitted_at = t, ad_ordinal = ordinal\<rparr>"

text \<open>
  The insertion branch. The returned value object is built after the commit, so a refusal there
  would leave the row in place; the pair keeps that visible.
\<close>

definition admit_new ::
  "ledger \<Rightarrow> claims \<Rightarrow> bytes \<Rightarrow> instant \<Rightarrow> int \<Rightarrow> int \<Rightarrow> (admit_error + admission) \<times> ledger" where
  "admit_new L c fingerprint t interval limit =
     (let late = latest_admitted_at L (cl_platform c) (cl_action c);
          count = task_action_count L (cl_task_id c) (cl_platform c) (cl_action c);
          row = admission_of_claims c fingerprint t (count + 1) in
      if (case late of None \<Rightarrow> False | Some m \<Rightarrow> t < m) then (Inl Admit_rejected, L)
      else if (case late of None \<Rightarrow> False | Some m \<Rightarrow> t - m < seconds interval)
        then (Inl (Admit_limited Limit_minimum_interval), L)
      else if count \<ge> limit then (Inl (Admit_limited Limit_task_actions), L)
      else (case sql_insert admission_ok admission_clash row (admissions L) of
          None \<Rightarrow> (Inl Admit_rejected, L)
        | Some rows \<Rightarrow>
            ((case make_admission row False of None \<Rightarrow> Inl Admit_rejected | Some a \<Rightarrow> Inr a),
             L\<lparr>admissions := rows\<rparr>)))"

definition admit_action ::
  "ledger \<Rightarrow> claims \<Rightarrow> bytes \<Rightarrow> py_datetime \<Rightarrow> int \<Rightarrow> int \<Rightarrow>
   (admit_error + admission) \<times> ledger" where
  "admit_action L c fingerprint admitted_at interval limit =
     (case admit_request L c fingerprint admitted_at interval limit of
        None \<Rightarrow> (Inl Admit_rejected, L)
      | Some t \<Rightarrow>
          (case read_emergency_stop (action_guard L) of
             None \<Rightarrow> (Inl Admit_rejected, L)
           | Some stop \<Rightarrow>
               if es_engaged stop then (Inl (Admit_limited Limit_emergency_stop), L)
               else (case filter (\<lambda>r. ad_action_id r = cl_action_id c
                   \<or> ad_idempotency_key r = cl_idempotency_key c) (admissions L) of
                   [] \<Rightarrow> admit_new L c fingerprint t interval limit
                 | [r] \<Rightarrow>
                     (if same_action_admission r c fingerprint
                      then (case make_admission r True of
                          None \<Rightarrow> (Inl Admit_rejected, L)
                        | Some a \<Rightarrow> (Inr a, L))
                      else (Inl Admit_rejected, L))
                 | _ \<Rightarrow> (Inl Admit_rejected, L))))"

subsection \<open>Side effects: prepared, dispatched, settled\<close>

definition mark_dispatched :: "instant \<Rightarrow> progress \<Rightarrow> progress" where
  "mark_dispatched t p = p\<lparr>pg_state := Dispatched, pg_dispatched_at := Some t, pg_revision := 2\<rparr>"

definition mark_settled ::
  "effect_state \<Rightarrow> bytes option \<Rightarrow> instant \<Rightarrow> progress \<Rightarrow> progress" where
  "mark_settled target verification t p =
     p\<lparr>pg_state := target, pg_settled_at := Some t, pg_verification := verification,
       pg_revision := 3\<rparr>"

definition new_progress :: "instant \<Rightarrow> progress" where
  "new_progress t = \<lparr>pg_state = Prepared, pg_prepared_at = t, pg_dispatched_at = None,
     pg_settled_at = None, pg_verification = None, pg_revision = 1\<rparr>"

definition get_side_effect :: "ledger \<Rightarrow> str \<Rightarrow> side_effect option option" where
  "get_side_effect L action_id = do {
     aid \<leftarrow> canonical_uuid_v4 action_id;
     (case sql_lookup ef_action_id aid (side_effects L) of
        None \<Rightarrow> Some None
      | Some r \<Rightarrow> map_option Some (read_side_effect L r False))
   }"

fun read_all :: "('r \<Rightarrow> 'v option) \<Rightarrow> 'r list \<Rightarrow> 'v list option" where
  "read_all f [] = Some []"
| "read_all f (r # rs) = do { v \<leftarrow> f r; vs \<leftarrow> read_all f rs; Some (v # vs) }"

definition max_unresolved_side_effects :: int where
  "max_unresolved_side_effects = 100"

text \<open>\<open>ORDER BY s.prepared_at, s.action_id\<close>.\<close>

definition effect_order :: "effect_row list \<Rightarrow> effect_row list" where
  "effect_order = sort_key (\<lambda>r. (pg_prepared_at (ef_progress r), ef_action_id r))"

definition list_unresolved_side_effects :: "ledger \<Rightarrow> int \<Rightarrow> side_effect list option" where
  "list_unresolved_side_effects L limit = do {
     require (1 \<le> limit \<and> limit \<le> max_unresolved_side_effects);
     read_all (\<lambda>r. read_side_effect L r False)
       (take (nat limit)
         (effect_order (filter (\<lambda>r. pg_state (ef_progress r) \<noteq> Verified) (side_effects L))))
   }"

text \<open>The attempt an effect belongs to, through its admission.\<close>

definition effect_attempt :: "ledger \<Rightarrow> effect_row \<Rightarrow> str option" where
  "effect_attempt L r = map_option ad_attempt_id
     (sql_lookup ad_action_id (ef_action_id r) (admissions L))"

definition list_crash_recovery_side_effects :: "ledger \<Rightarrow> int \<Rightarrow> side_effect list option" where
  "list_crash_recovery_side_effects L limit = do {
     require (1 \<le> limit \<and> limit \<le> max_unresolved_side_effects);
     read_all (\<lambda>r. read_side_effect L r False)
       (take (nat limit)
         (effect_order (filter (\<lambda>r. list_ex (\<lambda>p. effect_attempt L r = Some (ck_attempt_id p)
              \<and> ck_state p \<in> {CK_running, CK_paused, CK_outcome_uncertain}) (checkpoints L))
            (side_effects L))))
   }"

definition prepare_side_effect ::
  "ledger \<Rightarrow> str \<Rightarrow> bytes \<Rightarrow> py_datetime \<Rightarrow> (side_effect \<times> ledger) option" where
  "prepare_side_effect L action_id fingerprint prepared_at = do {
     aid \<leftarrow> canonical_uuid_v4 action_id;
     t \<leftarrow> canonical_utc prepared_at;
     require (is_fingerprint fingerprint);
     (case sql_lookup ef_action_id aid (side_effects L) of
        Some r \<Rightarrow> do {
          e \<leftarrow> read_side_effect L r True;
          require (se_fingerprint e = fingerprint);
          Some (e, L)
        }
      | None \<Rightarrow> do {
          a \<leftarrow> sql_lookup ad_action_id aid (admissions L);
          require (ad_action a \<in> {Comment, Direct_message}
            \<and> \<not> t < ad_admitted_at a \<and> \<not> ad_deadline_at a \<le> t);
          stop \<leftarrow> read_emergency_stop (action_guard L);
          require (\<not> es_engaged stop);
          let row = \<lparr>ef_action_id = aid, ef_fingerprint = fingerprint,
            ef_progress = new_progress t\<rparr>;
          rows \<leftarrow> sql_insert effect_ok effect_clash row (side_effects L);
          e \<leftarrow> read_side_effect L row False;
          Some (e, L\<lparr>side_effects := rows\<rparr>)
        })
   }"

text \<open>
  The conditional \<open>UPDATE ... WHERE action_id = ? AND state = ? AND revision = ?\<close> that moves one
  effect to its next phase, its row count check, and the re-read of the changed row.
\<close>

definition effect_at :: "str \<Rightarrow> effect_state \<Rightarrow> int \<Rightarrow> effect_row \<Rightarrow> bool" where
  "effect_at aid s n x \<longleftrightarrow>
     ef_action_id x = aid \<and> pg_state (ef_progress x) = s \<and> pg_revision (ef_progress x) = n"

definition move_effect :: "(progress \<Rightarrow> progress) \<Rightarrow> effect_row \<Rightarrow> effect_row" where
  "move_effect f x = x\<lparr>ef_progress := f (ef_progress x)\<rparr>"

definition advance_effect ::
  "ledger \<Rightarrow> str \<Rightarrow> effect_state \<Rightarrow> int \<Rightarrow> (progress \<Rightarrow> progress) \<Rightarrow> (side_effect \<times> ledger) option"
where
  "advance_effect L aid s n f = do {
     rows \<leftarrow> sql_update effect_ok (effect_at aid s n) (move_effect f) (side_effects L);
     require (sql_rowcount (effect_at aid s n) (side_effects L) = 1);
     changed \<leftarrow> sql_lookup ef_action_id aid rows;
     e \<leftarrow> read_side_effect L changed False;
     Some (e, L\<lparr>side_effects := rows\<rparr>)
   }"

text \<open>
  The query of \<open>begin_side_effect_dispatch\<close>: the attempt is over, or its latest command is a
  pause, cancel or emergency stop that its checkpoint has not taken yet.
\<close>

definition dispatch_blocked :: "ledger \<Rightarrow> str \<Rightarrow> bool" where
  "dispatch_blocked L attempt = list_ex (\<lambda>c. list_ex (\<lambda>p.
       ck_attempt_id p = cm_attempt_id c \<and> cm_attempt_id c = attempt
       \<and> (ck_state p \<in> {CK_terminal, CK_outcome_uncertain}
          \<or> (cm_sequence c = ck_last_command p
             \<and> cm_message_type c \<in> {M_task_pause, M_task_cancel, M_task_emergency_stop}
             \<and> ck_state p \<in> {CK_running, CK_paused})))
     (checkpoints L)) (commands L)"

definition begin_side_effect_dispatch ::
  "ledger \<Rightarrow> str \<Rightarrow> bytes \<Rightarrow> py_datetime \<Rightarrow> (side_effect \<times> ledger) option" where
  "begin_side_effect_dispatch L action_id fingerprint dispatched_at = do {
     aid \<leftarrow> canonical_uuid_v4 action_id;
     t \<leftarrow> canonical_utc dispatched_at;
     require (is_fingerprint fingerprint);
     r \<leftarrow> sql_lookup ef_action_id aid (side_effects L);
     cur \<leftarrow> read_side_effect L r False;
     require (se_fingerprint cur = fingerprint);
     if se_state cur \<noteq> Prepared then do { e \<leftarrow> read_side_effect L r True; Some (e, L) }
     else do {
       stop \<leftarrow> read_emergency_stop (action_guard L);
       require (\<not> t < pg_prepared_at (se_progress cur)
         \<and> \<not> ad_deadline_at (se_admission cur) \<le> t
         \<and> \<not> dispatch_blocked L (ad_attempt_id (se_admission cur))
         \<and> \<not> es_engaged stop
         \<and> gr_network_connected (action_guard L));
       advance_effect L aid Prepared 1 (mark_dispatched t)
     }
   }"

text \<open>\<open>_settle_side_effect\<close>, called with a verified or an uncertain target.\<close>

definition settle_arguments_ok :: "effect_state \<Rightarrow> bytes option \<Rightarrow> bool" where
  "settle_arguments_ok target verification =
     (if target = Verified then (case verification of None \<Rightarrow> False | Some v \<Rightarrow> is_fingerprint v)
      else target = Uncertain \<and> verification = None)"

definition settle_side_effect ::
  "ledger \<Rightarrow> str \<Rightarrow> bytes \<Rightarrow> effect_state \<Rightarrow> bytes option \<Rightarrow> py_datetime \<Rightarrow>
   (side_effect \<times> ledger) option" where
  "settle_side_effect L action_id fingerprint target verification settled_at = do {
     aid \<leftarrow> canonical_uuid_v4 action_id;
     t \<leftarrow> canonical_utc settled_at;
     require (is_fingerprint fingerprint \<and> settle_arguments_ok target verification);
     r \<leftarrow> sql_lookup ef_action_id aid (side_effects L);
     cur \<leftarrow> read_side_effect L r False;
     require (se_fingerprint cur = fingerprint);
     if se_state cur = target then do {
       require (pg_verification (se_progress cur) = verification);
       e \<leftarrow> read_side_effect L r True;
       Some (e, L)
     } else do {
       require (se_state cur = Dispatched
         \<and> (case pg_dispatched_at (se_progress cur) of None \<Rightarrow> False | Some d \<Rightarrow> \<not> t < d));
       advance_effect L aid Dispatched 2 (mark_settled target verification t)
     }
   }"

definition verify_side_effect ::
  "ledger \<Rightarrow> str \<Rightarrow> bytes \<Rightarrow> bytes \<Rightarrow> py_datetime \<Rightarrow> (side_effect \<times> ledger) option" where
  "verify_side_effect L action_id fingerprint verification verified_at =
     settle_side_effect L action_id fingerprint Verified (Some verification) verified_at"

definition mark_side_effect_uncertain ::
  "ledger \<Rightarrow> str \<Rightarrow> bytes \<Rightarrow> py_datetime \<Rightarrow> (side_effect \<times> ledger) option" where
  "mark_side_effect_uncertain L action_id fingerprint uncertain_at =
     settle_side_effect L action_id fingerprint Uncertain None uncertain_at"

subsection \<open>Operator-confirmed publishes\<close>

definition get_publish_dispatch :: "ledger \<Rightarrow> str \<Rightarrow> publish_dispatch option option" where
  "get_publish_dispatch L job_id = do {
     jid \<leftarrow> canonical_uuid_v4 job_id;
     (case sql_lookup pu_job_id jid (publish_dispatches L) of
        None \<Rightarrow> Some None
      | Some r \<Rightarrow> map_option Some (read_publish_dispatch r False))
   }"

text \<open>\<open>_require_publish_permitted\<close>.\<close>

definition publish_permitted :: "ledger \<Rightarrow> bool" where
  "publish_permitted L =
     (case read_emergency_stop (action_guard L) of None \<Rightarrow> False | Some s \<Rightarrow> \<not> es_engaged s)"

definition prepare_publish_dispatch ::
  "ledger \<Rightarrow> str \<Rightarrow> str \<Rightarrow> py_datetime \<Rightarrow> (publish_dispatch \<times> ledger) option" where
  "prepare_publish_dispatch L job_id content_hash prepared_at = do {
     jid \<leftarrow> canonical_uuid_v4 job_id;
     t \<leftarrow> canonical_utc prepared_at;
     require (is_sha256_hex content_hash);
     (case sql_lookup pu_job_id jid (publish_dispatches L) of
        Some r \<Rightarrow> do {
          d \<leftarrow> read_publish_dispatch r True;
          require (pd_content_hash d = content_hash);
          Some (d, L)
        }
      | None \<Rightarrow> do {
          require (publish_permitted L);
          let row = \<lparr>pu_job_id = jid, pu_content_hash = content_hash,
            pu_progress = new_progress t\<rparr>;
          rows \<leftarrow> sql_insert publish_ok publish_clash row (publish_dispatches L);
          d \<leftarrow> read_publish_dispatch row False;
          Some (d, L\<lparr>publish_dispatches := rows\<rparr>)
        })
   }"

definition publish_at :: "str \<Rightarrow> effect_state \<Rightarrow> int \<Rightarrow> publish_row \<Rightarrow> bool" where
  "publish_at jid s n x \<longleftrightarrow>
     pu_job_id x = jid \<and> pg_state (pu_progress x) = s \<and> pg_revision (pu_progress x) = n"

definition move_publish :: "(progress \<Rightarrow> progress) \<Rightarrow> publish_row \<Rightarrow> publish_row" where
  "move_publish f x = x\<lparr>pu_progress := f (pu_progress x)\<rparr>"

definition advance_publish ::
  "ledger \<Rightarrow> str \<Rightarrow> effect_state \<Rightarrow> int \<Rightarrow> (progress \<Rightarrow> progress) \<Rightarrow>
   (publish_dispatch \<times> ledger) option" where
  "advance_publish L jid s n f = do {
     rows \<leftarrow> sql_update publish_ok (publish_at jid s n) (move_publish f) (publish_dispatches L);
     require (sql_rowcount (publish_at jid s n) (publish_dispatches L) = 1);
     changed \<leftarrow> sql_lookup pu_job_id jid rows;
     d \<leftarrow> read_publish_dispatch changed False;
     Some (d, L\<lparr>publish_dispatches := rows\<rparr>)
   }"

definition previous_publish_at :: "ledger \<Rightarrow> str \<Rightarrow> instant option" where
  "previous_publish_at L job_id =
     latest (List.map_filter (\<lambda>r. if pu_job_id r = job_id then None
       else pg_dispatched_at (pu_progress r)) (publish_dispatches L))"

definition begin_publish_dispatch ::
  "ledger \<Rightarrow> str \<Rightarrow> str \<Rightarrow> py_datetime \<Rightarrow> int \<Rightarrow> (publish_dispatch \<times> ledger) option" where
  "begin_publish_dispatch L job_id content_hash dispatched_at interval = do {
     jid \<leftarrow> canonical_uuid_v4 job_id;
     t \<leftarrow> canonical_utc dispatched_at;
     require (is_sha256_hex content_hash \<and> \<not> interval < 0);
     r \<leftarrow> sql_lookup pu_job_id jid (publish_dispatches L);
     cur \<leftarrow> read_publish_dispatch r False;
     require (pd_content_hash cur = content_hash);
     if pg_state (pd_progress cur) \<noteq> Prepared then do {
       d \<leftarrow> read_publish_dispatch r True;
       Some (d, L)
     } else do {
       require (publish_permitted L);
       require (\<not> t < pg_prepared_at (pd_progress cur)
         \<and> (case previous_publish_at L jid of None \<Rightarrow> True
            | Some prev \<Rightarrow> \<not> t - prev < seconds interval));
       advance_publish L jid Prepared 1 (mark_dispatched t)
     }
   }"

definition settle_publish_dispatch ::
  "ledger \<Rightarrow> str \<Rightarrow> str \<Rightarrow> effect_state \<Rightarrow> bytes option \<Rightarrow> py_datetime \<Rightarrow>
   (publish_dispatch \<times> ledger) option" where
  "settle_publish_dispatch L job_id content_hash target verification settled_at = do {
     jid \<leftarrow> canonical_uuid_v4 job_id;
     t \<leftarrow> canonical_utc settled_at;
     require (settle_arguments_ok target verification \<and> is_sha256_hex content_hash);
     r \<leftarrow> sql_lookup pu_job_id jid (publish_dispatches L);
     cur \<leftarrow> read_publish_dispatch r False;
     require (pd_content_hash cur = content_hash);
     if pg_state (pd_progress cur) = target then do {
       require (pg_verification (pd_progress cur) = verification);
       d \<leftarrow> read_publish_dispatch r True;
       Some (d, L)
     } else do {
       require (pg_state (pd_progress cur) = Dispatched
         \<and> (case pg_dispatched_at (pd_progress cur) of None \<Rightarrow> False | Some d \<Rightarrow> \<not> t < d));
       advance_publish L jid Dispatched 2 (mark_settled target verification t)
     }
   }"

definition verify_publish_dispatch ::
  "ledger \<Rightarrow> str \<Rightarrow> str \<Rightarrow> bytes \<Rightarrow> py_datetime \<Rightarrow> (publish_dispatch \<times> ledger) option" where
  "verify_publish_dispatch L job_id content_hash verification verified_at =
     settle_publish_dispatch L job_id content_hash Verified (Some verification) verified_at"

definition mark_publish_dispatch_uncertain ::
  "ledger \<Rightarrow> str \<Rightarrow> str \<Rightarrow> py_datetime \<Rightarrow> (publish_dispatch \<times> ledger) option" where
  "mark_publish_dispatch_uncertain L job_id content_hash uncertain_at =
     settle_publish_dispatch L job_id content_hash Uncertain None uncertain_at"

end
