(* ===== verification/Ledger_Commands.thy ===== *)
theory Ledger_Commands
  imports Ledger_Effects
begin

text \<open>
  The command side of \<open>ExecutorLedger\<close>: receiving commands exactly once and in sequence, the
  attempt checkpoints, the emergency stop that arrives as a command, and the platform session
  epoch. The two control operations (\<open>pending_task_controls\<close>, \<open>complete_task_control\<close>) are in the
  outbox theory, because they write the outbox.
\<close>

record receipt =
  rc_message_id :: str
  rc_idempotency_key :: str
  rc_task_id :: str
  rc_attempt_id :: str
  rc_sequence :: int
  rc_message_type :: message_type
  rc_replayed :: bool

subsection \<open>Receiving a command\<close>

definition command_intent_fingerprint :: "codec \<Rightarrow> envelope \<Rightarrow> bytes" where
  "command_intent_fingerprint cd e = cd_sha256 cd (cd_intent cd (intent_of e))"

definition stored_command_envelope :: "envelope \<Rightarrow> stored_envelope" where
  "stored_command_envelope e =
     (if message_type e = M_action_execute then Stored_redacted (correlation_id e) (message_type e)
      else Stored_full e)"

definition command_identity_ok :: "ledger \<Rightarrow> envelope \<Rightarrow> bool" where
  "command_identity_ok L e \<longleftrightarrow>
     message_type e \<in> inbound_types
     \<and> installation_id e = own_installation_id L \<and> executor_id e = own_executor_id L"

definition receipt_of_row :: "command_row \<Rightarrow> bool \<Rightarrow> receipt" where
  "receipt_of_row r replayed = \<lparr>
     rc_message_id = cm_message_id r, rc_idempotency_key = cm_idempotency_key r,
     rc_task_id = cm_task_id r, rc_attempt_id = cm_attempt_id r, rc_sequence = cm_sequence r,
     rc_message_type = cm_message_type r, rc_replayed = replayed\<rparr>"

definition command_row_of :: "codec \<Rightarrow> envelope \<Rightarrow> command_row" where
  "command_row_of cd e = \<lparr>
     cm_message_id = message_id e, cm_idempotency_key = idempotency_key e,
     cm_intent_sha256 = command_intent_fingerprint cd e,
     cm_envelope = stored_command_envelope e,
     cm_task_id = task_id e, cm_attempt_id = execution_attempt_id e,
     cm_sequence = sequence e, cm_message_type = message_type e\<rparr>"

text \<open>\<open>action_id IN (SELECT action_id ... WHERE execution_attempt_id = ?)\<close>.\<close>

definition effect_in_attempt :: "ledger \<Rightarrow> str \<Rightarrow> effect_row \<Rightarrow> bool" where
  "effect_in_attempt L attempt r =
     list_ex (\<lambda>a. ad_action_id a = ef_action_id r \<and> ad_attempt_id a = attempt) (admissions L)"

definition attempt_has_effect :: "ledger \<Rightarrow> str \<Rightarrow> effect_state \<Rightarrow> bool" where
  "attempt_has_effect L attempt s =
     list_ex (\<lambda>r. effect_in_attempt L attempt r \<and> pg_state (ef_progress r) = s) (side_effects L)"

definition mark_stopped :: "instant \<Rightarrow> progress \<Rightarrow> progress" where
  "mark_stopped t p =
     p\<lparr>pg_state := Uncertain, pg_settled_at := Some t, pg_revision := pg_revision p + 1\<rparr>"

text \<open>\<open>_engage_emergency_stop_in_connection\<close>, with the \<open>WHERE\<close> clause of its \<open>UPDATE\<close>.\<close>

definition stopped_by :: "ledger \<Rightarrow> str \<Rightarrow> instant \<Rightarrow> effect_row \<Rightarrow> bool" where
  "stopped_by L attempt t r \<longleftrightarrow>
     pg_state (ef_progress r) = Dispatched
     \<and> (case pg_dispatched_at (ef_progress r) of None \<Rightarrow> False | Some d \<Rightarrow> d \<le> t)
     \<and> effect_in_attempt L attempt r"

definition engage_emergency_stop :: "ledger \<Rightarrow> str \<Rightarrow> instant \<Rightarrow> ledger option" where
  "engage_emergency_stop L attempt t = do {
     (_, L1) \<leftarrow> engage_action_latch L t;
     rows \<leftarrow> sql_update effect_ok (stopped_by L1 attempt t)
       (\<lambda>r. r\<lparr>ef_progress := mark_stopped t (ef_progress r)\<rparr>) (side_effects L1);
     let L2 = L1\<lparr>side_effects := rows\<rparr>;
     require (\<not> attempt_has_effect L2 attempt Dispatched);
     Some L2
   }"

definition engage_if :: "ledger \<Rightarrow> str \<Rightarrow> instant option \<Rightarrow> ledger option" where
  "engage_if L attempt stop_at =
     (case stop_at of None \<Rightarrow> Some L | Some t \<Rightarrow> engage_emergency_stop L attempt t)"

text \<open>The checkpoint states a command of the given type needs, if it needs any.\<close>

definition required_control_states :: "message_type \<Rightarrow> checkpoint_state set option" where
  "required_control_states m =
     (if m = M_task_pause then Some {CK_running}
      else if m = M_task_resume then Some {CK_paused}
      else if m = M_task_cancel then Some {CK_running, CK_paused}
      else if m = M_task_emergency_stop then Some {CK_running, CK_paused}
      else if m = M_action_execute then Some {CK_running}
      else None)"

text \<open>The checkpoint part of a new command: first command of an attempt, or the next one.\<close>

definition advance_checkpoint :: "ledger \<Rightarrow> envelope \<Rightarrow> checkpoint_row list option" where
  "advance_checkpoint L e =
     (case sql_lookup ck_attempt_id (execution_attempt_id e) (checkpoints L) of
        None \<Rightarrow> do {
          require (sequence e = 1 \<and> message_type e \<notin> control_types \<union> {M_action_execute});
          baseline \<leftarrow> (if message_type e = M_task_offer then offer_baseline e else Some 0);
          sql_insert checkpoint_ok checkpoint_clash
            \<lparr>ck_attempt_id = execution_attempt_id e, ck_task_id = task_id e,
             ck_last_command = 1, ck_last_event = baseline, ck_state = CK_received,
             ck_revision = 1\<rparr> (checkpoints L)
        }
      | Some p \<Rightarrow> do {
          require (ck_task_id p = task_id e \<and> sequence e = ck_last_command p + 1
            \<and> (case required_control_states (message_type e) of
                 None \<Rightarrow> True | Some S \<Rightarrow> ck_state p \<in> S));
          sql_update checkpoint_ok
            (\<lambda>r. ck_attempt_id r = execution_attempt_id e \<and> ck_revision r = ck_revision p)
            (\<lambda>r. r\<lparr>ck_last_command := sequence e, ck_revision := ck_revision r + 1\<rparr>)
            (checkpoints L)
        })"

definition insert_command :: "ledger \<Rightarrow> command_row \<Rightarrow> ledger option" where
  "insert_command L row = do {
     require (cm_attempt_id row \<in> ck_attempt_id ` set (checkpoints L));
     rows \<leftarrow> sql_insert command_ok command_clash row (commands L);
     Some (L\<lparr>commands := rows\<rparr>)
   }"

definition receive_command_at ::
  "codec \<Rightarrow> ledger \<Rightarrow> envelope \<Rightarrow> py_datetime option \<Rightarrow> (receipt \<times> ledger) option" where
  "receive_command_at cd L e changed_at = do {
     require (command_identity_ok L e);
     let stop_at = Option.bind changed_at canonical_utc;
     require ((message_type e = M_task_emergency_stop) = (stop_at \<noteq> None));
     (case filter (\<lambda>r. cm_message_id r = message_id e \<or> cm_idempotency_key r = idempotency_key e)
         (commands L) of
        [] \<Rightarrow> do {
          cks \<leftarrow> advance_checkpoint L e;
          L1 \<leftarrow> insert_command (L\<lparr>checkpoints := cks\<rparr>) (command_row_of cd e);
          L2 \<leftarrow> engage_if L1 (execution_attempt_id e) stop_at;
          Some (receipt_of_row (command_row_of cd e) False, L2)
        }
      | [r] \<Rightarrow> do {
          require (cm_intent_sha256 r = command_intent_fingerprint cd e);
          L1 \<leftarrow> engage_if L (execution_attempt_id e) stop_at;
          Some (receipt_of_row r True, L1)
        }
      | _ \<Rightarrow> None)
   }"

definition receive_command :: "codec \<Rightarrow> ledger \<Rightarrow> envelope \<Rightarrow> (receipt \<times> ledger) option" where
  "receive_command cd L e = receive_command_at cd L e None"

definition receive_task_emergency_stop ::
  "codec \<Rightarrow> ledger \<Rightarrow> envelope \<Rightarrow> py_datetime \<Rightarrow> (receipt \<times> ledger) option" where
  "receive_task_emergency_stop cd L e changed_at = do {
     require (message_type e = M_task_emergency_stop);
     receive_command_at cd L e (Some changed_at)
   }"

subsection \<open>Reading commands and checkpoints\<close>

definition get_checkpoint :: "ledger \<Rightarrow> str \<Rightarrow> checkpoint_row option option" where
  "get_checkpoint L attempt = do {
     a \<leftarrow> canonical_uuid_v4 attempt;
     Some (sql_lookup ck_attempt_id a (checkpoints L))
   }"

definition has_received_task_emergency_stop :: "ledger \<Rightarrow> bool" where
  "has_received_task_emergency_stop L =
     list_ex (\<lambda>c. cm_message_type c = M_task_emergency_stop) (commands L)"

definition initial_task_command :: "ledger \<Rightarrow> str \<Rightarrow> envelope option" where
  "initial_task_command L attempt = do {
     a \<leftarrow> canonical_uuid_v4 attempt;
     (case filter (\<lambda>c. cm_attempt_id c = a \<and> cm_message_type c = M_task_offer
         \<and> cm_sequence c = 1) (commands L) of
        [c] \<Rightarrow> (case cm_envelope c of
            Stored_full e \<Rightarrow> (if message_type e = M_task_offer then Some e else None)
          | Stored_redacted _ _ \<Rightarrow> None)
      | _ \<Rightarrow> None)
   }"

definition compare_and_set_checkpoint ::
  "ledger \<Rightarrow> str \<Rightarrow> int \<Rightarrow> checkpoint_state \<Rightarrow> int \<Rightarrow> (checkpoint_row \<times> ledger) option" where
  "compare_and_set_checkpoint L attempt expected_revision state last_event = do {
     a \<leftarrow> canonical_uuid_v4 attempt;
     require (\<not> expected_revision \<le> 0 \<and> 0 \<le> last_event
       \<and> last_event \<le> max_cross_runtime_sequence);
     let P = (\<lambda>r. ck_attempt_id r = a \<and> ck_revision r = expected_revision
       \<and> ck_last_event r \<le> last_event);
     rows \<leftarrow> sql_update checkpoint_ok P
       (\<lambda>r. r\<lparr>ck_state := state, ck_last_event := last_event, ck_revision := ck_revision r + 1\<rparr>)
       (checkpoints L);
     require (sql_rowcount P (checkpoints L) = 1);
     p \<leftarrow> sql_lookup ck_attempt_id a rows;
     Some (p, L\<lparr>checkpoints := rows\<rparr>)
   }"

subsection \<open>Platform session epoch\<close>

definition require_platform :: "str \<Rightarrow> unit option" where
  "require_platform platform = require (platform = ''douyin'')"

text \<open>\<open>_platform_session\<close> and \<open>LocalPlatformSession.__post_init__\<close>.\<close>

definition read_platform_session :: "session_row \<Rightarrow> session_row option" where
  "read_platform_session r =
     (if ss_platform r = ''douyin'' \<and> 0 < ss_revision r then Some r else None)"

definition circuit_open :: "session_row \<Rightarrow> bool" where
  "circuit_open r \<longleftrightarrow> ss_state r \<noteq> Healthy"

definition get_platform_session :: "ledger \<Rightarrow> str \<Rightarrow> session_row option option" where
  "get_platform_session L platform = do {
     require_platform platform;
     (case sql_lookup ss_platform platform (sessions L) of
        None \<Rightarrow> Some None
      | Some r \<Rightarrow> map_option Some (read_platform_session r))
   }"

definition record_platform_session ::
  "ledger \<Rightarrow> str \<Rightarrow> session_state \<Rightarrow> py_datetime \<Rightarrow> bool \<Rightarrow> (session_row \<times> ledger) option" where
  "record_platform_session L platform state observed_at advance_epoch = do {
     require_platform platform;
     t \<leftarrow> astimezone_utc observed_at;
     (case sql_lookup ss_platform platform (sessions L) of
        None \<Rightarrow> do {
          let row = \<lparr>ss_platform = platform, ss_state = state, ss_revision = 1,
            ss_observed_at = t\<rparr>;
          rows \<leftarrow> sql_insert session_ok session_clash row (sessions L);
          Some (row, L\<lparr>sessions := rows\<rparr>)
        }
      | Some r \<Rightarrow> do {
          current \<leftarrow> read_platform_session r;
          require (\<not> t < ss_observed_at current);
          if t = ss_observed_at current then
            (if \<not> advance_epoch \<and> state = ss_state current then Some (current, L) else None)
          else do {
            require (\<not> (\<not> advance_epoch \<and> circuit_open current \<and> state = Healthy));
            let revision = (if advance_epoch then ss_revision current + 1
              else ss_revision current);
            rows \<leftarrow> sql_update session_ok
              (\<lambda>x. ss_platform x = platform \<and> ss_revision x = ss_revision current)
              (\<lambda>x. x\<lparr>ss_state := state, ss_revision := revision, ss_observed_at := t\<rparr>)
              (sessions L);
            Some (\<lparr>ss_platform = platform, ss_state = state, ss_revision = revision,
              ss_observed_at = t\<rparr>, L\<lparr>sessions := rows\<rparr>)
          }
        })
   }"

end
