(* ===== verification/Ledger_Outbox.thy ===== *)
theory Ledger_Outbox
  imports Ledger_Commands
begin

text \<open>
  The outbox side of \<open>ExecutorLedger\<close>: the capacity bound, enqueueing, the atomic outcome of a
  command, cooperative control completion, the recovery projection, and delivery with its paged
  scan. Every insertion goes through \<open>insert_outbox\<close>, the one \<open>INSERT\<close> of the code.
\<close>

record outbox_entry =
  oe_message :: envelope
  oe_source :: str
  oe_replayed :: bool

definition max_outbox_batch :: nat where
  "max_outbox_batch = 1000"

definition max_pending_outbox_entries :: nat where
  "max_pending_outbox_entries = 1000"

definition max_pending_outbox_bytes :: nat where
  "max_pending_outbox_bytes = 16 * 1024 * 1024"

definition outbound_identity_ok :: "ledger \<Rightarrow> envelope \<Rightarrow> bool" where
  "outbound_identity_ok L e \<longleftrightarrow>
     message_type e \<in> outbound_types
     \<and> installation_id e = own_installation_id L \<and> executor_id e = own_executor_id L"

definition parse_outbound :: "envelope \<Rightarrow> envelope option" where
  "parse_outbound e = (if message_type e \<in> outbound_types then Some e else None)"

definition message_fingerprint :: "codec \<Rightarrow> envelope \<Rightarrow> bytes" where
  "message_fingerprint cd e = cd_sha256 cd (cd_dumps cd e)"

definition pending_rows :: "outbox_row list \<Rightarrow> outbox_row list" where
  "pending_rows rows = filter (\<lambda>r. \<not> ob_delivered r \<and> \<not> ob_expired r) rows"

definition envelope_bytes :: "codec \<Rightarrow> envelope \<Rightarrow> nat" where
  "envelope_bytes cd e = length (cd_dumps cd e)"

definition pending_bytes :: "codec \<Rightarrow> outbox_row list \<Rightarrow> nat" where
  "pending_bytes cd rows = sum_list (map (\<lambda>r. envelope_bytes cd (ob_envelope r)) (pending_rows rows))"

text \<open>\<open>_require_pending_outbox_capacity\<close>.\<close>

definition outbox_capacity_ok :: "codec \<Rightarrow> outbox_row list \<Rightarrow> envelope list \<Rightarrow> bool" where
  "outbox_capacity_ok cd rows added \<longleftrightarrow>
     length (pending_rows rows) + length added \<le> max_pending_outbox_entries
     \<and> pending_bytes cd rows + sum_list (map (envelope_bytes cd) added) \<le> max_pending_outbox_bytes"

text \<open>\<open>SELECT COALESCE(MAX(ordinal), 0) + 1\<close>.\<close>

definition next_ordinal :: "outbox_row list \<Rightarrow> int" where
  "next_ordinal rows = (case latest (map ob_ordinal rows) of None \<Rightarrow> 1 | Some m \<Rightarrow> m + 1)"

definition outbox_row_of :: "codec \<Rightarrow> envelope \<Rightarrow> str \<Rightarrow> int \<Rightarrow> outbox_row" where
  "outbox_row_of cd e source ordinal = \<lparr>
     ob_ordinal = ordinal, ob_message_id = message_id e,
     ob_idempotency_key = idempotency_key e, ob_intent_sha256 = message_fingerprint cd e,
     ob_envelope = e, ob_source = source, ob_delivered = False, ob_expired = False\<rparr>"

definition insert_outbox ::
  "codec \<Rightarrow> ledger \<Rightarrow> envelope \<Rightarrow> str \<Rightarrow> int \<Rightarrow> ledger option" where
  "insert_outbox cd L e source ordinal = do {
     require (source \<in> cm_message_id ` set (commands L));
     rows \<leftarrow> sql_insert outbox_ok outbox_clash (outbox_row_of cd e source ordinal) (outbox L);
     Some (L\<lparr>outbox := rows\<rparr>)
   }"

definition entry_of_row :: "outbox_row \<Rightarrow> bool \<Rightarrow> outbox_entry option" where
  "entry_of_row r replayed = map_option
     (\<lambda>m. \<lparr>oe_message = m, oe_source = ob_source r, oe_replayed = replayed\<rparr>)
     (parse_outbound (ob_envelope r))"

subsection \<open>Enqueueing\<close>

definition source_matches :: "command_row \<Rightarrow> envelope \<Rightarrow> bool" where
  "source_matches c e \<longleftrightarrow>
     cm_task_id c = task_id e \<and> cm_attempt_id c = execution_attempt_id e
     \<and> cm_correlation c = correlation_id e"

definition enqueue_outbox ::
  "codec \<Rightarrow> ledger \<Rightarrow> str \<Rightarrow> envelope \<Rightarrow> (outbox_entry \<times> ledger) option" where
  "enqueue_outbox cd L source e = do {
     src \<leftarrow> canonical_uuid_v4 source;
     require (outbound_identity_ok L e);
     (case filter (\<lambda>r. ob_message_id r = message_id e \<or> ob_idempotency_key r = idempotency_key e)
         (outbox L) of
        [] \<Rightarrow> do {
          c \<leftarrow> sql_lookup cm_message_id src (commands L);
          require (source_matches c e);
          require (outbox_capacity_ok cd (outbox L) [e]);
          L1 \<leftarrow> insert_outbox cd L e src (next_ordinal (outbox L));
          Some (\<lparr>oe_message = e, oe_source = src, oe_replayed = False\<rparr>, L1)
        }
      | [r] \<Rightarrow> do {
          require (ob_intent_sha256 r = message_fingerprint cd e \<and> ob_source r = src);
          x \<leftarrow> entry_of_row r True;
          Some (x, L)
        }
      | _ \<Rightarrow> None)
   }"

subsection \<open>The outcome of a command\<close>

fun insert_outbox_all ::
  "codec \<Rightarrow> ledger \<Rightarrow> str \<Rightarrow> int \<Rightarrow> envelope list \<Rightarrow> ledger option" where
  "insert_outbox_all cd L source ordinal [] = Some L"
| "insert_outbox_all cd L source ordinal (e # es) = do {
     L1 \<leftarrow> insert_outbox cd L e source ordinal;
     insert_outbox_all cd L1 source (ordinal + 1) es
   }"

definition commit_outcome ::
  "codec \<Rightarrow> ledger \<Rightarrow> str \<Rightarrow> int \<Rightarrow> checkpoint_state \<Rightarrow> int \<Rightarrow> envelope list \<Rightarrow>
   (outbox_entry list \<times> ledger) option" where
  "commit_outcome cd L source expected_revision state last_event messages = do {
     src \<leftarrow> canonical_uuid_v4 source;
     require (\<not> expected_revision \<le> 0 \<and> 0 \<le> last_event
       \<and> last_event \<le> max_cross_runtime_sequence
       \<and> 1 \<le> length messages \<and> length messages \<le> 100);
     require (list_all (outbound_identity_ok L) messages
       \<and> distinct (map message_id messages) \<and> distinct (map idempotency_key messages));
     c \<leftarrow> sql_lookup cm_message_id src (commands L);
     require (list_all (source_matches c) messages);
     require (\<not> list_ex (\<lambda>r. ob_source r = src) (outbox L));
     p \<leftarrow> List.find (\<lambda>p. ck_attempt_id p = cm_attempt_id c \<and> ck_revision p = expected_revision)
       (checkpoints L);
     require (0 \<le> ck_last_event p \<and> ck_last_event p \<le> last_event);
     require (outbox_capacity_ok cd (outbox L) messages);
     let P = (\<lambda>r. ck_attempt_id r = cm_attempt_id c \<and> ck_revision r = expected_revision);
     cks \<leftarrow> sql_update checkpoint_ok P
       (\<lambda>r. r\<lparr>ck_state := state, ck_last_event := last_event, ck_revision := ck_revision r + 1\<rparr>)
       (checkpoints L);
     require (sql_rowcount P (checkpoints L) = 1);
     L1 \<leftarrow> insert_outbox_all cd (L\<lparr>checkpoints := cks\<rparr>) src (next_ordinal (outbox L)) messages;
     Some (map (\<lambda>e. \<lparr>oe_message = e, oe_source = src, oe_replayed = False\<rparr>) messages, L1)
   }"

definition outbox_for_command :: "ledger \<Rightarrow> str \<Rightarrow> outbox_entry list option" where
  "outbox_for_command L source = do {
     src \<leftarrow> canonical_uuid_v4 source;
     read_all (\<lambda>r. entry_of_row r True)
       (sort_key ob_ordinal (filter (\<lambda>r. ob_source r = src) (outbox L)))
   }"

subsection \<open>Cooperative controls\<close>

record pending_control =
  pc_command :: envelope
  pc_revision :: int
  pc_next_sequence :: int
  pc_uncertain :: bool

text \<open>\<open>PendingTaskControl.__post_init__\<close>.\<close>

definition make_pending_control ::
  "envelope \<Rightarrow> int \<Rightarrow> int \<Rightarrow> bool \<Rightarrow> pending_control option" where
  "make_pending_control e revision next_sequence uncertain =
     (if message_type e \<in> control_types \<and> \<not> revision \<le> 0 \<and> sequence_ok next_sequence
       \<and> \<not> (uncertain \<and> message_type e \<notin> {M_task_cancel, M_task_emergency_stop})
       \<and> \<not> (message_type e = M_task_emergency_stop \<and> \<not> uncertain)
      then Some \<lparr>pc_command = e, pc_revision = revision, pc_next_sequence = next_sequence,
        pc_uncertain = uncertain\<rparr>
      else None)"

definition control_event_type :: "pending_control \<Rightarrow> message_type" where
  "control_event_type p =
     (if message_type (pc_command p) = M_task_pause then M_task_paused
      else if message_type (pc_command p) = M_task_resume then M_task_resumed
      else if message_type (pc_command p) = M_task_emergency_stop then M_task_outcome_uncertain
      else if pc_uncertain p then M_task_outcome_uncertain else M_task_cancelled)"

definition has_outbox_of :: "ledger \<Rightarrow> str \<Rightarrow> message_type set \<Rightarrow> bool" where
  "has_outbox_of L source types =
     list_ex (\<lambda>o'. ob_source o' = source \<and> message_type (ob_envelope o') \<in> types) (outbox L)"

definition control_projection_types :: "message_type \<Rightarrow> message_type set" where
  "control_projection_types m =
     (if m = M_task_pause then {M_task_paused}
      else if m = M_task_resume then {M_task_resumed}
      else if m = M_task_cancel then {M_task_cancelled, M_task_outcome_uncertain}
      else if m = M_task_emergency_stop then {M_task_outcome_uncertain}
      else {})"

definition control_checkpoint_states :: "message_type \<Rightarrow> checkpoint_state set" where
  "control_checkpoint_states m =
     (if m = M_task_pause then {CK_running}
      else if m = M_task_resume then {CK_paused}
      else if m \<in> {M_task_cancel, M_task_emergency_stop} then {CK_running, CK_paused}
      else {})"

text \<open>The \<open>WHERE\<close> clause of \<open>pending_task_controls\<close> for a command and its checkpoint.\<close>

definition control_is_pending :: "ledger \<Rightarrow> command_row \<Rightarrow> checkpoint_row \<Rightarrow> bool" where
  "control_is_pending L c p \<longleftrightarrow>
     cm_sequence c = ck_last_command p
     \<and> ck_state p \<in> control_checkpoint_states (cm_message_type c)
     \<and> has_outbox_of L (cm_message_id c) {M_task_control_ack}
     \<and> \<not> has_outbox_of L (cm_message_id c) (control_projection_types (cm_message_type c))
     \<and> (cm_message_type c \<notin> {M_task_pause, M_task_cancel}
        \<or> \<not> attempt_has_effect L (cm_attempt_id c) Dispatched)"

definition control_outcome_uncertain :: "ledger \<Rightarrow> command_row \<Rightarrow> bool" where
  "control_outcome_uncertain L c \<longleftrightarrow>
     cm_message_type c = M_task_emergency_stop
     \<or> (cm_message_type c = M_task_cancel \<and> attempt_has_effect L (cm_attempt_id c) Uncertain)"

definition pending_control_rows :: "ledger \<Rightarrow> (command_row \<times> checkpoint_row) list" where
  "pending_control_rows L = List.map_filter (\<lambda>c.
     case sql_lookup ck_attempt_id (cm_attempt_id c) (checkpoints L) of
       None \<Rightarrow> None
     | Some p \<Rightarrow> if control_is_pending L c p then Some (c, p) else None) (commands L)"

definition read_pending_control :: "ledger \<Rightarrow> command_row \<times> checkpoint_row \<Rightarrow> pending_control option"
where
  "read_pending_control L cp =
     (case cm_envelope (fst cp) of
        Stored_redacted _ _ \<Rightarrow> None
      | Stored_full e \<Rightarrow>
          if message_type e \<in> task_command_types
          then make_pending_control e (ck_revision (snd cp)) (ck_last_event (snd cp) + 1)
            (control_outcome_uncertain L (fst cp))
          else None)"

definition pending_task_controls :: "ledger \<Rightarrow> int \<Rightarrow> pending_control list option" where
  "pending_task_controls L limit = do {
     require (1 \<le> limit \<and> limit \<le> int max_outbox_batch);
     read_all (read_pending_control L) (take (nat limit) (pending_control_rows L))
   }"

text \<open>The state and event a control ends in, by its type and the facts of the attempt.\<close>

definition control_target :: "ledger \<Rightarrow> command_row \<Rightarrow> checkpoint_state \<times> message_type" where
  "control_target L c =
     (if cm_message_type c = M_task_pause then (CK_paused, M_task_paused)
      else if cm_message_type c = M_task_resume then (CK_running, M_task_resumed)
      else if cm_message_type c = M_task_emergency_stop
        then (CK_outcome_uncertain, M_task_outcome_uncertain)
      else if \<not> attempt_has_effect L (cm_attempt_id c) Uncertain
        then (CK_terminal, M_task_cancelled)
      else (CK_outcome_uncertain, M_task_outcome_uncertain))"

definition complete_task_control ::
  "codec \<Rightarrow> ledger \<Rightarrow> str \<Rightarrow> int \<Rightarrow> envelope \<Rightarrow> (outbox_entry option \<times> ledger) option" where
  "complete_task_control cd L source expected_revision event = do {
     src \<leftarrow> canonical_uuid_v4 source;
     require (\<not> expected_revision \<le> 0 \<and> message_type event \<in> event_types);
     require (outbound_identity_ok L event);
     c \<leftarrow> sql_lookup cm_message_id src (commands L);
     p \<leftarrow> sql_lookup ck_attempt_id (cm_attempt_id c) (checkpoints L);
     require (cm_message_type c \<in> control_types);
     (case List.find (\<lambda>r. ob_source r = src \<and> message_type (ob_envelope r) \<in>
           {M_task_paused, M_task_resumed, M_task_cancelled, M_task_outcome_uncertain})
         (outbox L) of
        Some r \<Rightarrow> do {
          m \<leftarrow> parse_outbound (ob_envelope r);
          require (message_type m \<in> event_types
            \<and> message_type m \<in> control_projection_types (cm_message_type c)
            \<and> message_type m = message_type event
            \<and> source_matches c m \<and> sequence m = ck_last_event p
            \<and> task_id event = task_id m
            \<and> execution_attempt_id event = execution_attempt_id m
            \<and> correlation_id event = correlation_id m \<and> sequence event = sequence m);
          Some (Some \<lparr>oe_message = m, oe_source = ob_source r, oe_replayed = True\<rparr>, L)
        }
      | None \<Rightarrow> do {
          require (has_outbox_of L src {M_task_control_ack}
            \<and> source_matches c event
            \<and> message_type event \<in> control_projection_types (cm_message_type c)
            \<and> cm_sequence c = ck_last_command p
            \<and> ck_state p \<in> control_checkpoint_states (cm_message_type c)
            \<and> ck_revision p = expected_revision
            \<and> sequence event = ck_last_event p + 1);
          if cm_message_type c \<in> {M_task_pause, M_task_cancel}
            \<and> attempt_has_effect L (cm_attempt_id c) Dispatched
          then Some (None, L)
          else do {
            let (target, expected) = control_target L c;
            require (message_type event = expected);
            require (outbox_capacity_ok cd (outbox L) [event]);
            let P = (\<lambda>r. ck_attempt_id r = cm_attempt_id c \<and> ck_revision r = expected_revision
              \<and> ck_state r = ck_state p \<and> ck_last_command r = cm_sequence c);
            cks \<leftarrow> sql_update checkpoint_ok P
              (\<lambda>r. r\<lparr>ck_state := target, ck_last_event := sequence event,
                ck_revision := ck_revision r + 1\<rparr>) (checkpoints L);
            require (sql_rowcount P (checkpoints L) = 1);
            L1 \<leftarrow> insert_outbox cd (L\<lparr>checkpoints := cks\<rparr>) event src (next_ordinal (outbox L));
            Some (Some \<lparr>oe_message = event, oe_source = src, oe_replayed = False\<rparr>, L1)
          }
        })
   }"

end
