(* ===== verification/Ledger_Delivery.thy ===== *)
theory Ledger_Delivery
  imports Ledger_Outbox
begin

text \<open>
  Delivery of the outbox and the crash-recovery projection of \<open>ExecutorLedger\<close>. The paged loop of
  \<open>outbox_for_delivery\<close> is the recursive function \<open>delivery_scan\<close> over pages of a given size (the
  code's is 1000); the scan is shown equal to one pass over the whole table (\<open>deliverable\<close>,
  \<open>after_scan\<close>).
\<close>

definition evidence_version :: str where
  "evidence_version = ''action-result-evidence.v1''"

definition recovery_key :: "str \<Rightarrow> str" where
  "recovery_key action_id = ''executor:recovery:'' @ action_id"

definition payload_eq :: "payload \<Rightarrow> payload \<Rightarrow> bool" where
  "payload_eq p q = (case (p, q) of
     (P_object a, P_object b) \<Rightarrow> json_eq (JObj a) (JObj b)
   | _ \<Rightarrow> p = q)"

definition recovery_event_ok :: "envelope \<Rightarrow> str \<Rightarrow> bool" where
  "recovery_event_ok e action_id \<longleftrightarrow>
     message_type e \<in> {M_step_completed, M_task_outcome_uncertain}
     \<and> payload_get (payload e) ''action_id'' = Some (JStr action_id)
     \<and> payload_get (payload e) ''evidence_version'' = Some (JStr evidence_version)"

definition recovery_row :: "ledger \<Rightarrow> str \<Rightarrow> outbox_row option" where
  "recovery_row L action_id =
     List.find (\<lambda>r. ob_idempotency_key r = recovery_key action_id) (outbox L)"

definition get_side_effect_recovery_event :: "ledger \<Rightarrow> str \<Rightarrow> envelope option option" where
  "get_side_effect_recovery_event L action_id = do {
     aid \<leftarrow> canonical_uuid_v4 action_id;
     (case recovery_row L aid of
        None \<Rightarrow> Some None
      | Some r \<Rightarrow> do {
          m \<leftarrow> parse_outbound (ob_envelope r);
          require (recovery_event_ok m aid);
          Some (Some m)
        })
   }"

definition expected_recovery_evidence :: "message_type \<Rightarrow> exposure_action \<Rightarrow> str" where
  "expected_recovery_evidence m action =
     (if m = M_task_outcome_uncertain then ''recovery_unconfirmed''
      else if action = Comment then ''comment_confirmed'' else ''message_confirmed'')"

definition commit_side_effect_recovery ::
  "codec \<Rightarrow> ledger \<Rightarrow> str \<Rightarrow> int \<Rightarrow> envelope \<Rightarrow> (outbox_entry \<times> ledger) option" where
  "commit_side_effect_recovery cd L action_id expected_revision event = do {
     aid \<leftarrow> canonical_uuid_v4 action_id;
     require (\<not> expected_revision \<le> 0 \<and> recovery_event_ok event aid
       \<and> idempotency_key event = recovery_key aid);
     require (outbound_identity_ok L event);
     (case recovery_row L aid of
        Some r \<Rightarrow> do {
          m \<leftarrow> parse_outbound (ob_envelope r);
          require (message_type m \<in> event_types \<and> message_type m = message_type event
            \<and> payload_eq (payload m) (payload event));
          Some (\<lparr>oe_message = m, oe_source = ob_source r, oe_replayed = True\<rparr>, L)
        }
      | None \<Rightarrow> do {
          s \<leftarrow> sql_lookup ef_action_id aid (side_effects L);
          a \<leftarrow> sql_lookup ad_action_id (ef_action_id s) (admissions L);
          p \<leftarrow> sql_lookup ck_attempt_id (ad_attempt_id a) (checkpoints L);
          c \<leftarrow> List.find (\<lambda>c. cm_attempt_id c = ad_attempt_id a
            \<and> cm_message_type c = M_task_offer \<and> cm_sequence c = 1) (commands L);
          require (ad_task_id a = task_id event \<and> ad_attempt_id a = execution_attempt_id event
            \<and> ad_installation_id a = installation_id event \<and> ad_executor_id a = executor_id event
            \<and> pg_state (ef_progress s) =
                (if message_type event = M_task_outcome_uncertain then Uncertain else Verified)
            \<and> payload_get (payload event) ''evidence'' =
                Some (JStr (expected_recovery_evidence (message_type event) (ad_action a)))
            \<and> ck_last_event p + 1 = sequence event
            \<and> ck_state p \<in> {CK_running, CK_paused}
            \<and> ck_revision p = expected_revision
            \<and> cm_correlation c = correlation_id event);
          require (outbox_capacity_ok cd (outbox L) [event]);
          let P = (\<lambda>r. ck_attempt_id r = ad_attempt_id a \<and> ck_revision r = expected_revision);
          cks \<leftarrow> sql_update checkpoint_ok P
            (\<lambda>r. r\<lparr>ck_state := (if message_type event = M_task_outcome_uncertain
                then CK_outcome_uncertain else ck_state p),
              ck_last_event := sequence event, ck_revision := ck_revision r + 1\<rparr>)
            (checkpoints L);
          require (sql_rowcount P (checkpoints L) = 1);
          L1 \<leftarrow> insert_outbox cd (L\<lparr>checkpoints := cks\<rparr>) event (cm_message_id c)
            (next_ordinal (outbox L));
          Some (\<lparr>oe_message = event, oe_source = cm_message_id c, oe_replayed = False\<rparr>, L1)
        })
   }"

subsection \<open>Delivery\<close>

definition set_delivered :: "bool \<Rightarrow> outbox_row \<Rightarrow> outbox_row" where
  "set_delivered b r = r\<lparr>ob_delivered := b\<rparr>"

definition requeue_delivered_outbox :: "ledger \<Rightarrow> int \<times> ledger" where
  "requeue_delivered_outbox L =
     (let P = (\<lambda>r. ob_delivered r \<and> \<not> ob_expired r) in
      (sql_rowcount P (outbox L),
       L\<lparr>outbox := map (\<lambda>r. if P r then set_delivered False r else r) (outbox L)\<rparr>))"

definition pending_outbox :: "ledger \<Rightarrow> int \<Rightarrow> outbox_entry list option" where
  "pending_outbox L limit = do {
     require (1 \<le> limit \<and> limit \<le> int max_outbox_batch);
     read_all (\<lambda>r. entry_of_row r True)
       (take (nat limit) (sort_key ob_ordinal (pending_rows (outbox L))))
   }"

definition mark_outbox_delivered :: "ledger \<Rightarrow> str \<Rightarrow> (bool \<times> ledger) option" where
  "mark_outbox_delivered L message_id' = do {
     mid \<leftarrow> canonical_uuid_v4 message_id';
     let P = (\<lambda>r. ob_message_id r = mid \<and> \<not> ob_delivered r);
     if sql_rowcount P (outbox L) = 1
     then Some (True, L\<lparr>outbox := map (\<lambda>r. if P r then set_delivered True r else r) (outbox L)\<rparr>)
     else do {
       r \<leftarrow> sql_lookup ob_message_id mid (outbox L);
       require (ob_delivered r);
       Some (False, L)
     }
   }"

text \<open>One page of the scan.\<close>

definition in_scan :: "bool \<Rightarrow> int \<Rightarrow> outbox_row \<Rightarrow> bool" where
  "in_scan recover from_ord r \<longleftrightarrow>
     \<not> ob_expired r \<and> (\<not> ob_delivered r \<or> recover) \<and> ob_ordinal r > from_ord"

definition delivery_page :: "nat \<Rightarrow> bool \<Rightarrow> int \<Rightarrow> outbox_row list \<Rightarrow> outbox_row list" where
  "delivery_page page recover from_ord rows =
     take page (sort_key ob_ordinal (filter (in_scan recover from_ord) rows))"

definition past_deadline :: "instant \<Rightarrow> outbox_row \<Rightarrow> bool" where
  "past_deadline now r \<longleftrightarrow> deadline_at (ob_envelope r) \<le> now"

text \<open>The two \<open>executemany\<close> updates of a page, by message id.\<close>

definition update_page ::
  "bool \<Rightarrow> instant \<Rightarrow> outbox_row list \<Rightarrow> outbox_row list \<Rightarrow> outbox_row list" where
  "update_page recover now pg rows =
     (let expired = map ob_message_id (filter (past_deadline now) pg);
          recovered = map ob_message_id
            (filter (\<lambda>r. \<not> past_deadline now r \<and> recover \<and> ob_delivered r) pg) in
      map (\<lambda>r. if ob_message_id r \<in> set expired then r\<lparr>ob_expired := True\<rparr> else r)
        (map (\<lambda>r. if ob_message_id r \<in> set recovered then set_delivered False r else r) rows))"

lemma ordinals_update_page [simp]:
  "map ob_ordinal (update_page recover now pg rows) = map ob_ordinal rows"
  by (simp add: update_page_def Let_def set_delivered_def)

function delivery_scan ::
  "nat \<Rightarrow> bool \<Rightarrow> instant \<Rightarrow> int \<Rightarrow> outbox_row list \<Rightarrow> (outbox_entry list \<times> outbox_row list) option"
where
  "delivery_scan page recover now from_ord rows =
     (let pg = delivery_page page recover from_ord rows in
      if pg = [] then Some ([], rows)
      else (case read_all (\<lambda>r. entry_of_row r True) pg of
          None \<Rightarrow> None
        | Some _ \<Rightarrow>
            (case read_all (\<lambda>r. entry_of_row r True) (filter (\<lambda>r. \<not> past_deadline now r) pg) of
               None \<Rightarrow> None
             | Some found \<Rightarrow>
                 (let rows' = update_page recover now pg rows;
                      next_from = ob_ordinal (last pg) in
                  if \<not> 0 < next_from then None
                  else if length pg < page then Some (found, rows')
                  else (case delivery_scan page recover now next_from rows' of
                      None \<Rightarrow> None
                    | Some (later, rows'') \<Rightarrow> Some (found @ later, rows''))))))"
  by pat_completeness auto

lemma delivery_page_ordinal:
  assumes "r \<in> set (delivery_page page recover from_ord rows)"
  shows "from_ord < ob_ordinal r \<and> ob_ordinal r \<in> set (map ob_ordinal rows)"
  using assms by (auto simp: delivery_page_def in_scan_def dest: in_set_takeD)

lemma delivery_scan_decreases:
  assumes "delivery_page page recover from_ord rows \<noteq> []"
  shows "length (filter (\<lambda>x. ob_ordinal (last (delivery_page page recover from_ord rows)) < x)
           (map ob_ordinal rows))
         < length (filter (\<lambda>x. from_ord < x) (map ob_ordinal rows))"
proof -
  let ?l = "ob_ordinal (last (delivery_page page recover from_ord rows))"
  have l: "from_ord < ?l" "?l \<in> set (map ob_ordinal rows)"
    using delivery_page_ordinal last_in_set [OF assms] by blast+
  have mono: "length (filter (\<lambda>x. ?l < x) xs) \<le> length (filter (\<lambda>x. from_ord < x) xs)" for xs
    using l(1) by (induction xs) auto
  have "?l \<in> set xs \<Longrightarrow>
      length (filter (\<lambda>x. ?l < x) xs) < length (filter (\<lambda>x. from_ord < x) xs)" for xs
  proof (induction xs)
    case Nil
    then show ?case by simp
  next
    case (Cons x xs)
    then show ?case using l(1) mono [of xs] by (cases "?l \<in> set xs") auto
  qed
  then show ?thesis using l(2) by blast
qed

termination delivery_scan
proof (relation "measure (\<lambda>(page, recover, now, from_ord, rows).
    length (filter (\<lambda>x. from_ord < x) (map ob_ordinal rows)))", goal_cases)
  case 1
  then show ?case by simp
next
  case (2 page recover now from_ord rows)
  then show ?case
    using delivery_scan_decreases [of page recover from_ord rows]
    by (simp del: length_filter_map)
qed

declare delivery_scan.simps [simp del]

definition outbox_for_delivery ::
  "ledger \<Rightarrow> py_datetime \<Rightarrow> bool \<Rightarrow> (outbox_entry list \<times> ledger) option" where
  "outbox_for_delivery L observed_at recover_delivered = do {
     now \<leftarrow> canonical_utc observed_at;
     (entries, rows) \<leftarrow> delivery_scan max_outbox_batch recover_delivered now 0 (outbox L);
     Some (entries, L\<lparr>outbox := rows\<rparr>)
   }"

end
