(* ===== verification/Effect_Facts.thy ===== *)
theory Effect_Facts
  imports Ledger_Delivery
begin

text \<open>
  What a successful call of each gate operation did: which table it wrote, with which rows, and
  under which guards. These are the facts the properties of the ledger rest on.
\<close>

lemmas op_splits = if_splits option.splits prod.splits list.splits

fun state_rank :: "effect_state \<Rightarrow> nat" where
  "state_rank Prepared = 1"
| "state_rank Dispatched = 2"
| "state_rank Verified = 3"
| "state_rank Uncertain = 3"

definition table_rank :: "('r \<Rightarrow> 'k) \<Rightarrow> ('r \<Rightarrow> progress) \<Rightarrow> 'r list \<Rightarrow> 'k \<Rightarrow> nat" where
  "table_rank key prog rows k =
     (case sql_lookup key k rows of None \<Rightarrow> 0 | Some r \<Rightarrow> state_rank (pg_state (prog r)))"

subsection \<open>The emergency-stop latch\<close>

lemma engage_action_latch_SomeD:
  assumes "engage_action_latch L t = Some (s, L')"
  shows "L\<lparr>action_guard := action_guard L'\<rparr> = L' \<and> gr_engaged (action_guard L') \<and> es_engaged s
    \<and> gr_network_connected (action_guard L') = gr_network_connected (action_guard L)
    \<and> (guard_ok (action_guard L) \<longrightarrow> guard_ok (action_guard L'))
    \<and> gr_revision (action_guard L) \<le> gr_revision (action_guard L')
    \<and> (gr_revision (action_guard L') = gr_revision (action_guard L) \<longrightarrow> L' = L)
    \<and> (gr_engaged (action_guard L) \<longrightarrow> L' = L)"
  using assms
  by (auto simp: engage_action_latch_def bind_eq_Some_conv Let_def
      dest: read_emergency_stop_Some split: op_splits)

lemma engage_action_emergency_stop_SomeD:
  assumes "engage_action_emergency_stop L at = Some (s, L')"
  shows "\<exists>t. at = Aware 0 t \<and> engage_action_latch L t = Some (s, L')"
  using assms by (auto simp: engage_action_emergency_stop_def bind_eq_Some_conv canonical_utc_Some)

lemma clear_action_emergency_stop_SomeD:
  assumes "clear_action_emergency_stop L n at = Some (s, L')"
  shows "\<exists>t. at = Aware 0 t \<and> L\<lparr>action_guard := action_guard L'\<rparr> = L'
    \<and> guard_ok (action_guard L') \<and> \<not> gr_engaged (action_guard L')
    \<and> gr_network_connected (action_guard L') = gr_network_connected (action_guard L)
    \<and> gr_engaged (action_guard L) \<and> n = gr_revision (action_guard L)
    \<and> gr_revision (action_guard L') = gr_revision (action_guard L) + 1
    \<and> gr_changed_at (action_guard L') = Some t
    \<and> (\<forall>c. gr_changed_at (action_guard L) = Some c \<longrightarrow> c < t)"
  using assms
  by (auto simp: clear_action_emergency_stop_def bind_eq_Some_conv canonical_utc_Some Let_def
      dest!: read_emergency_stop_Some split: op_splits)

subsection \<open>The two dispatch protocols\<close>

lemma ef_action_id_move [simp]: "ef_action_id (move_effect f x) = ef_action_id x"
  by (simp add: move_effect_def)

lemma ef_fingerprint_move [simp]: "ef_fingerprint (move_effect f x) = ef_fingerprint x"
  by (simp add: move_effect_def)

lemma ef_progress_move [simp]: "ef_progress (move_effect f x) = f (ef_progress x)"
  by (simp add: move_effect_def)

lemma pu_job_id_move [simp]: "pu_job_id (move_publish f x) = pu_job_id x"
  by (simp add: move_publish_def)

lemma pu_content_hash_move [simp]: "pu_content_hash (move_publish f x) = pu_content_hash x"
  by (simp add: move_publish_def)

lemma pu_progress_move [simp]: "pu_progress (move_publish f x) = f (pu_progress x)"
  by (simp add: move_publish_def)

text \<open>Moving the effect \<open>r\<close> that is in phase \<open>s\<close> with revision \<open>n\<close>.\<close>

lemma advance_effect_SomeD:
  assumes adv: "advance_effect L aid s n f = Some (e, L')"
    and r: "sql_lookup ef_action_id aid (side_effects L) = Some r" "pg_state (ef_progress r) = s"
      "pg_revision (ef_progress r) = n"
  shows "L\<lparr>side_effects := side_effects L'\<rparr> = L'
    \<and> sql_update effect_ok (effect_at aid s n) (move_effect f) (side_effects L) =
        Some (side_effects L')
    \<and> \<not> se_replayed e \<and> se_progress e = f (ef_progress r) \<and> se_fingerprint e = ef_fingerprint r
    \<and> se_action_id e = aid
    \<and> sql_lookup ad_action_id aid (admissions L) = Some (se_admission e)"
proof -
  from adv obtain rows changed where
    rows: "sql_update effect_ok (effect_at aid s n) (move_effect f) (side_effects L) = Some rows"
    and changed: "sql_lookup ef_action_id aid rows = Some changed"
    and e: "read_side_effect L changed False = Some e" and L': "L' = L\<lparr>side_effects := rows\<rparr>"
    by (auto simp: advance_effect_def bind_eq_Some_conv split: if_splits)
  have key: "ef_action_id r = aid" using sql_lookup_SomeD [OF r(1)] by simp
  have "rows = map (\<lambda>x. if effect_at aid s n x then move_effect f x else x) (side_effects L)"
    using rows by (simp add: sql_update_Some)
  with changed r key have "changed = move_effect f r"
    by (simp add: sql_lookup_mapped effect_at_def)
  with read_side_effect_Some [OF e] L' rows key show ?thesis by auto
qed

lemma advance_publish_SomeD:
  assumes adv: "advance_publish L jid s n f = Some (d, L')"
    and r: "sql_lookup pu_job_id jid (publish_dispatches L) = Some r" "pg_state (pu_progress r) = s"
      "pg_revision (pu_progress r) = n"
  shows "L\<lparr>publish_dispatches := publish_dispatches L'\<rparr> = L'
    \<and> sql_update publish_ok (publish_at jid s n) (move_publish f) (publish_dispatches L) =
        Some (publish_dispatches L')
    \<and> \<not> pd_replayed d \<and> pd_progress d = f (pu_progress r)
    \<and> pd_content_hash d = pu_content_hash r \<and> pd_job_id d = jid"
proof -
  from adv obtain rows changed where
    rows: "sql_update publish_ok (publish_at jid s n) (move_publish f) (publish_dispatches L)
      = Some rows"
    and changed: "sql_lookup pu_job_id jid rows = Some changed"
    and d: "read_publish_dispatch changed False = Some d"
    and L': "L' = L\<lparr>publish_dispatches := rows\<rparr>"
    by (auto simp: advance_publish_def bind_eq_Some_conv split: if_splits)
  have key: "pu_job_id r = jid" using sql_lookup_SomeD [OF r(1)] by simp
  have "rows = map (\<lambda>x. if publish_at jid s n x then move_publish f x else x) (publish_dispatches L)"
    using rows by (simp add: sql_update_Some)
  with changed r key have "changed = move_publish f r"
    by (simp add: sql_lookup_mapped publish_at_def)
  with read_publish_dispatch_Some [OF d] L' rows key show ?thesis by auto
qed

lemma progress_ok_revision:
  "progress_ok p \<Longrightarrow> pg_state p = Prepared \<Longrightarrow> pg_revision p = 1"
  "progress_ok p \<Longrightarrow> pg_state p = Dispatched \<Longrightarrow> pg_revision p = 2"
  by (simp_all add: progress_ok_def)

lemma read_side_effect_progress_ok:
  "read_side_effect L r b = Some e \<Longrightarrow> progress_ok (ef_progress r)"
  by (auto simp: read_side_effect_def make_side_effect_def bind_eq_Some_conv split: if_splits)

lemma read_publish_dispatch_progress_ok:
  "read_publish_dispatch r b = Some d \<Longrightarrow> progress_ok (pu_progress r)"
  by (auto simp: read_publish_dispatch_def split: if_splits)

text \<open>The guards of a granted dispatch.\<close>

definition effect_grant_guards :: "ledger \<Rightarrow> side_effect \<Rightarrow> instant \<Rightarrow> bool" where
  "effect_grant_guards L cur t \<longleftrightarrow>
     pg_prepared_at (se_progress cur) \<le> t \<and> t < ad_deadline_at (se_admission cur)
     \<and> \<not> dispatch_blocked L (ad_attempt_id (se_admission cur))
     \<and> \<not> gr_engaged (action_guard L) \<and> gr_network_connected (action_guard L)"

text \<open>A call of \<open>begin_side_effect_dispatch\<close> either replays or grants, never both.\<close>

lemma begin_side_effect_dispatch_SomeD:
  assumes "begin_side_effect_dispatch L aid fp at = Some (e, L')"
  obtains (replay) r where "sql_lookup ef_action_id aid (side_effects L) = Some r"
      "pg_state (ef_progress r) \<noteq> Prepared" "se_replayed e" "L' = L" "se_progress e = ef_progress r"
      "ef_fingerprint r = fp"
  | (grant) r cur t where "at = Aware 0 t"
      "sql_lookup ef_action_id aid (side_effects L) = Some r"
      "read_side_effect L r False = Some cur" "pg_state (ef_progress r) = Prepared"
      "pg_revision (ef_progress r) = 1" "ef_fingerprint r = fp" "effect_grant_guards L cur t"
      "advance_effect L aid Prepared 1 (mark_dispatched t) = Some (e, L')"
proof -
  from assms obtain r t cur where
    base: "at = Aware 0 t" "sql_lookup ef_action_id aid (side_effects L) = Some r"
      "read_side_effect L r False = Some cur" "se_fingerprint cur = fp"
      "is_canonical_uuid_v4 aid" "is_fingerprint fp"
    by (auto simp: begin_side_effect_dispatch_def bind_eq_Some_conv canonical_utc_Some
        canonical_uuid_v4_Some split: if_splits)
  note cur = read_side_effect_Some [OF base(3)]
  have state: "se_state cur = pg_state (ef_progress r)" using cur by (simp add: se_state_def)
  show ?thesis
  proof (cases "pg_state (ef_progress r) = Prepared")
    case False
    then have "begin_side_effect_dispatch L aid fp at =
        do { e \<leftarrow> read_side_effect L r True; Some (e, L) }"
      using base state by (simp add: begin_side_effect_dispatch_def canonical_uuid_v4_def)
    from this [symmetric] assms have "read_side_effect L r True = Some e \<and> L' = L"
      by (auto simp: bind_eq_Some_conv)
    with base cur False read_side_effect_Some [of L r True e] replay show ?thesis by auto
  next
    case True
    then have "begin_side_effect_dispatch L aid fp at = do {
        stop \<leftarrow> read_emergency_stop (action_guard L);
        require (pg_prepared_at (se_progress cur) \<le> t \<and> t < ad_deadline_at (se_admission cur)
          \<and> \<not> dispatch_blocked L (ad_attempt_id (se_admission cur))
          \<and> \<not> es_engaged stop \<and> gr_network_connected (action_guard L));
        advance_effect L aid Prepared 1 (mark_dispatched t) }"
      using base state
      by (simp add: begin_side_effect_dispatch_def canonical_uuid_v4_def not_less not_le)
    from this [symmetric] assms obtain stop where
      "read_emergency_stop (action_guard L) = Some stop"
      "pg_prepared_at (se_progress cur) \<le> t" "t < ad_deadline_at (se_admission cur)"
      "\<not> dispatch_blocked L (ad_attempt_id (se_admission cur))" "\<not> es_engaged stop"
      "gr_network_connected (action_guard L)"
      "advance_effect L aid Prepared 1 (mark_dispatched t) = Some (e, L')"
      by (auto simp: bind_eq_Some_conv split: if_splits)
    with base cur True progress_ok_revision read_side_effect_progress_ok [OF base(3)]
      read_emergency_stop_Some grant
    show ?thesis by (metis effect_grant_guards_def)
  qed
qed

end
