(* ===== verification/Evolution.thy ===== *)
theory Evolution
  imports Effect_Facts
begin

text \<open>
  How a ledger may change. Every table has an order on its rows (what an \<open>UPDATE\<close> of the code may do
  to a row) and a table grows only at its end; \<open>evolves\<close> is that order on whole ledgers and
  \<open>ledger_inv\<close> the invariant: the schema, gap-free command sequences, increasing outbox ordinals and
  paced admissions. \<open>sound L L'\<close> says that a write respects both; the lemmas at the end are one per
  kind of write, and the operations are compositions of such writes.
\<close>

subsection \<open>Tables that only grow\<close>

definition table_le :: "('r \<Rightarrow> 'r \<Rightarrow> bool) \<Rightarrow> 'r list \<Rightarrow> 'r list \<Rightarrow> bool" where
  "table_le R rows rows' \<longleftrightarrow>
     length rows \<le> length rows' \<and> list_all2 R rows (take (length rows) rows')"

locale row_order =
  fixes R :: "'r \<Rightarrow> 'r \<Rightarrow> bool"
    and key :: "'r \<Rightarrow> 'k"
  assumes row_refl: "R r r"
    and row_trans: "R a b \<Longrightarrow> R b c \<Longrightarrow> R a c"
    and row_key: "R a b \<Longrightarrow> key a = key b"
begin

lemma le_refl: "table_le R rows rows"
  by (simp add: table_le_def list_all2_same row_refl)

lemma le_trans:
  assumes "table_le R xs ys" and "table_le R ys zs"
  shows "table_le R xs zs"
proof -
  let ?n = "length xs"
  have "list_all2 R (take ?n ys) (take ?n (take (length ys) zs))"
    using assms(2) by (simp add: table_le_def list_all2_takeI del: take_take)
  moreover have n: "?n \<le> length ys" "length ys \<le> length zs"
    using assms by (simp_all add: table_le_def)
  ultimately have "list_all2 R (take ?n ys) (take ?n zs)" by (simp add: min_def)
  with assms(1) have "list_all2 R xs (take ?n zs)"
    by (auto simp: table_le_def intro: list_all2_trans [OF row_trans])
  with n show ?thesis by (simp add: table_le_def)
qed

lemma le_append: "table_le R rows (rows @ more_rows)"
  by (simp add: table_le_def list_all2_same row_refl)

lemma le_insert: "sql_insert row_ok clash r rows = Some rows' \<Longrightarrow> table_le R rows rows'"
  by (simp add: sql_insert_Some le_append)

lemma le_map:
  assumes "\<And>r. r \<in> set rows \<Longrightarrow> R r (f r)"
  shows "table_le R rows (map f rows)"
  using assms by (simp add: table_le_def list_all2_map2 list_all2_same)

lemma le_update:
  assumes "sql_update row_ok P f rows = Some rows'"
    and "\<And>r. r \<in> set rows \<Longrightarrow> P r \<Longrightarrow> row_ok (f r) \<Longrightarrow> R r (f r)"
  shows "table_le R rows rows'"
  using assms by (auto simp: sql_update_Some row_refl intro!: le_map)

lemma le_keys: "table_le R rows rows' \<Longrightarrow> key ` set rows \<subseteq> key ` set rows'"
proof
  fix k
  assume le: "table_le R rows rows'" and "k \<in> key ` set rows"
  then obtain i where i: "i < length rows" "k = key (rows ! i)"
    by (auto simp: in_set_conv_nth)
  then have "R (rows ! i) (rows' ! i)" "i < length rows'"
    using le by (auto simp: table_le_def list_all2_conv_all_nth)
  then show "k \<in> key ` set rows'"
    using i(2) row_key by (metis image_eqI nth_mem)
qed

lemma le_lookup:
  assumes "table_le R rows rows'" and "sql_lookup key k rows = Some r"
  obtains r' where "sql_lookup key k rows' = Some r'" and "R r r'"
proof -
  have find_rel: "list_all2 R xs ys \<Longrightarrow> sql_lookup key k xs = Some r \<Longrightarrow>
      \<exists>r'. sql_lookup key k (ys @ zs) = Some r' \<and> R r r'" for xs ys zs
  proof (induction xs ys rule: list_all2_induct)
    case Nil
    then show ?case by (simp add: sql_lookup_def)
  next
    case (Cons x xs y ys)
    then show ?case using row_key [of x y] by (auto simp: sql_lookup_def split: if_splits)
  qed
  have "rows' = take (length rows) rows' @ drop (length rows) rows'" by simp
  with find_rel [of rows "take (length rows) rows'" "drop (length rows) rows'"] assms that
  show thesis by (auto simp: table_le_def)
qed

end

subsection \<open>What an update may do to a row\<close>

definition progress_le :: "progress \<Rightarrow> progress \<Rightarrow> bool" where
  "progress_le p q \<longleftrightarrow>
     pg_prepared_at q = pg_prepared_at p
     \<and> state_rank (pg_state p) \<le> state_rank (pg_state q)
     \<and> (pg_dispatched_at p \<noteq> None \<longrightarrow> pg_dispatched_at q = pg_dispatched_at p)
     \<and> (state_rank (pg_state p) = 3 \<longrightarrow> q = p)"

definition effect_le :: "effect_row \<Rightarrow> effect_row \<Rightarrow> bool" where
  "effect_le a b \<longleftrightarrow> ef_action_id b = ef_action_id a \<and> ef_fingerprint b = ef_fingerprint a
     \<and> progress_le (ef_progress a) (ef_progress b)"

definition publish_le :: "publish_row \<Rightarrow> publish_row \<Rightarrow> bool" where
  "publish_le a b \<longleftrightarrow> pu_job_id b = pu_job_id a \<and> pu_content_hash b = pu_content_hash a
     \<and> progress_le (pu_progress a) (pu_progress b)"

definition checkpoint_le :: "checkpoint_row \<Rightarrow> checkpoint_row \<Rightarrow> bool" where
  "checkpoint_le a b \<longleftrightarrow> ck_attempt_id b = ck_attempt_id a \<and> ck_task_id b = ck_task_id a
     \<and> ck_last_command a \<le> ck_last_command b \<and> ck_last_event a \<le> ck_last_event b
     \<and> ck_revision a \<le> ck_revision b \<and> (ck_revision a = ck_revision b \<longrightarrow> b = a)"

definition outbox_le :: "outbox_row \<Rightarrow> outbox_row \<Rightarrow> bool" where
  "outbox_le a b \<longleftrightarrow> b = a\<lparr>ob_delivered := ob_delivered b, ob_expired := ob_expired b\<rparr>
     \<and> (ob_expired a \<longrightarrow> ob_expired b)"

definition session_le :: "session_row \<Rightarrow> session_row \<Rightarrow> bool" where
  "session_le a b \<longleftrightarrow> ss_platform b = ss_platform a \<and> ss_revision a \<le> ss_revision b
     \<and> ss_observed_at a \<le> ss_observed_at b
     \<and> (ss_revision a = ss_revision b \<and> circuit_open a \<longrightarrow> circuit_open b)"

definition guard_le :: "guard_row \<Rightarrow> guard_row \<Rightarrow> bool" where
  "guard_le a b \<longleftrightarrow> gr_revision a \<le> gr_revision b
     \<and> (gr_revision a = gr_revision b \<longrightarrow> gr_engaged b = gr_engaged a)"

definition policy_le :: "policy_row \<Rightarrow> policy_row \<Rightarrow> bool" where
  "policy_le a b \<longleftrightarrow>
     (case (pr_minimum_interval a, pr_task_limit a) of
        (Some i, Some n) \<Rightarrow>
          (case (pr_minimum_interval b, pr_task_limit b) of
             (Some j, Some m) \<Rightarrow> i \<le> j \<and> m \<le> n
           | _ \<Rightarrow> False)
      | _ \<Rightarrow> True)"

lemma progress_le_refl [simp]: "progress_le p p"
  by (simp add: progress_le_def)

lemma progress_le_trans: "progress_le p q \<Longrightarrow> progress_le q r \<Longrightarrow> progress_le p r"
  by (auto simp: progress_le_def)

lemma policy_le_refl [simp]: "policy_le p p"
  by (simp add: policy_le_def split: option.split)

lemma policy_le_trans: "policy_le p q \<Longrightarrow> policy_le q r \<Longrightarrow> policy_le p r"
  by (auto simp: policy_le_def split: option.splits)

interpretation effects: row_order effect_le ef_action_id
  by unfold_locales (auto simp: effect_le_def intro: progress_le_trans)

interpretation publishes: row_order publish_le pu_job_id
  by unfold_locales (auto simp: publish_le_def intro: progress_le_trans)

interpretation checkpoint_rows: row_order checkpoint_le ck_attempt_id
  by unfold_locales (auto simp: checkpoint_le_def)

interpretation outbox_rows: row_order outbox_le ob_message_id
proof
  show "outbox_le r r" for r by (simp add: outbox_le_def)
  show "outbox_le a c" if "outbox_le a b" "outbox_le b c" for a b c
    using that by (cases a; cases b; cases c) (simp add: outbox_le_def)
  show "ob_message_id a = ob_message_id b" if "outbox_le a b" for a b
    using that by (cases a; cases b) (simp add: outbox_le_def)
qed

interpretation session_rows: row_order session_le ss_platform
  by unfold_locales (auto simp: session_le_def)

interpretation admission_rows: row_order "(=)" ad_action_id
  by unfold_locales auto

interpretation command_rows: row_order "(=)" cm_message_id
  by unfold_locales auto

definition evolves :: "ledger \<Rightarrow> ledger \<Rightarrow> bool" where
  "evolves L L' \<longleftrightarrow>
     own_installation_id L' = own_installation_id L \<and> own_executor_id L' = own_executor_id L
     \<and> guard_le (action_guard L) (action_guard L') \<and> policy_le (action_policy L) (action_policy L')
     \<and> table_le (=) (admissions L) (admissions L')
     \<and> table_le effect_le (side_effects L) (side_effects L')
     \<and> table_le publish_le (publish_dispatches L) (publish_dispatches L')
     \<and> table_le checkpoint_le (checkpoints L) (checkpoints L')
     \<and> table_le (=) (commands L) (commands L')
     \<and> table_le outbox_le (outbox L) (outbox L')
     \<and> table_le session_le (sessions L) (sessions L')"

lemmas table_le_refls =
  effects.le_refl publishes.le_refl checkpoint_rows.le_refl outbox_rows.le_refl
  session_rows.le_refl admission_rows.le_refl command_rows.le_refl

lemma evolves_refl [simp]: "evolves L L"
  by (simp add: evolves_def table_le_refls guard_le_def)

lemma evolves_trans:
  assumes "evolves A B" and "evolves B C"
  shows "evolves A C"
proof -
  have "guard_le (action_guard A) (action_guard C)"
    using assms by (auto simp: evolves_def guard_le_def)
  then show ?thesis
    using assms unfolding evolves_def
    by (auto intro: policy_le_trans effects.le_trans publishes.le_trans checkpoint_rows.le_trans
        outbox_rows.le_trans session_rows.le_trans admission_rows.le_trans command_rows.le_trans)
qed

subsection \<open>The invariant\<close>

text \<open>The sequences of an attempt's commands, in the order they were received.\<close>

definition sequences_of :: "str \<Rightarrow> command_row list \<Rightarrow> int list" where
  "sequences_of attempt rows = map cm_sequence (filter (\<lambda>c. cm_attempt_id c = attempt) rows)"

definition commands_contiguous :: "ledger \<Rightarrow> bool" where
  "commands_contiguous L \<longleftrightarrow>
     list_all (\<lambda>p. sequences_of (ck_attempt_id p) (commands L) = [1..ck_last_command p])
       (checkpoints L)"

definition ordinals_increasing :: "outbox_row list \<Rightarrow> bool" where
  "ordinals_increasing rows \<longleftrightarrow> sorted_wrt (<) (map ob_ordinal rows)"

text \<open>Two admissions of one platform and action type are at least the smallest interval apart.\<close>

definition paced :: "admission_row \<Rightarrow> admission_row \<Rightarrow> bool" where
  "paced a b \<longleftrightarrow> (ad_platform a = ad_platform b \<and> ad_action a = ad_action b \<longrightarrow>
     ad_admitted_at a + seconds 1 \<le> ad_admitted_at b)"

text \<open>The ordinals of the admissions that share a task, a platform and an action type.\<close>

definition same_budget :: "admission_row \<Rightarrow> admission_row \<Rightarrow> bool" where
  "same_budget a b \<longleftrightarrow> ad_task_id b = ad_task_id a \<and> ad_platform b = ad_platform a
     \<and> ad_action b = ad_action a"

definition budget_ordinals :: "admission_row \<Rightarrow> admission_row list \<Rightarrow> int list" where
  "budget_ordinals r rows = map ad_ordinal (filter (same_budget r) rows)"

definition budgets_counted :: "admission_row list \<Rightarrow> bool" where
  "budgets_counted rows \<longleftrightarrow>
     list_all (\<lambda>r. budget_ordinals r rows = [1..int (length (budget_ordinals r rows))]) rows"

definition admissions_paced :: "ledger \<Rightarrow> bool" where
  "admissions_paced L \<longleftrightarrow>
     list_all (\<lambda>r. ad_installation_id r = own_installation_id L) (admissions L)
     \<and> sorted_wrt paced (admissions L) \<and> budgets_counted (admissions L)"

definition ledger_inv :: "ledger \<Rightarrow> bool" where
  "ledger_inv L \<longleftrightarrow> ledger_wf L \<and> commands_contiguous L \<and> ordinals_increasing (outbox L)
     \<and> admissions_paced L"

definition sound :: "ledger \<Rightarrow> ledger \<Rightarrow> bool" where
  "sound L L' \<longleftrightarrow> (ledger_inv L \<longrightarrow> ledger_inv L' \<and> evolves L L')"

lemma sound_refl [simp, intro]: "sound L L"
  by (simp add: sound_def)

lemma sound_trans: "sound A B \<Longrightarrow> sound B C \<Longrightarrow> sound A C"
  by (auto simp: sound_def intro: evolves_trans)

lemma new_ledger_inv: "ledger_inv (new_ledger i e)"
  using new_ledger_wf [of i e]
  by (simp add: ledger_inv_def commands_contiguous_def ordinals_increasing_def admissions_paced_def
      budgets_counted_def new_ledger_def)

end
