(* ===== verification/Ledger_Writes.thy ===== *)
theory Ledger_Writes
  imports Evolution
begin

text \<open>
  One lemma per kind of write: the statement keeps the ledger invariant and moves every table
  forward in its order. The operations of the ledger are compositions of these writes.
\<close>

lemmas inv_defs = ledger_inv_def ledger_wf_def
lemmas sound_defs = sound_def inv_defs evolves_def guard_le_def

lemma keys_updated:
  assumes "\<And>r. key (f r) = key r"
  shows "key ` set (map (\<lambda>r. if P r then f r else r) rows) = key ` set rows"
  using assms by (induction rows) simp_all

lemma sound_guard:
  assumes "guard_ok (action_guard L) \<Longrightarrow> guard_ok g" and "guard_le (action_guard L) g"
  shows "sound L (L\<lparr>action_guard := g\<rparr>)"
  using assms
  by (simp add: sound_def inv_defs evolves_def table_le_refls commands_contiguous_def
      admissions_paced_def)

lemma sound_policy:
  assumes "policy_ok p" and "policy_le (action_policy L) p"
  shows "sound L (L\<lparr>action_policy := p\<rparr>)"
  using assms
  by (simp add: sound_defs table_le_refls commands_contiguous_def admissions_paced_def)

lemma budgets_counted_append:
  assumes "budgets_counted rows"
    and "ad_ordinal row = int (length (budget_ordinals row rows)) + 1"
  shows "budgets_counted (rows @ [row])"
proof -
  have same: "budget_ordinals r rows = budget_ordinals row rows" if "same_budget r row" for r
  proof -
    have "same_budget r = same_budget row" using that by (auto simp: same_budget_def fun_eq_iff)
    then show ?thesis by (simp add: budget_ordinals_def)
  qed
  have row: "budget_ordinals row rows = [1..int (length (budget_ordinals row rows))]"
  proof (cases "filter (same_budget row) rows")
    case Nil
    then show ?thesis by (simp add: budget_ordinals_def)
  next
    case (Cons r rs)
    then have "r \<in> set (filter (same_budget row) rows)" by simp
    then have r: "r \<in> set rows" "same_budget row r" by auto
    then have "same_budget r row" by (simp add: same_budget_def)
    then have "budget_ordinals r rows = budget_ordinals row rows" by (rule same)
    moreover have "budget_ordinals r rows = [1..int (length (budget_ordinals r rows))]"
      using r(1) assms(1) by (simp add: budgets_counted_def list_all_iff)
    ultimately show ?thesis by simp
  qed
  have step: "[1..int n + 1] = [1..int n] @ [int n + 1]" for n
    using upto_rec2 [of 1 "int n + 1"] by simp
  show ?thesis
    unfolding budgets_counted_def list_all_iff
  proof
    fix r assume "r \<in> set (rows @ [row])"
    then consider "r = row" | "r \<in> set rows" "r \<noteq> row" by auto
    then show "budget_ordinals r (rows @ [row]) =
        [1..int (length (budget_ordinals r (rows @ [row])))]"
    proof cases
      case 1
      have "budget_ordinals r (rows @ [row]) = budget_ordinals row rows @ [ad_ordinal row]"
        using 1 by (simp add: budget_ordinals_def same_budget_def)
      then show ?thesis using row assms(2) step [of "length (budget_ordinals row rows)"]
          by (simp add: add.commute)
    next
      case 2
      have old: "budget_ordinals r rows = [1..int (length (budget_ordinals r rows))]"
        using 2 assms(1) by (simp add: budgets_counted_def list_all_iff)
      show ?thesis
      proof (cases "same_budget r row")
        case True
        then have "budget_ordinals r (rows @ [row]) = budget_ordinals row rows @ [ad_ordinal row]"
          using same [OF True] by (simp add: budget_ordinals_def)
        then show ?thesis using row assms(2) step [of "length (budget_ordinals row rows)"]
          by (simp add: add.commute)
      next
        case False
        then have "budget_ordinals r (rows @ [row]) = budget_ordinals r rows"
          by (simp add: budget_ordinals_def)
        with old show ?thesis by simp
      qed
    qed
  qed
qed

lemma sound_insert_admission:
  assumes "sql_insert admission_ok admission_clash row (admissions L) = Some rows"
    and "ad_installation_id row = own_installation_id L"
    and "\<And>r. r \<in> set (admissions L) \<Longrightarrow> ad_installation_id r = own_installation_id L \<Longrightarrow> paced r row"
    and "ad_ordinal row = int (length (budget_ordinals row (admissions L))) + 1"
  shows "sound L (L\<lparr>admissions := rows\<rparr>)"
proof -
  have rows: "rows = admissions L @ [row]" using assms(1) by (simp add: sql_insert_Some)
  have "budgets_counted (admissions L) \<Longrightarrow> budgets_counted rows"
    unfolding rows by (rule budgets_counted_append [OF _ assms(4)])
  then show ?thesis
    using assms(1-3) sql_wf_insert [OF _ assms(1)]
    by (auto simp: sound_defs table_le_refls commands_contiguous_def admissions_paced_def rows
        admission_rows.le_append sorted_wrt_append list_all_iff)
qed

lemma sound_insert_effect:
  assumes "sql_insert effect_ok effect_clash row (side_effects L) = Some rows"
    and "ef_action_id row \<in> ad_action_id ` set (admissions L)"
  shows "sound L (L\<lparr>side_effects := rows\<rparr>)"
  using assms sql_wf_insert [OF _ assms(1)] effects.le_insert [OF assms(1)]
  by (simp add: sound_defs table_le_refls commands_contiguous_def admissions_paced_def
      sql_insert_Some)

lemma sound_update_effect:
  assumes "sql_update effect_ok P f (side_effects L) = Some rows"
    and "\<And>r. ef_action_id (f r) = ef_action_id r" "\<And>r. ef_fingerprint (f r) = ef_fingerprint r"
    and "\<And>r. P r \<Longrightarrow> effect_ok r \<Longrightarrow> effect_ok (f r) \<Longrightarrow> progress_le (ef_progress r) (ef_progress (f r))"
  shows "sound L (L\<lparr>side_effects := rows\<rparr>)"
proof (unfold sound_def, intro impI)
  assume inv: "ledger_inv L"
  then have "table_le effect_le (side_effects L) rows"
    using assms
    by (intro effects.le_update [OF assms(1)])
      (auto simp: effect_le_def inv_defs dest: sql_wf_row)
  moreover have "sql_wf effect_ok effect_clash rows"
    using inv assms by (intro sql_wf_update [OF _ assms(1)]) (auto simp: inv_defs effect_clash_def)
  moreover have "ef_action_id ` set rows = ef_action_id ` set (side_effects L)"
    using assms(1,2) keys_updated [of ef_action_id f] by (simp add: sql_update_Some del: set_map)
  ultimately show "ledger_inv (L\<lparr>side_effects := rows\<rparr>) \<and> evolves L (L\<lparr>side_effects := rows\<rparr>)"
    using inv
    by (simp add: inv_defs evolves_def guard_le_def table_le_refls commands_contiguous_def
        admissions_paced_def)
qed

lemma sound_insert_publish:
  assumes "sql_insert publish_ok publish_clash row (publish_dispatches L) = Some rows"
  shows "sound L (L\<lparr>publish_dispatches := rows\<rparr>)"
  using assms sql_wf_insert [OF _ assms(1)] publishes.le_insert [OF assms(1)]
  by (simp add: sound_defs table_le_refls commands_contiguous_def admissions_paced_def)

lemma sound_update_publish:
  assumes "sql_update publish_ok P f (publish_dispatches L) = Some rows"
    and "\<And>r. pu_job_id (f r) = pu_job_id r" "\<And>r. pu_content_hash (f r) = pu_content_hash r"
    and "\<And>r. P r \<Longrightarrow> publish_ok r \<Longrightarrow> progress_le (pu_progress r) (pu_progress (f r))"
  shows "sound L (L\<lparr>publish_dispatches := rows\<rparr>)"
proof (unfold sound_def, intro impI)
  assume inv: "ledger_inv L"
  then have "table_le publish_le (publish_dispatches L) rows"
    using assms
    by (intro publishes.le_update [OF assms(1)])
      (auto simp: publish_le_def inv_defs dest: sql_wf_row)
  moreover have "sql_wf publish_ok publish_clash rows"
    using inv assms by (intro sql_wf_update [OF _ assms(1)]) (auto simp: inv_defs publish_clash_def)
  ultimately show "ledger_inv (L\<lparr>publish_dispatches := rows\<rparr>)
      \<and> evolves L (L\<lparr>publish_dispatches := rows\<rparr>)"
    using inv
    by (simp add: inv_defs evolves_def guard_le_def table_le_refls commands_contiguous_def
        admissions_paced_def)
qed

text \<open>An update of a checkpoint that is not the receipt of a command.\<close>

lemma sound_update_checkpoint:
  assumes up: "sql_update checkpoint_ok P f (checkpoints L) = Some rows"
    and keep: "\<And>r. ck_attempt_id (f r) = ck_attempt_id r" "\<And>r. ck_task_id (f r) = ck_task_id r"
      "\<And>r. ck_last_command (f r) = ck_last_command r" "\<And>r. ck_revision (f r) = ck_revision r + 1"
    and event: "\<And>r. r \<in> set (checkpoints L) \<Longrightarrow> ledger_wf L \<Longrightarrow> P r \<Longrightarrow>
      ck_last_event r \<le> ck_last_event (f r)"
  shows "sound L (L\<lparr>checkpoints := rows\<rparr>)"
proof (unfold sound_def, intro impI)
  assume inv: "ledger_inv L"
  have rows: "rows = map (\<lambda>r. if P r then f r else r) (checkpoints L)"
    using up by (simp add: sql_update_Some)
  have "table_le checkpoint_le (checkpoints L) rows"
    using keep event inv
    by (intro checkpoint_rows.le_update [OF up]) (auto simp: checkpoint_le_def inv_defs)
  moreover have "sql_wf checkpoint_ok checkpoint_clash rows"
    using inv keep by (intro sql_wf_update [OF _ up]) (auto simp: inv_defs checkpoint_clash_def)
  moreover have "ck_attempt_id ` set rows = ck_attempt_id ` set (checkpoints L)"
    unfolding rows by (rule keys_updated) (rule keep(1))
  moreover have "commands_contiguous (L\<lparr>checkpoints := rows\<rparr>)"
    using inv keep(1,3) by (auto simp: inv_defs commands_contiguous_def rows list_all_iff)
  ultimately show "ledger_inv (L\<lparr>checkpoints := rows\<rparr>) \<and> evolves L (L\<lparr>checkpoints := rows\<rparr>)"
    using inv by (simp add: inv_defs evolves_def guard_le_def table_le_refls admissions_paced_def)
qed

lemma sound_insert_outbox:
  assumes ins: "insert_outbox cd L e source n = Some L'"
    and above: "\<And>r. r \<in> set (outbox L) \<Longrightarrow> ob_ordinal r < n"
  shows "sound L L'"
proof -
  from ins obtain rows where
    src: "source \<in> cm_message_id ` set (commands L)"
    and rows: "sql_insert outbox_ok outbox_clash (outbox_row_of cd e source n) (outbox L) = Some rows"
    and L': "L' = L\<lparr>outbox := rows\<rparr>"
    by (auto simp: insert_outbox_def bind_eq_Some_conv split: if_splits)
  have app: "rows = outbox L @ [outbox_row_of cd e source n]"
    using rows by (simp add: sql_insert_Some)
  show ?thesis
    using src L' above sql_wf_insert [OF _ rows]
    by (auto simp: sound_defs table_le_refls commands_contiguous_def admissions_paced_def app
        ordinals_increasing_def sorted_wrt_append outbox_rows.le_append outbox_row_of_def)
qed

text \<open>Updates of the outbox only set the two flags.\<close>

lemma sound_map_outbox:
  assumes "\<And>r. outbox_le r (f r)"
  shows "sound L (L\<lparr>outbox := map f (outbox L)\<rparr>)"
proof (unfold sound_def, intro impI)
  assume inv: "ledger_inv L"
  have f: "ob_ordinal (f r) = ob_ordinal r" "ob_message_id (f r) = ob_message_id r"
    "ob_idempotency_key (f r) = ob_idempotency_key r" "ob_source (f r) = ob_source r"
    "outbox_ok (f r) = outbox_ok r" for r
    using assms [of r] by (cases r; cases "f r"; simp add: outbox_le_def outbox_ok_def)+
  have "sql_wf outbox_ok outbox_clash (map f (outbox L))"
    using inv by (simp add: inv_defs sql_wf_def list_all_iff sorted_wrt_map outbox_clash_def f)
  moreover have "map ob_ordinal (map f (outbox L)) = map ob_ordinal (outbox L)"
    by (simp add: f)
  moreover have "ob_source ` set (map f (outbox L)) = ob_source ` set (outbox L)"
    by (simp add: image_image f)
  ultimately show "ledger_inv (L\<lparr>outbox := map f (outbox L)\<rparr>)
      \<and> evolves L (L\<lparr>outbox := map f (outbox L)\<rparr>)"
    using inv outbox_rows.le_map [of "outbox L" f] assms
    by (simp add: inv_defs evolves_def guard_le_def table_le_refls commands_contiguous_def
        admissions_paced_def ordinals_increasing_def del: map_map)
qed

lemma sound_insert_session:
  assumes "sql_insert session_ok session_clash row (sessions L) = Some rows"
  shows "sound L (L\<lparr>sessions := rows\<rparr>)"
  using assms sql_wf_insert [OF _ assms(1)] session_rows.le_insert [OF assms(1)]
  by (simp add: sound_defs table_le_refls commands_contiguous_def admissions_paced_def)

lemma sound_update_session:
  assumes up: "sql_update session_ok P f (sessions L) = Some rows"
    and keep: "\<And>r. ss_platform (f r) = ss_platform r"
    and le: "\<And>r. r \<in> set (sessions L) \<Longrightarrow> ledger_wf L \<Longrightarrow> P r \<Longrightarrow> session_le r (f r)"
  shows "sound L (L\<lparr>sessions := rows\<rparr>)"
proof (unfold sound_def, intro impI)
  assume inv: "ledger_inv L"
  have "table_le session_le (sessions L) rows"
    using le inv by (intro session_rows.le_update [OF up]) (auto simp: inv_defs)
  moreover have "sql_wf session_ok session_clash rows"
    using inv keep by (intro sql_wf_update [OF _ up]) (auto simp: inv_defs session_clash_def)
  ultimately show "ledger_inv (L\<lparr>sessions := rows\<rparr>) \<and> evolves L (L\<lparr>sessions := rows\<rparr>)"
    using inv
    by (simp add: inv_defs evolves_def guard_le_def table_le_refls commands_contiguous_def
        admissions_paced_def)
qed

text \<open>
  The receipt of a new command: the checkpoint of its attempt is created with, or moves to, the
  command's sequence, and the command row is appended.
\<close>

lemma sequences_of_append:
  "sequences_of a (rows @ [c]) =
     (if cm_attempt_id c = a then sequences_of a rows @ [cm_sequence c] else sequences_of a rows)"
  by (simp add: sequences_of_def)

lemma sequences_of_absent:
  "a \<notin> cm_attempt_id ` set rows \<Longrightarrow> sequences_of a rows = []"
  by (induction rows) (auto simp: sequences_of_def)

lemma advance_checkpoint_new:
  assumes "advance_checkpoint L e = Some cks"
    and "sql_lookup ck_attempt_id (execution_attempt_id e) (checkpoints L) = None"
  shows "sequence e = 1 \<and> message_type e \<notin> control_types \<union> {M_action_execute}
    \<and> (\<exists>n. sql_insert checkpoint_ok checkpoint_clash
        \<lparr>ck_attempt_id = execution_attempt_id e, ck_task_id = task_id e, ck_last_command = 1,
         ck_last_event = n, ck_state = CK_received, ck_revision = 1\<rparr> (checkpoints L) = Some cks)"
  using assms by (auto simp: advance_checkpoint_def bind_eq_Some_conv split: if_splits)

lemma advance_checkpoint_next:
  assumes "advance_checkpoint L e = Some cks"
    and "sql_lookup ck_attempt_id (execution_attempt_id e) (checkpoints L) = Some p"
  shows "ck_task_id p = task_id e \<and> sequence e = ck_last_command p + 1
    \<and> (\<forall>S. required_control_states (message_type e) = Some S \<longrightarrow> ck_state p \<in> S)
    \<and> sql_update checkpoint_ok
        (\<lambda>r. ck_attempt_id r = execution_attempt_id e \<and> ck_revision r = ck_revision p)
        (\<lambda>r. r\<lparr>ck_last_command := sequence e, ck_revision := ck_revision r + 1\<rparr>)
        (checkpoints L) = Some cks"
  using assms by (auto simp: advance_checkpoint_def split: if_splits option.splits)

text \<open>Both branches, as what they do to the checkpoints.\<close>

lemma advance_checkpoint_sound:
  assumes adv: "advance_checkpoint L e = Some cks" and inv: "ledger_inv L"
  shows "sql_wf checkpoint_ok checkpoint_clash cks \<and> table_le checkpoint_le (checkpoints L) cks
    \<and> (\<forall>p \<in> set cks. ck_attempt_id p = execution_attempt_id e \<longrightarrow>
        ck_last_command p = sequence e
        \<and> sequences_of (ck_attempt_id p) (commands L) = [1..sequence e - 1])
    \<and> (\<forall>p \<in> set cks. ck_attempt_id p \<noteq> execution_attempt_id e \<longrightarrow> p \<in> set (checkpoints L))
    \<and> execution_attempt_id e \<in> ck_attempt_id ` set cks
    \<and> ck_attempt_id ` set (checkpoints L) \<subseteq> ck_attempt_id ` set cks"
    (is "?wf \<and> ?le \<and> ?own \<and> ?others \<and> ?member \<and> ?keys")
proof (cases "sql_lookup ck_attempt_id (execution_attempt_id e) (checkpoints L)")
  case None
  from advance_checkpoint_new [OF adv None] obtain p where
    p: "sequence e = 1" "ck_last_command p = 1" "ck_attempt_id p = execution_attempt_id e"
    and ins: "sql_insert checkpoint_ok checkpoint_clash p (checkpoints L) = Some cks" by force
  have absent: "execution_attempt_id e \<notin> ck_attempt_id ` set (checkpoints L)"
    "\<And>r. r \<in> set (checkpoints L) \<Longrightarrow> ck_attempt_id r \<noteq> execution_attempt_id e"
    using None by (auto simp: sql_lookup_None image_iff)
  from this(1) have "sequences_of (execution_attempt_id e) (commands L) = []"
    using inv by (intro sequences_of_absent) (auto simp: inv_defs)
  then show ?thesis
    using ins p absent(2) inv sql_wf_insert [OF _ ins] checkpoint_rows.le_insert [OF ins]
    by (auto simp: sql_insert_Some inv_defs)
next
  case (Some p)
  let ?P = "\<lambda>r. ck_attempt_id r = execution_attempt_id e \<and> ck_revision r = ck_revision p"
  let ?f = "\<lambda>r. r\<lparr>ck_last_command := sequence e, ck_revision := ck_revision r + 1\<rparr>"
  note next_cmd = advance_checkpoint_next [OF adv Some]
  have up: "sql_update checkpoint_ok ?P ?f (checkpoints L) = Some cks" using next_cmd by blast
  have wf: "sql_wf checkpoint_ok checkpoint_clash (checkpoints L)" using inv by (simp add: inv_defs)
  have p: "p \<in> set (checkpoints L)" "ck_attempt_id p = execution_attempt_id e"
    using sql_lookup_SomeD [OF Some] by auto
  have uniq: "r \<in> set (checkpoints L) \<Longrightarrow> ck_attempt_id r = execution_attempt_id e \<Longrightarrow> r = p" for r
    using checkpoint_table.key_inj [OF wf _ p(1), of r] p(2) by simp
  have rows: "cks = map (\<lambda>r. if ?P r then ?f r else r) (checkpoints L)"
    using up by (simp add: sql_update_Some)
  have ?wf using sql_wf_update [OF wf up] by (simp add: checkpoint_clash_def)
  moreover have ?le
  proof (rule checkpoint_rows.le_update [OF up])
    fix r assume "r \<in> set (checkpoints L)" "?P r"
    then have "r = p" using uniq by auto
    with next_cmd show "checkpoint_le r (?f r)" by (simp add: checkpoint_le_def)
  qed
  moreover have ?own
  proof -
    have "sequences_of (execution_attempt_id e) (commands L) = [1..ck_last_command p]"
      using inv p by (auto simp: inv_defs commands_contiguous_def list_all_iff)
    moreover have "sequence e - 1 = ck_last_command p" using next_cmd by simp
    moreover have "ck_last_command q = sequence e"
      if q: "q \<in> set cks" "ck_attempt_id q = execution_attempt_id e" for q
    proof -
      from q(1) obtain r where r: "r \<in> set (checkpoints L)" "q = (if ?P r then ?f r else r)"
        unfolding rows set_map by blast
      with q(2) have "ck_attempt_id r = execution_attempt_id e" by (simp split: if_splits)
      with uniq [OF r(1)] r(2) p(2) show ?thesis by simp
    qed
    ultimately show ?thesis by metis
  qed
  moreover have ?others by (auto simp: rows)
  moreover have keys: "ck_attempt_id ` set cks = ck_attempt_id ` set (checkpoints L)"
    unfolding rows by (rule keys_updated) simp
  moreover have ?member unfolding keys using p by (metis image_eqI)
  ultimately show ?thesis by (metis order_refl)
qed

lemma sound_receive:
  assumes adv: "advance_checkpoint L e = Some cks"
    and ins: "insert_command (L\<lparr>checkpoints := cks\<rparr>) row = Some L'"
    and row: "cm_attempt_id row = execution_attempt_id e" "cm_sequence row = sequence e"
  shows "sound L L'"
proof (unfold sound_def, intro impI)
  assume inv: "ledger_inv L"
  note ck = advance_checkpoint_sound [OF adv inv]
  from ins obtain rows where
    rows: "sql_insert command_ok command_clash row (commands L) = Some rows"
    and L': "L' = L\<lparr>checkpoints := cks, commands := rows\<rparr>"
    by (auto simp: insert_command_def bind_eq_Some_conv split: if_splits)
  have app: "rows = commands L @ [row]" and ok: "command_ok row"
    using rows by (simp_all add: sql_insert_Some)
  have seq: "1 \<le> sequence e" using ok row by (simp add: command_ok_def)
  have split: "[1..sequence e] = [1..sequence e - 1] @ [sequence e]"
    using seq upto_rec2 [of 1 "sequence e"] by simp
  have contig: "commands_contiguous L'"
    unfolding commands_contiguous_def list_all_iff
  proof
    fix p assume "p \<in> set (checkpoints L')"
    then have p: "p \<in> set cks" by (simp add: L')
    show "sequences_of (ck_attempt_id p) (commands L') = [1..ck_last_command p]"
    proof (cases "ck_attempt_id p = execution_attempt_id e")
      case True
      then have last: "ck_last_command p = sequence e"
        and old: "sequences_of (ck_attempt_id p) (commands L) = [1..sequence e - 1]"
        using ck p by blast+
      have "sequences_of (ck_attempt_id p) (commands L') = [1..sequence e - 1] @ [sequence e]"
        using True row by (simp add: L' app sequences_of_append old [unfolded True])
      then show ?thesis by (simp only: last split)
    next
      case False
      then have "p \<in> set (checkpoints L)" using ck p by blast
      with inv have "sequences_of (ck_attempt_id p) (commands L) = [1..ck_last_command p]"
        by (simp add: ledger_inv_def commands_contiguous_def list_all_iff)
      with False row show ?thesis by (simp add: L' app sequences_of_append)
    qed
  qed
  have "sql_wf command_ok command_clash rows" "table_le (=) (commands L) rows"
    using inv sql_wf_insert [OF _ rows] command_rows.le_insert [OF rows] by (simp_all add: inv_defs)
  moreover have "cm_attempt_id ` set rows \<subseteq> ck_attempt_id ` set cks"
  proof -
    have "cm_attempt_id ` set (commands L) \<subseteq> ck_attempt_id ` set (checkpoints L)"
      using inv by (simp add: inv_defs)
    also have "\<dots> \<subseteq> ck_attempt_id ` set cks" using ck by blast
    finally show ?thesis using ck row(1) by (simp add: app)
  qed
  moreover have "ob_source ` set (outbox L) \<subseteq> cm_message_id ` set rows"
    using inv by (auto simp: app inv_defs)
  moreover have "sql_wf checkpoint_ok checkpoint_clash cks" "table_le checkpoint_le (checkpoints L) cks"
    using ck by blast+
  moreover note inv
  ultimately show "ledger_inv L' \<and> evolves L L'"
    using contig unfolding inv_defs L' evolves_def guard_le_def admissions_paced_def
    by (simp add: table_le_refls)
qed

end
