(* ===== verification/Ledger_Soundness.thy ===== *)
theory Ledger_Soundness
  imports Ledger_Writes
begin

text \<open>Every operation of the ledger is a composition of sound writes.\<close>

subsection \<open>Gates\<close>

lemma sound_set_transport: "sound L (snd (set_transport_connected L b))"
  using sound_guard [of L "(action_guard L)\<lparr>gr_network_connected := b\<rparr>"]
  by (auto simp: set_transport_connected_def guard_ok_def guard_le_def)

lemma sound_latch:
  assumes "engage_action_latch L t = Some (s, L')"
  shows "sound L L'"
proof -
  note facts = engage_action_latch_SomeD [OF assms]
  then have "sound L (L\<lparr>action_guard := action_guard L'\<rparr>)"
    by (intro sound_guard) (auto simp: guard_le_def)
  with facts show ?thesis by simp
qed

lemma sound_engage_stop: "engage_action_emergency_stop L at = Some (s, L') \<Longrightarrow> sound L L'"
  by (auto dest!: engage_action_emergency_stop_SomeD intro: sound_latch)

lemma sound_clear_stop:
  assumes "clear_action_emergency_stop L n at = Some (s, L')"
  shows "sound L L'"
proof -
  note facts = clear_action_emergency_stop_SomeD [OF assms]
  then have "guard_ok (action_guard L')"
    and "gr_revision (action_guard L') = gr_revision (action_guard L) + 1"
    and same: "L\<lparr>action_guard := action_guard L'\<rparr> = L'" by blast+
  then have "sound L (L\<lparr>action_guard := action_guard L'\<rparr>)"
    by (intro sound_guard) (simp_all add: guard_le_def)
  then show ?thesis by (simp only: same)
qed

lemma make_hard_policy_Some:
  "make_hard_policy i n = Some h \<longleftrightarrow> h = \<lparr>hp_interval = i, hp_limit = n\<rparr> \<and> hard_policy_ok i n"
  by (auto simp: make_hard_policy_def)

lemma bind_action_hard_policy_SomeD:
  assumes "bind_action_hard_policy L i n = Some (h, L')"
  shows "L' = L\<lparr>action_policy := \<lparr>pr_minimum_interval = Some (hp_interval h),
      pr_task_limit = Some (hp_limit h)\<rparr>\<rparr>
    \<and> hard_policy_ok (hp_interval h) (hp_limit h)
    \<and> i \<le> hp_interval h \<and> hp_limit h \<le> n
    \<and> policy_le (action_policy L) (action_policy L')"
  using assms
  by (auto simp: bind_action_hard_policy_def bind_eq_Some_conv make_hard_policy_Some policy_le_def
      split: option.splits)

lemma sound_bind_policy:
  assumes "bind_action_hard_policy L i n = Some (h, L')"
  shows "sound L L'"
proof -
  note facts = bind_action_hard_policy_SomeD [OF assms]
  then have "sound L (L\<lparr>action_policy := action_policy L'\<rparr>)"
    by (intro sound_policy) (auto simp: policy_ok_def)
  moreover have "L\<lparr>action_policy := action_policy L'\<rparr> = L'" using facts by simp
  ultimately show ?thesis by simp
qed

subsection \<open>Admission\<close>

text \<open>A call either leaves the ledger alone or appends the row of its claims.\<close>

definition next_admission :: "ledger \<Rightarrow> claims \<Rightarrow> bytes \<Rightarrow> instant \<Rightarrow> admission_row" where
  "next_admission L c fp t = admission_of_claims c fp t
     (task_action_count L (cl_task_id c) (cl_platform c) (cl_action c) + 1)"

lemma admit_action_cases:
  assumes "admit_action L c fp at i n = (res, L')"
  obtains (same) "L' = L"
  | (added) t where "at = Aware 0 t"
      "admit_request L c fp at i n = Some t"
      "\<not> gr_engaged (action_guard L)"
      "sql_insert admission_ok admission_clash (next_admission L c fp t) (admissions L) =
         Some (admissions L')"
      "L\<lparr>admissions := admissions L'\<rparr> = L'"
      "\<And>m. latest_admitted_at L (cl_platform c) (cl_action c) = Some m \<Longrightarrow> m + seconds i \<le> t"
      "task_action_count L (cl_task_id c) (cl_platform c) (cl_action c) < n"
      "res = (case make_admission (next_admission L c fp t) False of
         None \<Rightarrow> Inl Admit_rejected | Some a \<Rightarrow> Inr a)"
proof (cases "L' = L")
  case True
  then show ?thesis by (rule same)
next
  case False
  with assms obtain t stop where
    t: "admit_request L c fp at i n = Some t"
    and stop: "read_emergency_stop (action_guard L) = Some stop" "\<not> es_engaged stop"
    and admit: "admit_new L c fp t i n = (res, L')"
    by (auto simp: admit_action_def split: op_splits)
  have "at = Aware 0 t"
    using t by (auto simp: admit_request_def bind_eq_Some_conv canonical_utc_Some split: if_splits)
  moreover have "\<not> gr_engaged (action_guard L)"
    using stop by (auto dest: read_emergency_stop_Some)
  ultimately show ?thesis
    using t admit False
    by (intro added)
      (auto simp: admit_new_def next_admission_def Let_def not_less not_le split: op_splits)
qed

lemma latest_admitted_at_ge:
  assumes "r \<in> set (admissions L)" and "ad_installation_id r = own_installation_id L"
    and "ad_platform r = p" and "ad_action r = a"
  obtains m where "latest_admitted_at L p a = Some m" and "ad_admitted_at r \<le> m"
proof (cases "latest_admitted_at L p a")
  case None
  with assms show ?thesis by (auto simp: latest_admitted_at_def filter_empty_conv)
next
  case (Some m)
  with assms have "ad_admitted_at r \<le> m" by (auto simp: latest_admitted_at_def latest_Some)
  with Some that show ?thesis by simp
qed

lemma sound_admit:
  assumes "admit_action L c fp at i n = (res, L')"
  shows "sound L L'"
  using assms
proof (cases rule: admit_action_cases)
  case same
  then show ?thesis by simp
next
  case (added t)
  have i: "1 \<le> i" and own: "cl_installation_id c = own_installation_id L"
    using added(2) by (auto simp: admit_request_def bind_eq_Some_conv hard_policy_ok_def split: if_splits)
  have row: "ad_installation_id (next_admission L c fp t) = own_installation_id L"
    by (simp add: next_admission_def admission_of_claims_def own)
  have "paced r (next_admission L c fp t)"
    if r: "r \<in> set (admissions L)" "ad_installation_id r = own_installation_id L" for r
  proof (cases "ad_platform r = cl_platform c \<and> ad_action r = cl_action c")
    case True
    with r latest_admitted_at_ge obtain m where
      "latest_admitted_at L (cl_platform c) (cl_action c) = Some m" "ad_admitted_at r \<le> m" by metis
    with added(6) [of m] i show ?thesis
      by (simp add: paced_def next_admission_def admission_of_claims_def seconds_def)
  next
    case False
    then show ?thesis by (auto simp: paced_def next_admission_def admission_of_claims_def)
  qed
  moreover have "ad_ordinal (next_admission L c fp t) =
      int (length (budget_ordinals (next_admission L c fp t) (admissions L))) + 1"
    by (simp add: next_admission_def admission_of_claims_def budget_ordinals_def
        same_budget_def [abs_def] task_action_count_def sql_rowcount_def)
  ultimately show ?thesis using sound_insert_admission [OF added(4) row] added(5) by simp
qed

subsection \<open>Dispatch protocols\<close>

lemma progress_le_dispatched:
  "progress_ok p \<Longrightarrow> pg_state p = Prepared \<Longrightarrow> progress_le p (mark_dispatched t p)"
  by (simp add: progress_le_def mark_dispatched_def progress_ok_def)

lemma progress_le_settled:
  "pg_state p = Dispatched \<Longrightarrow> target \<in> {Verified, Uncertain} \<Longrightarrow>
   progress_le p (mark_settled target v t p)"
  by (auto simp: progress_le_def mark_settled_def)

lemma sound_advance_effect:
  assumes "advance_effect L aid s n f = Some (e, L')"
    and "\<And>p. progress_ok p \<Longrightarrow> pg_state p = s \<Longrightarrow> progress_le p (f p)"
  shows "sound L L'"
proof -
  from assms(1) obtain rows where
    "sql_update effect_ok (effect_at aid s n) (move_effect f) (side_effects L) = Some rows"
    "L' = L\<lparr>side_effects := rows\<rparr>"
    by (auto simp: advance_effect_def bind_eq_Some_conv split: if_splits)
  then show ?thesis
    using assms(2)
    by (auto intro!: sound_update_effect simp: effect_at_def effect_ok_def)
qed

lemma sound_advance_publish:
  assumes "advance_publish L jid s n f = Some (d, L')"
    and "\<And>p. progress_ok p \<Longrightarrow> pg_state p = s \<Longrightarrow> progress_le p (f p)"
  shows "sound L L'"
proof -
  from assms(1) obtain rows where
    "sql_update publish_ok (publish_at jid s n) (move_publish f) (publish_dispatches L) = Some rows"
    "L' = L\<lparr>publish_dispatches := rows\<rparr>"
    by (auto simp: advance_publish_def bind_eq_Some_conv split: if_splits)
  then show ?thesis
    using assms(2)
    by (auto intro!: sound_update_publish simp: publish_at_def publish_ok_def)
qed

lemma sound_prepare_effect:
  assumes "prepare_side_effect L aid fp at = Some (e, L')"
  shows "sound L L'"
proof (cases "L' = L")
  case False
  with assms obtain rows t a where
    "sql_insert effect_ok effect_clash
       \<lparr>ef_action_id = aid, ef_fingerprint = fp, ef_progress = new_progress t\<rparr> (side_effects L) =
       Some rows"
    "sql_lookup ad_action_id aid (admissions L) = Some a" "L' = L\<lparr>side_effects := rows\<rparr>"
    by (auto simp: prepare_side_effect_def bind_eq_Some_conv Let_def canonical_uuid_v4_Some
        split: op_splits)
  then show ?thesis
    by (auto intro!: sound_insert_effect dest!: sql_lookup_SomeD)
qed simp

lemma sound_begin_effect:
  assumes "begin_side_effect_dispatch L aid fp at = Some (e, L')"
  shows "sound L L'"
  using assms
  by (cases rule: begin_side_effect_dispatch_SomeD)
    (auto intro: sound_advance_effect progress_le_dispatched)

lemma settle_target: "settle_arguments_ok target v \<Longrightarrow> target \<in> {Verified, Uncertain}"
  by (auto simp: settle_arguments_ok_def split: if_splits)

lemma sound_settle_effect:
  assumes "settle_side_effect L aid fp target v at = Some (e, L')"
  shows "sound L L'"
proof (cases "L' = L")
  case False
  with assms obtain t where "advance_effect L aid Dispatched 2 (mark_settled target v t) = Some (e, L')"
    "settle_arguments_ok target v"
    by (auto simp: settle_side_effect_def bind_eq_Some_conv canonical_uuid_v4_Some split: op_splits)
  then show ?thesis
    using sound_advance_effect progress_le_settled settle_target by metis
qed simp

lemma sound_prepare_publish:
  assumes "prepare_publish_dispatch L jid h at = Some (d, L')"
  shows "sound L L'"
proof (cases "L' = L")
  case False
  with assms obtain rows t where
    "sql_insert publish_ok publish_clash
       \<lparr>pu_job_id = jid, pu_content_hash = h, pu_progress = new_progress t\<rparr> (publish_dispatches L) =
       Some rows" "L' = L\<lparr>publish_dispatches := rows\<rparr>"
    by (auto simp: prepare_publish_dispatch_def bind_eq_Some_conv Let_def canonical_uuid_v4_Some
        split: op_splits)
  then show ?thesis by (auto intro: sound_insert_publish)
qed simp

lemma begin_publish_dispatch_SomeD:
  assumes "begin_publish_dispatch L jid h at i = Some (d, L')"
  obtains (replay) r where "sql_lookup pu_job_id jid (publish_dispatches L) = Some r"
      "pg_state (pu_progress r) \<noteq> Prepared" "pd_replayed d" "L' = L" "pd_progress d = pu_progress r"
  | (grant) r t where "at = Aware 0 t"
      "sql_lookup pu_job_id jid (publish_dispatches L) = Some r"
      "pg_state (pu_progress r) = Prepared" "pg_revision (pu_progress r) = 1"
      "pu_content_hash r = h" "\<not> gr_engaged (action_guard L)"
      "pg_prepared_at (pu_progress r) \<le> t"
      "\<And>prev. previous_publish_at L jid = Some prev \<Longrightarrow> prev + seconds i \<le> t"
      "advance_publish L jid Prepared 1 (mark_dispatched t) = Some (d, L')"
proof -
  from assms obtain r t cur where
    base: "at = Aware 0 t" "sql_lookup pu_job_id jid (publish_dispatches L) = Some r"
      "read_publish_dispatch r False = Some cur" "pd_content_hash cur = h"
      "is_canonical_uuid_v4 jid" "is_sha256_hex h" "\<not> i < 0"
    by (auto simp: begin_publish_dispatch_def bind_eq_Some_conv canonical_utc_Some
        canonical_uuid_v4_Some split: if_splits)
  note cur = read_publish_dispatch_Some [OF base(3)]
  show ?thesis
  proof (cases "pg_state (pu_progress r) = Prepared")
    case False
    then have "begin_publish_dispatch L jid h at i =
        do { d \<leftarrow> read_publish_dispatch r True; Some (d, L) }"
      using base cur by (simp add: begin_publish_dispatch_def canonical_uuid_v4_def)
    from this [symmetric] assms have "read_publish_dispatch r True = Some d \<and> L' = L"
      by (auto simp: bind_eq_Some_conv)
    with base cur False read_publish_dispatch_Some [of r True d] replay show ?thesis by auto
  next
    case True
    then have "begin_publish_dispatch L jid h at i = do {
        require (publish_permitted L);
        require (pg_prepared_at (pd_progress cur) \<le> t
          \<and> (case previous_publish_at L jid of None \<Rightarrow> True
             | Some prev \<Rightarrow> \<not> t - prev < seconds i));
        advance_publish L jid Prepared 1 (mark_dispatched t) }"
      using base cur by (simp add: begin_publish_dispatch_def canonical_uuid_v4_def not_less)
    from this [symmetric] assms have
      "publish_permitted L" "pg_prepared_at (pd_progress cur) \<le> t"
      "\<And>prev. previous_publish_at L jid = Some prev \<Longrightarrow> prev + seconds i \<le> t"
      "advance_publish L jid Prepared 1 (mark_dispatched t) = Some (d, L')"
      by (auto simp: bind_eq_Some_conv split: if_splits)
    moreover from this(1) have "\<not> gr_engaged (action_guard L)"
      by (auto simp: publish_permitted_def read_emergency_stop_def split: option.splits if_splits)
    ultimately show ?thesis
      using base cur True progress_ok_revision read_publish_dispatch_progress_ok [OF base(3)] grant
      by metis
  qed
qed

lemma sound_begin_publish:
  assumes "begin_publish_dispatch L jid h at i = Some (d, L')"
  shows "sound L L'"
  using assms
  by (cases rule: begin_publish_dispatch_SomeD)
    (auto intro: sound_advance_publish progress_le_dispatched)

lemma sound_settle_publish:
  assumes "settle_publish_dispatch L jid h target v at = Some (d, L')"
  shows "sound L L'"
proof (cases "L' = L")
  case False
  with assms obtain t where
    "advance_publish L jid Dispatched 2 (mark_settled target v t) = Some (d, L')"
    "settle_arguments_ok target v"
    by (auto simp: settle_publish_dispatch_def bind_eq_Some_conv canonical_uuid_v4_Some split: op_splits)
  then show ?thesis
    using sound_advance_publish progress_le_settled settle_target by metis
qed simp

end
