(* ===== verification/Outbox_Soundness.thy ===== *)
theory Outbox_Soundness
  imports Ledger_Soundness
begin

text \<open>The command, checkpoint, session and outbox operations are compositions of sound writes.\<close>

subsection \<open>Commands and checkpoints\<close>

lemma progress_le_stopped:
  "pg_state p = Dispatched \<Longrightarrow> progress_le p (mark_stopped t p)"
  by (simp add: progress_le_def mark_stopped_def)

lemma engage_emergency_stop_SomeD:
  assumes "engage_emergency_stop L attempt t = Some L'"
  obtains s L1 where "engage_action_latch L t = Some (s, L1)"
    and "L1\<lparr>side_effects := side_effects L'\<rparr> = L'"
    and "sql_update effect_ok (stopped_by L1 attempt t)
       (\<lambda>r. r\<lparr>ef_progress := mark_stopped t (ef_progress r)\<rparr>) (side_effects L1) =
       Some (side_effects L')"
    and "\<not> attempt_has_effect L' attempt Dispatched"
  using assms
  by (auto simp: engage_emergency_stop_def bind_eq_Some_conv Let_def split: op_splits)

lemma sound_engage_emergency_stop:
  assumes "engage_emergency_stop L attempt t = Some L'"
  shows "sound L L'"
proof -
  from assms obtain s L1 where
    latch: "engage_action_latch L t = Some (s, L1)"
    and L': "L1\<lparr>side_effects := side_effects L'\<rparr> = L'"
    and up: "sql_update effect_ok (stopped_by L1 attempt t)
       (\<lambda>r. r\<lparr>ef_progress := mark_stopped t (ef_progress r)\<rparr>) (side_effects L1) =
       Some (side_effects L')"
    by (rule engage_emergency_stop_SomeD)
  have "sound L1 (L1\<lparr>side_effects := side_effects L'\<rparr>)"
    by (rule sound_update_effect [OF up]) (simp_all add: progress_le_stopped stopped_by_def)
  with sound_latch [OF latch] L' show ?thesis by (auto intro: sound_trans)
qed

lemma sound_engage_if: "engage_if L attempt stop_at = Some L' \<Longrightarrow> sound L L'"
  by (auto simp: engage_if_def intro: sound_engage_emergency_stop split: option.splits)

text \<open>A call of \<open>_receive_command\<close> either inserts the command or finds it.\<close>

lemma receive_command_at_SomeD:
  assumes "receive_command_at cd L e at = Some (rc, L')"
  obtains (fresh) cks L1 where "command_identity_ok L e"
      "(message_type e = M_task_emergency_stop) = (Option.bind at canonical_utc \<noteq> None)"
      "\<forall>r \<in> set (commands L). cm_message_id r \<noteq> message_id e \<and> cm_idempotency_key r \<noteq> idempotency_key e"
      "advance_checkpoint L e = Some cks"
      "insert_command (L\<lparr>checkpoints := cks\<rparr>) (command_row_of cd e) = Some L1"
      "engage_if L1 (execution_attempt_id e) (Option.bind at canonical_utc) = Some L'"
      "rc = receipt_of_row (command_row_of cd e) False"
  | (known) r where "command_identity_ok L e"
      "(message_type e = M_task_emergency_stop) = (Option.bind at canonical_utc \<noteq> None)"
      "r \<in> set (commands L)" "cm_message_id r = message_id e \<or> cm_idempotency_key r = idempotency_key e"
      "cm_intent_sha256 r = command_intent_fingerprint cd e"
      "engage_if L (execution_attempt_id e) (Option.bind at canonical_utc) = Some L'"
      "rc = receipt_of_row r True"
proof -
  let ?same = "\<lambda>r. cm_message_id r = message_id e \<or> cm_idempotency_key r = idempotency_key e"
  let ?stop = "Option.bind at canonical_utc"
  have pre: "command_identity_ok L e" "(message_type e = M_task_emergency_stop) = (?stop \<noteq> None)"
    using assms by (auto simp: receive_command_at_def Let_def split: if_splits)
  show ?thesis
  proof (cases "filter ?same (commands L)")
    case Nil
    then have none: "\<forall>r \<in> set (commands L). \<not> ?same r" by (simp add: filter_empty_conv)
    from Nil pre assms obtain cks L1 where
      "advance_checkpoint L e = Some cks"
      "insert_command (L\<lparr>checkpoints := cks\<rparr>) (command_row_of cd e) = Some L1"
      "engage_if L1 (execution_attempt_id e) ?stop = Some L'"
      "rc = receipt_of_row (command_row_of cd e) False"
      by (auto simp: receive_command_at_def Let_def bind_eq_Some_conv)
    with pre none show ?thesis by (intro fresh) auto
  next
    case (Cons r rs)
    with pre assms have "rs = []" by (cases rs) (auto simp: receive_command_at_def Let_def)
    with Cons pre assms have
      "cm_intent_sha256 r = command_intent_fingerprint cd e"
      "engage_if L (execution_attempt_id e) ?stop = Some L'" "rc = receipt_of_row r True"
      by (auto simp: receive_command_at_def Let_def bind_eq_Some_conv split: if_splits)
    moreover have "r \<in> set (filter ?same (commands L))" using Cons by simp
    then have "r \<in> set (commands L) \<and> ?same r" by simp
    ultimately show ?thesis using pre by (intro known) auto
  qed
qed

lemma sound_receive_command:
  assumes "receive_command_at cd L e at = Some (rc, L')"
  shows "sound L L'"
  using assms
proof (cases rule: receive_command_at_SomeD)
  case (fresh cks L1)
  have "sound L L1"
    by (rule sound_receive [OF fresh(4,5)]) (simp_all add: command_row_of_def)
  then show ?thesis using sound_engage_if [OF fresh(6)] by (rule sound_trans)
next
  case (known r)
  from sound_engage_if [OF known(6)] show ?thesis .
qed

lemma sound_cas_checkpoint:
  assumes "compare_and_set_checkpoint L attempt n s event = Some (p, L')"
  shows "sound L L'"
proof -
  let ?P = "\<lambda>r. ck_attempt_id r = attempt \<and> ck_revision r = n \<and> ck_last_event r \<le> event"
  from assms obtain rows where
    "sql_update checkpoint_ok ?P
       (\<lambda>r. r\<lparr>ck_state := s, ck_last_event := event, ck_revision := ck_revision r + 1\<rparr>)
       (checkpoints L) = Some rows" "L' = L\<lparr>checkpoints := rows\<rparr>"
    by (auto simp: compare_and_set_checkpoint_def bind_eq_Some_conv Let_def canonical_uuid_v4_Some
        split: if_splits)
  then show ?thesis by (auto intro: sound_update_checkpoint)
qed

subsection \<open>Session epochs\<close>

lemma record_platform_session_cases:
  assumes "record_platform_session L platform s at adv = Some (r, L')"
  obtains (same) "L' = L"
  | (first) t where "sql_lookup ss_platform platform (sessions L) = None"
      "sql_insert session_ok session_clash
         \<lparr>ss_platform = platform, ss_state = s, ss_revision = 1, ss_observed_at = t\<rparr> (sessions L) =
         Some (sessions L')" "L\<lparr>sessions := sessions L'\<rparr> = L'"
  | (moved) cur t where "sql_lookup ss_platform platform (sessions L) = Some cur"
      "ss_observed_at cur < t" "\<not> (\<not> adv \<and> circuit_open cur \<and> s = Healthy)"
      "sql_update session_ok
         (\<lambda>x. ss_platform x = platform \<and> ss_revision x = ss_revision cur)
         (\<lambda>x. x\<lparr>ss_state := s, ss_revision := (if adv then ss_revision cur + 1 else ss_revision cur),
           ss_observed_at := t\<rparr>) (sessions L) = Some (sessions L')"
      "L\<lparr>sessions := sessions L'\<rparr> = L'"
      "r = \<lparr>ss_platform = platform, ss_state = s,
        ss_revision = (if adv then ss_revision cur + 1 else ss_revision cur), ss_observed_at = t\<rparr>"
proof (cases "L' = L")
  case True
  then show ?thesis by (rule same)
next
  case False
  from assms obtain t where t: "astimezone_utc at = Some t"
    and pl: "require_platform platform = Some ()"
    by (auto simp: record_platform_session_def bind_eq_Some_conv)
  show ?thesis
  proof (cases "sql_lookup ss_platform platform (sessions L)")
    case None
    with assms t pl show ?thesis
      by (intro first) (auto simp: record_platform_session_def bind_eq_Some_conv Let_def)
  next
    case (Some row)
    with assms t pl obtain cur where cur: "read_platform_session row = Some cur"
      by (auto simp: record_platform_session_def bind_eq_Some_conv)
    then have [simp]: "cur = row" by (auto simp: read_platform_session_def split: if_splits)
    show ?thesis
      by (rule moved [OF Some])
        (use assms t pl Some cur False in
          \<open>auto simp: record_platform_session_def bind_eq_Some_conv Let_def split: if_splits\<close>)
  qed
qed

lemma sound_record_session:
  assumes "record_platform_session L platform s at adv = Some (r, L')"
  shows "sound L L'"
  using assms
proof (cases rule: record_platform_session_cases)
  case same
  then show ?thesis by simp
next
  case (first t)
  from sound_insert_session [OF first(2)] first(3) show ?thesis by simp
next
  case (moved cur t)
  have "sound L (L\<lparr>sessions := sessions L'\<rparr>)"
  proof (rule sound_update_session [OF moved(4)])
    fix x assume x: "x \<in> set (sessions L)" "ledger_wf L"
      "ss_platform x = platform \<and> ss_revision x = ss_revision cur"
    then have "x = cur"
      using session_table.key_inj [of "sessions L" x cur] sql_lookup_SomeD [OF moved(1)]
      by (simp add: ledger_wf_def)
    with moved(2,3) show "session_le x (x\<lparr>ss_state := s,
        ss_revision := (if adv then ss_revision cur + 1 else ss_revision cur), ss_observed_at := t\<rparr>)"
      by (auto simp: session_le_def circuit_open_def)
  qed simp
  with moved(5) show ?thesis by simp
qed

subsection \<open>The outbox\<close>

lemma next_ordinal_above: "r \<in> set rows \<Longrightarrow> ob_ordinal r < next_ordinal rows"
  by (fastforce simp: next_ordinal_def latest_Some split: option.split)

lemma insert_outbox_SomeD:
  assumes "insert_outbox cd L e source n = Some L'"
  shows "outbox L' = outbox L @ [outbox_row_of cd e source n]
    \<and> L\<lparr>outbox := outbox L'\<rparr> = L' \<and> source \<in> cm_message_id ` set (commands L)"
  using assms by (auto simp: insert_outbox_def bind_eq_Some_conv sql_insert_Some split: if_splits)

lemma sound_insert_outbox_all:
  assumes "insert_outbox_all cd L source n es = Some L'"
    and "\<And>r. r \<in> set (outbox L) \<Longrightarrow> ob_ordinal r < n"
  shows "sound L L'"
  using assms
proof (induction es arbitrary: L n)
  case Nil
  then show ?case by simp
next
  case (Cons e es)
  then obtain L1 where L1: "insert_outbox cd L e source n = Some L1"
    and rest: "insert_outbox_all cd L1 source (n + 1) es = Some L'"
    by (auto simp: bind_eq_Some_conv)
  have "sound L L1" using sound_insert_outbox [OF L1] Cons.prems(2) .
  moreover have "sound L1 L'"
    using Cons.IH [OF rest] insert_outbox_SomeD [OF L1] Cons.prems(2)
    by (fastforce simp: outbox_row_of_def)
  ultimately show ?case by (rule sound_trans)
qed

lemma sound_enqueue:
  assumes "enqueue_outbox cd L source e = Some (x, L')"
  shows "sound L L'"
proof (cases "L' = L")
  case False
  with assms have "insert_outbox cd L e source (next_ordinal (outbox L)) = Some L'"
    by (auto simp: enqueue_outbox_def bind_eq_Some_conv canonical_uuid_v4_Some split: op_splits)
  then show ?thesis by (rule sound_insert_outbox) (rule next_ordinal_above)
qed simp

text \<open>The checkpoint update shared by the three operations that project a result.\<close>

lemma sound_projection:
  assumes "sql_update checkpoint_ok P
      (\<lambda>r. r\<lparr>ck_state := s, ck_last_event := event, ck_revision := ck_revision r + 1\<rparr>)
      (checkpoints L) = Some cks"
    and "p \<in> set (checkpoints L)" and "ck_last_event p \<le> event"
    and "\<And>r. P r \<Longrightarrow> ck_attempt_id r = ck_attempt_id p"
  shows "sound L (L\<lparr>checkpoints := cks\<rparr>)"
proof (rule sound_update_checkpoint [OF assms(1)])
  fix r assume "r \<in> set (checkpoints L)" "ledger_wf L" "P r"
  then have "r = p"
    using checkpoint_table.key_inj [of "checkpoints L" r p] assms(2) assms(4) [of r]
    by (simp add: ledger_wf_def)
  with assms(3) show "ck_last_event r \<le> ck_last_event
      (r\<lparr>ck_state := s, ck_last_event := event, ck_revision := ck_revision r + 1\<rparr>)" by simp
qed simp_all

lemma commit_outcome_SomeD:
  assumes "commit_outcome cd L source n s event messages = Some (entries, L')"
  obtains c p cks where "sql_lookup cm_message_id source (commands L) = Some c"
    "p \<in> set (checkpoints L)" "ck_attempt_id p = cm_attempt_id c" "ck_revision p = n"
    "ck_last_event p \<le> event"
    "\<forall>r \<in> set (outbox L). ob_source r \<noteq> source"
    "outbox_capacity_ok cd (outbox L) messages"
    "list_all (source_matches c) messages"
    "sql_update checkpoint_ok (\<lambda>r. ck_attempt_id r = cm_attempt_id c \<and> ck_revision r = n)
       (\<lambda>r. r\<lparr>ck_state := s, ck_last_event := event, ck_revision := ck_revision r + 1\<rparr>)
       (checkpoints L) = Some cks"
    "insert_outbox_all cd (L\<lparr>checkpoints := cks\<rparr>) source (next_ordinal (outbox L)) messages = Some L'"
    "entries = map (\<lambda>e. \<lparr>oe_message = e, oe_source = source, oe_replayed = False\<rparr>) messages"
  using assms
  by (auto simp: commit_outcome_def bind_eq_Some_conv canonical_uuid_v4_Some Let_def list_ex_iff
      dest!: find_Some_set split: if_splits)

lemma sound_commit_outcome:
  assumes "commit_outcome cd L source n s event messages = Some (entries, L')"
  shows "sound L L'"
  using assms
proof (rule commit_outcome_SomeD)
  fix c p cks
  assume p: "p \<in> set (checkpoints L)" "ck_attempt_id p = cm_attempt_id c" "ck_last_event p \<le> event"
    and up: "sql_update checkpoint_ok (\<lambda>r. ck_attempt_id r = cm_attempt_id c \<and> ck_revision r = n)
       (\<lambda>r. r\<lparr>ck_state := s, ck_last_event := event, ck_revision := ck_revision r + 1\<rparr>)
       (checkpoints L) = Some cks"
    and ins: "insert_outbox_all cd (L\<lparr>checkpoints := cks\<rparr>) source (next_ordinal (outbox L)) messages
      = Some L'"
  have "sound L (L\<lparr>checkpoints := cks\<rparr>)"
    using p(2) by (intro sound_projection [OF up p(1,3)]) simp
  moreover have "sound (L\<lparr>checkpoints := cks\<rparr>) L'"
    by (rule sound_insert_outbox_all [OF ins]) (simp add: next_ordinal_above)
  ultimately show "sound L L'" by (rule sound_trans)
qed

text \<open>A completed control that was not a replay and did not wait for a dispatched effect.\<close>

lemma complete_task_control_cases:
  assumes "complete_task_control cd L source n event = Some (res, L')"
  obtains (same) "L' = L"
  | (projected) c p cks where "sql_lookup cm_message_id source (commands L) = Some c"
      "sql_lookup ck_attempt_id (cm_attempt_id c) (checkpoints L) = Some p"
      "cm_message_type c \<in> control_types"
      "ck_state p \<in> control_checkpoint_states (cm_message_type c)"
      "cm_sequence c = ck_last_command p" "ck_revision p = n" "sequence event = ck_last_event p + 1"
      "has_outbox_of L source {M_task_control_ack}"
      "cm_message_type c \<in> {M_task_pause, M_task_cancel} \<longrightarrow>
         \<not> attempt_has_effect L (cm_attempt_id c) Dispatched"
      "message_type event = snd (control_target L c)"
      "outbox_capacity_ok cd (outbox L) [event]"
      "sql_update checkpoint_ok
         (\<lambda>r. ck_attempt_id r = cm_attempt_id c \<and> ck_revision r = n
            \<and> ck_state r = ck_state p \<and> ck_last_command r = cm_sequence c)
         (\<lambda>r. r\<lparr>ck_state := fst (control_target L c), ck_last_event := sequence event,
            ck_revision := ck_revision r + 1\<rparr>) (checkpoints L) = Some cks"
      "insert_outbox cd (L\<lparr>checkpoints := cks\<rparr>) event source (next_ordinal (outbox L)) = Some L'"
      "res = Some \<lparr>oe_message = event, oe_source = source, oe_replayed = False\<rparr>"
proof (cases "L' = L")
  case True
  then show ?thesis by (rule same)
next
  case False
  from assms obtain c p where
    c: "sql_lookup cm_message_id source (commands L) = Some c" and
    p: "sql_lookup ck_attempt_id (cm_attempt_id c) (checkpoints L) = Some p"
    by (auto simp: complete_task_control_def bind_eq_Some_conv canonical_uuid_v4_Some split: if_splits)
  obtain target expected where target: "control_target L c = (target, expected)" by force
  note run = assms [unfolded complete_task_control_def]
  have none: "List.find (\<lambda>r. ob_source r = source \<and> message_type (ob_envelope r) \<in>
           {M_task_paused, M_task_resumed, M_task_cancelled, M_task_outcome_uncertain})
         (outbox L) = None"
    using run c p False
    by (auto simp: bind_eq_Some_conv canonical_uuid_v4_Some split: if_splits option.splits)
  have pre: "cm_message_type c \<in> control_types" "has_outbox_of L source {M_task_control_ack}"
    "ck_state p \<in> control_checkpoint_states (cm_message_type c)"
    "cm_sequence c = ck_last_command p" "ck_revision p = n" "sequence event = ck_last_event p + 1"
    "cm_message_type c \<in> {M_task_pause, M_task_cancel} \<longrightarrow>
       \<not> attempt_has_effect L (cm_attempt_id c) Dispatched"
    "message_type event = expected" "outbox_capacity_ok cd (outbox L) [event]"
    using run c p False none target
    by (auto simp: bind_eq_Some_conv canonical_uuid_v4_Some split: if_splits)
  with run c p False none target obtain cks where
    "sql_update checkpoint_ok
         (\<lambda>r. ck_attempt_id r = cm_attempt_id c \<and> ck_revision r = n
            \<and> ck_state r = ck_state p \<and> ck_last_command r = cm_sequence c)
         (\<lambda>r. r\<lparr>ck_state := target, ck_last_event := sequence event,
            ck_revision := ck_revision r + 1\<rparr>) (checkpoints L) = Some cks"
    "insert_outbox cd (L\<lparr>checkpoints := cks\<rparr>) event source (next_ordinal (outbox L)) = Some L'"
    "res = Some \<lparr>oe_message = event, oe_source = source, oe_replayed = False\<rparr>"
    by (auto simp: bind_eq_Some_conv canonical_uuid_v4_Some Let_def split: if_splits)
  with c p pre target show ?thesis by (intro projected) auto
qed

lemma sound_complete_control:
  assumes "complete_task_control cd L source n event = Some (res, L')"
  shows "sound L L'"
  using assms
proof (cases rule: complete_task_control_cases)
  case same
  then show ?thesis by simp
next
  case (projected c p cks)
  have "sound L (L\<lparr>checkpoints := cks\<rparr>)"
    using projected(7) sql_lookup_SomeD [OF projected(2)]
    by (intro sound_projection [OF projected(12)]) auto
  moreover have "sound (L\<lparr>checkpoints := cks\<rparr>) L'"
    by (rule sound_insert_outbox [OF projected(13)]) (simp add: next_ordinal_above)
  ultimately show ?thesis by (rule sound_trans)
qed

text \<open>A recovery that was not a replay.\<close>

lemma commit_side_effect_recovery_cases:
  assumes "commit_side_effect_recovery cd L aid n event = Some (entry, L')"
  obtains (same) "L' = L"
  | (projected) s a p c cks where "sql_lookup ef_action_id aid (side_effects L) = Some s"
      "sql_lookup ad_action_id aid (admissions L) = Some a"
      "sql_lookup ck_attempt_id (ad_attempt_id a) (checkpoints L) = Some p"
      "recovery_row L aid = None"
      "pg_state (ef_progress s) =
         (if message_type event = M_task_outcome_uncertain then Uncertain else Verified)"
      "sequence event = ck_last_event p + 1" "ck_state p \<in> {CK_running, CK_paused}"
      "ck_revision p = n" "ad_attempt_id a = execution_attempt_id event"
      "outbox_capacity_ok cd (outbox L) [event]" "idempotency_key event = recovery_key aid"
      "sql_update checkpoint_ok
         (\<lambda>r. ck_attempt_id r = ad_attempt_id a \<and> ck_revision r = n)
         (\<lambda>r. r\<lparr>ck_state := (if message_type event = M_task_outcome_uncertain
              then CK_outcome_uncertain else ck_state p),
            ck_last_event := sequence event, ck_revision := ck_revision r + 1\<rparr>)
         (checkpoints L) = Some cks"
      "insert_outbox cd (L\<lparr>checkpoints := cks\<rparr>) event (cm_message_id c)
         (next_ordinal (outbox L)) = Some L'"
      "entry = \<lparr>oe_message = event, oe_source = cm_message_id c, oe_replayed = False\<rparr>"
      "c \<in> set (commands L)" "cm_attempt_id c = ad_attempt_id a" "cm_sequence c = 1"
      "cm_message_type c = M_task_offer"
proof (cases "L' = L")
  case True
  then show ?thesis by (rule same)
next
  case False
  note run = assms [unfolded commit_side_effect_recovery_def]
  have none: "recovery_row L aid = None" and key: "idempotency_key event = recovery_key aid"
    using run False
    by (auto simp: bind_eq_Some_conv canonical_uuid_v4_Some split: if_splits option.splits)
  with run obtain s a p where
    s: "sql_lookup ef_action_id aid (side_effects L) = Some s" and
    a: "sql_lookup ad_action_id (ef_action_id s) (admissions L) = Some a" and
    p: "sql_lookup ck_attempt_id (ad_attempt_id a) (checkpoints L) = Some p"
    by (auto simp: bind_eq_Some_conv canonical_uuid_v4_Some split: if_splits)
  have sid: "ef_action_id s = aid" using sql_lookup_SomeD [OF s] by simp
  from run none s a p obtain c where
    c: "List.find (\<lambda>c. cm_attempt_id c = ad_attempt_id a
            \<and> cm_message_type c = M_task_offer \<and> cm_sequence c = 1) (commands L) = Some c"
    by (auto simp: bind_eq_Some_conv canonical_uuid_v4_Some split: if_splits)
  have pre: "pg_state (ef_progress s) =
         (if message_type event = M_task_outcome_uncertain then Uncertain else Verified)"
      "sequence event = ck_last_event p + 1" "ck_state p \<in> {CK_running, CK_paused}"
      "ck_revision p = n" "ad_attempt_id a = execution_attempt_id event"
      "outbox_capacity_ok cd (outbox L) [event]"
    using run none s a p c
    by (auto simp: bind_eq_Some_conv canonical_uuid_v4_Some split: if_splits)
  from run none s a p c obtain cks where
      "sql_update checkpoint_ok
         (\<lambda>r. ck_attempt_id r = ad_attempt_id a \<and> ck_revision r = n)
         (\<lambda>r. r\<lparr>ck_state := (if message_type event = M_task_outcome_uncertain
              then CK_outcome_uncertain else ck_state p),
            ck_last_event := sequence event, ck_revision := ck_revision r + 1\<rparr>)
         (checkpoints L) = Some cks"
      "insert_outbox cd (L\<lparr>checkpoints := cks\<rparr>) event (cm_message_id c)
         (next_ordinal (outbox L)) = Some L'"
      "entry = \<lparr>oe_message = event, oe_source = cm_message_id c, oe_replayed = False\<rparr>"
    by (auto simp: bind_eq_Some_conv canonical_uuid_v4_Some Let_def split: if_splits)
  then show ?thesis
    by (rule projected [OF s a [unfolded sid] p none pre key]) (use find_Some_set [OF c] in simp_all)
qed

lemma sound_commit_recovery:
  assumes "commit_side_effect_recovery cd L aid n event = Some (entry, L')"
  shows "sound L L'"
  using assms
proof (cases rule: commit_side_effect_recovery_cases)
  case same
  then show ?thesis by simp
next
  case (projected s a p c cks)
  have "sound L (L\<lparr>checkpoints := cks\<rparr>)"
    using projected(6) sql_lookup_SomeD [OF projected(3)]
    by (intro sound_projection [OF projected(12)]) auto
  moreover have "sound (L\<lparr>checkpoints := cks\<rparr>) L'"
    by (rule sound_insert_outbox [OF projected(13)]) (simp add: next_ordinal_above)
  ultimately show ?thesis by (rule sound_trans)
qed

subsection \<open>Delivery\<close>

lemma outbox_le_delivered [simp]: "outbox_le r (set_delivered b r)"
  by (cases r) (simp add: outbox_le_def set_delivered_def)

lemma outbox_le_expired [simp]: "outbox_le r (r\<lparr>ob_expired := True\<rparr>)"
  by (cases r) (simp add: outbox_le_def)

lemma sound_requeue: "sound L (snd (requeue_delivered_outbox L))"
  by (simp add: requeue_delivered_outbox_def Let_def sound_map_outbox outbox_rows.row_refl)

lemma sound_mark_delivered:
  assumes "mark_outbox_delivered L mid = Some (b, L')"
  shows "sound L L'"
  using assms
  by (auto simp: mark_outbox_delivered_def bind_eq_Some_conv Let_def sound_map_outbox
      outbox_rows.row_refl split: if_splits)

text \<open>What the two updates of a page do to one row.\<close>

definition page_row :: "bool \<Rightarrow> instant \<Rightarrow> outbox_row list \<Rightarrow> outbox_row \<Rightarrow> outbox_row" where
  "page_row recover now pg r =
     (let r' = if ob_message_id r \<in> set (map ob_message_id
            (filter (\<lambda>x. \<not> past_deadline now x \<and> recover \<and> ob_delivered x) pg))
          then set_delivered False r else r in
      if ob_message_id r \<in> set (map ob_message_id (filter (past_deadline now) pg))
      then r'\<lparr>ob_expired := True\<rparr> else r')"

lemma update_page_rows: "update_page recover now pg rows = map (page_row recover now pg) rows"
  by (auto simp: update_page_def page_row_def Let_def set_delivered_def simp del: set_map set_filter)

lemma outbox_le_page_row: "outbox_le r (page_row recover now pg r)"
  unfolding page_row_def Let_def
  by (auto intro: outbox_rows.row_trans outbox_le_delivered outbox_le_expired outbox_rows.row_refl)

lemma sound_delivery_scan:
  "delivery_scan page recover now n rows = Some (found, rows') \<Longrightarrow>
   outbox L = rows \<Longrightarrow> sound L (L\<lparr>outbox := rows'\<rparr>)"
proof (induction page recover now n rows arbitrary: found rows' L rule: delivery_scan.induct)
  case (1 page recover now n rows)
  let ?pg = "delivery_page page recover n rows"
  let ?up = "update_page recover now ?pg rows"
  have up: "sound L (L\<lparr>outbox := ?up\<rparr>)"
    using sound_map_outbox [of "page_row recover now ?pg" L] 1(3)
    by (simp add: update_page_rows outbox_le_page_row)
  consider "rows' = rows" | "rows' = ?up"
    | later where "delivery_scan page recover now (ob_ordinal (last ?pg)) ?up = Some (later, rows')"
      "?pg \<noteq> []" "\<not> length ?pg < page" "0 < ob_ordinal (last ?pg)"
      "\<exists>u. read_all (\<lambda>r. entry_of_row r True) ?pg = Some u"
      "\<exists>v. read_all (\<lambda>r. entry_of_row r True) (filter (\<lambda>r. \<not> past_deadline now r) ?pg) = Some v"
    using 1(2)
    by (subst (asm) delivery_scan.simps) (auto simp: Let_def split: if_splits option.splits)
  then show ?case
  proof cases
    case 1
    moreover have "L\<lparr>outbox := outbox L\<rparr> = L" by simp
    ultimately show ?thesis using \<open>outbox L = rows\<close> by (metis sound_refl)
  next
    case 2
    with up show ?thesis by simp
  next
    case 3
    then obtain u v where uv: "read_all (\<lambda>r. entry_of_row r True) ?pg = Some u"
      "read_all (\<lambda>r. entry_of_row r True) (filter (\<lambda>r. \<not> past_deadline now r) ?pg) = Some v"
      by blast
    have "sound (L\<lparr>outbox := ?up\<rparr>) ((L\<lparr>outbox := ?up\<rparr>)\<lparr>outbox := rows'\<rparr>)"
      by (rule "1.IH" [OF refl 3(2) uv refl refl _ 3(3) 3(1)]) (use 3(4) in simp_all)
    with up show ?thesis by (auto intro: sound_trans)
  qed
qed

lemma sound_delivery:
  assumes "outbox_for_delivery L at recover = Some (found, L')"
  shows "sound L L'"
  using assms
  by (auto simp: outbox_for_delivery_def bind_eq_Some_conv intro: sound_delivery_scan)

end
