(* ===== verification/One_Shot.thy ===== *)
theory One_Shot
  imports Main
begin

text \<open>
  The contract of a write-ahead permission: every key has a rank that no operation lowers, and an
  operation that grants permission for a key finds it below the threshold and leaves it at or
  above. Then a run of allowed operations grants permission for a key at most once. The two dispatch
  protocols of the executor ledger and the action executions are interpretations of this interface.
\<close>

fun run_states :: "('s \<Rightarrow> 'op \<Rightarrow> 's) \<Rightarrow> 's \<Rightarrow> 'op list \<Rightarrow> ('s \<times> 'op) list" where
  "run_states step s [] = []"
| "run_states step s (x # xs) = (s, x) # run_states step (step s x) xs"

definition run_end :: "('s \<Rightarrow> 'op \<Rightarrow> 's) \<Rightarrow> 's \<Rightarrow> 'op list \<Rightarrow> 's" where
  "run_end step s xs = foldl step s xs"

lemma run_end_simps [simp]:
  "run_end step s [] = s"
  "run_end step s (x # xs) = run_end step (step s x) xs"
  by (simp_all add: run_end_def)

lemma run_end_append [simp]: "run_end step s (xs @ ys) = run_end step (run_end step s xs) ys"
  by (simp add: run_end_def)

lemma run_invariant:
  assumes "\<And>s x. I s \<Longrightarrow> I (step s x)"
  shows "I s \<Longrightarrow> I (run_end step s xs)"
  by (induction xs arbitrary: s) (simp_all add: assms)

locale one_shot =
  fixes inv :: "'s \<Rightarrow> bool"
    and step :: "'s \<Rightarrow> 'op \<Rightarrow> 's"
    and rank :: "'s \<Rightarrow> 'k \<Rightarrow> nat"
    and grants :: "'s \<Rightarrow> 'op \<Rightarrow> 'k \<Rightarrow> bool"
    and threshold :: nat
    and allowed :: "'op \<Rightarrow> bool"
  assumes inv_step: "inv s \<Longrightarrow> allowed x \<Longrightarrow> inv (step s x)"
    and rank_mono: "inv s \<Longrightarrow> allowed x \<Longrightarrow> rank s k \<le> rank (step s x) k"
    and grant_below: "inv s \<Longrightarrow> allowed x \<Longrightarrow> grants s x k \<Longrightarrow> rank s k < threshold"
    and grant_above: "inv s \<Longrightarrow> allowed x \<Longrightarrow> grants s x k \<Longrightarrow> threshold \<le> rank (step s x) k"
begin

lemma inv_run: "inv s \<Longrightarrow> list_all allowed xs \<Longrightarrow> inv (run_end step s xs)"
  by (induction xs arbitrary: s) (auto intro: inv_step)

lemma rank_run: "inv s \<Longrightarrow> list_all allowed xs \<Longrightarrow> rank s k \<le> rank (run_end step s xs) k"
  by (induction xs arbitrary: s) (auto intro: order_trans [OF rank_mono] inv_step)

lemma no_grant_at_threshold:
  "inv s \<Longrightarrow> list_all allowed xs \<Longrightarrow> threshold \<le> rank s k \<Longrightarrow>
     filter (\<lambda>(t, x). grants t x k) (run_states step s xs) = []"
proof (induction xs arbitrary: s)
  case Nil
  then show ?case by simp
next
  case (Cons x xs)
  then have "allowed x" by simp
  then have "\<not> grants s x k" using grant_below [of s x k] Cons.prems(1,3) by (auto dest: leD)
  moreover have "threshold \<le> rank (step s x) k"
    using Cons.prems rank_mono [of s x k] by simp
  ultimately show ?case using Cons.IH [OF inv_step] Cons.prems by simp
qed

lemma at_most_one_grant:
  "inv s \<Longrightarrow> list_all allowed xs \<Longrightarrow> length (filter (\<lambda>(t, x). grants t x k) (run_states step s xs)) \<le> 1"
proof (induction xs arbitrary: s)
  case Nil
  then show ?case by simp
next
  case (Cons x xs)
  then have x: "allowed x" "inv (step s x)" "list_all allowed xs" by (simp_all add: inv_step)
  show ?case
  proof (cases "grants s x k")
    case True
    then show ?thesis
      using no_grant_at_threshold [OF x(2,3) grant_above [OF Cons.prems(1) x(1) True]] by simp
  next
    case False
    then show ?thesis using Cons.IH [OF x(2,3)] by simp
  qed
qed

end

end
