(* ===== verification/Ledger_Runs.thy ===== *)
theory Ledger_Runs
  imports Outbox_Soundness One_Shot
begin

text \<open>
  Sequences of ledger operations. Every method of \<open>ExecutorLedger\<close> that can write is a constructor
  of \<open>ledger_op\<close>; \<open>ledger_step\<close> runs one and, as its transaction is rolled back, keeps the ledger
  when it is refused. Any order of calls by the command processor, the action gate, crash recovery
  and the transport is a list of operations, since SQLite serialises the writers
  (\<open>BEGIN IMMEDIATE\<close>).
\<close>

datatype ledger_op =
    Op_transport bool
  | Op_engage_stop py_datetime
  | Op_clear_stop int py_datetime
  | Op_bind_policy int int
  | Op_admit claims bytes py_datetime int int
  | Op_prepare_effect str bytes py_datetime
  | Op_begin_effect str bytes py_datetime
  | Op_verify_effect str bytes bytes py_datetime
  | Op_effect_uncertain str bytes py_datetime
  | Op_prepare_publish str str py_datetime
  | Op_begin_publish str str py_datetime int
  | Op_verify_publish str str bytes py_datetime
  | Op_publish_uncertain str str py_datetime
  | Op_receive envelope
  | Op_receive_stop envelope py_datetime
  | Op_set_checkpoint str int checkpoint_state int
  | Op_record_session str session_state py_datetime bool
  | Op_enqueue str envelope
  | Op_commit_outcome str int checkpoint_state int "envelope list"
  | Op_complete_control str int envelope
  | Op_commit_recovery str int envelope
  | Op_requeue
  | Op_mark_delivered str
  | Op_deliver py_datetime bool

definition committed :: "ledger \<Rightarrow> ('a \<times> ledger) option \<Rightarrow> ledger" where
  "committed L r = (case r of None \<Rightarrow> L | Some (_, L') \<Rightarrow> L')"

fun ledger_step :: "codec \<Rightarrow> ledger \<Rightarrow> ledger_op \<Rightarrow> ledger" where
  "ledger_step cd L (Op_transport b) = snd (set_transport_connected L b)"
| "ledger_step cd L (Op_engage_stop at) = committed L (engage_action_emergency_stop L at)"
| "ledger_step cd L (Op_clear_stop n at) = committed L (clear_action_emergency_stop L n at)"
| "ledger_step cd L (Op_bind_policy i n) = committed L (bind_action_hard_policy L i n)"
| "ledger_step cd L (Op_admit c fp at i n) = snd (admit_action L c fp at i n)"
| "ledger_step cd L (Op_prepare_effect a fp at) = committed L (prepare_side_effect L a fp at)"
| "ledger_step cd L (Op_begin_effect a fp at) = committed L (begin_side_effect_dispatch L a fp at)"
| "ledger_step cd L (Op_verify_effect a fp v at) = committed L (verify_side_effect L a fp v at)"
| "ledger_step cd L (Op_effect_uncertain a fp at) =
     committed L (mark_side_effect_uncertain L a fp at)"
| "ledger_step cd L (Op_prepare_publish j h at) = committed L (prepare_publish_dispatch L j h at)"
| "ledger_step cd L (Op_begin_publish j h at i) = committed L (begin_publish_dispatch L j h at i)"
| "ledger_step cd L (Op_verify_publish j h v at) =
     committed L (verify_publish_dispatch L j h v at)"
| "ledger_step cd L (Op_publish_uncertain j h at) =
     committed L (mark_publish_dispatch_uncertain L j h at)"
| "ledger_step cd L (Op_receive e) = committed L (receive_command cd L e)"
| "ledger_step cd L (Op_receive_stop e at) = committed L (receive_task_emergency_stop cd L e at)"
| "ledger_step cd L (Op_set_checkpoint a n s k) =
     committed L (compare_and_set_checkpoint L a n s k)"
| "ledger_step cd L (Op_record_session p s at adv) =
     committed L (record_platform_session L p s at adv)"
| "ledger_step cd L (Op_enqueue src e) = committed L (enqueue_outbox cd L src e)"
| "ledger_step cd L (Op_commit_outcome src n s k es) =
     committed L (commit_outcome cd L src n s k es)"
| "ledger_step cd L (Op_complete_control src n e) =
     committed L (complete_task_control cd L src n e)"
| "ledger_step cd L (Op_commit_recovery a n e) =
     committed L (commit_side_effect_recovery cd L a n e)"
| "ledger_step cd L Op_requeue = snd (requeue_delivered_outbox L)"
| "ledger_step cd L (Op_mark_delivered m) = committed L (mark_outbox_delivered L m)"
| "ledger_step cd L (Op_deliver at r) = committed L (outbox_for_delivery L at r)"

lemma sound_committed:
  "(\<And>x L'. r = Some (x, L') \<Longrightarrow> sound L L') \<Longrightarrow> sound L (committed L r)"
  by (auto simp: committed_def split: option.split)

lemma sound_receive_stop: "receive_task_emergency_stop cd L e at = Some (rc, L') \<Longrightarrow> sound L L'"
  by (auto simp: receive_task_emergency_stop_def intro: sound_receive_command split: if_splits)

lemmas sound_operations =
  sound_engage_stop sound_clear_stop sound_bind_policy sound_prepare_effect sound_begin_effect
  sound_settle_effect sound_prepare_publish sound_begin_publish sound_settle_publish
  sound_receive_command sound_receive_stop sound_cas_checkpoint sound_record_session sound_enqueue
  sound_commit_outcome sound_complete_control sound_commit_recovery sound_mark_delivered
  sound_delivery

lemma sound_step: "sound L (ledger_step cd L op)"
proof (cases op)
  case (Op_admit c fp at i n)
  then show ?thesis using sound_admit [of L c fp at i n] by (metis ledger_step.simps(5) prod.collapse)
qed (simp_all add: sound_set_transport sound_requeue verify_side_effect_def
    mark_side_effect_uncertain_def verify_publish_dispatch_def mark_publish_dispatch_uncertain_def
    receive_command_def sound_committed sound_operations)

subsection \<open>Runs\<close>

definition run :: "codec \<Rightarrow> ledger \<Rightarrow> ledger_op list \<Rightarrow> ledger" where
  "run cd = run_end (ledger_step cd)"

definition history :: "codec \<Rightarrow> ledger \<Rightarrow> ledger_op list \<Rightarrow> (ledger \<times> ledger_op) list" where
  "history cd = run_states (ledger_step cd)"

lemma step_inv: "ledger_inv L \<Longrightarrow> ledger_inv (ledger_step cd L op)"
  using sound_step [of L cd op] by (simp add: sound_def)

lemma step_evolves: "ledger_inv L \<Longrightarrow> evolves L (ledger_step cd L op)"
  using sound_step [of L cd op] by (simp add: sound_def)

lemma run_inv: "ledger_inv L \<Longrightarrow> ledger_inv (run cd L ops)"
  unfolding run_def by (rule run_invariant [of ledger_inv]) (rule step_inv)

lemma run_evolves: "ledger_inv L \<Longrightarrow> evolves L (run cd L ops)"
proof (unfold run_def, induction ops arbitrary: L)
  case Nil
  then show ?case by simp
next
  case (Cons x xs)
  from Cons.IH [OF step_inv [OF Cons.prems]] step_evolves [OF Cons.prems] show ?case
    by (metis evolves_trans run_end_simps(2))
qed

text \<open>An operation grants a dispatch when it returns a value that is not a replay.\<close>

definition grants_effect :: "ledger \<Rightarrow> ledger_op \<Rightarrow> str \<Rightarrow> bool" where
  "grants_effect L op aid = (case op of
     Op_begin_effect a fp at \<Rightarrow> a = aid \<and>
       (case begin_side_effect_dispatch L a fp at of None \<Rightarrow> False | Some (e, _) \<Rightarrow> \<not> se_replayed e)
   | _ \<Rightarrow> False)"

definition grants_publish :: "ledger \<Rightarrow> ledger_op \<Rightarrow> str \<Rightarrow> bool" where
  "grants_publish L op jid = (case op of
     Op_begin_publish j h at i \<Rightarrow> j = jid \<and>
       (case begin_publish_dispatch L j h at i of None \<Rightarrow> False | Some (d, _) \<Rightarrow> \<not> pd_replayed d)
   | _ \<Rightarrow> False)"

definition effect_rank :: "ledger \<Rightarrow> str \<Rightarrow> nat" where
  "effect_rank L = table_rank ef_action_id ef_progress (side_effects L)"

definition publish_rank :: "ledger \<Rightarrow> str \<Rightarrow> nat" where
  "publish_rank L = table_rank pu_job_id pu_progress (publish_dispatches L)"

lemma effect_rank_evolves:
  assumes "evolves L L'"
  shows "effect_rank L k \<le> effect_rank L' k"
proof (cases "sql_lookup ef_action_id k (side_effects L)")
  case None
  then show ?thesis by (simp add: effect_rank_def table_rank_def)
next
  case (Some r)
  with assms effects.le_lookup obtain r' where
    "sql_lookup ef_action_id k (side_effects L') = Some r'" "effect_le r r'"
    by (metis evolves_def)
  with Some show ?thesis
    by (simp add: effect_rank_def table_rank_def effect_le_def progress_le_def)
qed

lemma publish_rank_evolves:
  assumes "evolves L L'"
  shows "publish_rank L k \<le> publish_rank L' k"
proof (cases "sql_lookup pu_job_id k (publish_dispatches L)")
  case None
  then show ?thesis by (simp add: publish_rank_def table_rank_def)
next
  case (Some r)
  with assms publishes.le_lookup obtain r' where
    "sql_lookup pu_job_id k (publish_dispatches L') = Some r'" "publish_le r r'"
    by (metis evolves_def)
  with Some show ?thesis
    by (simp add: publish_rank_def table_rank_def publish_le_def progress_le_def)
qed

lemma advance_effect_lookup:
  assumes "advance_effect L aid s n f = Some (e, L')"
    and "sql_lookup ef_action_id aid (side_effects L) = Some r" "pg_state (ef_progress r) = s"
      "pg_revision (ef_progress r) = n"
  shows "sql_lookup ef_action_id aid (side_effects L') = Some (move_effect f r)"
proof -
  have "side_effects L' = map (\<lambda>x. if effect_at aid s n x then move_effect f x else x) (side_effects L)"
    using advance_effect_SomeD [OF assms] by (simp add: sql_update_Some)
  moreover have "ef_action_id r = aid" using sql_lookup_SomeD [OF assms(2)] by simp
  ultimately show ?thesis using assms(2-4) by (simp add: sql_lookup_mapped effect_at_def)
qed

lemma advance_publish_lookup:
  assumes "advance_publish L jid s n f = Some (d, L')"
    and "sql_lookup pu_job_id jid (publish_dispatches L) = Some r" "pg_state (pu_progress r) = s"
      "pg_revision (pu_progress r) = n"
  shows "sql_lookup pu_job_id jid (publish_dispatches L') = Some (move_publish f r)"
proof -
  have "publish_dispatches L' =
      map (\<lambda>x. if publish_at jid s n x then move_publish f x else x) (publish_dispatches L)"
    using advance_publish_SomeD [OF assms] by (simp add: sql_update_Some)
  moreover have "pu_job_id r = jid" using sql_lookup_SomeD [OF assms(2)] by simp
  ultimately show ?thesis using assms(2-4) by (simp add: sql_lookup_mapped publish_at_def)
qed

lemma grants_effect_rank:
  assumes "grants_effect L op k"
  shows "effect_rank L k = 1 \<and> effect_rank (ledger_step cd L op) k = 2"
proof -
  from assms obtain fp at e L' where op: "op = Op_begin_effect k fp at"
    and dispatch: "begin_side_effect_dispatch L k fp at = Some (e, L')" and "\<not> se_replayed e"
    by (auto simp: grants_effect_def split: ledger_op.splits option.splits)
  from dispatch show ?thesis
  proof (cases rule: begin_side_effect_dispatch_SomeD)
    case (replay r)
    with \<open>\<not> se_replayed e\<close> show ?thesis by simp
  next
    case (grant r cur t)
    with advance_effect_lookup [OF grant(8,2,4,5)] op dispatch show ?thesis
      by (simp add: effect_rank_def table_rank_def committed_def mark_dispatched_def)
  qed
qed

lemma grants_publish_rank:
  assumes "grants_publish L op k"
  shows "publish_rank L k = 1 \<and> publish_rank (ledger_step cd L op) k = 2"
proof -
  from assms obtain h at i d L' where op: "op = Op_begin_publish k h at i"
    and dispatch: "begin_publish_dispatch L k h at i = Some (d, L')" and "\<not> pd_replayed d"
    by (auto simp: grants_publish_def split: ledger_op.splits option.splits)
  from dispatch show ?thesis
  proof (cases rule: begin_publish_dispatch_SomeD)
    case (replay r)
    with \<open>\<not> pd_replayed d\<close> show ?thesis by simp
  next
    case (grant r t)
    with advance_publish_lookup [OF grant(9,2,3,4)] op dispatch show ?thesis
      by (simp add: publish_rank_def table_rank_def committed_def mark_dispatched_def)
  qed
qed

interpretation effect_once: one_shot ledger_inv "ledger_step cd" effect_rank grants_effect 2 "\<lambda>_. True" for cd
  by unfold_locales
    (auto simp: step_inv effect_rank_evolves step_evolves dest: grants_effect_rank [where cd = cd])

interpretation publish_once: one_shot ledger_inv "ledger_step cd" publish_rank grants_publish 2 "\<lambda>_. True" for cd
  by unfold_locales
    (auto simp: step_inv publish_rank_evolves step_evolves dest: grants_publish_rank [where cd = cd])

end
