(* ===== verification/Guard_Frame.thy ===== *)
theory Guard_Frame
  imports Ledger_Runs
begin

text \<open>
  Which operations touch the emergency-stop latch: engaging sets it, clearing resets it, the
  transport gate changes another column of the same row, and every other operation leaves the row
  alone. So an engaged latch stays engaged until a successful clear.
\<close>

lemma guard_bind_policy:
  "bind_action_hard_policy L i n = Some (h, L') \<Longrightarrow> action_guard L' = action_guard L"
  by (auto simp: bind_action_hard_policy_def bind_eq_Some_conv split: option.splits)

lemma guard_admit:
  "admit_action L c fp at i n = (res, L') \<Longrightarrow> action_guard L' = action_guard L"
  by (auto simp: admit_action_def admit_new_def Let_def split: op_splits)

lemma guard_advance_effect:
  "advance_effect L a s n f = Some (e, L') \<Longrightarrow> action_guard L' = action_guard L"
  by (auto simp: advance_effect_def bind_eq_Some_conv split: if_splits)

lemma guard_advance_publish:
  "advance_publish L j s n f = Some (d, L') \<Longrightarrow> action_guard L' = action_guard L"
  by (auto simp: advance_publish_def bind_eq_Some_conv split: if_splits)

lemma guard_prepare_effect:
  "prepare_side_effect L a fp at = Some (e, L') \<Longrightarrow> action_guard L' = action_guard L"
  by (auto simp: prepare_side_effect_def bind_eq_Some_conv Let_def split: op_splits)

lemma guard_begin_effect:
  "begin_side_effect_dispatch L a fp at = Some (e, L') \<Longrightarrow> action_guard L' = action_guard L"
  by (auto simp: begin_side_effect_dispatch_def bind_eq_Some_conv
      dest: guard_advance_effect split: if_splits)

lemma guard_settle_effect:
  "settle_side_effect L a fp target v at = Some (e, L') \<Longrightarrow> action_guard L' = action_guard L"
  by (auto simp: settle_side_effect_def bind_eq_Some_conv dest: guard_advance_effect split: if_splits)

lemma guard_prepare_publish:
  "prepare_publish_dispatch L j h at = Some (d, L') \<Longrightarrow> action_guard L' = action_guard L"
  by (auto simp: prepare_publish_dispatch_def bind_eq_Some_conv Let_def split: op_splits)

lemma guard_begin_publish:
  "begin_publish_dispatch L j h at i = Some (d, L') \<Longrightarrow> action_guard L' = action_guard L"
  by (auto simp: begin_publish_dispatch_def bind_eq_Some_conv dest: guard_advance_publish
      split: if_splits)

lemma guard_settle_publish:
  "settle_publish_dispatch L j h target v at = Some (d, L') \<Longrightarrow> action_guard L' = action_guard L"
  by (auto simp: settle_publish_dispatch_def bind_eq_Some_conv dest: guard_advance_publish
      split: if_splits)

lemma guard_cas:
  "compare_and_set_checkpoint L a n s k = Some (p, L') \<Longrightarrow> action_guard L' = action_guard L"
  by (auto simp: compare_and_set_checkpoint_def bind_eq_Some_conv Let_def split: if_splits)

lemma guard_sessions_update: "action_guard (L\<lparr>sessions := rows\<rparr>) = action_guard L"
  by simp

lemma guard_session:
  "record_platform_session L p s at adv = Some (r, L') \<Longrightarrow> action_guard L' = action_guard L"
  by (erule record_platform_session_cases) (simp, (metis guard_sessions_update)+)

lemma guard_insert_outbox:
  "insert_outbox cd L e src n = Some L' \<Longrightarrow> action_guard L' = action_guard L"
  by (auto simp: insert_outbox_def bind_eq_Some_conv split: if_splits)

lemma guard_insert_outbox_all:
  "insert_outbox_all cd L src n es = Some L' \<Longrightarrow> action_guard L' = action_guard L"
proof (induction es arbitrary: L n)
  case Nil
  then show ?case by simp
next
  case (Cons e es)
  then obtain L1 where "insert_outbox cd L e src n = Some L1"
    "insert_outbox_all cd L1 src (n + 1) es = Some L'" by (auto simp: bind_eq_Some_conv)
  with Cons.IH guard_insert_outbox show ?case by metis
qed

lemma guard_enqueue:
  "enqueue_outbox cd L src e = Some (x, L') \<Longrightarrow> action_guard L' = action_guard L"
  by (auto simp: enqueue_outbox_def bind_eq_Some_conv dest: guard_insert_outbox split: op_splits)

lemma guard_commit:
  "commit_outcome cd L src n s k es = Some (x, L') \<Longrightarrow> action_guard L' = action_guard L"
  by (erule commit_outcome_SomeD) (auto dest: guard_insert_outbox_all)

lemma guard_control:
  "complete_task_control cd L src n e = Some (x, L') \<Longrightarrow> action_guard L' = action_guard L"
  by (erule complete_task_control_cases) (auto dest: guard_insert_outbox)

lemma guard_recovery:
  "commit_side_effect_recovery cd L a n e = Some (x, L') \<Longrightarrow> action_guard L' = action_guard L"
  by (erule commit_side_effect_recovery_cases) (auto dest: guard_insert_outbox)

lemma guard_mark_delivered:
  "mark_outbox_delivered L m = Some (b, L') \<Longrightarrow> action_guard L' = action_guard L"
  by (auto simp: mark_outbox_delivered_def bind_eq_Some_conv Let_def split: if_splits)

lemma guard_delivery:
  "outbox_for_delivery L at r = Some (x, L') \<Longrightarrow> action_guard L' = action_guard L"
  by (auto simp: outbox_for_delivery_def bind_eq_Some_conv)

lemma engaged_after_engage:
  assumes "engage_emergency_stop L attempt t = Some L'"
  shows "gr_engaged (action_guard L')"
proof -
  from assms obtain s L1 where "engage_action_latch L t = Some (s, L1)"
    and L': "L1\<lparr>side_effects := side_effects L'\<rparr> = L'" by (rule engage_emergency_stop_SomeD)
  then have "gr_engaged (action_guard L1)" using engage_action_latch_SomeD by blast
  then show ?thesis by (metis L' ledger.select_convs(3) ledger.surjective ledger.update_convs(6))
qed

lemma engaged_after_receive:
  assumes "receive_command_at cd L e at = Some (rc, L')" and "gr_engaged (action_guard L)"
  shows "gr_engaged (action_guard L')"
proof -
  have keep: "engage_if M a s = Some M' \<Longrightarrow> gr_engaged (action_guard M) \<Longrightarrow> gr_engaged (action_guard M')"
    for M a s M'
    by (auto simp: engage_if_def dest: engaged_after_engage split: option.splits)
  from assms(1) show ?thesis
  proof (cases rule: receive_command_at_SomeD)
    case (fresh cks L1)
    then have "action_guard L1 = action_guard L"
      by (auto simp: insert_command_def bind_eq_Some_conv split: if_splits)
    with keep [OF fresh(6)] assms(2) show ?thesis by simp
  next
    case (known r)
    with keep [OF known(6)] assms(2) show ?thesis by simp
  qed
qed

definition clears_stop :: "ledger_op \<Rightarrow> bool" where
  "clears_stop op = (case op of Op_clear_stop n at \<Rightarrow> True | _ \<Rightarrow> False)"

lemma committed_keeps:
  assumes "P L" and "\<And>x L'. r = Some (x, L') \<Longrightarrow> P L'"
  shows "P (committed L r)"
  using assms by (auto simp: committed_def split: option.split)

lemma engaged_frame:
  assumes "gr_engaged (action_guard L)"
    and "\<And>x L'. r = Some (x, L') \<Longrightarrow> action_guard L' = action_guard L"
  shows "gr_engaged (action_guard (committed L r))"
  using assms by (auto simp: committed_def split: option.split)

lemma engaged_step:
  assumes "gr_engaged (action_guard L)" and "\<not> clears_stop op"
  shows "gr_engaged (action_guard (ledger_step cd L op))"
proof -
  let ?P = "\<lambda>M. gr_engaged (action_guard M)"
  show ?thesis
  proof (cases op)
    case (Op_engage_stop at)
    have "?P L'" if "engage_action_emergency_stop L at = Some (x, L')" for x L'
      using engage_action_emergency_stop_SomeD [OF that] engage_action_latch_SomeD by blast
    with Op_engage_stop assms(1) show ?thesis by (auto intro!: committed_keeps [of ?P])
  next
    case (Op_admit c fp at i n)
    then show ?thesis using assms(1) guard_admit [of L c fp at i n] by (metis ledger_step.simps(5) prod.collapse)
  next
    case (Op_receive e)
    then show ?thesis
      using assms(1) engaged_after_receive
      by (auto simp: receive_command_def intro!: committed_keeps [of ?P])
  next
    case (Op_receive_stop e at)
    then show ?thesis
      using assms(1) engaged_after_receive
      by (auto simp: receive_task_emergency_stop_def intro!: committed_keeps [of ?P] split: if_splits)
  qed (use assms in \<open>simp_all add: clears_stop_def set_transport_connected_def
      requeue_delivered_outbox_def Let_def verify_side_effect_def mark_side_effect_uncertain_def
      verify_publish_dispatch_def mark_publish_dispatch_uncertain_def
      engaged_frame [OF _ guard_bind_policy] engaged_frame [OF _ guard_prepare_effect]
      engaged_frame [OF _ guard_begin_effect] engaged_frame [OF _ guard_settle_effect]
      engaged_frame [OF _ guard_prepare_publish] engaged_frame [OF _ guard_begin_publish]
      engaged_frame [OF _ guard_settle_publish] engaged_frame [OF _ guard_cas]
      engaged_frame [OF _ guard_session] engaged_frame [OF _ guard_enqueue]
      engaged_frame [OF _ guard_commit] engaged_frame [OF _ guard_control]
      engaged_frame [OF _ guard_recovery] engaged_frame [OF _ guard_mark_delivered]
      engaged_frame [OF _ guard_delivery]\<close>)
qed

end
