(* ===== verification/Candidate_Policy.thy ===== *)
theory Candidate_Policy
  imports Shared_Policies
begin

text \<open>
  The Control Plane's candidate exclusion policy
  (\<open>control_plane/domain/douyin_candidate_policy.py\<close>): the bounded input checks of
  \<open>evaluate_douyin_candidates\<close>, its loop over one ordered page snapshot, and the consistency
  check that the constructor of \<open>DouyinCandidateEvaluation\<close> repeats on any list of decisions.
  A candidate carries its dedupe key, as the frozen dataclass does after construction.
  A raised \<open>InvalidDouyinCandidatePolicy\<close> is \<open>None\<close>.
\<close>

type_synonym candidate_key = str

record candidate =
  platform_target_id :: str
  display_name :: str
  public_handle :: "str option"
  page_revision :: int
  dedupe_key :: candidate_key

record history_fact =
  hf_key :: candidate_key
  hf_observed_at :: instant

datatype disposition = Eligible | Duplicate_in_task | Duplicate_in_history | Blacklisted

record decision =
  dn_candidate :: candidate
  dn_disposition :: disposition

record evaluation =
  ev_decisions :: "decision list"
  ev_evaluated_at :: instant
  ev_policy_version :: str

definition candidate_policy_version :: str where
  "candidate_policy_version = ''douyin.candidate-policy.v1''"

definition history_window :: int where
  "history_window = seconds (30 * 86400)"

definition history_cutoff :: "instant \<Rightarrow> instant option" where
  "history_cutoff t = add_delta t (- history_window)"

definition make_history_fact :: "candidate_key \<Rightarrow> py_datetime \<Rightarrow> history_fact option" where
  "make_history_fact k observed_at =
     map_option (\<lambda>t. \<lparr>hf_key = k, hf_observed_at = t\<rparr>) (canonical_utc observed_at)"

definition decision_key :: "decision \<Rightarrow> candidate_key" where
  "decision_key d = dedupe_key (dn_candidate d)"

text \<open>\<open>_task_duplicate_decisions_are_consistent\<close>, with the keys seen so far.\<close>

fun duplicates_consistent :: "candidate_key list \<Rightarrow> decision list \<Rightarrow> bool" where
  "duplicates_consistent seen [] = True"
| "duplicates_consistent seen (d # ds) =
     (let repeated = decision_key d \<in> set seen in
      if dn_disposition d = Duplicate_in_task then
        repeated \<and> duplicates_consistent (decision_key d # seen) ds
      else if repeated \<and> dn_disposition d \<in> {Eligible, Duplicate_in_history} then False
      else duplicates_consistent (decision_key d # seen) ds)"

text \<open>\<open>DouyinCandidateEvaluation.__post_init__\<close>.\<close>

definition make_evaluation ::
  "decision list \<Rightarrow> py_datetime \<Rightarrow> str \<Rightarrow> evaluation option" where
  "make_evaluation decisions evaluated_at version = do {
     t \<leftarrow> canonical_utc evaluated_at;
     _ \<leftarrow> history_cutoff t;
     require (length decisions \<le> max_task_target_limit
       \<and> version = candidate_policy_version
       \<and> length (remdups (map (\<lambda>d. page_revision (dn_candidate d)) decisions)) \<le> 1
       \<and> duplicates_consistent [] decisions);
     Some \<lparr>ev_decisions = decisions, ev_evaluated_at = t, ev_policy_version = version\<rparr>
   }"

text \<open>The loop of \<open>evaluate_douyin_candidates\<close>, with \<open>task_seen\<close>.\<close>

fun classify ::
  "candidate_key list \<Rightarrow> candidate_key list \<Rightarrow> candidate_key list \<Rightarrow> candidate list \<Rightarrow> decision list"
where
  "classify blacklisted recent seen [] = []"
| "classify blacklisted recent seen (c # cs) =
     \<lparr>dn_candidate = c,
      dn_disposition =
        (if dedupe_key c \<in> set blacklisted then Blacklisted
         else if dedupe_key c \<in> set seen then Duplicate_in_task
         else if dedupe_key c \<in> set recent then Duplicate_in_history
         else Eligible)\<rparr>
     # classify blacklisted recent (dedupe_key c # seen) cs"

definition recent_history :: "instant \<Rightarrow> instant \<Rightarrow> history_fact list \<Rightarrow> candidate_key list" where
  "recent_history cutoff t histories =
     map hf_key (filter (\<lambda>h. cutoff \<le> hf_observed_at h \<and> hf_observed_at h \<le> t) histories)"

definition evaluate_douyin_candidates ::
  "candidate list \<Rightarrow> history_fact list \<Rightarrow> candidate_key list \<Rightarrow> py_datetime \<Rightarrow> evaluation option"
where
  "evaluate_douyin_candidates candidates histories blacklist evaluated_at = do {
     t \<leftarrow> canonical_utc evaluated_at;
     cutoff \<leftarrow> history_cutoff t;
     require (length candidates \<le> max_task_target_limit
       \<and> length (remdups (map page_revision candidates)) \<le> 1
       \<and> length histories \<le> max_task_target_limit
       \<and> length blacklist \<le> max_task_target_limit);
     require (distinct (map hf_key histories) \<and> distinct blacklist);
     require (list_all (\<lambda>h. hf_observed_at h \<le> t) histories);
     make_evaluation
       (classify blacklist (recent_history cutoff t histories) [] candidates)
       (Aware 0 t) candidate_policy_version
   }"

text \<open>The count properties of an evaluation.\<close>

definition count_of :: "disposition \<Rightarrow> evaluation \<Rightarrow> nat" where
  "count_of d e = length (filter (\<lambda>x. dn_disposition x = d) (ev_decisions e))"

definition candidate_count :: "evaluation \<Rightarrow> nat" where
  "candidate_count e = length (ev_decisions e)"

definition excluded_count :: "evaluation \<Rightarrow> nat" where
  "excluded_count e = candidate_count e - count_of Eligible e"

definition eligible_candidates :: "evaluation \<Rightarrow> candidate list" where
  "eligible_candidates e =
     map dn_candidate (filter (\<lambda>d. dn_disposition d = Eligible) (ev_decisions e))"

subsection \<open>The loop\<close>

lemma length_classify [simp]: "length (classify bl rh seen cs) = length cs"
  by (induction cs arbitrary: seen) auto

lemma candidates_classify [simp]: "map dn_candidate (classify bl rh seen cs) = cs"
  by (induction cs arbitrary: seen) auto

lemma revisions_classify:
  "map (\<lambda>d. page_revision (dn_candidate d)) (classify bl rh seen cs) = map page_revision cs"
  by (induction cs arbitrary: seen) auto

lemma duplicates_consistent_classify:
  "set s = set seen \<Longrightarrow> duplicates_consistent s (classify bl rh seen cs)"
  by (induction cs arbitrary: seen s) (auto simp: decision_key_def Let_def)

lemma disposition_classify:
  assumes "i < length cs"
  shows "dn_disposition (classify bl rh seen cs ! i) =
    (if dedupe_key (cs ! i) \<in> set bl then Blacklisted
     else if dedupe_key (cs ! i) \<in> set seen \<union> set (map dedupe_key (take i cs))
       then Duplicate_in_task
     else if dedupe_key (cs ! i) \<in> set rh then Duplicate_in_history
     else Eligible)"
  using assms
proof (induction cs arbitrary: seen i)
  case Nil
  then show ?case by simp
next
  case (Cons c cs)
  show ?case
  proof (cases i)
    case 0
    then show ?thesis by simp
  next
    case (Suc j)
    with Cons.IH [of j "dedupe_key c # seen"] Cons.prems show ?thesis by simp
  qed
qed

lemma eligible_classify:
  "distinct (map dedupe_key (map dn_candidate
       (filter (\<lambda>d. dn_disposition d = Eligible) (classify bl rh seen cs)))) \<and>
   (\<forall>d \<in> set (classify bl rh seen cs). dn_disposition d = Eligible \<longrightarrow>
      decision_key d \<notin> set bl \<union> set seen \<union> set rh)"
proof (induction cs arbitrary: seen)
  case Nil
  then show ?case by simp
next
  case (Cons c cs)
  from Cons.IH [of "dedupe_key c # seen"] show ?case
    by (auto simp: decision_key_def image_iff split: if_splits)
qed

text \<open>The constructor accepts whatever the loop produced from accepted input.\<close>

lemma make_evaluation_classify:
  assumes "history_cutoff t = Some cutoff"
    and "length cs \<le> max_task_target_limit" and "length (remdups (map page_revision cs)) \<le> 1"
  shows "make_evaluation (classify bl rh [] cs) (Aware 0 t) candidate_policy_version =
    Some \<lparr>ev_decisions = classify bl rh [] cs, ev_evaluated_at = t,
      ev_policy_version = candidate_policy_version\<rparr>"
  using assms
  by (simp add: make_evaluation_def revisions_classify duplicates_consistent_classify
      del: length_remdups_card_conv)

lemma evaluate_SomeD:
  assumes "evaluate_douyin_candidates cs hs bl at = Some e"
  obtains t cutoff where "at = Aware 0 t" and "history_cutoff t = Some cutoff"
    and "ev_decisions e = classify bl (recent_history cutoff t hs) [] cs"
    and "ev_evaluated_at e = t" and "length cs \<le> max_task_target_limit"
  using assms
  by (auto simp: evaluate_douyin_candidates_def make_evaluation_def canonical_utc_Some
      bind_eq_Some_conv split: if_splits)

lemma count_split:
  "length (filter (\<lambda>x. dn_disposition x = Eligible) ds)
   + length (filter (\<lambda>x. dn_disposition x = Duplicate_in_task) ds)
   + length (filter (\<lambda>x. dn_disposition x = Duplicate_in_history) ds)
   + length (filter (\<lambda>x. dn_disposition x = Blacklisted) ds) = length ds"
proof (induction ds)
  case Nil
  then show ?case by simp
next
  case (Cons d ds)
  then show ?case by (cases "dn_disposition d") auto
qed

end
