(* ===== verification/Status_Graph.thy ===== *)
theory Status_Graph
  imports Main
begin

text \<open>
  The interface of a closed lifecycle: a status graph given by the allowed targets of every status
  and a set of terminal statuses without targets. The lemmas about walks through such a graph (a
  walk never leaves a closed set, and leaves a guarded region only through its gate) are proved
  once here and used through the interpretations on the program's own transition tables.
\<close>

fun walk :: "('s \<Rightarrow> 's set) \<Rightarrow> 's \<Rightarrow> 's list \<Rightarrow> bool" where
  "walk allowed s [] = True"
| "walk allowed s (t # ts) = (t \<in> allowed s \<and> walk allowed t ts)"

locale lifecycle =
  fixes allowed :: "'s \<Rightarrow> 's set"
    and terminal :: "'s set"
  assumes terminal_iff_stuck: "s \<in> terminal \<longleftrightarrow> allowed s = {}"
begin

lemma walk_from_terminal: "s \<in> terminal \<Longrightarrow> walk allowed s ts \<Longrightarrow> ts = []"
  using terminal_iff_stuck by (cases ts) auto

lemma walk_stays:
  assumes closed: "\<And>s t. s \<in> A \<Longrightarrow> t \<in> allowed s \<Longrightarrow> t \<in> A"
  shows "s \<in> A \<Longrightarrow> walk allowed s ts \<Longrightarrow> set ts \<subseteq> A"
  by (induction ts arbitrary: s) (auto intro: closed)

text \<open>Every step out of the region \<open>A\<close> enters the gate \<open>G\<close>, so a walk that ends outside passes it.\<close>

lemma walk_through_gate:
  assumes gate: "\<And>s t. s \<in> A \<Longrightarrow> t \<in> allowed s \<Longrightarrow> t \<in> A \<or> t \<in> G"
  shows "s \<in> A \<Longrightarrow> walk allowed s ts \<Longrightarrow> t \<in> set ts \<Longrightarrow> t \<notin> A \<Longrightarrow> \<exists>g \<in> G. g \<in> set ts"
proof (induction ts arbitrary: s)
  case Nil
  then show ?case by simp
next
  case (Cons u ts)
  show ?case
  proof (cases "u \<in> G")
    case True
    then show ?thesis by auto
  next
    case False
    with gate [OF Cons.prems(1)] Cons.prems(2) have "u \<in> A" by auto
    with Cons.IH [of u] Cons.prems(2-4) show ?thesis by auto
  qed
qed

lemma walk_append:
  "walk allowed s (xs @ ys) \<longleftrightarrow> walk allowed s xs \<and> walk allowed (last (s # xs)) ys"
  by (induction xs arbitrary: s) auto

end

end
