(* ===== verification/Task_Lifecycle.thy ===== *)
theory Task_Lifecycle
  imports Status_Graph
begin

text \<open>
  The task lifecycle of the Control Plane
  (\<open>control_plane/domain/task_state_machine.py\<close>): the sixteen statuses, the terminal set, the
  transition table and the five static methods of \<open>TaskStateMachine\<close>. The methods take any
  Python object; \<open>None\<close> stands for an object that is not a \<open>TaskStatus\<close>, and a raised
  \<open>InvalidTaskTransition\<close> is the value \<open>Inl InvalidTaskTransition\<close>.
\<close>

datatype task_status =
    Draft | Validating | Awaiting_device | Awaiting_platform_login | Discovering_targets
  | Awaiting_confirmation | Queued | Running | Paused | Awaiting_human | Cancelling
  | Succeeded | Partially_succeeded | Failed | Cancelled | Outcome_uncertain

datatype task_error = InvalidTaskTransition

definition terminal_statuses :: "task_status set" where
  "terminal_statuses = {Succeeded, Partially_succeeded, Failed, Cancelled, Outcome_uncertain}"

fun task_transitions :: "task_status \<Rightarrow> task_status set" where
  "task_transitions Draft = {Validating}"
| "task_transitions Validating = {Awaiting_device, Cancelling, Failed}"
| "task_transitions Awaiting_device = {Awaiting_platform_login, Cancelling, Failed}"
| "task_transitions Awaiting_platform_login = {Discovering_targets, Cancelling, Failed}"
| "task_transitions Discovering_targets =
     {Awaiting_platform_login, Awaiting_confirmation, Awaiting_human, Cancelling, Failed}"
| "task_transitions Awaiting_confirmation = {Discovering_targets, Queued, Cancelling}"
| "task_transitions Queued = {Awaiting_device, Running, Cancelling, Failed}"
| "task_transitions Running =
     {Paused, Awaiting_human, Cancelling, Succeeded, Partially_succeeded, Failed,
      Outcome_uncertain}"
| "task_transitions Paused = {Running, Awaiting_human, Cancelling}"
| "task_transitions Awaiting_human =
     {Discovering_targets, Running, Cancelling, Failed, Outcome_uncertain}"
| "task_transitions Cancelling =
     {Succeeded, Partially_succeeded, Failed, Cancelled, Outcome_uncertain}"
| "task_transitions Succeeded = {}"
| "task_transitions Partially_succeeded = {}"
| "task_transitions Failed = {}"
| "task_transitions Cancelled = {}"
| "task_transitions Outcome_uncertain = {}"

definition is_terminal :: "task_status option \<Rightarrow> bool" where
  "is_terminal status = (case status of None \<Rightarrow> False | Some s \<Rightarrow> s \<in> terminal_statuses)"

definition allowed_targets :: "task_status option \<Rightarrow> task_error + task_status set" where
  "allowed_targets status =
     (case status of None \<Rightarrow> Inl InvalidTaskTransition | Some s \<Rightarrow> Inr (task_transitions s))"

definition can_transition :: "task_status option \<Rightarrow> task_status option \<Rightarrow> bool" where
  "can_transition current target =
     (case (current, target) of
        (Some c, Some t) \<Rightarrow> t \<in> task_transitions c
      | _ \<Rightarrow> False)"

definition task_transition ::
  "task_status option \<Rightarrow> task_status option \<Rightarrow> task_error + task_status" where
  "task_transition current target =
     (case (current, target) of
        (Some c, Some t) \<Rightarrow>
          if t \<in> task_transitions c then Inr t else Inl InvalidTaskTransition
      | _ \<Rightarrow> Inl InvalidTaskTransition)"

interpretation task: lifecycle task_transitions terminal_statuses
proof
  show "s \<in> terminal_statuses \<longleftrightarrow> task_transitions s = {}" for s
    by (cases s) (simp_all add: terminal_statuses_def)
qed

subsection \<open>Regions of the graph\<close>

definition before_confirmation :: "task_status set" where
  "before_confirmation =
     {Draft, Validating, Awaiting_device, Awaiting_platform_login, Discovering_targets,
      Awaiting_human, Running, Paused, Cancelling, Failed, Succeeded, Partially_succeeded,
      Cancelled, Outcome_uncertain}"

definition before_running :: "task_status set" where
  "before_running =
     {Draft, Validating, Awaiting_device, Awaiting_platform_login, Discovering_targets,
      Awaiting_confirmation, Queued, Awaiting_human, Failed, Outcome_uncertain}"

lemma before_confirmation_gate:
  "s \<in> before_confirmation \<Longrightarrow> t \<in> task_transitions s \<Longrightarrow>
   t \<in> before_confirmation \<or> t \<in> {Awaiting_confirmation}"
  by (cases s) (auto simp: before_confirmation_def)

lemma before_running_gate:
  "s \<in> before_running \<Longrightarrow> t \<in> task_transitions s \<Longrightarrow>
   t \<in> before_running \<or> t \<in> {Running, Cancelling}"
  by (cases s) (auto simp: before_running_def)

lemma cancelling_closed:
  "s \<in> insert Cancelling terminal_statuses \<Longrightarrow> t \<in> task_transitions s \<Longrightarrow>
   t \<in> insert Cancelling terminal_statuses"
  by (cases s) (auto simp: terminal_statuses_def)

text \<open>A shortest walk to the end from every status, as a function.\<close>

fun finish_walk :: "task_status \<Rightarrow> task_status list" where
  "finish_walk Draft = [Validating, Failed]"
| "finish_walk Validating = [Failed]"
| "finish_walk Awaiting_device = [Failed]"
| "finish_walk Awaiting_platform_login = [Failed]"
| "finish_walk Discovering_targets = [Failed]"
| "finish_walk Awaiting_confirmation = [Cancelling, Cancelled]"
| "finish_walk Queued = [Failed]"
| "finish_walk Running = [Succeeded]"
| "finish_walk Paused = [Cancelling, Cancelled]"
| "finish_walk Awaiting_human = [Failed]"
| "finish_walk Cancelling = [Cancelled]"
| "finish_walk _ = []"

lemma finish_walk_ok:
  "walk task_transitions s (finish_walk s) \<and> last (s # finish_walk s) \<in> terminal_statuses"
  by (cases s) (simp_all add: terminal_statuses_def)

end
