(* ===== verification/Samples.thy ===== *)
theory Samples
  imports Ledger_Runs Candidate_Policy Task_Lifecycle
begin

text \<open>
  Concrete values for the witnesses: one installation, one executor, a task with one attempt, its
  messages, a signed comment action, and the ledger after some prefixes of its life. The codec's
  texts and digests are stand-ins that tell the sample messages apart.
\<close>

definition uuid :: "char \<Rightarrow> str" where
  "uuid c = ''00000000-0000-4000-8000-00000000000'' @ [c]"

lemma uuid_inject [simp]: "uuid a = uuid b \<longleftrightarrow> a = b"
  by (simp add: uuid_def)

lemma uuid_length [simp]: "length (uuid c) = 36"
  by (simp add: uuid_def)

lemma uuid_canonical [simp]: "hex_digit c \<Longrightarrow> is_canonical_uuid_v4 (uuid c)"
  by (simp add: uuid_def is_canonical_uuid_v4_def uuid_shape_def hex_digit_def)

lemma hex_digits [simp]:
  "list_all hex_digit ''0123456789abcdef''"
  by (simp add: hex_digit_def)

lemma uuid_not_key [simp]: "uuid c \<noteq> ''key:'' @ s" "uuid c \<noteq> ''action:'' @ s"
  by (simp_all add: uuid_def)

definition sample_codec :: codec where
  "sample_codec = \<lparr>
     cd_dumps = (\<lambda>e. message_id e),
     cd_intent = (\<lambda>e. idempotency_key e),
     cd_sha256 = (\<lambda>s. replicate 32 (word_of_nat (of_char (last (CHR ''0'' # s)))))\<rparr>"

definition installation :: str where "installation = uuid CHR ''1''"
definition executor :: str where "executor = uuid CHR ''2''"
definition the_action :: str where "the_action = uuid CHR ''3''"
definition the_target :: str where "the_target = uuid CHR ''4''"
definition the_attempt :: str where "the_attempt = uuid CHR ''5''"
definition the_task :: str where "the_task = uuid CHR ''6''"
definition the_correlation :: str where "the_correlation = uuid CHR ''7''"
definition the_job :: str where "the_job = uuid CHR ''8''"

definition fingerprint_a :: bytes where "fingerprint_a = replicate 32 7"
definition fingerprint_b :: bytes where "fingerprint_b = replicate 32 9"

definition message :: "char \<Rightarrow> message_type \<Rightarrow> int \<Rightarrow> payload \<Rightarrow> envelope" where
  "message c m n p = \<lparr>
     message_id = uuid c, message_type = m, sent_at = seconds 10, deadline_at = seconds 900,
     installation_id = installation, executor_id = executor, correlation_id = the_correlation,
     idempotency_key = ''key:'' @ [c], sequence = n, payload = p,
     task_id = the_task, execution_attempt_id = the_attempt\<rparr>"

definition offer :: envelope where
  "offer = message CHR ''a'' M_task_offer 1
     (P_object [(''task_event_sequence_baseline'', JInt 4)])"

definition accept :: envelope where
  "accept = message CHR ''b'' M_task_accept 1 (P_object [])"

definition started :: envelope where
  "started = message CHR ''c'' M_task_started 5 (P_object [])"

definition pause :: envelope where
  "pause = message CHR ''d'' M_task_pause 2 (P_object [])"

definition pause_ack :: envelope where
  "pause_ack = message CHR ''e'' M_task_control_ack 2 (P_object [])"

definition paused_event :: envelope where
  "paused_event = message CHR ''f'' M_task_paused 6 (P_object [])"

definition stop_command :: envelope where
  "stop_command = message CHR ''0'' M_task_emergency_stop 2 (P_object [])"

definition the_candidate :: candidate_payload where
  "the_candidate = \<lparr>cp_platform_target_id = ''t-1'', cp_display_name = ''name'',
     cp_public_handle = None, cp_page_revision = 1\<rparr>"

definition action_execute :: envelope where
  "action_execute = (message CHR ''9'' M_action_execute 2 (P_action \<lparr>
     ac_action_id = the_action, ac_target_id = the_target, ac_action = Comment,
     ac_candidate = the_candidate, ac_template_version = Some ''action-message-template.v1'',
     ac_template = Some ''hello''\<rparr>))\<lparr>idempotency_key := ''action:'' @ the_action\<rparr>"

definition the_claims :: claims where
  "the_claims = \<lparr>
     cl_action_id = the_action, cl_target_id = the_target, cl_attempt_id = the_attempt,
     cl_task_id = the_task, cl_installation_id = installation, cl_executor_id = executor,
     cl_platform = ''douyin'', cl_action = Comment,
     cl_idempotency_key = ''action:'' @ the_action,
     cl_authorized_at = seconds 100, cl_deadline_at = seconds 300\<rparr>"

definition at_second :: "int \<Rightarrow> py_datetime" where
  "at_second n = Aware 0 (seconds n)"

definition fresh_ledger :: ledger where
  "fresh_ledger = new_ledger installation executor"

text \<open>The offer is received and answered, and the attempt runs.\<close>

definition ops_running :: "ledger_op list" where
  "ops_running =
     [Op_receive offer, Op_commit_outcome (uuid CHR ''a'') 1 CK_running 5 [accept, started]]"

definition running_ledger :: ledger where
  "running_ledger = run sample_codec fresh_ledger ops_running"

text \<open>An action command, its admission and its write-ahead record.\<close>

definition ops_prepared :: "ledger_op list" where
  "ops_prepared = [Op_receive action_execute,
     Op_admit the_claims fingerprint_a (at_second 110) 60 3,
     Op_prepare_effect the_action fingerprint_b (at_second 111)]"

definition prepared_ledger :: ledger where
  "prepared_ledger = run sample_codec running_ledger ops_prepared"

definition begin_op :: ledger_op where
  "begin_op = Op_begin_effect the_action fingerprint_b (at_second 112)"

definition dispatched_ledger :: ledger where
  "dispatched_ledger = ledger_step sample_codec prepared_ledger begin_op"

lemmas id_defs = installation_def executor_def the_action_def the_target_def the_attempt_def
  the_task_def the_correlation_def the_job_def

lemmas message_defs = message_def offer_def accept_def started_def pause_def pause_ack_def
  paused_event_def stop_command_def action_execute_def the_candidate_def the_claims_def

lemmas row_defs = receipt_of_row_def command_row_of_def command_intent_fingerprint_def
  stored_command_envelope_def outbox_row_of_def message_fingerprint_def envelope_bytes_def
  source_matches_def cm_correlation_def offer_baseline_def payload_get_def intent_of_def

lemmas schema_defs = checkpoint_ok_def checkpoint_clash_def command_ok_def command_clash_def
  outbox_ok_def outbox_clash_def admission_ok_def admission_clash_def effect_ok_def
  effect_clash_def publish_ok_def publish_clash_def session_ok_def session_clash_def
  guard_ok_def is_fingerprint_def sql_insert_def sql_update_def sql_lookup_def sql_rowcount_def

lemmas gate_defs = outbox_capacity_ok_def pending_bytes_def pending_rows_def
  max_pending_outbox_entries_def max_pending_outbox_bytes_def next_ordinal_def latest_def
  command_identity_ok_def outbound_identity_ok_def max_cross_runtime_sequence_def
  canonical_uuid_v4_def hex_digit_def type_classes required_control_states_def

lemmas run_defs = run_def committed_def at_second_def

lemma fresh_ledger_wf: "ledger_inv fresh_ledger"
  unfolding fresh_ledger_def by (rule new_ledger_inv)

definition offer_row :: command_row where
  "offer_row = command_row_of sample_codec offer"

lemma receive_offer:
  "receive_command sample_codec fresh_ledger offer = Some (receipt_of_row offer_row False,
     fresh_ledger\<lparr>checkpoints := [\<lparr>ck_attempt_id = the_attempt, ck_task_id = the_task,
        ck_last_command = 1, ck_last_event = 4, ck_state = CK_received, ck_revision = 1\<rparr>],
       commands := [offer_row]\<rparr>)"
  by (simp add: receive_command_def receive_command_at_def fresh_ledger_def new_ledger_def
      offer_row_def advance_checkpoint_def insert_command_def engage_if_def id_defs message_defs row_defs schema_defs
      gate_defs sample_codec_def)

lemmas sample_defs = fresh_ledger_def new_ledger_def id_defs message_defs row_defs schema_defs gate_defs
  run_defs sample_codec_def

lemma receive_offer_step:
  "ledger_step sample_codec fresh_ledger (Op_receive offer) =
     fresh_ledger\<lparr>checkpoints := [\<lparr>ck_attempt_id = the_attempt, ck_task_id = the_task,
        ck_last_command = 1, ck_last_event = 4, ck_state = CK_received, ck_revision = 1\<rparr>],
       commands := [offer_row]\<rparr>"
  by (simp add: committed_def receive_offer)

lemma running_ledger:
  "running_ledger =
     fresh_ledger\<lparr>checkpoints := [\<lparr>ck_attempt_id = the_attempt, ck_task_id = the_task,
        ck_last_command = 1, ck_last_event = 5, ck_state = CK_running, ck_revision = 2\<rparr>],
       commands := [offer_row],
       outbox := [outbox_row_of sample_codec accept (uuid CHR ''a'') 1,
         outbox_row_of sample_codec started (uuid CHR ''a'') 2]\<rparr>"
  unfolding running_ledger_def ops_running_def run_def run_end_simps receive_offer_step
  by (simp add: commit_outcome_def insert_outbox_def offer_row_def sample_defs)

definition action_row :: command_row where
  "action_row = command_row_of sample_codec action_execute"

definition admitted_row :: admission_row where
  "admitted_row = admission_of_claims the_claims fingerprint_a (seconds 110) 1"

definition effect_row_in :: "progress \<Rightarrow> effect_row" where
  "effect_row_in p = \<lparr>ef_action_id = the_action, ef_fingerprint = fingerprint_b, ef_progress = p\<rparr>"

definition action_checkpoint :: checkpoint_row where
  "action_checkpoint = \<lparr>ck_attempt_id = the_attempt, ck_task_id = the_task,
     ck_last_command = 2, ck_last_event = 5, ck_state = CK_running, ck_revision = 3\<rparr>"

lemma receive_action:
  "ledger_step sample_codec running_ledger (Op_receive action_execute) =
     running_ledger\<lparr>checkpoints := [action_checkpoint], commands := [offer_row, action_row]\<rparr>"
  unfolding running_ledger
  by (simp add: receive_command_def receive_command_at_def advance_checkpoint_def
      insert_command_def engage_if_def offer_row_def action_row_def action_checkpoint_def sample_defs)

lemma admit_first:
  "admit_action (running_ledger\<lparr>checkpoints := cs, commands := ms\<rparr>) the_claims fingerprint_a
     (at_second 110) 60 3 =
     (Inr \<lparr>am_row = admitted_row, am_replayed = False\<rparr>,
      running_ledger\<lparr>checkpoints := cs, commands := ms, admissions := [admitted_row]\<rparr>)"
  unfolding running_ledger
  by (simp add: admit_action_def admit_request_def admit_new_def add_delta_def valid_instant_def
      max_instant_def authorization_clock_skew_def seconds_def fingerprint_a_def hard_policy_ok_def
      max_local_action_interval_seconds_def max_local_task_actions_def read_emergency_stop_def
      latest_admitted_at_def task_action_count_def admission_of_claims_def make_admission_def
      admitted_row_def Let_def sample_defs)

lemma prepared_ledger:
  "prepared_ledger = running_ledger\<lparr>
     checkpoints := [action_checkpoint], commands := [offer_row, action_row],
     admissions := [admitted_row],
     side_effects := [effect_row_in (new_progress (seconds 111))]\<rparr>"
  unfolding prepared_ledger_def ops_prepared_def run_def run_end_simps receive_action
  by (simp add: admit_first) (simp add: prepare_side_effect_def running_ledger
      admitted_row_def admission_of_claims_def fingerprint_a_def fingerprint_b_def
      read_emergency_stop_def read_side_effect_def make_side_effect_def progress_ok_def
      new_progress_def effect_row_in_def seconds_def Let_def sample_defs)

lemma begin_first:
  "begin_side_effect_dispatch prepared_ledger the_action fingerprint_b (at_second 112) =
     Some (\<lparr>se_admission = admitted_row, se_fingerprint = fingerprint_b,
        se_progress = mark_dispatched (seconds 112) (new_progress (seconds 111)),
        se_replayed = False\<rparr>,
      prepared_ledger\<lparr>side_effects :=
        [effect_row_in (mark_dispatched (seconds 112) (new_progress (seconds 111)))]\<rparr>)"
  unfolding prepared_ledger
  by (simp add: begin_side_effect_dispatch_def running_ledger admitted_row_def
      admission_of_claims_def fingerprint_a_def fingerprint_b_def
      read_emergency_stop_def read_side_effect_def make_side_effect_def progress_ok_def
      new_progress_def effect_row_in_def seconds_def Let_def dispatch_blocked_def
      action_checkpoint_def offer_row_def action_row_def advance_effect_def effect_at_def
      move_effect_def mark_dispatched_def se_state_def sample_defs)

lemma dispatched_ledger:
  "dispatched_ledger = prepared_ledger\<lparr>side_effects :=
     [effect_row_in (mark_dispatched (seconds 112) (new_progress (seconds 111)))]\<rparr>"
  by (simp add: dispatched_ledger_def begin_op_def begin_first committed_def)

lemma sample_ledgers_inv:
  "ledger_inv running_ledger" "ledger_inv prepared_ledger" "ledger_inv dispatched_ledger"
proof -
  show 1: "ledger_inv running_ledger"
    unfolding running_ledger_def by (rule run_inv [OF fresh_ledger_wf])
  show 2: "ledger_inv prepared_ledger"
    unfolding prepared_ledger_def by (rule run_inv [OF 1])
  show "ledger_inv dispatched_ledger"
    unfolding dispatched_ledger_def by (rule step_inv [OF 2])
qed

end
