(* ===== verification/Dispatch_Properties.thy ===== *)
theory Dispatch_Properties
  imports Guard_Frame Samples
begin

text \<open>
  Properties of the action gate of the ledger: at most one dispatch per action and per publish over
  any run, the guards of a grant, the emergency stop, the hard policy and admissions.
\<close>

subsection \<open>At most one dispatch\<close>

text \<open>C1. In any run from a new ledger, whatever operations interleave and whatever is refused,
  \<open>begin_side_effect_dispatch\<close> permits the external call of one action at most once.\<close>

theorem effect_dispatched_at_most_once:
  "length (filter (\<lambda>(L, op). grants_effect L op action_id)
     (history cd (new_ledger inst exec) ops)) \<le> 1"
  unfolding history_def by (rule effect_once.at_most_one_grant [OF new_ledger_inv]) (simp add: list_all_iff)

text \<open>In any run from a new ledger, \<open>begin_publish_dispatch\<close> permits the publish of one job at
  most once.\<close>

lemma publish_dispatched_at_most_once:
  "length (filter (\<lambda>(L, op). grants_publish L op job_id)
     (history cd (new_ledger inst exec) ops)) \<le> 1"
  unfolding history_def by (rule publish_once.at_most_one_grant [OF new_ledger_inv]) (simp add: list_all_iff)

text \<open>C27. Every reachable ledger satisfies the schema (row checks, unique keys, foreign keys), has
  gap-free command sequences per attempt, strictly increasing outbox ordinals, and counted and paced
  admissions.\<close>

theorem reachable_ledger_invariant: "ledger_inv (run cd (new_ledger inst exec) ops)"
  by (rule run_inv) (rule new_ledger_inv)

text \<open>C23. A granted dispatch had a prepared effect with the given fingerprint and an unexpired
  admission, and found the stop latch clear, the transport connected and the attempt not blocked;
  it leaves the effect dispatched at the given instant.\<close>

theorem dispatch_grant_guarded:
  assumes "grants_effect L (Op_begin_effect aid fp at) aid"
  shows "\<exists>r a t. at = Aware 0 t
    \<and> sql_lookup ef_action_id aid (side_effects L) = Some r
    \<and> pg_state (ef_progress r) = Prepared \<and> ef_fingerprint r = fp
    \<and> sql_lookup ad_action_id aid (admissions L) = Some a
    \<and> pg_prepared_at (ef_progress r) \<le> t \<and> t < ad_deadline_at a
    \<and> \<not> gr_engaged (action_guard L) \<and> transport_connected L
    \<and> \<not> dispatch_blocked L (ad_attempt_id a)
    \<and> sql_lookup ef_action_id aid
        (side_effects (ledger_step cd L (Op_begin_effect aid fp at))) =
        Some (move_effect (mark_dispatched t) r)"
proof -
  from assms obtain e L' where dispatch: "begin_side_effect_dispatch L aid fp at = Some (e, L')"
    and "\<not> se_replayed e"
    by (auto simp: grants_effect_def split: option.splits)
  from dispatch show ?thesis
  proof (cases rule: begin_side_effect_dispatch_SomeD)
    case (replay r)
    with \<open>\<not> se_replayed e\<close> show ?thesis by simp
  next
    case (grant r cur t)
    have "ef_action_id r = aid" using sql_lookup_SomeD [OF grant(2)] by simp
    with grant read_side_effect_Some [OF grant(3)] advance_effect_lookup [OF grant(8,2,4,5)] dispatch
    show ?thesis by (auto simp: effect_grant_guards_def committed_def transport_connected_def)
  qed
qed

theorem dispatch_grant_guarded_witness:
  "grants_effect prepared_ledger begin_op the_action
   \<and> sql_lookup ef_action_id the_action
       (side_effects (ledger_step sample_codec prepared_ledger begin_op)) \<noteq> None"
proof -
  have g: "grants_effect prepared_ledger begin_op the_action"
    by (simp add: grants_effect_def begin_op_def begin_first)
  from dispatch_grant_guarded [OF this [unfolded begin_op_def], of sample_codec] g show ?thesis
    unfolding begin_op_def by fastforce
qed

text \<open>Once an effect is verified or uncertain, no later operation changes its row.\<close>

lemma settled_effect_is_final:
  assumes "ledger_inv L" and "sql_lookup ef_action_id aid (side_effects L) = Some r"
    and "pg_state (ef_progress r) \<in> {Verified, Uncertain}"
  shows "sql_lookup ef_action_id aid (side_effects (run cd L ops)) = Some r"
proof -
  have "table_le effect_le (side_effects L) (side_effects (run cd L ops))"
    using run_evolves [OF assms(1)] by (simp add: evolves_def)
  then obtain r' where r': "sql_lookup ef_action_id aid (side_effects (run cd L ops)) = Some r'"
    and le: "effect_le r r'"
    using effects.le_lookup assms(2) by metis
  have "r' = r" using le assms(3) by (cases r; cases r') (auto simp: effect_le_def progress_le_def)
  with r' show ?thesis by simp
qed

definition stopped_ledger :: ledger where
  "stopped_ledger = dispatched_ledger\<lparr>side_effects :=
     [effect_row_in (mark_settled Uncertain None (seconds 120)
       (mark_dispatched (seconds 112) (new_progress (seconds 111))))]\<rparr>"

lemma mark_first_uncertain:
  "ledger_step sample_codec dispatched_ledger
     (Op_effect_uncertain the_action fingerprint_b (at_second 120)) = stopped_ledger"
  by (simp add: mark_side_effect_uncertain_def settle_side_effect_def settle_arguments_ok_def
      stopped_ledger_def dispatched_ledger prepared_ledger running_ledger admitted_row_def
      admission_of_claims_def fingerprint_a_def fingerprint_b_def read_side_effect_def
      make_side_effect_def progress_ok_def new_progress_def effect_row_in_def seconds_def Let_def
      advance_effect_def effect_at_def move_effect_def mark_dispatched_def mark_settled_def
      se_state_def sample_defs)

lemma settled_effect_is_final_witness:
  "sql_lookup ef_action_id the_action (side_effects (run sample_codec stopped_ledger
     [Op_verify_effect the_action fingerprint_b fingerprint_a (at_second 130), begin_op])) \<noteq> None"
proof -
  have "ledger_inv stopped_ledger"
    using step_inv [OF sample_ledgers_inv(3)] mark_first_uncertain by metis
  moreover have "sql_lookup ef_action_id the_action (side_effects stopped_ledger) =
      Some (effect_row_in (mark_settled Uncertain None (seconds 120)
       (mark_dispatched (seconds 112) (new_progress (seconds 111)))))"
    by (simp add: stopped_ledger_def sql_lookup_def effect_row_in_def)
  ultimately show ?thesis
    using settled_effect_is_final [of stopped_ledger the_action] by (simp add: effect_row_in_def mark_settled_def)
qed

subsection \<open>The emergency stop\<close>

text \<open>While the latch is engaged, no sequence of operations without a clear (commands,
  reconnects, recovery and retries included) grants a dispatch or a publish.\<close>

lemma engaged_stop_blocks_dispatch:
  assumes "gr_engaged (action_guard L)" and "list_all (\<lambda>op. \<not> clears_stop op) ops"
  shows "filter (\<lambda>(M, op). grants_effect M op aid \<or> grants_publish M op jid) (history cd L ops) = []"
  using assms unfolding history_def
proof (induction ops arbitrary: L)
  case Nil
  then show ?case by simp
next
  case (Cons op ops)
  have "\<not> grants_effect L op aid"
    using Cons.prems(1) by (auto simp: grants_effect_def effect_grant_guards_def
        elim!: begin_side_effect_dispatch_SomeD split: ledger_op.splits option.splits)
  moreover have "\<not> grants_publish L op jid"
    using Cons.prems(1) by (auto simp: grants_publish_def
        elim!: begin_publish_dispatch_SomeD split: ledger_op.splits option.splits)
  moreover have "gr_engaged (action_guard (ledger_step cd L op))"
    using Cons.prems by (intro engaged_step) simp_all
  ultimately show ?case using Cons by simp
qed

lemma engaged_stop_blocks_dispatch_witness:
  "filter (\<lambda>(M, op). grants_effect M op the_action \<or> grants_publish M op the_job)
     (history sample_codec (prepared_ledger\<lparr>action_guard := \<lparr>gr_engaged = True, gr_revision = 1,
        gr_changed_at = Some 0, gr_network_connected = True\<rparr>\<rparr>) [Op_transport True, begin_op]) = []"
  by (rule engaged_stop_blocks_dispatch) (simp_all add: clears_stop_def begin_op_def)

text \<open>An accepted emergency-stop command, new or replayed, engages the latch and turns exactly
  the dispatched effects of its attempt into uncertain ones, settled at the stop; none is left
  dispatched.\<close>

lemma emergency_stop_settles_attempt:
  assumes "receive_task_emergency_stop cd L e (Aware 0 t) = Some (rc, L')"
  shows "gr_engaged (action_guard L')
    \<and> side_effects L' = map (\<lambda>r. if pg_state (ef_progress r) = Dispatched
          \<and> effect_in_attempt L (execution_attempt_id e) r
        then r\<lparr>ef_progress := mark_stopped t (ef_progress r)\<rparr> else r) (side_effects L)
    \<and> \<not> attempt_has_effect L' (execution_attempt_id e) Dispatched"
proof -
  let ?a = "execution_attempt_id e"
  from assms have run: "receive_command_at cd L e (Some (Aware 0 t)) = Some (rc, L')"
    and kind: "message_type e = M_task_emergency_stop"
    by (auto simp: receive_task_emergency_stop_def split: if_splits)
  obtain M where stop: "engage_emergency_stop M ?a t = Some L'"
    and M: "side_effects M = side_effects L" "admissions M = admissions L"
    using run
    by (cases rule: receive_command_at_SomeD)
      (auto simp: engage_if_def insert_command_def bind_eq_Some_conv split: if_splits)
  from stop obtain s L1 where latch: "engage_action_latch M t = Some (s, L1)"
    and L': "L1\<lparr>side_effects := side_effects L'\<rparr> = L'"
    and up: "sql_update effect_ok (stopped_by L1 ?a t)
       (\<lambda>r. r\<lparr>ef_progress := mark_stopped t (ef_progress r)\<rparr>) (side_effects L1) = Some (side_effects L')"
    and none: "\<not> attempt_has_effect L' ?a Dispatched"
    by (rule engage_emergency_stop_SomeD)
  have L1: "side_effects L1 = side_effects L" "admissions L1 = admissions L"
    using engage_action_latch_SomeD [OF latch] M
    by (metis ledger.select_convs(5,6) ledger.surjective ledger.update_convs(3))+
  have adm: "admissions L' = admissions L"
    using L' L1(2) by (metis ledger.select_convs(5) ledger.surjective ledger.update_convs(6))
  have inside: "effect_in_attempt X ?a r = effect_in_attempt L ?a r"
    if "admissions X = admissions L" for X r
    using that by (simp add: effect_in_attempt_def)
  let ?stop = "\<lambda>r. r\<lparr>ef_progress := mark_stopped t (ef_progress r)\<rparr>"
  have rows: "side_effects L' = map (\<lambda>r. if stopped_by L1 ?a t r then ?stop r else r) (side_effects L)"
    using up by (simp add: sql_update_Some L1)
  have "stopped_by L1 ?a t r \<longleftrightarrow> pg_state (ef_progress r) = Dispatched \<and> effect_in_attempt L ?a r"
    if r: "r \<in> set (side_effects L)" for r
  proof (rule ccontr)
    assume no: "\<not> ?thesis"
    then have hit: "pg_state (ef_progress r) = Dispatched" "effect_in_attempt L ?a r"
      "\<not> stopped_by L1 ?a t r"
      using inside [OF L1(2)] by (auto simp: stopped_by_def)
    then have "r \<in> set (side_effects L')" using r by (force simp: rows)
    with hit none inside [OF adm] show False by (auto simp: attempt_has_effect_def list_ex_iff)
  qed
  with rows have "side_effects L' = map (\<lambda>r. if pg_state (ef_progress r) = Dispatched
      \<and> effect_in_attempt L ?a r then ?stop r else r) (side_effects L)" by auto
  with none engaged_after_engage [OF stop] show ?thesis by simp
qed

text \<open>A successful clear needs the latch engaged, its current revision and a later instant; it
  consumes the revision, so no later clear with the same revision succeeds, whatever happens in
  between.\<close>

lemma clear_consumes_revision:
  assumes "ledger_inv L" and "clear_action_emergency_stop L n at = Some (s, L')"
  shows "gr_engaged (action_guard L) \<and> gr_revision (action_guard L) = n
    \<and> \<not> gr_engaged (action_guard L')
    \<and> clear_action_emergency_stop (run cd L' ops) n at' = None"
proof -
  note facts = clear_action_emergency_stop_SomeD [OF assms(2)]
  have "ledger_inv L'"
    using sound_clear_stop [OF assms(2)] assms(1) by (simp add: sound_def)
  then have "gr_revision (action_guard L') \<le> gr_revision (action_guard (run cd L' ops))"
    using run_evolves by (simp add: evolves_def guard_le_def)
  then have "n < gr_revision (action_guard (run cd L' ops))" using facts by force
  then have "clear_action_emergency_stop (run cd L' ops) n at' = None"
    using clear_action_emergency_stop_SomeD [of "run cd L' ops" n at']
    by (cases "clear_action_emergency_stop (run cd L' ops) n at'") force+
  with facts show ?thesis by blast
qed

definition latched_ledger :: ledger where
  "latched_ledger = prepared_ledger\<lparr>action_guard := \<lparr>gr_engaged = True, gr_revision = 1,
     gr_changed_at = Some (seconds 113), gr_network_connected = True\<rparr>\<rparr>"

lemma latched_ledger_inv: "ledger_inv latched_ledger"
proof -
  have "ledger_step sample_codec prepared_ledger (Op_engage_stop (at_second 113)) = latched_ledger"
    by (simp add: latched_ledger_def engage_action_emergency_stop_def engage_action_latch_def
        read_emergency_stop_def prepared_ledger running_ledger sample_defs)
  then show ?thesis using step_inv [OF sample_ledgers_inv(2)] by metis
qed

lemma clear_consumes_revision_witness:
  "\<exists>s L'. clear_action_emergency_stop latched_ledger 1 (at_second 114) = Some (s, L')
     \<and> clear_action_emergency_stop (run sample_codec L' [Op_engage_stop (at_second 115)]) 1
          (at_second 116) = None"
proof -
  have "clear_action_emergency_stop latched_ledger 1 (at_second 114) =
      Some (\<lparr>es_engaged = False, es_revision = 2, es_changed_at = Some (seconds 114)\<rparr>,
        latched_ledger\<lparr>action_guard := \<lparr>gr_engaged = False, gr_revision = 2,
          gr_changed_at = Some (seconds 114), gr_network_connected = True\<rparr>\<rparr>)"
    by (simp add: latched_ledger_def clear_action_emergency_stop_def read_emergency_stop_def
        at_second_def seconds_def guard_ok_def Let_def)
  with clear_consumes_revision [OF latched_ledger_inv this] show ?thesis by blast
qed

definition stop_ledger_after :: ledger where
  "stop_ledger_after = dispatched_ledger\<lparr>
     action_guard := \<lparr>gr_engaged = True, gr_revision = 1, gr_changed_at = Some (seconds 120),
       gr_network_connected = True\<rparr>,
     checkpoints := [action_checkpoint\<lparr>ck_last_command := 3, ck_revision := 4\<rparr>],
     commands := [offer_row, action_row,
       command_row_of sample_codec (stop_command\<lparr>sequence := 3\<rparr>)],
     side_effects := [effect_row_in (mark_stopped (seconds 120)
       (mark_dispatched (seconds 112) (new_progress (seconds 111))))]\<rparr>"

lemma receive_stop_sample:
  "receive_task_emergency_stop sample_codec dispatched_ledger (stop_command\<lparr>sequence := 3\<rparr>)
     (Aware 0 (seconds 120)) =
     Some (receipt_of_row (command_row_of sample_codec (stop_command\<lparr>sequence := 3\<rparr>)) False,
       stop_ledger_after)"
  by (simp add: receive_task_emergency_stop_def receive_command_at_def advance_checkpoint_def
      insert_command_def engage_if_def engage_emergency_stop_def engage_action_latch_def
      read_emergency_stop_def stopped_by_def effect_in_attempt_def attempt_has_effect_def
      stop_ledger_after_def dispatched_ledger prepared_ledger running_ledger offer_row_def
      action_row_def action_checkpoint_def admitted_row_def admission_of_claims_def
      fingerprint_b_def effect_row_in_def progress_ok_def mark_dispatched_def new_progress_def
      mark_stopped_def seconds_def Let_def sample_defs)

lemma emergency_stop_settles_attempt_witness:
  "gr_engaged (action_guard stop_ledger_after)
   \<and> \<not> attempt_has_effect stop_ledger_after (execution_attempt_id (stop_command\<lparr>sequence := 3\<rparr>)) Dispatched"
  using emergency_stop_settles_attempt [OF receive_stop_sample] by blast

subsection \<open>The hard policy\<close>

text \<open>Binding a hard policy returns limits at least as strict as the proposed ones, and from
  then on no operation of any run relaxes them.\<close>

lemma hard_policy_only_tightens:
  assumes "ledger_inv L" and "bind_action_hard_policy L i n = Some (h, L')"
  shows "i \<le> hp_interval h \<and> hp_limit h \<le> n
    \<and> (case (pr_minimum_interval (action_policy (run cd L' ops)),
              pr_task_limit (action_policy (run cd L' ops))) of
         (Some j, Some m) \<Rightarrow> hp_interval h \<le> j \<and> m \<le> hp_limit h \<and> hard_policy_ok j m
       | _ \<Rightarrow> False)"
proof -
  note facts = bind_action_hard_policy_SomeD [OF assms(2)]
  have inv: "ledger_inv L'"
    using sound_bind_policy [OF assms(2)] assms(1) by (simp add: sound_def)
  have pol: "action_policy L' = \<lparr>pr_minimum_interval = Some (hp_interval h),
      pr_task_limit = Some (hp_limit h)\<rparr>"
    using facts by (metis ledger.select_convs(4) ledger.surjective ledger.update_convs(4))
  have "policy_le (action_policy L') (action_policy (run cd L' ops))"
    using run_evolves [OF inv] by (simp add: evolves_def)
  moreover have "policy_ok (action_policy (run cd L' ops))"
    using run_inv [OF inv] by (simp add: inv_defs)
  ultimately show ?thesis
    using facts by (auto simp: pol policy_le_def policy_ok_def split: option.splits)
qed

lemma hard_policy_only_tightens_witness:
  "\<exists>h L'. bind_action_hard_policy fresh_ledger 60 5 = Some (h, L')
     \<and> pr_minimum_interval (action_policy (run sample_codec L' [Op_bind_policy 10 9])) \<noteq> None"
proof -
  have "bind_action_hard_policy fresh_ledger 60 5 = Some (\<lparr>hp_interval = 60, hp_limit = 5\<rparr>,
      fresh_ledger\<lparr>action_policy := \<lparr>pr_minimum_interval = Some 60, pr_task_limit = Some 5\<rparr>\<rparr>)"
    by (simp add: bind_action_hard_policy_def make_hard_policy_def hard_policy_ok_def
        max_local_action_interval_seconds_def max_local_task_actions_def fresh_ledger_def new_ledger_def)
  with hard_policy_only_tightens [OF fresh_ledger_wf this, of sample_codec "[Op_bind_policy 10 9]"]
  show ?thesis by (auto split: option.splits)
qed

subsection \<open>Admissions\<close>

lemma admitted_fresh_differs:
  assumes "admit_action L c fp at i n = (Inr a, L')" and "\<not> am_replayed a"
  shows "L' \<noteq> L"
proof -
  have "make_admission r True = Some a \<Longrightarrow> am_replayed a" for r
    by (auto simp: make_admission_def split: if_splits)
  with assms have "admissions L' \<noteq> admissions L"
    by (auto simp: admit_action_def admit_new_def Let_def sql_insert_Some split: op_splits)
  then show ?thesis by blast
qed

text \<open>C24. An action that is newly admitted met every guard of \<open>admit_action\<close> (identity, clock
  skew, deadline, policy bounds, clear latch, minimum interval to every earlier admission of the
  platform and action type, task budget), and exactly its row was appended.\<close>

theorem admitted_action_guarded:
  assumes "admit_action L c fp at i n = (Inr a, L')" and "\<not> am_replayed a"
  shows "\<exists>t. at = Aware 0 t
    \<and> cl_installation_id c = own_installation_id L \<and> cl_executor_id c = own_executor_id L
    \<and> cl_authorized_at c \<le> t + authorization_clock_skew \<and> t < cl_deadline_at c
    \<and> hard_policy_ok i n \<and> \<not> gr_engaged (action_guard L)
    \<and> list_all (\<lambda>r. \<not> (ad_installation_id r = own_installation_id L
          \<and> ad_platform r = cl_platform c \<and> ad_action r = cl_action c)
        \<or> ad_admitted_at r + seconds i \<le> t) (admissions L)
    \<and> task_action_count L (cl_task_id c) (cl_platform c) (cl_action c) < n
    \<and> am_row a = next_admission L c fp t \<and> L' = L\<lparr>admissions := admissions L @ [am_row a]\<rparr>"
  using assms(1)
proof (cases rule: admit_action_cases)
  case same
  with admitted_fresh_differs [OF assms] show ?thesis by simp
next
  case (added t)
  have row: "am_row a = next_admission L c fp t"
    using added(8) by (auto simp: make_admission_def split: op_splits)
  have "admissions L' = admissions L @ [am_row a]" using added(4) row by (simp add: sql_insert_Some)
  moreover have "ad_admitted_at r + seconds i \<le> t"
    if r: "r \<in> set (admissions L)" "ad_installation_id r = own_installation_id L"
      "ad_platform r = cl_platform c" "ad_action r = cl_action c" for r
    using latest_admitted_at_ge [OF r] added(6) by (metis add_right_mono order_trans)
  moreover have "cl_installation_id c = own_installation_id L" "cl_executor_id c = own_executor_id L"
    "cl_authorized_at c \<le> t + authorization_clock_skew" "t < cl_deadline_at c" "hard_policy_ok i n"
    using added(1,2)
    by (auto simp: admit_request_def bind_eq_Some_conv add_delta_Some split: if_splits)
  ultimately show ?thesis
    using added(1,3,5,7) row by (intro exI [of _ t]) (auto simp: list_all_iff)
qed

theorem admitted_action_guarded_witness:
  "\<exists>L'. admit_action (running_ledger\<lparr>checkpoints := [], commands := []\<rparr>) the_claims fingerprint_a
     (at_second 110) 60 3 = (Inr \<lparr>am_row = admitted_row, am_replayed = False\<rparr>, L')
   \<and> length (admissions L') = 1"
  using admit_first [of "[]" "[]"] admitted_action_guarded [OF admit_first [of "[]" "[]"]]
  by (auto simp: running_ledger fresh_ledger_def new_ledger_def)

text \<open>In every reachable ledger two admissions of one platform and action type are at least one
  second apart in admission order, and the ordinals of a task's admissions of one action type are
  \<open>1, 2, ...\<close> without gap or repetition, never above the hard limit.\<close>

lemma reachable_admissions_paced:
  "sorted_wrt paced (admissions (run cd (new_ledger inst exec) ops))
   \<and> list_all (\<lambda>r. budget_ordinals r (admissions (run cd (new_ledger inst exec) ops)) =
          [1..int (length (budget_ordinals r (admissions (run cd (new_ledger inst exec) ops))))]
        \<and> int (length (budget_ordinals r (admissions (run cd (new_ledger inst exec) ops))))
            \<le> max_local_task_actions)
      (admissions (run cd (new_ledger inst exec) ops))"
proof -
  let ?A = "admissions (run cd (new_ledger inst exec) ops)"
  have inv: "ledger_inv (run cd (new_ledger inst exec) ops)"
    by (rule run_inv) (rule new_ledger_inv)
  have counted: "budget_ordinals r ?A = [1..int (length (budget_ordinals r ?A))]"
    if "r \<in> set ?A" for r
    using inv that by (simp add: ledger_inv_def admissions_paced_def budgets_counted_def list_all_iff)
  have "int (length (budget_ordinals r ?A)) \<le> max_local_task_actions" if r: "r \<in> set ?A" for r
  proof -
    have "1 \<le> int (length (budget_ordinals r ?A))"
      using r by (force simp: budget_ordinals_def same_budget_def filter_empty_conv Suc_le_eq)
    then have "int (length (budget_ordinals r ?A)) \<in> set (budget_ordinals r ?A)"
      using counted [OF r] by (metis atLeastAtMost_iff order_refl set_upto)
    then obtain x where "x \<in> set ?A" "ad_ordinal x = int (length (budget_ordinals r ?A))"
      by (auto simp: budget_ordinals_def)
    moreover have "admission_ok x" if "x \<in> set ?A" for x
      using inv that by (auto simp: inv_defs dest: sql_wf_row)
    ultimately show ?thesis by (metis admission_ok_def)
  qed
  with counted inv show ?thesis
    by (simp add: ledger_inv_def admissions_paced_def list_all_iff)
qed

text \<open>Admitting the same signed claims again returns the stored admission as a replay and changes
  nothing, so a redelivered action never consumes budget twice.\<close>

lemma admission_replay_is_idempotent:
  assumes "admit_action L c fp at i n = (Inr a, L')"
  shows "admit_action L' c fp at i n = (Inr (a\<lparr>am_replayed := True\<rparr>), L')"
proof (cases "am_replayed a")
  case True
  have "make_admission r False = Some a \<Longrightarrow> \<not> am_replayed a" for r
    by (auto simp: make_admission_def split: if_splits)
  with assms True have "L' = L"
    by (auto simp: admit_action_def admit_new_def Let_def split: op_splits)
  with assms True show ?thesis by simp
next
  case False
  from assms show ?thesis
  proof (cases rule: admit_action_cases)
    case same
    with admitted_fresh_differs [OF assms False] show ?thesis by simp
  next
    case (added t)
    let ?row = "next_admission L c fp t"
    let ?same = "\<lambda>r. ad_action_id r = cl_action_id c \<or> ad_idempotency_key r = cl_idempotency_key c"
    have make: "make_admission ?row False = Some a" and row: "am_row a = ?row"
      using added(8) by (auto simp: make_admission_def split: op_splits)
    have rows: "admissions L' = admissions L @ [?row]" using added(4) by (simp add: sql_insert_Some)
    have "\<not> ?same r" if "r \<in> set (admissions L)" for r
      using added(4) that
      by (auto simp: sql_insert_Some admission_clash_def next_admission_def admission_of_claims_def)
    then have one: "filter ?same (admissions L') = [?row]"
      by (simp add: rows filter_empty_conv next_admission_def admission_of_claims_def)
    have replay: "make_admission ?row True = Some (a\<lparr>am_replayed := True\<rparr>)"
      using make by (auto simp: make_admission_def split: if_splits)
    have eq: "own_installation_id L' = own_installation_id L" "own_executor_id L' = own_executor_id L"
      "action_guard L' = action_guard L"
      by (subst added(5) [symmetric], simp)+
    have "admit_request L' c fp at i n = Some t"
      using added(2) by (simp add: admit_request_def eq)
    moreover obtain stop where "read_emergency_stop (action_guard L) = Some stop" "\<not> es_engaged stop"
      using assms False admitted_fresh_differs [OF assms False]
      by (auto simp: admit_action_def split: op_splits)
    moreover have "same_action_admission ?row c fp"
      by (simp add: same_action_admission_def next_admission_def admission_of_claims_def)
    ultimately show ?thesis
      using one replay by (simp add: admit_action_def eq)
  qed
qed

lemma admission_replay_is_idempotent_witness:
  "\<exists>a L'. admit_action L' the_claims fingerprint_a (at_second 110) 60 3 =
     (Inr (a\<lparr>am_replayed := True\<rparr>), L') \<and> admissions L' \<noteq> []"
  using admission_replay_is_idempotent [OF admit_first [of "[]" "[]"]] by fastforce

subsection \<open>Publishing\<close>

text \<open>A granted publish had a prepared row with the same content hash, found the stop latch
  clear, and comes at least the given interval after every publish another job has dispatched.\<close>

lemma publish_grant_guarded:
  assumes "grants_publish L (Op_begin_publish jid h at i) jid"
  shows "\<exists>r t. at = Aware 0 t
    \<and> sql_lookup pu_job_id jid (publish_dispatches L) = Some r
    \<and> pg_state (pu_progress r) = Prepared \<and> pu_content_hash r = h
    \<and> \<not> gr_engaged (action_guard L)
    \<and> list_all (\<lambda>x. pu_job_id x = jid
        \<or> (case pg_dispatched_at (pu_progress x) of None \<Rightarrow> True | Some d \<Rightarrow> d + seconds i \<le> t))
        (publish_dispatches L)
    \<and> sql_lookup pu_job_id jid
        (publish_dispatches (ledger_step cd L (Op_begin_publish jid h at i))) =
        Some (move_publish (mark_dispatched t) r)"
proof -
  from assms obtain d L' where dispatch: "begin_publish_dispatch L jid h at i = Some (d, L')"
    and "\<not> pd_replayed d"
    by (auto simp: grants_publish_def split: option.splits)
  from dispatch show ?thesis
  proof (cases rule: begin_publish_dispatch_SomeD)
    case (replay r)
    with \<open>\<not> pd_replayed d\<close> show ?thesis by simp
  next
    case (grant r t)
    let ?xs = "List.map_filter (\<lambda>r. if pu_job_id r = jid then None
       else pg_dispatched_at (pu_progress r)) (publish_dispatches L)"
    have "d + seconds i \<le> t"
      if x: "x \<in> set (publish_dispatches L)" "pu_job_id x \<noteq> jid"
        "pg_dispatched_at (pu_progress x) = Some d" for x d
    proof -
      have mem: "d \<in> set ?xs" using x by (force simp: map_filter_def)
      then obtain m where "latest ?xs = Some m" by (cases "latest ?xs") auto
      with mem grant(8) [of m] show ?thesis
        by (auto simp: previous_publish_at_def latest_Some)
    qed
    with grant advance_publish_lookup [OF grant(9,2,3,4)] dispatch show ?thesis
      by (intro exI [of _ r] exI [of _ t]) (auto simp: committed_def list_all_iff split: option.split)
  qed
qed

definition job_hash :: str where
  "job_hash = replicate 64 CHR ''a''"

definition publish_ledger :: ledger where
  "publish_ledger = ledger_step sample_codec fresh_ledger
     (Op_prepare_publish the_job job_hash (at_second 50))"

lemma publish_ledger: "publish_ledger = fresh_ledger\<lparr>publish_dispatches :=
  [\<lparr>pu_job_id = the_job, pu_content_hash = job_hash, pu_progress = new_progress (seconds 50)\<rparr>]\<rparr>"
  by (simp add: publish_ledger_def prepare_publish_dispatch_def is_sha256_hex_def job_hash_def list_all_iff
      publish_permitted_def read_emergency_stop_def read_publish_dispatch_def progress_ok_def
      new_progress_def Let_def sample_defs)

theorem publish_grant_guarded_witness:
  "\<exists>r. sql_lookup pu_job_id the_job (publish_dispatches publish_ledger) = Some r
     \<and> pg_state (pu_progress r) = Prepared"
proof -
  have "grants_publish publish_ledger (Op_begin_publish the_job job_hash (at_second 60) 30) the_job"
    by (simp add: grants_publish_def begin_publish_dispatch_def publish_ledger is_sha256_hex_def
        list_all_iff job_hash_def publish_permitted_def read_emergency_stop_def read_publish_dispatch_def
        progress_ok_def new_progress_def seconds_def previous_publish_at_def map_filter_def
        advance_publish_def publish_at_def move_publish_def mark_dispatched_def Let_def sample_defs)
  from publish_grant_guarded [OF this] show ?thesis by blast
qed

end
