(* ===== verification/Command_Properties.thy ===== *)
theory Command_Properties
  imports Samples
begin

text \<open>
  Properties of the command side of the ledger: commands are received once and in sequence,
  redeliveries replay, conflicts are refused, checkpoints and session epochs only move forward.
\<close>

subsection \<open>Receiving\<close>

text \<open>In every reachable ledger the commands of an attempt are exactly the sequence
  \<open>1 .. last_command_sequence\<close> of its checkpoint, in order, without gap or repetition.\<close>

lemma reachable_commands_contiguous:
  "list_all (\<lambda>p. sequences_of (ck_attempt_id p) (commands (run cd (new_ledger inst exec) ops)) =
      [1..ck_last_command p]) (checkpoints (run cd (new_ledger inst exec) ops))
   \<and> cm_attempt_id ` set (commands (run cd (new_ledger inst exec) ops))
     \<subseteq> ck_attempt_id ` set (checkpoints (run cd (new_ledger inst exec) ops))"
  using run_inv [OF new_ledger_inv, of cd inst exec ops]
  by (simp add: inv_defs commands_contiguous_def)

lemma receive_command_replay:
  assumes "filter (\<lambda>r. cm_message_id r = message_id e \<or> cm_idempotency_key r = idempotency_key e)
      (commands L) = [r]"
    and "command_identity_ok L e" and "message_type e \<noteq> M_task_emergency_stop"
    and "cm_intent_sha256 r = command_intent_fingerprint cd e"
  shows "receive_command cd L e = Some (receipt_of_row r True, L)"
  using assms by (simp add: receive_command_def receive_command_at_def engage_if_def)

text \<open>After a command is first accepted, a redelivery of the same intent (a new message id and
  send time are allowed) returns the stored receipt as a replay and changes nothing.\<close>

lemma command_redelivery_replays:
  assumes "receive_command cd L e = Some (rc, L')" and "\<not> rc_replayed rc"
    and "intent_of e' = intent_of e"
    and "list_all (\<lambda>r. cm_message_id r \<noteq> message_id e') (commands L) \<or> message_id e' = message_id e"
  shows "receive_command cd L' e' = Some (rc\<lparr>rc_replayed := True\<rparr>, L')"
proof -
  let ?new = "command_row_of cd e"
  have same: "idempotency_key e' = idempotency_key e" "message_type e' = message_type e"
    "installation_id e' = installation_id e" "executor_id e' = executor_id e"
    using assms(3) by (cases e; cases e'; simp add: intent_of_def)+
  have fp: "command_intent_fingerprint cd e' = command_intent_fingerprint cd e"
    by (simp add: command_intent_fingerprint_def assms(3))
  from assms(1) [unfolded receive_command_def] show ?thesis
  proof (cases rule: receive_command_at_SomeD)
    case (fresh cks L1)
    have kind: "message_type e \<noteq> M_task_emergency_stop" using fresh(2) by simp
    have L': "commands L' = commands L @ [?new]" "own_installation_id L' = own_installation_id L"
      "own_executor_id L' = own_executor_id L"
      using fresh(5,6)
      by (auto simp: insert_command_def bind_eq_Some_conv engage_if_def sql_insert_Some split: if_splits)
    have ident: "command_identity_ok L' e'"
      using fresh(1) by (simp add: command_identity_ok_def same L')
    have "filter (\<lambda>r. cm_message_id r = message_id e' \<or> cm_idempotency_key r = idempotency_key e')
        (commands L') = [?new]"
      using fresh(3) assms(4) same(1)
      by (auto simp: L' filter_empty_conv command_row_of_def list_all_iff)
    from receive_command_replay [OF this ident] kind same(2) fp show ?thesis
      by (simp add: command_row_of_def receipt_of_row_def fresh(7))
  next
    case (known r)
    with assms(2) show ?thesis by (simp add: receipt_of_row_def)
  qed
qed

lemma command_redelivery_replays_witness:
  "\<exists>L' rc. receive_command sample_codec fresh_ledger offer = Some (rc, L')
     \<and> receive_command sample_codec L' (offer\<lparr>message_id := uuid CHR ''f'', sent_at := seconds 11\<rparr>) =
        Some (rc\<lparr>rc_replayed := True\<rparr>, L')"
  using command_redelivery_replays [OF receive_offer, of "offer\<lparr>message_id := uuid CHR ''f'', sent_at := seconds 11\<rparr>"]
  by (simp add: receive_offer) (simp add: receipt_of_row_def intent_of_def fresh_ledger_def new_ledger_def)

text \<open>
  A message that reuses the id or the idempotency key of a stored command with a different
  intent digest is refused.\<close>

lemma conflicting_command_refused:
  assumes "r \<in> set (commands L)"
    and "cm_message_id r = message_id e \<or> cm_idempotency_key r = idempotency_key e"
    and "cm_intent_sha256 r \<noteq> command_intent_fingerprint cd e"
  shows "receive_command_at cd L e at = None"
proof (cases "receive_command_at cd L e at")
  case None
  then show ?thesis .
next
  case (Some res)
  then obtain rc L' where run: "receive_command_at cd L e at = Some (rc, L')" by (cases res) auto
  let ?same = "\<lambda>r. cm_message_id r = message_id e \<or> cm_idempotency_key r = idempotency_key e"
  have mem: "r \<in> set (filter ?same (commands L))" using assms(1,2) by simp
  then obtain x xs where "filter ?same (commands L) = x # xs" by (cases "filter ?same (commands L)") auto
  moreover from this run mem have "xs = [] \<and> x = r"
    by (cases xs) (auto simp: receive_command_at_def Let_def split: if_splits)
  ultimately show ?thesis
    using run assms(3) by (simp add: receive_command_at_def Let_def split: if_splits)
qed

theorem conflicting_command_refused_witness:
  "receive_command_at sample_codec running_ledger (pause\<lparr>message_id := uuid CHR ''a''\<rparr>) None = None"
  by (rule conflicting_command_refused [of offer_row])
    (simp_all add: offer_row_def running_ledger sample_defs)

text \<open>What \<open>advance_checkpoint\<close> asks of a new command.\<close>

definition in_turn :: "ledger \<Rightarrow> envelope \<Rightarrow> bool" where
  "in_turn L e = (case sql_lookup ck_attempt_id (execution_attempt_id e) (checkpoints L) of
     None \<Rightarrow> sequence e = 1 \<and> message_type e \<notin> control_types \<union> {M_action_execute}
   | Some p \<Rightarrow> ck_task_id p = task_id e \<and> sequence e = ck_last_command p + 1
       \<and> (case required_control_states (message_type e) of
            None \<Rightarrow> True | Some S \<Rightarrow> ck_state p \<in> S))"

lemma valid_offer_baseline:
  assumes "valid_envelope e" and "message_type e = M_task_offer"
  shows "\<exists>n \<ge> 0. offer_baseline e = Some n"
  using assms
  by (auto simp: valid_envelope_def envelope_payload_ok_def task_command_payload_ok_def type_classes
      split: payload.splits option.splits)

lemma advance_checkpoint_iff:
  assumes "ledger_inv L" and "valid_envelope e"
  shows "advance_checkpoint L e \<noteq> None \<longleftrightarrow> in_turn L e"
proof (cases "sql_lookup ck_attempt_id (execution_attempt_id e) (checkpoints L)")
  case None
  then have "\<not> checkpoint_clash x p" if "x \<in> set (checkpoints L)" "ck_attempt_id p = execution_attempt_id e"
    for x p
    using that by (auto simp: checkpoint_clash_def sql_lookup_None image_iff)
  then show ?thesis
    using None valid_offer_baseline [OF assms(2)]
    by (auto simp: advance_checkpoint_def in_turn_def sql_insert_def list_all_iff checkpoint_ok_def
        split: option.splits)
next
  case (Some p)
  have "checkpoint_ok r" if "r \<in> set (checkpoints L)" for r
    using that assms(1) by (auto simp: inv_defs dest: sql_wf_row)
  then have "1 \<le> sequence e \<Longrightarrow> sql_update checkpoint_ok
      (\<lambda>r. ck_attempt_id r = execution_attempt_id e \<and> ck_revision r = ck_revision p)
      (\<lambda>r. r\<lparr>ck_last_command := sequence e, ck_revision := ck_revision r + 1\<rparr>) (checkpoints L) \<noteq> None"
    by (fastforce simp: sql_update_def list_all_iff checkpoint_ok_def)
  moreover have "1 \<le> sequence e" using assms(2) by (simp add: valid_envelope_def sequence_ok_def)
  ultimately show ?thesis
    using Some by (auto simp: advance_checkpoint_def in_turn_def split: option.splits)
qed

text \<open>C26. A valid command with fresh identifiers, other than an emergency stop, is accepted exactly
  when it is addressed to this executor and is the next of its attempt: the first command opens the
  attempt (never a control or an action), a later one carries the next sequence, and a control or
  an action finds the checkpoint in a state that allows it.\<close>

theorem fresh_command_accepted_iff:
  assumes "ledger_inv L" and "valid_envelope e" and "is_fingerprint (command_intent_fingerprint cd e)"
    and "list_all (\<lambda>r. cm_message_id r \<noteq> message_id e \<and> cm_idempotency_key r \<noteq> idempotency_key e)
      (commands L)"
  shows "receive_command cd L e \<noteq> None \<longleftrightarrow>
    command_identity_ok L e \<and> message_type e \<noteq> M_task_emergency_stop \<and> in_turn L e"
proof (cases "command_identity_ok L e \<and> message_type e \<noteq> M_task_emergency_stop")
  case False
  then show ?thesis by (auto simp: receive_command_def receive_command_at_def)
next
  case True
  have none: "filter (\<lambda>r. cm_message_id r = message_id e \<or> cm_idempotency_key r = idempotency_key e)
      (commands L) = []"
    using assms(4) by (auto simp: filter_empty_conv list_all_iff)
  have run: "receive_command cd L e = do {
      cks \<leftarrow> advance_checkpoint L e;
      L1 \<leftarrow> insert_command (L\<lparr>checkpoints := cks\<rparr>) (command_row_of cd e);
      Some (receipt_of_row (command_row_of cd e) False, L1) }"
    using True none by (simp add: receive_command_def receive_command_at_def engage_if_def)
  have "insert_command (L\<lparr>checkpoints := cks\<rparr>) (command_row_of cd e) \<noteq> None"
    if adv: "advance_checkpoint L e = Some cks" for cks
  proof -
    note ck = advance_checkpoint_sound [OF adv assms(1)]
    then have "execution_attempt_id e \<in> ck_attempt_id ` set cks" by blast
    then obtain p where p: "p \<in> set cks" "ck_attempt_id p = execution_attempt_id e" by force
    from ck have "\<forall>p \<in> set cks. ck_attempt_id p = execution_attempt_id e \<longrightarrow>
        ck_last_command p = sequence e
        \<and> sequences_of (ck_attempt_id p) (commands L) = [1..sequence e - 1]" by blast
    with p have old: "sequences_of (execution_attempt_id e) (commands L) = [1..sequence e - 1]"
      by auto
    have "\<not> command_clash x (command_row_of cd e)" if x: "x \<in> set (commands L)" for x
    proof
      assume "command_clash x (command_row_of cd e)"
      then have "cm_attempt_id x = execution_attempt_id e" "cm_sequence x = sequence e"
        using x assms(4) by (auto simp: command_clash_def command_row_of_def list_all_iff)
      with x have "sequence e \<in> set (sequences_of (execution_attempt_id e) (commands L))"
        by (force simp: sequences_of_def)
      then show False by (simp add: old)
    qed
    moreover have "command_ok (command_row_of cd e)"
      using assms(2,3) True
      by (simp add: command_ok_def command_row_of_def valid_envelope_def sequence_ok_def
          command_identity_ok_def)
    moreover have "cm_attempt_id (command_row_of cd e) \<in> ck_attempt_id ` set cks"
      using p by (force simp: command_row_of_def)
    ultimately show ?thesis by (simp add: insert_command_def sql_insert_def list_all_iff)
  qed
  note inserted = this
  have "receive_command cd L e \<noteq> None \<longleftrightarrow> advance_checkpoint L e \<noteq> None"
  proof (cases "advance_checkpoint L e")
    case None
    then show ?thesis by (simp add: run)
  next
    case (Some cks)
    with inserted [OF Some] show ?thesis unfolding run by auto
  qed
  with True advance_checkpoint_iff [OF assms(1,2)] show ?thesis by simp
qed

theorem fresh_command_accepted_iff_witness:
  "receive_command sample_codec running_ledger pause \<noteq> None \<longleftrightarrow>
    command_identity_ok running_ledger pause \<and> message_type pause \<noteq> M_task_emergency_stop
    \<and> in_turn running_ledger pause"
  by (rule fresh_command_accepted_iff [OF sample_ledgers_inv(1)])
    (simp_all add: running_ledger offer_row_def valid_envelope_def idempotency_key_ok_def alnum_def
      sequence_ok_def valid_instant_def max_instant_def seconds_def envelope_payload_ok_def payload_json_def
      max_executor_payload_depth_def max_executor_collection_items_def
      task_command_payload_ok_def sample_defs)

subsection \<open>Checkpoints and sessions over runs\<close>

text \<open>A checkpoint never moves backwards: in any run its attempt keeps its task, and its command
  sequence, event sequence and revision do not decrease.\<close>

lemma checkpoint_never_regresses:
  assumes "ledger_inv L" and "sql_lookup ck_attempt_id attempt (checkpoints L) = Some p"
  shows "\<exists>q. sql_lookup ck_attempt_id attempt (checkpoints (run cd L ops)) = Some q
    \<and> ck_task_id q = ck_task_id p \<and> ck_last_command p \<le> ck_last_command q
    \<and> ck_last_event p \<le> ck_last_event q \<and> ck_revision p \<le> ck_revision q
    \<and> (ck_revision q = ck_revision p \<longrightarrow> q = p)"
proof -
  have "table_le checkpoint_le (checkpoints L) (checkpoints (run cd L ops))"
    using run_evolves [OF assms(1)] by (simp add: evolves_def)
  with assms(2) checkpoint_rows.le_lookup obtain q where
    "sql_lookup ck_attempt_id attempt (checkpoints (run cd L ops)) = Some q" "checkpoint_le p q"
    by metis
  then show ?thesis by (auto simp: checkpoint_le_def)
qed

lemma checkpoint_never_regresses_witness:
  "\<exists>q. sql_lookup ck_attempt_id the_attempt
      (checkpoints (run sample_codec running_ledger [Op_receive pause])) = Some q
    \<and> 2 \<le> ck_revision q"
proof -
  have "sql_lookup ck_attempt_id the_attempt (checkpoints running_ledger) =
      Some \<lparr>ck_attempt_id = the_attempt, ck_task_id = the_task, ck_last_command = 1,
        ck_last_event = 5, ck_state = CK_running, ck_revision = 2\<rparr>"
    by (simp add: running_ledger sql_lookup_def)
  from checkpoint_never_regresses [OF sample_ledgers_inv(1) this, of sample_codec "[Op_receive pause]"]
  show ?thesis by auto
qed

text \<open>
  A platform session whose circuit is open can be closed again only by a new epoch: as long
  as a run keeps the session revision, the circuit stays open.\<close>

lemma open_circuit_needs_new_epoch:
  assumes "ledger_inv L" and "sql_lookup ss_platform platform (sessions L) = Some r"
    and "circuit_open r"
  shows "\<exists>q. sql_lookup ss_platform platform (sessions (run cd L ops)) = Some q
    \<and> ss_revision r \<le> ss_revision q \<and> ss_observed_at r \<le> ss_observed_at q
    \<and> (ss_revision q = ss_revision r \<longrightarrow> circuit_open q)"
proof -
  have "table_le session_le (sessions L) (sessions (run cd L ops))"
    using run_evolves [OF assms(1)] by (simp add: evolves_def)
  with assms(2) session_rows.le_lookup obtain q where
    "sql_lookup ss_platform platform (sessions (run cd L ops)) = Some q" "session_le r q"
    by metis
  with assms(3) show ?thesis by (auto simp: session_le_def)
qed

theorem open_circuit_needs_new_epoch_witness:
  "\<exists>q. sql_lookup ss_platform ''douyin'' (sessions (run sample_codec
      (run sample_codec fresh_ledger [Op_record_session ''douyin'' Expired (at_second 20) False])
      [Op_record_session ''douyin'' Healthy (at_second 30) False])) = Some q \<and> 1 \<le> ss_revision q"
proof -
  let ?L = "run sample_codec fresh_ledger [Op_record_session ''douyin'' Expired (at_second 20) False]"
  have L: "?L = fresh_ledger\<lparr>sessions := [\<lparr>ss_platform = ''douyin'', ss_state = Expired,
      ss_revision = 1, ss_observed_at = seconds 20\<rparr>]\<rparr>"
    by (simp add: record_platform_session_def require_platform_def astimezone_utc_def
        valid_instant_def max_instant_def seconds_def Let_def sample_defs)
  have "ledger_inv ?L" by (rule run_inv [OF fresh_ledger_wf])
  moreover have "sql_lookup ss_platform ''douyin'' (sessions ?L) = Some \<lparr>ss_platform = ''douyin'',
      ss_state = Expired, ss_revision = 1, ss_observed_at = seconds 20\<rparr>"
    by (simp add: L sql_lookup_def)
  ultimately show ?thesis
    using open_circuit_needs_new_epoch [of ?L "''douyin''" _ sample_codec
        "[Op_record_session ''douyin'' Healthy (at_second 30) False]"]
    by (fastforce simp: circuit_open_def)
qed

end
