(* ===== verification/Delivery_Scan.thy ===== *)
theory Delivery_Scan
  imports Outbox_Soundness
begin

text \<open>
  The paged scan of \<open>outbox_for_delivery\<close> against its specification: one pass over the outbox. The
  page size only has to be positive.
\<close>

definition scanned_row :: "bool \<Rightarrow> instant \<Rightarrow> int \<Rightarrow> outbox_row \<Rightarrow> outbox_row" where
  "scanned_row recover now n r =
     (if \<not> in_scan recover n r then r
      else if past_deadline now r then r\<lparr>ob_expired := True\<rparr>
      else set_delivered False r)"

definition replayed_entry :: "outbox_row \<Rightarrow> outbox_entry" where
  "replayed_entry r = \<lparr>oe_message = ob_envelope r, oe_source = ob_source r, oe_replayed = True\<rparr>"

definition outbound_row :: "outbox_row \<Rightarrow> bool" where
  "outbound_row r \<longleftrightarrow> message_type (ob_envelope r) \<in> outbound_types"

lemma read_all_outbound:
  "list_all outbound_row rows \<Longrightarrow>
   read_all (\<lambda>r. entry_of_row r True) rows = Some (map replayed_entry rows)"
  by (induction rows)
    (simp_all add: entry_of_row_def parse_outbound_def outbound_row_def replayed_entry_def)

lemma sorted_by_ordinal:
  "ordinals_increasing rows \<Longrightarrow> sort_key ob_ordinal (filter P rows) = filter P rows"
  unfolding ordinals_increasing_def
  by (rule sort_key_id_if_sorted)
    (metis filter_sort sort_key_id_if_sorted sorted_wrt_map strict_sorted_imp_sorted sorted_filter)

lemma delivery_page_filter:
  "ordinals_increasing rows \<Longrightarrow>
   delivery_page page recover n rows = take page (filter (in_scan recover n) rows)"
  by (simp add: delivery_page_def sorted_by_ordinal)

text \<open>Rows up to the last of a page, and rows behind it.\<close>

lemma increasing_filter:
  "ordinals_increasing rows \<Longrightarrow> ordinals_increasing (filter P rows)"
  unfolding ordinals_increasing_def by (induction rows) auto

lemma drop_page:
  assumes "ordinals_increasing rows" and "page \<le> length rows" and "0 < page"
    and l: "l = ob_ordinal (last (take page rows))"
  shows "drop page rows = filter (\<lambda>r. l < ob_ordinal r) rows
    \<and> take page rows = filter (\<lambda>r. \<not> l < ob_ordinal r) rows"
proof -
  let ?xs = "take page rows" and ?ys = "drop page rows"
  have rows: "rows = ?xs @ ?ys" by simp
  have "?xs \<noteq> []" using assms(2,3) by (cases rows) auto
  have inc: "sorted_wrt (<) (map ob_ordinal (?xs @ ?ys))"
    using assms(1) by (simp add: ordinals_increasing_def)
  have low: "ob_ordinal x \<le> l" if "x \<in> set ?xs" for x
  proof -
    obtain bs b where bs: "?xs = bs @ [b]" using \<open>?xs \<noteq> []\<close> by (metis rev_exhaust)
    have "sorted_wrt (<) (map ob_ordinal ?xs)"
      using inc by (simp only: map_append sorted_wrt_append)
    then show ?thesis using that unfolding l bs by (auto simp: sorted_wrt_append)
  qed
  have high: "l < ob_ordinal y" if "y \<in> set ?ys" for y
    using inc that last_in_set [OF \<open>?xs \<noteq> []\<close>] unfolding map_append sorted_wrt_append l by simp
  have "filter (\<lambda>r. l < ob_ordinal r) ?xs = []" "filter (\<lambda>r. l < ob_ordinal r) ?ys = ?ys"
    "filter (\<lambda>r. \<not> l < ob_ordinal r) ?xs = ?xs" "filter (\<lambda>r. \<not> l < ob_ordinal r) ?ys = []"
    using low high by (fastforce simp: filter_empty_conv filter_id_conv)+
  then have "filter (\<lambda>r. l < ob_ordinal r) (?xs @ ?ys) = ?ys"
    "filter (\<lambda>r. \<not> l < ob_ordinal r) (?xs @ ?ys) = ?xs"
    unfolding filter_append by simp_all
  then show ?thesis using rows by simp
qed

lemma page_row_scanned:
  assumes wf: "sql_wf outbox_ok outbox_clash rows" and r: "r \<in> set rows"
    and pg: "set pg = {x \<in> set rows. in_scan recover n x \<and> Q x}"
  shows "page_row recover now pg r = (if Q r then scanned_row recover now n r else r)"
proof -
  have key: "ob_message_id r \<in> ob_message_id ` {x \<in> set pg. P x} \<longleftrightarrow> r \<in> set pg \<and> P r" for P
  proof
    assume "ob_message_id r \<in> ob_message_id ` {x \<in> set pg. P x}"
    then obtain x where x: "x \<in> set pg" "P x" "ob_message_id x = ob_message_id r" by auto
    then have "x = r" using outbox_table.key_inj [OF wf, of x r] r pg by auto
    with x show "r \<in> set pg \<and> P r" by simp
  qed auto
  have exp: "ob_message_id r \<in> set (map ob_message_id (filter (past_deadline now) pg))
      \<longleftrightarrow> r \<in> set pg \<and> past_deadline now r"
    using key [of "past_deadline now"] by simp
  have rec: "ob_message_id r \<in> set (map ob_message_id
        (filter (\<lambda>x. \<not> past_deadline now x \<and> recover \<and> ob_delivered x) pg))
      \<longleftrightarrow> r \<in> set pg \<and> \<not> past_deadline now r \<and> recover \<and> ob_delivered r"
    using key [of "\<lambda>x. \<not> past_deadline now x \<and> recover \<and> ob_delivered x"] by simp
  have "set_delivered False r = r" if "\<not> ob_delivered r"
    using that by (cases r) (simp add: set_delivered_def)
  then show ?thesis
    using r unfolding page_row_def Let_def exp rec
    by (auto simp: scanned_row_def pg in_scan_def)
qed

lemma scanned_row_keys [simp]:
  "ob_ordinal (scanned_row recover now n r) = ob_ordinal r"
  "ob_message_id (scanned_row recover now n r) = ob_message_id r"
  "ob_idempotency_key (scanned_row recover now n r) = ob_idempotency_key r"
  "ob_envelope (scanned_row recover now n r) = ob_envelope r"
  "ob_intent_sha256 (scanned_row recover now n r) = ob_intent_sha256 r"
  by (simp_all add: scanned_row_def set_delivered_def)

lemma sql_wf_map_same:
  assumes "\<And>r. row_ok (g r) = row_ok r" and "\<And>a b. clash (g a) (g b) = clash a b"
  shows "sql_wf row_ok clash (map g rows) = sql_wf row_ok clash rows"
  by (simp add: sql_wf_def list.pred_map comp_def sorted_wrt_map assms)

lemma delivery_scan_single_pass:
  assumes "0 < page" and "0 \<le> n" and "sql_wf outbox_ok outbox_clash rows"
    and "ordinals_increasing rows" and "list_all outbound_row rows"
  shows "delivery_scan page recover now n rows =
    Some (map replayed_entry (filter (\<lambda>r. in_scan recover n r \<and> \<not> past_deadline now r) rows),
      map (scanned_row recover now n) rows)"
  using assms
proof (induction page recover now n rows rule: delivery_scan.induct)
  case (1 page recover now n rows)
  let ?F = "filter (in_scan recover n) rows"
  let ?pg = "delivery_page page recover n rows"
  let ?found = "map replayed_entry (filter (\<lambda>r. \<not> past_deadline now r) ?pg)"
  have pg: "?pg = take page ?F" by (rule delivery_page_filter) (rule 1)
  have F_out: "list_all outbound_row xs" if "set xs \<subseteq> set rows" for xs
    using 1(6) that by (auto simp: list_all_iff)
  have sub: "set ?pg \<subseteq> set rows" unfolding pg by (auto dest: in_set_takeD)
  have reads: "read_all (\<lambda>r. entry_of_row r True) ?pg = Some (map replayed_entry ?pg)"
    "read_all (\<lambda>r. entry_of_row r True) (filter (\<lambda>r. \<not> past_deadline now r) ?pg) = Some ?found"
    using sub by (auto intro!: read_all_outbound F_out)
  show ?case
  proof (cases "?pg = []")
    case True
    then have "?F = []" using pg 1(2) by simp
    then have none: "\<not> in_scan recover n r" if "r \<in> set rows" for r
      using that by (simp add: filter_empty_conv)
    then have "map (scanned_row recover now n) rows = rows"
      by (simp add: scanned_row_def map_idI)
    with True none show ?thesis by (subst delivery_scan.simps) (simp add: filter_empty_conv)
  next
    case False
    define l where "l = ob_ordinal (last ?pg)"
    have last_in: "last ?pg \<in> set rows" "in_scan recover n (last ?pg)"
      using last_in_set [OF False] sub pg by (auto dest: in_set_takeD)
    have l: "0 < l" "n < l" using last_in(2) 1(3) by (auto simp: l_def in_scan_def)
    show ?thesis
    proof (cases "length ?pg < page")
      case True
      then have all: "?pg = ?F" by (simp add: pg)
      have "update_page recover now ?pg rows = map (scanned_row recover now n) rows"
        unfolding update_page_rows
        using page_row_scanned [OF 1(4), of _ ?pg recover n "\<lambda>_. True"] by (simp add: all)
      moreover have "filter (\<lambda>r. \<not> past_deadline now r) ?pg =
          filter (\<lambda>r. in_scan recover n r \<and> \<not> past_deadline now r) rows"
        by (simp add: all conj_commute)
      ultimately show ?thesis
        using False True reads l(1) by (subst delivery_scan.simps) (simp add: l_def Let_def)
    next
      case full: False
      have le: "page \<le> length ?F" using full by (simp add: pg)
      note split = drop_page [OF increasing_filter [OF 1(5)] le 1(2) l_def [unfolded pg]]
      have setpg: "set ?pg = {x \<in> set rows. in_scan recover n x \<and> \<not> l < ob_ordinal x}"
        unfolding pg using split by auto
      let ?up = "update_page recover now ?pg rows"
      have up: "?up = map (\<lambda>r. if \<not> l < ob_ordinal r then scanned_row recover now n r else r) rows"
        unfolding update_page_rows
        using page_row_scanned [OF 1(4) _ setpg] by simp
      have wf: "sql_wf outbox_ok outbox_clash ?up"
        unfolding up by (subst sql_wf_map_same) (simp_all add: outbox_ok_def outbox_clash_def 1(4))
      have inc: "ordinals_increasing ?up"
        using 1(5) by (simp add: ordinals_increasing_def)
      have out: "list_all outbound_row ?up"
        using 1(6) by (auto simp: up list_all_iff outbound_row_def)
      have later: "delivery_scan page recover now l ?up =
          Some (map replayed_entry (filter (\<lambda>r. in_scan recover l r \<and> \<not> past_deadline now r) ?up),
            map (scanned_row recover now l) ?up)"
        using l(1) full wf inc out 1(2)
        by (intro "1.IH" [OF refl False reads refl l_def]) simp_all
      have behind: "filter (\<lambda>r. in_scan recover l r \<and> \<not> past_deadline now r) ?up =
          filter (\<lambda>r. in_scan recover l r \<and> \<not> past_deadline now r) rows"
        unfolding up by (induction rows) (auto simp: in_scan_def)
      have found: "filter (\<lambda>r. in_scan recover n r \<and> \<not> past_deadline now r) rows =
          filter (\<lambda>r. \<not> past_deadline now r) ?pg
          @ filter (\<lambda>r. in_scan recover l r \<and> \<not> past_deadline now r) rows"
      proof -
        have "filter (\<lambda>r. in_scan recover n r \<and> \<not> past_deadline now r) rows =
            filter (\<lambda>r. \<not> past_deadline now r) (take page ?F @ drop page ?F)"
          by (simp add: conj_commute)
        moreover have "filter (\<lambda>r. \<not> past_deadline now r) (drop page ?F) =
            filter (\<lambda>r. in_scan recover l r \<and> \<not> past_deadline now r) rows"
          using split l(2) by (auto simp: in_scan_def intro!: filter_cong)
        ultimately show ?thesis by (simp only: filter_append pg)
      qed
      have rows: "map (scanned_row recover now l) ?up = map (scanned_row recover now n) rows"
        using l(2) by (auto simp: up scanned_row_def in_scan_def set_delivered_def)
      show ?thesis
        using False full reads l(1) later
        by (subst delivery_scan.simps) (simp add: l_def [symmetric] Let_def behind rows found)
    qed
  qed
qed

end
