(* ===== verification/Outbox_Properties.thy ===== *)
theory Outbox_Properties
  imports Delivery_Scan Samples
begin

text \<open>
  Properties of the outbox: entries are kept and never altered, insertion respects the capacity,
  outcomes and controls are projected atomically and once, delivery is one ordered pass, and what
  the pending list offers can be completed.
\<close>

subsection \<open>Storage\<close>

text \<open>Every outbox entry survives any run with its message, ordinal, digest and source unchanged;
  only the delivery flag may change, and expiry is permanent.\<close>

lemma outbox_entry_is_permanent:
  assumes "ledger_inv L" and "sql_lookup ob_message_id mid (outbox L) = Some r"
  shows "\<exists>q. sql_lookup ob_message_id mid (outbox (run cd L ops)) = Some q
    \<and> ob_envelope q = ob_envelope r \<and> ob_ordinal q = ob_ordinal r
    \<and> ob_intent_sha256 q = ob_intent_sha256 r \<and> ob_source q = ob_source r
    \<and> (ob_expired r \<longrightarrow> ob_expired q)"
proof -
  have "table_le outbox_le (outbox L) (outbox (run cd L ops))"
    using run_evolves [OF assms(1)] by (simp add: evolves_def)
  with assms(2) outbox_rows.le_lookup obtain q where
    q: "sql_lookup ob_message_id mid (outbox (run cd L ops)) = Some q" "outbox_le r q" by metis
  then have "ob_envelope q = ob_envelope r \<and> ob_ordinal q = ob_ordinal r
    \<and> ob_intent_sha256 q = ob_intent_sha256 r \<and> ob_source q = ob_source r
    \<and> (ob_expired r \<longrightarrow> ob_expired q)"
    by (cases r; cases q) (simp add: outbox_le_def)
  with q(1) show ?thesis by blast
qed

lemma outbox_entry_is_permanent_witness:
  "\<exists>q. sql_lookup ob_message_id (uuid CHR ''b'') (outbox (run sample_codec running_ledger
      [Op_mark_delivered (uuid CHR ''b''), Op_deliver (at_second 1000) True])) = Some q
    \<and> ob_ordinal q = 1"
proof -
  have "sql_lookup ob_message_id (uuid CHR ''b'') (outbox running_ledger) =
      Some (outbox_row_of sample_codec accept (uuid CHR ''a'') 1)"
    by (simp add: running_ledger sample_defs)
  from outbox_entry_is_permanent [OF sample_ledgers_inv(1) this, of sample_codec
      "[Op_mark_delivered (uuid CHR ''b''), Op_deliver (at_second 1000) True]"]
  show ?thesis by (auto simp: outbox_row_of_def)
qed

definition within_capacity :: "codec \<Rightarrow> outbox_row list \<Rightarrow> bool" where
  "within_capacity cd rows \<longleftrightarrow> length (pending_rows rows) \<le> max_pending_outbox_entries
     \<and> pending_bytes cd rows \<le> max_pending_outbox_bytes"

text \<open>The operations that add messages.\<close>

definition adds_messages :: "ledger_op \<Rightarrow> bool" where
  "adds_messages op = (case op of
     Op_enqueue _ _ \<Rightarrow> True | Op_commit_outcome _ _ _ _ _ \<Rightarrow> True
   | Op_complete_control _ _ _ \<Rightarrow> True | Op_commit_recovery _ _ _ \<Rightarrow> True | _ \<Rightarrow> False)"

lemma capacity_insert:
  assumes "insert_outbox cd L e source n = Some L'" and "outbox_capacity_ok cd (outbox L) [e]"
  shows "within_capacity cd (outbox L')"
  using insert_outbox_SomeD [OF assms(1)] assms(2)
  by (simp add: within_capacity_def outbox_capacity_ok_def pending_rows_def pending_bytes_def
      outbox_row_of_def)

lemma capacity_insert_all:
  "insert_outbox_all cd L source n es = Some L' \<Longrightarrow>
   outbox_capacity_ok cd (outbox L) es \<Longrightarrow> within_capacity cd (outbox L')"
proof (induction es arbitrary: L n)
  case Nil
  then show ?case by (simp add: within_capacity_def outbox_capacity_ok_def)
next
  case (Cons e es)
  then obtain L1 where L1: "insert_outbox cd L e source n = Some L1"
    and rest: "insert_outbox_all cd L1 source (n + 1) es = Some L'"
    by (auto simp: bind_eq_Some_conv)
  have "outbox_capacity_ok cd (outbox L1) es"
    using insert_outbox_SomeD [OF L1] Cons.prems(2)
    by (simp add: outbox_capacity_ok_def pending_rows_def pending_bytes_def outbox_row_of_def)
  with Cons.IH [OF rest] show ?case .
qed

text \<open>An operation that adds messages either leaves the outbox as it was or leaves at most
  1000 pending entries of together at most 16 MiB.\<close>

lemma insertion_respects_capacity:
  assumes "adds_messages op" and "outbox (ledger_step cd L op) \<noteq> outbox L"
  shows "within_capacity cd (outbox (ledger_step cd L op))"
proof (cases op)
  case (Op_enqueue src e)
  with assms(2) obtain x L' where run: "enqueue_outbox cd L src e = Some (x, L')" "outbox L' \<noteq> outbox L"
    by (auto simp: committed_def split: option.splits)
  then have "insert_outbox cd L e src (next_ordinal (outbox L)) = Some L'
      \<and> outbox_capacity_ok cd (outbox L) [e]"
    by (auto simp: enqueue_outbox_def bind_eq_Some_conv canonical_uuid_v4_Some split: op_splits)
  with capacity_insert Op_enqueue run show ?thesis by (auto simp: committed_def)
next
  case (Op_commit_outcome src n s k es)
  with assms(2) obtain x L' where run: "commit_outcome cd L src n s k es = Some (x, L')"
    by (auto simp: committed_def split: option.splits)
  then obtain cks where "insert_outbox_all cd (L\<lparr>checkpoints := cks\<rparr>) src (next_ordinal (outbox L)) es
      = Some L'" "outbox_capacity_ok cd (outbox L) es"
    by (rule commit_outcome_SomeD) metis
  with capacity_insert_all [of cd "L\<lparr>checkpoints := cks\<rparr>"] Op_commit_outcome run
  show ?thesis by (simp add: committed_def)
next
  case (Op_complete_control src n e)
  with assms(2) obtain x L' where run: "complete_task_control cd L src n e = Some (x, L')"
    and new: "outbox L' \<noteq> outbox L"
    by (auto simp: committed_def split: option.splits)
  from run have "within_capacity cd (outbox L')"
  proof (cases rule: complete_task_control_cases)
    case (projected c p cks)
    then show ?thesis using capacity_insert [OF projected(13)] by simp
  qed (use new in simp)
  with Op_complete_control run show ?thesis by (simp add: committed_def)
next
  case (Op_commit_recovery a n e)
  with assms(2) obtain x L' where run: "commit_side_effect_recovery cd L a n e = Some (x, L')"
    and new: "outbox L' \<noteq> outbox L"
    by (auto simp: committed_def split: option.splits)
  from run have "within_capacity cd (outbox L')"
  proof (cases rule: commit_side_effect_recovery_cases)
    case (projected s a p c cks)
    then show ?thesis using capacity_insert [OF projected(13)] by simp
  qed (use new in simp)
  with Op_commit_recovery run show ?thesis by (simp add: committed_def)
qed (use assms(1) in \<open>simp_all add: adds_messages_def\<close>)

lemma insertion_respects_capacity_witness:
  "within_capacity sample_codec (outbox (ledger_step sample_codec running_ledger
     (Op_enqueue (uuid CHR ''a'') (message CHR ''c'' M_step_progress 6 (P_object []) \<lparr>
        message_id := uuid CHR ''d'', idempotency_key := ''key:d''\<rparr>))))"
  by (rule insertion_respects_capacity)
    (simp_all add: adds_messages_def enqueue_outbox_def insert_outbox_def running_ledger
      offer_row_def sample_defs)

subsection \<open>Delivery\<close>

text \<open>C28. \<open>outbox_for_delivery\<close>, whose loop reads pages of 1000 rows and rewrites flags between the
  pages, always returns, and is one pass over the outbox: the messages not expired, not delivered
  (unless recovering) and before their deadline, in ordinal order; it marks exactly the late ones
  expired and the recovered ones undelivered.\<close>

theorem delivery_is_single_pass:
  assumes "ledger_inv L" and "list_all outbound_row (outbox L)"
  shows "outbox_for_delivery L (Aware 0 now) recover =
    Some (map replayed_entry
        (filter (\<lambda>r. in_scan recover 0 r \<and> \<not> past_deadline now r) (outbox L)),
      L\<lparr>outbox := map (scanned_row recover now 0) (outbox L)\<rparr>)"
  using assms
  by (simp add: outbox_for_delivery_def delivery_scan_single_pass max_outbox_batch_def inv_defs)

theorem delivery_is_single_pass_witness:
  "\<exists>rows. outbox_for_delivery running_ledger (Aware 0 (seconds 20)) False =
     Some ([replayed_entry (outbox_row_of sample_codec accept (uuid CHR ''a'') 1),
            replayed_entry (outbox_row_of sample_codec started (uuid CHR ''a'') 2)],
       running_ledger\<lparr>outbox := rows\<rparr>)"
proof -
  have "list_all outbound_row (outbox running_ledger)"
    by (simp add: running_ledger outbound_row_def sample_defs)
  from delivery_is_single_pass [OF sample_ledgers_inv(1) this, of "seconds 20" False]
  show ?thesis
    by (simp add: running_ledger in_scan_def past_deadline_def sample_defs seconds_def)
qed

text \<open>
  An acknowledgement marks exactly the named message delivered, reports whether it was new,
  and is idempotent.\<close>

lemma acknowledgement_is_idempotent:
  assumes "ledger_inv L" and "is_canonical_uuid_v4 mid"
    and "sql_lookup ob_message_id mid (outbox L) = Some r"
  shows "\<exists>L'. mark_outbox_delivered L mid = Some (\<not> ob_delivered r, L')
    \<and> outbox L' = map (\<lambda>x. if x = r then set_delivered True r else x) (outbox L)
    \<and> mark_outbox_delivered L' mid = Some (False, L')"
proof -
  let ?P = "\<lambda>x. ob_message_id x = mid \<and> \<not> ob_delivered x"
  have wf: "sql_wf outbox_ok outbox_clash (outbox L)" using assms(1) by (simp add: inv_defs)
  have r: "r \<in> set (outbox L)" "ob_message_id r = mid" using sql_lookup_SomeD [OF assms(3)] by auto
  have uniq: "x \<in> set (outbox L) \<Longrightarrow> ob_message_id x = mid \<longleftrightarrow> x = r" for x
    using outbox_table.key_inj [OF wf, of x r] r by auto
  have count: "sql_rowcount ?P (outbox L) = (if ob_delivered r then 0 else 1)"
    using outbox_table.rowcount_at_key [OF wf, of mid "\<lambda>x. \<not> ob_delivered x"] assms(3) by simp
  have same: "set_delivered True r = r" if "ob_delivered r"
    using that by (cases r) (simp add: set_delivered_def)
  show ?thesis
  proof (cases "ob_delivered r")
    case True
    have "map (\<lambda>x. if x = r then set_delivered True r else x) (outbox L) = outbox L"
      using same [OF True] by (simp add: map_idI)
    with True count assms(2,3) show ?thesis
      by (simp add: mark_outbox_delivered_def canonical_uuid_v4_def Let_def)
  next
    case False
    let ?rows = "map (\<lambda>x. if ?P x then set_delivered True x else x) (outbox L)"
    have rows: "?rows = map (\<lambda>x. if x = r then set_delivered True r else x) (outbox L)"
      using False uniq by auto
    have "sql_rowcount ?P ?rows = 0"
      by (auto simp: sql_rowcount_def filter_empty_conv set_delivered_def)
    moreover have "sql_lookup ob_message_id mid ?rows = Some (set_delivered True r)"
      using False assms(3) r(2) by (subst sql_lookup_mapped) (simp_all add: set_delivered_def)
    ultimately have again: "mark_outbox_delivered (L\<lparr>outbox := ?rows\<rparr>) mid =
        Some (False, L\<lparr>outbox := ?rows\<rparr>)"
      using assms(2)
      by (simp add: mark_outbox_delivered_def canonical_uuid_v4_def Let_def set_delivered_def)
    have "mark_outbox_delivered L mid = Some (True, L\<lparr>outbox := ?rows\<rparr>)"
      using False count assms(2) by (simp add: mark_outbox_delivered_def canonical_uuid_v4_def Let_def)
    then have first: "mark_outbox_delivered L mid = Some (\<not> ob_delivered r, L\<lparr>outbox := ?rows\<rparr>)"
      using False by simp
    have "outbox (L\<lparr>outbox := ?rows\<rparr>) = ?rows" by simp
    with first again show ?thesis unfolding rows by blast
  qed
qed

theorem acknowledgement_is_idempotent_witness:
  "\<exists>L'. mark_outbox_delivered running_ledger (uuid CHR ''b'') = Some (True, L')
    \<and> mark_outbox_delivered L' (uuid CHR ''b'') = Some (False, L')"
proof -
  have look: "sql_lookup ob_message_id (uuid CHR ''b'') (outbox running_ledger) =
      Some (outbox_row_of sample_codec accept (uuid CHR ''a'') 1)"
    by (simp add: running_ledger sample_defs)
  have "is_canonical_uuid_v4 (uuid CHR ''b'')" by (simp add: hex_digit_def)
  from acknowledgement_is_idempotent [OF sample_ledgers_inv(1) this look] show ?thesis
    by (auto simp: outbox_row_of_def)
qed

end
