(* ===== verification/Outcome_Properties.thy ===== *)
theory Outcome_Properties
  imports Outbox_Properties
begin

text \<open>
  Properties of the operations that project a result: the outcome of a command, the completion of a
  cooperative control and the recovery of a side effect.
\<close>

subsection \<open>Outcomes\<close>

text \<open>The rows a list of messages becomes.\<close>

fun appended_rows :: "codec \<Rightarrow> str \<Rightarrow> int \<Rightarrow> envelope list \<Rightarrow> outbox_row list" where
  "appended_rows cd source n [] = []"
| "appended_rows cd source n (e # es) =
     outbox_row_of cd e source n # appended_rows cd source (n + 1) es"

lemma insert_outbox_all_SomeD:
  "insert_outbox_all cd L source n es = Some L' \<Longrightarrow>
   L' = L\<lparr>outbox := outbox L @ appended_rows cd source n es\<rparr>"
proof (induction es arbitrary: L n)
  case Nil
  then show ?case by simp
next
  case (Cons e es)
  then obtain L1 where L1: "insert_outbox cd L e source n = Some L1"
    and rest: "insert_outbox_all cd L1 source (n + 1) es = Some L'"
    by (auto simp: bind_eq_Some_conv)
  from L1 have "L1 = L\<lparr>outbox := outbox L @ [outbox_row_of cd e source n]\<rparr>"
    by (auto simp: insert_outbox_def bind_eq_Some_conv sql_insert_Some split: if_splits)
  with Cons.IH [OF rest] show ?case by simp
qed

lemma insert_outbox_eq:
  "insert_outbox cd L e source n = Some L' \<Longrightarrow>
   L' = L\<lparr>outbox := outbox L @ [outbox_row_of cd e source n]\<rparr>"
  by (auto simp: insert_outbox_def bind_eq_Some_conv sql_insert_Some split: if_splits)

lemma appended_rows_source: "r \<in> set (appended_rows cd source n es) \<Longrightarrow> ob_source r = source"
  by (induction cd source n es rule: appended_rows.induct) (auto simp: outbox_row_of_def)

lemma appended_rows_Nil [simp]: "appended_rows cd source n es = [] \<longleftrightarrow> es = []"
  by (cases es) auto

text \<open>The one checkpoint row that a revision-guarded update changes.\<close>

lemma update_one_checkpoint:
  assumes "ledger_wf L" and "p \<in> set (checkpoints L)"
    and "sql_update checkpoint_ok P f (checkpoints L) = Some cks"
    and "P p" and "\<And>r. P r \<Longrightarrow> ck_attempt_id r = ck_attempt_id p"
  shows "cks = map (\<lambda>r. if r = p then f p else r) (checkpoints L)"
proof -
  have "P r \<longleftrightarrow> r = p" if "r \<in> set (checkpoints L)" for r
    using checkpoint_table.key_inj [of "checkpoints L" r p] assms(1,2,4) assms(5) [of r] that
    by (auto simp: ledger_wf_def)
  with assms(3) show ?thesis by (auto simp: sql_update_Some)
qed

text \<open>A row of the outbox keeps its source: what answers a command answers it in every later ledger.\<close>

lemma outbox_source_later:
  assumes "ledger_inv L" "r \<in> set (outbox L)"
  shows "\<exists>r' \<in> set (outbox (run cd L ops)). ob_source r' = ob_source r"
proof -
  have "table_le outbox_le (outbox L) (outbox (run cd L ops))"
    using run_evolves [OF assms(1)] by (simp add: evolves_def)
  then have "list_all2 outbox_le (outbox L) (take (length (outbox L)) (outbox (run cd L ops)))" by (simp add: table_le_def)
  with assms(2) obtain r' where "r' \<in> set (outbox (run cd L ops))" "outbox_le r r'"
    by (metis in_set_conv_nth in_set_takeD list_all2_lengthD list_all2_nthD)
  moreover from this(2) have "ob_source r' = ob_source r" by (cases r; cases r') (simp add: outbox_le_def)
  ultimately show ?thesis by blast
qed

lemma answered_refuses_outcome:
  "r \<in> set (outbox L) \<Longrightarrow> ob_source r = source \<Longrightarrow> commit_outcome cd L source n s event messages = None"
  by (auto simp: not_Some_eq [symmetric] elim!: commit_outcome_SomeD)

lemma commit_outcome_keeps_inv:
  "ledger_inv L \<Longrightarrow> commit_outcome cd L source n s event messages = Some (entries, L') \<Longrightarrow> ledger_inv L'"
  using step_inv [of L cd "Op_commit_outcome source n s event messages"] by (simp add: committed_def)

text \<open>C25. A committed outcome changes one checkpoint (state, event sequence, next revision) and
  appends all its messages with consecutive ordinals, and nothing else. From then on no outcome of the
  same command is accepted: not in the ledger it leaves and not after any history of further ledger
  operations, whatever its revision, state, event number and messages.\<close>

theorem outcome_is_atomic_and_single:
  assumes "ledger_inv L" and "commit_outcome cd L source n s event messages = Some (entries, L')"
  shows "(\<exists>p. p \<in> set (checkpoints L) \<and> ck_revision p = n \<and> ck_last_event p \<le> event
    \<and> L' = L\<lparr>checkpoints := map (\<lambda>r. if r = p
          then p\<lparr>ck_state := s, ck_last_event := event, ck_revision := n + 1\<rparr> else r) (checkpoints L),
        outbox := outbox L @ appended_rows cd source (next_ordinal (outbox L)) messages\<rparr>
    \<and> map oe_message entries = messages)
    \<and> commit_outcome cd (run cd L' ops) source n' s' event' messages' = None"
  using assms(2)
proof (rule commit_outcome_SomeD)
  fix c p cks
  assume c: "sql_lookup cm_message_id source (commands L) = Some c"
    and p: "p \<in> set (checkpoints L)" "ck_attempt_id p = cm_attempt_id c" "ck_revision p = n"
      "ck_last_event p \<le> event"
    and up: "sql_update checkpoint_ok (\<lambda>r. ck_attempt_id r = cm_attempt_id c \<and> ck_revision r = n)
       (\<lambda>r. r\<lparr>ck_state := s, ck_last_event := event, ck_revision := ck_revision r + 1\<rparr>)
       (checkpoints L) = Some cks"
    and ins: "insert_outbox_all cd (L\<lparr>checkpoints := cks\<rparr>) source (next_ordinal (outbox L)) messages
      = Some L'"
    and entries: "entries = map (\<lambda>e. \<lparr>oe_message = e, oe_source = source, oe_replayed = False\<rparr>) messages"
  have cks: "cks = map (\<lambda>r. if r = p
      then p\<lparr>ck_state := s, ck_last_event := event, ck_revision := n + 1\<rparr> else r) (checkpoints L)"
    using update_one_checkpoint [OF _ p(1) up] assms(1) p(2,3) by (simp add: inv_defs)
  have L': "L' = L\<lparr>checkpoints := cks,
      outbox := outbox L @ appended_rows cd source (next_ordinal (outbox L)) messages\<rparr>"
    using insert_outbox_all_SomeD [OF ins] by simp
  have "messages \<noteq> []"
    using assms(2) by (auto simp: commit_outcome_def bind_eq_Some_conv split: if_splits)
  then obtain r where "r \<in> set (outbox L')" "ob_source r = source"
    using appended_rows_source by (fastforce simp: L' neq_Nil_conv outbox_row_of_def)
  then obtain r' where "r' \<in> set (outbox (run cd L' ops))" "ob_source r' = source"
    using outbox_source_later [OF commit_outcome_keeps_inv [OF assms]] by metis
  then have "commit_outcome cd (run cd L' ops) source n' s' event' messages' = None"
    by (rule answered_refuses_outcome)
  moreover have "map oe_message entries = messages" by (simp add: entries comp_def)
  ultimately show ?thesis using p L' by (auto simp: cks)
qed

theorem outcome_is_atomic_and_single_witness:
  "\<exists>L entries. commit_outcome sample_codec L (uuid CHR ''a'') 1 CK_running 5 [accept, started] = Some (entries, running_ledger)
     \<and> map oe_message entries = [accept, started] \<and> length (outbox running_ledger) = 2
     \<and> length (commands (run sample_codec running_ledger [Op_receive action_execute])) = 2
     \<and> commit_outcome sample_codec (run sample_codec running_ledger [Op_receive action_execute]) (uuid CHR ''a'') 2 CK_terminal 6 [started] = None"
proof -
  let ?L = "ledger_step sample_codec fresh_ledger (Op_receive offer)"
  have inv: "ledger_inv ?L" by (rule step_inv [OF fresh_ledger_wf])
  have run: "commit_outcome sample_codec ?L (uuid CHR ''a'') 1 CK_running 5 [accept, started] =
      Some (map (\<lambda>e. \<lparr>oe_message = e, oe_source = uuid CHR ''a'', oe_replayed = False\<rparr>) [accept, started],
        running_ledger)"
    unfolding receive_offer_step running_ledger
    by (simp add: commit_outcome_def insert_outbox_def offer_row_def sample_defs)
  have "length (commands (run sample_codec running_ledger [Op_receive action_execute])) = 2"
    using receive_action by (simp add: run_def del: ledger_step.simps)
  moreover have "length (outbox running_ledger) = 2" by (simp add: running_ledger)
  moreover note outcome_is_atomic_and_single [OF inv run, of "[Op_receive action_execute]" 2 CK_terminal 6 "[started]"]
  ultimately show ?thesis using run by (intro exI conjI) (auto simp: comp_def)
qed

subsection \<open>Controls\<close>

text \<open>A call of \<open>complete_task_control\<close> that is not a replay either waits, without a change, for
  a dispatched effect of a paused or cancelled attempt, or moves exactly the checkpoint of the
  command to the target of its type and appends the event: running to paused, paused to running,
  cancel to terminal, and to outcome-uncertain when an effect of the attempt is uncertain or the
  command is an emergency stop.\<close>

lemma control_completion_exact:
  assumes "ledger_inv L" and "complete_task_control cd L source n event = Some (res, L')"
    and "case res of None \<Rightarrow> True | Some x \<Rightarrow> \<not> oe_replayed x"
  shows "\<exists>c p. sql_lookup cm_message_id source (commands L) = Some c
    \<and> sql_lookup ck_attempt_id (cm_attempt_id c) (checkpoints L) = Some p
    \<and> ck_revision p = n \<and> cm_sequence c = ck_last_command p
    \<and> (if res = None
       then L' = L \<and> cm_message_type c \<in> {M_task_pause, M_task_cancel}
         \<and> attempt_has_effect L (cm_attempt_id c) Dispatched
       else (cm_message_type c \<in> {M_task_pause, M_task_cancel} \<longrightarrow>
           \<not> attempt_has_effect L (cm_attempt_id c) Dispatched)
         \<and> (case cm_message_type c of
             M_task_pause \<Rightarrow> ck_state p = CK_running
               \<and> control_target L c = (CK_paused, M_task_paused)
           | M_task_resume \<Rightarrow> ck_state p = CK_paused
               \<and> control_target L c = (CK_running, M_task_resumed)
           | M_task_cancel \<Rightarrow> ck_state p \<in> {CK_running, CK_paused}
               \<and> control_target L c =
                   (if attempt_has_effect L (cm_attempt_id c) Uncertain
                    then (CK_outcome_uncertain, M_task_outcome_uncertain)
                    else (CK_terminal, M_task_cancelled))
           | M_task_emergency_stop \<Rightarrow> ck_state p \<in> {CK_running, CK_paused}
               \<and> control_target L c = (CK_outcome_uncertain, M_task_outcome_uncertain)
           | _ \<Rightarrow> False)
         \<and> message_type event = snd (control_target L c)
         \<and> sequence event = ck_last_event p + 1
         \<and> L' = L\<lparr>checkpoints := map (\<lambda>r. if r = p
               then p\<lparr>ck_state := fst (control_target L c), ck_last_event := ck_last_event p + 1,
                 ck_revision := n + 1\<rparr> else r) (checkpoints L),
             outbox := outbox L @ [outbox_row_of cd event source (next_ordinal (outbox L))]\<rparr>)"
proof (cases "L' = L")
  case True
  from assms(2) obtain c p where
    c: "sql_lookup cm_message_id source (commands L) = Some c" and
    p: "sql_lookup ck_attempt_id (cm_attempt_id c) (checkpoints L) = Some p"
    by (auto simp: complete_task_control_def bind_eq_Some_conv canonical_uuid_v4_Some split: if_splits)
  have grows: "insert_outbox cd (L\<lparr>checkpoints := cks\<rparr>) event source k \<noteq> Some L" for cks k
    by (auto dest!: insert_outbox_eq) (metis append_self_conv ledger.select_convs(10)
        ledger.surjective ledger.update_convs(10) not_Cons_self2)
  have "res = None \<and> ck_revision p = n \<and> cm_sequence c = ck_last_command p
      \<and> cm_message_type c \<in> {M_task_pause, M_task_cancel}
      \<and> attempt_has_effect L (cm_attempt_id c) Dispatched"
    using assms(2,3) c p True grows
    by (auto simp: complete_task_control_def bind_eq_Some_conv canonical_uuid_v4_Some Let_def
        split: op_splits)
  with c p True show ?thesis by auto
next
  case False
  from assms(2) show ?thesis
  proof (cases rule: complete_task_control_cases)
    case same
    with False show ?thesis by simp
  next
    case (projected c p cks)
    have mem: "p \<in> set (checkpoints L)" and att: "ck_attempt_id p = cm_attempt_id c"
      using sql_lookup_SomeD [OF projected(2)] by auto
    have cks: "cks = map (\<lambda>r. if r = p
        then p\<lparr>ck_state := fst (control_target L c), ck_last_event := sequence event,
          ck_revision := ck_revision p + 1\<rparr> else r) (checkpoints L)"
      using update_one_checkpoint [OF _ mem projected(12)] assms(1) att projected(5,6)
      by (simp add: inv_defs)
    have L': "L' = L\<lparr>checkpoints := cks,
        outbox := outbox L @ [outbox_row_of cd event source (next_ordinal (outbox L))]\<rparr>"
      using insert_outbox_eq [OF projected(13)] by simp
    have "case cm_message_type c of
             M_task_pause \<Rightarrow> ck_state p = CK_running
               \<and> control_target L c = (CK_paused, M_task_paused)
           | M_task_resume \<Rightarrow> ck_state p = CK_paused
               \<and> control_target L c = (CK_running, M_task_resumed)
           | M_task_cancel \<Rightarrow> ck_state p \<in> {CK_running, CK_paused}
               \<and> control_target L c =
                   (if attempt_has_effect L (cm_attempt_id c) Uncertain
                    then (CK_outcome_uncertain, M_task_outcome_uncertain)
                    else (CK_terminal, M_task_cancelled))
           | M_task_emergency_stop \<Rightarrow> ck_state p \<in> {CK_running, CK_paused}
               \<and> control_target L c = (CK_outcome_uncertain, M_task_outcome_uncertain)
           | _ \<Rightarrow> False"
      using projected(3,4)
      by (auto simp: control_types_def control_checkpoint_states_def control_target_def)
    with projected L' cks show ?thesis by (intro exI [of _ c] exI [of _ p]) simp
  qed
qed

text \<open>A pause that has been received and acknowledged.\<close>

definition pause_row :: command_row where
  "pause_row = command_row_of sample_codec pause"

definition pause_checkpoint :: checkpoint_row where
  "pause_checkpoint = \<lparr>ck_attempt_id = the_attempt, ck_task_id = the_task,
     ck_last_command = 2, ck_last_event = 5, ck_state = CK_running, ck_revision = 3\<rparr>"

definition pausing_ledger :: ledger where
  "pausing_ledger = run sample_codec running_ledger
     [Op_receive pause, Op_enqueue (uuid CHR ''d'') pause_ack]"

lemma pausing_ledger:
  "pausing_ledger = running_ledger\<lparr>checkpoints := [pause_checkpoint],
     commands := [offer_row, pause_row],
     outbox := [outbox_row_of sample_codec accept (uuid CHR ''a'') 1,
       outbox_row_of sample_codec started (uuid CHR ''a'') 2,
       outbox_row_of sample_codec pause_ack (uuid CHR ''d'') 3]\<rparr>"
  unfolding pausing_ledger_def running_ledger
  by (simp add: receive_command_def receive_command_at_def advance_checkpoint_def
      insert_command_def engage_if_def enqueue_outbox_def insert_outbox_def offer_row_def pause_row_def
      pause_checkpoint_def sample_defs)

lemma pausing_ledger_inv: "ledger_inv pausing_ledger"
  unfolding pausing_ledger_def by (rule run_inv [OF sample_ledgers_inv(1)])

definition paused_ledger :: ledger where
  "paused_ledger = pausing_ledger\<lparr>
     checkpoints := [pause_checkpoint\<lparr>ck_state := CK_paused, ck_last_event := 6, ck_revision := 4\<rparr>],
     outbox := outbox pausing_ledger @ [outbox_row_of sample_codec paused_event (uuid CHR ''d'') 4]\<rparr>"

lemma complete_pause:
  "complete_task_control sample_codec pausing_ledger (uuid CHR ''d'') 3 paused_event =
     Some (Some \<lparr>oe_message = paused_event, oe_source = uuid CHR ''d'', oe_replayed = False\<rparr>,
       paused_ledger)"
  by (simp add: complete_task_control_def paused_ledger_def pausing_ledger running_ledger pause_row_def
      offer_row_def pause_checkpoint_def has_outbox_of_def control_projection_types_def
      control_checkpoint_states_def control_target_def attempt_has_effect_def insert_outbox_def
      Let_def sample_defs)

lemma control_completion_exact_witness:
  "\<exists>c. sql_lookup cm_message_id (uuid CHR ''d'') (commands pausing_ledger) = Some c
     \<and> message_type paused_event = snd (control_target pausing_ledger c)"
  using control_completion_exact [OF pausing_ledger_inv complete_pause] by auto

lemma sql_update_all:
  "(\<And>r. r \<in> set rows \<Longrightarrow> row_ok (f r)) \<Longrightarrow>
   sql_update row_ok P f rows = Some (map (\<lambda>r. if P r then f r else r) rows)"
  by (simp add: sql_update_def list_all_iff)

text \<open>Whatever \<open>pending_task_controls\<close> lists can be completed: a fresh event of the announced
  type with the next sequence and the command's identity is accepted, given outbox capacity.\<close>

lemma pending_control_completable:
  assumes "ledger_inv L" and "(c, p) \<in> set (pending_control_rows L)"
    and "is_canonical_uuid_v4 (cm_message_id c)"
    and "\<not> has_outbox_of L (cm_message_id c)
      {M_task_paused, M_task_resumed, M_task_cancelled, M_task_outcome_uncertain}"
    and "outbound_identity_ok L event" and "source_matches c event"
    and "message_type event = snd (control_target L c)" and "sequence event = ck_last_event p + 1"
    and "list_all (\<lambda>r. ob_message_id r \<noteq> message_id event
      \<and> ob_idempotency_key r \<noteq> idempotency_key event) (outbox L)"
    and "outbox_capacity_ok cd (outbox L) [event]" and "is_fingerprint (message_fingerprint cd event)"
  shows "\<exists>L'. complete_task_control cd L (cm_message_id c) (ck_revision p) event =
    Some (Some \<lparr>oe_message = event, oe_source = cm_message_id c, oe_replayed = False\<rparr>, L')"
proof -
  let ?src = "cm_message_id c"
  from assms(2) have cin: "c \<in> set (commands L)"
    and pin: "sql_lookup ck_attempt_id (cm_attempt_id c) (checkpoints L) = Some p"
    and pending: "control_is_pending L c p"
    by (auto simp: pending_control_rows_def map_filter_def split: option.splits if_splits)
  have c: "sql_lookup cm_message_id ?src (commands L) = Some c"
    using command_table.lookup_row [of "commands L" c] assms(1) cin by (simp add: inv_defs)
  have mem: "p \<in> set (checkpoints L)" and att: "ck_attempt_id p = cm_attempt_id c"
    using sql_lookup_SomeD [OF pin] by auto
  note pend = pending [unfolded control_is_pending_def]
  have types: "cm_message_type c \<in> control_types"
    "message_type event \<in> control_projection_types (cm_message_type c)"
    "message_type event \<in> event_types"
    using pend assms(7)
    by (auto simp: control_checkpoint_states_def control_target_def control_projection_types_def
        type_classes split: if_splits)
  have none: "List.find (\<lambda>r. ob_source r = ?src \<and> message_type (ob_envelope r) \<in>
      {M_task_paused, M_task_resumed, M_task_cancelled, M_task_outcome_uncertain}) (outbox L) = None"
    using assms(4) by (auto simp: find_None_all has_outbox_of_def list_ex_iff)
  let ?P = "\<lambda>r. ck_attempt_id r = cm_attempt_id c \<and> ck_revision r = ck_revision p
    \<and> ck_state r = ck_state p \<and> ck_last_command r = cm_sequence c"
  let ?f = "\<lambda>r. r\<lparr>ck_state := fst (control_target L c), ck_last_event := sequence event,
    ck_revision := ck_revision r + 1\<rparr>"
  let ?cks = "map (\<lambda>r. if ?P r then ?f r else r) (checkpoints L)"
  have wf: "sql_wf checkpoint_ok checkpoint_clash (checkpoints L)" using assms(1) by (simp add: inv_defs)
  have ok: "checkpoint_ok r" if "r \<in> set (checkpoints L)" for r using wf that by (rule sql_wf_row)
  have "checkpoint_ok (?f r)" if "r \<in> set (checkpoints L)" for r
    using ok [OF that] ok [OF mem] assms(8) by (simp add: checkpoint_ok_def)
  then have up: "sql_update checkpoint_ok ?P ?f (checkpoints L) = Some ?cks"
    by (rule sql_update_all)
  have one: "sql_rowcount ?P (checkpoints L) = 1"
    using checkpoint_table.rowcount_at_key [OF wf, of "cm_attempt_id c"
        "\<lambda>r. ck_revision r = ck_revision p \<and> ck_state r = ck_state p \<and> ck_last_command r = cm_sequence c"]
      pin pend by simp
  have "1 \<le> next_ordinal (outbox L)"
  proof (cases "outbox L")
    case Nil
    then show ?thesis by (simp add: next_ordinal_def latest_def)
  next
    case (Cons r rs)
    then have "outbox_ok r" "r \<in> set (outbox L)" using assms(1) by (auto simp: inv_defs sql_wf_def)
    then show ?thesis using next_ordinal_above [of r "outbox L"] by (simp add: outbox_ok_def)
  qed
  moreover have "ob_ordinal r \<noteq> next_ordinal (outbox L)" if "r \<in> set (outbox L)" for r
    using next_ordinal_above [OF that] by simp
  ultimately have "\<exists>L'. insert_outbox cd (L\<lparr>checkpoints := ?cks\<rparr>) event ?src (next_ordinal (outbox L)) = Some L'"
    using assms(9,11) cin
    by (auto simp: insert_outbox_def sql_insert_def outbox_ok_def outbox_clash_def outbox_row_of_def
        list_all_iff)
  then obtain L' where "insert_outbox cd (L\<lparr>checkpoints := ?cks\<rparr>) event ?src (next_ordinal (outbox L)) = Some L'" ..
  moreover obtain target expected where "control_target L c = (target, expected)" by force
  ultimately show ?thesis
    using assms(3,5-8,10) c pin pend types none up one ok [OF mem]
    by (intro exI [of _ L'])
      (simp add: complete_task_control_def canonical_uuid_v4_def Let_def checkpoint_ok_def)
qed

lemma pending_control_completable_witness:
  "\<exists>L'. complete_task_control sample_codec pausing_ledger (cm_message_id pause_row)
      (ck_revision pause_checkpoint) paused_event =
    Some (Some \<lparr>oe_message = paused_event, oe_source = cm_message_id pause_row, oe_replayed = False\<rparr>, L')"
  by (rule pending_control_completable [OF pausing_ledger_inv])
    (simp_all add: pending_control_rows_def map_filter_def control_is_pending_def pausing_ledger
      running_ledger pause_row_def offer_row_def pause_checkpoint_def has_outbox_of_def
      control_projection_types_def control_checkpoint_states_def control_target_def
      attempt_has_effect_def sample_defs)

subsection \<open>Recovery\<close>

lemma payload_eq_refl [simp]: "payload_eq p p"
  by (simp add: payload_eq_def split: payload.split)

lemma recovery_projection:
  assumes "ledger_inv L" and "commit_side_effect_recovery cd L aid n event = Some (x, L')"
    and "\<not> oe_replayed x" and "0 < n'"
  shows "(\<exists>s a p. sql_lookup ef_action_id aid (side_effects L) = Some s
      \<and> sql_lookup ad_action_id aid (admissions L) = Some a
      \<and> sql_lookup ck_attempt_id (ad_attempt_id a) (checkpoints L) = Some p
      \<and> pg_state (ef_progress s) =
          (if message_type event = M_task_outcome_uncertain then Uncertain else Verified)
      \<and> ck_state p \<in> {CK_running, CK_paused} \<and> ck_revision p = n
      \<and> L' = L\<lparr>checkpoints := map (\<lambda>r. if r = p
            then p\<lparr>ck_state := (if message_type event = M_task_outcome_uncertain
                then CK_outcome_uncertain else ck_state p),
              ck_last_event := ck_last_event p + 1, ck_revision := n + 1\<rparr> else r) (checkpoints L),
          outbox := outbox L @ [outbox_row_of cd event (oe_source x) (next_ordinal (outbox L))]\<rparr>)
    \<and> get_side_effect_recovery_event L' aid = Some (Some event)
    \<and> commit_side_effect_recovery cd L' aid n' event = Some (x\<lparr>oe_replayed := True\<rparr>, L')"
proof -
  have pre: "is_canonical_uuid_v4 aid" "recovery_event_ok event aid"
    "idempotency_key event = recovery_key aid" "outbound_identity_ok L event"
    using assms(2)
    by (auto simp: commit_side_effect_recovery_def bind_eq_Some_conv canonical_uuid_v4_Some
        split: if_splits)
  from assms(2) show ?thesis
  proof (cases rule: commit_side_effect_recovery_cases)
    case same
    have "outbox L' \<noteq> outbox L"
      using assms(2,3)
      by (auto simp: commit_side_effect_recovery_def bind_eq_Some_conv Let_def
          dest!: insert_outbox_eq split: if_splits option.splits)
    with same show ?thesis by simp
  next
    case (projected s a p c cks)
    let ?row = "outbox_row_of cd event (cm_message_id c) (next_ordinal (outbox L))"
    have mem: "p \<in> set (checkpoints L)" and att: "ck_attempt_id p = ad_attempt_id a"
      using sql_lookup_SomeD [OF projected(3)] by auto
    have cks: "cks = map (\<lambda>r. if r = p
        then p\<lparr>ck_state := (if message_type event = M_task_outcome_uncertain
              then CK_outcome_uncertain else ck_state p),
            ck_last_event := sequence event, ck_revision := ck_revision p + 1\<rparr> else r) (checkpoints L)"
      using update_one_checkpoint [OF _ mem projected(12)] assms(1) att projected(8)
      by (simp add: inv_defs)
    have L': "L' = L\<lparr>checkpoints := cks, outbox := outbox L @ [?row]\<rparr>"
      using insert_outbox_eq [OF projected(13)] by simp
    have row: "recovery_row L' aid = Some ?row"
      using projected(4) pre(3) by (simp add: L' recovery_row_def find_append outbox_row_of_def)
    have parse: "parse_outbound (ob_envelope ?row) = Some event"
      using pre(4) by (simp add: parse_outbound_def outbound_identity_ok_def outbox_row_of_def)
    have get: "get_side_effect_recovery_event L' aid = Some (Some event)"
      using pre(1,2) row parse by (simp add: get_side_effect_recovery_event_def canonical_uuid_v4_def)
    have kind: "message_type event \<in> event_types"
      using pre(2) by (auto simp: recovery_event_ok_def event_types_def)
    have "outbound_identity_ok L' event" using pre(4) by (simp add: L' outbound_identity_ok_def)
    then have again: "commit_side_effect_recovery cd L' aid n' event =
        Some (x\<lparr>oe_replayed := True\<rparr>, L')"
      using pre assms(4) row parse kind projected(14)
      by (simp add: commit_side_effect_recovery_def canonical_uuid_v4_def) (simp add: outbox_row_of_def)
    from projected(14) have "oe_source x = cm_message_id c" by simp
    then have "L' = L\<lparr>checkpoints := map (\<lambda>r. if r = p
          then p\<lparr>ck_state := (if message_type event = M_task_outcome_uncertain
              then CK_outcome_uncertain else ck_state p),
            ck_last_event := ck_last_event p + 1, ck_revision := n + 1\<rparr> else r) (checkpoints L),
        outbox := outbox L @ [outbox_row_of cd event (oe_source x) (next_ordinal (outbox L))]\<rparr>"
      using L' cks projected(6,8) by simp
    with projected(1-3,5,7,8) get again show ?thesis by blast
  qed
qed

text \<open>A side effect is projected by recovery at most once and only as what it was settled to: the
  first projection needs the effect verified (uncertain for an uncertain outcome) and moves exactly
  its attempt's checkpoint; afterwards the event is found, and repeating the projection returns it
  unchanged.\<close>

lemma recovery_projected_once:
  assumes "ledger_inv L" and "commit_side_effect_recovery cd L aid n event = Some (x, L')"
    and "\<not> oe_replayed x" and "0 < n'"
  shows "(\<exists>s a p. sql_lookup ef_action_id aid (side_effects L) = Some s
      \<and> sql_lookup ad_action_id aid (admissions L) = Some a
      \<and> sql_lookup ck_attempt_id (ad_attempt_id a) (checkpoints L) = Some p
      \<and> pg_state (ef_progress s) =
          (if message_type event = M_task_outcome_uncertain then Uncertain else Verified)
      \<and> ck_state p \<in> {CK_running, CK_paused} \<and> ck_revision p = n
      \<and> L' = L\<lparr>checkpoints := map (\<lambda>r. if r = p
            then p\<lparr>ck_state := (if message_type event = M_task_outcome_uncertain
                then CK_outcome_uncertain else ck_state p),
              ck_last_event := ck_last_event p + 1, ck_revision := n + 1\<rparr> else r) (checkpoints L),
          outbox := outbox L @ [outbox_row_of cd event (oe_source x) (next_ordinal (outbox L))]\<rparr>)
    \<and> get_side_effect_recovery_event L' aid = Some (Some event)
    \<and> commit_side_effect_recovery cd L' aid n' event = Some (x\<lparr>oe_replayed := True\<rparr>, L')"
  by (rule recovery_projection [OF assms])

definition recovery_event :: envelope where
  "recovery_event = (message CHR ''f'' M_task_outcome_uncertain 6 (P_object
     [(''action_id'', JStr the_action), (''evidence_version'', JStr evidence_version),
      (''evidence'', JStr ''recovery_unconfirmed'')]))\<lparr>idempotency_key := recovery_key the_action\<rparr>"

definition uncertain_ledger :: ledger where
  "uncertain_ledger = ledger_step sample_codec dispatched_ledger
     (Op_effect_uncertain the_action fingerprint_b (at_second 120))"

lemma uncertain_ledger:
  "uncertain_ledger = dispatched_ledger\<lparr>side_effects :=
     [effect_row_in (mark_settled Uncertain None (seconds 120)
       (mark_dispatched (seconds 112) (new_progress (seconds 111))))]\<rparr>"
  by (simp add: uncertain_ledger_def mark_side_effect_uncertain_def settle_side_effect_def
      settle_arguments_ok_def dispatched_ledger prepared_ledger running_ledger admitted_row_def
      admission_of_claims_def fingerprint_a_def fingerprint_b_def read_side_effect_def
      make_side_effect_def progress_ok_def new_progress_def effect_row_in_def seconds_def Let_def
      advance_effect_def effect_at_def move_effect_def mark_dispatched_def mark_settled_def
      se_state_def sample_defs)

lemma uncertain_ledger_inv: "ledger_inv uncertain_ledger"
  unfolding uncertain_ledger_def by (rule step_inv [OF sample_ledgers_inv(3)])

lemma recover_sample:
  "commit_side_effect_recovery sample_codec uncertain_ledger the_action 3 recovery_event =
     Some (\<lparr>oe_message = recovery_event, oe_source = uuid CHR ''a'', oe_replayed = False\<rparr>,
       uncertain_ledger\<lparr>checkpoints := [action_checkpoint\<lparr>ck_state := CK_outcome_uncertain,
           ck_last_event := 6, ck_revision := 4\<rparr>],
         outbox := outbox uncertain_ledger
           @ [outbox_row_of sample_codec recovery_event (uuid CHR ''a'') 3]\<rparr>)"
  by (simp add: commit_side_effect_recovery_def recovery_event_ok_def recovery_event_def
      recovery_row_def recovery_key_def evidence_version_def expected_recovery_evidence_def
      uncertain_ledger dispatched_ledger prepared_ledger running_ledger offer_row_def action_row_def
      action_checkpoint_def admitted_row_def admission_of_claims_def effect_row_in_def
      mark_settled_def insert_outbox_def Let_def sample_defs)

lemma recovery_projected_once_witness:
  "\<exists>L'. get_side_effect_recovery_event L' the_action = Some (Some recovery_event)
     \<and> length (outbox L') = 3"
proof -
  have "\<not> oe_replayed \<lparr>oe_message = recovery_event, oe_source = uuid CHR ''a'', oe_replayed = False\<rparr>"
    by simp
  from recovery_projected_once [OF uncertain_ledger_inv recover_sample this, of 9]
  have "get_side_effect_recovery_event (uncertain_ledger\<lparr>checkpoints := [action_checkpoint\<lparr>ck_state :=
      CK_outcome_uncertain, ck_last_event := 6, ck_revision := 4\<rparr>],
         outbox := outbox uncertain_ledger
           @ [outbox_row_of sample_codec recovery_event (uuid CHR ''a'') 3]\<rparr>) the_action =
      Some (Some recovery_event)" by simp
  then show ?thesis
    by (intro exI conjI) (assumption, simp add: uncertain_ledger dispatched_ledger prepared_ledger running_ledger)
qed

subsection \<open>A superseded pause\<close>

definition superseding_ops :: "ledger_op list" where
  "superseding_ops = [Op_receive (action_execute\<lparr>sequence := 3\<rparr>),
     Op_admit the_claims fingerprint_a (at_second 110) 60 3,
     Op_prepare_effect the_action fingerprint_b (at_second 111)]"

definition superseded_ledger :: ledger where
  "superseded_ledger = run sample_codec pausing_ledger superseding_ops"

lemma receive_superseding:
  "ledger_step sample_codec pausing_ledger (Op_receive (action_execute\<lparr>sequence := 3\<rparr>)) =
     pausing_ledger\<lparr>checkpoints := [pause_checkpoint\<lparr>ck_last_command := 3, ck_revision := 4\<rparr>],
       commands := [offer_row, pause_row, action_row\<lparr>cm_sequence := 3\<rparr>]\<rparr>"
  unfolding pausing_ledger running_ledger
  by (simp add: receive_command_def receive_command_at_def advance_checkpoint_def
      insert_command_def engage_if_def offer_row_def action_row_def pause_row_def pause_checkpoint_def
      sample_defs)

lemma admit_superseding:
  "admit_action (pausing_ledger\<lparr>checkpoints := cs, commands := ms\<rparr>) the_claims fingerprint_a
     (at_second 110) 60 3 =
     (Inr \<lparr>am_row = admitted_row, am_replayed = False\<rparr>,
      pausing_ledger\<lparr>checkpoints := cs, commands := ms, admissions := [admitted_row]\<rparr>)"
  unfolding pausing_ledger running_ledger
  by (simp add: admit_action_def admit_request_def admit_new_def add_delta_def valid_instant_def
      max_instant_def authorization_clock_skew_def seconds_def fingerprint_a_def hard_policy_ok_def
      max_local_action_interval_seconds_def max_local_task_actions_def read_emergency_stop_def
      latest_admitted_at_def task_action_count_def admission_of_claims_def make_admission_def
      admitted_row_def Let_def sample_defs)

lemma superseded_ledger:
  "superseded_ledger = pausing_ledger\<lparr>
     checkpoints := [pause_checkpoint\<lparr>ck_last_command := 3, ck_revision := 4\<rparr>],
     commands := [offer_row, pause_row, action_row\<lparr>cm_sequence := 3\<rparr>],
     admissions := [admitted_row],
     side_effects := [effect_row_in (new_progress (seconds 111))]\<rparr>"
  unfolding superseded_ledger_def superseding_ops_def run_def run_end_simps receive_superseding
  by (simp add: admit_superseding) (simp add: prepare_side_effect_def pausing_ledger running_ledger
      admitted_row_def admission_of_claims_def fingerprint_a_def fingerprint_b_def
      read_emergency_stop_def read_side_effect_def make_side_effect_def progress_ok_def
      new_progress_def effect_row_in_def seconds_def Let_def sample_defs)

lemma dispatch_superseded:
  "grants_effect superseded_ledger begin_op the_action"
  unfolding superseded_ledger pausing_ledger
  by (simp add: grants_effect_def begin_op_def begin_side_effect_dispatch_def running_ledger
      admitted_row_def admission_of_claims_def fingerprint_a_def fingerprint_b_def
      read_emergency_stop_def read_side_effect_def make_side_effect_def progress_ok_def
      new_progress_def effect_row_in_def seconds_def Let_def dispatch_blocked_def
      pause_checkpoint_def offer_row_def action_row_def pause_row_def advance_effect_def effect_at_def
      move_effect_def mark_dispatched_def se_state_def sample_defs)

text \<open>A pause that was received and acknowledged but not completed is superseded by a later
  action command of the attempt: the pause blocked dispatches and was pending before, and after the
  action arrives its effect is dispatched and the pause is no longer a pending control.\<close>

lemma later_action_supersedes_pause:
  "dispatch_blocked pausing_ledger the_attempt
   \<and> map fst (pending_control_rows pausing_ledger) = [pause_row]
   \<and> grants_effect (run sample_codec pausing_ledger superseding_ops) begin_op the_action
   \<and> pending_control_rows (run sample_codec pausing_ledger superseding_ops) = []"
proof -
  have "dispatch_blocked pausing_ledger the_attempt"
    by (simp add: dispatch_blocked_def pausing_ledger pause_checkpoint_def pause_row_def
        offer_row_def sample_defs)
  moreover have "map fst (pending_control_rows pausing_ledger) = [pause_row]"
    by (simp add: pending_control_rows_def map_filter_def control_is_pending_def pausing_ledger
      running_ledger pause_row_def offer_row_def pause_checkpoint_def has_outbox_of_def
      control_projection_types_def control_checkpoint_states_def attempt_has_effect_def sample_defs)
  moreover have "pending_control_rows superseded_ledger = []"
    by (simp add: superseded_ledger pending_control_rows_def map_filter_def control_is_pending_def
      pausing_ledger running_ledger pause_row_def offer_row_def action_row_def pause_checkpoint_def
      has_outbox_of_def control_projection_types_def control_checkpoint_states_def
      attempt_has_effect_def sample_defs)
  ultimately show ?thesis
    using dispatch_superseded by (simp add: superseded_ledger_def)
qed

end
