(* ===== verification/Domain_Properties.thy ===== *)
theory Domain_Properties
  imports Candidate_Policy Task_Lifecycle
begin

text \<open>
  Properties of the Control Plane domain: the task lifecycle as sequences of
  \<open>TaskStateMachine.transition\<close> calls, and the candidate exclusion policy.
\<close>

subsection \<open>Task lifecycle\<close>

text \<open>Repeated calls of the transition method, stopping at the first refusal.\<close>

fun follow :: "task_status \<Rightarrow> task_status list \<Rightarrow> task_error + task_status" where
  "follow s [] = Inr s"
| "follow s (t # ts) =
     (case task_transition (Some s) (Some t) of Inl e \<Rightarrow> Inl e | Inr u \<Rightarrow> follow u ts)"

lemma follow_walk:
  "follow s ts = Inr t \<longleftrightarrow> walk task_transitions s ts \<and> t = last (s # ts)"
  by (induction ts arbitrary: s) (auto simp: task_transition_def)

text \<open>A task that started as a draft is queued only after it awaited confirmation: every
  accepted sequence of transitions into \<open>Queued\<close> contains \<open>Awaiting_confirmation\<close>.\<close>

lemma queued_only_after_confirmation:
  assumes "follow Draft ts = Inr t" and "Queued \<in> set ts"
  shows "Awaiting_confirmation \<in> set ts"
proof -
  have "walk task_transitions Draft ts" using assms(1) by (simp add: follow_walk)
  then have "\<exists>g \<in> {Awaiting_confirmation}. g \<in> set ts"
    using assms(2)
    by (intro task.walk_through_gate [of before_confirmation "{Awaiting_confirmation}" Draft ts Queued])
      (auto simp: before_confirmation_gate, auto simp: before_confirmation_def)
  then show ?thesis by simp
qed

lemma queued_only_after_confirmation_witness:
  "Awaiting_confirmation \<in> set [Validating, Awaiting_device, Awaiting_platform_login,
     Discovering_targets, Awaiting_confirmation, Queued]"
  by (rule queued_only_after_confirmation [of _ Queued]) (simp_all add: task_transition_def)

text \<open>Cancellation cannot be undone: after \<open>Cancelling\<close> at most one more transition is accepted,
  and it ends the task.\<close>

lemma cancelling_only_ends:
  assumes "follow Cancelling ts = Inr t"
  shows "length ts \<le> 1 \<and> (ts = [] \<or> is_terminal (Some t))"
proof (cases ts)
  case Nil
  then show ?thesis by simp
next
  case (Cons u us)
  have w: "walk task_transitions Cancelling (u # us)" "t = last (u # us)"
    using assms unfolding Cons follow_walk by simp_all
  then have u: "u \<in> terminal_statuses" by (auto simp: terminal_statuses_def)
  with w(1) have "us = []" using task.walk_from_terminal by auto
  with w(2) u show ?thesis by (simp add: Cons is_terminal_def)
qed

theorem cancelling_only_ends_witness:
  "length [Partially_succeeded] \<le> 1 \<and>
   ([Partially_succeeded] = [] \<or> is_terminal (Some Partially_succeeded))"
  by (rule cancelling_only_ends) (simp add: task_transition_def)

text \<open>No status is a dead end and no terminal status can be left: from every status some accepted
  sequence of transitions reaches a terminal one, and the statuses without allowed targets are
  exactly the terminal ones.\<close>

lemma every_task_can_finish:
  "(\<exists>ts t. follow s ts = Inr t \<and> is_terminal (Some t))
   \<and> (allowed_targets (Some s) = Inr {} \<longleftrightarrow> is_terminal (Some s))
   \<and> (\<forall>t. can_transition (Some s) t \<longleftrightarrow> task_transition (Some s) t \<noteq> Inl InvalidTaskTransition)"
proof -
  have "follow s (finish_walk s) = Inr (last (s # finish_walk s))"
    using finish_walk_ok [of s] by (simp add: follow_walk)
  moreover have "is_terminal (Some (last (s # finish_walk s)))"
    using finish_walk_ok [of s] by (simp add: is_terminal_def)
  moreover have "allowed_targets (Some s) = Inr {} \<longleftrightarrow> is_terminal (Some s)"
    by (simp add: allowed_targets_def is_terminal_def task.terminal_iff_stuck)
  ultimately show ?thesis
    by (auto simp: can_transition_def task_transition_def split: option.split)
qed

subsection \<open>Candidate exclusion\<close>

text \<open>The disposition of every candidate, by position: blacklisted wins, then an earlier candidate
  of the batch with the same key (whatever that one's disposition), then a fact of the last thirty
  days, and only then eligible.\<close>

lemma candidate_disposition:
  assumes "evaluate_douyin_candidates candidates histories blacklist (Aware 0 t) = Some e"
    and "i < length candidates"
  shows "dn_candidate (ev_decisions e ! i) = candidates ! i
    \<and> dn_disposition (ev_decisions e ! i) =
      (if dedupe_key (candidates ! i) \<in> set blacklist then Blacklisted
       else if list_ex (\<lambda>c. dedupe_key c = dedupe_key (candidates ! i)) (take i candidates)
         then Duplicate_in_task
       else if list_ex (\<lambda>h. hf_key h = dedupe_key (candidates ! i)
           \<and> t - history_window \<le> hf_observed_at h \<and> hf_observed_at h \<le> t) histories
         then Duplicate_in_history
       else Eligible)"
proof -
  from assms(1) obtain cutoff where cutoff: "history_cutoff t = Some cutoff"
    and ds: "ev_decisions e = classify blacklist (recent_history cutoff t histories) [] candidates"
    by (rule evaluate_SomeD) simp
  have "cutoff = t - history_window" using cutoff by (simp add: history_cutoff_def add_delta_Some)
  then have recent: "k \<in> set (recent_history cutoff t histories) \<longleftrightarrow>
      list_ex (\<lambda>h. hf_key h = k \<and> t - history_window \<le> hf_observed_at h \<and> hf_observed_at h \<le> t)
        histories" for k
    by (auto simp: recent_history_def list_ex_iff)
  have "map dn_candidate (ev_decisions e) ! i = candidates ! i"
    unfolding ds candidates_classify ..
  moreover have "i < length (ev_decisions e)" using assms(2) by (simp add: ds)
  ultimately have "dn_candidate (ev_decisions e ! i) = candidates ! i" by simp
  moreover have seen: "k \<in> set (map dedupe_key (take i candidates)) \<longleftrightarrow>
      list_ex (\<lambda>c. dedupe_key c = k) (take i candidates)" for k
    by (auto simp: list_ex_iff)
  ultimately show ?thesis
    using disposition_classify [OF assms(2), of blacklist "recent_history cutoff t histories" "[]"]
    by (simp add: ds recent seen del: set_map)
qed

definition sample_candidate :: "str \<Rightarrow> candidate" where
  "sample_candidate k = \<lparr>platform_target_id = k, display_name = k, public_handle = None,
     page_revision = 1, dedupe_key = k\<rparr>"

definition sample_now :: instant where
  "sample_now = seconds (40 * 86400)"

definition sample_batch :: "candidate list" where
  "sample_batch = map sample_candidate [''a'', ''b'', ''a'', ''c'']"

definition sample_history :: "history_fact list" where
  "sample_history = [\<lparr>hf_key = ''b'', hf_observed_at = seconds (20 * 86400)\<rparr>]"

lemma sample_evaluation:
  "\<exists>e. evaluate_douyin_candidates sample_batch sample_history [''c''] (Aware 0 sample_now) = Some e"
  by (simp add: evaluate_douyin_candidates_def history_cutoff_def add_delta_def sample_now_def
      valid_instant_def max_instant_def seconds_def history_window_def sample_batch_def
      sample_history_def sample_candidate_def max_task_target_limit_def make_evaluation_def
      recent_history_def duplicates_consistent.simps Let_def decision_key_def
      del: length_remdups_card_conv)

lemma candidate_disposition_witness:
  "\<exists>e. evaluate_douyin_candidates sample_batch sample_history [''c''] (Aware 0 sample_now) = Some e
     \<and> dn_disposition (ev_decisions e ! 2) = Duplicate_in_task"
proof -
  from sample_evaluation obtain e where
    e: "evaluate_douyin_candidates sample_batch sample_history [''c''] (Aware 0 sample_now) = Some e" ..
  have "2 < length sample_batch" by (simp add: sample_batch_def)
  from candidate_disposition [OF e this] e show ?thesis
    by (auto simp: sample_batch_def sample_candidate_def)
qed

text \<open>The evaluation is total on accepted input: \<open>evaluate_douyin_candidates\<close> is refused exactly
  by its own input checks, never by the consistency check the evaluation's constructor repeats.\<close>

lemma evaluation_refused_only_by_input_checks:
  "evaluate_douyin_candidates candidates histories blacklist (Aware 0 t) \<noteq> None \<longleftrightarrow>
     valid_instant (t - history_window)
     \<and> length candidates \<le> max_task_target_limit \<and> length histories \<le> max_task_target_limit
     \<and> length blacklist \<le> max_task_target_limit
     \<and> length (remdups (map page_revision candidates)) \<le> 1
     \<and> distinct (map hf_key histories) \<and> distinct blacklist
     \<and> list_all (\<lambda>h. hf_observed_at h \<le> t) histories"
proof (cases "history_cutoff t")
  case None
  then have "\<not> valid_instant (t - history_window)"
    by (auto simp: history_cutoff_def add_delta_def split: if_splits)
  with None show ?thesis by (simp add: evaluate_douyin_candidates_def)
next
  case (Some cutoff)
  then have "valid_instant (t - history_window)"
    by (auto simp: history_cutoff_def add_delta_def split: if_splits)
  with Some make_evaluation_classify [OF Some] show ?thesis
    by (auto simp: evaluate_douyin_candidates_def simp del: length_remdups_card_conv)
qed

text \<open>
  The eligible candidates have distinct keys, none of them blacklisted or in the recent
  history, and the four dispositions partition the batch.\<close>

lemma eligible_candidates_clean:
  assumes "evaluate_douyin_candidates candidates histories blacklist (Aware 0 t) = Some e"
  shows "distinct (map dedupe_key (eligible_candidates e))
    \<and> list_all (\<lambda>c. dedupe_key c \<notin> set blacklist
        \<and> \<not> list_ex (\<lambda>h. hf_key h = dedupe_key c \<and> t - history_window \<le> hf_observed_at h
            \<and> hf_observed_at h \<le> t) histories) (eligible_candidates e)
    \<and> candidate_count e = length candidates
    \<and> count_of Eligible e + count_of Duplicate_in_task e + count_of Duplicate_in_history e
        + count_of Blacklisted e = candidate_count e
    \<and> excluded_count e + length (eligible_candidates e) = candidate_count e"
proof -
  from assms obtain cutoff where cutoff: "history_cutoff t = Some cutoff"
    and ds: "ev_decisions e = classify blacklist (recent_history cutoff t histories) [] candidates"
    by (rule evaluate_SomeD) simp
  have cut: "cutoff = t - history_window" using cutoff by (simp add: history_cutoff_def add_delta_Some)
  note clean = eligible_classify [of blacklist "recent_history cutoff t histories" "[]" candidates]
  have "list_all (\<lambda>c. dedupe_key c \<notin> set blacklist
        \<and> \<not> list_ex (\<lambda>h. hf_key h = dedupe_key c \<and> t - history_window \<le> hf_observed_at h
            \<and> hf_observed_at h \<le> t) histories) (eligible_candidates e)"
    unfolding list_all_iff eligible_candidates_def ds
  proof
    fix c assume "c \<in> set (map dn_candidate (filter (\<lambda>d. dn_disposition d = Eligible)
      (classify blacklist (recent_history cutoff t histories) [] candidates)))"
    then obtain d where d: "d \<in> set (classify blacklist (recent_history cutoff t histories) [] candidates)"
      "dn_disposition d = Eligible" "c = dn_candidate d" by auto
    with clean have "dedupe_key c \<notin> set blacklist \<union> set [] \<union> set (recent_history cutoff t histories)"
      by (auto simp: decision_key_def)
    then show "dedupe_key c \<notin> set blacklist
        \<and> \<not> list_ex (\<lambda>h. hf_key h = dedupe_key c \<and> t - history_window \<le> hf_observed_at h
            \<and> hf_observed_at h \<le> t) histories"
      by (force simp: recent_history_def list_ex_iff cut)
  qed
  moreover have "distinct (map dedupe_key (eligible_candidates e))"
    using clean by (simp add: eligible_candidates_def ds)
  moreover have "count_of Eligible e \<le> candidate_count e"
    by (simp add: count_of_def candidate_count_def)
  ultimately show ?thesis
    using count_split [of "ev_decisions e"]
    by (simp add: candidate_count_def excluded_count_def count_of_def eligible_candidates_def ds)
qed

theorem eligible_candidates_clean_witness:
  "\<exists>e. evaluate_douyin_candidates sample_batch sample_history [''c''] (Aware 0 sample_now) = Some e
     \<and> distinct (map dedupe_key (eligible_candidates e))"
proof -
  from sample_evaluation obtain e where
    e: "evaluate_douyin_candidates sample_batch sample_history [''c''] (Aware 0 sample_now) = Some e" ..
  from eligible_candidates_clean [OF e] e show ?thesis by blast
qed

end
