(* ===== verification/Payload_Rules.thy ===== *)
theory Payload_Rules
  imports Wire
begin

text \<open>
  The rules for payloads as a reader would state them, apart from the routines that check them: the words a
  field name is spelled with, the names that are refused, and the shapes of text that is refused. The
  lemmas show that the routines of \<open>protocol/executor_envelope.py\<close> and \<open>protocol/safe_text.py\<close> decide them.
\<close>

subsection \<open>The words of a field name\<close>

definition hump :: "char \<Rightarrow> char \<Rightarrow> bool" where
  "hump a b \<longleftrightarrow> (ascii_lower a \<or> ascii_digit a) \<and> ascii_upper b"

definition unbroken :: "str \<Rightarrow> bool" where
  "unbroken x \<longleftrightarrow> set x \<inter> set ''_.-'' = {} \<and> (\<forall>a p q b. x = a @ p # q # b \<longrightarrow> \<not> hump p q)"

text \<open>
  What stands between two words: one underscore, a whole run of dots and hyphens, or nothing, where the case
  of the letters changes from lower to upper.
\<close>

definition gap :: "str \<Rightarrow> str \<Rightarrow> str \<Rightarrow> bool" where
  "gap x g s \<longleftrightarrow> g = ''_''
     \<or> (g \<noteq> [] \<and> set g \<subseteq> set ''.-'' \<and> (s = [] \<or> hd s \<notin> set ''.-''))
     \<or> (g = [] \<and> x \<noteq> [] \<and> s \<noteq> [] \<and> hump (last x) (hd s))"

inductive spelled :: "str list \<Rightarrow> str \<Rightarrow> bool" where
  last_word: "unbroken x \<Longrightarrow> spelled [map lower_char x] x"
| next_word: "unbroken x \<Longrightarrow> gap x g s \<Longrightarrow> spelled ws s \<Longrightarrow> spelled (map lower_char x # ws) (x @ g @ s)"

lemma unbroken_Nil [simp]: "unbroken []"
  by (simp add: unbroken_def)

lemma unbroken_Cons [simp]:
  "unbroken (c # x) \<longleftrightarrow> c \<notin> set ''_.-'' \<and> (x = [] \<or> \<not> hump c (hd x)) \<and> unbroken x"
proof -
  have "(\<forall>a p q b. c # x = a @ p # q # b \<longrightarrow> \<not> hump p q) \<longleftrightarrow>
      (x = [] \<or> \<not> hump c (hd x)) \<and> (\<forall>a p q b. x = a @ p # q # b \<longrightarrow> \<not> hump p q)" (is "?l \<longleftrightarrow> ?r \<and> ?t")
  proof
    assume l: ?l
    have ?r
    proof (cases x)
      case (Cons d y)
      then show ?thesis using l [rule_format, of "[]" c d y] by simp
    qed simp
    moreover have ?t using l [rule_format, of "c # _"] by simp
    ultimately show "?r \<and> ?t" ..
  next
    assume "?r \<and> ?t"
    then show ?l by (auto simp: Cons_eq_append_conv)
  qed
  then show ?thesis by (auto simp: unbroken_def)
qed

lemma lower_underscore [simp]: "lower_char c = CHR ''_'' \<longleftrightarrow> c = CHR ''_''"
proof
  assume c: "lower_char c = CHR ''_''"
  show "c = CHR ''_''"
  proof (rule ccontr)
    assume "c \<noteq> CHR ''_''"
    with c have up: "ascii_upper c \<or> (192 \<le> code c \<and> code c \<le> 222 \<and> code c \<noteq> 215)"
      and eq: "char_of (code c + 32) = CHR ''_''" by (auto simp: lower_char_def split: if_splits)
    have "code (char_of (code c + 32)) = (95::nat)" by (simp only: eq) simp
    then have "(code c + 32) mod 256 = 95" by (simp add: of_char_of take_bit_eq_mod)
    with up show False by (auto simp: ascii_upper_def)
  qed
next
  assume "c = CHR ''_''"
  then show "lower_char c = CHR ''_''" by (simp add: lower_char_def ascii_upper_def)
qed

lemma separators_no_hump: "c \<in> set ''_.-'' \<Longrightarrow> \<not> hump c d \<and> \<not> hump d c"
  by (auto simp: hump_def ascii_lower_def ascii_upper_def ascii_digit_def)

lemma camel_split_Cons:
  "camel_split (a # s) = a # (if s \<noteq> [] \<and> hump a (hd s) then ''_'' else []) @ camel_split s"
  by (cases s) (simp_all add: hump_def)

lemma camel_split_Nil [simp]: "camel_split s = [] \<longleftrightarrow> s = []"
  by (cases s) (simp_all add: camel_split_Cons)

lemma hd_camel_split: "s \<noteq> [] \<Longrightarrow> hd (camel_split s) = hd s"
  by (cases s) (simp_all add: camel_split_Cons)

lemma camel_split_word:
  "unbroken x \<Longrightarrow> camel_split (x @ s) = x @ (if x \<noteq> [] \<and> s \<noteq> [] \<and> hump (last x) (hd s) then ''_'' else []) @ camel_split s"
  by (induction x) (auto simp: camel_split_Cons)

lemma camel_split_run: "set g \<subseteq> set ''_.-'' \<Longrightarrow> camel_split (g @ s) = g @ camel_split s"
proof (induction g)
  case (Cons c g)
  then show ?case using separators_no_hump [of c] by (auto simp: camel_split_Cons)
qed simp

lemma squeeze_word: "set x \<inter> set ''.-'' = {} \<Longrightarrow> squeeze_separators (x @ s) = x @ squeeze_separators s"
  by (induction x) auto

lemma squeeze_run:
  assumes "g \<noteq> []" "set g \<subseteq> set ''.-''" "s = [] \<or> hd s \<notin> set ''.-''"
  shows "squeeze_separators (g @ s) = CHR ''_'' # squeeze_separators s"
proof -
  obtain c h where g: "g = c # h" using assms(1) by (cases g) auto
  have "dropWhile (\<lambda>x. x \<in> set ''.-'') (h @ s) = s"
  proof -
    have "dropWhile (\<lambda>x. x \<in> set ''.-'') (h @ s) = dropWhile (\<lambda>x. x \<in> set ''.-'') s"
      using assms(2) by (intro dropWhile_append2) (auto simp: g)
    then show ?thesis using assms(3) by (cases s) auto
  qed
  then show ?thesis using assms(2) by (simp add: g)
qed

lemma split_word: "CHR ''_'' \<notin> set x \<Longrightarrow> split_underscore x = [x]"
  by (induction x) auto

lemma split_next: "CHR ''_'' \<notin> set x \<Longrightarrow> split_underscore (x @ CHR ''_'' # s) = x # split_underscore s"
  by (induction x) auto

lemma normalized_gap:
  assumes "unbroken x" "gap x g s"
  shows "normalized_payload_name (x @ g @ s) = map lower_char x @ CHR ''_'' # normalized_payload_name s"
proof -
  have x: "set x \<inter> set ''.-'' = {}" using assms(1) by (auto simp: unbroken_def)
  have lower: "lower_char CHR ''_'' = CHR ''_''" by simp
  consider "g = ''_''" | "g \<noteq> []" "set g \<subseteq> set ''.-''" "s = [] \<or> hd s \<notin> set ''.-''"
    | "g = []" "x \<noteq> []" "s \<noteq> []" "hump (last x) (hd s)" using assms(2) by (auto simp: gap_def)
  then show ?thesis
  proof cases
    case 1
    then have "camel_split (x @ g @ s) = x @ CHR ''_'' # camel_split s"
      using camel_split_word [OF assms(1), of "g @ s"] camel_split_run [of g s] separators_no_hump [of "CHR ''_''"] by simp
    then show ?thesis using squeeze_word [OF x] by (simp add: normalized_payload_name_def lower)
  next
    case 2
    have "\<not> hump (last x) (hd (g @ s))" using 2(1,2) separators_no_hump [of "hd g"] by (cases g) auto
    then have "camel_split (x @ g @ s) = x @ g @ camel_split s"
      using camel_split_word [OF assms(1), of "g @ s"] camel_split_run [of g s] 2(2) by auto
    moreover have "squeeze_separators (g @ camel_split s) = CHR ''_'' # squeeze_separators (camel_split s)"
      using 2 by (intro squeeze_run) (auto simp: hd_camel_split)
    ultimately show ?thesis using squeeze_word [OF x] by (simp add: normalized_payload_name_def lower)
  next
    case 3
    then have "camel_split (x @ g @ s) = x @ CHR ''_'' # camel_split s" using camel_split_word [OF assms(1)] by simp
    then show ?thesis using squeeze_word [OF x] by (simp add: normalized_payload_name_def lower)
  qed
qed

lemma normalized_word: "unbroken x \<Longrightarrow> normalized_payload_name x = map lower_char x"
  using camel_split_word [of x "[]"] squeeze_word [of x "[]"]
  by (auto simp: normalized_payload_name_def unbroken_def)

lemma unbroken_lower: "unbroken x \<Longrightarrow> CHR ''_'' \<notin> set (map lower_char x)"
  by (auto simp: unbroken_def dest: sym [of "CHR ''_''"])

lemma spelled_split: "spelled ws s \<Longrightarrow> split_underscore (normalized_payload_name s) = ws"
proof (induction rule: spelled.induct)
  case (last_word x)
  then show ?case using unbroken_lower by (simp add: normalized_word split_word del: set_map)
next
  case (next_word x g s ws)
  then show ?case using split_next [OF unbroken_lower [OF next_word(1)]] by (simp add: normalized_gap)
qed

text \<open>Every name is spelled with some words: a character is put in front of a spelled name.\<close>

lemma spelled_front:
  assumes "spelled ws s"
  shows "\<exists>ws. spelled ws (c # s)"
proof -
  consider "c = CHR ''_''" | "c \<in> set ''.-''" "s = [] \<or> hd s \<notin> set ''.-''" | "c \<in> set ''.-''" "s \<noteq> []" "hd s \<in> set ''.-''"
    | "c \<notin> set ''_.-''" "s \<noteq> []" "hump c (hd s)" | "c \<notin> set ''_.-''" "s = [] \<or> \<not> hump c (hd s)" by auto
  then show ?thesis
  proof cases
    case 1
    then show ?thesis using next_word [of "[]" "''_''", OF _ _ assms] by (auto simp: gap_def)
  next
    case 2
    then show ?thesis using next_word [of "[]" "[c]", OF _ _ assms] by (auto simp: gap_def)
  next
    case 3
    from assms show ?thesis
    proof cases
      case last_word
      then show ?thesis using 3 by (cases s) auto
    next
      case (next_word x g r vs)
      then have x: "x = []" using 3(3) by (cases x) auto
      then have "g \<noteq> []" "set g \<subseteq> set ''.-''" "r = [] \<or> hd r \<notin> set ''.-''" using next_word 3(3) by (auto simp: gap_def)
      then have "gap [] (c # g) r" using 3(1) by (auto simp: gap_def)
      then show ?thesis using spelled.next_word [of "[]" "c # g" r vs] next_word x by auto
    qed
  next
    case 4
    then show ?thesis using next_word [of "[c]" "[]", OF _ _ assms] by (auto simp: gap_def)
  next
    case 5
    from assms show ?thesis
    proof cases
      case last_word
      then have "unbroken (c # s)" using 5 by simp
      then show ?thesis using spelled.last_word by blast
    next
      case (next_word x g r vs)
      have "unbroken (c # x)" using next_word 5 by (cases x) auto
      moreover have "gap (c # x) g r" using next_word by (auto simp: gap_def)
      ultimately show ?thesis using spelled.next_word [of "c # x" g r vs] next_word by auto
    qed
  qed
qed

lemma spelled_total: "\<exists>ws. spelled ws s"
proof (induction s)
  case Nil
  show ?case using last_word [of "[]"] by auto
next
  case (Cons c s)
  then show ?case using spelled_front by blast
qed

lemma spelled_iff: "spelled ws s \<longleftrightarrow> ws = split_underscore (normalized_payload_name s)"
  using spelled_split spelled_total by metis

subsection \<open>Names that are refused\<close>

definition secret_word :: "str \<Rightarrow> bool" where
  "secret_word w \<longleftrightarrow> w \<in> {''cookie'', ''cookies'', ''credential'', ''credentials'', ''password'', ''secret'',
     ''secrets'', ''token'', ''tokens''}"

definition secret_phrase :: "str list \<Rightarrow> bool" where
  "secret_phrase ws \<longleftrightarrow> ws \<in> {[''access'', ''token''], [''api'', ''key''], [''authorization''],
     [''captcha'', ''code''], [''cookie''], [''cookies''], [''credential''], [''credentials''], [''file'', ''path''],
     [''image''], [''image'', ''data''], [''inline'', ''image''], [''inline'', ''screenshot''], [''local'', ''path''],
     [''otp''], [''password''], [''private'', ''key''], [''refresh'', ''token''], [''screenshot''], [''secret''],
     [''secrets''], [''session'', ''cookie''], [''token''], [''tokens''], [''verification'', ''code'']}"

definition control_char :: "char \<Rightarrow> bool" where
  "control_char c \<longleftrightarrow> code c < 32 \<or> 127 \<le> code c \<and> code c < 160"

definition refused_name :: "str \<Rightarrow> bool" where
  "refused_name key \<longleftrightarrow> key = [] \<or> 128 < length key \<or> (\<exists>c \<in> set key. control_char c)
     \<or> (\<exists>ws. spelled ws key \<and> (secret_phrase ws \<or> (\<exists>w \<in> set ws. secret_word w)))"

lemma split_underscore_Nil [simp]: "split_underscore s \<noteq> []"
  by (induction s) (auto split: list.split)

lemma Nil_split_underscore [simp]: "[] \<noteq> split_underscore s"
  by (metis split_underscore_Nil)

lemma split_underscore_Cons:
  "split_underscore (c # s) = (if c = CHR ''_'' then [] # split_underscore s
     else (c # hd (split_underscore s)) # tl (split_underscore s))"
  by (auto split: list.split)

lemma split_underscore_inj: "split_underscore s = split_underscore t \<Longrightarrow> s = t"
proof (induction s arbitrary: t)
  case Nil
  then show ?case
    by (cases t) (auto simp: split_underscore_Cons simp del: split_underscore.simps(2) split: if_splits)
next
  case (Cons c s)
  have same: "s = u" if "hd (split_underscore s) = hd (split_underscore u)" "tl (split_underscore s) = tl (split_underscore u)" for u
    using Cons.IH list.expand [of "split_underscore s" "split_underscore u"] that by simp
  show ?case using Cons
    by (cases t) (auto simp: split_underscore_Cons simp del: split_underscore.simps(2) split: if_splits intro: same)
qed

lemma secret_phrases: "secret_phrase (split_underscore n) \<longleftrightarrow> n \<in> set sensitive_payload_names"
proof -
  have "secret_phrase ws \<longleftrightarrow> ws \<in> split_underscore ` set sensitive_payload_names" for ws
    by (simp add: secret_phrase_def sensitive_payload_names_def)
  then show ?thesis using split_underscore_inj by blast
qed

lemma control_iff: "contains_control_or_bidi s \<longleftrightarrow> (\<exists>c \<in> set s. control_char c)"
proof -
  have "code c \<le> 31 \<or> (127 \<le> code c \<and> code c \<le> 159) \<longleftrightarrow> control_char c" for c by (auto simp: control_char_def)
  then show ?thesis by (simp add: contains_control_or_bidi_def list_ex_iff)
qed

lemma forbidden_field_iff: "forbidden_field key \<longleftrightarrow> refused_name key"
  by (auto simp: forbidden_field_def refused_name_def spelled_iff secret_phrases control_iff list_ex_iff
      secret_word_def sensitive_payload_segments_def)

subsection \<open>Text that is refused\<close>

definition media_text :: "str \<Rightarrow> bool" where
  "media_text x \<longleftrightarrow> x \<noteq> [] \<and> (\<forall>c \<in> set x. ascii_alnum c \<or> c \<in> set ''.+-'')"

definition secret_label :: "str \<Rightarrow> bool" where
  "secret_label v \<longleftrightarrow>
     v \<in> {''authorization'', ''cookie'', ''credential'', ''password'', ''secret'', ''token''} \<or>
     (\<exists>(a, b) \<in> {(''access'', ''token''), (''api'', ''key''), (''private'', ''key''), (''refresh'', ''token''),
        (''session'', ''cookie'')}. \<exists>g \<in> {[], ''_'', ''-''}. v = a @ g @ b)"

definition private_root :: "str \<Rightarrow> bool" where
  "private_root v \<longleftrightarrow> v \<in> {''/users'', ''/home'', ''/root'', ''/tmp'', ''/var/folders''}"

text \<open>A path starts the text or follows a blank, a quote or an equals sign.\<close>

definition before_path :: "str \<Rightarrow> bool" where
  "before_path a \<longleftrightarrow> a = [] \<or> py_space (last a) \<or> code (last a) \<in> {34, 39} \<or> last a = CHR ''=''"

inductive refused_text :: "str \<Rightarrow> bool" where
  too_long: "4096 < length s \<Longrightarrow> refused_text s"
| control: "c \<in> set s \<Longrightarrow> control_char c \<Longrightarrow> refused_text s"
| bearer: "casefold s = a @ ''bearer '' @ b \<Longrightarrow> refused_text s"
| file_url: "casefold s = a @ ''file://'' @ b \<Longrightarrow> refused_text s"
| assignment: "a = [] \<or> \<not> ascii_alnum (last a) \<and> last a \<noteq> CHR ''_'' \<Longrightarrow> secret_label (map lower_char v) \<Longrightarrow>
    \<forall>x \<in> set blanks. py_space x \<Longrightarrow> c = CHR '':'' \<or> c = CHR ''='' \<Longrightarrow> refused_text (a @ v @ blanks @ c # b)"
| inline_data: "a = [] \<or> \<not> word_char (last a) \<Longrightarrow> map lower_char v = ''data:'' \<Longrightarrow> media_text x \<Longrightarrow> media_text y \<Longrightarrow>
    refused_text (a @ v @ x @ ''/'' @ y @ z @ '','' @ b)"
| private_path: "before_path a \<Longrightarrow> private_root (map lower_char v) \<Longrightarrow>
    b = [] \<or> hd b = CHR ''/'' \<or> map code b = [10::nat] \<Longrightarrow> refused_text (a @ v @ b)"
| drive_path: "before_path a \<Longrightarrow> ascii_lower d \<or> ascii_upper d \<Longrightarrow> code c = 92 \<or> c = CHR ''/'' \<Longrightarrow>
    refused_text (a @ d # CHR '':'' # c # b)"

text \<open>A letter matches without regard to its case when it has the same small letter.\<close>

lemma same_letter_lower:
  assumes "code p < 128" "\<not> ascii_upper p"
  shows "same_letter p c \<longleftrightarrow> lower_char c = p"
proof (cases "ascii_upper c \<or> (192 \<le> code c \<and> code c \<le> 222 \<and> code c \<noteq> 215)")
  case True
  then have "lower_char c = p \<longleftrightarrow> code c + 32 = code p"
    by (auto simp: lower_char_def char_of_eq_iff take_bit_eq_mod ascii_upper_def)
  moreover have "p \<noteq> c" using assms True by auto
  ultimately show ?thesis using assms True by (auto simp: same_letter_def ascii_upper_def)
next
  case False
  then show ?thesis using assms by (auto simp: same_letter_def lower_char_def)
qed

definition plain_word :: "str \<Rightarrow> bool" where
  "plain_word w \<longleftrightarrow> (\<forall>p \<in> set w. code p < 128 \<and> \<not> ascii_upper p)"

lemma after_word:
  assumes "plain_word w"
  shows "after_prefix same_letter w s = Some r \<longleftrightarrow> (\<exists>v. s = v @ r \<and> map lower_char v = w)"
proof -
  have "list_all2 same_letter w v \<longleftrightarrow> map lower_char v = w" for v
    using assms
    by (induction w arbitrary: v) (auto simp: plain_word_def same_letter_lower list_all2_Cons1 map_eq_Cons_conv)
  then show ?thesis by (simp add: after_prefix_Some)
qed

lemma dropWhile_first:
  assumes "\<not> P c"
  shows "dropWhile P r = c # b \<longleftrightarrow> (\<exists>x. r = x @ c # b \<and> (\<forall>y \<in> set x. P y))"
proof
  assume "dropWhile P r = c # b"
  then have "r = takeWhile P r @ c # b" by (metis takeWhile_dropWhile_id)
  then show "\<exists>x. r = x @ c # b \<and> (\<forall>y \<in> set x. P y)" by (metis set_takeWhileD)
qed (use assms in auto)

lemma secret_labels: "secret_label v \<longleftrightarrow> v \<in> set sensitive_words"
  by (simp add: secret_label_def sensitive_words_def disj_ac)

lemma sensitive_words_plain: "w \<in> set sensitive_words \<Longrightarrow> plain_word w"
  by (auto simp: sensitive_words_def plain_word_def ascii_upper_def)

lemma case_first: "(case xs of [] \<Rightarrow> False | c # cs \<Rightarrow> P c cs) \<longleftrightarrow> (\<exists>c cs. xs = c # cs \<and> P c cs)"
  by (cases xs) auto

lemma case_found: "(case x of None \<Rightarrow> False | Some r \<Rightarrow> P r) \<longleftrightarrow> (\<exists>r. x = Some r \<and> P r)"
  by (cases x) auto

lemma separator_not_space: "c = CHR '':'' \<or> c = CHR ''='' \<Longrightarrow> \<not> py_space c"
  by (auto simp: py_space_def)

lemma word_hit:
  assumes "\<And>w. w \<in> W \<Longrightarrow> plain_word w"
  shows "(\<exists>w \<in> W. \<exists>r. after_prefix same_letter w t = Some r \<and> Q r) \<longleftrightarrow> (\<exists>v r. t = v @ r \<and> map lower_char v \<in> W \<and> Q r)"
  using after_word [OF assms] by blast

lemma assignment_at_iff:
  "sensitive_assignment_at prev t \<longleftrightarrow> (case prev of None \<Rightarrow> True | Some c \<Rightarrow> \<not> (ascii_alnum c \<or> c = CHR ''_'')) \<and>
     (\<exists>v r. t = v @ r \<and> secret_label (map lower_char v) \<and> (\<exists>blanks c b. r = blanks @ c # b
       \<and> (\<forall>x \<in> set blanks. py_space x) \<and> (c = CHR '':'' \<or> c = CHR ''='')))"
proof -
  have rest: "(\<exists>c cs. dropWhile py_space r = c # cs \<and> (c = CHR '':'' \<or> c = CHR ''='')) \<longleftrightarrow>
      (\<exists>blanks c b. r = blanks @ c # b \<and> (\<forall>x \<in> set blanks. py_space x) \<and> (c = CHR '':'' \<or> c = CHR ''=''))" for r
  proof -
    have "dropWhile py_space r = c # b \<longleftrightarrow> (\<exists>x. r = x @ c # b \<and> (\<forall>y \<in> set x. py_space y))"
      if "c = CHR '':'' \<or> c = CHR ''=''" for c b
      by (rule dropWhile_first) (rule separator_not_space [OF that])
    then have "dropWhile py_space r = c # b \<and> (c = CHR '':'' \<or> c = CHR ''='') \<longleftrightarrow>
        (\<exists>x. r = x @ c # b \<and> (\<forall>y \<in> set x. py_space y) \<and> (c = CHR '':'' \<or> c = CHR ''=''))" for c b
      by (cases "c = CHR '':'' \<or> c = CHR ''=''") simp_all
    then show ?thesis by (simp only: ex_comm [of "\<lambda>b x. r = x @ _ # b \<and> _ x"]) (iprover)
  qed
  show ?thesis
    unfolding sensitive_assignment_at_def list_ex_iff case_found case_first rest secret_labels
    by (simp only: word_hit [OF sensitive_words_plain])
qed

lemma media_text_iff: "media_text x \<longleftrightarrow> x \<noteq> [] \<and> (\<forall>c \<in> set x. media_char c)"
  by (simp add: media_text_def media_char_def)

lemma not_media: "\<not> media_char CHR ''/''" "\<not> media_char CHR '',''"
  by (simp_all add: media_char_def ascii_alnum_def ascii_lower_def ascii_upper_def ascii_digit_def)

lemma media_tail:
  "takeWhile media_char s \<noteq> [] \<and> CHR '','' \<in> set (dropWhile media_char s) \<longleftrightarrow>
     (\<exists>y z b. s = y @ z @ '','' @ b \<and> media_text y)"
proof
  assume l: "takeWhile media_char s \<noteq> [] \<and> CHR '','' \<in> set (dropWhile media_char s)"
  then obtain z b where "dropWhile media_char s = z @ '','' @ b" by (auto dest: split_list)
  moreover have "media_text (takeWhile media_char s)" using l by (auto simp: media_text_iff dest: set_takeWhileD)
  ultimately show "\<exists>y z b. s = y @ z @ '','' @ b \<and> media_text y" by (metis takeWhile_dropWhile_id)
next
  assume "\<exists>y z b. s = y @ z @ '','' @ b \<and> media_text y"
  then obtain y z b where s: "s = y @ z @ '','' @ b" and y: "media_text y" by blast
  have "takeWhile media_char s \<noteq> []" using y by (cases y) (auto simp: s media_text_iff)
  moreover have "CHR '','' \<notin> set (takeWhile media_char s)" using not_media(2) set_takeWhileD by metis
  moreover have "CHR '','' \<in> set (takeWhile media_char s @ dropWhile media_char s)" by (simp add: s)
  ultimately show "takeWhile media_char s \<noteq> [] \<and> CHR '','' \<in> set (dropWhile media_char s)" by (simp del: takeWhile_dropWhile_id)
qed

lemma inline_data_at_iff:
  "inline_data_at prev t \<longleftrightarrow> (case prev of None \<Rightarrow> True | Some c \<Rightarrow> \<not> word_char c) \<and>
     (\<exists>v r. t = v @ r \<and> map lower_char v = ''data:'' \<and>
       (\<exists>x y z b. r = x @ ''/'' @ y @ z @ '','' @ b \<and> media_text x \<and> media_text y))"
proof -
  have word: "after_prefix same_letter ''data:'' t = Some r \<longleftrightarrow> (\<exists>v. t = v @ r \<and> map lower_char v = ''data:'')" for r
    by (rule after_word) (simp add: plain_word_def ascii_upper_def)
  have rest: "takeWhile media_char r \<noteq> [] \<and> (\<exists>c cs. dropWhile media_char r = c # cs \<and> c = CHR ''/'' \<and>
      takeWhile media_char cs \<noteq> [] \<and> CHR '','' \<in> set (dropWhile media_char cs)) \<longleftrightarrow>
    (\<exists>x y z b. r = x @ ''/'' @ y @ z @ '','' @ b \<and> media_text x \<and> media_text y)" (is "?l \<longleftrightarrow> ?r") for r
  proof
    assume ?l
    then obtain cs where cs: "dropWhile media_char r = CHR ''/'' # cs" "takeWhile media_char r \<noteq> []"
      "\<exists>y z b. cs = y @ z @ '','' @ b \<and> media_text y" using media_tail by blast
    have "media_text (takeWhile media_char r)" using cs(2) by (auto simp: media_text_iff dest: set_takeWhileD)
    moreover have "r = takeWhile media_char r @ ''/'' @ cs" using cs(1) takeWhile_dropWhile_id [of media_char r] by simp
    ultimately show ?r using cs(3) by metis
  next
    assume ?r
    then obtain x cs where r: "r = x @ ''/'' @ cs" "media_text x" "\<exists>y z b. cs = y @ z @ '','' @ b \<and> media_text y" by blast
    then have "dropWhile media_char r = CHR ''/'' # cs" "takeWhile media_char r = x"
      using not_media(1) by (auto simp: media_text_iff)
    then show ?l using r media_tail [of cs] by (auto simp: media_text_iff)
  qed
  have pull: "(\<exists>r. (\<exists>v. t = v @ r \<and> A v) \<and> B r) \<longleftrightarrow> (\<exists>v r. t = v @ r \<and> A v \<and> B r)" for A B by blast
  show ?thesis unfolding inline_data_at_def case_found case_first word rest pull ..
qed

lemma path_boundary_iff: "path_boundary (if a = [] then None else Some (last a)) \<longleftrightarrow> before_path a"
  by (auto simp: path_boundary_def before_path_def)

lemma private_posix_at_iff:
  "private_posix_at prev t \<longleftrightarrow> path_boundary prev \<and>
     (\<exists>v b. t = v @ b \<and> private_root (map lower_char v) \<and> (b = [] \<or> hd b = CHR ''/'' \<or> map code b = [10::nat]))"
proof -
  have rest: "(case r of [] \<Rightarrow> True | c # cs \<Rightarrow> c = CHR ''/'' \<or> (code c = (10::nat) \<and> cs = [])) \<longleftrightarrow>
      r = [] \<or> hd r = CHR ''/'' \<or> map code r = [10::nat]" for r
    by (cases r) auto
  have plain: "plain_word (CHR ''/'' # w)" if "w \<in> set [''users'', ''home'', ''root'', ''tmp'', ''var/folders'']" for w
    using that by (auto simp: plain_word_def ascii_upper_def)
  have "private_posix_at prev t \<longleftrightarrow> path_boundary prev \<and>
      (\<exists>w \<in> (#) (CHR ''/'') ` set [''users'', ''home'', ''root'', ''tmp'', ''var/folders'']. \<exists>r.
        after_prefix same_letter w t = Some r \<and> (r = [] \<or> hd r = CHR ''/'' \<or> map code r = [10::nat]))"
    unfolding private_posix_at_def list_ex_iff case_found rest bex_simps(7) ..
  also have "\<dots> \<longleftrightarrow> path_boundary prev \<and> (\<exists>v r. t = v @ r
      \<and> map lower_char v \<in> (#) (CHR ''/'') ` set [''users'', ''home'', ''root'', ''tmp'', ''var/folders'']
      \<and> (r = [] \<or> hd r = CHR ''/'' \<or> map code r = [10::nat]))"
    by (subst word_hit) (use plain in auto)
  finally show ?thesis by (simp add: private_root_def)
qed

lemma windows_path_at_iff:
  "windows_path_at prev t \<longleftrightarrow> path_boundary prev \<and> (\<exists>d c b. t = d # CHR '':'' # c # b
     \<and> (ascii_lower d \<or> ascii_upper d) \<and> (code c = (92::nat) \<or> c = CHR ''/''))"
  by (auto simp: windows_path_at_def split: list.splits)

lemma search_first: "search found None s \<longleftrightarrow> (\<exists>a t. s = a @ t \<and> found (if a = [] then None else Some (last a)) t)"
  by (rule search_iff)

lemma edge: "(case (if a = [] then None else Some (last a)) of None \<Rightarrow> True | Some c \<Rightarrow> P c) \<longleftrightarrow> a = [] \<or> P (last a)"
  by simp

lemma pull_parts:
  "(\<exists>a t. s = a @ t \<and> P a \<and> (\<exists>v r. t = v @ r \<and> A v \<and> B r)) \<longleftrightarrow> (\<exists>a v r. s = a @ v @ r \<and> P a \<and> A v \<and> B r)"
  by blast

lemma assignment_iff:
  "search sensitive_assignment_at None s \<longleftrightarrow> (\<exists>a v r. s = a @ v @ r
     \<and> (a = [] \<or> \<not> ascii_alnum (last a) \<and> last a \<noteq> CHR ''_'') \<and> secret_label (map lower_char v)
     \<and> (\<exists>blanks c b. r = blanks @ c # b \<and> (\<forall>x \<in> set blanks. py_space x) \<and> (c = CHR '':'' \<or> c = CHR ''='')))"
  unfolding search_first assignment_at_iff edge de_Morgan_disj pull_parts ..

lemma inline_iff:
  "search inline_data_at None s \<longleftrightarrow> (\<exists>a v r. s = a @ v @ r \<and> (a = [] \<or> \<not> word_char (last a))
     \<and> map lower_char v = ''data:'' \<and> (\<exists>x y z b. r = x @ ''/'' @ y @ z @ '','' @ b \<and> media_text x \<and> media_text y))"
  unfolding search_first inline_data_at_iff edge pull_parts ..

lemma private_iff:
  "search private_posix_at None s \<longleftrightarrow> (\<exists>a v b. s = a @ v @ b \<and> before_path a \<and> private_root (map lower_char v)
     \<and> (b = [] \<or> hd b = CHR ''/'' \<or> map code b = [10::nat]))"
  unfolding search_first private_posix_at_iff path_boundary_iff pull_parts ..

lemma drive_iff:
  "search windows_path_at None s \<longleftrightarrow> (\<exists>a t. s = a @ t \<and> before_path a \<and> (\<exists>d c b. t = d # CHR '':'' # c # b
     \<and> (ascii_lower d \<or> ascii_upper d) \<and> (code c = (92::nat) \<or> c = CHR ''/'')))"
  unfolding search_first windows_path_at_iff path_boundary_iff ..

lemma unsafe_iff:
  "unsafe_payload_string s \<longleftrightarrow> 4096 < length s \<or> (\<exists>c \<in> set s. control_char c)
     \<or> (\<exists>a b. casefold s = a @ ''bearer '' @ b) \<or> (\<exists>a b. casefold s = a @ ''file://'' @ b)
     \<or> search sensitive_assignment_at None s \<or> search inline_data_at None s
     \<or> search private_posix_at None s \<or> search windows_path_at None s"
  unfolding unsafe_payload_string_def is_unsafe_text_def control_iff contains_iff max_executor_string_length_def ..

lemma unsafe_refused:
  assumes "unsafe_payload_string s"
  shows "refused_text s"
  using assms unfolding unsafe_iff
proof (elim disjE exE bexE)
  assume "search sensitive_assignment_at None s"
  then show ?thesis unfolding assignment_iff by (elim exE conjE) (simp only: refused_text.assignment)
next
  assume "search inline_data_at None s"
  then show ?thesis unfolding inline_iff by (elim exE conjE) (simp only: refused_text.inline_data)
next
  assume "search private_posix_at None s"
  then show ?thesis unfolding private_iff by (elim exE conjE) (simp only: refused_text.private_path)
next
  assume "search windows_path_at None s"
  then show ?thesis unfolding drive_iff by (elim exE conjE) (simp only: refused_text.drive_path)
qed (erule refused_text.too_long refused_text.bearer refused_text.file_url | erule (1) refused_text.control)+

lemma refused_unsafe:
  assumes "refused_text s"
  shows "unsafe_payload_string s"
  using assms
proof cases
  case (assignment a v blanks c b)
  then have "search sensitive_assignment_at None s" unfolding assignment_iff by blast
  then show ?thesis unfolding unsafe_iff by blast
next
  case (inline_data a v x y z b)
  have tail: "\<exists>x' y' z' b'. x @ ''/'' @ y @ z @ '','' @ b = x' @ ''/'' @ y' @ z' @ '','' @ b' \<and> media_text x' \<and> media_text y'"
    by (rule exI [of _ x], rule exI [of _ y], rule exI [of _ z], rule exI [of _ b]) (use inline_data in simp)
  have "search inline_data_at None s" unfolding inline_iff
    by (rule exI [of _ a], rule exI [of _ v], rule exI [of _ "x @ ''/'' @ y @ z @ '','' @ b"], intro conjI)
      (fact inline_data(1) inline_data(2) inline_data(3) tail)+
  then show ?thesis unfolding unsafe_iff by blast
next
  case (private_path a v b)
  have "search private_posix_at None s" unfolding private_iff
    by (rule exI [of _ a], rule exI [of _ v], rule exI [of _ b], intro conjI) (fact private_path)+
  then show ?thesis unfolding unsafe_iff by blast
next
  case (drive_path a d c b)
  then have "search windows_path_at None s" unfolding drive_iff by blast
  then show ?thesis unfolding unsafe_iff by blast
qed (unfold unsafe_iff, blast+)

lemma unsafe_text_iff: "unsafe_payload_string s \<longleftrightarrow> refused_text s"
  using unsafe_refused refused_unsafe by blast

end
