(* ===== verification/Message_Properties.thy ===== *)
theory Message_Properties
  imports Payload_Rules
begin

text \<open>
  Properties of what may cross the boundary as a message: the recursive payload check against a
  declarative one, the typed payloads against that check, message templates against the language
  of templates, and candidate keys.
\<close>

subsection \<open>Payload safety, declaratively\<close>

text \<open>A name in snake case is its own normal form.\<close>

definition snake_char :: "char \<Rightarrow> bool" where
  "snake_char c \<longleftrightarrow> ascii_lower c \<or> c = CHR ''_''"

lemma snake_char_facts:
  "snake_char c \<Longrightarrow> \<not> ascii_upper c" "snake_char c \<Longrightarrow> c \<notin> set ''.-''" "snake_char c \<Longrightarrow> lower_char c = c"
  by (auto simp: snake_char_def ascii_lower_def ascii_upper_def lower_char_def)

lemma snake_squeeze: "list_all snake_char s \<Longrightarrow> squeeze_separators s = s"
  by (induction s rule: squeeze_separators.induct) (auto dest: snake_char_facts(2))

lemma snake_name:
  assumes "list_all snake_char s"
  shows "normalized_payload_name s = s"
proof -
  have "camel_split s = s"
    using assms by (induction s rule: camel_split.induct) (simp_all add: snake_char_facts)
  moreover have "map lower_char s = s"
    using assms by (simp add: map_idI list_all_iff snake_char_facts)
  ultimately show ?thesis using assms by (simp add: normalized_payload_name_def snake_squeeze)
qed

lemma snake_field:
  assumes "list_all snake_char s"
  shows "forbidden_field s \<longleftrightarrow> s = [] \<or> length s > 128 \<or> s \<in> set sensitive_payload_names
    \<or> list_ex (\<lambda>w. w \<in> set sensitive_payload_segments) (split_underscore s)"
proof -
  have "\<not> contains_control_or_bidi s"
    using assms by (auto simp: contains_control_or_bidi_def list_ex_iff list_all_iff snake_char_def
        ascii_lower_def)
  then show ?thesis by (simp add: forbidden_field_def snake_name [OF assms])
qed

text \<open>\<open>inside v d w\<close>: the value \<open>w\<close> occurs in \<open>v\<close>, \<open>d\<close> levels down.\<close>

inductive inside :: "json \<Rightarrow> nat \<Rightarrow> json \<Rightarrow> bool" where
  here: "inside v 0 v"
| in_object: "(k, v) \<in> set kvs \<Longrightarrow> inside v d w \<Longrightarrow> inside (JObj kvs) (Suc d) w"
| in_array: "v \<in> set vs \<Longrightarrow> inside v d w \<Longrightarrow> inside (JArr vs) (Suc d) w"

inductive_cases inside_objectE: "inside (JObj kvs) d w"
inductive_cases inside_arrayE: "inside (JArr vs) d w"

inductive_simps inside_leaf:
  "inside JNull d w" "inside (JBool b) d w" "inside (JInt n) d w" "inside (JFloat m e) d w"
  "inside (JStr s) d w"

fun node_ok :: "json \<Rightarrow> bool" where
  "node_ok (JObj kvs) \<longleftrightarrow> length kvs \<le> max_executor_collection_items
     \<and> (\<forall>k \<in> fst ` set kvs. \<not> forbidden_field k)"
| "node_ok (JArr vs) \<longleftrightarrow> length vs \<le> max_executor_collection_items"
| "node_ok (JStr s) \<longleftrightarrow> \<not> unsafe_payload_string s"
| "node_ok v \<longleftrightarrow> True"

lemma inside_object_all:
  "(\<forall>d w. inside (JObj kvs) d w \<longrightarrow> Q d w) \<longleftrightarrow>
     Q 0 (JObj kvs) \<and> (\<forall>kv \<in> set kvs. \<forall>d w. inside (snd kv) d w \<longrightarrow> Q (Suc d) w)"
  using in_object [of _ _ kvs] by (force intro: here elim!: inside_objectE)

lemma inside_array_all:
  "(\<forall>d w. inside (JArr vs) d w \<longrightarrow> Q d w) \<longleftrightarrow>
     Q 0 (JArr vs) \<and> (\<forall>v \<in> set vs. \<forall>d w. inside v d w \<longrightarrow> Q (Suc d) w)"
  by (auto intro: inside.intros elim!: inside_arrayE)

lemma payload_value_ok_inside:
  "payload_value_ok n v \<longleftrightarrow>
     (\<forall>d w. inside v d w \<longrightarrow> n + d \<le> max_executor_payload_depth \<and> node_ok w)"
proof (induction v arbitrary: n)
  case (JObj kvs)
  have "payload_value_ok (n + 1) (snd kv) \<longleftrightarrow>
      (\<forall>d w. inside (snd kv) d w \<longrightarrow> n + Suc d \<le> max_executor_payload_depth \<and> node_ok w)"
    if "kv \<in> set kvs" for kv
    using JObj.IH [OF that, of "snd kv" "n + 1"] by (simp add: snds.simps)
  then show ?case by (auto simp: inside_object_all list_all_iff)
next
  case (JArr vs)
  have "payload_value_ok (n + 1) v \<longleftrightarrow>
      (\<forall>d w. inside v d w \<longrightarrow> n + Suc d \<le> max_executor_payload_depth \<and> node_ok w)"
    if "v \<in> set vs" for v
    using JArr.IH [OF that, of "n + 1"] by simp
  then show ?case by (simp add: inside_array_all list_all_iff)
qed (auto simp: inside_leaf)

text \<open>What the rules say of one value: the size of a collection, the names of an object, the text of a string.\<close>

fun admissible :: "json \<Rightarrow> bool" where
  "admissible (JObj kvs) \<longleftrightarrow> length kvs \<le> 64 \<and> (\<forall>k \<in> fst ` set kvs. \<not> refused_name k)"
| "admissible (JArr vs) \<longleftrightarrow> length vs \<le> 64"
| "admissible (JStr s) \<longleftrightarrow> \<not> refused_text s"
| "admissible v \<longleftrightarrow> True"

lemma node_ok_admissible: "node_ok v \<longleftrightarrow> admissible v"
  by (cases v) (simp_all add: forbidden_field_iff unsafe_text_iff max_executor_collection_items_def)

text \<open>
  C37. The recursive payload check accepts a value exactly when the rules allow everything inside it. No
  value lies deeper than eight levels, and no object or array has more than 64 entries. No field has an
  empty or overlong name, a name with a control character, or one that is spelled with a secret word or
  with the words of a secret phrase, whether the words are joined by an underscore, by dots and hyphens or
  by camel case, in letters of any case. No text is longer than 4096 characters, has a control character,
  or shows a bearer token, a file URL, a secret with its value, inline data or an absolute private path.
  The rules are stated by decompositions of the text and literal words, apart from the routines.
\<close>

theorem payload_accepted_iff:
  "payload_value_ok 0 v \<longleftrightarrow> (\<forall>d w. inside v d w \<longrightarrow> d \<le> 8 \<and> admissible w)"
  by (simp add: payload_value_ok_inside node_ok_admissible max_executor_payload_depth_def)

lemma lower_words: "map lower_char ''access'' = ''access''" "map lower_char ''Token'' = ''token''"
  by code_simp+

lemma access_token_spelled: "spelled [''access'', ''token''] ''accessToken''"
proof -
  have "unbroken ''access''" "unbroken ''Token''" "gap ''access'' [] ''Token''"
    by (simp_all add: gap_def hump_def ascii_lower_def ascii_upper_def ascii_digit_def)
  from next_word [OF this(1,3) last_word [OF this(2)]] show ?thesis unfolding lower_words by simp
qed

theorem payload_accepted_iff_witness:
  "\<not> payload_value_ok 0 (JObj [(''steps'', JArr [JObj [(''accessToken'', JNull)]])])
   \<and> \<not> payload_value_ok 0 (JArr [JStr ''Token = 7''])"
proof
  have "inside (JObj [(''steps'', JArr [JObj [(''accessToken'', JNull)]])]) 2
      (JObj [(''accessToken'', JNull)])"
    by (auto simp: numeral_2_eq_2 intro!: inside.intros)
  moreover have "refused_name ''accessToken''"
    unfolding refused_name_def using access_token_spelled secret_phrase_def by blast
  then have "\<not> admissible (JObj [(''accessToken'', JNull)])" by simp
  ultimately show "\<not> payload_value_ok 0 (JObj [(''steps'', JArr [JObj [(''accessToken'', JNull)]])])"
    unfolding payload_accepted_iff by blast
  have "secret_label (map lower_char ''Token'')" unfolding lower_words by (simp add: secret_label_def)
  then have "refused_text ([] @ ''Token'' @ '' '' @ CHR ''='' # '' 7'')"
    by (intro refused_text.assignment) (simp_all add: py_space_def)
  then have "\<not> admissible (JStr ''Token = 7'')" by simp
  moreover have "inside (JArr [JStr ''Token = 7'']) 1 (JStr ''Token = 7'')"
    unfolding One_nat_def by (rule in_array [OF _ here]) simp
  ultimately show "\<not> payload_value_ok 0 (JArr [JStr ''Token = 7''])"
    unfolding payload_accepted_iff by blast
qed

subsection \<open>Typed payloads\<close>

lemma plain_string_safe:
  "list_all plain_char s \<Longrightarrow> length s \<le> max_executor_string_length \<Longrightarrow> \<not> unsafe_payload_string s"
  by (simp add: unsafe_payload_string_def plain_text_safe)

lemma bounded_text_safe:
  "\<not> is_unsafe_text s m \<Longrightarrow> m \<le> max_executor_string_length \<Longrightarrow> \<not> unsafe_payload_string s"
  by (simp add: unsafe_payload_string_def is_unsafe_text_mono)

lemma separator_plain: "plain_char CHR ''_''" "plain_char CHR ''.''" "plain_char CHR ''-''"
  by (simp_all add: plain_char_def)

lemma alnum_plain: "ascii_alnum c \<Longrightarrow> plain_char c"
  by (auto simp: ascii_alnum_def ascii_lower_def ascii_upper_def ascii_digit_def plain_char_def)

lemma uuid_safe:
  assumes "is_canonical_uuid_v4 s"
  shows "\<not> unsafe_payload_string s"
proof (rule plain_string_safe)
  have "plain_char (s ! i)" if "i < length s" for i
  proof -
    have "uuid_shape i (s ! i)"
      using assms that by (auto simp: is_canonical_uuid_v4_def list_all_length nth_enumerate_eq)
    then show ?thesis
      by (auto simp: uuid_shape_def hex_digit_def plain_char_def split: if_splits)
  qed
  then show "list_all plain_char s" by (simp add: list_all_length)
  show "length s \<le> max_executor_string_length"
    using canonical_uuid_length [OF assms] by (simp add: max_executor_string_length_def)
qed

lemma identifier_safe:
  assumes "valid_platform_identifier s m" "m \<le> max_executor_string_length"
  shows "\<not> unsafe_payload_string s"
proof (rule plain_string_safe)
  have "plain_char c" if "ascii_alnum c \<or> c \<in> set ''_.-''" for c
    using that alnum_plain separator_plain by auto
  moreover have "list_all (\<lambda>c. ascii_alnum c \<or> c \<in> set ''_.-'') s"
    using assms(1) unfolding valid_platform_identifier_def platform_identifier_pattern_def
    by (cases s) simp_all
  ultimately show "list_all plain_char s" unfolding list_all_iff by blast
qed (use assms in \<open>simp add: valid_platform_identifier_def\<close>)

lemma payload_fields_allowed:
  "list_all (\<lambda>k. \<not> forbidden_field k)
     [''discovery_version'', ''keyword'', ''target_limit'', ''page_revision'', ''action_version'',
      ''action_id'', ''target_id'', ''action'', ''platform_target_id'', ''display_name'',
      ''public_handle'', ''source'', ''message_template_version'', ''message_template'',
      ''batch_index'', ''batch_count'', ''candidates'', ''candidate_version'', ''outcome'',
      ''evidence'', ''candidate_count'']"
  by (simp add: snake_field snake_char_def ascii_lower_def sensitive_payload_names_def
      sensitive_payload_segments_def)

lemmas field_allowed [simp] = payload_fields_allowed [simplified]

lemma literals_safe:
  "list_all (\<lambda>s. \<not> unsafe_payload_string s)
     [''douyin.discovery.v1'', ''douyin.action-command.v1'', ''douyin.candidate.v1'',
      ''action-message-template.v1'', ''general_search_author'', ''browse'', ''comment'',
      ''direct_message'', ''completed'', ''login_required'', ''handoff_required'', ''failed'',
      ''candidates_extracted'', ''blocking_dialog'', ''page_version_unknown'',
      ''conflicting_anchors'', ''no_candidates'', ''navigation_timed_out'',
      ''home_ready_timed_out'', ''action_timed_out'', ''result_url_timed_out'',
      ''results_ready_timed_out'', ''results_unavailable'', ''privacy_rejected'',
      ''result_count_decreased'', ''cancellation_unavailable'', ''cancellation_requested'',
      ''page_unavailable'']"
  by (simp add: plain_string_safe plain_char_def max_executor_string_length_def)

lemmas literal_safe [simp] = literals_safe [simplified]

lemma candidate_labels_ok:
  assumes "candidate_payload_ok c" and "n \<le> 7"
  shows "list_all (\<lambda>kv. \<not> forbidden_field (fst kv) \<and> payload_value_ok n (snd kv)) (candidate_labels c)"
proof -
  note bounds = max_executor_string_length_def max_douyin_target_id_characters_def
    max_candidate_public_handle_characters_def max_candidate_display_name_characters_def
  have "\<not> unsafe_payload_string (cp_platform_target_id c)" "\<not> unsafe_payload_string (cp_display_name c)"
    using assms(1) by (auto simp: candidate_payload_ok_def candidate_ok_def valid_display_name_def
        bounds elim!: identifier_safe bounded_text_safe)
  moreover have "payload_value_ok n (json_opt (cp_public_handle c))"
    using assms identifier_safe [of _ max_candidate_public_handle_characters]
    by (auto simp: candidate_payload_ok_def candidate_ok_def valid_public_handle_def json_opt_def
        bounds max_executor_payload_depth_def split: option.splits)
  ultimately show ?thesis
    using assms(2) by (simp add: candidate_labels_def max_executor_payload_depth_def)
qed

lemmas payload_limits = max_executor_payload_depth_def max_executor_collection_items_def

lemma discovery_payload_safe:
  "discovery_command_ok d \<Longrightarrow> payload_value_ok 0 (payload_json (P_discovery d))"
  by (auto simp: discovery_command_ok_def search_input_ok_def payload_json_def payload_limits
      max_search_keyword_characters_def max_executor_string_length_def elim!: bounded_text_safe)

lemma message_template_safe: "message_template t \<noteq> None \<Longrightarrow> \<not> unsafe_payload_string t"
  by (auto simp: message_template_def max_action_message_template_characters_def
      max_executor_string_length_def elim!: bounded_text_safe split: if_splits)

lemma action_payload_safe:
  assumes "action_command_ok a"
  shows "payload_value_ok 0 (payload_json (P_action a))"
proof -
  have "\<not> unsafe_payload_string (ac_action_id a)" "\<not> unsafe_payload_string (ac_target_id a)"
    and labels: "candidate_payload_ok (ac_candidate a)"
    using assms by (simp_all add: action_command_ok_def uuid_safe)
  moreover have "payload_value_ok 1 (json_opt (ac_template_version a))"
    "payload_value_ok 1 (json_opt (ac_template a))"
    using assms message_template_safe
    by (auto simp: action_command_ok_def json_opt_def payload_limits split: if_splits option.splits)
  moreover have "payload_value_ok 1 (JStr (action_name (ac_action a)))"
    by (simp add: action_name_def payload_limits split: exposure_action.split)
  moreover have "length (candidate_labels (ac_candidate a)) = 5" by (simp add: candidate_labels_def)
  ultimately show ?thesis
    using candidate_labels_ok [OF labels, of 1] by (simp add: payload_json_def payload_limits)
qed

lemma batch_payload_safe:
  assumes "discovery_batch_ok b"
  shows "payload_value_ok 0 (payload_json (P_batch b))"
proof -
  have "payload_value_ok 2 (JObj ((''candidate_version'', JStr ''douyin.candidate.v1'') # candidate_labels c))"
    if "c \<in> set (db_candidates b)" for c
  proof -
    have "candidate_payload_ok c" using assms that by (simp add: discovery_batch_ok_def list_all_iff)
    from candidate_labels_ok [OF this, of 3] show ?thesis
      by (simp add: payload_limits candidate_labels_def numeral_3_eq_3)
  qed
  then show ?thesis
    using assms by (simp add: payload_json_def payload_limits discovery_batch_ok_def
        max_discovery_batch_candidates_def list_all_iff numeral_3_eq_3)
qed

lemma completed_payload_safe:
  assumes "discovery_completed_ok d"
  shows "payload_value_ok 0 (payload_json (P_completed d))"
proof -
  have "dd_evidence d \<in> set (expected_evidence (dd_outcome d))"
    using assms by (simp add: discovery_completed_ok_def)
  then have "\<not> unsafe_payload_string (dd_outcome d) \<and> \<not> unsafe_payload_string (dd_evidence d)"
    unfolding expected_evidence_def by (auto split: if_splits)
  then show ?thesis by (simp add: payload_json_def payload_limits)
qed

text \<open>
  The policies of the typed payloads are strong enough: a discovery command, action command,
  discovery batch or discovery completion that satisfies its own validators is never refused by the
  generic payload check every envelope runs.
\<close>

lemma typed_payload_passes_safety_check:
  assumes "envelope_payload_ok e"
    and "message_type e \<in>
      {M_task_discover, M_action_execute, M_task_discovery_batch, M_task_discovery_completed}"
  shows "payload_value_ok 0 (payload_json (payload e))"
  using assms discovery_payload_safe action_payload_safe batch_payload_safe completed_payload_safe
  by (auto simp: envelope_payload_ok_def task_command_types_def split: payload.splits if_splits)

definition discover_message :: envelope where
  "discover_message = \<lparr>
     message_id = [], message_type = M_task_discover, sent_at = 0, deadline_at = 1,
     installation_id = [], executor_id = [], correlation_id = [], idempotency_key = [],
     sequence = 2,
     payload = P_discovery \<lparr>dc_keyword = ''ceramic'', dc_target_limit = 20, dc_page_revision = 1\<rparr>,
     task_id = [], execution_attempt_id = []\<rparr>"

lemma typed_payload_passes_safety_check_witness:
  "payload_value_ok 0 (payload_json (payload discover_message))"
proof (rule typed_payload_passes_safety_check)
  have "\<not> is_unsafe_text ''ceramic'' max_search_keyword_characters"
    by (simp add: plain_text_safe plain_char_def max_search_keyword_characters_def)
  then show "envelope_payload_ok discover_message"
    by (simp add: envelope_payload_ok_def discover_message_def task_command_types_def
        discovery_command_ok_def search_input_ok_def sequence_ok_def max_cross_runtime_sequence_def
        max_search_keyword_characters_def max_task_target_limit_def strip_def py_space_def)
qed (simp add: discover_message_def)

subsection \<open>Message templates and candidate keys\<close>

text \<open>
  A message template is accepted exactly when it is safe, unpadded text of at most 500
  characters that reads as literal text without braces and occurrences of the one variable
  \<open>{{target_display_name}}\<close>, with a literal part that is not blank; the result then lists the
  variable once if it occurs.
\<close>

lemma template_accepted_iff:
  "message_template source = Some variables \<longleftrightarrow>
     strip source = source \<and> \<not> is_unsafe_text source max_action_message_template_characters
     \<and> (\<exists>n literal. template_text source n literal \<and> strip literal \<noteq> []
          \<and> variables = (if n = 0 then [] else [''target_display_name'']))"
  (is "?accepted \<longleftrightarrow> ?template")
proof -
  have once: "rev (remdups (rev names)) = (if length names = 0 then [] else [''target_display_name''])"
    if "list_all (\<lambda>n. n = ''target_display_name'') names" for names
  proof -
    have names: "names = replicate (length names) ''target_display_name''"
      using that by (simp add: list_all_iff replicate_length_same)
    have "remdups (replicate n ''target_display_name'')
        = (if n = 0 then [] else [''target_display_name''])" for n
      by (induction n) auto
    then show ?thesis by (subst names) (simp only: rev_replicate, simp)
  qed
  show ?thesis
  proof
    assume ?accepted
    then obtain names literal where "template_parts source = (names, literal)"
      "strip literal \<noteq> []" "CHR ''{'' \<notin> set literal" "CHR ''}'' \<notin> set literal"
      and names: "list_all (\<lambda>n. n = ''target_display_name'') names"
      and "strip source = source" "\<not> is_unsafe_text source max_action_message_template_characters"
      and "variables = rev (remdups (rev names))"
      by (auto simp: message_template_def split: if_splits prod.splits)
    moreover from this have "template_text source (length names) literal"
      by (intro template_text_parts)
    ultimately show ?template using once [OF names] by blast
  next
    assume ?template
    then obtain n literal where t: "template_text source n literal" and "strip literal \<noteq> []"
      and v: "variables = (if n = 0 then [] else [''target_display_name''])"
      and "strip source = source" "\<not> is_unsafe_text source max_action_message_template_characters"
      by blast
    moreover have "CHR ''{'' \<notin> set literal \<and> CHR ''}'' \<notin> set literal"
      using t by induction auto
    moreover have "source \<noteq> []" using t \<open>strip literal \<noteq> []\<close> by (cases) (auto simp: strip_def)
    ultimately show ?accepted
      using template_parts_text [OF t] once [of "replicate n ''target_display_name''"]
      by (simp add: message_template_def list_all_iff)
  qed
qed

text \<open>
  The stable key of a target: with a 32-byte digest it always exists and has the wire format of
  a candidate key, and two targets share a key exactly when their domain-separated digests collide.
\<close>

lemma candidate_key_stable:
  assumes "\<And>x. length (sha256 x) = 32"
  shows "\<exists>k l. derive_key sha256 s = Some k \<and> derive_key sha256 t = Some l
    \<and> candidate_key_ok k \<and> candidate_key_ok l
    \<and> (k = l \<longleftrightarrow> sha256 (encode_ascii (candidate_key_domain @ s))
                 = sha256 (encode_ascii (candidate_key_domain @ t)))"
proof -
  note key = derive_key_total [of sha256, OF assms]
  obtain d e where d: "derive_key sha256 s = Some (candidate_key_prefix @ d)"
    "urlsafe_b64encode (sha256 (encode_ascii (candidate_key_domain @ s))) = d @ ''=''"
    "candidate_key_ok (candidate_key_prefix @ d)"
    and e: "derive_key sha256 t = Some (candidate_key_prefix @ e)"
    "urlsafe_b64encode (sha256 (encode_ascii (candidate_key_domain @ t))) = e @ ''=''"
    "candidate_key_ok (candidate_key_prefix @ e)"
    using key [of s] key [of t] by blast
  have "d = e \<longleftrightarrow> sha256 (encode_ascii (candidate_key_domain @ s))
                 = sha256 (encode_ascii (candidate_key_domain @ t))"
    using d(2) e(2) b64encode_inj assms by (metis append_same_eq)
  with d e show ?thesis by simp
qed

lemma candidate_key_stable_witness:
  "\<exists>k l. derive_key (\<lambda>x. take 32 (rev x @ replicate 32 0)) ''a'' = Some k
    \<and> derive_key (\<lambda>x. take 32 (rev x @ replicate 32 0)) ''b'' = Some l \<and> k \<noteq> l"
proof -
  have "length (take 32 (rev x @ replicate 32 0)) = 32" for x :: bytes by simp
  from candidate_key_stable [of "\<lambda>x. take 32 (rev x @ replicate 32 0)" "''a''" "''b''", OF this] show ?thesis
    by (auto simp: encode_ascii_def)
qed

end
