(* ===== verification/Skill_Document.thy ===== *)
theory Skill_Document
  imports Wire
begin

text \<open>
  The declarative AutomationSkill document and its fail-closed parser
  (\<open>executor/automation_skill.py\<close>).

  A document is a JSON value; every \<open>_reject\<close> is \<open>None\<close>. The closed vocabularies and limits come
  from a contract file and are the parameter \<open>contract\<close>; \<open>contract_v1\<close> is the file of the
  repository. As everywhere in the development, text is made of code points below 256.
\<close>

subsection \<open>Skills\<close>

record skill_goal =
  gl_role :: str
  gl_name :: str
  gl_near_text :: "str option"
  gl_relative :: "str option"

record skill_condition =
  cn_kind :: str
  cn_role :: "str option"
  cn_name :: "str option"
  cn_pattern :: "str option"

record skill_action =
  sa_kind :: str
  sa_parameter :: "str option"
  sa_key :: "str option"
  sa_direction :: "str option"

record skill_step =
  sp_index :: int
  sp_goal :: skill_goal
  sp_action :: skill_action
  sp_pre :: "skill_condition list"
  sp_post :: "skill_condition list"
  sp_timeout :: int
  sp_external :: bool
  sp_checkpoint :: bool

record skill_evidence =
  sv_kind :: str
  sv_pattern :: "str option"
  sv_role :: "str option"
  sv_name :: "str option"
  sv_step :: "int option"
  sv_x :: "int option"
  sv_y :: "int option"

record skill =
  sk_id :: str
  sk_version :: int
  sk_parent :: "int option"
  sk_platform :: str
  sk_domain :: str
  sk_path_pattern :: str
  sk_fingerprint_kind :: str
  sk_fingerprint :: str
  sk_language :: str
  sk_width :: int
  sk_height :: int
  sk_risk :: str
  sk_max_external :: int
  sk_steps :: "skill_step list"
  sk_evidence :: "skill_evidence list"

definition external_step_count :: "skill \<Rightarrow> nat" where
  "external_step_count s = length (filter sp_external (sk_steps s))"

record skill_contract =
  ct_platforms :: "str list"
  ct_languages :: "str list"
  ct_fingerprint_kinds :: "str list"
  ct_action_kinds :: "str list"
  ct_press_keys :: "str list"
  ct_directions :: "str list"
  ct_condition_kinds :: "str list"
  ct_evidence_kinds :: "str list"
  ct_roles :: "str list"
  ct_positions :: "str list"
  ct_risks :: "str list"
  ct_max_steps :: int
  ct_max_external :: int
  ct_timeout_min :: int
  ct_timeout_max :: int
  ct_max_text :: int
  ct_max_conditions :: int
  ct_max_evidence :: int
  ct_viewport_min :: int
  ct_viewport_max :: int

definition contract_v1 :: skill_contract where
  "contract_v1 = \<lparr>
     ct_platforms = [''douyin'', ''bilibili''], ct_languages = [''zh-CN''],
     ct_fingerprint_kinds = [''dom_outline_v1''],
     ct_action_kinds = [''click'', ''fill'', ''press_key'', ''scroll'', ''wait''],
     ct_press_keys = [''Enter'', ''Escape'', ''Tab'', ''ArrowDown'', ''ArrowUp''],
     ct_directions = [''up'', ''down''],
     ct_condition_kinds = [''element_visible'', ''element_absent'', ''url_matches'', ''url_prefix_matches''],
     ct_evidence_kinds = [''url_matches'', ''url_prefix_matches'', ''element_visible'', ''click_point_v1''],
     ct_roles = [''button'', ''link'', ''textbox'', ''combobox'', ''checkbox'', ''radio'', ''tab'',
       ''menuitem'', ''listitem'', ''dialog'', ''img'', ''status''],
     ct_positions = [''above'', ''below'', ''left_of'', ''right_of'', ''inside''],
     ct_risks = [''low'', ''medium'', ''high''],
     ct_max_steps = 80, ct_max_external = 1, ct_timeout_min = 1, ct_timeout_max = 120,
     ct_max_text = 120, ct_max_conditions = 8, ct_max_evidence = 16,
     ct_viewport_min = 320, ct_viewport_max = 8192\<rparr>"

subsection \<open>Scalars\<close>

definition exact_keys :: "json \<Rightarrow> str list \<Rightarrow> (str \<Rightarrow> json option) option" where
  "exact_keys v keys = (case v of
     JObj kvs \<Rightarrow> if set (map fst kvs) = set keys then Some (map_of kvs) else None
   | _ \<Rightarrow> None)"

definition choice :: "json option \<Rightarrow> str list \<Rightarrow> str option" where
  "choice v allowed = (case v of
     Some (JStr s) \<Rightarrow> if s \<in> set allowed then Some s else None | _ \<Rightarrow> None)"

definition flag :: "json option \<Rightarrow> bool option" where
  "flag v = (case v of Some (JBool b) \<Rightarrow> Some b | _ \<Rightarrow> None)"

definition bounded_int :: "json option \<Rightarrow> int \<Rightarrow> int \<Rightarrow> int option" where
  "bounded_int v minimum maximum = (case v of
     Some (JInt n) \<Rightarrow> if minimum \<le> n \<and> n \<le> maximum then Some n else None | _ \<Rightarrow> None)"

definition forbidden_text_characters :: str where
  "forbidden_text_characters = ''<>{}$;|&#[]()=*:'' @ map char_of [96::nat, 92, 34, 39]"

definition forbidden_text_words :: "str list" where
  "forbidden_text_words = [''javascript:'', ''data:'', ''cookie'', ''token'', ''secret'', ''password'',
     ''eval('', ''script'']"

definition safe_text_ok :: "str \<Rightarrow> int \<Rightarrow> bool" where
  "safe_text_ok s maximum \<longleftrightarrow>
     0 < length s \<and> int (length s) \<le> maximum
     \<and> \<not> list_ex (\<lambda>c. c \<in> set forbidden_text_characters) s
     \<and> \<not> list_ex (\<lambda>w. contains w (map lower_char s)) forbidden_text_words
     \<and> \<not> list_ex (\<lambda>c. code c < 32 \<or> code c = 127) s"

definition safe_text :: "json option \<Rightarrow> int \<Rightarrow> str option" where
  "safe_text v maximum = (case v of
     Some (JStr s) \<Rightarrow> if safe_text_ok s maximum then Some s else None | _ \<Rightarrow> None)"

definition optional_safe_text :: "json option \<Rightarrow> int \<Rightarrow> str option option" where
  "optional_safe_text v maximum = (case v of
     Some JNull \<Rightarrow> Some None | _ \<Rightarrow> map_option Some (safe_text v maximum))"

text \<open>\<open>/[A-Za-z0-9/_.-]{0,200}\<close>, matched in full.\<close>

definition path_pattern_ok :: "str \<Rightarrow> bool" where
  "path_pattern_ok s = (case s of [] \<Rightarrow> False
     | c # cs \<Rightarrow> c = CHR ''/'' \<and> length cs \<le> 200
         \<and> list_all (\<lambda>x. ascii_alnum x \<or> x \<in> set ''/_.-'') cs)"

definition parse_path_pattern :: "json option \<Rightarrow> str option" where
  "parse_path_pattern v = (case v of
     Some (JStr s) \<Rightarrow> if path_pattern_ok s then Some s else None | _ \<Rightarrow> None)"

text \<open>\<open>[a-z][a-z0-9_]{0,39}\<close>, matched in full.\<close>

definition parameter_name_ok :: "str \<Rightarrow> bool" where
  "parameter_name_ok s = (case s of [] \<Rightarrow> False
     | c # cs \<Rightarrow> ascii_lower c \<and> length cs \<le> 39 \<and> list_all variable_char cs)"

text \<open>A host name of at least two labels, at most 253 characters.\<close>

fun split_dots :: "str \<Rightarrow> str list" where
  "split_dots [] = [[]]"
| "split_dots (c # cs) =
     (if c = CHR ''.'' then [] # split_dots cs
      else (case split_dots cs of [] \<Rightarrow> [[c]] | w # ws \<Rightarrow> (c # w) # ws))"

definition host_label_ok :: "str \<Rightarrow> bool" where
  "host_label_ok w \<longleftrightarrow>
     w \<noteq> [] \<and> length w \<le> 63
     \<and> list_all (\<lambda>c. ascii_lower c \<or> ascii_digit c \<or> c = CHR ''-'') w
     \<and> hd w \<noteq> CHR ''-'' \<and> last w \<noteq> CHR ''-''"

definition hostname_ok :: "str \<Rightarrow> bool" where
  "hostname_ok s \<longleftrightarrow>
     length s \<le> 253 \<and> 2 \<le> length (split_dots s) \<and> list_all host_label_ok (split_dots s)"

subsection \<open>Parsing\<close>

definition parse_condition :: "skill_contract \<Rightarrow> json \<Rightarrow> skill_condition option" where
  "parse_condition ct v = (case v of
     JObj kvs \<Rightarrow> do {
       kind \<leftarrow> choice (map_of kvs ''kind'') (ct_condition_kinds ct);
       if kind = ''element_visible'' \<or> kind = ''element_absent'' then do {
         r \<leftarrow> exact_keys v [''kind'', ''role'', ''name''];
         role \<leftarrow> choice (r ''role'') (ct_roles ct);
         name \<leftarrow> safe_text (r ''name'') (ct_max_text ct);
         Some \<lparr>cn_kind = kind, cn_role = Some role, cn_name = Some name, cn_pattern = None\<rparr>
       } else do {
         r \<leftarrow> exact_keys v [''kind'', ''pattern''];
         p \<leftarrow> parse_path_pattern (r ''pattern'');
         Some \<lparr>cn_kind = kind, cn_role = None, cn_name = None, cn_pattern = Some p\<rparr>
       }
     }
   | _ \<Rightarrow> None)"

definition parse_action :: "skill_contract \<Rightarrow> json \<Rightarrow> skill_action option" where
  "parse_action ct v = (case v of
     JObj kvs \<Rightarrow> do {
       kind \<leftarrow> choice (map_of kvs ''kind'') (ct_action_kinds ct);
       if kind = ''fill'' then do {
         r \<leftarrow> exact_keys v [''kind'', ''value''];
         ref \<leftarrow> Option.bind (r ''value'') (\<lambda>w. exact_keys w [''parameter'']);
         (case ref ''parameter'' of
            Some (JStr name) \<Rightarrow> if parameter_name_ok name
              then Some \<lparr>sa_kind = kind, sa_parameter = Some name, sa_key = None, sa_direction = None\<rparr>
              else None
          | _ \<Rightarrow> None)
       } else if kind = ''press_key'' then do {
         r \<leftarrow> exact_keys v [''kind'', ''key''];
         k \<leftarrow> choice (r ''key'') (ct_press_keys ct);
         Some \<lparr>sa_kind = kind, sa_parameter = None, sa_key = Some k, sa_direction = None\<rparr>
       } else if kind = ''scroll'' then do {
         r \<leftarrow> exact_keys v [''kind'', ''direction''];
         d \<leftarrow> choice (r ''direction'') (ct_directions ct);
         Some \<lparr>sa_kind = kind, sa_parameter = None, sa_key = None, sa_direction = Some d\<rparr>
       } else do {
         r \<leftarrow> exact_keys v [''kind''];
         Some \<lparr>sa_kind = kind, sa_parameter = None, sa_key = None, sa_direction = None\<rparr>
       }
     }
   | _ \<Rightarrow> None)"

fun parse_all :: "(json \<Rightarrow> 'a option) \<Rightarrow> json list \<Rightarrow> 'a list option" where
  "parse_all p [] = Some []"
| "parse_all p (v # vs) = do { x \<leftarrow> p v; xs \<leftarrow> parse_all p vs; Some (x # xs) }"

definition parse_conditions :: "skill_contract \<Rightarrow> json option \<Rightarrow> skill_condition list option" where
  "parse_conditions ct v = (case v of
     Some (JArr vs) \<Rightarrow>
       if int (length vs) > ct_max_conditions ct then None else parse_all (parse_condition ct) vs
   | _ \<Rightarrow> None)"

definition step_keys :: "str list" where
  "step_keys = [''index'', ''goal'', ''action'', ''preconditions'', ''postconditions'',
     ''timeoutSeconds'', ''external'', ''checkpoint'']"

definition goal_keys :: "str list" where
  "goal_keys = [''role'', ''name'', ''nearText'', ''relativePosition'']"

definition optional_choice :: "json option \<Rightarrow> str list \<Rightarrow> str option option" where
  "optional_choice v allowed = (case v of
     Some JNull \<Rightarrow> Some None | _ \<Rightarrow> map_option Some (choice v allowed))"

definition parse_step :: "skill_contract \<Rightarrow> json \<Rightarrow> skill_step option" where
  "parse_step ct v = do {
     r \<leftarrow> exact_keys v step_keys;
     g \<leftarrow> Option.bind (r ''goal'') (\<lambda>w. exact_keys w goal_keys);
     relative \<leftarrow> optional_choice (g ''relativePosition'') (ct_positions ct);
     index \<leftarrow> bounded_int (r ''index'') 1 (ct_max_steps ct);
     timeout \<leftarrow> bounded_int (r ''timeoutSeconds'') (ct_timeout_min ct) (ct_timeout_max ct);
     external \<leftarrow> flag (r ''external'');
     checkpoint \<leftarrow> flag (r ''checkpoint'');
     pre \<leftarrow> parse_conditions ct (r ''preconditions'');
     post \<leftarrow> parse_conditions ct (r ''postconditions'');
     role \<leftarrow> choice (g ''role'') (ct_roles ct);
     name \<leftarrow> safe_text (g ''name'') (ct_max_text ct);
     near \<leftarrow> optional_safe_text (g ''nearText'') (ct_max_text ct);
     action \<leftarrow> Option.bind (r ''action'') (parse_action ct);
     Some \<lparr>sp_index = index,
       sp_goal = \<lparr>gl_role = role, gl_name = name, gl_near_text = near, gl_relative = relative\<rparr>,
       sp_action = action, sp_pre = pre, sp_post = post, sp_timeout = timeout,
       sp_external = external, sp_checkpoint = checkpoint\<rparr>
   }"

definition parse_evidence :: "skill_contract \<Rightarrow> int \<Rightarrow> json \<Rightarrow> skill_evidence option" where
  "parse_evidence ct step_count v = (case v of
     JObj kvs \<Rightarrow> do {
       kind \<leftarrow> choice (map_of kvs ''kind'') (ct_evidence_kinds ct);
       if kind = ''url_matches'' \<or> kind = ''url_prefix_matches'' then do {
         r \<leftarrow> exact_keys v [''kind'', ''pattern''];
         p \<leftarrow> parse_path_pattern (r ''pattern'');
         Some \<lparr>sv_kind = kind, sv_pattern = Some p, sv_role = None, sv_name = None, sv_step = None,
           sv_x = None, sv_y = None\<rparr>
       } else if kind = ''element_visible'' then do {
         r \<leftarrow> exact_keys v [''kind'', ''role'', ''name''];
         role \<leftarrow> choice (r ''role'') (ct_roles ct);
         name \<leftarrow> safe_text (r ''name'') (ct_max_text ct);
         Some \<lparr>sv_kind = kind, sv_pattern = None, sv_role = Some role, sv_name = Some name,
           sv_step = None, sv_x = None, sv_y = None\<rparr>
       } else do {
         r \<leftarrow> exact_keys v [''kind'', ''stepIndex'', ''x'', ''y''];
         i \<leftarrow> bounded_int (r ''stepIndex'') 1 step_count;
         x \<leftarrow> bounded_int (r ''x'') 0 (ct_viewport_max ct);
         y \<leftarrow> bounded_int (r ''y'') 0 (ct_viewport_max ct);
         Some \<lparr>sv_kind = kind, sv_pattern = None, sv_role = None, sv_name = None, sv_step = Some i,
           sv_x = Some x, sv_y = Some y\<rparr>
       }
     }
   | _ \<Rightarrow> None)"

definition root_keys :: "str list" where
  "root_keys = [''schemaVersion'', ''skillId'', ''version'', ''parentVersion'', ''platform'',
     ''domain'', ''pathPattern'', ''entryFingerprint'', ''language'', ''viewport'', ''riskLevel'',
     ''sideEffectBoundary'', ''steps'', ''successEvidence'']"

definition json_text :: "json option \<Rightarrow> (str \<Rightarrow> bool) \<Rightarrow> str option" where
  "json_text v ok = (case v of Some (JStr s) \<Rightarrow> if ok s then Some s else None | _ \<Rightarrow> None)"

text \<open>A non-empty list of at most \<open>maximum\<close> values.\<close>

definition bounded_list :: "json option \<Rightarrow> int \<Rightarrow> json list option" where
  "bounded_list v maximum = (case v of
     Some (JArr vs) \<Rightarrow> if 1 \<le> length vs \<and> int (length vs) \<le> maximum then Some vs else None
   | _ \<Rightarrow> None)"

definition parse_automation_skill :: "skill_contract \<Rightarrow> json \<Rightarrow> skill option" where
  "parse_automation_skill ct v = do {
     r \<leftarrow> exact_keys v root_keys;
     require (case r ''schemaVersion'' of Some n \<Rightarrow> same_number n (JInt 1) | None \<Rightarrow> False);
     sid \<leftarrow> json_text (r ''skillId'') is_canonical_uuid_v4;
     version \<leftarrow> bounded_int (r ''version'') 1 1000000;
     parent \<leftarrow> (case r ''parentVersion'' of
        Some JNull \<Rightarrow> Some None
      | w \<Rightarrow> map_option Some (bounded_int w 1 (version - 1)));
     platform \<leftarrow> choice (r ''platform'') (ct_platforms ct);
     domain \<leftarrow> json_text (r ''domain'') hostname_ok;
     path \<leftarrow> parse_path_pattern (r ''pathPattern'');
     f \<leftarrow> Option.bind (r ''entryFingerprint'') (\<lambda>w. exact_keys w [''kind'', ''sha256'']);
     fkind \<leftarrow> choice (f ''kind'') (ct_fingerprint_kinds ct);
     digest \<leftarrow> json_text (f ''sha256'') is_sha256_hex;
     language \<leftarrow> choice (r ''language'') (ct_languages ct);
     w \<leftarrow> Option.bind (r ''viewport'') (\<lambda>w. exact_keys w [''width'', ''height'']);
     width \<leftarrow> bounded_int (w ''width'') (ct_viewport_min ct) (ct_viewport_max ct);
     height \<leftarrow> bounded_int (w ''height'') (ct_viewport_min ct) (ct_viewport_max ct);
     risk \<leftarrow> choice (r ''riskLevel'') (ct_risks ct);
     b \<leftarrow> Option.bind (r ''sideEffectBoundary'') (\<lambda>w. exact_keys w [''maxExternalSteps'']);
     max_external \<leftarrow> bounded_int (b ''maxExternalSteps'') 0 (ct_max_external ct);
     step_values \<leftarrow> bounded_list (r ''steps'') (ct_max_steps ct);
     steps \<leftarrow> parse_all (parse_step ct) step_values;
     require (map sp_index steps = map int [1..<length steps + 1]);
     require (\<not> int (length (filter sp_external steps)) > max_external);
     evidence_values \<leftarrow> bounded_list (r ''successEvidence'') (ct_max_evidence ct);
     evidence \<leftarrow> parse_all (parse_evidence ct (int (length steps))) evidence_values;
     Some \<lparr>sk_id = sid, sk_version = version, sk_parent = parent, sk_platform = platform,
       sk_domain = domain, sk_path_pattern = path, sk_fingerprint_kind = fkind,
       sk_fingerprint = digest, sk_language = language, sk_width = width, sk_height = height,
       sk_risk = risk, sk_max_external = max_external, sk_steps = steps, sk_evidence = evidence\<rparr>
   }"

end
