(* ===== verification/Skill_Replay.thy ===== *)
theory Skill_Replay
  imports Skill_Document
begin

text \<open>
  Deterministic replay of a skill on a page (\<open>executor/skill_replayer.py\<close>) and the decision that
  follows a failed replay (\<open>executor/skill_handback.py\<close>).

  The page is not in the repository's hands: it is a parameter, a record of functions over a world
  \<open>'w\<close> (the page and whatever else the caller threads through, its ledger for one); \<open>None\<close> is an
  exception of the page adapter. The dispatch hook is a function over the same world and raises an
  error of type \<open>'e\<close>. \<open>calls\<close> lists, in order, the calls that can change something: the hook
  calls and the page actions, with whether they returned.
\<close>

subsection \<open>Pages, hooks and calls\<close>

record 'w page =
  page_find :: "skill_goal \<Rightarrow> 'w \<Rightarrow> nat option option \<times> 'w"
  page_holds :: "skill_condition \<Rightarrow> 'w \<Rightarrow> bool option \<times> 'w"
  page_act :: "str \<Rightarrow> nat \<Rightarrow> str option \<Rightarrow> 'w \<Rightarrow> bool \<times> 'w"
  page_path :: "'w \<Rightarrow> str option \<times> 'w"

type_synonym ('w, 'e) hook = "'w \<Rightarrow> 'e option \<times> 'w"

datatype call = Hook bool | Act skill_step bool

datatype fail_reason =
    Boundary_declared | Missing_parameter int | Precondition_unmet int | Anchor_missing int
  | Boundary_exceeded | Action_failed int | Postcondition_unmet int | Evidence_unmet

record failure =
  fl_reason :: fail_reason
  fl_checkpoint :: int
  fl_index :: int
  fl_dispatched :: bool

record outcome =
  oc_passed :: bool
  oc_completed :: nat
  oc_external :: nat

text \<open>How a replay ends: \<open>ReplayFailed\<close>, an exception of the hook, or one of the page.\<close>

datatype 'e replay_end =
  Replay_passed outcome | Replay_failed failure | Hook_raised 'e | Page_raised

text \<open>The local variables of \<open>replay_skill\<close>.\<close>

record replay_vars =
  rv_checkpoint :: int
  rv_external :: nat
  rv_index :: int
  rv_dispatched :: bool
  rv_calls :: "call list"

definition fail_at :: "replay_vars \<Rightarrow> fail_reason \<Rightarrow> failure" where
  "fail_at v reason = \<lparr>fl_reason = reason, fl_checkpoint = rv_checkpoint v, fl_index = rv_index v,
     fl_dispatched = rv_dispatched v\<rparr>"

subsection \<open>The replayer\<close>

definition has_parameter :: "(str \<rightharpoonup> str) \<Rightarrow> skill_step \<Rightarrow> bool" where
  "has_parameter params st \<longleftrightarrow> sa_kind (sp_action st) = ''fill'' \<longrightarrow>
     (case sa_parameter (sp_action st) of None \<Rightarrow> False | Some n \<Rightarrow> params n \<noteq> None)"

definition action_payload :: "(str \<rightharpoonup> str) \<Rightarrow> skill_step \<Rightarrow> str option" where
  "action_payload params st =
     (let a = sp_action st in
      if sa_kind a = ''fill'' then Option.bind (sa_parameter a) params
      else if sa_kind a = ''press_key'' then sa_key a
      else if sa_kind a = ''scroll'' then sa_direction a
      else None)"

text \<open>A loop over conditions that stops at the first one that does not hold or raises.\<close>

fun check_conditions :: "'w page \<Rightarrow> skill_condition list \<Rightarrow> 'w \<Rightarrow> bool option \<times> 'w" where
  "check_conditions pg [] w = (Some True, w)"
| "check_conditions pg (c # cs) w =
     (case page_holds pg c w of
        (Some True, w1) \<Rightarrow> check_conditions pg cs w1
      | (r, w1) \<Rightarrow> (r, w1))"

text \<open>The external boundary, the dispatch hook and the action of one step.\<close>

definition perform ::
  "'w page \<Rightarrow> ('w, 'e) hook option \<Rightarrow> skill \<Rightarrow> (str \<rightharpoonup> str) \<Rightarrow> skill_step \<Rightarrow> nat \<Rightarrow> replay_vars \<Rightarrow> 'w \<Rightarrow>
   ('e replay_end, replay_vars) sum \<times> replay_vars \<times> 'w" where
  "perform pg hook s params st handle v w =
     (let v1 = (if sp_external st then v\<lparr>rv_external := rv_external v + 1\<rparr> else v) in
      if sp_external st \<and> int (rv_external v1) > sk_max_external s
      then (Inl (Replay_failed (fail_at v1 Boundary_exceeded)), v1, w)
      else
        (case (if sp_external st then (case hook of None \<Rightarrow> (None, w) | Some h \<Rightarrow> h w) else (None, w)) of
           (Some e, w1) \<Rightarrow> (Inl (Hook_raised e), v1\<lparr>rv_calls := rv_calls v1 @ [Hook False]\<rparr>, w1)
         | (None, w1) \<Rightarrow>
             (let v2 = (if sp_external st
                        then v1\<lparr>rv_dispatched := True,
                          rv_calls := rv_calls v1 @ (if hook = None then [] else [Hook True])\<rparr>
                        else v1);
                  (returned, w2) = page_act pg (sa_kind (sp_action st)) handle
                    (action_payload params st) w1;
                  v3 = v2\<lparr>rv_calls := rv_calls v2 @ [Act st returned]\<rparr>
              in if returned then (Inr v3, v3, w2)
                 else (Inl (Replay_failed (fail_at v3 (Action_failed (sp_index st)))), v3, w2))))"

definition replay_step ::
  "'w page \<Rightarrow> ('w, 'e) hook option \<Rightarrow> skill \<Rightarrow> (str \<rightharpoonup> str) \<Rightarrow> skill_step \<Rightarrow> replay_vars \<Rightarrow> 'w \<Rightarrow>
   ('e replay_end, replay_vars) sum \<times> replay_vars \<times> 'w" where
  "replay_step pg hook s params st v0 w =
     (let v = v0\<lparr>rv_index := sp_index st,
                rv_checkpoint := (if sp_checkpoint st then sp_index st else rv_checkpoint v0)\<rparr> in
      if \<not> has_parameter params st
      then (Inl (Replay_failed (fail_at v (Missing_parameter (sp_index st)))), v, w)
      else (case check_conditions pg (sp_pre st) w of
          (None, w1) \<Rightarrow> (Inl Page_raised, v, w1)
        | (Some False, w1) \<Rightarrow>
            (Inl (Replay_failed (fail_at v (Precondition_unmet (sp_index st)))), v, w1)
        | (Some True, w1) \<Rightarrow>
            (case page_find pg (sp_goal st) w1 of
               (None, w2) \<Rightarrow> (Inl Page_raised, v, w2)
             | (Some None, w2) \<Rightarrow>
                 (Inl (Replay_failed (fail_at v (Anchor_missing (sp_index st)))), v, w2)
             | (Some (Some handle), w2) \<Rightarrow>
                 (case perform pg hook s params st handle v w2 of
                    (Inl e, v3, w3) \<Rightarrow> (Inl e, v3, w3)
                  | (Inr v3, _, w3) \<Rightarrow>
                      (case check_conditions pg (sp_post st) w3 of
                         (None, w4) \<Rightarrow> (Inl Page_raised, v3, w4)
                       | (Some False, w4) \<Rightarrow>
                           (Inl (Replay_failed (fail_at v3 (Postcondition_unmet (sp_index st)))), v3, w4)
                       | (Some True, w4) \<Rightarrow> (Inr v3, v3, w4))))))"

fun replay_steps ::
  "'w page \<Rightarrow> ('w, 'e) hook option \<Rightarrow> skill \<Rightarrow> (str \<rightharpoonup> str) \<Rightarrow> skill_step list \<Rightarrow> replay_vars \<Rightarrow> 'w \<Rightarrow>
   ('e replay_end, replay_vars) sum \<times> replay_vars \<times> 'w" where
  "replay_steps pg hook s params [] v w = (Inr v, v, w)"
| "replay_steps pg hook s params (st # sts) v w =
     (case replay_step pg hook s params st v w of
        (Inl e, v1, w1) \<Rightarrow> (Inl e, v1, w1)
      | (Inr v1, _, w1) \<Rightarrow> replay_steps pg hook s params sts v1 w1)"

text \<open>\<open>_success_evidence_holds\<close>: any URL evidence, and every element evidence.\<close>

definition url_evidence :: "skill \<Rightarrow> str \<Rightarrow> bool" where
  "url_evidence s path \<longleftrightarrow>
     list_ex (\<lambda>e. sv_kind e = ''url_matches'' \<and> sv_pattern e = Some path) (sk_evidence s)
     \<or> list_ex (\<lambda>e. sv_kind e = ''url_prefix_matches''
         \<and> (case sv_pattern e of None \<Rightarrow> False | Some p \<Rightarrow> after_prefix (=) p path \<noteq> None)) (sk_evidence s)"

fun element_evidence :: "'w page \<Rightarrow> skill_evidence list \<Rightarrow> 'w \<Rightarrow> bool option \<times> 'w" where
  "element_evidence pg [] w = (Some True, w)"
| "element_evidence pg (e # es) w =
     (if sv_kind e = ''element_visible''
      then (case page_holds pg \<lparr>cn_kind = ''element_visible'', cn_role = sv_role e, cn_name = sv_name e,
                cn_pattern = None\<rparr> w of
          (Some True, w1) \<Rightarrow> element_evidence pg es w1
        | (r, w1) \<Rightarrow> (r, w1))
      else element_evidence pg es w)"

definition success_evidence_holds :: "'w page \<Rightarrow> skill \<Rightarrow> 'w \<Rightarrow> bool option \<times> 'w" where
  "success_evidence_holds pg s w =
     (if list_ex (\<lambda>e. sv_kind e = ''url_matches'' \<or> sv_kind e = ''url_prefix_matches'') (sk_evidence s)
      then (case page_path pg w of
          (None, w1) \<Rightarrow> (None, w1)
        | (Some path, w1) \<Rightarrow>
            if url_evidence s path then element_evidence pg (sk_evidence s) w1 else (Some False, w1))
      else element_evidence pg (sk_evidence s) w)"

definition start_vars :: replay_vars where
  "start_vars = \<lparr>rv_checkpoint = 0, rv_external = 0, rv_index = 0, rv_dispatched = False,
     rv_calls = []\<rparr>"

definition replay_skill ::
  "'w page \<Rightarrow> ('w, 'e) hook option \<Rightarrow> skill \<Rightarrow> (str \<rightharpoonup> str) \<Rightarrow> 'w \<Rightarrow>
   'e replay_end \<times> call list \<times> 'w" where
  "replay_skill pg hook s params w =
     (if int (external_step_count s) > sk_max_external s
      then (Replay_failed \<lparr>fl_reason = Boundary_declared, fl_checkpoint = 0, fl_index = 0,
              fl_dispatched = False\<rparr>, [], w)
      else (case List.find (\<lambda>st. \<not> has_parameter params st) (sk_steps s) of
        Some st \<Rightarrow> (Replay_failed (fail_at start_vars (Missing_parameter (sp_index st))), [], w)
      | None \<Rightarrow>
          (case replay_steps pg hook s params (sk_steps s) start_vars w of
             (Inl e, v, w1) \<Rightarrow> (e, rv_calls v, w1)
           | (Inr v, _, w1) \<Rightarrow>
               (case success_evidence_holds pg s w1 of
                  (None, w2) \<Rightarrow> (Page_raised, rv_calls v, w2)
                | (Some False, w2) \<Rightarrow> (Replay_failed (fail_at v Evidence_unmet), rv_calls v, w2)
                | (Some True, w2) \<Rightarrow>
                    (Replay_passed \<lparr>oc_passed = True, oc_completed = length (sk_steps s),
                       oc_external = rv_external v\<rparr>, rv_calls v, w2)))))"

subsection \<open>Handback\<close>

record handback =
  hb_reconcile :: bool
  hb_resume :: "int option"
  hb_remaining :: "int list"
  hb_may_continue :: bool
  hb_may_resend :: bool

definition decide_handback :: "skill \<Rightarrow> failure \<Rightarrow> handback option" where
  "decide_handback s f =
     (let indexes = map sp_index (sk_steps s) in
      if fl_checkpoint f \<notin> set (0 # indexes) then None
      else if fl_dispatched f then
        Some \<lparr>hb_reconcile = True, hb_resume = None, hb_remaining = [], hb_may_continue = False,
          hb_may_resend = False\<rparr>
      else
        (let from = (if fl_checkpoint f \<noteq> 0 then fl_checkpoint f
                     else case indexes of [] \<Rightarrow> 0 | i # _ \<Rightarrow> i) in
         Some \<lparr>hb_reconcile = False, hb_resume = Some from,
           hb_remaining = filter (\<lambda>i. i \<ge> from) indexes,
           hb_may_continue = True, hb_may_resend = False\<rparr>))"

end
