(* ===== verification/Replay_Facts.thy ===== *)
theory Replay_Facts
  imports Skill_Replay
begin

text \<open>
  What a replay does to the outside, whatever the page answers: the discipline of its calls (an
  external action only right after a hook call that returned), and a rule that carries an invariant
  of the world through a replay, as a locale over the page and the hook.
\<close>

subsection \<open>Discipline of the calls\<close>

fun disciplined :: "call list \<Rightarrow> bool" where
  "disciplined [] = True"
| "disciplined (Act st r # cs) = (\<not> sp_external st \<and> disciplined cs)"
| "disciplined (Hook True # Act st r # cs) = (sp_external st \<and> disciplined cs)"
| "disciplined [Hook False] = True"
| "disciplined (Hook b # cs) = False"

definition external_act :: "call \<Rightarrow> bool" where
  "external_act c = (case c of Act st _ \<Rightarrow> sp_external st | Hook _ \<Rightarrow> False)"

abbreviation external_acts :: "call list \<Rightarrow> call list" where
  "external_acts cs \<equiv> filter external_act cs"

lemma external_act_simps [simp]:
  "external_act (Act st r) = sp_external st" "\<not> external_act (Hook b)"
  by (simp_all add: external_act_def)

lemma disciplined_append:
  "disciplined a \<Longrightarrow> Hook False \<notin> set a \<Longrightarrow> disciplined b \<Longrightarrow> disciplined (a @ b)"
  by (induction a rule: disciplined.induct) auto

definition vars_ok :: "skill \<Rightarrow> replay_vars \<Rightarrow> bool" where
  "vars_ok s v \<longleftrightarrow> disciplined (rv_calls v) \<and> Hook False \<notin> set (rv_calls v)
     \<and> (rv_dispatched v \<longleftrightarrow> external_acts (rv_calls v) \<noteq> [])
     \<and> length (external_acts (rv_calls v)) = rv_external v
     \<and> int (rv_external v) \<le> sk_max_external s"

definition end_ok :: "skill \<Rightarrow> 'e replay_end \<Rightarrow> call list \<Rightarrow> bool" where
  "end_ok s e cs \<longleftrightarrow> disciplined cs \<and> int (length (external_acts cs)) \<le> sk_max_external s
     \<and> (case e of
          Replay_failed f \<Rightarrow> Hook False \<notin> set cs \<and> (fl_dispatched f \<longleftrightarrow> external_acts cs \<noteq> [])
        | Hook_raised _ \<Rightarrow> int (length (external_acts cs)) < sk_max_external s
            \<and> (\<exists>before. cs = before @ [Hook False] \<and> Hook False \<notin> set before)
        | _ \<Rightarrow> Hook False \<notin> set cs)"

lemma vars_ok_end:
  assumes "vars_ok s v"
  shows "end_ok s (Replay_failed (fail_at v reason)) (rv_calls v)" and "end_ok s Page_raised (rv_calls v)"
  using assms by (auto simp: vars_ok_def end_ok_def fail_at_def)

lemma vars_ok_moved [simp]:
  "vars_ok s (v\<lparr>rv_index := i, rv_checkpoint := c\<rparr>) \<longleftrightarrow> vars_ok s v"
  by (simp add: vars_ok_def)

lemma perform_ok:
  assumes "vars_ok s v" and "perform pg (Some h) s params st handle v w = (r, v', w')"
  shows "case r of Inl e \<Rightarrow> end_ok s e (rv_calls v') | Inr u \<Rightarrow> u = v' \<and> vars_ok s v'"
proof (cases "sp_external st")
  case False
  then show ?thesis
    using assms by (auto simp: perform_def Let_def vars_ok_def end_ok_def fail_at_def
        disciplined_append split: prod.splits if_splits)
next
  case True
  show ?thesis
  proof (cases "int (rv_external v + 1) > sk_max_external s")
    case True
    with \<open>sp_external st\<close> show ?thesis
      using assms by (auto simp: perform_def Let_def vars_ok_def end_ok_def fail_at_def)
  next
    case False
    with True show ?thesis
      using assms by (auto simp: perform_def Let_def vars_ok_def end_ok_def fail_at_def
          disciplined_append split: prod.splits if_splits option.splits)
  qed
qed

definition at_step :: "skill_step \<Rightarrow> replay_vars \<Rightarrow> replay_vars" where
  "at_step st v = v\<lparr>rv_index := sp_index st,
     rv_checkpoint := (if sp_checkpoint st then sp_index st else rv_checkpoint v)\<rparr>"

lemma at_step_ok [simp]: "vars_ok s (at_step st v) \<longleftrightarrow> vars_ok s v"
  by (simp add: at_step_def)

text \<open>A step fails before its action, or performs it and then checks the outcome.\<close>

lemma replay_step_cases:
  assumes "replay_step pg hook s params st v w = (r, v', w')"
  obtains (early) reason where "v' = at_step st v"
      "r = Inl Page_raised \<or> r = Inl (Replay_failed (fail_at (at_step st v) reason))"
  | (halted) handle w1 e where
      "perform pg hook s params st handle (at_step st v) w1 = (Inl e, v', w')" "r = Inl e"
  | (performed) handle w1 w2 u reason where
      "perform pg hook s params st handle (at_step st v) w1 = (Inr v', u, w2)"
      "r = Inr v' \<or> r = Inl Page_raised \<or> r = Inl (Replay_failed (fail_at v' reason))"
  using assms unfolding replay_step_def Let_def at_step_def [symmetric]
  by (simp split: if_splits prod.splits option.splits bool.splits sum.splits) blast+

lemma replay_step_ok:
  assumes "vars_ok s v" and "replay_step pg (Some h) s params st v w = (r, v', w')"
  shows "case r of Inl e \<Rightarrow> end_ok s e (rv_calls v') | Inr u \<Rightarrow> u = v' \<and> vars_ok s v'"
  using assms(2)
proof (cases rule: replay_step_cases)
  case (early reason)
  then show ?thesis using vars_ok_end [of s "at_step st v"] assms(1) by auto
next
  case (halted handle w1 e)
  then show ?thesis using perform_ok [OF _ halted(1)] assms(1) by simp
next
  case (performed handle w1 w2 u reason)
  have "u = v'" "vars_ok s v'" using perform_ok [OF _ performed(1)] assms(1) by simp_all
  then show ?thesis using performed(2) vars_ok_end [of s v'] by auto
qed

lemma replay_steps_ok:
  assumes "vars_ok s v" and "replay_steps pg (Some h) s params sts v w = (r, v', w')"
  shows "case r of Inl e \<Rightarrow> end_ok s e (rv_calls v') | Inr u \<Rightarrow> u = v' \<and> vars_ok s v'"
  using assms
proof (induction sts arbitrary: v w)
  case (Cons st sts)
  obtain r1 v1 w1 where step: "replay_step pg (Some h) s params st v w = (r1, v1, w1)"
    using prod_cases3 by blast
  from replay_step_ok [OF Cons.prems(1) step] show ?case
    using Cons.IH [of v1 w1] Cons.prems(2) step by (cases r1) auto
qed auto

subsection \<open>Whole replays\<close>

lemma start_vars_ok: "0 \<le> sk_max_external s \<Longrightarrow> vars_ok s start_vars"
  by (simp add: vars_ok_def start_vars_def)

text \<open>The ways a replay can end.\<close>

lemma replay_skill_cases:
  assumes "replay_skill pg hook s params w = (e, cs, w')"
  obtains (refused) f where "e = Replay_failed f" "cs = []" "w' = w" "\<not> fl_dispatched f"
      "fl_checkpoint f = 0" "fl_index f = 0"
      "sk_max_external s < int (external_step_count s) \<or> (\<exists>st \<in> set (sk_steps s). \<not> has_parameter params st)"
  | (halted) v where "list_all (has_parameter params) (sk_steps s)"
      "replay_steps pg hook s params (sk_steps s) start_vars w = (Inl e, v, w')" "cs = rv_calls v"
  | (walked) v u w1 r where "list_all (has_parameter params) (sk_steps s)"
      "replay_steps pg hook s params (sk_steps s) start_vars w = (Inr v, u, w1)" "cs = rv_calls v"
      "success_evidence_holds pg s w1 = (r, w')"
      "e = (case r of None \<Rightarrow> Page_raised | Some False \<Rightarrow> Replay_failed (fail_at v Evidence_unmet)
         | Some True \<Rightarrow> Replay_passed \<lparr>oc_passed = True, oc_completed = length (sk_steps s),
             oc_external = rv_external v\<rparr>)"
proof (cases "sk_max_external s < int (external_step_count s)")
  case True
  then show ?thesis using assms
    by (intro refused [of "\<lparr>fl_reason = Boundary_declared, fl_checkpoint = 0, fl_index = 0,
        fl_dispatched = False\<rparr>"]) (simp_all add: replay_skill_def)
next
  case bounded: False
  show ?thesis
  proof (cases "List.find (\<lambda>st. \<not> has_parameter params st) (sk_steps s)")
    case (Some st)
    then have "st \<in> set (sk_steps s)" "\<not> has_parameter params st" using find_Some_set by fast+
    with Some show ?thesis
      using assms bounded by (intro refused [of "fail_at start_vars (Missing_parameter (sp_index st))"])
        (auto simp: replay_skill_def fail_at_def start_vars_def)
  next
    case None
    then have params: "list_all (has_parameter params) (sk_steps s)"
      by (simp add: find_None_all list_all_iff)
    obtain r v w1 where steps: "replay_steps pg hook s params (sk_steps s) start_vars w = (r, v, w1)"
      using prod_cases3 by blast
    show ?thesis
    proof (cases r)
      case (Inl e1)
      then show ?thesis using assms bounded None steps halted [OF params] by (simp add: replay_skill_def)
    next
      case (Inr v1)
      obtain r2 w2 where ev: "success_evidence_holds pg s w1 = (r2, w2)" by fastforce
      show ?thesis
        using assms bounded None steps Inr ev walked [OF params, of v1 v w1 r2]
        by (auto simp: replay_skill_def split: option.splits bool.splits)
    qed
  qed
qed

lemma replay_skill_ok:
  assumes "0 \<le> sk_max_external s" and "replay_skill pg (Some h) s params w = (e, cs, w')"
  shows "end_ok s e cs"
  using assms(2)
proof (cases rule: replay_skill_cases)
  case (refused f)
  then show ?thesis using assms(1) by (simp add: end_ok_def)
next
  case (halted v)
  then show ?thesis using replay_steps_ok [OF start_vars_ok halted(2)] assms(1) by simp
next
  case (walked v u w1 r)
  have "vars_ok s v" using replay_steps_ok [OF start_vars_ok walked(2)] assms(1) by simp
  then show ?thesis using walked(3,5) vars_ok_end [of s v]
    by (auto simp: end_ok_def vars_ok_def split: option.splits bool.splits)
qed

subsection \<open>The steps a replay performed\<close>

definition performed_steps :: "call list \<Rightarrow> skill_step list" where
  "performed_steps cs = List.map_filter (\<lambda>c. case c of Act st True \<Rightarrow> Some st | _ \<Rightarrow> None) cs"

lemma performed_steps_simps [simp]:
  "performed_steps [] = []" "performed_steps (a @ b) = performed_steps a @ performed_steps b"
  "performed_steps [Act st True] = [st]" "performed_steps [Act st False] = []"
  "performed_steps [Hook ok] = []" "performed_steps [Hook ok, Act st True] = [st]"
  by (simp_all add: performed_steps_def map_filter_def)

lemma perform_steps:
  assumes "perform pg hook s params st handle v w = (Inr u, v', w')"
  shows "performed_steps (rv_calls u) = performed_steps (rv_calls v) @ [st]"
    and "rv_external u = rv_external v + (if sp_external st then 1 else 0)"
  using assms by (auto simp: perform_def Let_def split: prod.splits if_splits option.splits)

lemma replay_step_steps:
  assumes "replay_step pg hook s params st v w = (Inr u, v', w')"
  shows "performed_steps (rv_calls u) = performed_steps (rv_calls v) @ [st]
    \<and> rv_external u = rv_external v + (if sp_external st then 1 else 0)"
  using assms
proof (cases rule: replay_step_cases)
  case (performed handle w1 w2 x reason)
  then show ?thesis using perform_steps [OF performed(1)] by (simp add: at_step_def)
qed auto

lemma replay_steps_steps:
  assumes "replay_steps pg hook s params sts v w = (Inr u, v', w')"
  shows "performed_steps (rv_calls u) = performed_steps (rv_calls v) @ sts
    \<and> rv_external u = rv_external v + length (filter sp_external sts)"
  using assms
proof (induction sts arbitrary: v w)
  case (Cons st sts)
  obtain r1 v1 w1 where step: "replay_step pg hook s params st v w = (r1, v1, w1)"
    using prod_cases3 by blast
  with Cons.prems obtain u1 where "r1 = Inr u1"
    and "replay_steps pg hook s params sts u1 w1 = (Inr u, v', w')" by (cases r1) auto
  with step Cons.IH [of u1 w1] replay_step_steps [of pg hook s params st v w u1 v1 w1]
  show ?case by auto
qed auto

lemma replay_passed_steps:
  assumes "replay_skill pg hook s params w = (Replay_passed oc, cs, w')"
  shows "performed_steps cs = sk_steps s \<and> oc = \<lparr>oc_passed = True,
    oc_completed = length (sk_steps s), oc_external = external_step_count s\<rparr>"
  using assms
proof (cases rule: replay_skill_cases)
  case (halted v)
  have "\<And>st v w v' w' o'. replay_step pg hook s params st v w \<noteq> (Inl (Replay_passed o'), v', w')"
    by (auto elim!: replay_step_cases simp: perform_def Let_def split: prod.splits if_splits option.splits)
  then have "replay_steps pg hook s params sts v w \<noteq> (Inl (Replay_passed o'), v', w')" for sts v w v' w' o'
    by (induction sts arbitrary: v w) (auto split: prod.splits sum.splits)
  with halted(2) show ?thesis by blast
next
  case (walked v u w1 r)
  then show ?thesis using replay_steps_steps [OF walked(2)]
    by (auto simp: start_vars_def external_step_count_def split: option.splits bool.splits)
qed simp

subsection \<open>Where a replay failed\<close>

definition failed_within :: "int \<Rightarrow> int list \<Rightarrow> failure \<Rightarrow> bool" where
  "failed_within start indexes f \<longleftrightarrow>
     fl_checkpoint f \<in> set (start # indexes) \<and> fl_index f \<in> set indexes
     \<and> fl_checkpoint f \<le> fl_index f"

lemma perform_position:
  assumes "perform pg hook s params st handle v w = (r, v', w')"
  shows "rv_checkpoint v' = rv_checkpoint v \<and> rv_index v' = rv_index v
    \<and> (\<forall>f. r = Inl (Replay_failed f) \<longrightarrow> fl_checkpoint f = rv_checkpoint v \<and> fl_index f = rv_index v)
    \<and> (\<forall>u. r = Inr u \<longrightarrow> u = v')"
  using assms by (auto simp: perform_def Let_def fail_at_def split: prod.splits if_splits option.splits)

lemma replay_step_position:
  assumes "replay_step pg hook s params st v w = (r, v', w')"
  shows "rv_checkpoint v' = (if sp_checkpoint st then sp_index st else rv_checkpoint v)
    \<and> rv_index v' = sp_index st \<and> (\<forall>u. r = Inr u \<longrightarrow> u = v')
    \<and> (\<forall>f. r = Inl (Replay_failed f) \<longrightarrow>
         fl_checkpoint f = rv_checkpoint v' \<and> fl_index f = sp_index st)"
  using assms
proof (cases rule: replay_step_cases)
  case (early reason)
  then show ?thesis by (auto simp: at_step_def fail_at_def)
next
  case (halted handle w1 e)
  then show ?thesis using perform_position [OF halted(1)] by (auto simp: at_step_def)
next
  case (performed handle w1 w2 u reason)
  then show ?thesis using perform_position [OF performed(1)] by (auto simp: at_step_def fail_at_def)
qed

lemma replay_steps_failed:
  assumes "replay_steps pg hook s params sts v w = (Inl (Replay_failed f), v', w')"
    and "sorted (map sp_index sts)" and "\<forall>i \<in> set (map sp_index sts). rv_checkpoint v \<le> i"
  shows "failed_within (rv_checkpoint v) (map sp_index sts) f"
  using assms
proof (induction sts arbitrary: v w)
  case (Cons st sts)
  obtain r1 v1 w1 where step: "replay_step pg hook s params st v w = (r1, v1, w1)"
    using prod_cases3 by blast
  note pos = replay_step_position [OF step]
  show ?case
  proof (cases r1)
    case (Inl e)
    then show ?thesis using Cons.prems step pos by (auto simp: failed_within_def)
  next
    case (Inr u)
    then have "failed_within (rv_checkpoint v1) (map sp_index sts) f"
      using Cons.prems step pos by (intro Cons.IH [of v1 w1]) auto
    then show ?thesis using pos by (auto simp: failed_within_def split: if_splits)
  qed
qed simp

lemma replay_steps_moved:
  assumes "replay_steps pg hook s params sts v w = (Inr u, v', w')"
    and "sorted (map sp_index sts)" and "\<forall>i \<in> set (map sp_index sts). rv_checkpoint v \<le> i"
    and "rv_checkpoint v \<le> rv_index v"
  shows "rv_checkpoint u \<in> set (rv_checkpoint v # map sp_index sts)
    \<and> rv_index u \<in> set (rv_index v # map sp_index sts) \<and> rv_checkpoint u \<le> rv_index u"
  using assms
proof (induction sts arbitrary: v w)
  case (Cons st sts)
  obtain r1 v1 w1 where step: "replay_step pg hook s params st v w = (r1, v1, w1)"
    using prod_cases3 by blast
  note pos = replay_step_position [OF step]
  with step Cons.prems obtain "r1 = Inr v1"
    and rest: "replay_steps pg hook s params sts v1 w1 = (Inr u, v', w')" by (cases r1) auto
  have "rv_checkpoint u \<in> set (rv_checkpoint v1 # map sp_index sts)
      \<and> rv_index u \<in> set (rv_index v1 # map sp_index sts) \<and> rv_checkpoint u \<le> rv_index u"
    using Cons.prems pos by (intro Cons.IH [OF rest]) auto
  then show ?case using pos by (auto split: if_splits)
qed auto

lemma sorted_indexes: "sorted (map int [m..<n])"
  by (simp add: sorted_map)

text \<open>The failure of a skill with steps \<open>1 .. n\<close> is inside the skill, after its last checkpoint.\<close>

lemma replay_failure_position:
  assumes "replay_skill pg hook s params w = (Replay_failed f, cs, w')"
    and "map sp_index (sk_steps s) = map int [1..<length (sk_steps s) + 1]"
  shows "fl_checkpoint f \<in> set (0 # map sp_index (sk_steps s))
    \<and> fl_index f \<in> set (0 # map sp_index (sk_steps s)) \<and> fl_checkpoint f \<le> fl_index f"
  using assms(1)
proof (cases rule: replay_skill_cases)
  case (refused f')
  then show ?thesis by simp
next
  case (halted v)
  have "failed_within (rv_checkpoint start_vars) (map sp_index (sk_steps s)) f"
    using halted(2) assms(2) by (intro replay_steps_failed) (auto simp: start_vars_def sorted_indexes simp del: upt_Suc)
  then show ?thesis by (auto simp: failed_within_def start_vars_def)
next
  case (walked v u w1 r)
  have "f = fail_at v Evidence_unmet" using walked(5) by (auto split: option.splits bool.splits)
  moreover have "rv_checkpoint v \<in> set (rv_checkpoint start_vars # map sp_index (sk_steps s))
    \<and> rv_index v \<in> set (rv_index start_vars # map sp_index (sk_steps s)) \<and> rv_checkpoint v \<le> rv_index v"
    using walked(2) assms(2) by (intro replay_steps_moved) (auto simp: start_vars_def sorted_indexes simp del: upt_Suc)
  ultimately show ?thesis by (auto simp: fail_at_def start_vars_def)
qed

end
