(* ===== verification/Skill_Orchestrator.thy ===== *)
theory Skill_Orchestrator
  imports Skill_Replay
begin

text \<open>
  Publishing, routing and running skills: the append-only registry with its publication gate
  (\<open>executor/skill_registry.py\<close>), the router (\<open>executor/skill_router.py\<close>), the management view
  (\<open>executor/skill_management.py\<close>) and the orchestrator with its statistics
  (\<open>executor/skill_orchestrator.py\<close>).

  Ed25519 and the canonical bytes of a document are library code: a \<open>verifier\<close> decides whether a
  signature (hexadecimal text) is the publisher's over a skill document and a review. A success
  rate is the pair of its counts, compared as fractions; the code compares the quotients as
  floats, which order the same as long as the counts stay below \<open>2 ^ 26\<close>.
\<close>

subsection \<open>Publication\<close>

definition lint_ok :: "skill \<Rightarrow> bool" where
  "lint_ok s \<longleftrightarrow> list_ex sp_checkpoint (sk_steps s)
     \<and> \<not> (external_step_count s \<noteq> 0
          \<and> \<not> list_ex (\<lambda>e. sv_kind e = ''url_matches'' \<or> sv_kind e = ''element_visible'') (sk_evidence s))"

definition valid_approval :: "json \<Rightarrow> bool" where
  "valid_approval v = (case exact_keys v [''reviewer'', ''decision'', ''reviewedAt''] of
     None \<Rightarrow> False | Some r \<Rightarrow> r ''decision'' = Some (JStr ''approved''))"

definition valid_replay :: "skill \<Rightarrow> outcome \<Rightarrow> bool" where
  "valid_replay s oc \<longleftrightarrow> oc_passed oc \<and> oc_completed oc = length (sk_steps s)"

record signed_record =
  sr_skill :: json
  sr_approval :: json
  sr_public_key :: str
  sr_signature :: str

record verifier =
  vf_key :: bytes
  vf_from_hex :: "str \<Rightarrow> bytes option"
  vf_verifies :: "bytes \<Rightarrow> bytes \<Rightarrow> json \<Rightarrow> json \<Rightarrow> bool"

record signer =
  sg_public :: str
  sg_sign :: "json \<Rightarrow> json \<Rightarrow> str"

definition sign_candidate ::
  "skill_contract \<Rightarrow> (bytes \<Rightarrow> signer) \<Rightarrow> json \<Rightarrow> json option \<Rightarrow> bytes \<Rightarrow> outcome option \<Rightarrow> signed_record option"
where
  "sign_candidate ct key_of candidate approval seed replay = do {
     s \<leftarrow> parse_automation_skill ct candidate;
     require (lint_ok s);
     oc \<leftarrow> replay;
     require (valid_replay s oc);
     review \<leftarrow> approval;
     require (valid_approval review);
     require (length seed = 32);
     Some \<lparr>sr_skill = candidate, sr_approval = review, sr_public_key = sg_public (key_of seed),
       sr_signature = sg_sign (key_of seed) candidate review\<rparr>
   }"

record signed_skill =
  ss_skill :: skill
  ss_version :: int
  ss_document :: signed_record

definition verify_signed_skill :: "skill_contract \<Rightarrow> verifier \<Rightarrow> signed_record \<Rightarrow> signed_skill option" where
  "verify_signed_skill ct vf r = do {
     require (length (vf_key vf) = 32);
     s \<leftarrow> parse_automation_skill ct (sr_skill r);
     require (valid_approval (sr_approval r));
     key \<leftarrow> vf_from_hex vf (sr_public_key r);
     signature \<leftarrow> vf_from_hex vf (sr_signature r);
     require (key = vf_key vf);
     require (vf_verifies vf key signature (sr_skill r) (sr_approval r));
     Some \<lparr>ss_skill = s, ss_version = sk_version s, ss_document = r\<rparr>
   }"

text \<open>The records in insertion order; the key of a record is its skill id and version.\<close>

type_synonym registry = "signed_skill list"

definition record_key :: "signed_skill \<Rightarrow> str \<times> int" where
  "record_key r = (sk_id (ss_skill r), ss_version r)"

definition publish :: "skill_contract \<Rightarrow> verifier \<Rightarrow> registry \<Rightarrow> signed_record \<Rightarrow> (signed_skill \<times> registry) option"
where
  "publish ct vf reg doc = do {
     r \<leftarrow> verify_signed_skill ct vf doc;
     require (record_key r \<notin> set (map record_key reg));
     require (\<not> (ss_version r = 1 \<and> sk_parent (ss_skill r) \<noteq> None));
     require (ss_version r = 1 \<or> (case sk_parent (ss_skill r) of None \<Rightarrow> False
       | Some p \<Rightarrow> (sk_id (ss_skill r), p) \<in> set (map record_key reg)));
     Some (r, reg @ [r])
   }"

definition registry_at :: "registry \<Rightarrow> str \<Rightarrow> int \<Rightarrow> signed_skill option" where
  "registry_at reg sid version = List.find (\<lambda>r. record_key r = (sid, version)) reg"

text \<open>\<open>max(..., key=...)\<close>: the first of the largest.\<close>

fun first_max :: "('a \<Rightarrow> 'a \<Rightarrow> bool) \<Rightarrow> 'a \<Rightarrow> 'a list \<Rightarrow> 'a" where
  "first_max lt best [] = best"
| "first_max lt best (x # xs) = first_max lt (if lt best x then x else best) xs"

definition registry_live :: "registry \<Rightarrow> str \<Rightarrow> signed_skill option" where
  "registry_live reg sid = (case filter (\<lambda>r. sk_id (ss_skill r) = sid) reg of
     [] \<Rightarrow> None | r # rs \<Rightarrow> Some (first_max (\<lambda>a b. ss_version a < ss_version b) r rs))"

subsection \<open>Routing\<close>

definition proven_failing_threshold :: nat where
  "proven_failing_threshold = 3"

record page_context =
  px_fingerprint :: str
  px_language :: str
  px_width :: int

record version_stats =
  vs_successes :: nat
  vs_failures :: nat
  vs_last_hit :: nat

definition observed :: "version_stats \<Rightarrow> bool" where
  "observed v \<longleftrightarrow> vs_successes v + vs_failures v > 0"

record route_candidate =
  rc_version :: int
  rc_fingerprint :: str
  rc_language :: str
  rc_width :: int
  rc_disabled :: bool

definition eligible :: "page_context \<Rightarrow> route_candidate \<Rightarrow> bool" where
  "eligible ctx c \<longleftrightarrow> \<not> rc_disabled c \<and> rc_fingerprint c = px_fingerprint ctx
     \<and> rc_language c = px_language ctx \<and> rc_width c = px_width ctx"

text \<open>A rank: class, success rate as numerator and denominator, last hit, version.\<close>

type_synonym rank = "nat \<times> (nat \<times> nat) \<times> nat \<times> int"

definition rank_of :: "(int \<rightharpoonup> version_stats) \<Rightarrow> int \<Rightarrow> rank" where
  "rank_of stats version = (case stats version of
     None \<Rightarrow> (1, (0, 1), 0, version)
   | Some r \<Rightarrow>
       if \<not> observed r then (1, (0, 1), 0, version)
       else if vs_successes r = 0 \<and> vs_failures r \<ge> proven_failing_threshold
         then (0, (0, 1), vs_last_hit r, version)
       else (2, (vs_successes r, vs_successes r + vs_failures r), vs_last_hit r, version))"

definition rank_less :: "rank \<Rightarrow> rank \<Rightarrow> bool" where
  "rank_less a b = (case (a, b) of ((k, (n, d), h, v), (k', (n', d'), h', v')) \<Rightarrow>
     k < k' \<or> (k = k' \<and> (n * d' < n' * d
       \<or> (n * d' = n' * d \<and> (h < h' \<or> (h = h' \<and> v < v'))))))"

definition route_skill :: "route_candidate list \<Rightarrow> page_context \<Rightarrow> (int \<rightharpoonup> version_stats) \<Rightarrow> int option" where
  "route_skill candidates ctx stats = (case filter (eligible ctx) candidates of
     [] \<Rightarrow> None
   | c # cs \<Rightarrow> Some (rc_version (first_max (\<lambda>a b. rank_less (rank_of stats (rc_version a))
       (rank_of stats (rc_version b))) c cs)))"

subsection \<open>Running a skill\<close>

type_synonym skill_key = "str \<times> int"

record stats_store =
  st_records :: "skill_key \<rightharpoonup> version_stats"
  st_clock :: nat

definition empty_store :: stats_store where
  "empty_store = \<lparr>st_records = Map.empty, st_clock = 0\<rparr>"

definition record_outcome :: "stats_store \<Rightarrow> skill_key \<Rightarrow> bool \<Rightarrow> stats_store" where
  "record_outcome st k succeeded =
     (let existing = (case st_records st k of
          None \<Rightarrow> \<lparr>vs_successes = 0, vs_failures = 0, vs_last_hit = 0\<rparr> | Some v \<Rightarrow> v) in
      \<lparr>st_records = (st_records st)(k \<mapsto> \<lparr>vs_successes = vs_successes existing + (if succeeded then 1 else 0),
         vs_failures = vs_failures existing + (if succeeded then 0 else 1),
         vs_last_hit = st_clock st + 1\<rparr>),
       st_clock = st_clock st + 1\<rparr>)"

definition scoped :: "stats_store \<Rightarrow> str \<Rightarrow> int \<rightharpoonup> version_stats" where
  "scoped st sid = (\<lambda>version. st_records st (sid, version))"

datatype execution_kind = Replayed | No_route | Recovery_pending | Reconcile_required

record report =
  ep_kind :: execution_kind
  ep_version :: "int option"
  ep_outcome :: "outcome option"
  ep_decision :: "handback option"

text \<open>How \<open>execute\<close> ends: with a report, with the hook's exception, or with another one.\<close>

datatype 'e execute_end = Report report | Execute_hook 'e | Execute_raised

record orchestrator =
  or_registry :: registry
  or_stats :: stats_store
  or_disabled :: "skill_key list"

definition context_of :: "skill \<Rightarrow> page_context" where
  "context_of s = \<lparr>px_fingerprint = sk_fingerprint s, px_language = sk_language s, px_width = sk_width s\<rparr>"

definition routing_candidate :: "skill_key list \<Rightarrow> signed_skill \<Rightarrow> route_candidate" where
  "routing_candidate disabled r = (let s = ss_skill r in
     \<lparr>rc_version = sk_version s, rc_fingerprint = sk_fingerprint s, rc_language = sk_language s,
      rc_width = sk_width s, rc_disabled = (sk_id s, sk_version s) \<in> set disabled\<rparr>)"

definition no_route :: report where
  "no_route = \<lparr>ep_kind = No_route, ep_version = None, ep_outcome = None, ep_decision = None\<rparr>"

definition versions_of :: "registry \<Rightarrow> str \<Rightarrow> signed_skill list" where
  "versions_of reg sid = sort_key ss_version (filter (\<lambda>r. sk_id (ss_skill r) = sid) reg)"

text \<open>The run of a routed version; the hook's own exception leaves without being counted.\<close>

definition run_version ::
  "orchestrator \<Rightarrow> skill_key \<Rightarrow> skill \<Rightarrow> 'w page \<Rightarrow> (str \<rightharpoonup> str) \<Rightarrow> ('w, 'e) hook option \<Rightarrow> 'w \<Rightarrow>
   'e execute_end \<times> call list \<times> orchestrator \<times> 'w" where
  "run_version orc key s pg params hook w =
     (let (e, cs, w1) = replay_skill pg hook s params w;
          counted = (\<lambda>ok. orc\<lparr>or_stats := record_outcome (or_stats orc) key ok\<rparr>)
      in case e of
        Replay_passed oc \<Rightarrow>
          (Report \<lparr>ep_kind = Replayed, ep_version = Some (snd key), ep_outcome = Some oc,
             ep_decision = None\<rparr>, cs, counted True, w1)
      | Replay_failed f \<Rightarrow>
          (case decide_handback s f of
             None \<Rightarrow> (Execute_raised, cs, counted False, w1)
           | Some d \<Rightarrow>
               (Report \<lparr>ep_kind = (if hb_reconcile d then Reconcile_required else Recovery_pending),
                  ep_version = Some (snd key), ep_outcome = None, ep_decision = Some d\<rparr>, cs,
                counted False, w1))
      | Hook_raised x \<Rightarrow> (Execute_hook x, cs, orc, w1)
      | Page_raised \<Rightarrow> (Execute_raised, cs, orc, w1))"

definition execute ::
  "orchestrator \<Rightarrow> str \<Rightarrow> 'w page \<Rightarrow> (str \<rightharpoonup> str) \<Rightarrow> page_context option \<Rightarrow> ('w, 'e) hook option \<Rightarrow> 'w \<Rightarrow>
   'e execute_end \<times> call list \<times> orchestrator \<times> 'w" where
  "execute orc sid pg params context hook w =
     (case versions_of (or_registry orc) sid of
        [] \<Rightarrow> (Report no_route, [], orc, w)
      | r # rs \<Rightarrow>
          (let ctx = (case context of Some c \<Rightarrow> c | None \<Rightarrow> context_of (ss_skill (last (r # rs)))) in
           case route_skill (map (routing_candidate (or_disabled orc)) (r # rs)) ctx
               (scoped (or_stats orc) sid) of
             None \<Rightarrow> (Report no_route, [], orc, w)
           | Some version \<Rightarrow>
               (case registry_at (or_registry orc) sid version of
                  None \<Rightarrow> (Execute_raised, [], orc, w)
                | Some found \<Rightarrow> run_version orc (sid, version) (ss_skill found) pg params hook w)))"

subsection \<open>The management view\<close>

record version_node =
  vn_version :: int
  vn_parent :: "int option"
  vn_risk :: str
  vn_steps :: nat
  vn_rate :: "(nat \<times> nat) option"
  vn_disabled :: bool

record skill_node =
  sn_skill :: str
  sn_platform :: str
  sn_domain :: str
  sn_fingerprint :: str
  sn_versions :: "version_node list"
  sn_applicable :: "page_context \<Rightarrow> int option"

definition version_node_of :: "signed_skill \<Rightarrow> version_stats option \<Rightarrow> bool \<Rightarrow> version_node" where
  "version_node_of r st off = \<lparr>vn_version = ss_version r, vn_parent = sk_parent (ss_skill r),
     vn_risk = sk_risk (ss_skill r), vn_steps = length (sk_steps (ss_skill r)),
     vn_rate = map_option (\<lambda>v. (vs_successes v, vs_successes v + vs_failures v)) st,
     vn_disabled = off\<rparr>"

definition skill_node_of :: "registry \<Rightarrow> (skill_key \<rightharpoonup> version_stats) \<Rightarrow> skill_key list \<Rightarrow> str \<Rightarrow> skill_node" where
  "skill_node_of reg stats disabled sid =
     (let ordered = versions_of reg sid; s = ss_skill (hd ordered) in
      \<lparr>sn_skill = sid, sn_platform = sk_platform s, sn_domain = sk_domain s,
       sn_fingerprint = sk_fingerprint s,
       sn_versions = map (\<lambda>r. version_node_of r (stats (sid, ss_version r))
         ((sid, ss_version r) \<in> set disabled)) ordered,
       sn_applicable = (\<lambda>ctx. route_skill (map (routing_candidate disabled) ordered) ctx
         (\<lambda>version. stats (sid, version)))\<rparr>)"

text \<open>One node per skill id, in the order of first publication.\<close>

definition management_view :: "registry \<Rightarrow> (skill_key \<rightharpoonup> version_stats) \<Rightarrow> skill_key list \<Rightarrow> skill_node list" where
  "management_view reg stats disabled =
     map (skill_node_of reg stats disabled) (rev (remdups (rev (map (\<lambda>r. sk_id (ss_skill r)) reg))))"

end
