(* ===== verification/Skill_Codec.thy ===== *)
theory Skill_Codec
  imports Skill_Document
begin

text \<open>
  What the parser of skill documents guarantees, exactly: the well-formed skills of a contract, and
  a document for each of them that parses back to it.
\<close>

subsection \<open>Reading an accepted document\<close>

lemma bind_SomeE:
  assumes "Option.bind m f = Some y"
  obtains x where "m = Some x" and "f x = Some y"
  using assms by (auto simp: bind_eq_Some_conv)

lemma Some_eq_SomeD: "Some a = Some b \<Longrightarrow> b = a"
  by simp

lemma bounded_int_Some [dest!]: "bounded_int v a b = Some n \<Longrightarrow> a \<le> n \<and> n \<le> b \<and> v = Some (JInt n)"
  by (auto simp: bounded_int_def split: option.splits json.splits if_splits)

lemma choice_Some [dest!]: "choice v xs = Some s \<Longrightarrow> s \<in> set xs \<and> v = Some (JStr s)"
  by (auto simp: choice_def split: option.splits json.splits if_splits)

lemma safe_text_Some [dest!]: "safe_text v n = Some s \<Longrightarrow> safe_text_ok s n \<and> v = Some (JStr s)"
  by (auto simp: safe_text_def split: option.splits json.splits if_splits)

lemma json_text_Some [dest!]: "json_text v p = Some s \<Longrightarrow> p s \<and> v = Some (JStr s)"
  by (auto simp: json_text_def split: option.splits json.splits if_splits)

lemma path_Some [dest!]: "parse_path_pattern v = Some s \<Longrightarrow> path_pattern_ok s \<and> v = Some (JStr s)"
  by (auto simp: parse_path_pattern_def split: option.splits json.splits if_splits)

lemma flag_Some [dest!]: "flag v = Some b \<Longrightarrow> v = Some (JBool b)"
  by (auto simp: flag_def split: option.splits json.splits)

lemma bounded_list_Some [dest!]:
  "bounded_list v n = Some vs \<Longrightarrow> vs \<noteq> [] \<and> int (length vs) \<le> n \<and> v = Some (JArr vs)"
  by (auto simp: bounded_list_def split: option.splits json.splits if_splits)

lemma parse_all_Some:
  "parse_all p vs = Some xs \<Longrightarrow> length xs = length vs \<and> (\<forall>x \<in> set xs. \<exists>v. p v = Some x)"
  by (induction vs arbitrary: xs) (auto simp: bind_eq_Some_conv)

lemma parse_all_map: "(\<And>x. x \<in> set xs \<Longrightarrow> p (f x) = Some x) \<Longrightarrow> parse_all p (map f xs) = Some xs"
  by (induction xs) auto

text \<open>What an accepted document consists of, field by field.\<close>

lemma parse_skill_cases:
  assumes "parse_automation_skill ct v = Some s"
  obtains r f w b vs es where
    "exact_keys v root_keys = Some r"
    "\<exists>n. r ''schemaVersion'' = Some n \<and> same_number n (JInt 1)"
    "json_text (r ''skillId'') is_canonical_uuid_v4 = Some (sk_id s)"
    "bounded_int (r ''version'') 1 1000000 = Some (sk_version s)"
    "(if r ''parentVersion'' = Some JNull then Some None
      else map_option Some (bounded_int (r ''parentVersion'') 1 (sk_version s - 1))) = Some (sk_parent s)"
    "choice (r ''platform'') (ct_platforms ct) = Some (sk_platform s)"
    "json_text (r ''domain'') hostname_ok = Some (sk_domain s)"
    "parse_path_pattern (r ''pathPattern'') = Some (sk_path_pattern s)"
    "Option.bind (r ''entryFingerprint'') (\<lambda>w. exact_keys w [''kind'', ''sha256'']) = Some f"
    "choice (f ''kind'') (ct_fingerprint_kinds ct) = Some (sk_fingerprint_kind s)"
    "json_text (f ''sha256'') is_sha256_hex = Some (sk_fingerprint s)"
    "choice (r ''language'') (ct_languages ct) = Some (sk_language s)"
    "Option.bind (r ''viewport'') (\<lambda>w. exact_keys w [''width'', ''height'']) = Some w"
    "bounded_int (w ''width'') (ct_viewport_min ct) (ct_viewport_max ct) = Some (sk_width s)"
    "bounded_int (w ''height'') (ct_viewport_min ct) (ct_viewport_max ct) = Some (sk_height s)"
    "choice (r ''riskLevel'') (ct_risks ct) = Some (sk_risk s)"
    "Option.bind (r ''sideEffectBoundary'') (\<lambda>w. exact_keys w [''maxExternalSteps'']) = Some b"
    "bounded_int (b ''maxExternalSteps'') 0 (ct_max_external ct) = Some (sk_max_external s)"
    "bounded_list (r ''steps'') (ct_max_steps ct) = Some vs"
    "parse_all (parse_step ct) vs = Some (sk_steps s)"
    "map sp_index (sk_steps s) = map int [1..<length (sk_steps s) + 1]"
    "int (external_step_count s) \<le> sk_max_external s"
    "bounded_list (r ''successEvidence'') (ct_max_evidence ct) = Some es"
    "parse_all (parse_evidence ct (int (length (sk_steps s)))) es = Some (sk_evidence s)"
  using assms unfolding parse_automation_skill_def
  apply (elim bind_SomeE)
  subgoal for r _ sid version parent platform domain path f fv fkind digest language w wv width height risk b bv
      maximum vs steps _ _ es evidence
    apply (drule Some_eq_SomeD, rule that [of r f w b vs es])
    apply (simp_all only: skill.select_convs external_step_count_def require_eq_Some not_less bind.simps)
    apply (auto split: option.splits json.splits)
    done
  done

subsection \<open>Well-formed skills\<close>

definition condition_ok :: "skill_contract \<Rightarrow> skill_condition \<Rightarrow> bool" where
  "condition_ok ct c \<longleftrightarrow> cn_kind c \<in> set (ct_condition_kinds ct)
     \<and> (if cn_kind c = ''element_visible'' \<or> cn_kind c = ''element_absent''
        then (\<exists>role name. c = \<lparr>cn_kind = cn_kind c, cn_role = Some role, cn_name = Some name, cn_pattern = None\<rparr>
               \<and> role \<in> set (ct_roles ct) \<and> safe_text_ok name (ct_max_text ct))
        else (\<exists>p. c = \<lparr>cn_kind = cn_kind c, cn_role = None, cn_name = None, cn_pattern = Some p\<rparr>
               \<and> path_pattern_ok p))"

definition action_ok :: "skill_contract \<Rightarrow> skill_action \<Rightarrow> bool" where
  "action_ok ct a \<longleftrightarrow> sa_kind a \<in> set (ct_action_kinds ct)
     \<and> (if sa_kind a = ''fill'' then \<exists>n. sa_parameter a = Some n \<and> parameter_name_ok n
        else sa_parameter a = None)
     \<and> (if sa_kind a = ''press_key'' then \<exists>k \<in> set (ct_press_keys ct). sa_key a = Some k
        else sa_key a = None)
     \<and> (if sa_kind a = ''scroll'' then \<exists>d \<in> set (ct_directions ct). sa_direction a = Some d
        else sa_direction a = None)"

definition goal_ok :: "skill_contract \<Rightarrow> skill_goal \<Rightarrow> bool" where
  "goal_ok ct g \<longleftrightarrow> gl_role g \<in> set (ct_roles ct) \<and> safe_text_ok (gl_name g) (ct_max_text ct)
     \<and> (case gl_near_text g of None \<Rightarrow> True | Some t \<Rightarrow> safe_text_ok t (ct_max_text ct))
     \<and> (case gl_relative g of None \<Rightarrow> True | Some p \<Rightarrow> p \<in> set (ct_positions ct))"

definition step_ok :: "skill_contract \<Rightarrow> skill_step \<Rightarrow> bool" where
  "step_ok ct st \<longleftrightarrow> sp_index st \<in> {1..ct_max_steps ct}
     \<and> sp_timeout st \<in> {ct_timeout_min ct..ct_timeout_max ct}
     \<and> goal_ok ct (sp_goal st) \<and> action_ok ct (sp_action st)
     \<and> int (length (sp_pre st)) \<le> ct_max_conditions ct \<and> (\<forall>c \<in> set (sp_pre st). condition_ok ct c)
     \<and> int (length (sp_post st)) \<le> ct_max_conditions ct \<and> (\<forall>c \<in> set (sp_post st). condition_ok ct c)"

definition url_kind :: "str \<Rightarrow> bool" where
  "url_kind k \<longleftrightarrow> k = ''url_matches'' \<or> k = ''url_prefix_matches''"

definition evidence_ok :: "skill_contract \<Rightarrow> int \<Rightarrow> skill_evidence \<Rightarrow> bool" where
  "evidence_ok ct n e \<longleftrightarrow> sv_kind e \<in> set (ct_evidence_kinds ct)
     \<and> (if url_kind (sv_kind e) then \<exists>p. sv_pattern e = Some p \<and> path_pattern_ok p
        else sv_pattern e = None)
     \<and> (if sv_kind e = ''element_visible''
        then \<exists>role \<in> set (ct_roles ct). \<exists>name. safe_text_ok name (ct_max_text ct)
          \<and> sv_role e = Some role \<and> sv_name e = Some name
        else sv_role e = None \<and> sv_name e = None)
     \<and> (if url_kind (sv_kind e) \<or> sv_kind e = ''element_visible''
        then sv_step e = None \<and> sv_x e = None \<and> sv_y e = None
        else \<exists>i \<in> {1..n}. \<exists>x \<in> {0..ct_viewport_max ct}. \<exists>y \<in> {0..ct_viewport_max ct}.
          sv_step e = Some i \<and> sv_x e = Some x \<and> sv_y e = Some y)"

definition skill_ok :: "skill_contract \<Rightarrow> skill \<Rightarrow> bool" where
  "skill_ok ct s \<longleftrightarrow>
     is_canonical_uuid_v4 (sk_id s) \<and> sk_version s \<in> {1..1000000}
     \<and> (case sk_parent s of None \<Rightarrow> True | Some p \<Rightarrow> 1 \<le> p \<and> p < sk_version s)
     \<and> sk_platform s \<in> set (ct_platforms ct) \<and> hostname_ok (sk_domain s)
     \<and> path_pattern_ok (sk_path_pattern s)
     \<and> sk_fingerprint_kind s \<in> set (ct_fingerprint_kinds ct) \<and> is_sha256_hex (sk_fingerprint s)
     \<and> sk_language s \<in> set (ct_languages ct)
     \<and> sk_width s \<in> {ct_viewport_min ct..ct_viewport_max ct}
     \<and> sk_height s \<in> {ct_viewport_min ct..ct_viewport_max ct}
     \<and> sk_risk s \<in> set (ct_risks ct)
     \<and> sk_max_external s \<in> {0..ct_max_external ct} \<and> int (external_step_count s) \<le> sk_max_external s
     \<and> sk_steps s \<noteq> [] \<and> int (length (sk_steps s)) \<le> ct_max_steps ct
     \<and> map sp_index (sk_steps s) = map int [1..<length (sk_steps s) + 1]
     \<and> (\<forall>st \<in> set (sk_steps s). step_ok ct st)
     \<and> sk_evidence s \<noteq> [] \<and> int (length (sk_evidence s)) \<le> ct_max_evidence ct
     \<and> (\<forall>e \<in> set (sk_evidence s). evidence_ok ct (int (length (sk_steps s))) e)"

subsection \<open>The parser accepts only well-formed skills\<close>

lemma parse_condition_ok: "parse_condition ct v = Some c \<Longrightarrow> condition_ok ct c"
  by (auto simp: parse_condition_def condition_ok_def bind_eq_Some_conv split: json.splits if_splits)

lemma parse_action_ok: "parse_action ct v = Some a \<Longrightarrow> action_ok ct a"
  unfolding parse_action_def
  by (cases v) (simp_all split: if_split_asm, (elim bind_SomeE; auto simp: action_ok_def
      split: option.splits json.splits if_split_asm)+)

lemma parse_conditions_ok:
  "parse_conditions ct v = Some cs \<Longrightarrow>
     int (length cs) \<le> ct_max_conditions ct \<and> (\<forall>c \<in> set cs. condition_ok ct c)"
  by (auto simp: parse_conditions_def dest!: parse_all_Some dest: parse_condition_ok
      split: option.splits json.splits if_splits)

lemma optional_choice_Some:
  "optional_choice v xs = Some r \<Longrightarrow> (case r of None \<Rightarrow> True | Some p \<Rightarrow> p \<in> set xs)"
  by (auto simp: optional_choice_def split: option.splits json.splits)

lemma optional_text_Some:
  "optional_safe_text v n = Some r \<Longrightarrow> (case r of None \<Rightarrow> True | Some t \<Rightarrow> safe_text_ok t n)"
  by (auto simp: optional_safe_text_def split: option.splits json.splits)

lemma parse_step_ok:
  assumes "parse_step ct v = Some st"
  shows "step_ok ct st"
  using assms unfolding parse_step_def
  by (elim bind_SomeE) (auto simp: step_ok_def goal_ok_def
      dest: parse_action_ok parse_conditions_ok optional_choice_Some optional_text_Some)

lemma parse_evidence_ok: "parse_evidence ct n v = Some e \<Longrightarrow> evidence_ok ct n e"
  unfolding parse_evidence_def
  by (cases v) (simp_all, elim bind_SomeE, auto simp: evidence_ok_def url_kind_def elim!: bind_SomeE split: if_split_asm)

lemma parse_skill_ok:
  assumes "parse_automation_skill ct v = Some s"
  shows "skill_ok ct s"
proof -
  have steps: "length (sk_steps s) = length vs \<and> (\<forall>st \<in> set (sk_steps s). step_ok ct st)"
    if "parse_all (parse_step ct) vs = Some (sk_steps s)" for vs
    using parse_all_Some [OF that] parse_step_ok by blast
  have evidence: "length (sk_evidence s) = length es \<and> (\<forall>e \<in> set (sk_evidence s). evidence_ok ct n e)"
    if "parse_all (parse_evidence ct n) es = Some (sk_evidence s)" for es n
    using parse_all_Some [OF that] parse_evidence_ok by blast
  show ?thesis
    using assms
  proof (cases rule: parse_skill_cases)
    case (1 r f w b vs es)
    have "case sk_parent s of None \<Rightarrow> True | Some p \<Rightarrow> 1 \<le> p \<and> p < sk_version s"
      using 1(5) by (cases "sk_parent s") (auto split: if_splits)
    moreover have "vs \<noteq> []" "int (length vs) \<le> ct_max_steps ct" "es \<noteq> []"
      "int (length es) \<le> ct_max_evidence ct"
      using 1(19,23) by auto
    ultimately show ?thesis
      unfolding skill_ok_def using 1(3,4,6-8,10-12,14-16,18,21,22) steps [OF 1(20)] evidence [OF 1(24)]
      by (auto simp del: upt_Suc)
  qed
qed

subsection \<open>Documents\<close>

definition json_option :: "str option \<Rightarrow> json" where
  "json_option v = (case v of None \<Rightarrow> JNull | Some s \<Rightarrow> JStr s)"

definition condition_json :: "skill_condition \<Rightarrow> json" where
  "condition_json c = (case cn_pattern c of
     Some p \<Rightarrow> JObj [(''kind'', JStr (cn_kind c)), (''pattern'', JStr p)]
   | None \<Rightarrow> JObj [(''kind'', JStr (cn_kind c)), (''role'', json_option (cn_role c)),
       (''name'', json_option (cn_name c))])"

definition action_json :: "skill_action \<Rightarrow> json" where
  "action_json a = JObj ((''kind'', JStr (sa_kind a)) # (case (sa_parameter a, sa_key a, sa_direction a) of
     (Some n, _) \<Rightarrow> [(''value'', JObj [(''parameter'', JStr n)])]
   | (None, Some k, _) \<Rightarrow> [(''key'', JStr k)]
   | (None, None, Some d) \<Rightarrow> [(''direction'', JStr d)]
   | (None, None, None) \<Rightarrow> []))"

definition goal_json :: "skill_goal \<Rightarrow> json" where
  "goal_json g = JObj [(''role'', JStr (gl_role g)), (''name'', JStr (gl_name g)),
     (''nearText'', json_option (gl_near_text g)), (''relativePosition'', json_option (gl_relative g))]"

definition step_json :: "skill_step \<Rightarrow> json" where
  "step_json st = JObj [(''index'', JInt (sp_index st)), (''goal'', goal_json (sp_goal st)),
     (''action'', action_json (sp_action st)),
     (''preconditions'', JArr (map condition_json (sp_pre st))),
     (''postconditions'', JArr (map condition_json (sp_post st))),
     (''timeoutSeconds'', JInt (sp_timeout st)), (''external'', JBool (sp_external st)),
     (''checkpoint'', JBool (sp_checkpoint st))]"

definition evidence_json :: "skill_evidence \<Rightarrow> json" where
  "evidence_json e = JObj ((''kind'', JStr (sv_kind e)) # (case (sv_pattern e, sv_role e, sv_name e) of
     (Some p, _) \<Rightarrow> [(''pattern'', JStr p)]
   | (None, Some role, Some name) \<Rightarrow> [(''role'', JStr role), (''name'', JStr name)]
   | _ \<Rightarrow> [(''stepIndex'', JInt (the (sv_step e))), (''x'', JInt (the (sv_x e))),
       (''y'', JInt (the (sv_y e)))]))"

definition skill_fields :: "skill \<Rightarrow> (str \<times> json) list" where
  "skill_fields s = [(''schemaVersion'', JInt 1), (''skillId'', JStr (sk_id s)),
     (''version'', JInt (sk_version s)),
     (''parentVersion'', case sk_parent s of None \<Rightarrow> JNull | Some p \<Rightarrow> JInt p),
     (''platform'', JStr (sk_platform s)), (''domain'', JStr (sk_domain s)),
     (''pathPattern'', JStr (sk_path_pattern s)),
     (''entryFingerprint'', JObj [(''kind'', JStr (sk_fingerprint_kind s)), (''sha256'', JStr (sk_fingerprint s))]),
     (''language'', JStr (sk_language s)),
     (''viewport'', JObj [(''width'', JInt (sk_width s)), (''height'', JInt (sk_height s))]),
     (''riskLevel'', JStr (sk_risk s)),
     (''sideEffectBoundary'', JObj [(''maxExternalSteps'', JInt (sk_max_external s))]),
     (''steps'', JArr (map step_json (sk_steps s))),
     (''successEvidence'', JArr (map evidence_json (sk_evidence s)))]"

definition skill_json :: "skill \<Rightarrow> json" where
  "skill_json s = JObj (skill_fields s)"

lemmas reader_defs = exact_keys_def choice_def safe_text_def parse_path_pattern_def bounded_int_def
  flag_def json_text_def

lemma condition_roundtrip: "condition_ok ct c \<Longrightarrow> parse_condition ct (condition_json c) = Some c"
  by (cases c) (auto simp: condition_ok_def condition_json_def parse_condition_def reader_defs
      json_option_def split: if_splits)

lemma action_roundtrip:
  assumes "action_ok ct a"
  shows "parse_action ct (action_json a) = Some a"
proof -
  consider "sa_kind a = ''fill''" | "sa_kind a = ''press_key''" | "sa_kind a = ''scroll''"
    | "sa_kind a \<noteq> ''fill''" "sa_kind a \<noteq> ''press_key''" "sa_kind a \<noteq> ''scroll''" by blast
  then show ?thesis
    by cases (use assms in \<open>cases a; force simp: action_ok_def action_json_def parse_action_def reader_defs\<close>)+
qed

lemma evidence_roundtrip:
  assumes "evidence_ok ct n e"
  shows "parse_evidence ct n (evidence_json e) = Some e"
proof -
  consider "sv_kind e = ''url_matches''" | "sv_kind e = ''url_prefix_matches''"
    | "sv_kind e = ''element_visible''"
    | "sv_kind e \<noteq> ''url_matches''" "sv_kind e \<noteq> ''url_prefix_matches''" "sv_kind e \<noteq> ''element_visible''"
    by blast
  then show ?thesis
    by cases (use assms in \<open>cases e; force simp: evidence_ok_def url_kind_def evidence_json_def
      parse_evidence_def reader_defs\<close>)+
qed

lemma conditions_roundtrip:
  "int (length cs) \<le> ct_max_conditions ct \<Longrightarrow> \<forall>c \<in> set cs. condition_ok ct c \<Longrightarrow>
     parse_conditions ct (Some (JArr (map condition_json cs))) = Some cs"
  by (simp add: parse_conditions_def parse_all_map condition_roundtrip)

lemma step_roundtrip:
  assumes "step_ok ct st"
  shows "parse_step ct (step_json st) = Some st"
proof -
  have "exact_keys (goal_json (sp_goal st)) goal_keys = Some (map_of [(''role'', JStr (gl_role (sp_goal st))),
     (''name'', JStr (gl_name (sp_goal st))), (''nearText'', json_option (gl_near_text (sp_goal st))),
     (''relativePosition'', json_option (gl_relative (sp_goal st)))])"
    by (simp add: exact_keys_def goal_json_def goal_keys_def)
  moreover have "optional_choice (Some (json_option (gl_relative (sp_goal st)))) (ct_positions ct)
      = Some (gl_relative (sp_goal st))"
    "optional_safe_text (Some (json_option (gl_near_text (sp_goal st)))) (ct_max_text ct)
      = Some (gl_near_text (sp_goal st))"
    using assms by (auto simp: step_ok_def goal_ok_def optional_choice_def optional_safe_text_def
        json_option_def choice_def safe_text_def split: option.splits)
  ultimately show ?thesis
    using assms by (simp add: step_ok_def goal_ok_def parse_step_def step_json_def exact_keys_def [of "JObj _"]
        step_keys_def choice_def safe_text_def bounded_int_def flag_def action_roundtrip conditions_roundtrip)
qed

lemma skill_json_keys:
  "exact_keys (skill_json s) root_keys = Some (map_of (skill_fields s))"
  by (simp add: exact_keys_def skill_json_def skill_fields_def root_keys_def)

lemma skill_field_simps [simp]:
  "map_of (skill_fields s) ''schemaVersion'' = Some (JInt 1)"
  "map_of (skill_fields s) ''skillId'' = Some (JStr (sk_id s))"
  "map_of (skill_fields s) ''version'' = Some (JInt (sk_version s))"
  "map_of (skill_fields s) ''parentVersion'' =
     Some (case sk_parent s of None \<Rightarrow> JNull | Some p \<Rightarrow> JInt p)"
  "map_of (skill_fields s) ''platform'' = Some (JStr (sk_platform s))"
  "map_of (skill_fields s) ''domain'' = Some (JStr (sk_domain s))"
  "map_of (skill_fields s) ''pathPattern'' = Some (JStr (sk_path_pattern s))"
  "map_of (skill_fields s) ''entryFingerprint'' =
     Some (JObj [(''kind'', JStr (sk_fingerprint_kind s)), (''sha256'', JStr (sk_fingerprint s))])"
  "map_of (skill_fields s) ''language'' = Some (JStr (sk_language s))"
  "map_of (skill_fields s) ''viewport'' =
     Some (JObj [(''width'', JInt (sk_width s)), (''height'', JInt (sk_height s))])"
  "map_of (skill_fields s) ''riskLevel'' = Some (JStr (sk_risk s))"
  "map_of (skill_fields s) ''sideEffectBoundary'' =
     Some (JObj [(''maxExternalSteps'', JInt (sk_max_external s))])"
  "map_of (skill_fields s) ''steps'' = Some (JArr (map step_json (sk_steps s)))"
  "map_of (skill_fields s) ''successEvidence'' =
     Some (JArr (map evidence_json (sk_evidence s)))"
  by (simp_all add: skill_fields_def)

lemma bounded_list_map:
  "xs \<noteq> [] \<Longrightarrow> int (length xs) \<le> n \<Longrightarrow> bounded_list (Some (JArr (map f xs))) n = Some (map f xs)"
  by (cases xs) (auto simp: bounded_list_def)

lemma skill_roundtrip:
  assumes "skill_ok ct s"
  shows "parse_automation_skill ct (skill_json s) = Some s"
proof -
  have lists: "bounded_list (Some (JArr (map step_json (sk_steps s)))) (ct_max_steps ct) = Some (map step_json (sk_steps s))"
    "parse_all (parse_step ct) (map step_json (sk_steps s)) = Some (sk_steps s)"
    "bounded_list (Some (JArr (map evidence_json (sk_evidence s)))) (ct_max_evidence ct)
      = Some (map evidence_json (sk_evidence s))"
    "parse_all (parse_evidence ct (int (length (sk_steps s)))) (map evidence_json (sk_evidence s)) = Some (sk_evidence s)"
    using assms by (auto simp: skill_ok_def intro!: parse_all_map bounded_list_map step_roundtrip evidence_roundtrip)
  have keys: "exact_keys (JObj [(a, x), (b, y)]) [a, b] = Some (map_of [(a, x), (b, y)])"
    "exact_keys (JObj [(a, x)]) [a] = Some (map_of [(a, x)])" for a b x y
    by (simp_all add: exact_keys_def)
  show ?thesis
    using assms lists
    unfolding parse_automation_skill_def skill_json_keys
    by (cases "sk_parent s") (simp_all add: keys skill_ok_def choice_def json_text_def bounded_int_def
        parse_path_pattern_def same_number_def json_number_def external_step_count_def del: upt_Suc)
qed

end
