(* ===== verification/Skill_Properties.thy ===== *)
theory Skill_Properties
  imports Replay_Facts Skill_Orchestrator Skill_Codec
begin

text \<open>
  Properties of skills: what an accepted document guarantees, the published version tree, routing,
  and the effect discipline of a run from the replayer through handback to the report.
\<close>

subsection \<open>Documents\<close>

text \<open>
  C40. The parser accepts some document for a skill exactly when the skill is well-formed: its lists
  are non-empty and within the limits of the contract, its steps are numbered consecutively from 1,
  a parent is an earlier version, every vocabulary word is of the contract, every text is safe, and
  no more steps are external than the skill declares, which is no more than the contract allows.
  Then it also accepts the document the skill renders to, and reads the same skill back.
\<close>

theorem skill_documents_exact:
  "((\<exists>v. parse_automation_skill ct v = Some s) \<longleftrightarrow> skill_ok ct s)
    \<and> (parse_automation_skill ct (skill_json s) = Some s \<longleftrightarrow> skill_ok ct s)"
  using parse_skill_ok skill_roundtrip by blast

subsection \<open>Replays\<close>

text \<open>
  Whatever the page answers and the hook decides, a replay attempts an external action only
  right after a call of the dispatch hook that returned, never more often than the boundary of the
  skill allows, and nothing after a hook call that raised; a failure is marked dispatched exactly
  when an external action was attempted; and a passed replay performed exactly the steps of the
  skill, in order.
\<close>

lemma replay_external_discipline:
  assumes "replay_skill pg (Some h) s params w = (e, cs, w')" and "0 \<le> sk_max_external s"
  shows "disciplined cs \<and> int (length (external_acts cs)) \<le> sk_max_external s
    \<and> (\<forall>f. e = Replay_failed f \<longrightarrow> (fl_dispatched f \<longleftrightarrow> external_acts cs \<noteq> []))
    \<and> (\<forall>x. e = Hook_raised x \<longrightarrow> (\<exists>before. cs = before @ [Hook False] \<and> Hook False \<notin> set before))
    \<and> (\<forall>oc. e = Replay_passed oc \<longrightarrow> performed_steps cs = sk_steps s
         \<and> oc_completed oc = length (sk_steps s) \<and> oc_external oc = external_step_count s)"
  using replay_skill_ok [OF assms(2,1)] replay_passed_steps [of pg "Some h" s params w _ cs w'] assms(1)
  by (auto simp: end_ok_def split: replay_end.splits)

definition sample_step :: "int \<Rightarrow> str \<Rightarrow> bool \<Rightarrow> skill_step" where
  "sample_step i name external = \<lparr>sp_index = i,
     sp_goal = \<lparr>gl_role = ''button'', gl_name = name, gl_near_text = None, gl_relative = None\<rparr>,
     sp_action = \<lparr>sa_kind = ''click'', sa_parameter = None, sa_key = None, sa_direction = None\<rparr>,
     sp_pre = [], sp_post = [], sp_timeout = 10, sp_external = external, sp_checkpoint = (i = 1)\<rparr>"

definition sample_skill :: skill where
  "sample_skill = \<lparr>sk_id = ''00000000-0000-4000-8000-000000000001'', sk_version = 1, sk_parent = None,
     sk_platform = ''douyin'', sk_domain = ''www.example.com'', sk_path_pattern = ''/v'',
     sk_fingerprint_kind = ''dom_outline_v1'', sk_fingerprint = replicate 64 CHR ''a'',
     sk_language = ''zh-CN'', sk_width = 1280, sk_height = 800, sk_risk = ''low'', sk_max_external = 1,
     sk_steps = [sample_step 1 ''open'' False, sample_step 2 ''send'' True],
     sk_evidence = [\<lparr>sv_kind = ''element_visible'', sv_pattern = None, sv_role = Some ''status'',
       sv_name = Some ''sent'', sv_step = None, sv_x = None, sv_y = None\<rparr>]\<rparr>"

text \<open>A page that finds everything; its world counts the actions; the second one fails.\<close>

definition sample_page :: "nat page" where
  "sample_page = \<lparr>page_find = (\<lambda>_ w. (Some (Some 0), w)), page_holds = (\<lambda>_ w. (Some True, w)),
     page_act = (\<lambda>_ _ _ w. (w = 0, w + 1)), page_path = (\<lambda>w. (Some ''/v'', w))\<rparr>"

definition free_hook :: "(nat, unit) hook" where
  "free_hook = (\<lambda>w. (None, w))"

lemmas sample_skill_defs = sample_skill_def sample_step_def sample_page_def free_hook_def

lemma sample_replay:
  "replay_skill sample_page (Some free_hook) sample_skill Map.empty 0 =
    (Replay_failed \<lparr>fl_reason = Action_failed 2, fl_checkpoint = 1, fl_index = 2, fl_dispatched = True\<rparr>,
     [Act (sample_step 1 ''open'' False) True, Hook True, Act (sample_step 2 ''send'' True) False], 2)"
  by (simp add: replay_skill_def sample_skill_defs external_step_count_def has_parameter_def
      start_vars_def replay_step_def perform_def fail_at_def Let_def)

lemma replay_external_discipline_witness:
  "disciplined [Act (sample_step 1 ''open'' False) True, Hook True, Act (sample_step 2 ''send'' True) False]
    \<and> external_acts [Act (sample_step 1 ''open'' False) True, Hook True,
        Act (sample_step 2 ''send'' True) False] \<noteq> []"
proof -
  have "0 \<le> sk_max_external sample_skill" by (simp add: sample_skill_def)
  from replay_external_discipline [OF sample_replay this] show ?thesis by simp
qed

subsection \<open>Handback\<close>

lemma failed_replay_handback:
  assumes "replay_skill pg (Some h) s params w = (Replay_failed f, cs, w')"
    and "0 \<le> sk_max_external s" and "sk_steps s \<noteq> []"
    and "map sp_index (sk_steps s) = map int [1..<length (sk_steps s) + 1]"
  shows "\<exists>d. decide_handback s f = Some d \<and> \<not> hb_may_resend d
    \<and> (hb_reconcile d \<longleftrightarrow> external_acts cs \<noteq> []) \<and> (hb_may_continue d \<longleftrightarrow> external_acts cs = [])
    \<and> (if external_acts cs = []
       then hb_remaining d = map int [nat (max 1 (fl_checkpoint f))..<length (sk_steps s) + 1]
         \<and> max 1 (fl_index f) \<in> set (hb_remaining d)
       else hb_remaining d = [] \<and> hb_resume d = None)"
proof -
  define n where "n = length (sk_steps s)"
  have idx: "map sp_index (sk_steps s) = map int [1..<n + 1]" and n: "1 \<le> n"
    using assms(3,4) by (simp_all add: n_def Suc_le_eq)
  have pos: "fl_checkpoint f \<in> {0..int n}" "fl_index f \<in> {0..int n}" "fl_checkpoint f \<le> fl_index f"
    using replay_failure_position [OF assms(1,4)] unfolding n_def [symmetric] idx by auto
  have dispatched: "fl_dispatched f \<longleftrightarrow> external_acts cs \<noteq> []"
    using replay_skill_ok [OF assms(2,1)] by (simp add: end_ok_def)
  have known: "fl_checkpoint f \<in> set (0 # map sp_index (sk_steps s))"
    using replay_failure_position [OF assms(1,4)] by simp
  have first: "(case map sp_index (sk_steps s) of [] \<Rightarrow> 0 | i # _ \<Rightarrow> i) = 1"
    unfolding idx using n upt_conv_Cons [of 1 "n + 1"] by (simp del: upt_Suc)
  have suffix: "filter (\<lambda>i. i \<ge> int k) (map int [1..<n + 1]) = map int [k..<n + 1]" if "1 \<le> k" "k \<le> n" for k
  proof -
    have "[1..<n + 1] = [1..<k] @ [k..<n + 1]"
      using upt_add_eq_append [of 1 k "n + 1 - k"] that by simp
    then show ?thesis by (simp add: filter_map o_def filter_empty_conv)
  qed
  show ?thesis
  proof (cases "fl_dispatched f")
    case True
    then show ?thesis using known dispatched by (simp add: decide_handback_def Let_def)
  next
    case False
    define k where "k = nat (max 1 (fl_checkpoint f))"
    have k: "1 \<le> k" "k \<le> n" "int k = (if fl_checkpoint f \<noteq> 0 then fl_checkpoint f else 1)"
      using pos n by (auto simp: k_def)
    have "decide_handback s f = Some \<lparr>hb_reconcile = False, hb_resume = Some (int k),
        hb_remaining = map int [k..<n + 1], hb_may_continue = True, hb_may_resend = False\<rparr>"
      using known False first suffix [OF k(1,2)]
      unfolding decide_handback_def Let_def idx k(3) by (auto simp del: upt_Suc set_map set_upt split: if_split_asm)
    moreover have "max 1 (fl_index f) \<in> set (map int [k..<n + 1])"
    proof -
      have "max 1 (fl_index f) = int (nat (max 1 (fl_index f)))" by simp
      moreover have "nat (max 1 (fl_index f)) \<in> {k..<n + 1}" using pos n by (auto simp: k_def)
      ultimately show ?thesis by (metis image_eqI set_map set_upt)
    qed
    ultimately show ?thesis using dispatched False by (simp add: k_def n_def)
  qed
qed

text \<open>
  The decision after a failed replay of a skill with consecutive steps always exists and never
  allows a resend. It demands reconciliation exactly when an external action was attempted;
  otherwise Browser Use resumes at the last checkpoint, with exactly the steps from there on, the
  failed one among them, and no step before the checkpoint is repeated.
\<close>

lemma handback_follows_dispatch:
  assumes "replay_skill pg (Some h) s params w = (Replay_failed f, cs, w')"
    and "0 \<le> sk_max_external s" and "sk_steps s \<noteq> []"
    and "map sp_index (sk_steps s) = map int [1..<length (sk_steps s) + 1]"
  shows "\<exists>d. decide_handback s f = Some d \<and> \<not> hb_may_resend d
    \<and> (hb_reconcile d \<longleftrightarrow> external_acts cs \<noteq> []) \<and> (hb_may_continue d \<longleftrightarrow> external_acts cs = [])
    \<and> (if external_acts cs = []
       then hb_remaining d = map int [nat (max 1 (fl_checkpoint f))..<length (sk_steps s) + 1]
         \<and> max 1 (fl_index f) \<in> set (hb_remaining d)
       else hb_remaining d = [] \<and> hb_resume d = None)"
  by (rule failed_replay_handback [OF assms])

lemma handback_follows_dispatch_witness:
  "\<exists>d. decide_handback sample_skill \<lparr>fl_reason = Action_failed 2, fl_checkpoint = 1, fl_index = 2,
      fl_dispatched = True\<rparr> = Some d \<and> hb_reconcile d \<and> \<not> hb_may_resend d"
proof -
  have "0 \<le> sk_max_external sample_skill" "sk_steps sample_skill \<noteq> []"
    "map sp_index (sk_steps sample_skill) = map int [1..<length (sk_steps sample_skill) + 1]"
    by (simp_all add: sample_skill_defs upt_conv_Cons)
  from handback_follows_dispatch [OF sample_replay this] show ?thesis
    by (auto simp: sample_step_def)
qed

subsection \<open>Routing\<close>

lemma first_max_greatest:
  assumes trans: "\<And>a b c. \<not> lt a b \<Longrightarrow> \<not> lt b c \<Longrightarrow> \<not> lt a c" and irrefl: "\<And>a. \<not> lt a a"
    and total: "\<And>a b. lt a b \<Longrightarrow> \<not> lt b a"
  shows "first_max lt x xs \<in> set (x # xs) \<and> (\<forall>y \<in> set (x # xs). \<not> lt (first_max lt x xs) y)"
proof (induction xs arbitrary: x)
  case (Cons y ys)
  show ?case
  proof (cases "lt x y")
    case True
    with Cons [of y] total [OF True] trans irrefl show ?thesis by auto
  next
    case False
    with Cons [of x] trans irrefl show ?thesis by auto
  qed
qed (simp add: irrefl)

lemma rank_less_total: "rank_less a b \<Longrightarrow> \<not> rank_less b a"
  by (auto simp: rank_less_def split: prod.splits)

lemma rank_less_irrefl: "\<not> rank_less a a"
  by (auto simp: rank_less_def split: prod.splits)

lemma cross_le_trans:
  fixes a b c p q r :: nat
  assumes "a * q \<ge> b * p" "b * r \<ge> c * q" "0 < q"
  shows "a * r \<ge> c * p"
proof -
  have "q * (c * p) \<le> r * (b * p)" using mult_right_mono [OF assms(2), of p] by (simp add: ac_simps)
  also have "\<dots> \<le> r * (a * q)" using assms(1) by simp
  finally show ?thesis using assms(3) by (simp add: ac_simps)
qed

lemma cross_eq_squeeze:
  fixes a b c p q r :: nat
  assumes "b * p \<le> a * q" "c * q \<le> b * r" "a * r = c * p" "0 < p" "0 < r"
  shows "a * q = b * p \<and> b * r = c * q"
proof -
  have "r * (b * p) \<le> r * (a * q)" "p * (c * q) \<le> p * (b * r)" "r * (a * q) = p * (c * q)"
      "p * (b * r) = r * (b * p)"
    using assms(1,2,3) by (simp_all add: ac_simps)
  then have "r * (b * p) = r * (a * q)" "p * (c * q) = p * (b * r)"
    by linarith+
  then show ?thesis using assms(4,5) by simp
qed

definition rank_ok :: "rank \<Rightarrow> bool" where
  "rank_ok r = (case r of (_, (_, d), _, _) \<Rightarrow> 0 < d)"

lemma rank_of_ok: "rank_ok (rank_of stats v)"
  by (auto simp: rank_of_def rank_ok_def observed_def split: option.splits)

lemma rank_less_trans:
  assumes "\<not> rank_less a b" "\<not> rank_less b c" "rank_ok a" "rank_ok b" "rank_ok c"
  shows "\<not> rank_less a c"
proof -
  obtain k n d h v where a: "a = (k, (n, d), h, v)" by (cases a) auto
  obtain k' n' d' h' v' where b: "b = (k', (n', d'), h', v')" by (cases b) auto
  obtain k'' n'' d'' h'' v'' where c: "c = (k'', (n'', d''), h'', v'')" by (cases c) auto
  have pos: "0 < d" "0 < d'" "0 < d''" using assms(3-5) a b c by (simp_all add: rank_ok_def)
  show ?thesis
  proof (cases "k' = k \<and> k'' = k")
    case True
    then have ge: "n' * d \<le> n * d'" "n'' * d' \<le> n' * d''"
      using assms(1,2) a b c by (auto simp: rank_less_def)
    show ?thesis
    proof (cases "n * d'' = n'' * d")
      case eq: True
      then have "n * d' = n' * d" "n' * d'' = n'' * d'"
        using cross_eq_squeeze [OF ge eq] pos by auto
      then show ?thesis using assms(1,2) a b c True eq by (auto simp: rank_less_def)
    next
      case False
      then show ?thesis
        using cross_le_trans [OF ge pos(2)] a c True by (auto simp: rank_less_def)
    qed
  qed (use assms(1,2) a b c in \<open>auto simp: rank_less_def\<close>)
qed

lemma route_skill_best:
  "(route_skill cands ctx stats = None \<longleftrightarrow> (\<forall>c \<in> set cands. \<not> eligible ctx c))
    \<and> (\<forall>v. route_skill cands ctx stats = Some v \<longrightarrow>
        (\<exists>c \<in> set cands. eligible ctx c \<and> rc_version c = v)
        \<and> (\<forall>c \<in> set cands. eligible ctx c \<longrightarrow>
             \<not> rank_less (rank_of stats v) (rank_of stats (rc_version c))))"
proof (cases "filter (eligible ctx) cands")
  case Nil
  then show ?thesis by (auto simp: route_skill_def filter_empty_conv)
next
  case (Cons c cs)
  let ?lt = "\<lambda>a b. rank_less (rank_of stats (rc_version a)) (rank_of stats (rc_version b))"
  have mem: "{c \<in> set cands. eligible ctx c} = set (c # cs)" using Cons by (metis set_filter)
  have "first_max ?lt c cs \<in> set (c # cs) \<and> (\<forall>y \<in> set (c # cs). \<not> ?lt (first_max ?lt c cs) y)"
    by (rule first_max_greatest)
      (use rank_less_trans rank_of_ok rank_less_irrefl rank_less_total in blast)+
  then show ?thesis using mem Cons by (fastforce simp: route_skill_def)
qed

text \<open>
  Routing succeeds exactly when some version is enabled and has the fingerprint, language and
  width of the page; the chosen one is such a version, and no other one outranks it: a version that
  only ever failed is chosen only when every applicable one has, a proven version beats an
  unobserved one, and then the success rate, the recency and the version number decide.
\<close>

lemma route_picks_best:
  "(route_skill cands ctx stats = None \<longleftrightarrow> (\<forall>c \<in> set cands. \<not> eligible ctx c))
    \<and> (\<forall>v. route_skill cands ctx stats = Some v \<longrightarrow>
        (\<exists>c \<in> set cands. eligible ctx c \<and> rc_version c = v)
        \<and> (\<forall>c \<in> set cands. eligible ctx c \<longrightarrow>
             \<not> rank_less (rank_of stats v) (rank_of stats (rc_version c))))"
  by (rule route_skill_best)

lemma route_picks_best_witness:
  "route_skill
      [\<lparr>rc_version = 1, rc_fingerprint = ''f'', rc_language = ''zh-CN'', rc_width = 1280, rc_disabled = False\<rparr>,
       \<lparr>rc_version = 2, rc_fingerprint = ''f'', rc_language = ''zh-CN'', rc_width = 1280, rc_disabled = True\<rparr>]
      \<lparr>px_fingerprint = ''f'', px_language = ''zh-CN'', px_width = 1280\<rparr> Map.empty = Some 1"
  (is "route_skill ?cs ?ctx _ = _")
proof -
  have "route_skill ?cs ?ctx Map.empty \<noteq> None"
    using route_picks_best [of ?cs ?ctx Map.empty] by (simp add: eligible_def)
  then obtain v where v: "route_skill ?cs ?ctx Map.empty = Some v" by auto
  with route_picks_best [of ?cs ?ctx Map.empty] have "v = 1" by (auto simp: eligible_def)
  with v show ?thesis by simp
qed

subsection \<open>The published version tree\<close>

text \<open>The registries that publications can build, and the ancestry of a published version.\<close>

inductive published :: "skill_contract \<Rightarrow> verifier \<Rightarrow> registry \<Rightarrow> bool" for ct vf where
  nothing: "published ct vf []"
| next_version: "published ct vf reg \<Longrightarrow> publish ct vf reg doc = Some (r, reg') \<Longrightarrow> published ct vf reg'"

inductive lineage :: "registry \<Rightarrow> str \<Rightarrow> int \<Rightarrow> bool" for reg where
  root: "r \<in> set reg \<Longrightarrow> record_key r = (sid, 1) \<Longrightarrow> sk_parent (ss_skill r) = None \<Longrightarrow> lineage reg sid 1"
| child: "r \<in> set reg \<Longrightarrow> record_key r = (sid, v) \<Longrightarrow> sk_parent (ss_skill r) = Some p \<Longrightarrow> p < v \<Longrightarrow>
    lineage reg sid p \<Longrightarrow> lineage reg sid v"

lemma lineage_append: "lineage reg sid v \<Longrightarrow> lineage (reg @ more_records) sid v"
  by (induction rule: lineage.induct) (auto intro: lineage.intros)

definition genuine :: "skill_contract \<Rightarrow> verifier \<Rightarrow> signed_skill \<Rightarrow> bool" where
  "genuine ct vf r \<longleftrightarrow> verify_signed_skill ct vf (ss_document r) = Some r"

lemma verified_record:
  "verify_signed_skill ct vf doc = Some r \<Longrightarrow>
     ss_document r = doc \<and> ss_version r = sk_version (ss_skill r)
     \<and> parse_automation_skill ct (sr_skill doc) = Some (ss_skill r)"
  by (auto simp: verify_signed_skill_def bind_eq_Some_conv split: if_splits)

lemma publish_cases:
  "publish ct vf reg doc = Some (r, reg') \<longleftrightarrow>
     verify_signed_skill ct vf doc = Some r \<and> reg' = reg @ [r] \<and> record_key r \<notin> record_key ` set reg
     \<and> (ss_version r = 1 \<longrightarrow> sk_parent (ss_skill r) = None)
     \<and> (ss_version r \<noteq> 1 \<longrightarrow> (\<exists>p. sk_parent (ss_skill r) = Some p
          \<and> (sk_id (ss_skill r), p) \<in> record_key ` set reg))"
  by (auto simp: publish_def bind_eq_Some_conv split: option.splits if_splits)

lemma parsed_parent:
  assumes "parse_automation_skill ct v = Some s" "sk_parent s = Some p"
  shows "1 \<le> p \<and> p < sk_version s"
  using assms by (elim parse_skill_cases) (auto split: if_splits)

text \<open>The invariant of a registry.\<close>

definition registry_ok :: "skill_contract \<Rightarrow> verifier \<Rightarrow> registry \<Rightarrow> bool" where
  "registry_ok ct vf reg \<longleftrightarrow> distinct (map record_key reg)
     \<and> (\<forall>r \<in> set reg. verify_signed_skill ct vf (ss_document r) = Some r
          \<and> lineage reg (sk_id (ss_skill r)) (ss_version r))"

lemma publish_keeps_ok:
  assumes ok: "registry_ok ct vf reg" and step: "publish ct vf reg doc = Some (r, reg')"
  shows "registry_ok ct vf reg'"
proof -
  from step have v: "verify_signed_skill ct vf doc = Some r" and reg': "reg' = reg @ [r]"
    and new: "record_key r \<notin> record_key ` set reg" by (auto simp: publish_cases)
  have old: "lineage reg' (sk_id (ss_skill x)) (ss_version x)" if "x \<in> set reg" for x
    using ok that by (auto simp: registry_ok_def reg' intro: lineage_append)
  have "lineage reg' (sk_id (ss_skill r)) (ss_version r)"
  proof (cases "ss_version r = 1")
    case True
    then show ?thesis
      using step lineage.root [of r reg' "sk_id (ss_skill r)"]
      by (auto simp: publish_cases reg' record_key_def)
  next
    case False
    then obtain p x where p: "sk_parent (ss_skill r) = Some p"
      and x: "x \<in> set reg" "record_key x = (sk_id (ss_skill r), p)"
      using step by (auto simp: publish_cases image_iff)
    have "p < ss_version r" using verified_record [OF v] parsed_parent [OF _ p] by auto
    then show ?thesis
      using old [OF x(1)] x(2) p lineage.child [of r reg' "sk_id (ss_skill r)" "ss_version r" p]
      by (auto simp: reg' record_key_def)
  qed
  then show ?thesis
    using ok old new v verified_record [OF v] by (auto simp: registry_ok_def reg')
qed

lemma published_ok: "published ct vf reg \<Longrightarrow> registry_ok ct vf reg"
  by (induction rule: published.induct) (auto simp: registry_ok_def [of _ _ "[]"] publish_keeps_ok)

lemma registry_at_own:
  "distinct (map record_key reg) \<Longrightarrow> r \<in> set reg \<Longrightarrow>
     registry_at reg (sk_id (ss_skill r)) (ss_version r) = Some r"
  by (induction reg) (auto simp: registry_at_def record_key_def)

text \<open>
  C39. In every registry that publications can build, a version is published at most once and is
  found again under its id and version; each record is the verification of its own signed document
  against the pinned publisher key and an approved review; and each version descends, through
  published parents with ever smaller numbers, from a published version 1 of the same skill.
\<close>

theorem published_tree_sound:
  assumes "published ct vf reg" and "r \<in> set reg"
  shows "registry_at reg (sk_id (ss_skill r)) (ss_version r) = Some r
    \<and> verify_signed_skill ct vf (ss_document r) = Some r \<and> valid_approval (sr_approval (ss_document r))
    \<and> lineage reg (sk_id (ss_skill r)) (ss_version r)"
proof -
  have ok: "registry_ok ct vf reg" by (rule published_ok [OF assms(1)])
  then have v: "verify_signed_skill ct vf (ss_document r) = Some r" using assms(2) by (simp add: registry_ok_def)
  then have "valid_approval (sr_approval (ss_document r))"
    by (auto simp: verify_signed_skill_def bind_eq_Some_conv split: if_splits)
  then show ?thesis using ok v assms(2) by (simp add: registry_ok_def registry_at_own)
qed

text \<open>The sample skill, published as the only version under a verifier that accepts.\<close>

lemma sample_texts:
  "is_canonical_uuid_v4 (sk_id sample_skill)" "hostname_ok (sk_domain sample_skill)"
  "is_sha256_hex (sk_fingerprint sample_skill)" "path_pattern_ok (sk_path_pattern sample_skill)"
  "list_all (\<lambda>s. safe_text_ok s 120) [''open'', ''send'', ''sent'']"
  by code_simp+

lemma sample_skill_ok: "skill_ok contract_v1 sample_skill"
proof -
  have "\<forall>st \<in> set (sk_steps sample_skill). step_ok contract_v1 st"
    "\<forall>e \<in> set (sk_evidence sample_skill). evidence_ok contract_v1 2 e"
    using sample_texts(5) by (simp_all add: sample_skill_def sample_step_def step_ok_def goal_ok_def
        action_ok_def evidence_ok_def url_kind_def contract_v1_def)
  then show ?thesis
    using sample_texts(1-4) by (simp add: skill_ok_def external_step_count_def sample_skill_def
        sample_step_def contract_v1_def upt_conv_Cons)
qed

definition sample_verifier :: verifier where
  "sample_verifier = \<lparr>vf_key = replicate 32 0, vf_from_hex = (\<lambda>_. Some (replicate 32 0)),
     vf_verifies = (\<lambda>_ _ _ _. True)\<rparr>"

definition sample_record :: signed_record where
  "sample_record = \<lparr>sr_skill = skill_json sample_skill,
     sr_approval = JObj [(''reviewer'', JStr ''r''), (''decision'', JStr ''approved''), (''reviewedAt'', JStr ''t'')],
     sr_public_key = ''k'', sr_signature = ''s''\<rparr>"

definition sample_published :: signed_skill where
  "sample_published = \<lparr>ss_skill = sample_skill, ss_version = 1, ss_document = sample_record\<rparr>"

lemma sample_version: "sk_version sample_skill = 1" "sk_parent sample_skill = None"
  by (simp_all add: sample_skill_def)

lemma sample_publication:
  "publish contract_v1 sample_verifier [] sample_record = Some (sample_published, [sample_published])"
proof -
  have "parse_automation_skill contract_v1 (sr_skill sample_record) = Some sample_skill"
    by (simp add: sample_record_def skill_roundtrip sample_skill_ok)
  then have "verify_signed_skill contract_v1 sample_verifier sample_record = Some sample_published"
    by (simp add: verify_signed_skill_def sample_verifier_def sample_record_def valid_approval_def
        exact_keys_def sample_published_def sample_version)
  then show ?thesis
    by (simp add: publish_cases sample_published_def sample_version)
qed

theorem published_tree_sound_witness:
  "registry_at [sample_published] (sk_id sample_skill) 1 = Some sample_published
    \<and> lineage [sample_published] (sk_id sample_skill) 1"
proof -
  have "published contract_v1 sample_verifier [sample_published]"
    by (rule published.next_version [OF published.nothing sample_publication])
  from published_tree_sound [OF this] show ?thesis by (simp add: sample_published_def)
qed

subsection \<open>Execution\<close>

lemma mem_versions: "r \<in> set (versions_of reg sid) \<longleftrightarrow> r \<in> set reg \<and> sk_id (ss_skill r) = sid"
  by (auto simp: versions_of_def)

text \<open>The page an execution routes for: the given one, or the one of the newest version.\<close>

definition routed_context :: "orchestrator \<Rightarrow> str \<Rightarrow> page_context option \<Rightarrow> page_context" where
  "routed_context orc sid context = (case context of Some c \<Rightarrow> c
     | None \<Rightarrow> context_of (ss_skill (last (versions_of (or_registry orc) sid))))"

definition runnable :: "orchestrator \<Rightarrow> str \<Rightarrow> page_context option \<Rightarrow> signed_skill \<Rightarrow> bool" where
  "runnable orc sid context r \<longleftrightarrow> r \<in> set (or_registry orc) \<and> sk_id (ss_skill r) = sid
     \<and> eligible (routed_context orc sid context) (routing_candidate (or_disabled orc) r)"

definition counted :: "orchestrator \<Rightarrow> signed_skill \<Rightarrow> bool \<Rightarrow> orchestrator" where
  "counted orc r ok = orc\<lparr>or_stats := record_outcome (or_stats orc) (record_key r) ok\<rparr>"

lemma published_skill:
  assumes "published ct vf reg" "r \<in> set reg"
  shows "skill_ok ct (ss_skill r)" "sk_version (ss_skill r) = ss_version r"
    "registry_at reg (sk_id (ss_skill r)) (ss_version r) = Some r"
proof -
  have "registry_ok ct vf reg" by (rule published_ok [OF assms(1)])
  then have "verify_signed_skill ct vf (ss_document r) = Some r"
    "registry_at reg (sk_id (ss_skill r)) (ss_version r) = Some r"
    using assms(2) by (simp_all add: registry_ok_def registry_at_own)
  with verified_record parse_skill_ok show "skill_ok ct (ss_skill r)" "sk_version (ss_skill r) = ss_version r"
    "registry_at reg (sk_id (ss_skill r)) (ss_version r) = Some r" by metis+
qed

lemma execute_Cons:
  "versions_of (or_registry orc) sid = a # as \<Longrightarrow>
     execute orc sid pg params context hook w =
      (case route_skill (map (routing_candidate (or_disabled orc)) (a # as)) (routed_context orc sid context)
          (scoped (or_stats orc) sid) of
         None \<Rightarrow> (Report no_route, [], orc, w)
       | Some version \<Rightarrow>
           (case registry_at (or_registry orc) sid version of
              None \<Rightarrow> (Execute_raised, [], orc, w)
            | Some found \<Rightarrow> run_version orc (sid, version) (ss_skill found) pg params hook w))"
  by (simp only: execute_def routed_context_def list.case Let_def)

lemma execute_routed:
  assumes reg: "published ct vf (or_registry orc)" and run: "runnable orc sid context x"
  obtains r where "runnable orc sid context r"
    "execute orc sid pg params context hook w =
      run_version orc (record_key r) (ss_skill r) pg params hook w"
proof -
  let ?vs = "versions_of (or_registry orc) sid"
  have x: "x \<in> set ?vs" "eligible (routed_context orc sid context) (routing_candidate (or_disabled orc) x)"
    using run by (auto simp: runnable_def mem_versions)
  then obtain a as where vs: "?vs = a # as" by (cases ?vs) auto
  let ?route = "route_skill (map (routing_candidate (or_disabled orc)) ?vs) (routed_context orc sid context)
    (scoped (or_stats orc) sid)"
  obtain v where v: "?route = Some v"
    using route_skill_best [of "map (routing_candidate (or_disabled orc)) ?vs" "routed_context orc sid context"
      "scoped (or_stats orc) sid"] x by fastforce
  then obtain r where r: "r \<in> set ?vs" "eligible (routed_context orc sid context) (routing_candidate (or_disabled orc) r)"
    and "rc_version (routing_candidate (or_disabled orc) r) = v"
    using route_skill_best [of "map (routing_candidate (or_disabled orc)) ?vs" "routed_context orc sid context"
      "scoped (or_stats orc) sid"] by auto
  moreover have "r \<in> set (or_registry orc)" "sk_id (ss_skill r) = sid" using r(1) by (simp_all add: mem_versions)
  note mine = this published_skill [OF reg this(1)]
  ultimately have version: "v = ss_version r" by (simp add: routing_candidate_def Let_def)
  have "runnable orc sid context r" using r mine by (simp add: runnable_def)
  then show thesis
    using v mine version by (intro that [of r]) (simp_all add: execute_Cons [OF vs] vs record_key_def)
qed

lemma execute_unrouted:
  assumes "\<And>x. \<not> runnable orc sid context x"
  shows "execute orc sid pg params context hook w = (Report no_route, [], orc, w)"
proof (cases "versions_of (or_registry orc) sid")
  case (Cons a as)
  have "route_skill (map (routing_candidate (or_disabled orc)) (a # as)) (routed_context orc sid context)
      (scoped (or_stats orc) sid) = None"
    using assms Cons mem_versions [of _ "or_registry orc" sid]
      route_skill_best [of "map (routing_candidate (or_disabled orc)) (a # as)" "routed_context orc sid context"]
    by (auto simp: runnable_def)
  then show ?thesis by (simp add: execute_Cons [OF Cons])
qed (simp add: execute_def)

lemma run_version_replay:
  assumes "run_version orc key s pg params hook w = (e, cs, orc', w')"
  shows "\<exists>x. replay_skill pg hook s params w = (x, cs, w')"
proof -
  obtain x cs2 w2 where r: "replay_skill pg hook s params w = (x, cs2, w2)" using prod_cases3 by blast
  have "cs2 = cs \<and> w2 = w'"
  proof (cases x)
    case (Replay_failed f)
    then show ?thesis using assms r by (cases "decide_handback s f") (simp_all add: run_version_def)
  qed (use assms r in \<open>simp_all add: run_version_def\<close>)
  with r show ?thesis by simp
qed

lemma execute_report:
  assumes "published ct vf (or_registry orc)"
    and "execute orc sid pg params context (Some h) w = (e, cs, orc', w')"
  shows "(\<forall>r. \<not> runnable orc sid context r) \<and> (e, cs, orc', w') = (Report no_route, [], orc, w)
    \<or> (\<exists>r x. runnable orc sid context r \<and> replay_skill pg (Some h) (ss_skill r) params w = (x, cs, w')
        \<and> disciplined cs \<and> int (length (external_acts cs)) \<le> sk_max_external (ss_skill r)
        \<and> (case x of
             Replay_passed oc \<Rightarrow> orc' = counted orc r True \<and>
               e = Report \<lparr>ep_kind = Replayed, ep_version = Some (ss_version r), ep_outcome = Some oc, ep_decision = None\<rparr>
           | Replay_failed f \<Rightarrow> orc' = counted orc r False \<and> (\<exists>d. \<not> hb_may_resend d
               \<and> (hb_may_continue d \<longleftrightarrow> external_acts cs = [])
               \<and> e = Report \<lparr>ep_kind = (if external_acts cs = [] then Recovery_pending else Reconcile_required),
                   ep_version = Some (ss_version r), ep_outcome = None, ep_decision = Some d\<rparr>)
           | Hook_raised y \<Rightarrow> orc' = orc \<and> e = Execute_hook y
           | Page_raised \<Rightarrow> orc' = orc \<and> e = Execute_raised))"
proof (cases "\<exists>x. runnable orc sid context x")
  case False
  then show ?thesis using execute_unrouted [of orc sid "context" pg params "Some h" w] assms(2) by auto
next
  case True
  then obtain y where "runnable orc sid context y" ..
  then obtain r where run: "runnable orc sid context r"
    and eq: "execute orc sid pg params context (Some h) w =
      run_version orc (record_key r) (ss_skill r) pg params (Some h) w"
    by (rule execute_routed [OF assms(1)])
  let ?s = "ss_skill r"
  have ok: "skill_ok ct ?s" using run published_skill [OF assms(1)] by (simp add: runnable_def)
  note result = assms(2) [unfolded eq]
  obtain x where x: "replay_skill pg (Some h) ?s params w = (x, cs, w')"
    using run_version_replay [OF result] ..
  have "0 \<le> sk_max_external ?s" using ok by (simp add: skill_ok_def)
  note outside = replay_skill_ok [OF this x]
  have handed: "\<exists>d. decide_handback ?s f = Some d \<and> \<not> hb_may_resend d
      \<and> (hb_reconcile d \<longleftrightarrow> external_acts cs \<noteq> []) \<and> (hb_may_continue d \<longleftrightarrow> external_acts cs = [])"
    if "x = Replay_failed f" for f
    using failed_replay_handback [of pg h ?s params w f cs w'] x that ok by (simp add: skill_ok_def) blast
  show ?thesis
  proof (cases x)
    case (Replay_failed f)
    then obtain d where "decide_handback ?s f = Some d \<and> \<not> hb_may_resend d
      \<and> (hb_reconcile d \<longleftrightarrow> external_acts cs \<noteq> []) \<and> (hb_may_continue d \<longleftrightarrow> external_acts cs = [])"
      using handed by blast
    then show ?thesis using run x outside result Replay_failed
      by (intro disjI2 exI [of _ r] exI [of _ x]) (auto simp: run_version_def end_ok_def counted_def record_key_def)
  qed (use run x outside result in \<open>intro disjI2 exI [of _ r] exI [of _ x],
    auto simp: run_version_def end_ok_def counted_def record_key_def\<close>)
qed

text \<open>
  C38. Running a skill from a published registry. If no version is enabled and fits the page, the
  report says so and nothing happened. Otherwise exactly one such version is replayed, with at most
  as many external actions as it declares, each right after a permission of the dispatch hook, and
  the report tells what happened: a pass is counted as a success; a failure is counted, and asks
  for reconciliation exactly when an external action was attempted and otherwise for recovery from
  a checkpoint, never for a resend; an exception of the hook or the page leaves without being
  counted.
\<close>

theorem execute_reports_faithfully:
  assumes "published ct vf (or_registry orc)"
    and "execute orc sid pg params context (Some h) w = (e, cs, orc', w')"
  shows "(\<forall>r. \<not> runnable orc sid context r) \<and> (e, cs, orc', w') = (Report no_route, [], orc, w)
    \<or> (\<exists>r x. runnable orc sid context r \<and> replay_skill pg (Some h) (ss_skill r) params w = (x, cs, w')
        \<and> disciplined cs \<and> int (length (external_acts cs)) \<le> sk_max_external (ss_skill r)
        \<and> (case x of
             Replay_passed oc \<Rightarrow> orc' = counted orc r True \<and>
               e = Report \<lparr>ep_kind = Replayed, ep_version = Some (ss_version r), ep_outcome = Some oc, ep_decision = None\<rparr>
           | Replay_failed f \<Rightarrow> orc' = counted orc r False \<and> (\<exists>d. \<not> hb_may_resend d
               \<and> (hb_may_continue d \<longleftrightarrow> external_acts cs = [])
               \<and> e = Report \<lparr>ep_kind = (if external_acts cs = [] then Recovery_pending else Reconcile_required),
                   ep_version = Some (ss_version r), ep_outcome = None, ep_decision = Some d\<rparr>)
           | Hook_raised y \<Rightarrow> orc' = orc \<and> e = Execute_hook y
           | Page_raised \<Rightarrow> orc' = orc \<and> e = Execute_raised))"
  by (rule execute_report [OF assms])

definition sample_orchestrator :: orchestrator where
  "sample_orchestrator = \<lparr>or_registry = [sample_published], or_stats = empty_store, or_disabled = []\<rparr>"

theorem execute_reports_faithfully_witness:
  "\<exists>e cs orc w. execute sample_orchestrator (sk_id sample_skill) sample_page Map.empty None (Some free_hook) 0
      = (e, cs, orc, w) \<and> disciplined cs"
proof -
  obtain e cs orc w where x: "execute sample_orchestrator (sk_id sample_skill) sample_page Map.empty None
      (Some free_hook) 0 = (e, cs, orc, w)" using prod_cases4 by blast
  have "published contract_v1 sample_verifier (or_registry sample_orchestrator)"
    using published.next_version [OF published.nothing sample_publication]
    by (simp add: sample_orchestrator_def)
  from execute_reports_faithfully [OF this x] have "disciplined cs" by auto
  with x show ?thesis by blast
qed

end
