(* ===== verification/Action_Gate.thy ===== *)
theory Action_Gate
  imports Ledger_Runs
begin

text \<open>
  The installation-local gate every platform action passes (\<open>executor/action_gate.py\<close>) and the
  expectation an action command is turned into (\<open>executor/action_authorization.py\<close>).

  The gate reads its clock twice per admission; the two readings are arguments. \<open>sha\<close> is SHA-256.
  A clock reading that is no datetime is refused like a naive one.
\<close>

subsection \<open>Expectations\<close>

record expectation =
  xp_action_id :: str
  xp_target_id :: str
  xp_attempt_id :: str
  xp_task_id :: str
  xp_installation_id :: str
  xp_executor_id :: str
  xp_platform :: str
  xp_action :: exposure_action
  xp_idempotency_key :: str

text \<open>\<open>__post_init__\<close>, and the identifier types of its fields.\<close>

definition expectation_ok :: "expectation \<Rightarrow> bool" where
  "expectation_ok x \<longleftrightarrow>
     is_canonical_uuid_v4 (xp_action_id x) \<and> is_canonical_uuid_v4 (xp_target_id x)
     \<and> is_canonical_uuid_v4 (xp_attempt_id x) \<and> is_canonical_uuid_v4 (xp_task_id x)
     \<and> is_canonical_uuid_v4 (xp_installation_id x) \<and> is_canonical_uuid_v4 (xp_executor_id x)
     \<and> xp_platform x = ''douyin'' \<and> xp_idempotency_key x = ''action:'' @ xp_action_id x"

subsection \<open>The gate\<close>

record gate =
  gt_interval :: int
  gt_limit :: int

text \<open>\<open>LocalActionHardPolicy\<close>: whole seconds between one second and one hour, in microseconds.\<close>

definition local_policy_ok :: "int \<Rightarrow> int \<Rightarrow> bool" where
  "local_policy_ok interval limit \<longleftrightarrow>
     interval mod seconds 1 = 0 \<and> seconds 1 \<le> interval \<and> interval \<le> seconds max_local_action_interval_seconds
     \<and> 1 \<le> limit \<and> limit \<le> max_local_task_actions"

definition new_gate :: "ledger \<Rightarrow> int \<Rightarrow> int \<Rightarrow> (gate \<times> ledger) option" where
  "new_gate L interval limit = do {
     require (local_policy_ok interval limit);
     (bound, L') \<leftarrow> bind_action_hard_policy L (interval div seconds 1) limit;
     require (local_policy_ok (seconds (hp_interval bound)) (hp_limit bound));
     Some (\<lparr>gt_interval = hp_interval bound, gt_limit = hp_limit bound\<rparr>, L')
   }"

definition gate_claims :: "expectation \<Rightarrow> instant \<Rightarrow> instant \<Rightarrow> claims" where
  "gate_claims x now deadline = \<lparr>
     cl_action_id = xp_action_id x, cl_target_id = xp_target_id x, cl_attempt_id = xp_attempt_id x,
     cl_task_id = xp_task_id x, cl_installation_id = xp_installation_id x,
     cl_executor_id = xp_executor_id x, cl_platform = xp_platform x, cl_action = xp_action x,
     cl_idempotency_key = xp_idempotency_key x, cl_authorized_at = now, cl_deadline_at = deadline\<rparr>"

text \<open>The claims the gate makes for itself: authorized now, for the longest lifetime.\<close>

definition gate_request :: "expectation \<Rightarrow> py_datetime \<Rightarrow> claims option" where
  "gate_request x first = do {
     now \<leftarrow> canonical_utc first;
     deadline \<leftarrow> add_delta now authorization_max_lifetime;
     require (claims_ok (gate_claims x now deadline));
     Some (gate_claims x now deadline)
   }"

text \<open>\<open>ActionGateLimited\<close> carries its reason; any other exception is \<open>ActionGateRejected\<close>.\<close>

definition gate_admit ::
  "(bytes \<Rightarrow> bytes) \<Rightarrow> gate \<Rightarrow> ledger \<Rightarrow> expectation \<Rightarrow> py_datetime \<Rightarrow> py_datetime \<Rightarrow>
   (admit_error + admission) \<times> ledger" where
  "gate_admit sha g L x first second =
     (case gate_request x first of
        None \<Rightarrow> (Inl Admit_rejected, L)
      | Some c \<Rightarrow>
          admit_action L c (sha (encode_ascii (xp_action_id x))) second (gt_interval g) (gt_limit g))"

definition gate_admission :: "ledger \<Rightarrow> str \<Rightarrow> admission option option" where
  "gate_admission L action_id = get_action_admission L action_id"

definition gate_engage_stop :: "ledger \<Rightarrow> py_datetime \<Rightarrow> (emergency_stop \<times> ledger) option" where
  "gate_engage_stop L now = engage_action_emergency_stop L now"

definition gate_clear_stop :: "ledger \<Rightarrow> int \<Rightarrow> py_datetime \<Rightarrow> (emergency_stop \<times> ledger) option" where
  "gate_clear_stop L expected_revision now = do {
     require (\<not> expected_revision \<le> 0);
     clear_action_emergency_stop L expected_revision now
   }"

subsection \<open>Facts\<close>

lemma sound_gate_admit: "sound L (snd (gate_admit sha g L x first second))"
proof (cases "gate_request x first")
  case (Some c)
  then show ?thesis
    using sound_admit [of L c] by (metis gate_admit_def option.simps(5) prod.collapse)
qed (simp add: gate_admit_def)

text \<open>A gate keeps bounds the ledger accepts.\<close>

lemma new_gate_policy:
  assumes "new_gate L interval limit = Some (g, L')"
  shows "hard_policy_ok (gt_interval g) (gt_limit g)"
  using assms by (auto simp: new_gate_def bind_eq_Some_conv local_policy_ok_def hard_policy_ok_def
      seconds_def split: if_splits)

lemma gate_request_Some:
  "gate_request x first = Some c \<longleftrightarrow>
     (\<exists>now. first = Aware 0 now \<and> c = gate_claims x now (now + authorization_max_lifetime)
        \<and> valid_instant (now + authorization_max_lifetime) \<and> claims_ok c)"
  by (auto simp: gate_request_def bind_eq_Some_conv canonical_utc_Some add_delta_Some)

lemma filter_one:
  assumes "filter P xs = [r]"
  shows "r \<in> set xs \<and> P r"
proof -
  have "r \<in> set (filter P xs)" using assms by simp
  then show ?thesis by simp
qed

text \<open>An admission of the gate is a row that carries the clock reading it was made with.\<close>

lemma gate_admission_row:
  assumes "gate_admit sha g L x first second = (Inr a, L')"
  shows "\<exists>r now. first = Aware 0 now \<and> r \<in> set (admissions L') \<and> ad_action_id r = xp_action_id x
    \<and> ad_target_id r = xp_target_id x \<and> ad_authorized_at r = now"
proof -
  from assms obtain c where request: "gate_request x first = Some c"
    and admit: "admit_action L c (sha (encode_ascii (xp_action_id x))) second (gt_interval g) (gt_limit g) = (Inr a, L')"
    by (auto simp: gate_admit_def split: option.splits)
  then have c: "first = Aware 0 (cl_authorized_at c)" "cl_action_id c = xp_action_id x"
      "cl_target_id c = xp_target_id x"
    by (auto simp: gate_request_Some gate_claims_def)
  from admit have "\<exists>r. r \<in> set (admissions L') \<and> ad_action_id r = cl_action_id c
      \<and> ad_target_id r = cl_target_id c \<and> ad_authorized_at r = cl_authorized_at c"
    by (auto simp: admit_action_def admit_new_def Let_def sql_insert_Some admission_of_claims_def
        same_action_admission_def split: op_splits dest!: filter_one)
  with c show ?thesis by auto
qed

lemma gate_readmission:
  assumes row: "r \<in> set (admissions L)" "ad_action_id r = xp_action_id x"
    and "\<And>now. first = Aware 0 now \<Longrightarrow> now \<noteq> ad_authorized_at r"
  shows "\<exists>e \<in> {Admit_rejected, Admit_limited Limit_emergency_stop}.
    gate_admit sha g L x first second = (Inl e, L)"
proof (cases "gate_request x first")
  case (Some c)
  then have c: "cl_action_id c = xp_action_id x" "first = Aware 0 (cl_authorized_at c)"
    by (auto simp: gate_request_Some gate_claims_def)
  then have "\<not> same_action_admission r c f" for f
    using assms(3) by (auto simp: same_action_admission_def)
  moreover obtain r' rs where hits: "filter (\<lambda>r. ad_action_id r = cl_action_id c
      \<or> ad_idempotency_key r = cl_idempotency_key c) (admissions L) = r' # rs" (is "?hits = _")
    and "rs = [] \<longrightarrow> r' = r"
  proof (cases ?hits)
    case Nil
    then show ?thesis using row c by (auto simp: filter_empty_conv)
  next
    case (Cons r' rs)
    moreover have "r \<in> set ?hits" using row c by simp
    ultimately show ?thesis using that by (cases rs) auto
  qed
  ultimately show ?thesis
    using Some by (auto simp: gate_admit_def admit_action_def split: op_splits)
qed (simp add: gate_admit_def)

end
