(* ===== verification/Json_Text.thy ===== *)
theory Json_Text
  imports Safe_Text
begin

text \<open>
  JSON texts as \<open>json.dumps\<close> writes them for flat objects of strings, with \<open>ensure_ascii\<close> and the
  separators of a canonical dump, for characters below 256; and that the written text determines
  the object.
\<close>

definition hex_char :: "nat \<Rightarrow> char" where
  "hex_char n = ''0123456789abcdef'' ! n"

definition json_escape :: "char \<Rightarrow> str" where
  "json_escape c =
     (if c = CHR 0x22 \<or> c = CHR 0x5C then [CHR 0x5C, c]
      else if c = CHR 0x0A then [CHR 0x5C, CHR ''n'']
      else if c = CHR 0x0D then [CHR 0x5C, CHR ''r'']
      else if c = CHR 0x09 then [CHR 0x5C, CHR ''t'']
      else if c = CHR 0x0C then [CHR 0x5C, CHR ''f'']
      else if c = CHR 0x08 then [CHR 0x5C, CHR ''b'']
      else if 32 \<le> code c \<and> code c \<le> 126 then [c]
      else [CHR 0x5C, CHR ''u'', CHR ''0'', CHR ''0'', hex_char (code c div 16), hex_char (code c mod 16)])"

definition json_quote :: "str \<Rightarrow> str" where
  "json_quote s = CHR 0x22 # concat (map json_escape s) @ [CHR 0x22]"

fun json_members :: "(str \<times> str) list \<Rightarrow> str" where
  "json_members [] = []"
| "json_members [(k, v)] = json_quote k @ '':'' @ json_quote v"
| "json_members ((k, v) # kv # kvs) = json_quote k @ '':'' @ json_quote v @ '','' @ json_members (kv # kvs)"

subsection \<open>Reading back\<close>

text \<open>A reader of one escaped character, which shows that no text continues another.\<close>

definition hex_value :: "char \<Rightarrow> nat" where
  "hex_value c = (if code c < 58 then code c - 48 else code c - 87)"

fun read_escaped :: "str \<Rightarrow> (char \<times> str) option" where
  "read_escaped (c # cs) =
     (if c \<noteq> CHR 0x5C then Some (c, cs)
      else (case cs of
        [] \<Rightarrow> None
      | d # ds \<Rightarrow>
          (if d = CHR 0x22 \<or> d = CHR 0x5C then Some (d, ds)
           else if d = CHR ''n'' then Some (CHR 0x0A, ds)
           else if d = CHR ''r'' then Some (CHR 0x0D, ds)
           else if d = CHR ''t'' then Some (CHR 0x09, ds)
           else if d = CHR ''f'' then Some (CHR 0x0C, ds)
           else if d = CHR ''b'' then Some (CHR 0x08, ds)
           else (case ds of
             _ # _ # h # l # rest \<Rightarrow> Some (char_of (16 * hex_value h + hex_value l), rest)
           | _ \<Rightarrow> None))))"
| "read_escaped [] = None"

lemma hex_value_char:
  assumes "n < 16"
  shows "hex_value (hex_char n) = n"
proof -
  have "\<forall>n \<in> set [0..<16]. hex_value (hex_char n) = n" by (simp add: hex_char_def hex_value_def upt_rec)
  with assms show ?thesis by simp
qed

lemma read_escaped_escape: "read_escaped (json_escape c @ x) = Some (c, x)"
proof -
  have "16 * (code c div 16) + code c mod 16 = code c" by simp
  then have hex: "char_of (16 * hex_value (hex_char (code c div 16)) + hex_value (hex_char (code c mod 16))) = c"
    by (simp add: hex_value_char less_mult_imp_div_less)
  show ?thesis using hex by (simp add: json_escape_def)
qed

lemma json_escape_append: "json_escape a @ x = json_escape b @ y \<longleftrightarrow> a = b \<and> x = y"
  by (metis read_escaped_escape option.inject prod.inject)

lemma json_escape_quote: "json_escape a @ x \<noteq> CHR 0x22 # y"
  by (auto simp: json_escape_def)

lemma json_escapes_append:
  "concat (map json_escape s) @ CHR 0x22 # x = concat (map json_escape t) @ CHR 0x22 # y \<longleftrightarrow> s = t \<and> x = y"
proof (induction s arbitrary: t)
  case Nil
  then show ?case using json_escape_quote [symmetric] by (cases t) auto
next
  case (Cons c cs)
  then show ?case using json_escape_quote by (cases t) (auto simp: json_escape_append)
qed

lemma json_quote_append: "json_quote s @ x = json_quote t @ y \<longleftrightarrow> s = t \<and> x = y"
  by (simp add: json_quote_def json_escapes_append)

lemma json_quote_eq [simp]: "json_quote s = json_quote t \<longleftrightarrow> s = t"
  using json_quote_append [of s "[]" t "[]"] by simp

text \<open>Objects over the same keys are equal only if the values are.\<close>

lemma json_members_eq:
  "map fst kvs = map fst kvs' \<Longrightarrow> json_members kvs @ x = json_members kvs' @ x' \<Longrightarrow> kvs = kvs'"
proof (induction kvs arbitrary: kvs' rule: json_members.induct)
  case 1
  then show ?case by simp
next
  case (2 k v)
  then show ?case by (auto simp: json_quote_append)
next
  case (3 k v kv kvs)
  then obtain v' kv' kvs'' where kvs': "kvs' = (k, v') # kv' # kvs''" by (auto simp: Cons_eq_map_conv)
  have "v = v' \<and> json_members (kv # kvs) @ x = json_members (kv' # kvs'') @ x'"
    using 3(3) by (simp add: kvs' json_quote_append)
  with 3(1) [of "kv' # kvs''"] 3(2) show ?case by (simp add: kvs')
qed

end
