(* ===== verification/Ledger_World.thy ===== *)
theory Ledger_World
  imports Ledger_Runs
begin

text \<open>
  Programs of the executor that use the ledger, the clock, the identifier source and the page: a
  state (what is outside the executor, and the ledger) is passed through them, and they return a
  value or raise (\<open>None\<close>); what happened before a raise stays. Between two calls other threads of the
  executor may change the ledger, which is why the clock, the identifier source and the page have
  the ledger among what they may change. One call of the ledger is one transaction.
\<close>

type_synonym ('p, 'a) act = "'p \<times> ledger \<Rightarrow> 'a option \<times> ('p \<times> ledger)"

subsection \<open>Combinators\<close>

definition result_of :: "'a option \<Rightarrow> ('p, 'a) act" where
  "result_of r s = (r, s)"

definition and_then :: "('p, 'a) act \<Rightarrow> ('a \<Rightarrow> ('p, 'b) act) \<Rightarrow> ('p, 'b) act" where
  "and_then m f s = (case m s of (None, s1) \<Rightarrow> (None, s1) | (Some a, s1) \<Rightarrow> f a s1)"

text \<open>\<open>try: m except Exception: ...\<close>: the outcome of \<open>m\<close>, raised or not, is the value.\<close>

definition attempt :: "('p, 'a) act \<Rightarrow> ('p, 'a option) act" where
  "attempt m s = (case m s of (r, s1) \<Rightarrow> (Some r, s1))"

text \<open>A read of the ledger, and a transaction, which is rolled back when it raises.\<close>

definition query :: "(ledger \<Rightarrow> 'a option) \<Rightarrow> ('p, 'a) act" where
  "query f s = (f (snd s), s)"

definition transact :: "(ledger \<Rightarrow> ('a \<times> ledger) option) \<Rightarrow> ('p, 'a) act" where
  "transact f s = (case f (snd s) of None \<Rightarrow> (None, s) | Some (a, L) \<Rightarrow> (Some a, (fst s, L)))"

fun collect :: "('b \<Rightarrow> ('p, 'a) act) \<Rightarrow> 'b list \<Rightarrow> ('p, 'a list) act" where
  "collect f [] = result_of (Some [])"
| "collect f (x # xs) = and_then (f x) (\<lambda>a. and_then (collect f xs) (\<lambda>as. result_of (Some (a # as))))"

text \<open>\<open>_now\<close>: a reading of a clock that has to be an aware UTC datetime.\<close>

definition utc_reading :: "('w \<Rightarrow> py_datetime option \<times> 'w) \<Rightarrow> 'w \<Rightarrow> py_datetime option \<times> 'w" where
  "utc_reading clock s = (case clock s of (v, s1) \<Rightarrow>
     (Option.bind v (\<lambda>d. map_option (Aware 0) (canonical_utc d)), s1))"

subsection \<open>What a program does to the ledger\<close>

definition keeps :: "(ledger \<Rightarrow> ledger \<Rightarrow> bool) \<Rightarrow> ('p \<times> ledger \<Rightarrow> 'a \<times> ('p \<times> ledger)) \<Rightarrow> bool" where
  "keeps R f \<longleftrightarrow> (\<forall>s. R (snd s) (snd (snd (f s))))"

text \<open>The rely condition of the executor's programs: whatever else happens are sound operations.\<close>

abbreviation keeps_ledger :: "('p \<times> ledger \<Rightarrow> 'a \<times> ('p \<times> ledger)) \<Rightarrow> bool" where
  "keeps_ledger \<equiv> keeps sound"

lemma keepsI: "(\<And>s a s'. f s = (a, s') \<Longrightarrow> R (snd s) (snd s')) \<Longrightarrow> keeps R f"
  unfolding keeps_def by (metis prod.collapse)

lemma keepsD: "keeps R f \<Longrightarrow> f s = (a, s') \<Longrightarrow> R (snd s) (snd s')"
  by (metis keeps_def snd_conv)

lemma keeps_attempt [intro]: "keeps R m \<Longrightarrow> keeps R (attempt m)"
  by (auto simp: keeps_def attempt_def split: prod.split) (metis snd_conv)

lemma keeps_utc_reading [intro]: "keeps R clock \<Longrightarrow> keeps R (utc_reading clock)"
  by (rule keepsI) (auto simp: utc_reading_def split: prod.splits intro: keepsD)

text \<open>A relation between ledgers that single calls keep, programs keep.\<close>

locale ledger_relation =
  fixes R :: "ledger \<Rightarrow> ledger \<Rightarrow> bool"
  assumes refl: "R L L" and trans: "R A B \<Longrightarrow> R B C \<Longrightarrow> R A C"
begin

lemma keeps_result [simp, intro]: "keeps R (result_of r)"
  by (simp add: keeps_def result_of_def refl)

lemma keeps_query [simp, intro]: "keeps R (query f)"
  by (simp add: keeps_def query_def refl)

lemma keeps_transact: "(\<And>L a L'. f L = Some (a, L') \<Longrightarrow> R L L') \<Longrightarrow> keeps R (transact f)"
  by (auto simp: keeps_def transact_def refl split: option.split)

lemma keeps_and_then [intro]:
  assumes "keeps R m" and "\<And>a. keeps R (f a)"
  shows "keeps R (and_then m f)"
proof (rule keepsI)
  fix s r s' assume run: "and_then m f s = (r, s')"
  obtain v s1 where m: "m s = (v, s1)" by (cases "m s")
  note step = keepsD [OF assms(1) m]
  show "R (snd s) (snd s')"
  proof (cases v)
    case (Some a)
    then have "f a s1 = (r, s')" using run m by (simp add: and_then_def)
    from trans [OF step keepsD [OF assms(2) this]] show ?thesis .
  qed (use run m step in \<open>simp add: and_then_def\<close>)
qed

lemma keeps_collect: "(\<And>x. x \<in> set xs \<Longrightarrow> keeps R (f x)) \<Longrightarrow> keeps R (collect f xs)"
  by (induction xs) auto

end

interpretation sound_world: ledger_relation sound
  by unfold_locales (auto intro: sound_trans)

subsection \<open>Running the combinators\<close>

lemma and_then_Some:
  "and_then m f s = (Some b, s') \<longleftrightarrow> (\<exists>a s1. m s = (Some a, s1) \<and> f a s1 = (Some b, s'))"
  by (auto simp: and_then_def split: prod.splits option.splits)

lemma result_of_Some [simp]: "result_of r s = (Some a, s') \<longleftrightarrow> r = Some a \<and> s' = s"
  by (auto simp: result_of_def)

lemma attempt_Some: "attempt m s = (Some r, s') \<longleftrightarrow> m s = (r, s')"
  by (auto simp: attempt_def split: prod.splits)

lemma query_Some [simp]: "query f s = (Some a, s') \<longleftrightarrow> f (snd s) = Some a \<and> s' = s"
  by (auto simp: query_def)

lemma transact_Some:
  "transact f s = (Some a, s') \<longleftrightarrow> (\<exists>L. f (snd s) = Some (a, L) \<and> s' = (fst s, L))"
  by (auto simp: transact_def split: option.splits)

lemma transact_None: "transact f s = (None, s') \<longleftrightarrow> f (snd s) = None \<and> s' = s"
  by (auto simp: transact_def split: option.splits)

lemmas act_cases = and_then_Some attempt_Some transact_Some

end
