(* ===== verification/Action_Execution.thy ===== *)
theory Action_Execution
  imports Action_Gate Skill_Orchestrator Json_Text Ledger_World
begin

text \<open>
  Executing one admitted comment or direct message (\<open>executor/rpa/douyin/comment_action.py\<close> and
  \<open>direct_message_action.py\<close>): admission, write-ahead preparation, a replay of the routed skill whose
  dispatch hook is the ledger, and settlement. The two files are the same program over different
  constants, so the operations take a \<open>profile\<close> and the two executions are its instances.

  The world of a run is what is outside the executor (the page, the clock) together with the
  ledger. Every call of the page and every reading of the clock may change both, which is how other
  threads of the executor interleave with a run; \<open>None\<close> from the clock is an exception.
\<close>

subsection \<open>Fingerprints\<close>

record profile =
  pf_action :: exposure_action
  pf_skill :: str
  pf_parameter :: str
  pf_effect_domain :: str
  pf_verification_domain :: str
  pf_verification_version :: str

definition comment_profile :: profile where
  "comment_profile = \<lparr>pf_action = Comment, pf_skill = ''89628f94-6c21-4585-8739-75a4b0ca923d'',
     pf_parameter = ''comment_message'',
     pf_effect_domain = ''automation-tool.douyin.comment-effect.v1'',
     pf_verification_domain = ''automation-tool.douyin.comment-verification.v1'',
     pf_verification_version = ''douyin.comment-skill.v1''\<rparr>"

definition direct_message_profile :: profile where
  "direct_message_profile = \<lparr>pf_action = Direct_message,
     pf_skill = ''761d13fa-26c4-4413-a0a0-6f55dbf92a0d'', pf_parameter = ''direct_message'',
     pf_effect_domain = ''automation-tool.douyin.direct-message-effect.v1'',
     pf_verification_domain = ''automation-tool.douyin.direct-message-verification.v1'',
     pf_verification_version = ''douyin.direct-message-skill.v1''\<rparr>"

record intent =
  it_expectation :: expectation
  it_message :: str

text \<open>\<open>source.replace("{{target_display_name}}", display_name)\<close>.\<close>

fun replace_all :: "str \<Rightarrow> str \<Rightarrow> str \<Rightarrow> str" where
  "replace_all old new [] = []"
| "replace_all old new (c # cs) =
     (if old \<noteq> [] \<and> take (length old) (c # cs) = old
      then new @ replace_all old new (drop (length old - 1) cs)
      else c # replace_all old new cs)"

text \<open>The constructor of an intent: both the template and the rendered text are templates.\<close>

definition make_intent :: "profile \<Rightarrow> expectation \<Rightarrow> str \<Rightarrow> str \<Rightarrow> intent option" where
  "make_intent pf x source display_name = do {
     require (xp_action x = pf_action pf);
     _ \<leftarrow> message_template source;
     let rendered = replace_all ''{{target_display_name}}'' display_name source;
     variables \<leftarrow> message_template rendered;
     require (variables = []);
     Some \<lparr>it_expectation = x, it_message = rendered\<rparr>
   }"

definition exposure_value :: "exposure_action \<Rightarrow> str" where
  "exposure_value a = (case a of Browse \<Rightarrow> ''browse'' | Comment \<Rightarrow> ''comment''
     | Direct_message \<Rightarrow> ''direct_message'')"

definition effect_fields :: "profile \<Rightarrow> intent \<Rightarrow> (str \<times> str) list" where
  "effect_fields pf it = (let x = it_expectation it in [
     (''action'', exposure_value (xp_action x)), (''actionId'', xp_action_id x),
     (''domain'', pf_effect_domain pf), (''executionAttemptId'', xp_attempt_id x),
     (''executorId'', xp_executor_id x), (''idempotencyKey'', xp_idempotency_key x),
     (''installationId'', xp_installation_id x), (''message'', it_message it),
     (''messageTemplateVersion'', ''action-message-template.v1''), (''platform'', xp_platform x),
     (''targetId'', xp_target_id x), (''taskId'', xp_task_id x)])"

definition effect_text :: "profile \<Rightarrow> intent \<Rightarrow> str" where
  "effect_text pf it = ''{'' @ json_members (effect_fields pf it) @ ''}''"

definition effect_fingerprint :: "(bytes \<Rightarrow> bytes) \<Rightarrow> profile \<Rightarrow> intent \<Rightarrow> bytes" where
  "effect_fingerprint sha pf it = sha (encode_ascii (effect_text pf it))"

definition verification_fingerprint :: "(bytes \<Rightarrow> bytes) \<Rightarrow> profile \<Rightarrow> bytes \<Rightarrow> bytes" where
  "verification_fingerprint sha pf effect =
     sha (encode_ascii (pf_verification_domain pf) @ [0] @ effect @ [0]
       @ encode_ascii (pf_verification_version pf) @ [0] @ encode_ascii ''success_evidence_visible'')"

subsection \<open>Receipts\<close>

datatype receipt_state = Not_dispatched | Action_verified | Outcome_uncertain

text \<open>\<open>Action_confirmed\<close> is \<open>COMMENT_CONFIRMED\<close> or \<open>MESSAGE_CONFIRMED\<close>.\<close>

datatype receipt_evidence =
    Admission_rejected | Local_emergency_stop | Local_minimum_interval | Local_task_action_limit
  | Ledger_unavailable | Skill_awaiting_recording | Skill_recovery_pending | Prepare_unavailable
  | Dispatch_permission_rejected | Skill_reconcile_required | Verification_unavailable
  | Action_confirmed | Replay_verified | Replay_uncertain

definition no_effect_evidence :: "receipt_evidence set" where
  "no_effect_evidence = {Admission_rejected, Local_emergency_stop, Local_minimum_interval,
     Local_task_action_limit, Ledger_unavailable}"

definition prepared_evidence :: "receipt_evidence set" where
  "prepared_evidence = {Skill_awaiting_recording, Skill_recovery_pending, Prepare_unavailable,
     Dispatch_permission_rejected}"

definition post_dispatch_evidence :: "receipt_evidence set" where
  "post_dispatch_evidence = {Skill_reconcile_required, Verification_unavailable, Replay_uncertain}"

record receipt =
  rp_action_id :: str
  rp_target_id :: str
  rp_state :: receipt_state
  rp_evidence :: receipt_evidence
  rp_effect_state :: "effect_state option"
  rp_effect_revision :: "int option"
  rp_replayed :: bool

definition receipt_ok :: "receipt \<Rightarrow> bool" where
  "receipt_ok r \<longleftrightarrow> (case rp_state r of
     Not_dispatched \<Rightarrow> \<not> rp_replayed r \<and>
       (rp_evidence r \<in> no_effect_evidence \<and> rp_effect_state r = None \<and> rp_effect_revision r = None
        \<or> rp_evidence r \<in> prepared_evidence \<and> rp_effect_state r = Some Prepared
          \<and> rp_effect_revision r = Some 1)
   | Action_verified \<Rightarrow> rp_evidence r \<in> {Action_confirmed, Replay_verified}
       \<and> rp_effect_state r = Some Verified \<and> rp_effect_revision r = Some 3
       \<and> rp_replayed r = (rp_evidence r = Replay_verified)
   | Outcome_uncertain \<Rightarrow> rp_evidence r \<in> post_dispatch_evidence
       \<and> (rp_effect_state r = Some Dispatched \<and> rp_effect_revision r = Some 2
          \<or> rp_effect_state r = Some Uncertain \<and> rp_effect_revision r = Some 3)
       \<and> rp_replayed r = (rp_evidence r = Replay_uncertain))"

definition make_receipt :: "receipt \<Rightarrow> receipt option" where
  "make_receipt r = (if receipt_ok r then Some r else None)"

definition empty_receipt :: "expectation \<Rightarrow> receipt_evidence \<Rightarrow> receipt option" where
  "empty_receipt x evidence = make_receipt \<lparr>rp_action_id = xp_action_id x,
     rp_target_id = xp_target_id x, rp_state = Not_dispatched, rp_evidence = evidence,
     rp_effect_state = None, rp_effect_revision = None, rp_replayed = False\<rparr>"

definition prepared_receipt :: "expectation \<Rightarrow> receipt_evidence \<Rightarrow> receipt option" where
  "prepared_receipt x evidence = make_receipt \<lparr>rp_action_id = xp_action_id x,
     rp_target_id = xp_target_id x, rp_state = Not_dispatched, rp_evidence = evidence,
     rp_effect_state = Some Prepared, rp_effect_revision = Some 1, rp_replayed = False\<rparr>"

definition effect_receipt ::
  "expectation \<Rightarrow> receipt_state \<Rightarrow> receipt_evidence \<Rightarrow> side_effect \<Rightarrow> bool \<Rightarrow> receipt option" where
  "effect_receipt x state evidence e replayed = make_receipt \<lparr>rp_action_id = xp_action_id x,
     rp_target_id = xp_target_id x, rp_state = state, rp_evidence = evidence,
     rp_effect_state = Some (se_state e), rp_effect_revision = Some (pg_revision (se_progress e)),
     rp_replayed = replayed\<rparr>"

definition limit_evidence :: "limit_reason \<Rightarrow> receipt_evidence" where
  "limit_evidence reason = (case reason of Limit_emergency_stop \<Rightarrow> Local_emergency_stop
     | Limit_minimum_interval \<Rightarrow> Local_minimum_interval | Limit_task_actions \<Rightarrow> Local_task_action_limit)"

text \<open>No receipt (\<open>None\<close>), or one, which its constructor may refuse.\<close>

definition receipt_for_existing :: "expectation \<Rightarrow> side_effect \<Rightarrow> receipt option option" where
  "receipt_for_existing x e =
     (if \<not> se_replayed e \<or> se_state e = Prepared then None
      else if se_state e = Verified then Some (effect_receipt x Action_verified Replay_verified e True)
      else Some (effect_receipt x Outcome_uncertain Replay_uncertain e True))"

subsection \<open>Runs\<close>

text \<open>The environment of a run; \<open>en_ready\<close> says whether the orchestrator and the page could be built.\<close>

record 'p env =
  en_page :: "('p \<times> ledger) page"
  en_now :: "'p \<times> ledger \<Rightarrow> py_datetime option \<times> ('p \<times> ledger)"
  en_ready :: bool

text \<open>\<open>_now\<close>.\<close>

definition read_now :: "'p env \<Rightarrow> 'p \<times> ledger \<Rightarrow> py_datetime option \<times> ('p \<times> ledger)" where
  "read_now env = utc_reading (en_now env)"

text \<open>\<open>ExecutorActionGate.admit\<close>, with its two clock readings.\<close>

definition admit_now ::
  "(bytes \<Rightarrow> bytes) \<Rightarrow> gate \<Rightarrow> 'p env \<Rightarrow> expectation \<Rightarrow> 'p \<times> ledger \<Rightarrow> (admit_error + admission) \<times> ('p \<times> ledger)"
where
  "admit_now sha g env x s =
     (case read_now env s of
        (None, s1) \<Rightarrow> (Inl Admit_rejected, s1)
      | (Some first, s1) \<Rightarrow>
          (if gate_request x first = None then (Inl Admit_rejected, s1)
           else (case read_now env s1 of
               (None, s2) \<Rightarrow> (Inl Admit_rejected, s2)
             | (Some second, s2) \<Rightarrow>
                 (case gate_admit sha g (snd s2) x first second of (r, L) \<Rightarrow> (r, (fst s2, L))))))"

text \<open>The world of the replay: also the effects this run dispatched.\<close>

definition lift :: "('s \<Rightarrow> 'a \<times> 's) \<Rightarrow> 's \<times> 'e \<Rightarrow> 'a \<times> ('s \<times> 'e)" where
  "lift f w = (case f (fst w) of (a, s) \<Rightarrow> (a, (s, snd w)))"

definition lift_page :: "'s page \<Rightarrow> ('s \<times> side_effect list) page" where
  "lift_page pg = \<lparr>page_find = (\<lambda>g. lift (page_find pg g)), page_holds = (\<lambda>c. lift (page_holds pg c)),
     page_act = (\<lambda>k i v. lift (page_act pg k i v)), page_path = lift (page_path pg)\<rparr>"

datatype hook_error = Dispatch_refused | Effect_settled receipt | Receipt_refused

definition begin_dispatch ::
  "(bytes \<Rightarrow> bytes) \<Rightarrow> profile \<Rightarrow> 'p env \<Rightarrow> intent \<Rightarrow> (('p \<times> ledger) \<times> side_effect list, hook_error) hook" where
  "begin_dispatch sha pf env it w =
     (let x = it_expectation it; effects = snd w in
      case read_now env (fst w) of
        (None, s) \<Rightarrow> (Some Dispatch_refused, (s, effects))
      | (Some t, s) \<Rightarrow>
          (case begin_side_effect_dispatch (snd s) (xp_action_id x) (effect_fingerprint sha pf it) t of
             None \<Rightarrow> (Some Dispatch_refused, (s, effects))
           | Some (e, L) \<Rightarrow>
               (case receipt_for_existing x e of
                  Some (Some r) \<Rightarrow> (Some (Effect_settled r), ((fst s, L), effects))
                | Some None \<Rightarrow> (Some Receipt_refused, ((fst s, L), effects))
                | None \<Rightarrow> (None, ((fst s, L), effects @ [e])))))"

text \<open>\<open>_uncertain\<close>: settle as uncertain if the ledger lets us, and report what is known.\<close>

definition report_uncertain ::
  "(bytes \<Rightarrow> bytes) \<Rightarrow> profile \<Rightarrow> 'p env \<Rightarrow> intent \<Rightarrow> receipt_evidence \<Rightarrow> side_effect \<Rightarrow> 'p \<times> ledger \<Rightarrow>
   receipt option \<times> ('p \<times> ledger)" where
  "report_uncertain sha pf env it evidence dispatched s =
     (let x = it_expectation it;
          receipt_of = (\<lambda>e. effect_receipt x Outcome_uncertain evidence e False) in
      case read_now env s of
        (None, s1) \<Rightarrow> (receipt_of dispatched, s1)
      | (Some t, s1) \<Rightarrow>
          (case mark_side_effect_uncertain (snd s1) (xp_action_id x) (effect_fingerprint sha pf it) t of
             None \<Rightarrow> (receipt_of dispatched, s1)
           | Some (e, L) \<Rightarrow> (receipt_of e, (fst s1, L))))"

text \<open>The outcome of a replay that passed.\<close>

definition report_verified ::
  "(bytes \<Rightarrow> bytes) \<Rightarrow> profile \<Rightarrow> 'p env \<Rightarrow> intent \<Rightarrow> side_effect \<Rightarrow> 'p \<times> ledger \<Rightarrow>
   receipt option \<times> ('p \<times> ledger)" where
  "report_verified sha pf env it dispatched s =
     (let x = it_expectation it; f = effect_fingerprint sha pf it in
      case read_now env s of
        (None, s1) \<Rightarrow> report_uncertain sha pf env it Verification_unavailable dispatched s1
      | (Some t, s1) \<Rightarrow>
          (case verify_side_effect (snd s1) (xp_action_id x) f (verification_fingerprint sha pf f) t of
             None \<Rightarrow> report_uncertain sha pf env it Verification_unavailable dispatched s1
           | Some (e, L) \<Rightarrow>
               (effect_receipt x Action_verified Action_confirmed e False, (fst s1, L))))"

text \<open>What follows \<open>orchestrator.execute\<close>, for each way it can end.\<close>

definition conclude ::
  "(bytes \<Rightarrow> bytes) \<Rightarrow> profile \<Rightarrow> 'p env \<Rightarrow> intent \<Rightarrow> hook_error execute_end \<Rightarrow> side_effect list \<Rightarrow> 'p \<times> ledger \<Rightarrow>
   receipt option \<times> ('p \<times> ledger)" where
  "conclude sha pf env it ended effects s =
     (let x = it_expectation it;
          reconcile = (case effects of
             [] \<Rightarrow> (prepared_receipt x Prepare_unavailable, s)
           | e # _ \<Rightarrow> report_uncertain sha pf env it Skill_reconcile_required e s) in
      case ended of
        Execute_hook Dispatch_refused \<Rightarrow> (prepared_receipt x Dispatch_permission_rejected, s)
      | Execute_hook (Effect_settled r) \<Rightarrow> (Some r, s)
      | Execute_hook Receipt_refused \<Rightarrow> reconcile
      | Execute_raised \<Rightarrow> reconcile
      | Report r \<Rightarrow>
          (case ep_kind r of
             No_route \<Rightarrow> (prepared_receipt x Skill_awaiting_recording, s)
           | Recovery_pending \<Rightarrow> (prepared_receipt x Skill_recovery_pending, s)
           | Reconcile_required \<Rightarrow> reconcile
           | Replayed \<Rightarrow>
               (case effects of
                  [] \<Rightarrow> (prepared_receipt x Prepare_unavailable, s)
                | e # _ \<Rightarrow> report_verified sha pf env it e s)))"

record 'p action_run =
  ar_receipt :: "receipt option"
  ar_calls :: "call list"
  ar_orchestrator :: orchestrator
  ar_state :: "'p \<times> ledger"

text \<open>\<open>run\<close>; \<open>None\<close> as its receipt is an exception.\<close>

definition run_action ::
  "(bytes \<Rightarrow> bytes) \<Rightarrow> profile \<Rightarrow> gate \<Rightarrow> 'p env \<Rightarrow> orchestrator \<Rightarrow> intent \<Rightarrow> 'p \<times> ledger \<Rightarrow> 'p action_run" where
  "run_action sha pf g env orc it s =
     (let x = it_expectation it;
          ended = (\<lambda>r s1. \<lparr>ar_receipt = r, ar_calls = [], ar_orchestrator = orc, ar_state = s1\<rparr>) in
      case admit_now sha g env x s of
        (Inl (Admit_limited reason), s1) \<Rightarrow> ended (empty_receipt x (limit_evidence reason)) s1
      | (Inl Admit_rejected, s1) \<Rightarrow> ended (empty_receipt x Admission_rejected) s1
      | (Inr _, s1) \<Rightarrow>
          (case read_now env s1 of
             (None, s2) \<Rightarrow> ended (empty_receipt x Ledger_unavailable) s2
           | (Some t, s2) \<Rightarrow>
               (case prepare_side_effect (snd s2) (xp_action_id x) (effect_fingerprint sha pf it) t of
                  None \<Rightarrow> ended (empty_receipt x Ledger_unavailable) s2
                | Some (prepared, L) \<Rightarrow>
                    (case receipt_for_existing x prepared of
                       Some r \<Rightarrow> ended r (fst s2, L)
                     | None \<Rightarrow>
                         (if \<not> en_ready env
                          then ended (prepared_receipt x Prepare_unavailable) (fst s2, L)
                          else
                            (case execute orc (pf_skill pf) (lift_page (en_page env))
                                [pf_parameter pf \<mapsto> it_message it] None
                                (Some (begin_dispatch sha pf env it)) ((fst s2, L), []) of
                               (e, cs, orc1, (s3, effects)) \<Rightarrow>
                                 (case conclude sha pf env it e effects s3 of
                                    (r, s4) \<Rightarrow> \<lparr>ar_receipt = r, ar_calls = cs,
                                      ar_orchestrator = orc1, ar_state = s4\<rparr>)))))))"

definition run_comment_action where
  "run_comment_action sha = run_action sha comment_profile"

definition run_direct_message_action where
  "run_direct_message_action sha = run_action sha direct_message_profile"

end
