(* ===== verification/Replay_Invariant.thy ===== *)
theory Replay_Invariant
  imports Replay_Facts
begin

text \<open>
  A property of the calls so far and the world that every answer of the page and of the hook keeps
  holds when the replay ends, however it ends, with a dispatch hook or without one.
\<close>

locale replay_invariant =
  fixes pg :: "'w page" and hook :: "('w, 'e) hook option" and Q :: "call list \<Rightarrow> 'w \<Rightarrow> bool"
  assumes find_keeps: "Q cs w \<Longrightarrow> Q cs (snd (page_find pg g w))"
    and holds_keeps: "Q cs w \<Longrightarrow> Q cs (snd (page_holds pg c w))"
    and path_keeps: "Q cs w \<Longrightarrow> Q cs (snd (page_path pg w))"
    and hook_refused: "Q cs w \<Longrightarrow> hook = Some h \<Longrightarrow> h w = (Some e, w1) \<Longrightarrow> Q (cs @ [Hook False]) w1"
    and external_acts: "Q cs w \<Longrightarrow> hook = Some h \<Longrightarrow> h w = (None, w1) \<Longrightarrow> sp_external st
      \<Longrightarrow> page_act pg k i p w1 = (b, w2) \<Longrightarrow> Q (cs @ [Hook True, Act st b]) w2"
    and unguarded_acts: "Q cs w \<Longrightarrow> hook = None \<Longrightarrow> sp_external st
      \<Longrightarrow> page_act pg k i p w = (b, w1) \<Longrightarrow> Q (cs @ [Act st b]) w1"
    and internal_acts: "Q cs w \<Longrightarrow> \<not> sp_external st
      \<Longrightarrow> page_act pg k i p w = (b, w1) \<Longrightarrow> Q (cs @ [Act st b]) w1"
begin

lemma conditions_keep: "check_conditions pg conds w = (r, w1) \<Longrightarrow> Q cs w \<Longrightarrow> Q cs w1"
proof (induction conds arbitrary: w)
  case (Cons c conds)
  then show ?case using holds_keeps [of cs w c]
    by (auto split: prod.splits option.splits bool.splits)
qed simp

lemma elements_keep: "element_evidence pg es w = (r, w1) \<Longrightarrow> Q cs w \<Longrightarrow> Q cs w1"
proof (induction es arbitrary: w)
  case (Cons e es)
  then show ?case
    using holds_keeps [of cs w "\<lparr>cn_kind = ''element_visible'', cn_role = sv_role e,
      cn_name = sv_name e, cn_pattern = None\<rparr>"]
    by (auto split: prod.splits option.splits bool.splits if_splits)
qed simp

lemma evidence_keeps: "success_evidence_holds pg s w = (r, w1) \<Longrightarrow> Q cs w \<Longrightarrow> Q cs w1"
  using path_keeps [of cs w]
  by (auto simp: success_evidence_holds_def elim!: elements_keep split: if_splits prod.splits option.splits)

lemma perform_keeps:
  assumes "perform pg hook s params st handle v w = (r, v1, w1)" and "Q (rv_calls v) w"
  shows "Q (rv_calls v1) w1 \<and> (\<forall>u. r = Inr u \<longrightarrow> u = v1)"
  using assms hook_refused external_acts unguarded_acts internal_acts
  by (fastforce simp: perform_def Let_def split: prod.splits if_splits option.splits)

lemma step_keeps:
  assumes step: "replay_step pg hook s params st v w = (r, v1, w1)" and "Q (rv_calls v) w"
  shows "Q (rv_calls v1) w1"
proof -
  have start: "Q (rv_calls (at_step st v)) w" using assms(2) by (simp add: at_step_def)
  note found = find_keeps [of "rv_calls (at_step st v)" _ "sp_goal st"]
  show ?thesis
    using step start unfolding replay_step_def Let_def at_step_def [symmetric]
    by (auto split: if_splits prod.splits option.splits bool.splits sum.splits
        dest!: perform_keeps conditions_keep dest: found)
qed

lemma steps_keep:
  "replay_steps pg hook s params sts v w = (r, v1, w1) \<Longrightarrow> Q (rv_calls v) w \<Longrightarrow>
     Q (rv_calls v1) w1 \<and> (\<forall>u. r = Inr u \<longrightarrow> u = v1)"
proof (induction sts arbitrary: v w)
  case (Cons st sts)
  obtain r2 v2 w2 where step: "replay_step pg hook s params st v w = (r2, v2, w2)"
    using prod_cases3 by blast
  then have "Q (rv_calls v2) w2" using step_keeps Cons.prems(2) by blast
  moreover have "\<forall>u. r2 = Inr u \<longrightarrow> u = v2" using replay_step_position [OF step] by simp
  ultimately show ?case using Cons.IH [of v2 w2] Cons.prems(1) step by (cases r2) auto
qed auto

lemma replay_keeps:
  assumes "replay_skill pg hook s params w = (e, cs, w1)" and "Q [] w"
  shows "Q cs w1"
  using assms(1)
proof (cases rule: replay_skill_cases)
  case (refused f)
  then show ?thesis using assms(2) by simp
next
  case (halted v)
  then show ?thesis using steps_keep [OF halted(2)] assms(2) by (simp add: start_vars_def)
next
  case (walked v u w2 r)
  have "Q (rv_calls v) w2" using steps_keep [OF walked(2)] assms(2) by (simp add: start_vars_def)
  then show ?thesis using walked(3) evidence_keeps [OF walked(4)] by simp
qed

text \<open>An exception of the hook ends the replay at once, in the world the hook left.\<close>

definition raised_by_hook :: "'e \<Rightarrow> call list \<Rightarrow> 'w \<Rightarrow> bool" where
  "raised_by_hook y cs w1 \<longleftrightarrow> (\<exists>h cs0 w0. hook = Some h \<and> Q cs0 w0 \<and> h w0 = (Some y, w1)
     \<and> cs = cs0 @ [Hook False])"

lemma perform_raised:
  assumes "perform pg hook s params st handle v w = (Inl (Hook_raised y), v1, w1)"
    and "Q (rv_calls v) w"
  shows "raised_by_hook y (rv_calls v1) w1"
  using assms by (auto simp: perform_def Let_def raised_by_hook_def
      split: prod.splits if_splits option.splits)

lemma step_raised:
  assumes step: "replay_step pg hook s params st v w = (Inl (Hook_raised y), v1, w1)"
    and "Q (rv_calls v) w"
  shows "raised_by_hook y (rv_calls v1) w1"
proof -
  have start: "Q (rv_calls (at_step st v)) w" using assms(2) by (simp add: at_step_def)
  have found: "Q cs w2" if "page_find pg g w1 = (a, w2)" "Q cs w1" for cs g w1 a w2
    using find_keeps [OF that(2), of g] that(1) by simp
  show ?thesis
    using step start unfolding replay_step_def Let_def at_step_def [symmetric]
    by (auto split: if_splits prod.splits option.splits bool.splits sum.splits
        dest!: conditions_keep intro: perform_raised found)
qed

lemma steps_raised:
  "replay_steps pg hook s params sts v w = (Inl (Hook_raised y), v1, w1) \<Longrightarrow> Q (rv_calls v) w \<Longrightarrow>
     raised_by_hook y (rv_calls v1) w1"
proof (induction sts arbitrary: v w)
  case (Cons st sts)
  obtain r2 v2 w2 where step: "replay_step pg hook s params st v w = (r2, v2, w2)"
    using prod_cases3 by blast
  then have "Q (rv_calls v2) w2" using step_keeps Cons.prems(2) by blast
  moreover have "\<forall>u. r2 = Inr u \<longrightarrow> u = v2" using replay_step_position [OF step] by simp
  ultimately show ?case
    using Cons.IH [of v2 w2] Cons.prems step step_raised by (cases r2) auto
qed simp

lemma replay_raised:
  assumes "replay_skill pg hook s params w = (Hook_raised y, cs, w1)" and "Q [] w"
  shows "raised_by_hook y cs w1"
  using assms(1)
proof (cases rule: replay_skill_cases)
  case (halted v)
  then show ?thesis using steps_raised [OF halted(2)] assms(2) by (simp add: start_vars_def)
qed (auto split: option.splits bool.splits)

end

end
