(* ===== verification/Execution_Facts.thy ===== *)
theory Execution_Facts
  imports Action_Execution Replay_Invariant Skill_Properties
begin

text \<open>
  What an action execution does to the ledger and to the outside while other threads of the executor
  interleave with it: the invariant of its replay (an interpretation of \<open>replay_invariant\<close>), the
  receipts it can end with, and its effect on the rank of its own side effect.
\<close>

subsection \<open>The environment\<close>

text \<open>The page and the clock may let other threads change the ledger, by sound operations only.\<close>

definition env_ok :: "'p env \<Rightarrow> bool" where
  "env_ok env \<longleftrightarrow> keeps_ledger (en_now env)
     \<and> (\<forall>g. keeps_ledger (page_find (en_page env) g)) \<and> (\<forall>c. keeps_ledger (page_holds (en_page env) c))
     \<and> (\<forall>k i v. keeps_ledger (page_act (en_page env) k i v)) \<and> keeps_ledger (page_path (en_page env))"

lemma read_now_sound: "env_ok env \<Longrightarrow> read_now env s = (v, s') \<Longrightarrow> sound (snd s) (snd s')"
  unfolding env_ok_def read_now_def by (blast intro: keepsD [OF keeps_utc_reading])

definition later :: "ledger \<Rightarrow> ledger \<Rightarrow> bool" where
  "later L0 L \<longleftrightarrow> ledger_inv L \<and> evolves L0 L"

lemma later_sound: "later L0 L \<Longrightarrow> sound L L' \<Longrightarrow> later L0 L'"
  by (auto simp: later_def sound_def intro: evolves_trans)

lemma later_rank: "later L0 L \<Longrightarrow> effect_rank L0 k \<le> effect_rank L k"
  by (simp add: later_def effect_rank_evolves)

subsection \<open>Effects the ledger hands out\<close>

definition effect_consistent :: "side_effect \<Rightarrow> bool" where
  "effect_consistent e \<longleftrightarrow> progress_ok (se_progress e)"

lemma consistent_revision:
  assumes "effect_consistent e"
  shows "se_state e = Prepared \<Longrightarrow> pg_revision (se_progress e) = 1"
    and "se_state e = Dispatched \<Longrightarrow> pg_revision (se_progress e) = 2"
    and "se_state e = Verified \<Longrightarrow> pg_revision (se_progress e) = 3"
    and "se_state e = Uncertain \<Longrightarrow> pg_revision (se_progress e) = 3"
  using assms by (simp_all add: effect_consistent_def progress_ok_def se_state_def)

lemma read_consistent: "read_side_effect L r b = Some e \<Longrightarrow> effect_consistent e"
  using read_side_effect_progress_ok read_side_effect_Some by (fastforce simp: effect_consistent_def)

lemma advance_consistent: "advance_effect L aid s n f = Some (e, L') \<Longrightarrow> effect_consistent e"
  by (auto simp: advance_effect_def bind_eq_Some_conv split: if_splits intro: read_consistent)

lemma prepare_consistent: "prepare_side_effect L aid fp at = Some (e, L') \<Longrightarrow> effect_consistent e"
  by (auto simp: prepare_side_effect_def bind_eq_Some_conv Let_def split: if_splits option.splits
      intro: read_consistent)

lemma begin_consistent: "begin_side_effect_dispatch L aid fp at = Some (e, L') \<Longrightarrow> effect_consistent e"
  by (auto simp: begin_side_effect_dispatch_def bind_eq_Some_conv split: if_splits
      intro: read_consistent advance_consistent)

lemma settle_consistent:
  assumes "settle_side_effect L aid fp target v at = Some (e, L')"
  shows "effect_consistent e \<and> se_state e = target"
proof -
  from assms obtain r where r: "sql_lookup ef_action_id aid (side_effects L) = Some r"
    by (auto simp: settle_side_effect_def bind_eq_Some_conv canonical_uuid_v4_Some split: if_splits)
  show ?thesis
    using assms r read_side_effect_Some [of L r] advance_effect_SomeD [of L aid Dispatched 2 _ e L' r]
      progress_ok_revision(2) read_side_effect_progress_ok [of L r]
    by (fastforce simp: settle_side_effect_def bind_eq_Some_conv canonical_uuid_v4_Some se_state_def
        mark_settled_def split: if_splits intro: read_consistent advance_consistent)
qed

lemma existing_receipt_ok:
  assumes "effect_consistent e" "receipt_for_existing x e = Some r"
  shows "\<exists>y. r = Some y \<and> receipt_ok y \<and> rp_state y \<noteq> Not_dispatched
    \<and> rp_action_id y = xp_action_id x \<and> rp_target_id y = xp_target_id x"
  using assms consistent_revision [OF assms(1)] by (cases "se_state e")
    (auto simp: receipt_for_existing_def effect_receipt_def make_receipt_def receipt_ok_def
      post_dispatch_evidence_def split: if_splits)

definition verified_in :: "ledger \<Rightarrow> str \<Rightarrow> bool" where
  "verified_in L k \<longleftrightarrow> (\<exists>r. sql_lookup ef_action_id k (side_effects L) = Some r
     \<and> pg_state (ef_progress r) = Verified)"

lemma verified_settled:
  assumes "settle_side_effect L aid fp Verified v at = Some (e, L')"
  shows "verified_in L' aid"
proof -
  from assms obtain r cur where r: "sql_lookup ef_action_id aid (side_effects L) = Some r"
      "read_side_effect L r False = Some cur"
    and cases: "se_state cur = Verified \<and> L' = L \<or> se_state cur = Dispatched \<and>
      (\<exists>t. advance_effect L aid Dispatched 2 (mark_settled Verified v t) = Some (e, L'))"
    by (auto simp: settle_side_effect_def bind_eq_Some_conv canonical_uuid_v4_Some split: if_splits)
  have state: "se_state cur = pg_state (ef_progress r)" "progress_ok (ef_progress r)"
    using read_side_effect_Some [OF r(2)] read_side_effect_progress_ok [OF r(2)] by (simp_all add: se_state_def)
  from cases show ?thesis
  proof
    assume "se_state cur = Dispatched \<and> (\<exists>t. advance_effect L aid Dispatched 2 (mark_settled Verified v t) = Some (e, L'))"
    then show ?thesis
      using advance_effect_lookup [OF _ r(1)] state progress_ok_revision(2)
      by (fastforce simp: verified_in_def mark_settled_def)
  qed (use r state in \<open>auto simp: verified_in_def\<close>)
qed

lemma verified_row:
  assumes "sql_lookup ef_action_id k (side_effects L) = Some r" "read_side_effect L r b = Some e" "se_state e = Verified"
  shows "verified_in L k"
  using assms read_side_effect_Some [OF assms(2)] by (simp add: verified_in_def se_state_def)

text \<open>A receipt for an expectation that says no more than the ledger.\<close>

definition honest_receipt :: "expectation \<Rightarrow> ledger \<Rightarrow> receipt \<Rightarrow> bool" where
  "honest_receipt x L y \<longleftrightarrow> receipt_ok y \<and> rp_action_id y = xp_action_id x \<and> rp_target_id y = xp_target_id x
     \<and> (rp_state y = Action_verified \<longrightarrow> verified_in L (xp_action_id x))"

lemma existing_receipt_honest:
  assumes "receipt_for_existing x e = Some r" "effect_consistent e"
    and "se_state e = Verified \<Longrightarrow> verified_in L (xp_action_id x)"
  shows "\<exists>y. r = Some y \<and> honest_receipt x L y \<and> rp_state y \<noteq> Not_dispatched"
  using existing_receipt_ok [OF assms(2,1)] assms(1,3)
  by (auto simp: honest_receipt_def receipt_for_existing_def effect_receipt_def make_receipt_def split: if_splits)

subsection \<open>The dispatch hook\<close>

lemma begin_dispatch_cases:
  assumes "begin_dispatch sha pf env it (s, effects) = (r, w)" and "env_ok env"
  obtains (refused) y s1 where "r = Some y" "w = (s1, effects)" "sound (snd s) (snd s1)"
      "\<And>p. y = Effect_settled p \<Longrightarrow> honest_receipt (it_expectation it) (snd s1) p
         \<and> rp_state p \<noteq> Not_dispatched"
      "y \<noteq> Receipt_refused"
  | (granted) e s1 L where "r = None" "w = ((fst s1, L), effects @ [e])" "sound (snd s) (snd s1)" "sound (snd s1) L"
      "effect_rank (snd s1) (xp_action_id (it_expectation it)) = 1"
      "effect_rank L (xp_action_id (it_expectation it)) = 2"
      "se_state e = Dispatched" "pg_revision (se_progress e) = 2"
proof -
  let ?aid = "xp_action_id (it_expectation it)"
  obtain v s1 where now: "read_now env s = (v, s1)" by (cases "read_now env s")
  have s1: "sound (snd s) (snd s1)" by (rule read_now_sound [OF assms(2) now])
  show ?thesis
  proof (cases v)
    case None
    then show ?thesis using assms(1) now refused [OF _ _ s1] by (auto simp: begin_dispatch_def)
  next
    case (Some t)
    show ?thesis
    proof (cases "begin_side_effect_dispatch (snd s1) ?aid (effect_fingerprint sha pf it) t")
      case None
      then show ?thesis using assms(1) now Some refused [OF _ _ s1] by (auto simp: begin_dispatch_def)
    next
      case begun: (Some p)
      then obtain e L where begun: "begin_side_effect_dispatch (snd s1) ?aid (effect_fingerprint sha pf it) t = Some (e, L)"
        by (cases p) auto
      have L: "sound (snd s1) L" by (rule sound_begin_effect [OF begun])
      from begun show ?thesis
      proof (cases rule: begin_side_effect_dispatch_SomeD)
        case (replay q)
        have "se_state e \<noteq> Prepared" using replay by (simp add: se_state_def)
        then have "receipt_for_existing (it_expectation it) e \<noteq> None"
          using replay(3) by (simp add: receipt_for_existing_def)
        moreover have "verified_in L ?aid" if "se_state e = Verified"
          using that replay by (simp add: verified_in_def se_state_def)
        ultimately obtain y where "receipt_for_existing (it_expectation it) e = Some (Some y)"
          "honest_receipt (it_expectation it) L y" "rp_state y \<noteq> Not_dispatched"
          using existing_receipt_honest [OF _ begin_consistent [OF begun]] by blast
        then show ?thesis
          using assms(1) now Some begun L sound_trans [OF s1 L] refused [of "Effect_settled y" "(fst s1, L)"]
          by (auto simp: begin_dispatch_def)
      next
        case (grant q cur i)
        have e: "\<not> se_replayed e" "se_progress e = mark_dispatched i (ef_progress q)"
          using advance_effect_SomeD [OF grant(8,2,4,5)] by simp_all
        have ranks: "effect_rank (snd s1) ?aid = 1" "effect_rank L ?aid = 2"
          using grant(2,4) advance_effect_lookup [OF grant(8,2,4,5)]
          by (simp_all add: effect_rank_def table_rank_def mark_dispatched_def)
        show ?thesis
          by (rule granted [OF _ _ s1 L ranks, of e])
            (use assms(1) now Some begun e in \<open>auto simp: begin_dispatch_def receipt_for_existing_def
              se_state_def mark_dispatched_def\<close>)
      qed
    qed
  qed
qed

subsection \<open>The invariant of a replay\<close>

definition dispatch_inv :: "ledger \<Rightarrow> str \<Rightarrow> side_effect list \<Rightarrow> ledger \<Rightarrow> bool" where
  "dispatch_inv L0 k effects L \<longleftrightarrow> later L0 L \<and> length effects \<le> 1
     \<and> (\<forall>e \<in> set effects. se_state e = Dispatched \<and> pg_revision (se_progress e) = 2)
     \<and> (effects \<noteq> [] \<longrightarrow> effect_rank L0 k < 2 \<and> 2 \<le> effect_rank L k)"

lemma dispatch_inv_sound:
  assumes "dispatch_inv L0 k effects L" "sound L L'"
  shows "dispatch_inv L0 k effects L'"
proof -
  have "later L0 L'" using assms later_sound by (auto simp: dispatch_inv_def)
  moreover have "later L L'" using assms by (simp add: dispatch_inv_def later_def sound_def)
  then have "effect_rank L k \<le> effect_rank L' k" by (rule later_rank)
  ultimately show ?thesis using assms(1) by (auto simp: dispatch_inv_def)
qed

lemma dispatch_inv_grant:
  assumes inv: "dispatch_inv L0 k effects L" and "sound L L1" "sound L1 L2"
    and rank: "effect_rank L1 k = 1" "effect_rank L2 k = 2"
    and e: "se_state e = Dispatched" "pg_revision (se_progress e) = 2"
  shows "dispatch_inv L0 k (effects @ [e]) L2"
proof -
  note inv1 = dispatch_inv_sound [OF inv assms(2)]
  then have "effects = []" using rank by (auto simp: dispatch_inv_def)
  moreover have "later L0 L2" using inv1 assms(3) later_sound by (auto simp: dispatch_inv_def)
  moreover have "effect_rank L0 k \<le> 1"
    using inv1 later_rank [of L0 L1 k] rank by (simp add: dispatch_inv_def)
  ultimately show ?thesis using rank e by (simp add: dispatch_inv_def)
qed

definition replay_inv ::
  "'p env \<Rightarrow> ledger \<Rightarrow> str \<Rightarrow> call list \<Rightarrow> ('p \<times> ledger) \<times> side_effect list \<Rightarrow> bool" where
  "replay_inv env L0 k cs w \<longleftrightarrow> (env_ok env \<longrightarrow>
     length (snd w) = count_list cs (Hook True) \<and> dispatch_inv L0 k (snd w) (snd (fst w)))"

lemma replay_inv_lift:
  assumes "replay_inv env L0 k cs w" and "env_ok env \<longrightarrow> keeps_ledger f"
  shows "replay_inv env L0 k cs (snd (lift f w))"
  using assms dispatch_inv_sound [of L0 k "snd w" "snd (fst w)"] keepsD [of sound f "fst w"]
  by (auto simp: replay_inv_def lift_def split: prod.splits)

lemma replay_inv_calls:
  "replay_inv env L0 k (cs @ [Act st b]) w \<longleftrightarrow> replay_inv env L0 k cs w"
  "replay_inv env L0 k (cs @ [Hook False]) w \<longleftrightarrow> replay_inv env L0 k cs w"
  by (simp_all add: replay_inv_def)

lemma replay_inv_hook:
  assumes inv: "replay_inv env L0 (xp_action_id (it_expectation it)) cs w"
    and hook: "begin_dispatch sha pf env it w = (r, w')"
  shows "replay_inv env L0 (xp_action_id (it_expectation it)) (cs @ [Hook (r = None)]) w'"
proof (cases "env_ok env")
  case ok: True
  obtain s effects where w: "w = (s, effects)" by (cases w)
  from hook [unfolded w] ok show ?thesis
  proof (cases rule: begin_dispatch_cases)
    case (refused y s1)
    then show ?thesis using inv ok w by (auto simp: replay_inv_def intro: dispatch_inv_sound)
  next
    case (granted e s1 L)
    then show ?thesis using inv ok w by (auto simp: replay_inv_def intro: dispatch_inv_grant)
  qed
qed (simp add: replay_inv_def)

interpretation effect_replay:
  replay_invariant "lift_page (en_page env)" "Some (begin_dispatch sha pf env it)"
    "replay_inv env L0 (xp_action_id (it_expectation it))" for env sha pf it L0
proof
  fix cs :: "call list" and w w1 w2 :: "('a \<times> ledger) \<times> side_effect list" and st k i p b h e
  let ?Q = "replay_inv env L0 (xp_action_id (it_expectation it))" and ?hook = "Some (begin_dispatch sha pf env it)"
  have act: "?Q cs w' \<Longrightarrow> page_act (lift_page (en_page env)) k i p w' = (b, w'') \<Longrightarrow> ?Q (cs @ [Act st b]) w''"
    for cs w' w''
    using replay_inv_lift [of env L0 _ cs w' "page_act (en_page env) k i p"]
    by (auto simp: lift_page_def env_ok_def replay_inv_calls)
  show "?Q (cs @ [Hook True, Act st b]) w2"
    if "?Q cs w" "?hook = Some h" "h w = (None, w1)"
      "page_act (lift_page (en_page env)) k i p w1 = (b, w2)"
  proof -
    have "begin_dispatch sha pf env it w = (None, w1)" using that(2,3) by simp
    from replay_inv_hook [OF that(1) this] have "?Q (cs @ [Hook True]) w1" by simp
    from act [OF this that(4)] show ?thesis by simp
  qed
  show "?Q (cs @ [Hook False]) w1" if "?Q cs w" "?hook = Some h" "h w = (Some e, w1)"
  proof -
    have "begin_dispatch sha pf env it w = (Some e, w1)" using that(2,3) by simp
    from replay_inv_hook [OF that(1) this] show ?thesis by simp
  qed
  show "?Q (cs @ [Act st b]) w1"
    if "?Q cs w" "\<not> sp_external st" "page_act (lift_page (en_page env)) k i p w = (b, w1)"
    by (rule act [OF that(1,3)])
qed (auto simp: lift_page_def env_ok_def intro!: replay_inv_lift)

lemma disciplined_hooks:
  "disciplined cs \<Longrightarrow> count_list cs (Hook True) = length (external_acts cs)"
  by (induction cs rule: disciplined.induct) auto

subsection \<open>The replay of a run\<close>

definition end_honest :: "expectation \<Rightarrow> call list \<Rightarrow> ledger \<Rightarrow> hook_error execute_end \<Rightarrow> bool" where
  "end_honest x cs L ended = (case ended of
     Report r \<Rightarrow> ep_kind r \<in> {No_route, Recovery_pending} \<longrightarrow> external_acts cs = []
   | Execute_hook (Effect_settled p) \<Rightarrow> honest_receipt x L p \<and> rp_state p \<noteq> Not_dispatched
   | Execute_hook Dispatch_refused \<Rightarrow> external_acts cs = []
   | _ \<Rightarrow> True)"

lemma executed_action:
  assumes reg: "published ct vf (or_registry orc)" and one: "ct_max_external ct \<le> 1"
    and ok: "env_ok env" "later L0 L"
    and run: "execute orc sid (lift_page (en_page env)) params None (Some (begin_dispatch sha pf env it)) ((p, L), [])
      = (ended, cs, orc', (s, effects))"
  shows "dispatch_inv L0 (xp_action_id (it_expectation it)) effects (snd s)"
    and "disciplined cs" and "length effects = length (external_acts cs)"
    and "end_honest (it_expectation it) cs (snd s) ended"
proof -
  let ?x = "it_expectation it" and ?h = "begin_dispatch sha pf env it"
  have start: "replay_inv env L0 (xp_action_id ?x) [] ((p, L), [])"
    using ok by (simp add: replay_inv_def dispatch_inv_def)
  let ?goal = "dispatch_inv L0 (xp_action_id ?x) effects (snd s) \<and> disciplined cs
    \<and> length effects = length (external_acts cs) \<and> end_honest ?x cs (snd s) ended"
  have routed: ?goal
    if r: "runnable orc sid None r" and disc: "disciplined cs"
      and z: "replay_skill (lift_page (en_page env)) (Some ?h) (ss_skill r) params ((p, L), []) = (z, cs, (s, effects))"
      and raised: "\<And>y. z = Hook_raised y \<Longrightarrow> ended = Execute_hook y"
      and other: "(\<forall>y. z \<noteq> Hook_raised y) \<Longrightarrow> end_honest ?x cs (snd s) ended" for r z
  proof -
    have inv: "replay_inv env L0 (xp_action_id ?x) cs (s, effects)"
      by (rule effect_replay.replay_keeps [OF z start])
    have skill: "skill_ok ct (ss_skill r)" using published_skill [OF reg] r by (simp add: runnable_def)
    then have bound: "0 \<le> sk_max_external (ss_skill r)" "sk_max_external (ss_skill r) \<le> 1"
      using one by (simp_all add: skill_ok_def)
    have "end_honest ?x cs (snd s) ended"
    proof (cases "\<exists>y. z = Hook_raised y")
      case True
      then obtain y where y: "z = Hook_raised y" ..
      have "int (length (external_acts cs)) < 1"
        using replay_skill_ok [OF bound(1) z] bound(2) unfolding end_ok_def y replay_end.case by linarith
      then have "external_acts cs = []" by simp
      moreover have "effect_replay.raised_by_hook sha pf env it L0 y cs (s, effects)"
        by (rule effect_replay.replay_raised [OF _ start]) (use z y in simp)
      then obtain w0 where "?h w0 = (Some y, (s, effects))"
        by (auto simp: effect_replay.raised_by_hook_def)
      then have "honest_receipt ?x (snd s) q \<and> rp_state q \<noteq> Not_dispatched" if "y = Effect_settled q" for q
        using that ok(1) by (cases w0) (auto elim!: begin_dispatch_cases)
      ultimately show ?thesis using raised [OF y]
        by (auto simp: end_honest_def split: hook_error.split)
    qed (use other in simp)
    then show ?thesis using inv ok(1) disc disciplined_hooks [OF disc] by (simp add: replay_inv_def)
  qed
  have ?goal
    using execute_report [OF reg run]
  proof (elim disjE exE conjE)
    assume "(ended, cs, orc', s, effects) = (Report no_route, [], orc, (p, L), [])"
    then show ?goal using start ok(1) by (simp add: replay_inv_def end_honest_def no_route_def)
  next
    fix r z
    assume "runnable orc sid None r" "disciplined cs"
      "replay_skill (lift_page (en_page env)) (Some ?h) (ss_skill r) params ((p, L), []) = (z, cs, (s, effects))"
    note routed_run = routed [OF this]
    assume "case z of Replay_passed oc \<Rightarrow> orc' = counted orc r True \<and>
          ended = Report \<lparr>ep_kind = Replayed, ep_version = Some (ss_version r), ep_outcome = Some oc, ep_decision = None\<rparr>
      | Replay_failed f \<Rightarrow> orc' = counted orc r False \<and> (\<exists>d. \<not> hb_may_resend d
          \<and> (hb_may_continue d \<longleftrightarrow> external_acts cs = [])
          \<and> ended = Report \<lparr>ep_kind = (if external_acts cs = [] then Recovery_pending else Reconcile_required),
              ep_version = Some (ss_version r), ep_outcome = None, ep_decision = Some d\<rparr>)
      | Hook_raised y \<Rightarrow> orc' = orc \<and> ended = Execute_hook y
      | Page_raised \<Rightarrow> orc' = orc \<and> ended = Execute_raised"
    then show ?goal
      by (intro routed_run) (auto simp: end_honest_def split: replay_end.splits)
  qed
  then show "dispatch_inv L0 (xp_action_id ?x) effects (snd s)" "disciplined cs"
    "length effects = length (external_acts cs)" "end_honest ?x cs (snd s) ended" by simp_all
qed

subsection \<open>Settlement and the whole run\<close>

lemmas receipt_defs = effect_receipt_def empty_receipt_def prepared_receipt_def make_receipt_def
  receipt_ok_def honest_receipt_def no_effect_evidence_def prepared_evidence_def post_dispatch_evidence_def

text \<open>The receipt of a finished step, and how far the ledger moved.\<close>

definition ends_with :: "ledger \<Rightarrow> expectation \<Rightarrow> bool \<Rightarrow> receipt option \<times> ('p \<times> ledger) \<Rightarrow> bool" where
  "ends_with L x attempted result \<longleftrightarrow> sound L (snd (snd result))
     \<and> (\<exists>y. fst result = Some y \<and> honest_receipt x (snd (snd result)) y
          \<and> (rp_state y = Not_dispatched \<longrightarrow> \<not> attempted))"

lemma prepared_receipt_ends:
  "evidence \<in> prepared_evidence \<Longrightarrow> \<not> attempted \<Longrightarrow> ends_with (snd s) x attempted (prepared_receipt x evidence, s)"
  by (simp add: ends_with_def receipt_defs)

lemma report_uncertain_ends:
  assumes "env_ok env" and e: "se_state e = Dispatched" "pg_revision (se_progress e) = 2"
    and evidence: "evidence \<in> {Skill_reconcile_required, Verification_unavailable}"
  shows "ends_with (snd s) (it_expectation it) attempted (report_uncertain sha pf env it evidence e s)"
proof -
  obtain v s1 where now: "read_now env s = (v, s1)" by (cases "read_now env s")
  have s1: "sound (snd s) (snd s1)" by (rule read_now_sound [OF assms(1) now])
  have plain: "ends_with (snd s) (it_expectation it) attempted
      (effect_receipt (it_expectation it) Outcome_uncertain evidence e False, s1)"
    using s1 e evidence by (auto simp: ends_with_def receipt_defs)
  show ?thesis
  proof (cases v)
    case None
    then show ?thesis using now plain by (simp add: report_uncertain_def)
  next
    case (Some t)
    let ?mark = "mark_side_effect_uncertain (snd s1) (xp_action_id (it_expectation it)) (effect_fingerprint sha pf it) t"
    show ?thesis
    proof (cases ?mark)
      case None
      then show ?thesis using now Some plain by (simp add: report_uncertain_def)
    next
      case marked: (Some m)
      then obtain u L where m: "?mark = Some (u, L)" by (cases m) auto
      then have u: "effect_consistent u" "se_state u = Uncertain" "sound (snd s1) L"
        using settle_consistent sound_settle_effect unfolding mark_side_effect_uncertain_def by blast+
      then show ?thesis
        using now Some m sound_trans [OF s1 u(3)] consistent_revision(4) [OF u(1)] evidence
        by (auto simp: report_uncertain_def Let_def ends_with_def receipt_defs)
    qed
  qed
qed

lemma ends_with_sound: "sound L (snd s) \<Longrightarrow> ends_with (snd s) x b r \<Longrightarrow> ends_with L x b r"
  by (auto simp: ends_with_def intro: sound_trans)

lemma report_verified_ends:
  assumes "env_ok env" and e: "se_state e = Dispatched" "pg_revision (se_progress e) = 2"
  shows "ends_with (snd s) (it_expectation it) attempted (report_verified sha pf env it e s)"
proof -
  obtain v s1 where now: "read_now env s = (v, s1)" by (cases "read_now env s")
  have s1: "sound (snd s) (snd s1)" by (rule read_now_sound [OF assms(1) now])
  have fallback: "ends_with (snd s) (it_expectation it) attempted
      (report_uncertain sha pf env it Verification_unavailable e s1)"
    by (rule ends_with_sound [OF s1 report_uncertain_ends [OF assms]]) simp
  show ?thesis
  proof (cases v)
    case None
    then show ?thesis using now fallback by (simp add: report_verified_def)
  next
    case (Some t)
    let ?f = "effect_fingerprint sha pf it" and ?k = "xp_action_id (it_expectation it)"
    let ?verify = "verify_side_effect (snd s1) ?k ?f (verification_fingerprint sha pf ?f) t"
    show ?thesis
    proof (cases ?verify)
      case None
      then show ?thesis using now Some fallback by (simp add: report_verified_def)
    next
      case verified: (Some m)
      then obtain u L where m: "?verify = Some (u, L)" by (cases m) auto
      note settled = m [unfolded verify_side_effect_def]
      have u: "effect_consistent u" "se_state u = Verified" "sound (snd s1) L" "verified_in L ?k"
        using settle_consistent [OF settled] sound_settle_effect [OF settled] verified_settled [OF settled]
        by simp_all
      then show ?thesis
        using now Some m sound_trans [OF s1 u(3)] consistent_revision(3) [OF u(1)]
        by (auto simp: report_verified_def Let_def ends_with_def receipt_defs)
    qed
  qed
qed

lemma conclude_ends:
  assumes env: "env_ok env" and inv: "dispatch_inv L0 k effects (snd s)"
    and honest: "end_honest (it_expectation it) cs (snd s) ended"
    and calls: "length effects = length (external_acts cs)"
  shows "ends_with (snd s) (it_expectation it) (external_acts cs \<noteq> []) (conclude sha pf env it ended effects s)"
proof (cases effects)
  case Nil
  then have "external_acts cs = []" using calls by simp
  then show ?thesis
    using Nil honest prepared_receipt_ends [of _ False s "it_expectation it"]
    by (auto simp: conclude_def Let_def prepared_evidence_def end_honest_def ends_with_def
        split: execute_end.splits hook_error.splits execution_kind.splits)
next
  case (Cons e es)
  then have e: "se_state e = Dispatched" "pg_revision (se_progress e) = 2"
    using inv by (simp_all add: dispatch_inv_def)
  have attempted: "external_acts cs \<noteq> []" using calls Cons by auto
  note ends = report_uncertain_ends [OF env e, of Skill_reconcile_required] report_verified_ends [OF env e]
  show ?thesis
    using Cons honest attempted ends [of s it True sha pf]
    by (auto simp: conclude_def Let_def end_honest_def ends_with_def
        split: execute_end.splits hook_error.splits execution_kind.splits)
qed

lemma admit_now_sound:
  assumes "env_ok env" "admit_now sha g env x s = (r, s')"
  shows "sound (snd s) (snd s')"
proof -
  have gate: "sound L (snd (gate_admit sha g L x a b))" for L a b by (rule sound_gate_admit)
  show ?thesis
    using assms(2) by (auto simp: admit_now_def split: prod.splits option.splits if_splits
        dest!: read_now_sound [OF assms(1)] intro: sound_trans)
      (metis gate snd_conv sound_trans)+
qed

text \<open>The guarantee of one run.\<close>

definition run_guarantee :: "expectation \<Rightarrow> ledger \<Rightarrow> 'p action_run \<Rightarrow> bool" where
  "run_guarantee x L a \<longleftrightarrow> disciplined (ar_calls a) \<and> length (external_acts (ar_calls a)) \<le> 1
     \<and> (external_acts (ar_calls a) \<noteq> [] \<longrightarrow> effect_rank L (xp_action_id x) < 2
          \<and> 2 \<le> effect_rank (snd (ar_state a)) (xp_action_id x))
     \<and> ends_with L x (external_acts (ar_calls a) \<noteq> []) (ar_receipt a, ar_state a)"

lemma run_guarantee_early:
  "ends_with L x False (r, s) \<Longrightarrow>
     run_guarantee x L \<lparr>ar_receipt = r, ar_calls = [], ar_orchestrator = orc, ar_state = s\<rparr>"
  by (simp add: run_guarantee_def)

lemma empty_receipt_ends:
  "evidence \<in> no_effect_evidence \<Longrightarrow> sound L (snd s) \<Longrightarrow> ends_with L x False (empty_receipt x evidence, s)"
  by (simp add: ends_with_def receipt_defs)

lemma prepare_existing_honest:
  assumes "prepare_side_effect L aid fp at = Some (e, L')" "receipt_for_existing x e = Some r"
    and "aid = xp_action_id x"
  shows "\<exists>y. r = Some y \<and> honest_receipt x L' y"
proof -
  have "verified_in L' aid" if "se_state e = Verified"
    using assms(1,2) that
    by (auto simp: prepare_side_effect_def bind_eq_Some_conv canonical_uuid_v4_Some Let_def receipt_for_existing_def
        split: if_splits option.splits dest: verified_row read_side_effect_Some)
  then show ?thesis
    using existing_receipt_honest [OF assms(2) prepare_consistent [OF assms(1)], of L'] assms(3) by blast
qed

lemma run_action_guarantee:
  assumes reg: "published ct vf (or_registry orc)" "ct_max_external ct \<le> 1"
    and env: "env_ok env" and inv: "ledger_inv (snd s)"
  shows "run_guarantee (it_expectation it) (snd s) (run_action sha pf g env orc it s)"
proof -
  let ?x = "it_expectation it" and ?f = "effect_fingerprint sha pf it"
  obtain adm s1 where admit: "admit_now sha g env ?x s = (adm, s1)" by (cases "admit_now sha g env ?x s")
  note s1 = admit_now_sound [OF env admit]
  note early = run_guarantee_early [OF empty_receipt_ends]
  obtain v s2 where now: "read_now env s1 = (v, s2)" by (cases "read_now env s1")
  note s2 = sound_trans [OF s1 read_now_sound [OF env now]]
  show ?thesis
  proof (cases adm)
    case (Inl err)
    then show ?thesis
      using admit early [OF _ s1, of _ ?x orc]
      by (cases err) (auto simp: run_action_def Let_def limit_evidence_def no_effect_evidence_def
          split: limit_reason.split)
  next
    case (Inr admitted)
    show ?thesis
    proof (cases "Option.bind v (prepare_side_effect (snd s2) (xp_action_id ?x) ?f)")
      case None
      then show ?thesis
        using admit Inr now early [OF _ s2, of Ledger_unavailable ?x orc]
        by (auto simp: run_action_def Let_def no_effect_evidence_def split: option.splits)
    next
      case (Some m)
      then obtain t e L where t: "v = Some t" and m: "m = (e, L)"
        and prep: "prepare_side_effect (snd s2) (xp_action_id ?x) ?f t = Some (e, L)"
        by (cases m) (auto simp: bind_eq_Some_conv)
      have L: "sound (snd s) L" by (rule sound_trans [OF s2 sound_prepare_effect [OF prep]])
      show ?thesis
      proof (cases "receipt_for_existing ?x e")
        case existing: (Some r)
        then have "ends_with (snd s) ?x False (r, (fst s2, L))"
          using prepare_existing_honest [OF prep existing] L by (auto simp: ends_with_def)
        from run_guarantee_early [OF this] show ?thesis
          using admit Inr now t prep existing by (simp add: run_action_def Let_def)
      next
        case None
        note reached = admit Inr now t prep None
        show ?thesis
        proof (cases "en_ready env")
          case False
          have "ends_with L ?x False (prepared_receipt ?x Prepare_unavailable, (fst s2, L))"
            using prepared_receipt_ends [of Prepare_unavailable False "(fst s2, L)" ?x]
            by (simp add: prepared_evidence_def)
          then have "ends_with (snd s) ?x False (prepared_receipt ?x Prepare_unavailable, (fst s2, L))"
            using ends_with_sound [of "snd s" "(fst s2, L)"] L by simp
          from run_guarantee_early [OF this] show ?thesis
            using reached False by (simp add: run_action_def Let_def)
        next
          case True
          obtain ended cs orc1 s3 effects where run: "execute orc (pf_skill pf) (lift_page (en_page env))
              [pf_parameter pf \<mapsto> it_message it] None (Some (begin_dispatch sha pf env it)) ((fst s2, L), [])
              = (ended, cs, orc1, (s3, effects))"
            by (metis prod.collapse)
          have start: "later (snd s) L" using L inv by (simp add: sound_def later_def)
          note executed = executed_action [OF reg env start run]
          have s3: "sound (snd s) (snd s3)" using executed(1) inv by (simp add: dispatch_inv_def later_def sound_def)
          obtain r s4 where concluded: "conclude sha pf env it ended effects s3 = (r, s4)"
            by (cases "conclude sha pf env it ended effects s3")
          have ends: "ends_with (snd s3) ?x (external_acts cs \<noteq> []) (r, s4)"
            using conclude_ends [OF env executed(1,4,3), of sha pf] concluded by simp
          have "sound (snd s3) (snd s4)" using ends by (simp add: ends_with_def)
          then have "dispatch_inv (snd s) (xp_action_id ?x) effects (snd s4)"
            by (rule dispatch_inv_sound [OF executed(1)])
          then have "run_guarantee ?x (snd s) \<lparr>ar_receipt = r, ar_calls = cs, ar_orchestrator = orc1, ar_state = s4\<rparr>"
            using executed(2,3) ends_with_sound [OF s3 ends] by (auto simp: run_guarantee_def dispatch_inv_def)
          then show ?thesis
            using reached True run concluded by (simp add: run_action_def Let_def)
        qed
      qed
    qed
  qed
qed

end
