(* ===== verification/Action_Properties.thy ===== *)
theory Action_Properties
  imports Execution_Facts Dispatch_Properties
begin

text \<open>
  Properties of action executions: what one run may do and report, at most one external action per
  action over any history of the executor, what a second admission through the gate gives, and what
  a fingerprint identifies.
\<close>

subsection \<open>One run\<close>

text \<open>
  C3. Whatever the page does and however other threads interleave, a run of a comment or message
  action attempts at most one external action, only right after the ledger granted the dispatch, and
  only if the ledger had not granted one before; it always returns a receipt, which its constructor
  accepts and which names the action; the receipt says ``not dispatched'' only if nothing external
  was attempted, and ``verified'' only if the ledger holds the effect as verified.
\<close>

theorem action_run_safe:
  assumes "published ct vf (or_registry orc)" and "ct_max_external ct \<le> 1"
    and "env_ok env" and "ledger_inv L"
    and "run_action sha pf g env orc it (p, L) = a"
  shows "ledger_inv (snd (ar_state a)) \<and> evolves L (snd (ar_state a)) \<and> disciplined (ar_calls a)
    \<and> length (external_acts (ar_calls a)) \<le> 1
    \<and> (external_acts (ar_calls a) \<noteq> [] \<longrightarrow> effect_rank L (xp_action_id (it_expectation it)) < 2
         \<and> 2 \<le> effect_rank (snd (ar_state a)) (xp_action_id (it_expectation it)))
    \<and> (\<exists>y. ar_receipt a = Some y \<and> receipt_ok y \<and> rp_action_id y = xp_action_id (it_expectation it)
         \<and> rp_target_id y = xp_target_id (it_expectation it)
         \<and> (rp_state y = Not_dispatched \<longrightarrow> external_acts (ar_calls a) = [])
         \<and> (rp_state y = Action_verified \<longrightarrow>
              verified_in (snd (ar_state a)) (xp_action_id (it_expectation it))))"
  using run_action_guarantee [of ct vf orc env "(p, L)" it sha pf g] assms
  by (auto simp: run_guarantee_def ends_with_def honest_receipt_def sound_def)

text \<open>A run in which nothing interleaves, over a page that shows every element.\<close>

definition quiet_env :: "int \<Rightarrow> nat env" where
  "quiet_env t = \<lparr>en_page = \<lparr>page_find = (\<lambda>g. lift (page_find sample_page g)),
       page_holds = (\<lambda>c. lift (page_holds sample_page c)),
       page_act = (\<lambda>k i v. lift (page_act sample_page k i v)), page_path = lift (page_path sample_page)\<rparr>,
     en_now = (\<lambda>s. (Some (at_second t), s)), en_ready = True\<rparr>"

definition sample_intent :: intent where
  "sample_intent = \<lparr>it_expectation = \<lparr>xp_action_id = the_action, xp_target_id = the_target,
       xp_attempt_id = the_attempt, xp_task_id = the_task, xp_installation_id = installation,
       xp_executor_id = executor, xp_platform = ''douyin'', xp_action = Comment,
       xp_idempotency_key = ''action:'' @ the_action\<rparr>, it_message = ''hello''\<rparr>"

definition sample_gate :: gate where
  "sample_gate = \<lparr>gt_interval = 60, gt_limit = 3\<rparr>"

lemma quiet_env_ok: "env_ok (quiet_env t)"
  by (auto simp: env_ok_def quiet_env_def keeps_def lift_def sound_def split: prod.split)

lemma sample_orchestrator_published: "published contract_v1 sample_verifier (or_registry sample_orchestrator)"
  using published.next_version [OF published.nothing sample_publication] by (simp add: sample_orchestrator_def)

theorem action_run_safe_witness:
  "\<exists>a y. run_action (\<lambda>_. fingerprint_b) comment_profile sample_gate (quiet_env 112) sample_orchestrator
      sample_intent (0, prepared_ledger) = a \<and> ar_receipt a = Some y \<and> rp_action_id y = the_action"
proof -
  have "ct_max_external contract_v1 \<le> 1" by (simp add: contract_v1_def)
  note safe = action_run_safe [OF sample_orchestrator_published this quiet_env_ok sample_ledgers_inv(2) refl,
    of "\<lambda>_. fingerprint_b" comment_profile sample_gate 112 sample_intent 0]
  then show ?thesis by (auto simp: sample_intent_def)
qed

subsection \<open>All runs of the executor\<close>

text \<open>
  The executor runs actions and makes other calls of its ledger in any order; \<open>'p\<close> is what the page
  and the clock keep between runs.
\<close>

datatype 'p executor_op =
    Ledger_call ledger_op
  | Run_action profile gate "'p env" orchestrator intent

fun executor_step :: "codec \<Rightarrow> (bytes \<Rightarrow> bytes) \<Rightarrow> 'p \<times> ledger \<Rightarrow> 'p executor_op \<Rightarrow> 'p \<times> ledger" where
  "executor_step cd sha (p, L) (Ledger_call op) = (p, ledger_step cd L op)"
| "executor_step cd sha s (Run_action pf g env orc it) = ar_state (run_action sha pf g env orc it s)"

fun externals :: "(bytes \<Rightarrow> bytes) \<Rightarrow> 'p \<times> ledger \<Rightarrow> 'p executor_op \<Rightarrow> str \<Rightarrow> nat" where
  "externals sha s (Ledger_call op) k = 0"
| "externals sha s (Run_action pf g env orc it) k =
     (if xp_action_id (it_expectation it) = k
      then length (external_acts (ar_calls (run_action sha pf g env orc it s))) else 0)"

fun trusted_op :: "skill_contract \<Rightarrow> verifier \<Rightarrow> 'p executor_op \<Rightarrow> bool" where
  "trusted_op ct vf (Ledger_call op) \<longleftrightarrow> True"
| "trusted_op ct vf (Run_action pf g env orc it) \<longleftrightarrow>
     published ct vf (or_registry orc) \<and> ct_max_external ct \<le> 1 \<and> env_ok env"

lemma executor_op_guarantee:
  assumes "ledger_inv (snd s)" and "trusted_op ct vf x"
  shows "sound (snd s) (snd (executor_step cd sha s x)) \<and> externals sha s x k \<le> 1
    \<and> (0 < externals sha s x k \<longrightarrow> effect_rank (snd s) k < 2
         \<and> 2 \<le> effect_rank (snd (executor_step cd sha s x)) k)"
proof (cases x)
  case (Ledger_call op)
  then show ?thesis using sound_step [of "snd s"] by (cases s) simp
next
  case (Run_action pf g env orc it)
  then show ?thesis
    using run_action_guarantee [of ct vf orc env s it sha pf g] assms
    by (auto simp: run_guarantee_def ends_with_def)
qed

interpretation action_once: one_shot "\<lambda>s. ledger_inv (snd s)" "executor_step cd sha"
    "\<lambda>s. effect_rank (snd s)" "\<lambda>s x k. 0 < externals sha s x k" 2 "trusted_op ct vf" for cd sha ct vf
proof
  fix s :: "'a \<times> ledger" and x :: "'a executor_op" and k :: str
  assume "ledger_inv (snd s)" and "trusted_op ct vf x"
  note op = executor_op_guarantee [OF this, of cd sha k]
  then show "ledger_inv (snd (executor_step cd sha s x))"
    and "effect_rank (snd s) k \<le> effect_rank (snd (executor_step cd sha s x)) k"
    using \<open>ledger_inv (snd s)\<close> by (auto simp: sound_def effect_rank_evolves)
  show "effect_rank (snd s) k < 2" and "2 \<le> effect_rank (snd (executor_step cd sha s x)) k"
    if "0 < externals sha s x k" using op that by simp_all
qed

lemma sum_at_most_one:
  fixes f :: "'b \<Rightarrow> nat"
  assumes "length (filter (\<lambda>y. 0 < f y) ys) \<le> 1" and "\<And>y. y \<in> set ys \<Longrightarrow> f y \<le> 1"
  shows "sum_list (map f ys) \<le> 1"
  using assms
proof (induction ys)
  case (Cons y ys)
  show ?case
  proof (cases "0 < f y")
    case True
    then have "filter (\<lambda>y. 0 < f y) ys = []" using Cons.prems(1) by simp
    then have "\<forall>x \<in> set ys. f x = 0" by (simp add: filter_empty_conv)
    then have "sum_list (map f ys) = 0" by simp
    then have "sum_list (map f (y # ys)) = f y" by (simp only: list.map sum_list.Cons)
    then show ?thesis using Cons.prems(2) [of y] by (simp del: list.map)
  qed (use Cons in auto)
qed simp

lemma executor_history_sound:
  "ledger_inv (snd s) \<Longrightarrow> list_all (trusted_op ct vf) xs \<Longrightarrow> (t, x) \<in> set (run_states (executor_step cd sha) s xs) \<Longrightarrow>
     ledger_inv (snd t) \<and> trusted_op ct vf x"
proof (induction xs arbitrary: s)
  case (Cons y ys)
  then have "ledger_inv (snd (executor_step cd sha s y))" by (auto intro: action_once.inv_step)
  from Cons.IH [OF this] Cons.prems show ?case by auto
qed simp

text \<open>
  C2. Over any history of the executor (runs of comment and message actions, each over published
  skills and each with other threads interleaving, and any other calls of the ledger, in any order,
  also repeated for the same action), the page is asked for at most one external action for one
  action.
\<close>

theorem one_external_action_ever:
  assumes "list_all (trusted_op ct vf) ops"
  shows "sum_list (map (\<lambda>(s, x). externals sha s x action_id)
    (run_states (executor_step cd sha) (p, new_ledger inst exec) ops)) \<le> 1"
proof (rule sum_at_most_one)
  let ?start = "(p, new_ledger inst exec)"
  have inv: "ledger_inv (snd ?start)" by (simp add: new_ledger_inv)
  show "length (filter (\<lambda>y. 0 < (\<lambda>(s, x). externals sha s x action_id) y)
      (run_states (executor_step cd sha) ?start ops)) \<le> 1"
    using action_once.at_most_one_grant [where cd = cd and sha = sha and k = action_id, OF inv assms] by (simp add: case_prod_unfold)
  fix y assume "y \<in> set (run_states (executor_step cd sha) ?start ops)"
  then show "(\<lambda>(s, x). externals sha s x action_id) y \<le> 1"
    using executor_history_sound [OF inv assms, of "fst y" "snd y" cd sha]
      executor_op_guarantee [of "fst y" ct vf "snd y" cd sha action_id]
    by (auto simp: case_prod_unfold)
qed

lemma sample_trusted:
  "trusted_op contract_v1 sample_verifier (Run_action pf g (quiet_env t) sample_orchestrator it)"
proof -
  have "ct_max_external contract_v1 \<le> 1" by (simp add: contract_v1_def)
  then show ?thesis by (simp add: sample_orchestrator_published quiet_env_ok)
qed

theorem one_external_action_ever_witness:
  "sum_list (map (\<lambda>(s, x). externals (\<lambda>_. fingerprint_b) s x the_action)
    (run_states (executor_step sample_codec (\<lambda>_. fingerprint_b)) (0, new_ledger installation executor)
      (map Ledger_call (ops_running @ ops_prepared) @ replicate 2
        (Run_action comment_profile sample_gate (quiet_env 112) sample_orchestrator sample_intent)))) \<le> 1"
  by (rule one_external_action_ever [of contract_v1 sample_verifier])
    (auto simp: list_all_iff simp del: trusted_op.simps(2) intro: sample_trusted)

subsection \<open>Fingerprints\<close>

lemma exposure_value_eq [simp]: "exposure_value a = exposure_value b \<longleftrightarrow> a = b"
  by (cases a; cases b) (simp_all add: exposure_value_def)

lemma effect_text_eq:
  "encode_ascii (effect_text pf it) = encode_ascii (effect_text pf' it') \<longleftrightarrow>
     it = it' \<and> pf_effect_domain pf = pf_effect_domain pf'"
proof -
  have "effect_fields pf it = effect_fields pf' it'"
    if "json_members (effect_fields pf it) @ ''}'' = json_members (effect_fields pf' it') @ ''}''"
    by (rule json_members_eq [OF _ that]) (simp add: effect_fields_def Let_def)
  moreover have "effect_fields pf it = effect_fields pf' it' \<longleftrightarrow> it = it' \<and> pf_effect_domain pf = pf_effect_domain pf'"
    by (auto simp: effect_fields_def Let_def)
  ultimately show ?thesis by (auto simp: encode_ascii_inj effect_text_def)
qed

text \<open>
  Two effects are fingerprinted over the same bytes only if they agree in every field of the
  authorization and in the rendered message and are of the same kind (a comment or a message): the
  ledger's comparison of fingerprints is a comparison of actions, up to collisions of SHA-256.
\<close>

lemma effect_text_identifies:
  "encode_ascii (effect_text pf it) = encode_ascii (effect_text pf' it') \<longleftrightarrow>
     it = it' \<and> pf_effect_domain pf = pf_effect_domain pf'"
  by (rule effect_text_eq)

subsection \<open>A second admission\<close>

text \<open>The row of an admission stays, with the clock reading it was made with.\<close>

lemma admitted_later:
  assumes "gate_admit sha g L x first second = (Inr a, L')" and "evolves L' L''"
  obtains r where "r \<in> set (admissions L'')" "ad_action_id r = xp_action_id x"
    "first = Aware 0 (ad_authorized_at r)"
proof -
  obtain r where r: "r \<in> set (admissions L')" "ad_action_id r = xp_action_id x"
      "first = Aware 0 (ad_authorized_at r)"
    using gate_admission_row [OF assms(1)] by auto
  have "admissions L' = take (length (admissions L')) (admissions L'')"
    using assms(2) by (simp add: evolves_def table_le_def list.rel_eq)
  then have "r \<in> set (admissions L'')" using r(1) by (metis in_set_takeD)
  with r that show thesis by blast
qed

lemma readmission_refused:
  assumes "gate_admit sha g L x first second = (Inr a, L1)" and "evolves L1 L2" and "first' \<noteq> first"
  shows "\<exists>e \<in> {Admit_rejected, Admit_limited Limit_emergency_stop}.
    gate_admit sha' g' L2 x first' second' = (Inl e, L2)"
proof -
  obtain r where r: "r \<in> set (admissions L2)" "ad_action_id r = xp_action_id x"
      "first = Aware 0 (ad_authorized_at r)"
    by (rule admitted_later [OF assms(1,2)])
  then show ?thesis using assms(3) by (intro gate_readmission) auto
qed

text \<open>
  Once the gate has admitted an action, an execution of the same action that starts at another
  reading of the clock, in the same ledger or after any later operations, is refused by the gate: it
  ends without a call of the page, with a receipt that says rejected or stopped. Since the operation
  behind an action command passes the gate and then starts the execution, which passes it again, no
  comment or message is ever executed under a clock that advances.
\<close>

lemma second_admission_refused:
  assumes "gate_admit sha g L (it_expectation it) first second = (Inr a, L1)"
    and "env_ok env" and "ledger_inv L2" and "evolves L1 L2"
    and "en_now env (p, L2) = (now, s1)" and "now \<noteq> Some first"
  shows "\<exists>y. ar_receipt (run_action sha pf g' env orc it (p, L2)) = Some y
    \<and> ar_calls (run_action sha pf g' env orc it (p, L2)) = []
    \<and> rp_state y = Not_dispatched \<and> rp_evidence y \<in> {Admission_rejected, Local_emergency_stop}"
proof -
  let ?x = "it_expectation it"
  obtain adm s2 where admit: "admit_now sha g' env ?x (p, L2) = (adm, s2)"
    by (cases "admit_now sha g' env ?x (p, L2)")
  have s1: "sound L2 (snd s1)" using assms(2,5) keepsD [of sound "en_now env" "(p, L2)" now s1]
    by (simp add: env_ok_def)
  have "\<exists>e \<in> {Admit_rejected, Admit_limited Limit_emergency_stop}. adm = Inl e"
  proof (cases "fst (read_now env (p, L2))")
    case None
    then show ?thesis using admit by (auto simp: admit_now_def split: prod.splits)
  next
    case (Some first')
    have read: "read_now env (p, L2) = (Some first', s1)" and other: "first' \<noteq> first"
      using Some assms(5,6) by (auto simp: read_now_def utc_reading_def bind_eq_Some_conv canonical_utc_Some)
    obtain w s3 where second: "read_now env s1 = (w, s3)" by (cases "read_now env s1")
    have "evolves L1 (snd s3)"
      using assms(3,4) sound_trans [OF s1 read_now_sound [OF assms(2) second]]
      by (auto simp: sound_def intro: evolves_trans)
    then have "\<exists>e \<in> {Admit_rejected, Admit_limited Limit_emergency_stop}.
        gate_admit sha g' (snd s3) ?x first' second' = (Inl e, snd s3)" for second'
      by (rule readmission_refused [OF assms(1) _ other])
    from this [of "the w"] show ?thesis using admit read second
      by (cases w) (auto simp: admit_now_def split: if_splits)
  qed
  then show ?thesis
    using admit by (auto simp: run_action_def Let_def limit_evidence_def receipt_defs)
qed

end
