(* ===== verification/Action_Result.thy ===== *)
theory Action_Result
  imports Action_Execution
begin

text \<open>
  The result of one target of a task: the evidence codes (\<open>protocol/action_result.py\<close>), the visit of
  a profile page (\<open>executor/rpa/douyin/browse.py\<close>), and the fact an execution is reported as
  (\<open>executor/rpa/douyin/action_result.py\<close>).
\<close>

subsection \<open>Evidence codes\<close>

datatype result_evidence =
    Awaiting_execution | Action_pending | Action_in_progress | Profile_visible | Comment_confirmed
  | Message_confirmed | Executor_reported_success | User_excluded | Duplicate_in_task
  | Duplicate_in_history | Blacklisted | Action_cancelled | Evidence_admission_rejected
  | Local_safety_limit | Login_required | Dialog_blocked | Messaging_not_allowed | Follow_required
  | Timed_out | Page_version_unknown | Conflicting_anchors | Page_unavailable
  | Evidence_verification_unavailable | Executor_reported_failure | Dispatch_timed_out
  | Dispatch_unavailable | Final_state_unconfirmed | Recovery_unconfirmed

definition evidence_code :: "result_evidence \<Rightarrow> str" where
  "evidence_code v = (case v of
     Awaiting_execution \<Rightarrow> ''awaiting_execution'' | Action_pending \<Rightarrow> ''action_pending''
   | Action_in_progress \<Rightarrow> ''action_in_progress'' | Profile_visible \<Rightarrow> ''profile_visible''
   | Comment_confirmed \<Rightarrow> ''comment_confirmed'' | Message_confirmed \<Rightarrow> ''message_confirmed''
   | Executor_reported_success \<Rightarrow> ''executor_reported_success'' | User_excluded \<Rightarrow> ''user_excluded''
   | Duplicate_in_task \<Rightarrow> ''duplicate_in_task'' | Duplicate_in_history \<Rightarrow> ''duplicate_in_history''
   | Blacklisted \<Rightarrow> ''blacklisted'' | Action_cancelled \<Rightarrow> ''action_cancelled''
   | Evidence_admission_rejected \<Rightarrow> ''admission_rejected'' | Local_safety_limit \<Rightarrow> ''local_safety_limit''
   | Login_required \<Rightarrow> ''login_required'' | Dialog_blocked \<Rightarrow> ''dialog_blocked''
   | Messaging_not_allowed \<Rightarrow> ''messaging_not_allowed'' | Follow_required \<Rightarrow> ''follow_required''
   | Timed_out \<Rightarrow> ''timed_out'' | Page_version_unknown \<Rightarrow> ''page_version_unknown''
   | Conflicting_anchors \<Rightarrow> ''conflicting_anchors'' | Page_unavailable \<Rightarrow> ''page_unavailable''
   | Evidence_verification_unavailable \<Rightarrow> ''verification_unavailable''
   | Executor_reported_failure \<Rightarrow> ''executor_reported_failure''
   | Dispatch_timed_out \<Rightarrow> ''dispatch_timed_out'' | Dispatch_unavailable \<Rightarrow> ''dispatch_unavailable''
   | Final_state_unconfirmed \<Rightarrow> ''final_state_unconfirmed''
   | Recovery_unconfirmed \<Rightarrow> ''recovery_unconfirmed'')"

definition success_evidence :: "result_evidence set" where
  "success_evidence = {Profile_visible, Comment_confirmed, Message_confirmed, Executor_reported_success}"

definition failed_evidence :: "result_evidence set" where
  "failed_evidence = {Evidence_admission_rejected, Local_safety_limit, Login_required, Dialog_blocked,
     Messaging_not_allowed, Follow_required, Timed_out, Page_version_unknown, Conflicting_anchors,
     Page_unavailable, Evidence_verification_unavailable, Executor_reported_failure}"

definition uncertain_evidence :: "result_evidence set" where
  "uncertain_evidence = {Dispatch_timed_out, Dispatch_unavailable, Final_state_unconfirmed,
     Recovery_unconfirmed}"

definition executor_evidence :: "result_evidence set" where
  "executor_evidence = success_evidence \<union> failed_evidence \<union> uncertain_evidence"

record result_fact =
  rf_action_id :: str
  rf_target_id :: str
  rf_type :: message_type
  rf_evidence :: result_evidence

definition fact_payload :: "result_fact \<Rightarrow> payload" where
  "fact_payload f = P_object [(''action_id'', JStr (rf_action_id f)),
     (''evidence'', JStr (evidence_code (rf_evidence f))), (''evidence_version'', JStr evidence_version)]"

text \<open>The evidence that goes with a message type.\<close>

definition fact_consistent :: "result_fact \<Rightarrow> bool" where
  "fact_consistent f \<longleftrightarrow>
     rf_type f = M_step_completed \<and> rf_evidence f \<in> success_evidence
   \<or> rf_type f = M_step_failed \<and> rf_evidence f \<in> failed_evidence
   \<or> rf_type f = M_task_outcome_uncertain \<and> rf_evidence f \<in> uncertain_evidence"

subsection \<open>Browsing\<close>

datatype browse_state = Browse_completed | Browse_cancelled | Browse_timed_out | Browse_unknown

datatype browse_evidence =
    Browse_profile_visible | Cancellation_requested | Cancellation_unavailable | Navigation_timed_out
  | Browse_version_unknown | Browse_unavailable

record browse_observation =
  bo_state :: browse_state
  bo_evidence :: browse_evidence

definition browse_observation_ok :: "browse_observation \<Rightarrow> bool" where
  "browse_observation_ok ob \<longleftrightarrow> (bo_state ob, bo_evidence ob) \<in> {
     (Browse_completed, Browse_profile_visible), (Browse_cancelled, Cancellation_requested),
     (Browse_timed_out, Navigation_timed_out), (Browse_unknown, Cancellation_unavailable),
     (Browse_unknown, Browse_version_unknown), (Browse_unknown, Browse_unavailable)}"

definition browse_result :: "browse_state \<Rightarrow> browse_evidence \<Rightarrow> browse_observation option" where
  "browse_result st ev = (let ob = \<lparr>bo_state = st, bo_evidence = ev\<rparr> in
     if browse_observation_ok ob then Some ob else None)"

text \<open>
  \<open>page.goto\<close> as the browser and the site answer it; \<open>cancel\<close> is the caller's question, \<open>None\<close> an
  exception or an answer that is no \<open>bool\<close>.
\<close>

datatype goto_answer = Goto_done | Goto_timed_out | Goto_failed

definition browse_skill :: str where
  "browse_skill = ''b4359ce7-fd15-4e56-8a36-4462de3ecb71''"

definition run_browse ::
  "('w \<Rightarrow> bool option \<times> 'w) \<Rightarrow> ('w \<Rightarrow> goto_answer \<times> 'w) \<Rightarrow> orchestrator option \<Rightarrow> 'w page option \<Rightarrow> 'w \<Rightarrow>
   browse_observation option \<times> call list \<times> orchestrator option \<times> 'w" where
  "run_browse cancel goto orc pg w =
     (let cancelled = (\<lambda>w'. (browse_result Browse_cancelled Cancellation_requested, [], orc, w'));
          no_answer = (\<lambda>w'. (browse_result Browse_unknown Cancellation_unavailable, [], orc, w'));
          unavailable = browse_result Browse_unknown Browse_unavailable in
      case cancel w of
        (None, w1) \<Rightarrow> no_answer w1
      | (Some True, w1) \<Rightarrow> cancelled w1
      | (Some False, w1) \<Rightarrow>
          (case goto w1 of
             (Goto_timed_out, w2) \<Rightarrow> (browse_result Browse_timed_out Navigation_timed_out, [], orc, w2)
           | (Goto_failed, w2) \<Rightarrow> (unavailable, [], orc, w2)
           | (Goto_done, w2) \<Rightarrow>
               (case cancel w2 of
                  (None, w3) \<Rightarrow> no_answer w3
                | (Some True, w3) \<Rightarrow> cancelled w3
                | (Some False, w3) \<Rightarrow>
                    (case (orc, pg) of
                       (Some orc0, Some pg0) \<Rightarrow>
                         (case execute orc0 browse_skill pg0 Map.empty None (None :: ('w, unit) hook option) w3 of
                            (Report r, cs, orc1, w4) \<Rightarrow>
                              (case ep_kind r of
                                 Replayed \<Rightarrow> (browse_result Browse_completed Browse_profile_visible, cs, Some orc1, w4)
                               | No_route \<Rightarrow> (browse_result Browse_unknown Browse_version_unknown, cs, Some orc1, w4)
                               | Recovery_pending \<Rightarrow>
                                   (browse_result Browse_unknown Browse_version_unknown, cs, Some orc1, w4)
                               | Reconcile_required \<Rightarrow> (unavailable, cs, Some orc1, w4))
                          | (_, cs, orc1, w4) \<Rightarrow> (unavailable, cs, Some orc1, w4))
                     | _ \<Rightarrow> (unavailable, [], orc, w3)))))"

definition browse_failure :: "browse_evidence \<Rightarrow> result_evidence" where
  "browse_failure v = (case v of
     Navigation_timed_out \<Rightarrow> Timed_out | Browse_version_unknown \<Rightarrow> Page_version_unknown
   | Browse_unavailable \<Rightarrow> Page_unavailable | Cancellation_unavailable \<Rightarrow> Executor_reported_failure
   | Cancellation_requested \<Rightarrow> Executor_reported_failure | Browse_profile_visible \<Rightarrow> Executor_reported_failure)"

definition browse_action_result :: "str \<Rightarrow> str \<Rightarrow> browse_observation \<Rightarrow> result_fact" where
  "browse_action_result action target ob =
     (if bo_state ob = Browse_completed
      then \<lparr>rf_action_id = action, rf_target_id = target, rf_type = M_step_completed, rf_evidence = Profile_visible\<rparr>
      else \<lparr>rf_action_id = action, rf_target_id = target, rf_type = M_step_failed,
             rf_evidence = browse_failure (bo_evidence ob)\<rparr>)"

subsection \<open>Comments and messages\<close>

text \<open>\<open>_COMMENT_FAILURES\<close> and \<open>_DIRECT_FAILURES\<close>, with the default of their lookups.\<close>

definition receipt_failure :: "receipt_evidence \<Rightarrow> result_evidence" where
  "receipt_failure v = (case v of
     Admission_rejected \<Rightarrow> Evidence_admission_rejected
   | Local_emergency_stop \<Rightarrow> Local_safety_limit
   | Local_minimum_interval \<Rightarrow> Local_safety_limit
   | Local_task_action_limit \<Rightarrow> Local_safety_limit
   | Skill_awaiting_recording \<Rightarrow> Page_version_unknown
   | Skill_recovery_pending \<Rightarrow> Page_version_unknown
   | Prepare_unavailable \<Rightarrow> Page_unavailable
   | _ \<Rightarrow> Executor_reported_failure)"

definition uncertain_receipt :: "receipt_evidence \<Rightarrow> result_evidence" where
  "uncertain_receipt v = (if v = Replay_uncertain then Recovery_unconfirmed else Final_state_unconfirmed)"

definition confirmed_evidence :: "exposure_action \<Rightarrow> result_evidence" where
  "confirmed_evidence action = (if action = Comment then Comment_confirmed else Message_confirmed)"

definition receipt_result :: "result_evidence \<Rightarrow> receipt \<Rightarrow> result_fact" where
  "receipt_result confirmed r =
     (let fact = (\<lambda>m v. \<lparr>rf_action_id = rp_action_id r, rf_target_id = rp_target_id r, rf_type = m, rf_evidence = v\<rparr>) in
      case rp_state r of
        Action_verified \<Rightarrow> fact M_step_completed confirmed
      | Outcome_uncertain \<Rightarrow> fact M_task_outcome_uncertain (uncertain_receipt (rp_evidence r))
      | Not_dispatched \<Rightarrow> fact M_step_failed (receipt_failure (rp_evidence r)))"

definition comment_action_result :: "receipt \<Rightarrow> result_fact" where
  "comment_action_result = receipt_result Comment_confirmed"

definition direct_message_action_result :: "receipt \<Rightarrow> result_fact" where
  "direct_message_action_result = receipt_result Message_confirmed"

subsection \<open>Facts\<close>

lemmas evidence_classes = success_evidence_def failed_evidence_def uncertain_evidence_def

lemma browse_failure_failed: "browse_failure v \<in> failed_evidence"
  by (cases v) (simp_all add: browse_failure_def failed_evidence_def)

lemma receipt_failure_failed: "receipt_failure v \<in> failed_evidence"
  by (cases v) (simp_all add: receipt_failure_def failed_evidence_def)

lemma browse_action_consistent: "fact_consistent (browse_action_result action target ob)"
  by (simp add: browse_action_result_def fact_consistent_def browse_failure_failed success_evidence_def)

lemma receipt_result_consistent:
  "confirmed \<in> success_evidence \<Longrightarrow> fact_consistent (receipt_result confirmed r)"
  by (cases "rp_state r") (simp_all add: receipt_result_def Let_def fact_consistent_def
      receipt_failure_failed uncertain_receipt_def uncertain_evidence_def)

lemma receipt_result_fields [simp]:
  "rf_action_id (receipt_result c r) = rp_action_id r" "rf_target_id (receipt_result c r) = rp_target_id r"
  by (cases "rp_state r"; simp add: receipt_result_def Let_def)+

end
