(* ===== verification/Effect_Recovery.thy ===== *)
theory Effect_Recovery
  imports Action_Result
begin

text \<open>
  Reconciling one side effect after a crash or a redelivery
  (\<open>executor/rpa/douyin/side_effect_recovery.py\<close>): the state of the effect in the ledger, and for a
  dispatched one the success evidence of the page, are turned into a receipt; the effect is never
  dispatched again.

  The page is asked whether the success element of the comment or message skill is visible; its
  name is text outside the model's characters, so the question is a parameter of the recovery
  (\<open>rv_confirm\<close>, given the action). No window is \<open>None\<close>.
\<close>

subsection \<open>Receipts\<close>

text \<open>The columns of an effect that come from its admission.\<close>

abbreviation se_target_id :: "side_effect \<Rightarrow> str" where
  "se_target_id e \<equiv> ad_target_id (se_admission e)"

abbreviation se_attempt_id :: "side_effect \<Rightarrow> str" where
  "se_attempt_id e \<equiv> ad_attempt_id (se_admission e)"

abbreviation se_action :: "side_effect \<Rightarrow> exposure_action" where
  "se_action e \<equiv> ad_action (se_admission e)"

datatype recovery_state = Recovery_not_dispatched | Recovery_verified | Recovery_uncertain

datatype recovery_evidence =
    Prepared_not_dispatched | Already_verified | Already_uncertain | Comment_found | Message_found
  | Final_timed_out | Recovery_page_unavailable | Recovery_verification_unavailable

definition unconfirmed_evidence :: "recovery_evidence set" where
  "unconfirmed_evidence = {Final_timed_out, Recovery_page_unavailable, Recovery_verification_unavailable}"

record recovery_receipt =
  rr_action_id :: str
  rr_target_id :: str
  rr_action :: exposure_action
  rr_state :: recovery_state
  rr_evidence :: recovery_evidence
  rr_effect_state :: effect_state
  rr_effect_revision :: int
  rr_replayed :: bool

definition recovery_receipt_ok :: "recovery_receipt \<Rightarrow> bool" where
  "recovery_receipt_ok r \<longleftrightarrow> rr_action r \<in> {Comment, Direct_message} \<and>
    (let prepared = rr_state r = Recovery_not_dispatched \<and> rr_evidence r = Prepared_not_dispatched
           \<and> rr_effect_state r = Prepared \<and> rr_effect_revision r = 1 \<and> \<not> rr_replayed r;
         newly_verified = rr_state r = Recovery_verified \<and> rr_evidence r \<in> {Comment_found, Message_found}
           \<and> rr_effect_state r = Verified \<and> rr_effect_revision r = 3 \<and> \<not> rr_replayed r;
         already_verified = rr_state r = Recovery_verified \<and> rr_evidence r = Already_verified
           \<and> rr_effect_state r = Verified \<and> rr_effect_revision r = 3 \<and> rr_replayed r;
         newly_uncertain = rr_state r = Recovery_uncertain \<and> rr_evidence r \<in> unconfirmed_evidence
           \<and> (rr_effect_state r = Dispatched \<and> rr_effect_revision r = 2
              \<or> rr_effect_state r = Uncertain \<and> rr_effect_revision r = 3) \<and> \<not> rr_replayed r;
         already_uncertain = rr_state r = Recovery_uncertain \<and> rr_evidence r = Already_uncertain
           \<and> rr_effect_state r = Uncertain \<and> rr_effect_revision r = 3 \<and> rr_replayed r in
     prepared \<or> newly_verified \<or> already_verified \<or> newly_uncertain \<or> already_uncertain)"

definition recovery_receipt_for ::
  "side_effect \<Rightarrow> recovery_state \<Rightarrow> recovery_evidence \<Rightarrow> bool \<Rightarrow> recovery_receipt option" where
  "recovery_receipt_for e state evidence replayed =
     (let r = \<lparr>rr_action_id = se_action_id e, rr_target_id = se_target_id e, rr_action = se_action e,
        rr_state = state, rr_evidence = evidence, rr_effect_state = se_state e,
        rr_effect_revision = pg_revision (se_progress e), rr_replayed = replayed\<rparr> in
      if recovery_receipt_ok r then Some r else None)"

text \<open>\<open>None\<close>: no receipt; \<open>Some None\<close>: its constructor raised.\<close>

definition existing_recovery :: "side_effect \<Rightarrow> recovery_receipt option option" where
  "existing_recovery e =
     (if se_state e = Verified then Some (recovery_receipt_for e Recovery_verified Already_verified True)
      else if se_state e = Uncertain
      then Some (recovery_receipt_for e Recovery_uncertain Already_uncertain True)
      else None)"

subsection \<open>The recovery\<close>

record 'p recovery =
  rv_now :: "'p \<times> ledger \<Rightarrow> py_datetime option \<times> ('p \<times> ledger)"
  rv_confirm :: "(exposure_action \<Rightarrow> ('p, bool) act) option"

definition current_effect :: "side_effect \<Rightarrow> ledger \<Rightarrow> side_effect" where
  "current_effect fallback L =
     (case get_side_effect L (se_action_id fallback) of Some (Some e) \<Rightarrow> e | _ \<Rightarrow> fallback)"

definition settle_uncertain ::
  "'p recovery \<Rightarrow> side_effect \<Rightarrow> recovery_evidence \<Rightarrow> ('p, recovery_receipt) act" where
  "settle_uncertain rv e evidence =
     and_then (attempt (and_then (utc_reading (rv_now rv))
         (\<lambda>t. transact (\<lambda>L. mark_side_effect_uncertain L (se_action_id e) (se_fingerprint e) t))))
       (\<lambda>settled. case settled of
          Some u \<Rightarrow> result_of
            (if se_replayed u then Option.bind (existing_recovery u) id
             else recovery_receipt_for u Recovery_uncertain evidence False)
        | None \<Rightarrow> and_then (query (\<lambda>L. Some (current_effect e L)))
            (\<lambda>u. result_of (case existing_recovery u of
               Some r \<Rightarrow> r
             | None \<Rightarrow> recovery_receipt_for u Recovery_uncertain evidence False)))"

definition verify_recovered ::
  "'p recovery \<Rightarrow> side_effect \<Rightarrow> bytes \<Rightarrow> recovery_evidence \<Rightarrow> ('p, recovery_receipt) act" where
  "verify_recovered rv e verification evidence =
     and_then (attempt (and_then (utc_reading (rv_now rv))
         (\<lambda>t. transact (\<lambda>L. verify_side_effect L (se_action_id e) (se_fingerprint e) verification t))))
       (\<lambda>verified. case verified of
          Some v \<Rightarrow> result_of
            (if se_replayed v then recovery_receipt_for v Recovery_verified Already_verified True
             else recovery_receipt_for v Recovery_verified evidence False)
        | None \<Rightarrow> and_then (query (\<lambda>L. Some (current_effect e L)))
            (\<lambda>u. case existing_recovery u of
               Some r \<Rightarrow> result_of r
             | None \<Rightarrow> settle_uncertain rv u Recovery_verification_unavailable))"

text \<open>\<open>_recover_comment\<close> and \<open>_recover_message\<close>, over the profile of the action.\<close>

definition recover_confirmed ::
  "(bytes \<Rightarrow> bytes) \<Rightarrow> 'p recovery \<Rightarrow> (exposure_action \<Rightarrow> ('p, bool) act) \<Rightarrow> side_effect \<Rightarrow>
   profile \<Rightarrow> recovery_evidence \<Rightarrow> ('p, recovery_receipt) act" where
  "recover_confirmed sha rv confirm e pf evidence =
     and_then (attempt (confirm (pf_action pf)))
       (\<lambda>confirmed. case confirmed of
          None \<Rightarrow> settle_uncertain rv e Recovery_page_unavailable
        | Some False \<Rightarrow> settle_uncertain rv e Final_timed_out
        | Some True \<Rightarrow> verify_recovered rv e (verification_fingerprint sha pf (se_fingerprint e)) evidence)"

definition recover_effect ::
  "(bytes \<Rightarrow> bytes) \<Rightarrow> 'p recovery \<Rightarrow> str \<Rightarrow> ('p, recovery_receipt) act" where
  "recover_effect sha rv action_id =
     and_then (query (\<lambda>L. Option.bind (get_side_effect L action_id) id))
       (\<lambda>e. if se_state e = Prepared
             then result_of (recovery_receipt_for e Recovery_not_dispatched Prepared_not_dispatched False)
             else (case existing_recovery e of
               Some r \<Rightarrow> result_of r
             | None \<Rightarrow>
                 (case rv_confirm rv of
                    None \<Rightarrow> settle_uncertain rv e Recovery_page_unavailable
                  | Some confirm \<Rightarrow>
                      (if se_action e = Comment
                       then recover_confirmed sha rv confirm e comment_profile Comment_found
                       else recover_confirmed sha rv confirm e direct_message_profile Message_found))))"

text \<open>\<open>recovered_action_result\<close>: an effect that was never dispatched is no result.\<close>

definition recovered_action_result :: "recovery_receipt \<Rightarrow> result_fact option" where
  "recovered_action_result r =
     (let fact = (\<lambda>m v. \<lparr>rf_action_id = rr_action_id r, rf_target_id = rr_target_id r, rf_type = m, rf_evidence = v\<rparr>) in
      case rr_state r of
        Recovery_not_dispatched \<Rightarrow> None
      | Recovery_verified \<Rightarrow> Some (fact M_step_completed (confirmed_evidence (rr_action r)))
      | Recovery_uncertain \<Rightarrow> Some (fact M_task_outcome_uncertain Recovery_unconfirmed))"

end
