(* ===== verification/Crash_Recovery.thy ===== *)
theory Crash_Recovery
  imports Effect_Recovery
begin

text \<open>
  Reconciliation at the first start after a crash (\<open>executor/crash_recovery.py\<close>): every side effect of
  an open attempt is recovered and its result projected as an event, at most one of them a
  \<open>task.outcome_uncertain\<close>.
\<close>

subsection \<open>Messages the executor builds\<close>

text \<open>
  The executor's messages about a command differ in type, key, sequence and payload; a message is
  built with a reading of the clock and a new identifier, and may fail its validation.
\<close>

definition message_lifetime :: int where
  "message_lifetime = seconds 30"

definition reply_to ::
  "str \<Rightarrow> str \<Rightarrow> envelope \<Rightarrow> message_type \<Rightarrow> str \<Rightarrow> int \<Rightarrow> payload \<Rightarrow> instant \<times> str \<Rightarrow> envelope option" where
  "reply_to inst exec source m key n p stamp = do {
     deadline \<leftarrow> add_delta (fst stamp) message_lifetime;
     require (m \<in> outbound_types);
     model_validate \<lparr>message_id = snd stamp, message_type = m, sent_at = fst stamp, deadline_at = deadline,
       installation_id = inst, executor_id = exec, correlation_id = correlation_id source,
       idempotency_key = key, sequence = n, payload = p, task_id = task_id source,
       execution_attempt_id = execution_attempt_id source\<rparr>
   }"

text \<open>\<open>_new_id\<close>: the source has to give a version 4 UUID.\<close>

definition new_id :: "('p, str) act \<Rightarrow> ('p, str) act" where
  "new_id ids = and_then ids (\<lambda>i. result_of (canonical_uuid_v4 i))"

subsection \<open>The coordinator\<close>

record 'p crash_recovery =
  cr_recovery :: "'p recovery"
  cr_ids :: "('p, str) act"

definition max_recoverable_effects :: int where
  "max_recoverable_effects = 100"

text \<open>\<open>_attempt_id\<close>, the source command and the checkpoint of a fact.\<close>

definition projection_source :: "result_fact \<Rightarrow> ledger \<Rightarrow> (envelope \<times> checkpoint_row) option" where
  "projection_source f L = do {
     found \<leftarrow> get_side_effect L (rf_action_id f);
     e \<leftarrow> found;
     require (se_target_id e = rf_target_id f);
     source \<leftarrow> initial_task_command L (se_attempt_id e);
     p \<leftarrow> get_checkpoint L (execution_attempt_id source);
     checkpoint \<leftarrow> p;
     require (ck_state checkpoint \<in> {CK_running, CK_paused});
     Some (source, checkpoint)
   }"

definition project ::
  "codec \<Rightarrow> 'p crash_recovery \<Rightarrow> result_fact \<Rightarrow> ('p, envelope) act" where
  "project cd cr f =
     and_then (query (projection_source f)) (\<lambda>(source, checkpoint).
     and_then (utc_reading (rv_now (cr_recovery cr))) (\<lambda>now.
     and_then (new_id (cr_ids cr)) (\<lambda>mid.
     and_then (query (\<lambda>L. Option.bind (canonical_utc now) (\<lambda>t.
         reply_to (own_installation_id L) (own_executor_id L) source (rf_type f)
           (recovery_key (rf_action_id f)) (ck_last_event checkpoint + 1) (fact_payload f) (t, mid)))) (\<lambda>event.
     and_then (transact (\<lambda>L. commit_side_effect_recovery cd L (rf_action_id f) (ck_revision checkpoint) event))
       (\<lambda>committed. result_of (if message_type (oe_message committed) \<in> event_types
          then Some (oe_message committed) else None))))))"

text \<open>One effect: an event that is there already, nothing, or a new fact.\<close>

datatype reconciled = Existing envelope | Untouched | Recovered result_fact

definition reconcile_effect ::
  "(bytes \<Rightarrow> bytes) \<Rightarrow> 'p crash_recovery \<Rightarrow> side_effect \<Rightarrow> ('p, reconciled) act" where
  "reconcile_effect sha cr e =
     and_then (query (\<lambda>L. get_side_effect_recovery_event L (se_action_id e))) (\<lambda>existing.
       case existing of
         Some ev \<Rightarrow> result_of (Some (Existing ev))
       | None \<Rightarrow>
           (if se_state e = Prepared then result_of (Some Untouched)
            else and_then (recover_effect sha (cr_recovery cr) (se_action_id e))
              (\<lambda>r. result_of (map_option Recovered (recovered_action_result r)))))"

fun existing_events :: "reconciled list \<Rightarrow> envelope list" where
  "existing_events [] = []"
| "existing_events (Existing ev # rs) = ev # existing_events rs"
| "existing_events (_ # rs) = existing_events rs"

fun recovered_facts :: "reconciled list \<Rightarrow> result_fact list" where
  "recovered_facts [] = []"
| "recovered_facts (Recovered f # rs) = f # recovered_facts rs"
| "recovered_facts (_ # rs) = recovered_facts rs"

definition project_recovered ::
  "codec \<Rightarrow> 'p crash_recovery \<Rightarrow> envelope list \<Rightarrow> result_fact list \<Rightarrow> ('p, envelope list) act" where
  "project_recovered cd cr existing facts =
     (if list_ex (\<lambda>ev. message_type ev = M_task_outcome_uncertain) existing
      then result_of (Some existing)
      else (case List.find (\<lambda>f. rf_type f = M_task_outcome_uncertain) facts of
          Some f \<Rightarrow> and_then (project cd cr f) (\<lambda>ev. result_of (Some (existing @ [ev])))
        | None \<Rightarrow> and_then (collect (project cd cr) facts) (\<lambda>evs. result_of (Some (existing @ evs)))))"

definition run_crash_recovery ::
  "codec \<Rightarrow> (bytes \<Rightarrow> bytes) \<Rightarrow> 'p crash_recovery \<Rightarrow> ('p, envelope list) act" where
  "run_crash_recovery cd sha cr =
     and_then (query (\<lambda>L. list_crash_recovery_side_effects L max_recoverable_effects)) (\<lambda>effects.
     and_then (collect (reconcile_effect sha cr) effects) (\<lambda>rs.
       project_recovered cd cr (existing_events rs) (recovered_facts rs)))"

end
