(* ===== verification/Recovery_Facts.thy ===== *)
theory Recovery_Facts
  imports Crash_Recovery Execution_Facts
begin

text \<open>
  What the recovery of one effect does: it raises only when the effect cannot be read, its receipts
  pass their constructor and say no more than the ledger, and its own ledger calls only settle.
\<close>

subsection \<open>Effects in a ledger\<close>

definition holds_effect :: "ledger \<Rightarrow> str \<Rightarrow> side_effect \<Rightarrow> bool" where
  "holds_effect L k e \<longleftrightarrow> (\<exists>r. sql_lookup ef_action_id k (side_effects L) = Some r
     \<and> read_side_effect L r (se_replayed e) = Some e)"

lemma holds_replayed: "read_side_effect L r b = Some e \<Longrightarrow>
    sql_lookup ef_action_id k (side_effects L) = Some r \<Longrightarrow> holds_effect L k e"
  using read_side_effect_Some by (fastforce simp: holds_effect_def)

lemma holds_get: "get_side_effect L k = Some (Some e) \<Longrightarrow> holds_effect L k e"
  by (auto simp: get_side_effect_def bind_eq_Some_conv canonical_uuid_v4_Some split: option.splits
      intro: holds_replayed)

lemma holds_fields:
  assumes "holds_effect L k e"
  shows "effect_consistent e" and "se_action e \<in> {Comment, Direct_message}" and "se_action_id e = k"
    and "effect_rank L k = state_rank (se_state e)" and "is_canonical_uuid_v4 k"
    and "se_state e = Verified \<Longrightarrow> verified_in L k"
proof -
  from assms obtain r where r: "sql_lookup ef_action_id k (side_effects L) = Some r"
      "read_side_effect L r (se_replayed e) = Some e" by (auto simp: holds_effect_def)
  have key: "ef_action_id r = k" using sql_lookup_SomeD [OF r(1)] by simp
  show "effect_consistent e" by (rule read_consistent [OF r(2)])
  show "se_action_id e = k" using read_side_effect_Some [OF r(2)] key by simp
  show "effect_rank L k = state_rank (se_state e)"
    using r read_side_effect_Some [OF r(2)] by (simp add: effect_rank_def table_rank_def se_state_def)
  show "se_action e \<in> {Comment, Direct_message}" and "is_canonical_uuid_v4 k"
    using r(2) read_side_effect_Some [OF r(2)] key
    by (auto simp: read_side_effect_def make_side_effect_def bind_eq_Some_conv split: if_splits)
  show "se_state e = Verified \<Longrightarrow> verified_in L k" by (rule verified_row [OF r])
qed

lemma holds_later:
  assumes "holds_effect L k e" "holds_effect L' k e'" "evolves L L'"
  shows "se_admission e' = se_admission e \<and> state_rank (se_state e) \<le> state_rank (se_state e')"
proof -
  from assms(1) obtain r where r: "sql_lookup ef_action_id k (side_effects L) = Some r"
      "read_side_effect L r (se_replayed e) = Some e" by (auto simp: holds_effect_def)
  from assms(2) obtain r' where r': "sql_lookup ef_action_id k (side_effects L') = Some r'"
      "read_side_effect L' r' (se_replayed e') = Some e'" by (auto simp: holds_effect_def)
  have key: "ef_action_id r = k" "ef_action_id r' = k"
    using sql_lookup_SomeD [OF r(1)] sql_lookup_SomeD [OF r'(1)] by simp_all
  have "sql_lookup ad_action_id k (admissions L) = Some (se_admission e)"
    and e': "sql_lookup ad_action_id k (admissions L') = Some (se_admission e')"
    using read_side_effect_Some [OF r(2)] read_side_effect_Some [OF r'(2)] key by simp_all
  moreover have "table_le (=) (admissions L) (admissions L')" using assms(3) by (simp add: evolves_def)
  ultimately have "sql_lookup ad_action_id k (admissions L') = Some (se_admission e)"
    using admission_rows.le_lookup by metis
  moreover have "state_rank (se_state e) \<le> state_rank (se_state e')"
    using effect_rank_evolves [OF assms(3), of k] holds_fields(4) [OF assms(1)] holds_fields(4) [OF assms(2)] by simp
  ultimately show ?thesis using e' by simp
qed

lemma advance_holds:
  assumes "advance_effect L k s n f = Some (e, L')"
    and "sql_lookup ef_action_id k (side_effects L) = Some r" "pg_state (ef_progress r) = s"
      "pg_revision (ef_progress r) = n"
  shows "holds_effect L' k e"
proof -
  from assms(1) obtain rows changed where
    rows: "sql_update effect_ok (effect_at k s n) (move_effect f) (side_effects L) = Some rows"
    and changed: "sql_lookup ef_action_id k rows = Some changed"
    and e: "read_side_effect L changed False = Some e" and L': "L' = L\<lparr>side_effects := rows\<rparr>"
    by (auto simp: advance_effect_def bind_eq_Some_conv split: if_splits)
  have "read_side_effect L' changed False = Some e" using e L' by (simp add: read_side_effect_def)
  with changed L' show ?thesis by (auto intro: holds_replayed)
qed

lemma settle_holds:
  assumes "settle_side_effect L k fp target v at = Some (e, L')"
  shows "holds_effect L' k e \<and> se_state e = target \<and> effect_rank L k \<ge> 2"
proof -
  from assms obtain r cur where r: "sql_lookup ef_action_id k (side_effects L) = Some r"
      "read_side_effect L r False = Some cur"
    and target: "target \<in> {Verified, Uncertain}"
    and cases: "se_state cur = target \<and> L' = L \<and> read_side_effect L r True = Some e
      \<or> se_state cur = Dispatched \<and> (\<exists>t. advance_effect L k Dispatched 2 (mark_settled target v t) = Some (e, L'))"
    by (cases target) (auto simp: settle_side_effect_def settle_arguments_ok_def bind_eq_Some_conv
        canonical_uuid_v4_Some split: if_splits)
  have state: "se_state cur = pg_state (ef_progress r)" "progress_ok (ef_progress r)"
    using read_side_effect_Some [OF r(2)] read_side_effect_progress_ok [OF r(2)] by (simp_all add: se_state_def)
  have rank: "effect_rank L k \<ge> 2"
    using cases r(1) state(1) target by (auto simp: effect_rank_def table_rank_def)
  show ?thesis
    using cases
  proof
    assume now: "se_state cur = target \<and> L' = L \<and> read_side_effect L r True = Some e"
    then show ?thesis using r(1) state rank read_side_effect_Some [of L r True e]
      by (auto intro: holds_replayed simp: se_state_def)
  next
    assume dispatched: "se_state cur = Dispatched
      \<and> (\<exists>t. advance_effect L k Dispatched 2 (mark_settled target v t) = Some (e, L'))"
    then show ?thesis
      using advance_holds r(1) state progress_ok_revision(2) rank settle_consistent [OF assms] by fastforce
  qed
qed

subsection \<open>Receipts of a recovery\<close>

definition receipt_about :: "side_effect \<Rightarrow> ledger \<Rightarrow> recovery_receipt \<Rightarrow> bool" where
  "receipt_about e L y \<longleftrightarrow> recovery_receipt_ok y \<and> rr_action_id y = se_action_id e
     \<and> rr_target_id y = se_target_id e \<and> rr_action y = se_action e
     \<and> (rr_state y = Recovery_verified \<longrightarrow> verified_in L (se_action_id e))"

lemmas recovery_receipt_defs =
  recovery_receipt_for_def recovery_receipt_ok_def unconfirmed_evidence_def Let_def receipt_about_def se_action_id_def

lemma receipt_verified:
  assumes "holds_effect L k u" "se_admission u = se_admission e" "se_state u = Verified"
    and "replayed \<longleftrightarrow> evidence = Already_verified" "evidence \<in> {Already_verified, Comment_found, Message_found}"
  shows "\<exists>y. recovery_receipt_for u Recovery_verified evidence replayed = Some y \<and> receipt_about e L y
    \<and> rr_state y = Recovery_verified"
  using assms(2-5) holds_fields(2,3) [OF assms(1), unfolded se_action_id_def] holds_fields(6) [OF assms(1)] consistent_revision(3) [OF holds_fields(1) [OF assms(1)]]
  by (auto simp: recovery_receipt_defs)

lemma receipt_uncertain:
  assumes "effect_consistent u" "se_action u \<in> {Comment, Direct_message}" "se_admission u = se_admission e"
    and "se_state u = Dispatched \<and> \<not> replayed \<or> se_state u = Uncertain"
    and "replayed \<longleftrightarrow> evidence = Already_uncertain" "evidence \<in> insert Already_uncertain unconfirmed_evidence"
  shows "\<exists>y. recovery_receipt_for u Recovery_uncertain evidence replayed = Some y \<and> receipt_about e L y
    \<and> rr_state y = Recovery_uncertain"
  using assms(2-) consistent_revision(2,4) [OF assms(1)] by (auto simp: recovery_receipt_defs)

lemma existing_recovery_about:
  assumes "holds_effect L k u" "se_admission u = se_admission e" "existing_recovery u = Some r"
  shows "\<exists>y. r = Some y \<and> receipt_about e L y \<and> rr_state y \<noteq> Recovery_not_dispatched"
proof (cases "se_state u = Verified")
  case True
  then show ?thesis
    using assms(3) receipt_verified [OF assms(1,2), of True Already_verified] by (auto simp: existing_recovery_def)
next
  case False
  then show ?thesis
    using assms(3) receipt_uncertain [OF holds_fields(1,2) [OF assms(1)] assms(2), of True Already_uncertain L]
    by (auto simp: existing_recovery_def split: if_splits)
qed

lemma receipt_about_later:
  "receipt_about e L y \<Longrightarrow> rr_state y \<noteq> Recovery_verified \<Longrightarrow> receipt_about e L' y"
  by (simp add: receipt_about_def)

text \<open>The effect as it was first read, in any later ledger.\<close>

definition recovering :: "ledger \<Rightarrow> side_effect \<Rightarrow> ledger \<Rightarrow> bool" where
  "recovering L0 e L \<longleftrightarrow> ledger_inv L0 \<and> holds_effect L0 (se_action_id e) e \<and> se_state e = Dispatched \<and> sound L0 L"

lemma recovering_sound: "recovering L0 e L \<Longrightarrow> sound L L' \<Longrightarrow> recovering L0 e L'"
  by (auto simp: recovering_def intro: sound_trans)

lemma recovering_later:
  assumes "recovering L0 e L" "holds_effect L (se_action_id e) u"
  shows "se_admission u = se_admission e \<and> se_state u \<noteq> Prepared"
  using assms holds_later [of L0 "se_action_id e" e L u] by (cases "se_state u") (auto simp: recovering_def sound_def)

lemma current_effect_about:
  assumes "recovering L0 e L" and u: "u = current_effect e L"
  shows "effect_consistent u" "se_action u \<in> {Comment, Direct_message}" "se_admission u = se_admission e"
    "se_state u = Dispatched \<or> holds_effect L (se_action_id e) u \<and> se_state u \<in> {Verified, Uncertain}"
proof -
  have e: "holds_effect L0 (se_action_id e) e" "se_state e = Dispatched" using assms(1) by (simp_all add: recovering_def)
  have "u = e \<or> holds_effect L (se_action_id e) u"
    using u by (auto simp: current_effect_def holds_get split: option.splits)
  then show "effect_consistent u" "se_action u \<in> {Comment, Direct_message}" "se_admission u = se_admission e"
    "se_state u = Dispatched \<or> holds_effect L (se_action_id e) u \<and> se_state u \<in> {Verified, Uncertain}"
    using e holds_fields(1,2) recovering_later [OF assms(1)] by (blast, blast, blast, cases "se_state u", auto)
qed

subsection \<open>Settling\<close>

lemma mark_holds:
  assumes "mark_side_effect_uncertain L k fp t = Some (u, L')"
  shows "holds_effect L' k u" "se_state u = Uncertain" "sound L L'"
  using settle_holds [OF assms [unfolded mark_side_effect_uncertain_def]]
    sound_settle_effect [OF assms [unfolded mark_side_effect_uncertain_def]] by simp_all

lemma verify_holds:
  assumes "verify_side_effect L k fp v t = Some (u, L')"
  shows "holds_effect L' k u" "se_state u = Verified" "sound L L'"
  using settle_holds [OF assms [unfolded verify_side_effect_def]]
    sound_settle_effect [OF assms [unfolded verify_side_effect_def]] by simp_all

lemma keeps_mark: "keeps_ledger (transact (\<lambda>L. mark_side_effect_uncertain L k fp t))"
  by (rule sound_world.keeps_transact) (rule mark_holds(3))

lemma keeps_verify: "keeps_ledger (transact (\<lambda>L. verify_side_effect L k fp v t))"
  by (rule sound_world.keeps_transact) (rule verify_holds(3))

lemma settling_call:
  fixes clock :: "'p \<times> ledger \<Rightarrow> py_datetime option \<times> ('p \<times> ledger)"
  assumes "keeps_ledger clock" and calls: "\<And>t. keeps_ledger (transact (f t) :: ('p, 'a) act)"
    and call: "attempt (and_then (utc_reading clock) (\<lambda>t. transact (f t))) s = (r, s')"
  obtains (returned) t s1 a L where "r = Some (Some a)" "sound (snd s) (snd s1)" "f t (snd s1) = Some (a, L)"
      "s' = (fst s1, L)" "sound (snd s) L"
  | (raised) "r = Some None" "sound (snd s) (snd s')"
proof -
  obtain v s1 where now: "utc_reading clock s = (v, s1)" by (cases "utc_reading clock s")
  have s1: "sound (snd s) (snd s1)" by (rule keepsD [OF keeps_utc_reading [OF assms(1)] now])
  show thesis
  proof (cases v)
    case None
    then show thesis using call now s1 raised by (simp add: attempt_def and_then_def)
  next
    case (Some t)
    show thesis
    proof (cases "f t (snd s1)")
      case None
      then show thesis using call now s1 Some raised by (simp add: attempt_def and_then_def transact_def)
    next
      case found: (Some q)
      obtain a L where q: "q = (a, L)" by (cases q)
      have "transact (f t) s1 = (Some a, (fst s1, L))" using found q by (simp add: transact_def)
      from keepsD [OF calls this] have "sound (snd s1) L" by simp
      then show thesis
        using returned [OF _ s1, of a t L] sound_trans [OF s1] call now Some found q
        by (simp add: attempt_def and_then_def transact_def)
    qed
  qed
qed

lemma settle_uncertain_ends:
  assumes now: "keeps_ledger (rv_now rv)" and e: "recovering L0 e (snd s)"
    and evidence: "evidence \<in> unconfirmed_evidence" and out: "settle_uncertain rv e evidence s = (r, s')"
  shows "sound (snd s) (snd s') \<and> (\<exists>y. r = Some y \<and> receipt_about e (snd s') y \<and> rr_state y \<noteq> Recovery_not_dispatched)"
proof -
  obtain q s1 where call: "attempt (and_then (utc_reading (rv_now rv))
      (\<lambda>t. transact (\<lambda>L. mark_side_effect_uncertain L (se_action_id e) (se_fingerprint e) t))) s = (q, s1)"
    by (metis prod.collapse)
  show ?thesis
  proof (cases rule: settling_call [OF now keeps_mark call, case_names returned raised])
    case (returned t s2 u L)
    note u = mark_holds [OF returned(3)]
    have about: "se_admission u = se_admission e"
      using recovering_later [OF recovering_sound [OF e returned(5)] u(1)] by simp
    have "\<exists>y. (if se_replayed u then Option.bind (existing_recovery u) id
        else recovery_receipt_for u Recovery_uncertain evidence False) = Some y
        \<and> receipt_about e L y \<and> rr_state y \<noteq> Recovery_not_dispatched"
      using u(2) existing_recovery_about [OF u(1) about] evidence
        receipt_uncertain [OF holds_fields(1,2) [OF u(1)] about, of False evidence L]
      by (fastforce simp: existing_recovery_def unconfirmed_evidence_def)
    then show ?thesis
      using out call returned by (auto simp: settle_uncertain_def and_then_def result_of_def)
  next
    case raised
    let ?u = "current_effect e (snd s1)"
    note about = current_effect_about [OF recovering_sound [OF e raised(2)] refl]
    have "\<exists>y. (case existing_recovery ?u of Some r \<Rightarrow> r | None \<Rightarrow> recovery_receipt_for ?u Recovery_uncertain evidence False)
        = Some y \<and> receipt_about e (snd s1) y \<and> rr_state y \<noteq> Recovery_not_dispatched"
      using about(4) existing_recovery_about [OF _ about(3)] evidence
        receipt_uncertain [OF about(1-3), of False evidence "snd s1"]
      by (fastforce simp: existing_recovery_def unconfirmed_evidence_def)
    then show ?thesis
      using out call raised by (auto simp: settle_uncertain_def and_then_def result_of_def query_def)
  qed
qed

definition recovered_well :: "side_effect \<Rightarrow> ledger \<Rightarrow> recovery_receipt option \<times> ('p \<times> ledger) \<Rightarrow> bool" where
  "recovered_well e L out \<longleftrightarrow> sound L (snd (snd out))
     \<and> (\<exists>y. fst out = Some y \<and> receipt_about e (snd (snd out)) y \<and> rr_state y \<noteq> Recovery_not_dispatched)"

lemma settle_uncertain_well:
  assumes "keeps_ledger (rv_now rv)" "recovering L0 e (snd s)" "evidence \<in> unconfirmed_evidence"
  shows "recovered_well e (snd s) (settle_uncertain rv e evidence s)"
  using settle_uncertain_ends [OF assms] by (metis prod.collapse recovered_well_def)

lemma recovered_well_later: "sound L (snd s) \<Longrightarrow> recovered_well e (snd s) out \<Longrightarrow> recovered_well e L out"
  by (auto simp: recovered_well_def intro: sound_trans)

text \<open>The ledger may by now show the effect as settled, with another admission row never.\<close>

lemma settle_again_well:
  assumes "keeps_ledger (rv_now rv)" "recovering L0 e (snd s)" and u: "u = current_effect e (snd s)"
    and "evidence \<in> unconfirmed_evidence" "existing_recovery u = None"
  shows "recovered_well e (snd s) (settle_uncertain rv u evidence s)"
proof -
  note about = current_effect_about [OF assms(2) u]
  have u_state: "se_state u = Dispatched" using about(4) assms(5) by (auto simp: existing_recovery_def)
  have same: "se_action_id u = se_action_id e" using about(3) by (simp add: se_action_id_def)
  have "u = e \<or> holds_effect (snd s) (se_action_id e) u"
    using u by (auto simp: current_effect_def holds_get split: option.splits)
  then have "\<exists>L1. recovering L1 u (snd s)"
    using assms(2) u_state same by (auto simp: recovering_def sound_def)
  then have "recovered_well u (snd s) (settle_uncertain rv u evidence s)"
    using settle_uncertain_well [OF assms(1) _ assms(4)] by blast
  then show ?thesis using about(3) same by (simp add: recovered_well_def receipt_about_def)
qed

lemma verify_recovered_well:
  assumes now: "keeps_ledger (rv_now rv)" and e: "recovering L0 e (snd s)"
    and evidence: "evidence \<in> {Comment_found, Message_found}"
  shows "recovered_well e (snd s) (verify_recovered rv e v evidence s)"
proof -
  obtain q s1 where call: "attempt (and_then (utc_reading (rv_now rv))
      (\<lambda>t. transact (\<lambda>L. verify_side_effect L (se_action_id e) (se_fingerprint e) v t))) s = (q, s1)"
    by (metis prod.collapse)
  show ?thesis
  proof (cases rule: settling_call [OF now keeps_verify call, case_names returned raised])
    case (returned t s2 u L)
    note u = verify_holds [OF returned(3)]
    have about: "se_admission u = se_admission e"
      using recovering_later [OF recovering_sound [OF e returned(5)] u(1)] by simp
    have "\<exists>y. (if se_replayed u then recovery_receipt_for u Recovery_verified Already_verified True
        else recovery_receipt_for u Recovery_verified evidence False) = Some y
        \<and> receipt_about e L y \<and> rr_state y \<noteq> Recovery_not_dispatched"
      using receipt_verified [OF u(1) about u(2), of True Already_verified]
        receipt_verified [OF u(1) about u(2), of False evidence] evidence by (cases "se_replayed u") auto
    then show ?thesis
      using call returned by (auto simp: verify_recovered_def and_then_def result_of_def recovered_well_def)
  next
    case raised
    let ?u = "current_effect e (snd s1)"
    note still = recovering_sound [OF e raised(2)]
    note about = current_effect_about [OF still refl]
    show ?thesis
    proof (cases "existing_recovery ?u")
      case None
      then have "recovered_well e (snd s1) (settle_uncertain rv ?u Recovery_verification_unavailable s1)"
        by (intro settle_again_well [OF now still refl]) (simp_all add: unconfirmed_evidence_def)
      then show ?thesis
        using call raised None recovered_well_later [OF raised(2)]
        by (simp add: verify_recovered_def and_then_def query_def)
    next
      case (Some r)
      then have "holds_effect (snd s1) (se_action_id e) ?u" using about(4) by (auto simp: existing_recovery_def)
      from existing_recovery_about [OF this about(3) Some] show ?thesis
        using call raised Some
        by (auto simp: verify_recovered_def and_then_def query_def result_of_def recovered_well_def)
    qed
  qed
qed

lemma recover_confirmed_well:
  assumes now: "keeps_ledger (rv_now rv)" and confirm: "keeps_ledger (confirm (pf_action pf))"
    and e: "recovering L0 e (snd s)" and evidence: "evidence \<in> {Comment_found, Message_found}"
  shows "recovered_well e (snd s) (recover_confirmed sha rv confirm e pf evidence s)"
proof -
  obtain b s1 where call: "confirm (pf_action pf) s = (b, s1)" by (cases "confirm (pf_action pf) s")
  have s1: "sound (snd s) (snd s1)" by (rule keepsD [OF confirm call])
  note still = recovering_sound [OF e s1]
  have "recovered_well e (snd s1) (case b of
      None \<Rightarrow> settle_uncertain rv e Recovery_page_unavailable s1
    | Some False \<Rightarrow> settle_uncertain rv e Final_timed_out s1
    | Some True \<Rightarrow> verify_recovered rv e (verification_fingerprint sha pf (se_fingerprint e)) evidence s1)"
    using settle_uncertain_well [OF now still] verify_recovered_well [OF now still evidence]
    by (auto simp: unconfirmed_evidence_def split: option.split bool.split)
  then have "recovered_well e (snd s1) (recover_confirmed sha rv confirm e pf evidence s)"
    using call by (simp add: recover_confirmed_def attempt_def and_then_def split: option.splits bool.splits)
  then show ?thesis by (rule recovered_well_later [OF s1])
qed

definition recovery_ok :: "'p recovery \<Rightarrow> bool" where
  "recovery_ok rv \<longleftrightarrow> keeps_ledger (rv_now rv)
     \<and> (case rv_confirm rv of None \<Rightarrow> True | Some confirm \<Rightarrow> (\<forall>a. keeps_ledger (confirm a)))"

text \<open>A recovery raises only when the effect cannot be read, and then changed nothing.\<close>

lemma recover_effect_unknown:
  assumes "\<And>e. get_side_effect (snd s) k \<noteq> Some (Some e)"
  shows "recover_effect sha rv k s = (None, s)"
proof -
  have "Option.bind (get_side_effect (snd s) k) id = None"
    using assms by (cases "get_side_effect (snd s) k") (auto simp: id_def split: option.splits)
  then show ?thesis by (simp add: recover_effect_def and_then_def query_def)
qed

lemma recover_effect_known:
  assumes rv: "recovery_ok rv" and inv: "ledger_inv (snd s)" and known: "get_side_effect (snd s) k = Some (Some e)"
  shows "\<exists>y s'. recover_effect sha rv k s = (Some y, s') \<and> sound (snd s) (snd s') \<and> receipt_about e (snd s') y
    \<and> (rr_state y = Recovery_not_dispatched \<longleftrightarrow> se_state e = Prepared) \<and> (se_state e = Prepared \<longrightarrow> s' = s)"
proof -
  have k: "holds_effect (snd s) k e" by (rule holds_get [OF known])
  note e = holds_fields [OF k]
  have run: "recover_effect sha rv k s = (if se_state e = Prepared
      then (recovery_receipt_for e Recovery_not_dispatched Prepared_not_dispatched False, s)
      else case existing_recovery e of Some r \<Rightarrow> (r, s)
      | None \<Rightarrow> (case rv_confirm rv of None \<Rightarrow> settle_uncertain rv e Recovery_page_unavailable s
        | Some confirm \<Rightarrow> if se_action e = Comment
            then recover_confirmed sha rv confirm e comment_profile Comment_found s
            else recover_confirmed sha rv confirm e direct_message_profile Message_found s))"
    using known by (auto simp: recover_effect_def and_then_def query_def result_of_def split: option.splits)
  show ?thesis
  proof (cases "se_state e = Prepared")
    case True
    then show ?thesis
      using run e(2,3) consistent_revision(1) [OF e(1)] by (auto simp: recovery_receipt_defs)
  next
    case False
    show ?thesis
    proof (cases "existing_recovery e")
      case (Some r)
      then show ?thesis using run False existing_recovery_about [OF k refl Some] by auto
    next
      case None
      then have "se_state e = Dispatched" using False by (cases "se_state e") (auto simp: existing_recovery_def)
      then have "recovering (snd s) e (snd s)" using inv k e(3) by (simp add: recovering_def)
      then have "recovered_well e (snd s) (recover_effect sha rv k s)"
        using False None rv recover_confirmed_well [of rv _ _ "snd s" e s] settle_uncertain_well [of rv "snd s" e s]
        by (auto simp: run recovery_ok_def unconfirmed_evidence_def split: option.splits)
      then show ?thesis using False by (auto simp: recovered_well_def) (metis prod.collapse)
    qed
  qed
qed

end
