(* ===== verification/Recovery_Runs.thy ===== *)
theory Recovery_Runs
  imports Recovery_Facts
begin

text \<open>
  What a whole crash recovery does to the ledger, stated once for every relation between ledgers
  that settling an effect keeps (and, for the projections, that committing a recovery keeps).
\<close>

subsection \<open>Relations a recovery keeps\<close>

locale settling_relation = ledger_relation +
  assumes settle: "settle_side_effect L k fp target v t = Some (u, L') \<Longrightarrow> R L L'"
begin

lemma keeps_settling:
  "keeps R clock \<Longrightarrow> keeps R (and_then (utc_reading clock) (\<lambda>t. transact (\<lambda>L. settle_side_effect L k fp target v t)))"
  by (intro keeps_and_then keeps_utc_reading keeps_transact) (auto intro: settle)

lemma keeps_settle_uncertain: "keeps R (rv_now rv) \<Longrightarrow> keeps R (settle_uncertain rv e v)"
  unfolding settle_uncertain_def mark_side_effect_uncertain_def
  by (intro keeps_and_then keeps_attempt keeps_settling) (auto split: option.splits)

lemma keeps_verify_recovered: "keeps R (rv_now rv) \<Longrightarrow> keeps R (verify_recovered rv e fp v)"
  unfolding verify_recovered_def verify_side_effect_def
  by (intro keeps_and_then keeps_attempt keeps_settling)
    (auto split: option.splits intro!: keeps_and_then keeps_settle_uncertain)

lemma keeps_recover_confirmed:
  "keeps R (rv_now rv) \<Longrightarrow> keeps R (confirm (pf_action pf)) \<Longrightarrow> keeps R (recover_confirmed sha rv confirm e pf v)"
  unfolding recover_confirmed_def
  by (intro keeps_and_then keeps_attempt)
    (auto split: option.splits bool.splits intro: keeps_settle_uncertain keeps_verify_recovered)

lemma keeps_recover_effect:
  assumes "keeps R (rv_now rv)" and "\<And>confirm a. rv_confirm rv = Some confirm \<Longrightarrow> keeps R (confirm a)"
  shows "keeps R (recover_effect sha rv k)"
  unfolding recover_effect_def
  by (intro keeps_and_then)
    (auto split: option.splits intro: keeps_settle_uncertain keeps_recover_confirmed assms)

lemma keeps_reconcile:
  assumes "keeps R (rv_now (cr_recovery cr))"
    and "\<And>confirm a. rv_confirm (cr_recovery cr) = Some confirm \<Longrightarrow> keeps R (confirm a)"
  shows "keeps R (reconcile_effect sha cr e)"
  unfolding reconcile_effect_def
  by (intro keeps_and_then) (auto split: option.splits intro!: keeps_and_then keeps_recover_effect assms)

end

locale recovering_relation = settling_relation +
  assumes commit: "commit_side_effect_recovery cd L k n ev = Some (x, L') \<Longrightarrow> R L L'"
begin

lemma keeps_project:
  assumes "keeps R (rv_now (cr_recovery cr))" "keeps R (cr_ids cr)"
  shows "keeps R (project cd cr f)"
  unfolding project_def new_id_def case_prod_unfold
  by (intro keeps_and_then keeps_utc_reading keeps_query keeps_result keeps_transact assms) (rule commit)

lemma keeps_run_crash_recovery:
  assumes "keeps R (rv_now (cr_recovery cr))" "keeps R (cr_ids cr)"
    and "\<And>confirm a. rv_confirm (cr_recovery cr) = Some confirm \<Longrightarrow> keeps R (confirm a)"
  shows "keeps R (run_crash_recovery cd sha cr)"
proof -
  have "keeps R (project_recovered cd cr evs fs)" for evs fs
    unfolding project_recovered_def
    by (auto split: option.splits intro!: keeps_and_then keeps_project keeps_collect assms)
  then show ?thesis
    unfolding run_crash_recovery_def
    by (intro keeps_and_then keeps_collect keeps_reconcile) (auto intro: assms)
qed

end

interpretation sound_recovery: recovering_relation sound
  by unfold_locales (auto intro: sound_settle_effect sound_commit_recovery)

subsection \<open>No dispatch\<close>

text \<open>No effect that was not dispatched is dispatched.\<close>

definition undispatched :: "ledger \<Rightarrow> ledger \<Rightarrow> bool" where
  "undispatched L L' \<longleftrightarrow> (\<forall>k. effect_rank L k < 2 \<longrightarrow> effect_rank L' k = effect_rank L k)"

text \<open>Only rows of side effects are written.\<close>

definition only_effects :: "ledger \<Rightarrow> ledger \<Rightarrow> bool" where
  "only_effects L L' \<longleftrightarrow> L\<lparr>side_effects := side_effects L'\<rparr> = L'"

lemma settle_effect_only:
  assumes "settle_side_effect L k fp target v t = Some (u, L')"
  shows "only_effects L L' \<and> undispatched L L'"
proof -
  from assms obtain r cur where r: "sql_lookup ef_action_id k (side_effects L) = Some r"
      "read_side_effect L r False = Some cur"
    and cases: "L' = L \<or> se_state cur = Dispatched
      \<and> (\<exists>f. advance_effect L k Dispatched 2 f = Some (u, L'))"
    by (auto simp: settle_side_effect_def bind_eq_Some_conv canonical_uuid_v4_Some split: if_splits)
  from cases show ?thesis
  proof
    assume "L' = L"
    then show ?thesis by (simp add: only_effects_def undispatched_def)
  next
    assume moved: "se_state cur = Dispatched \<and> (\<exists>f. advance_effect L k Dispatched 2 f = Some (u, L'))"
    then obtain f where f: "advance_effect L k Dispatched 2 f = Some (u, L')" by blast
    have state: "pg_state (ef_progress r) = Dispatched" "pg_revision (ef_progress r) = 2"
      using moved read_side_effect_Some [OF r(2)] progress_ok_revision(2) read_side_effect_progress_ok [OF r(2)]
      by (simp_all add: se_state_def)
    note moved = advance_effect_SomeD [OF f r(1) state]
    then have rows: "side_effects L' =
        map (\<lambda>x. if effect_at k Dispatched 2 x then move_effect f x else x) (side_effects L)"
      by (simp add: sql_update_Some)
    have "effect_rank L' j = effect_rank L j" if "effect_rank L j < 2" for j
    proof -
      have "j \<noteq> k" using that r(1) state(1) by (auto simp: effect_rank_def table_rank_def)
      then have "sql_lookup ef_action_id j (side_effects L') = sql_lookup ef_action_id j (side_effects L)"
        by (cases "sql_lookup ef_action_id j (side_effects L)")
          (auto simp: rows sql_lookup_mapped effect_at_def dest: sql_lookup_SomeD)
      then show ?thesis by (simp add: effect_rank_def table_rank_def)
    qed
    then show ?thesis using moved by (simp add: only_effects_def undispatched_def)
  qed
qed

lemma commit_recovery_effects:
  "commit_side_effect_recovery cd L k n ev = Some (x, L') \<Longrightarrow> side_effects L' = side_effects L"
  by (erule commit_side_effect_recovery_cases) (auto simp: insert_outbox_def bind_eq_Some_conv)

interpretation undispatched_recovery: recovering_relation undispatched
proof
  show "undispatched L L" for L by (simp add: undispatched_def)
  show "undispatched A C" if "undispatched A B" "undispatched B C" for A B C
    using that by (metis undispatched_def)
  show "undispatched L L'" if "settle_side_effect L k fp target v t = Some (u, L')" for L k fp target v t u L'
    using settle_effect_only [OF that] by simp
  show "undispatched L L'" if "commit_side_effect_recovery cd L k n ev = Some (x, L')" for cd L k n ev x L'
    using commit_recovery_effects [OF that] by (simp add: undispatched_def effect_rank_def)
qed

interpretation effects_recovery: settling_relation only_effects
proof
  show "only_effects L L" for L by (simp add: only_effects_def)
  show "only_effects A C" if "only_effects A B" "only_effects B C" for A B C
    using that unfolding only_effects_def by (metis ledger.update_convs(6) ledger.select_convs(6) ledger.surjective)
  show "only_effects L L'" if "settle_side_effect L k fp target v t = Some (u, L')" for L k fp target v t u L'
    using settle_effect_only [OF that] by simp
qed

subsection \<open>Undisturbed runs\<close>

text \<open>At the start of the executor nothing else runs yet: clock, identifiers and page leave the ledger alone.\<close>

definition undisturbed :: "'p crash_recovery \<Rightarrow> bool" where
  "undisturbed cr \<longleftrightarrow> keeps (=) (rv_now (cr_recovery cr)) \<and> keeps (=) (cr_ids cr)
     \<and> (case rv_confirm (cr_recovery cr) of None \<Rightarrow> True | Some confirm \<Rightarrow> (\<forall>a. keeps (=) (confirm a)))"

interpretation same_world: ledger_relation "(=)"
  by unfold_locales auto

lemma keeps_same: "keeps (=) f \<Longrightarrow> (\<And>L. R L L) \<Longrightarrow> keeps R f"
  by (simp add: keeps_def)

lemma undisturbed_keeps:
  assumes "undisturbed cr" "\<And>L. R L L"
  shows "keeps R (rv_now (cr_recovery cr))" "keeps R (cr_ids cr)"
    "\<And>confirm a. rv_confirm (cr_recovery cr) = Some confirm \<Longrightarrow> keeps R (confirm a)"
  using assms by (auto simp: undisturbed_def intro: keeps_same)

end
