(* ===== verification/Recovery_Properties.thy ===== *)
theory Recovery_Properties
  imports Recovery_Runs Outcome_Properties
begin

text \<open>
  Properties of the recovery of one effect and of the reconciliation after a crash: when it raises,
  what it reports and records, and that nothing is dispatched again.
\<close>

subsection \<open>One effect\<close>

text \<open>
  Recovering an effect raises exactly when the ledger has no readable effect of that action,
  and then nothing happened. Otherwise it always ends with a receipt its constructor accepts, which
  names the action, its target and its kind, whatever the clock, the page and other threads do; a
  prepared effect is reported as not dispatched and nothing is touched; ``verified'' is said only
  if the ledger holds the effect as verified.
\<close>

lemma effect_recovery_exact:
  assumes "recovery_ok rv" and "ledger_inv (snd s)"
  shows "case get_side_effect (snd s) k of
      Some (Some e) \<Rightarrow> \<exists>y s'. recover_effect sha rv k s = (Some y, s') \<and> sound (snd s) (snd s')
        \<and> receipt_about e (snd s') y \<and> (rr_state y = Recovery_not_dispatched \<longleftrightarrow> se_state e = Prepared)
        \<and> (se_state e = Prepared \<longrightarrow> s' = s)
    | _ \<Rightarrow> recover_effect sha rv k s = (None, s)"
  using recover_effect_known [OF assms, of k] recover_effect_unknown [of s k sha rv]
  by (auto split: option.split)

definition idle_recovery :: "unit recovery" where
  "idle_recovery = \<lparr>rv_now = (\<lambda>s. (Some (at_second 200), s)), rv_confirm = None\<rparr>"

lemma idle_recovery_ok: "recovery_ok idle_recovery"
  by (simp add: recovery_ok_def idle_recovery_def keeps_def)

lemma effect_recovery_exact_witness:
  "recover_effect (\<lambda>_. fingerprint_b) idle_recovery the_target ((), prepared_ledger) = (None, ((), prepared_ledger))"
proof -
  have "get_side_effect prepared_ledger the_target = Some None"
    by (simp add: get_side_effect_def prepared_ledger effect_row_in_def sample_defs)
  then show ?thesis
    using effect_recovery_exact [where s = "((), prepared_ledger)" and k = the_target
        and sha = "\<lambda>_. fingerprint_b", OF idle_recovery_ok] sample_ledgers_inv(2) by simp
qed

subsection \<open>The reconciled effects\<close>

abbreviation recorded_event :: "ledger \<Rightarrow> side_effect \<Rightarrow> envelope option option" where
  "recorded_event L e \<equiv> get_side_effect_recovery_event L (se_action_id e)"

definition recorded_events :: "ledger \<Rightarrow> side_effect list \<Rightarrow> envelope list" where
  "recorded_events L es = List.map_filter (\<lambda>e. Option.bind (recorded_event L e) id) es"

definition unrecorded :: "ledger \<Rightarrow> side_effect \<Rightarrow> bool" where
  "unrecorded L e \<longleftrightarrow> recorded_event L e = Some None \<and> se_state e \<noteq> Prepared"

definition reconciled_as :: "ledger \<Rightarrow> side_effect \<Rightarrow> reconciled \<Rightarrow> bool" where
  "reconciled_as L e q \<longleftrightarrow> (case q of
     Existing ev \<Rightarrow> recorded_event L e = Some (Some ev)
   | Untouched \<Rightarrow> recorded_event L e = Some None \<and> se_state e = Prepared
   | Recovered f \<Rightarrow> unrecorded L e \<and> rf_action_id f = se_action_id e
       \<and> rf_type f \<in> {M_step_completed, M_task_outcome_uncertain})"

lemma undisturbed_recovery_ok: "undisturbed cr \<Longrightarrow> recovery_ok (cr_recovery cr)"
  using undisturbed_keeps [of cr sound] by (auto simp: recovery_ok_def split: option.split)

lemma only_effects_frame:
  assumes "only_effects L L'"
  shows "outbox L' = outbox L" "checkpoints L' = checkpoints L" "commands L' = commands L"
    "admissions L' = admissions L"
  using assms unfolding only_effects_def
  by (metis ledger.select_convs ledger.surjective ledger.update_convs(6))+

lemma event_same_outbox:
  "outbox L' = outbox L \<Longrightarrow> get_side_effect_recovery_event L' k = get_side_effect_recovery_event L k"
  by (simp add: get_side_effect_recovery_event_def recovery_row_def)

lemma reconcile_effect_as:
  assumes "undisturbed cr" "ledger_inv (snd s)" "reconcile_effect sha cr e s = (Some q, s')"
  shows "reconciled_as (snd s) e q"
proof -
  from assms(3) obtain existing where existing: "recorded_event (snd s) e = Some existing"
    and rest: "(case existing of Some ev \<Rightarrow> result_of (Some (Existing ev))
      | None \<Rightarrow> (if se_state e = Prepared then result_of (Some Untouched)
          else and_then (recover_effect sha (cr_recovery cr) (se_action_id e))
            (\<lambda>r. result_of (map_option Recovered (recovered_action_result r))))) s = (Some q, s')"
    by (auto simp: reconcile_effect_def and_then_Some)
  show ?thesis
  proof (cases "existing = None \<and> se_state e \<noteq> Prepared")
    case True
    then obtain r f s1 where r: "recover_effect sha (cr_recovery cr) (se_action_id e) s = (Some r, s1)"
      and f: "recovered_action_result r = Some f" and q: "q = Recovered f"
      using rest by (auto simp: and_then_Some)
    then obtain e' where "get_side_effect (snd s) (se_action_id e) = Some (Some e')"
      using recover_effect_unknown [of s "se_action_id e" sha "cr_recovery cr"] by fastforce
    from recover_effect_known [OF undisturbed_recovery_ok [OF assms(1)] assms(2) this, of sha] r
    have "rr_action_id r = se_action_id e" using holds_fields(3) [OF holds_get] \<open>get_side_effect _ _ = _\<close>
      by (auto simp: receipt_about_def)
    then have "rf_action_id f = se_action_id e \<and> rf_type f \<in> {M_step_completed, M_task_outcome_uncertain}"
      using f by (cases "rr_state r") (auto simp: recovered_action_result_def Let_def)
    then show ?thesis using True existing q by (simp add: reconciled_as_def unrecorded_def)
  next
    case False
    then show ?thesis using existing rest by (auto simp: reconciled_as_def split: option.splits if_splits)
  qed
qed

lemma reconcile_all:
  assumes "undisturbed cr"
  shows "ledger_inv (snd s) \<Longrightarrow> only_effects L (snd s) \<Longrightarrow> collect (reconcile_effect sha cr) es s = (Some rs, s') \<Longrightarrow>
    list_all2 (reconciled_as L) es rs \<and> only_effects L (snd s') \<and> ledger_inv (snd s')"
proof (induction es arbitrary: s rs)
  case (Cons e es)
  then obtain q s1 rs' where q: "reconcile_effect sha cr e s = (Some q, s1)"
    and rs': "collect (reconcile_effect sha cr) es s1 = (Some rs', s')" and rs: "rs = q # rs'"
    by (auto simp: and_then_Some)
  note R = undisturbed_keeps [OF assms]
  have "sound (snd s) (snd s1)"
    by (rule keepsD [OF sound_recovery.keeps_reconcile q]) (auto intro: R)
  moreover have "only_effects (snd s) (snd s1)"
    by (rule keepsD [OF effects_recovery.keeps_reconcile q]) (auto intro: R simp: only_effects_def)
  ultimately have s1: "ledger_inv (snd s1)" "only_effects L (snd s1)"
    using Cons.prems(1,2) effects_recovery.trans by (auto simp: sound_def)
  have "reconciled_as (snd s) e q" by (rule reconcile_effect_as [OF assms Cons.prems(1) q])
  then have "reconciled_as L e q"
    using event_same_outbox [OF only_effects_frame(1) [OF Cons.prems(2)]]
    by (simp add: reconciled_as_def unrecorded_def split: reconciled.splits)
  with Cons.IH [OF s1 rs'] show ?case by (simp add: rs)
qed simp

lemma reconciled_events: "list_all2 (reconciled_as L) es rs \<Longrightarrow> existing_events rs = recorded_events L es"
proof (induction rule: list_all2_induct)
  case (Cons e es q rs)
  then show ?case
    by (cases q) (auto simp: reconciled_as_def recorded_events_def unrecorded_def map_filter_simps)
qed (simp add: recorded_events_def map_filter_simps)

lemma reconciled_facts:
  "list_all2 (reconciled_as L) es rs \<Longrightarrow>
     map rf_action_id (recovered_facts rs) = map se_action_id (filter (unrecorded L) es)
     \<and> (\<forall>f \<in> set (recovered_facts rs). rf_type f \<in> {M_step_completed, M_task_outcome_uncertain})"
proof (induction rule: list_all2_induct)
  case (Cons e es q rs)
  then show ?case by (cases q) (auto simp: reconciled_as_def unrecorded_def)
qed simp

subsection \<open>Projections\<close>

lemma unrecorded_row: "recorded_event L e = Some None \<Longrightarrow> recovery_row L (se_action_id e) = None"
  by (auto simp: get_side_effect_recovery_event_def bind_eq_Some_conv canonical_uuid_v4_Some
      split: option.splits if_splits)

lemma commit_recovery_fresh:
  "recovery_row L k = None \<Longrightarrow> commit_side_effect_recovery cd L k n ev = Some (x, L') \<Longrightarrow>
     \<not> oe_replayed x \<and> oe_message x = ev"
  by (auto simp: commit_side_effect_recovery_def bind_eq_Some_conv canonical_uuid_v4_Some Let_def
      split: if_splits option.splits)

lemma undisturbed_stamp:
  assumes "undisturbed cr"
  shows "utc_reading (rv_now (cr_recovery cr)) s = (v, s1) \<Longrightarrow> snd s1 = snd s"
    and "new_id (cr_ids cr) s = (i, s1) \<Longrightarrow> snd s1 = snd s"
proof -
  have "keeps (=) (utc_reading (rv_now (cr_recovery cr)))"
    using assms by (auto simp: undisturbed_def)
  then show "utc_reading (rv_now (cr_recovery cr)) s = (v, s1) \<Longrightarrow> snd s1 = snd s"
    by (auto dest: keepsD)
  have "keeps (=) (new_id (cr_ids cr))"
    using assms unfolding new_id_def undisturbed_def by (intro same_world.keeps_and_then) auto
  then show "new_id (cr_ids cr) s = (i, s1) \<Longrightarrow> snd s1 = snd s" by (auto dest: keepsD)
qed

text \<open>What a projection that returns did, when the effect had no event yet.\<close>

lemma project_Some:
  assumes "undisturbed cr" "recovery_row (snd s) (rf_action_id f) = None"
    and "project cd cr f s = (Some ev, s')"
  obtains n x where "commit_side_effect_recovery cd (snd s) (rf_action_id f) n ev = Some (x, snd s')"
    "\<not> oe_replayed x" "message_type ev = rf_type f" "idempotency_key ev = recovery_key (rf_action_id f)"
proof -
  from assms(3) obtain q s0 now s1 mid s2 event s3 x s4 where
    source: "query (projection_source f) s = (Some q, s0)"
    and now: "utc_reading (rv_now (cr_recovery cr)) s0 = (Some now, s1)"
    and mid: "new_id (cr_ids cr) s1 = (Some mid, s2)"
    and event: "query (\<lambda>L. Option.bind (canonical_utc now) (\<lambda>t.
        reply_to (own_installation_id L) (own_executor_id L) (fst q) (rf_type f)
          (recovery_key (rf_action_id f)) (ck_last_event (snd q) + 1) (fact_payload f) (t, mid))) s2 = (Some event, s3)"
    and commit: "transact (\<lambda>L. commit_side_effect_recovery cd L (rf_action_id f) (ck_revision (snd q)) event) s3
        = (Some x, s4)"
    and returned: "result_of (if message_type (oe_message x) \<in> event_types
        then Some (oe_message x) else None) s4 = (Some ev, s')"
    unfolding project_def case_prod_unfold and_then_Some by blast
  have L: "snd s3 = snd s" using undisturbed_stamp [OF assms(1)] source now mid event by simp
  from commit L have commit: "commit_side_effect_recovery cd (snd s) (rf_action_id f) (ck_revision (snd q)) event
      = Some (x, snd s4)" by (auto simp: transact_Some)
  note fresh = commit_recovery_fresh [OF assms(2) commit]
  have "message_type event = rf_type f \<and> idempotency_key event = recovery_key (rf_action_id f)"
    using event by (auto simp: reply_to_def bind_eq_Some_conv model_validate_Some split: if_splits)
  then show thesis using that commit fresh returned by (auto split: if_splits)
qed

lemma project_commits:
  assumes "undisturbed cr" "ledger_inv (snd s)" "recovery_row (snd s) (rf_action_id f) = None"
    and "project cd cr f s = (Some ev, s')"
  shows "message_type ev = rf_type f \<and> idempotency_key ev = recovery_key (rf_action_id f)
    \<and> (\<exists>row. outbox (snd s') = outbox (snd s) @ [row] \<and> ob_envelope row = ev
         \<and> ob_idempotency_key row = recovery_key (rf_action_id f))
    \<and> (\<exists>a p. sql_lookup ad_action_id (rf_action_id f) (admissions (snd s)) = Some a
         \<and> sql_lookup ck_attempt_id (ad_attempt_id a) (checkpoints (snd s)) = Some p
         \<and> ck_state p \<in> {CK_running, CK_paused})"
proof -
  from project_Some [OF assms(1,3,4)] obtain n x where
    commit: "commit_side_effect_recovery cd (snd s) (rf_action_id f) n ev = Some (x, snd s')"
    and x: "\<not> oe_replayed x" and ev: "message_type ev = rf_type f" "idempotency_key ev = recovery_key (rf_action_id f)" .
  have "outbox (snd s') = outbox (snd s) @ [outbox_row_of cd ev (oe_source x) (next_ordinal (outbox (snd s)))]"
    using recovery_projection [OF assms(2) commit x, of 1] by auto
  then show ?thesis
    using recovery_projection [OF assms(2) commit x, of 1] ev by (auto simp: outbox_row_of_def)
qed

lemma recovery_row_append:
  "recovery_row (L\<lparr>outbox := rows\<rparr>) k = List.find (\<lambda>r. ob_idempotency_key r = recovery_key k) rows"
  by (simp add: recovery_row_def)

lemma project_all:
  assumes "undisturbed cr"
  shows "ledger_inv (snd s) \<Longrightarrow> distinct (map rf_action_id fs) \<Longrightarrow>
    (\<forall>f \<in> set fs. recovery_row (snd s) (rf_action_id f) = None) \<Longrightarrow>
    collect (project cd cr) fs s = (Some evs, s') \<Longrightarrow>
    map message_type evs = map rf_type fs
    \<and> (\<exists>rows. outbox (snd s') = outbox (snd s) @ rows \<and> map ob_envelope rows = evs)"
proof (induction fs arbitrary: s evs)
  case (Cons f fs)
  then obtain ev s1 evs' where ev: "project cd cr f s = (Some ev, s1)"
    and evs': "collect (project cd cr) fs s1 = (Some evs', s')" and evs: "evs = ev # evs'"
    by (auto simp: and_then_Some)
  have "recovery_row (snd s) (rf_action_id f) = None" using Cons.prems(3) by simp
  note one = project_commits [OF assms Cons.prems(1) this ev]
  then obtain row where row: "outbox (snd s1) = outbox (snd s) @ [row]" "ob_envelope row = ev"
      "ob_idempotency_key row = recovery_key (rf_action_id f)" by blast
  have "sound (snd s) (snd s1)"
    by (rule keepsD [OF sound_recovery.keeps_project ev]) (auto intro: undisturbed_keeps [OF assms])
  then have inv: "ledger_inv (snd s1)" using Cons.prems(1) by (simp add: sound_def)
  have "\<forall>g \<in> set fs. recovery_row (snd s1) (rf_action_id g) = None"
    using Cons.prems(2,3) row by (auto simp: recovery_row_def find_append recovery_key_def split: option.splits)
  then obtain rows where "map message_type evs' = map rf_type fs" "outbox (snd s') = outbox (snd s1) @ rows"
      "map ob_envelope rows = evs'"
    using Cons.IH [OF inv _ _ evs'] Cons.prems(2) by auto
  then show ?case using row one evs by (intro conjI exI [of _ "row # rows"]) simp_all
qed auto

subsection \<open>A crash recovery\<close>

text \<open>
  C17. A crash recovery never dispatches: whatever it returns or raises, an effect that had not been
  dispatched before is as it was, and the ledger keeps its invariant.
\<close>

theorem crash_recovery_never_dispatches:
  assumes "undisturbed cr" and "ledger_inv L" and "run_crash_recovery cd sha cr (p, L) = (r, (p', L'))"
  shows "undispatched L L' \<and> ledger_inv L' \<and> evolves L L'"
proof -
  note R = undisturbed_keeps [OF assms(1)]
  have "keeps sound (run_crash_recovery cd sha cr)" and "keeps undispatched (run_crash_recovery cd sha cr)"
    by (rule sound_recovery.keeps_run_crash_recovery undispatched_recovery.keeps_run_crash_recovery;
      auto intro: R simp: undispatched_def)+
  from keepsD [OF this(1) assms(3)] keepsD [OF this(2) assms(3)] show ?thesis
    using assms(2) by (simp add: sound_def)
qed

definition idle_crash :: "unit crash_recovery" where
  "idle_crash = \<lparr>cr_recovery = idle_recovery, cr_ids = (\<lambda>s. (Some (uuid CHR ''e''), s))\<rparr>"

lemma idle_undisturbed: "undisturbed idle_crash"
  by (simp add: undisturbed_def idle_crash_def idle_recovery_def keeps_def)

theorem crash_recovery_never_dispatches_witness:
  "undispatched dispatched_ledger
    (snd (snd (run_crash_recovery sample_codec (\<lambda>_. fingerprint_b) idle_crash ((), dispatched_ledger))))"
proof -
  obtain r p' L' where run: "run_crash_recovery sample_codec (\<lambda>_. fingerprint_b) idle_crash ((), dispatched_ledger)
      = (r, (p', L'))" by (metis prod.collapse)
  from crash_recovery_never_dispatches [OF idle_undisturbed sample_ledgers_inv(3) run] run show ?thesis by simp
qed

lemma read_all_Some:
  "read_all f rs = Some vs \<Longrightarrow> list_all2 (\<lambda>r v. f r = Some v) rs vs"
  by (induction rs arbitrary: vs) (auto simp: bind_eq_Some_conv)

lemma effect_ids_distinct: "sql_wf effect_ok effect_clash rows \<Longrightarrow> distinct (map ef_action_id rows)"
  by (induction rows) (auto simp: sql_wf_def effect_clash_def)

lemma listed_effects:
  assumes "ledger_inv L" "list_crash_recovery_side_effects L n = Some es"
  shows "distinct (map se_action_id es)" and "\<And>e. e \<in> set es \<Longrightarrow>
    sql_lookup ad_action_id (se_action_id e) (admissions L) = Some (se_admission e)"
proof -
  from assms(2) obtain P where all: "list_all2 (\<lambda>r e. read_side_effect L r False = Some e)
      (take (nat n) (effect_order (filter P (side_effects L)))) es"
    by (auto simp: list_crash_recovery_side_effects_def dest: read_all_Some split: if_splits)
  let ?rows = "take (nat n) (effect_order (filter P (side_effects L)))"
  have "map ef_action_id ?rows = map se_action_id es"
    using all by (rule list_all2_induct) (auto dest: read_side_effect_Some)
  moreover have "distinct (map ef_action_id (side_effects L))"
    using assms(1) by (intro effect_ids_distinct) (simp add: inv_defs)
  then have "distinct (map ef_action_id ?rows)"
    by (auto simp: effect_order_def distinct_map dest: in_set_takeD elim!: inj_on_subset)
  ultimately show "distinct (map se_action_id es)" by simp
  show "sql_lookup ad_action_id (se_action_id e) (admissions L) = Some (se_admission e)" if "e \<in> set es" for e
  proof -
    obtain i where "i < length es" "e = es ! i" using \<open>e \<in> set es\<close> by (metis in_set_conv_nth)
    then have "read_side_effect L (?rows ! i) False = Some e" using list_all2_nthD2 [OF all] by simp
    from read_side_effect_Some [OF this] show ?thesis by simp
  qed
qed

definition crash_effects :: "ledger \<Rightarrow> side_effect list option" where
  "crash_effects L = list_crash_recovery_side_effects L max_recoverable_effects"

lemma crash_recovery_steps:
  assumes "undisturbed cr" "ledger_inv L" "crash_effects L = Some es"
    and "run_crash_recovery cd sha cr (p, L) = (Some evs, s')"
  obtains s1 fs where "only_effects L (snd s1)" "ledger_inv (snd s1)"
    "map rf_action_id fs = map se_action_id (filter (unrecorded L) es)"
    "\<forall>f \<in> set fs. rf_type f \<in> {M_step_completed, M_task_outcome_uncertain}"
    "\<forall>f \<in> set fs. recovery_row (snd s1) (rf_action_id f) = None" "distinct (map rf_action_id fs)"
    "project_recovered cd cr (recorded_events L es) fs s1 = (Some evs, s')"
proof -
  from assms(3,4) obtain rs s1 where rs: "collect (reconcile_effect sha cr) es (p, L) = (Some rs, s1)"
    and rest: "project_recovered cd cr (existing_events rs) (recovered_facts rs) s1 = (Some evs, s')"
    by (auto simp: run_crash_recovery_def crash_effects_def and_then_Some)
  have "list_all2 (reconciled_as L) es rs \<and> only_effects L (snd s1) \<and> ledger_inv (snd s1)"
    by (rule reconcile_all [OF assms(1) _ _ rs]) (simp_all add: assms(2) only_effects_def)
  note all = this reconciled_facts [OF conjunct1 [OF this]] reconciled_events [OF conjunct1 [OF this]]
  have "distinct (map se_action_id es)"
    using listed_effects [OF assms(2)] assms(3) by (simp add: crash_effects_def)
  then have "distinct (map rf_action_id (recovered_facts rs))"
    using all(2) by (simp add: distinct_map_filter)
  moreover have "recovery_row (snd s1) (rf_action_id f) = None" if "f \<in> set (recovered_facts rs)" for f
  proof -
    have "rf_action_id f \<in> set (map se_action_id (filter (unrecorded L) es))"
      using that all(2) by (metis image_eqI set_map)
    then obtain e where "recorded_event L e = Some None" "rf_action_id f = se_action_id e"
      by (auto simp: unrecorded_def)
    then show ?thesis using unrecorded_row [of L e] all(1) only_effects_frame(1) [of L "snd s1"]
      by (simp add: recovery_row_def)
  qed
  ultimately show thesis using that [of s1 "recovered_facts rs"] all rest by simp
qed

text \<open>
  C18. What a crash recovery that returns reports: the recovery events the outbox had already for the
  effects of the open attempts, followed by new ones, and exactly the new ones are appended to the
  outbox, in that order. The new ones are ``completed'' events, or a single ``outcome uncertain''
  event; there is none if an ``outcome uncertain'' event had been recorded before.
\<close>

theorem crash_recovery_reports:
  assumes "undisturbed cr" and "ledger_inv L" and "crash_effects L = Some es"
    and "run_crash_recovery cd sha cr (p, L) = (Some evs, (p', L'))"
  shows "\<exists>fresh rows. evs = recorded_events L es @ fresh
    \<and> outbox L' = outbox L @ rows \<and> map ob_envelope rows = fresh
    \<and> (list_all (\<lambda>ev. message_type ev = M_step_completed) fresh
       \<or> (\<exists>ev. fresh = [ev] \<and> message_type ev = M_task_outcome_uncertain))
    \<and> (list_ex (\<lambda>ev. message_type ev = M_task_outcome_uncertain) (recorded_events L es) \<longrightarrow> fresh = [])"
proof -
  obtain s1 fs where s1: "only_effects L (snd s1)" "ledger_inv (snd s1)"
    and "map rf_action_id fs = map se_action_id (filter (unrecorded L) es)"
    and types: "\<forall>f \<in> set fs. rf_type f \<in> {M_step_completed, M_task_outcome_uncertain}"
    and fresh: "\<forall>f \<in> set fs. recovery_row (snd s1) (rf_action_id f) = None" "distinct (map rf_action_id fs)"
    and rest: "project_recovered cd cr (recorded_events L es) fs s1 = (Some evs, (p', L'))"
    by (rule crash_recovery_steps [OF assms])
  note outbox = only_effects_frame(1) [OF s1(1)]
  let ?uncertain = "list_ex (\<lambda>ev. message_type ev = M_task_outcome_uncertain) (recorded_events L es)"
  show ?thesis
  proof (cases ?uncertain)
    case True
    then show ?thesis using rest outbox by (auto simp: project_recovered_def)
  next
    case False
    show ?thesis
    proof (cases "List.find (\<lambda>f. rf_type f = M_task_outcome_uncertain) fs")
      case None
      with False rest obtain new where new: "collect (project cd cr) fs s1 = (Some new, (p', L'))"
        and evs: "evs = recorded_events L es @ new" by (auto simp: project_recovered_def and_then_Some)
      have "list_all (\<lambda>m. m = M_step_completed) (map rf_type fs)"
        using None types by (auto simp: find_None_all list_all_iff)
      then have "list_all (\<lambda>ev. message_type ev = M_step_completed) new"
        using project_all [OF assms(1) s1(2) fresh(2,1) new]
        by (metis (mono_tags, lifting) list.pred_map list.pred_cong comp_apply)
      moreover obtain rows where "outbox L' = outbox L @ rows" "map ob_envelope rows = new"
        using project_all [OF assms(1) s1(2) fresh(2,1) new] outbox by auto
      ultimately show ?thesis using False evs by blast
    next
      case (Some f)
      note f = find_Some_set [OF Some]
      with False rest Some obtain ev where ev: "project cd cr f s1 = (Some ev, (p', L'))"
        and evs: "evs = recorded_events L es @ [ev]" by (auto simp: project_recovered_def and_then_Some)
      have "recovery_row (snd s1) (rf_action_id f) = None" using f fresh(1) by blast
      note sent = project_commits [OF assms(1) s1(2) this ev]
      then obtain row where "outbox L' = outbox L @ [row]" "ob_envelope row = ev" using outbox by auto
      then show ?thesis
        using f sent False evs by (intro exI [of _ "[ev]"] exI [of _ "[row]"]) simp
    qed
  qed
qed

lemma prepared_crash_effects:
  "\<exists>e. crash_effects prepared_ledger = Some [e] \<and> se_state e = Prepared \<and> se_action_id e = the_action"
  by (simp add: crash_effects_def list_crash_recovery_side_effects_def max_recoverable_effects_def
      max_unresolved_side_effects_def effect_order_def effect_attempt_def prepared_ledger running_ledger
      action_checkpoint_def admitted_row_def admission_of_claims_def effect_row_in_def read_side_effect_def
      make_side_effect_def progress_ok_def new_progress_def fingerprint_b_def se_state_def se_action_id_def
      seconds_def sample_defs)

lemma prepared_recorded: "get_side_effect_recovery_event prepared_ledger the_action = Some None"
  by (simp add: get_side_effect_recovery_event_def recovery_row_def recovery_key_def prepared_ledger
      running_ledger sample_defs outbox_row_of_def)

theorem crash_recovery_reports_witness:
  "\<exists>es evs L'. crash_effects prepared_ledger = Some es
    \<and> run_crash_recovery sample_codec (\<lambda>_. fingerprint_b) idle_crash ((), prepared_ledger) = (Some evs, ((), L'))
    \<and> evs = recorded_events prepared_ledger es @ evs \<and> outbox L' = outbox prepared_ledger"
proof -
  obtain e where e: "crash_effects prepared_ledger = Some [e]" "se_state e = Prepared" "se_action_id e = the_action"
    using prepared_crash_effects by blast
  have run: "run_crash_recovery sample_codec (\<lambda>_. fingerprint_b) idle_crash ((), prepared_ledger)
      = (Some [], ((), prepared_ledger))"
    using e prepared_recorded
    by (simp add: run_crash_recovery_def crash_effects_def reconcile_effect_def and_then_def query_def
        result_of_def project_recovered_def)
  from crash_recovery_reports [OF idle_undisturbed sample_ledgers_inv(2) e(1) run] run e show ?thesis by auto
qed

text \<open>
  C19. When every effect a recovery has to report belongs to an attempt that already ended as
  uncertain, and no ``outcome uncertain'' event of a recovery is recorded (the attempt was ended by
  its own action, not by a recovery), the recovery raises: the executor does not start again after
  a crash.
\<close>

theorem crash_recovery_blocked:
  assumes "undisturbed cr" and "ledger_inv L" and "crash_effects L = Some es"
    and "list_ex (unrecorded L) es"
    and "\<not> list_ex (\<lambda>ev. message_type ev = M_task_outcome_uncertain) (recorded_events L es)"
    and "\<And>e q. e \<in> set es \<Longrightarrow> unrecorded L e \<Longrightarrow>
      sql_lookup ck_attempt_id (se_attempt_id e) (checkpoints L) = Some q \<Longrightarrow> ck_state q = CK_outcome_uncertain"
  shows "fst (run_crash_recovery cd sha cr (p, L)) = None"
proof -
  obtain r s' where run: "run_crash_recovery cd sha cr (p, L) = (r, s')" by (metis prod.collapse)
  have "r = None"
  proof (rule ccontr)
    assume "r \<noteq> None"
    then obtain evs where evs: "run_crash_recovery cd sha cr (p, L) = (Some evs, s')" using run by auto
    obtain s1 fs where s1: "only_effects L (snd s1)" "ledger_inv (snd s1)"
      and ids: "map rf_action_id fs = map se_action_id (filter (unrecorded L) es)"
      and "\<forall>f \<in> set fs. rf_type f \<in> {M_step_completed, M_task_outcome_uncertain}"
      and fresh: "\<forall>f \<in> set fs. recovery_row (snd s1) (rf_action_id f) = None" and "distinct (map rf_action_id fs)"
      and rest: "project_recovered cd cr (recorded_events L es) fs s1 = (Some evs, s')"
      by (rule crash_recovery_steps [OF assms(1-3) evs])
    have stuck: "project cd cr f s1 \<noteq> (Some ev, t)" if f: "f \<in> set fs" for f ev t
    proof
      assume run: "project cd cr f s1 = (Some ev, t)"
      have "rf_action_id f \<in> set (map se_action_id (filter (unrecorded L) es))"
        using f ids by (metis image_eqI set_map)
      then obtain e where e: "e \<in> set es" "unrecorded L e" "rf_action_id f = se_action_id e" by auto
      have "recovery_row (snd s1) (rf_action_id f) = None" using f fresh by blast
      from project_commits [OF assms(1) s1(2) this run] show False
        using e assms(6) [OF e(1,2)] listed_effects(2) [OF assms(2) assms(3) [unfolded crash_effects_def] e(1)]
          only_effects_frame [OF s1(1)] by auto
    qed
    obtain f fs' where fs: "fs = f # fs'" using ids assms(4) by (cases fs) (auto simp: list_ex_iff filter_empty_conv)
    show False
    proof (cases "List.find (\<lambda>f. rf_type f = M_task_outcome_uncertain) fs")
      case None
      then show False using rest assms(5) stuck [of f] fs by (auto simp: project_recovered_def and_then_Some)
    next
      case (Some g)
      then show False
        using rest assms(5) stuck [of g] find_Some_set [OF Some] by (auto simp: project_recovered_def and_then_Some)
    qed
  qed
  with run show ?thesis by simp
qed

text \<open>The attempt of the sample action ended as uncertain when the action did.\<close>

definition stuck_ledger :: ledger where
  "stuck_ledger = ledger_step sample_codec uncertain_ledger
     (Op_set_checkpoint the_attempt 3 CK_outcome_uncertain 7)"

lemma stuck_ledger:
  "stuck_ledger = uncertain_ledger\<lparr>checkpoints :=
     [action_checkpoint\<lparr>ck_state := CK_outcome_uncertain, ck_last_event := 7, ck_revision := 4\<rparr>]\<rparr>"
  by (simp add: stuck_ledger_def compare_and_set_checkpoint_def uncertain_ledger dispatched_ledger
      prepared_ledger running_ledger action_checkpoint_def Let_def sample_defs)

lemma stuck_crash_effects:
  "\<exists>e. crash_effects stuck_ledger = Some [e] \<and> se_state e = Uncertain \<and> se_action_id e = the_action
     \<and> se_attempt_id e = the_attempt"
  by (simp add: crash_effects_def list_crash_recovery_side_effects_def max_recoverable_effects_def
      max_unresolved_side_effects_def effect_order_def effect_attempt_def stuck_ledger uncertain_ledger
      dispatched_ledger prepared_ledger running_ledger
      action_checkpoint_def admitted_row_def admission_of_claims_def effect_row_in_def read_side_effect_def
      make_side_effect_def progress_ok_def new_progress_def fingerprint_b_def se_state_def se_action_id_def
      mark_settled_def mark_dispatched_def seconds_def sample_defs)

lemma stuck_recorded: "get_side_effect_recovery_event stuck_ledger the_action = Some None"
  by (simp add: get_side_effect_recovery_event_def recovery_row_def recovery_key_def stuck_ledger
      uncertain_ledger dispatched_ledger prepared_ledger running_ledger sample_defs outbox_row_of_def)

theorem crash_recovery_blocked_witness:
  "fst (run_crash_recovery sample_codec (\<lambda>_. fingerprint_b) idle_crash ((), stuck_ledger)) = None"
proof -
  obtain e where e: "crash_effects stuck_ledger = Some [e]" "se_state e = Uncertain" "se_action_id e = the_action"
    "se_attempt_id e = the_attempt" using stuck_crash_effects by blast
  have "ledger_inv stuck_ledger" unfolding stuck_ledger_def by (rule step_inv [OF uncertain_ledger_inv])
  then show ?thesis
    using e stuck_recorded
    by (intro crash_recovery_blocked [OF idle_undisturbed _ e(1)])
      (auto simp: unrecorded_def recorded_events_def map_filter_simps stuck_ledger action_checkpoint_def
        sql_lookup_def split: if_splits)
qed

end
