(* ===== verification/Action_Operation.thy ===== *)
theory Action_Operation
  imports Effect_Recovery
begin

text \<open>
  One server-authorized action command, from its admission to its result
  (\<open>executor/action_operation.py\<close>): the gate, a recovery instead of a second execution when the
  ledger already dispatched the action, and otherwise the browser, a visit of the profile, and the
  execution of the comment or message.

  What is outside is in \<open>operation\<close>: opening the browser (its lease, its start, its window), the
  navigation, the click on the first video and closing it; an opening that fails closes what it had
  started. The gate, the execution and the recovery read the same clock.
\<close>

record 'p operation =
  ox_gate :: gate
  ox_env :: "'p env"
  ox_open :: "('p, unit) act"
  ox_goto :: "'p \<times> ledger \<Rightarrow> goto_answer \<times> ('p \<times> ledger)"
  ox_entry :: "('p, unit) act"
  ox_close :: "('p, unit) act"

text \<open>\<open>_expectation\<close>, \<open>_candidate\<close> and \<open>_failure\<close>.\<close>

definition action_expectation :: "envelope \<Rightarrow> action_command \<Rightarrow> expectation option" where
  "action_expectation c p = (let x = \<lparr>xp_action_id = ac_action_id p, xp_target_id = ac_target_id p,
     xp_attempt_id = execution_attempt_id c, xp_task_id = task_id c,
     xp_installation_id = installation_id c, xp_executor_id = executor_id c,
     xp_platform = ''douyin'', xp_action = ac_action p, xp_idempotency_key = idempotency_key c\<rparr> in
   if expectation_ok x then Some x else None)"

definition command_candidate :: "(bytes \<Rightarrow> bytes) \<Rightarrow> action_command \<Rightarrow> candidate_payload option" where
  "command_candidate sha p = (let c = ac_candidate p in
     if candidate_ok (cp_platform_target_id c) (cp_display_name c) (cp_public_handle c) (cp_page_revision c)
       \<and> derive_key sha (cp_platform_target_id c) \<noteq> None
     then Some c else None)"

definition operation_failure :: "action_command \<Rightarrow> result_evidence \<Rightarrow> result_fact" where
  "operation_failure p v = \<lparr>rf_action_id = ac_action_id p, rf_target_id = ac_target_id p,
     rf_type = M_step_failed, rf_evidence = v\<rparr>"

subsection \<open>With an open browser\<close>

text \<open>
  The outcome of the part inside the \<open>try\<close>: no fact is an exception. The calls are those of the
  action's own execution; \<open>od_visit\<close> are those of the visit before it.
\<close>

record 'p operated =
  od_fact :: "result_fact option"
  od_visit :: "call list"
  od_calls :: "call list"
  od_orchestrator :: orchestrator
  od_state :: "'p \<times> ledger"

definition visit_profile ::
  "'p operation \<Rightarrow> orchestrator \<Rightarrow> 'p \<times> ledger \<Rightarrow> browse_observation option \<times> call list \<times> orchestrator \<times> ('p \<times> ledger)"
where
  "visit_profile ox orc s =
     (let ready = en_ready (ox_env ox) in
      case run_browse (\<lambda>s. (Some False, s)) (ox_goto ox) (if ready then Some orc else None)
          (if ready then Some (en_page (ox_env ox)) else None) s of
        (ob, cs, orc1, s1) \<Rightarrow> (ob, cs, (case orc1 of None \<Rightarrow> orc | Some o1 \<Rightarrow> o1), s1))"

text \<open>The execution over an intent, and what its receipt is reported as.\<close>

definition execute_intent ::
  "(bytes \<Rightarrow> bytes) \<Rightarrow> profile \<Rightarrow> 'p operation \<Rightarrow> orchestrator \<Rightarrow> expectation \<Rightarrow> action_command \<Rightarrow> call list \<Rightarrow>
   'p \<times> ledger \<Rightarrow> 'p operated" where
  "execute_intent sha pf ox orc x p visit s =
     (case Option.bind (ac_template p) (\<lambda>source. make_intent pf x source (cp_display_name (ac_candidate p))) of
        None \<Rightarrow> \<lparr>od_fact = None, od_visit = visit, od_calls = [], od_orchestrator = orc, od_state = s\<rparr>
      | Some it \<Rightarrow>
          (let a = run_action sha pf (ox_gate ox) (ox_env ox) orc it s in
           \<lparr>od_fact = map_option (if pf_action pf = Comment then comment_action_result
               else direct_message_action_result) (ar_receipt a),
             od_visit = visit, od_calls = ar_calls a, od_orchestrator = ar_orchestrator a, od_state = ar_state a\<rparr>))"

definition perform_browse :: "'p operation \<Rightarrow> orchestrator \<Rightarrow> action_command \<Rightarrow> 'p \<times> ledger \<Rightarrow> 'p operated" where
  "perform_browse ox orc p s =
     (case visit_profile ox orc s of (ob, cs, orc1, s1) \<Rightarrow>
        \<lparr>od_fact = map_option (browse_action_result (ac_action_id p) (ac_target_id p)) ob,
          od_visit = cs, od_calls = [], od_orchestrator = orc1, od_state = s1\<rparr>)"

definition perform_comment ::
  "(bytes \<Rightarrow> bytes) \<Rightarrow> 'p operation \<Rightarrow> orchestrator \<Rightarrow> expectation \<Rightarrow> action_command \<Rightarrow> 'p \<times> ledger \<Rightarrow> 'p operated"
where
  "perform_comment sha ox orc x p s =
     (case visit_profile ox orc s of
        (None, cs, orc1, s1) \<Rightarrow>
          \<lparr>od_fact = None, od_visit = cs, od_calls = [], od_orchestrator = orc1, od_state = s1\<rparr>
      | (Some ob, cs, orc1, s1) \<Rightarrow>
          (if bo_state ob \<noteq> Browse_completed
           then \<lparr>od_fact = Some (browse_action_result (ac_action_id p) (ac_target_id p) ob),
                  od_visit = cs, od_calls = [], od_orchestrator = orc1, od_state = s1\<rparr>
           else (case ox_entry ox s1 of
               (None, s2) \<Rightarrow> \<lparr>od_fact = None, od_visit = cs, od_calls = [], od_orchestrator = orc1, od_state = s2\<rparr>
             | (Some _, s2) \<Rightarrow> execute_intent sha comment_profile ox orc1 x p cs s2)))"

definition perform_message ::
  "(bytes \<Rightarrow> bytes) \<Rightarrow> 'p operation \<Rightarrow> orchestrator \<Rightarrow> expectation \<Rightarrow> action_command \<Rightarrow> 'p \<times> ledger \<Rightarrow> 'p operated"
where
  "perform_message sha ox orc x p s =
     (case ox_goto ox s of
        (Goto_done, s1) \<Rightarrow> execute_intent sha direct_message_profile ox orc x p [] s1
      | (_, s1) \<Rightarrow> \<lparr>od_fact = None, od_visit = [], od_calls = [], od_orchestrator = orc, od_state = s1\<rparr>)"

definition perform_action ::
  "(bytes \<Rightarrow> bytes) \<Rightarrow> 'p operation \<Rightarrow> orchestrator \<Rightarrow> expectation \<Rightarrow> action_command \<Rightarrow> 'p \<times> ledger \<Rightarrow> 'p operated"
where
  "perform_action sha ox orc x p s =
     (case ac_action p of
        Browse \<Rightarrow> perform_browse ox orc p s
      | Comment \<Rightarrow> perform_comment sha ox orc x p s
      | Direct_message \<Rightarrow> perform_message sha ox orc x p s)"

text \<open>The lease and the runtime around it; closing never raises out of the operation.\<close>

definition with_browser ::
  "(bytes \<Rightarrow> bytes) \<Rightarrow> 'p operation \<Rightarrow> orchestrator \<Rightarrow> expectation \<Rightarrow> action_command \<Rightarrow> 'p \<times> ledger \<Rightarrow> 'p operated"
where
  "with_browser sha ox orc x p s =
     (let unavailable = operation_failure p Page_unavailable;
          failed = (\<lambda>s1. \<lparr>od_fact = Some unavailable, od_visit = [], od_calls = [], od_orchestrator = orc, od_state = s1\<rparr>)
      in case command_candidate sha p of
        None \<Rightarrow> failed s
      | Some _ \<Rightarrow>
          (case ox_open ox s of
             (None, s1) \<Rightarrow> failed s1
           | (Some _, s1) \<Rightarrow>
               (let r = perform_action sha ox orc x p s1 in
                r\<lparr>od_fact := Some (case od_fact r of None \<Rightarrow> unavailable | Some f \<Rightarrow> f),
                  od_state := snd (ox_close ox (od_state r))\<rparr>)))"

subsection \<open>The operation\<close>

text \<open>An effect of the action the ledger has already dispatched is reconciled, not executed again.\<close>

definition earlier_result ::
  "(bytes \<Rightarrow> bytes) \<Rightarrow> 'p operation \<Rightarrow> action_command \<Rightarrow> ('p, result_fact option) act" where
  "earlier_result sha ox p =
     (if ac_action p = Browse then result_of (Some None)
      else and_then (query (\<lambda>L. get_side_effect L (ac_action_id p))) (\<lambda>effect.
        case effect of
          Some e \<Rightarrow>
            (if se_state e = Prepared then result_of (Some None)
             else and_then (recover_effect sha \<lparr>rv_now = en_now (ox_env ox), rv_confirm = None\<rparr> (ac_action_id p))
               (\<lambda>r. result_of (map_option Some (recovered_action_result r))))
        | None \<Rightarrow> result_of (Some None)))"

definition run_operation ::
  "(bytes \<Rightarrow> bytes) \<Rightarrow> 'p operation \<Rightarrow> orchestrator \<Rightarrow> envelope \<Rightarrow> action_command \<Rightarrow> 'p \<times> ledger \<Rightarrow> 'p operated"
where
  "run_operation sha ox orc c p s =
     (let ended = (\<lambda>f s1. \<lparr>od_fact = f, od_visit = [], od_calls = [], od_orchestrator = orc, od_state = s1\<rparr>)
      in case action_expectation c p of
        None \<Rightarrow> ended None s
      | Some x \<Rightarrow>
          (case admit_now sha (ox_gate ox) (ox_env ox) x s of
             (Inl (Admit_limited _), s1) \<Rightarrow> ended (Some (operation_failure p Local_safety_limit)) s1
           | (Inl Admit_rejected, s1) \<Rightarrow> ended (Some (operation_failure p Evidence_admission_rejected)) s1
           | (Inr _, s1) \<Rightarrow>
               (case earlier_result sha ox p s1 of
                  (None, s2) \<Rightarrow> ended (Some (operation_failure p Executor_reported_failure)) s2
                | (Some (Some f), s2) \<Rightarrow> ended (Some f) s2
                | (Some None, s2) \<Rightarrow> with_browser sha ox orc x p s2)))"

end
