(* ===== verification/Operation_Facts.thy ===== *)
theory Operation_Facts
  imports Action_Operation Recovery_Runs Execution_Facts
begin

text \<open>
  Replays without a dispatch hook, the soundness of an operation's parts, and readings of a clock
  that advances.
\<close>

subsection \<open>What a replay without a hook does to the world\<close>

definition steady :: "('w \<Rightarrow> 'w \<Rightarrow> bool) \<Rightarrow> 'w page \<Rightarrow> bool" where
  "steady R pg \<longleftrightarrow> (\<forall>a b c. R a b \<longrightarrow> R b c \<longrightarrow> R a c) \<and> (\<forall>g w. R w (snd (page_find pg g w)))
     \<and> (\<forall>c w. R w (snd (page_holds pg c w))) \<and> (\<forall>k i v w. R w (snd (page_act pg k i v w)))
     \<and> (\<forall>w. R w (snd (page_path pg w)))"

lemma steadyD:
  assumes "steady R pg" "R w0 w"
  shows "R w0 (snd (page_find pg g w))" "R w0 (snd (page_holds pg c w))" "R w0 (snd (page_path pg w))"
    "page_act pg k i v w = (b, w1) \<Longrightarrow> R w0 w1"
  using assms unfolding steady_def by (blast, blast, blast, metis snd_conv)

interpretation unguarded_replay:
  replay_invariant pg None "\<lambda>cs w. steady R pg \<longrightarrow> R w0 w" for pg R w0
  by unfold_locales (auto dest: steadyD)

lemma execute_steady:
  assumes "execute orc sid pg params ctx None w = (e, cs, orc', w')" "steady R pg" "R w w"
  shows "R w w'"
proof -
  have replay: "R w w1" if "replay_skill pg None s params w = (x, cs1, w1)" for s x cs1 w1
    using unguarded_replay.replay_keeps [OF that, of R w] assms(2,3) by simp
  have run: "R w w1" if run: "run_version orc key s pg params None w = (e1, cs1, orc1, w1)" for key s e1 cs1 orc1 w1
    using run_version_replay [OF run] replay by blast
  show ?thesis
    using assms(1,3) by (auto simp: execute_def Let_def split: list.splits option.splits intro: run)
qed

lemma visit_steady:
  assumes "visit_profile ox orc s = (ob, cs, orc', s')" and R: "steady R (en_page (ox_env ox))" "\<And>w. R w w"
    and "\<And>w. R w (snd (ox_goto ox w))"
  shows "R s s'"
proof -
  obtain a s1 where goto: "ox_goto ox s = (a, s1)" by (cases "ox_goto ox s")
  have s1: "R s s1" using assms(4) [of s] goto by simp
  have later: "R s w" if "execute orc browse_skill (en_page (ox_env ox)) Map.empty None None s1 = (e, cs1, orc1, w)"
    for e :: "unit execute_end" and cs1 orc1 w
    using execute_steady [OF that R(1) R(2)] s1 R(1) unfolding steady_def by blast
  show ?thesis
    using assms(1) goto s1
    by (auto simp: visit_profile_def run_browse_def Let_def split: goto_answer.splits prod.splits
        execute_end.splits execution_kind.splits if_splits option.splits intro: later)
qed

end
