(* ===== verification/Operation_Properties.thy ===== *)
theory Operation_Properties
  imports Operation_Facts Recovery_Properties Action_Properties
begin

text \<open>
  Properties of a whole action command: what its operation may do and report, and that under a clock
  that advances it never reaches the page's external action.
\<close>

subsection \<open>The guarantee of an operation\<close>

definition operation_ok :: "'p operation \<Rightarrow> bool" where
  "operation_ok ox \<longleftrightarrow> env_ok (ox_env ox) \<and> keeps_ledger (ox_open ox) \<and> keeps_ledger (ox_goto ox)
     \<and> keeps_ledger (ox_entry ox) \<and> keeps_ledger (ox_close ox)"

definition fact_about :: "expectation \<Rightarrow> bool \<Rightarrow> ledger \<Rightarrow> result_fact \<Rightarrow> bool" where
  "fact_about x attempted L f \<longleftrightarrow> fact_consistent f \<and> rf_action_id f = xp_action_id x
     \<and> rf_target_id f = xp_target_id x \<and> (attempted \<longrightarrow> rf_type f \<noteq> M_step_failed)
     \<and> (rf_type f = M_step_completed \<longrightarrow> xp_action x = Browse \<or> verified_in L (xp_action_id x))"

definition operation_guarantee :: "expectation \<Rightarrow> ledger \<Rightarrow> 'p operated \<Rightarrow> bool" where
  "operation_guarantee x L r \<longleftrightarrow> sound L (snd (od_state r)) \<and> disciplined (od_calls r)
     \<and> length (external_acts (od_calls r)) \<le> 1
     \<and> (external_acts (od_calls r) \<noteq> [] \<longrightarrow> effect_rank L (xp_action_id x) < 2
          \<and> 2 \<le> effect_rank (snd (od_state r)) (xp_action_id x) \<and> od_fact r \<noteq> None)
     \<and> (\<forall>f. od_fact r = Some f \<longrightarrow>
          fact_about x (external_acts (od_calls r) \<noteq> []) (snd (od_state r)) f)"

lemma verified_later:
  assumes "sound L L'" "ledger_inv L" "verified_in L k"
  shows "verified_in L' k"
proof -
  obtain r where r: "sql_lookup ef_action_id k (side_effects L) = Some r" "pg_state (ef_progress r) = Verified"
    using assms(3) by (auto simp: verified_in_def)
  have "table_le effect_le (side_effects L) (side_effects L')"
    using assms(1,2) by (simp add: sound_def evolves_def)
  then obtain r' where r': "sql_lookup ef_action_id k (side_effects L') = Some r'" and le: "effect_le r r'"
    using effects.le_lookup [OF _ r(1)] by blast
  then show ?thesis
    using r(2) by (cases r; cases r') (auto simp: verified_in_def effect_le_def progress_le_def)
qed

lemma fact_about_later:
  "sound L L' \<Longrightarrow> ledger_inv L \<Longrightarrow> fact_about x b L f \<Longrightarrow> fact_about x b L' f"
  using verified_later by (auto simp: fact_about_def)

lemma sound_inv: "sound L L' \<Longrightarrow> ledger_inv L \<Longrightarrow> ledger_inv L'"
  by (simp add: sound_def)

text \<open>The two ways a guarantee is extended: calls before, and calls after.\<close>

lemma operation_guarantee_before:
  assumes "sound L L1" "ledger_inv L" "operation_guarantee x L1 r"
  shows "operation_guarantee x L r"
  using assms sound_trans [OF assms(1)] effect_rank_evolves [of L L1 "xp_action_id x"]
  by (auto simp: operation_guarantee_def sound_def)

lemma operation_guarantee_after:
  assumes "operation_guarantee x L r" "ledger_inv L" "sound (snd (od_state r)) (snd s)"
  shows "operation_guarantee x L (r\<lparr>od_state := s\<rparr>)"
proof -
  have inv: "ledger_inv (snd (od_state r))" using assms(1,2) by (auto simp: operation_guarantee_def sound_def)
  then have "effect_rank (snd (od_state r)) (xp_action_id x) \<le> effect_rank (snd s) (xp_action_id x)"
    using assms(3) by (simp add: sound_def effect_rank_evolves)
  moreover have "fact_about x b (snd (od_state r)) f \<Longrightarrow> fact_about x b (snd s) f" for b f
    by (rule fact_about_later [OF assms(3) inv])
  moreover have "sound L (snd s)"
    using assms(1,3) sound_trans unfolding operation_guarantee_def by blast
  ultimately show ?thesis
    using assms(1) unfolding operation_guarantee_def by (auto intro: order_trans)
qed

text \<open>An operation that ends without a call of its own.\<close>

lemma operation_guarantee_quiet:
  assumes "sound L (snd s)" and "\<And>f. out = Some f \<Longrightarrow> fact_about x False (snd s) f"
  shows "operation_guarantee x L
    \<lparr>od_fact = out, od_visit = cs, od_calls = [], od_orchestrator = orc, od_state = s\<rparr>"
  using assms by (simp add: operation_guarantee_def)

lemma failed_about:
  "v \<in> failed_evidence \<Longrightarrow> ac_action_id p = xp_action_id x \<Longrightarrow> ac_target_id p = xp_target_id x \<Longrightarrow>
     fact_about x False L (operation_failure p v)"
  by (simp add: fact_about_def operation_failure_def fact_consistent_def)

lemma browse_about:
  "bo_state ob \<noteq> Browse_completed \<or> xp_action x = Browse \<Longrightarrow>
     fact_about x False L (browse_action_result (xp_action_id x) (xp_target_id x) ob)"
  using browse_action_consistent [of "xp_action_id x" "xp_target_id x" ob]
  by (auto simp: fact_about_def browse_action_result_def)

lemma receipt_about_result:
  assumes "honest_receipt x L y" "confirmed \<in> success_evidence"
    and "rp_state y = Not_dispatched \<longrightarrow> \<not> attempted"
  shows "fact_about x attempted L (receipt_result confirmed y)"
  using assms receipt_result_consistent [OF assms(2), of y]
  by (cases "rp_state y") (auto simp: fact_about_def receipt_result_def Let_def honest_receipt_def)

subsection \<open>The parts\<close>

lemma operation_parts:
  assumes "operation_ok ox"
  shows "ox_goto ox s = (g, s1) \<Longrightarrow> sound (snd s) (snd s1)" and "ox_entry ox s = (e, s1) \<Longrightarrow> sound (snd s) (snd s1)"
    and "ox_open ox s = (e, s1) \<Longrightarrow> sound (snd s) (snd s1)" and "sound (snd s) (snd (snd (ox_close ox s)))"
  using assms keepsD [of sound "ox_goto ox" s] keepsD [of sound "ox_entry ox" s] keepsD [of sound "ox_open ox" s] keepsD [of sound "ox_close ox" s, OF _ prod.collapse [symmetric]]
  by (simp_all add: operation_ok_def)

lemma execute_registry:
  "execute orc sid pg params ctx hook w = (e, cs, orc', w') \<Longrightarrow> or_registry orc' = or_registry orc"
  by (auto simp: execute_def run_version_def Let_def split: list.splits option.splits prod.splits replay_end.splits)

lemma visit_registry:
  assumes "visit_profile ox orc s = (ob, cs, orc', s')"
  shows "or_registry orc' = or_registry orc"
  using assms
  by (auto simp: visit_profile_def run_browse_def Let_def split: goto_answer.splits prod.splits
      execute_end.splits execution_kind.splits if_splits option.splits dest: execute_registry)

lemma visit_sound:
  assumes "operation_ok ox" "visit_profile ox orc s = (ob, cs, orc', s')"
  shows "sound (snd s) (snd s')"
proof (rule visit_steady [OF assms(2), where R = "\<lambda>a b. sound (snd a) (snd b)"])
  show "steady (\<lambda>a b. sound (snd a) (snd b)) (en_page (ox_env ox))"
    using assms(1) sound_trans by (auto simp: steady_def operation_ok_def env_ok_def keeps_def)
  show "sound (snd w) (snd (snd (ox_goto ox w)))" for w
    by (rule operation_parts(1) [OF assms(1) prod.collapse [symmetric]])
qed simp

lemma make_intent_about: "make_intent pf x source name = Some it \<Longrightarrow> it_expectation it = x"
  by (auto simp: make_intent_def Let_def bind_eq_Some_conv require_def split: if_splits)

lemma execute_intent_ok:
  assumes ox: "operation_ok ox" and reg: "published ct vf (or_registry orc)" "ct_max_external ct \<le> 1"
    and inv: "ledger_inv (snd s)"
  shows "operation_guarantee x (snd s) (execute_intent sha pf ox orc x p visit s)"
proof (cases "Option.bind (ac_template p) (\<lambda>source. make_intent pf x source (cp_display_name (ac_candidate p)))")
  case None
  then show ?thesis by (simp add: execute_intent_def operation_guarantee_def)
next
  case (Some it)
  then have it: "it_expectation it = x" by (auto simp: bind_eq_Some_conv make_intent_about)
  define a where "a = run_action sha pf (ox_gate ox) (ox_env ox) orc it s"
  have env: "env_ok (ox_env ox)" using ox by (simp add: operation_ok_def)
  have "run_guarantee x (snd s) a"
    using run_action_guarantee [OF reg env inv, of it sha pf "ox_gate ox"] by (simp add: a_def it)
  then obtain y where run: "disciplined (ar_calls a)" "length (external_acts (ar_calls a)) \<le> 1"
      "external_acts (ar_calls a) \<noteq> [] \<longrightarrow> effect_rank (snd s) (xp_action_id x) < 2
         \<and> 2 \<le> effect_rank (snd (ar_state a)) (xp_action_id x)"
      "sound (snd s) (snd (ar_state a))"
    and y: "ar_receipt a = Some y" "honest_receipt x (snd (ar_state a)) y"
      "rp_state y = Not_dispatched \<longrightarrow> \<not> external_acts (ar_calls a) \<noteq> []"
    by (auto simp: run_guarantee_def ends_with_def)
  have "fact_about x (external_acts (ar_calls a) \<noteq> []) (snd (ar_state a))
      ((if pf_action pf = Comment then comment_action_result else direct_message_action_result) y)"
    using receipt_about_result [OF y(2) _ y(3)]
    by (simp add: comment_action_result_def direct_message_action_result_def success_evidence_def)
  then show ?thesis
    using Some run y(1) by (simp add: execute_intent_def operation_guarantee_def a_def Let_def)
qed

lemma perform_action_ok:
  assumes ox: "operation_ok ox" and reg: "published ct vf (or_registry orc)" "ct_max_external ct \<le> 1"
    and inv: "ledger_inv (snd s)" and x: "ac_action_id p = xp_action_id x" "ac_target_id p = xp_target_id x"
      "ac_action p = xp_action x"
  shows "operation_guarantee x (snd s) (perform_action sha ox orc x p s)"
proof (cases "ac_action p")
  case Direct_message
  obtain g s1 where goto: "ox_goto ox s = (g, s1)" by (cases "ox_goto ox s")
  have s1: "sound (snd s) (snd s1)" by (rule operation_parts(1) [OF ox goto])
  note exec = execute_intent_ok [OF ox reg sound_inv [OF s1 inv]]
  show ?thesis
    using Direct_message goto operation_guarantee_before [OF s1 inv exec] s1
    by (cases g) (auto simp: perform_action_def perform_message_def intro: operation_guarantee_quiet)
next
  case Browse
  obtain ob cs orc1 s1 where visit: "visit_profile ox orc s = (ob, cs, orc1, s1)" by (metis prod_cases4)
  note s1 = visit_sound [OF ox visit]
  show ?thesis
    using Browse visit x browse_about [of _ x]
    by (auto simp: perform_action_def perform_browse_def intro!: operation_guarantee_quiet s1)
next
  case Comment
  obtain ob cs orc1 s1 where visit: "visit_profile ox orc s = (ob, cs, orc1, s1)" by (metis prod_cases4)
  note s1 = visit_sound [OF ox visit]
  have reg1: "published ct vf (or_registry orc1)" using reg visit_registry [OF visit] by simp
  obtain e s2 where entry: "ox_entry ox s1 = (e, s2)" by (cases "ox_entry ox s1")
  have "sound (snd s1) (snd s2)" by (rule operation_parts(2) [OF ox entry])
  then have s2: "sound (snd s) (snd s2)" by (rule sound_trans [OF s1])
  note exec = operation_guarantee_before [OF s2 inv execute_intent_ok [OF ox reg1 reg(2) sound_inv [OF s2 inv]]]
  show ?thesis
    using Comment visit entry exec x browse_about [of _ x]
    by (auto simp: perform_action_def perform_comment_def intro!: operation_guarantee_quiet s1 s2
        split: option.split)
qed

lemma perform_quiet_fact:
  "operation_guarantee x L r \<Longrightarrow> od_fact r = None \<Longrightarrow> fact_about x False (snd (od_state r)) f \<Longrightarrow>
     operation_guarantee x L (r\<lparr>od_fact := Some f\<rparr>)"
  by (auto simp: operation_guarantee_def)

lemma with_browser_ok:
  assumes ox: "operation_ok ox" and reg: "published ct vf (or_registry orc)" "ct_max_external ct \<le> 1"
    and inv: "ledger_inv (snd s)" and x: "ac_action_id p = xp_action_id x" "ac_target_id p = xp_target_id x"
      "ac_action p = xp_action x"
  shows "operation_guarantee x (snd s) (with_browser sha ox orc x p s)
    \<and> od_fact (with_browser sha ox orc x p s) \<noteq> None"
proof -
  have unavailable: "fact_about x False L (operation_failure p Page_unavailable)" for L
    by (rule failed_about) (simp_all add: x failed_evidence_def)
  obtain o1 s1 where opened: "ox_open ox s = (o1, s1)" by (cases "ox_open ox s")
  have s1: "sound (snd s) (snd s1)" by (rule operation_parts(3) [OF ox opened])
  note inv1 = sound_inv [OF s1 inv]
  define r where "r = perform_action sha ox orc x p s1"
  define r' where "r' = r\<lparr>od_fact := Some (case od_fact r of None \<Rightarrow> operation_failure p Page_unavailable | Some f \<Rightarrow> f)\<rparr>"
  have r: "operation_guarantee x (snd s1) r" unfolding r_def by (rule perform_action_ok [OF ox reg inv1 x])
  then have "operation_guarantee x (snd s1) r'"
  proof (cases "od_fact r")
    case None
    then show ?thesis using perform_quiet_fact [OF r _ unavailable] by (simp add: r'_def)
  next
    case (Some f)
    then have "r' = r" by (simp add: r'_def)
    then show ?thesis using r by simp
  qed
  moreover have "sound (snd (od_state r')) (snd (snd (ox_close ox (od_state r'))))"
    by (rule operation_parts(4) [OF ox])
  ultimately have "operation_guarantee x (snd s1) (r'\<lparr>od_state := snd (ox_close ox (od_state r'))\<rparr>)"
    by (rule operation_guarantee_after [OF _ inv1])
  then have "operation_guarantee x (snd s) (r'\<lparr>od_state := snd (ox_close ox (od_state r'))\<rparr>)"
    by (rule operation_guarantee_before [OF s1 inv])
  then show ?thesis
    using opened unavailable s1
    by (auto simp: with_browser_def Let_def r_def r'_def intro!: operation_guarantee_quiet
        split: option.split prod.split)
qed

subsection \<open>Earlier dispatches\<close>

lemma admitted_row:
  assumes "admit_now sha g env x s = (Inr a, s1)"
  shows "\<exists>r \<in> set (admissions (snd s1)). ad_action_id r = xp_action_id x \<and> ad_target_id r = xp_target_id x"
  using assms by (auto simp: admit_now_def split: prod.splits option.splits if_splits dest!: gate_admission_row)

lemma admission_ids_distinct:
  "sql_wf admission_ok admission_clash rows \<Longrightarrow> distinct (map ad_action_id rows)"
  by (induction rows) (auto simp: sql_wf_def admission_clash_def)

lemma effect_target:
  assumes "ledger_inv L" "get_side_effect L k = Some (Some e)"
    and "r \<in> set (admissions L)" "ad_action_id r = k"
  shows "se_target_id e = ad_target_id r"
proof -
  from holds_get [OF assms(2)] obtain row where row: "sql_lookup ef_action_id k (side_effects L) = Some row"
    and e: "read_side_effect L row (se_replayed e) = Some e" by (auto simp: holds_effect_def)
  have "sql_lookup ad_action_id k (admissions L) = Some (se_admission e)"
    using read_side_effect_Some [OF e] sql_lookup_SomeD [OF row] by simp
  moreover have "distinct (map ad_action_id (admissions L))"
    using assms(1) by (intro admission_ids_distinct) (simp add: inv_defs)
  ultimately have "se_admission e = r"
    using assms(3,4) sql_lookup_SomeD by (fastforce simp: distinct_map dest: inj_onD)
  then show ?thesis by simp
qed

lemma confirmed_success: "confirmed_evidence a \<in> success_evidence"
  by (simp add: confirmed_evidence_def success_evidence_def)

lemma recovered_about:
  assumes "receipt_about e L y" "se_action_id e = xp_action_id x" "se_target_id e = xp_target_id x"
    and "recovered_action_result y = Some f"
  shows "fact_about x False L f"
  using assms
  by (cases "rr_state y") (auto simp: recovered_action_result_def Let_def fact_about_def receipt_about_def
      fact_consistent_def confirmed_success uncertain_evidence_def)

lemma earlier_result_ok:
  assumes ox: "operation_ok ox" and inv: "ledger_inv (snd s)"
    and row: "r \<in> set (admissions (snd s))" "ad_action_id r = xp_action_id x" "ad_target_id r = xp_target_id x"
    and p: "ac_action_id p = xp_action_id x" and run: "earlier_result sha ox p s = (v, s')"
  shows "sound (snd s) (snd s') \<and> (\<forall>f. v = Some (Some f) \<longrightarrow> fact_about x False (snd s') f)"
proof (cases "ac_action p = Browse")
  case True
  then show ?thesis using run by (auto simp: earlier_result_def result_of_def)
next
  case False
  let ?rv = "\<lparr>rv_now = en_now (ox_env ox), rv_confirm = None\<rparr>"
  have rv: "recovery_ok ?rv" using ox by (simp add: recovery_ok_def operation_ok_def env_ok_def)
  show ?thesis
  proof (cases "\<exists>e. get_side_effect (snd s) (xp_action_id x) = Some (Some e) \<and> se_state e \<noteq> Prepared")
    case True
    then obtain e where e: "get_side_effect (snd s) (xp_action_id x) = Some (Some e)" "se_state e \<noteq> Prepared"
      by blast
    obtain y s2 where y: "recover_effect sha ?rv (xp_action_id x) s = (Some y, s2)" "sound (snd s) (snd s2)"
        "receipt_about e (snd s2) y" "rr_state y \<noteq> Recovery_not_dispatched"
      using recover_effect_known [OF rv inv e(1), of sha] e(2) by blast
    have about: "se_action_id e = xp_action_id x" "se_target_id e = xp_target_id x"
      using holds_fields(3) [OF holds_get [OF e(1)]] effect_target [OF inv e(1) row(1,2)] row(3) by simp_all
    have "v = map_option Some (recovered_action_result y) \<and> s' = s2"
      using run False e p y(1) by (simp add: earlier_result_def and_then_def query_def result_of_def)
    then show ?thesis using y(2) recovered_about [OF y(3) about] by auto
  next
    case False
    then show ?thesis
      using run \<open>ac_action p \<noteq> Browse\<close> p
      by (auto simp: earlier_result_def and_then_def query_def result_of_def split: option.splits if_splits)
  qed
qed

subsection \<open>The operation\<close>

lemma run_operation_ok:
  assumes ox: "operation_ok ox" and reg: "published ct vf (or_registry orc)" "ct_max_external ct \<le> 1"
    and inv: "ledger_inv (snd s)" and x: "action_expectation c p = Some x"
  shows "operation_guarantee x (snd s) (run_operation sha ox orc c p s)
    \<and> od_fact (run_operation sha ox orc c p s) \<noteq> None"
proof -
  have fields: "ac_action_id p = xp_action_id x" "ac_target_id p = xp_target_id x" "ac_action p = xp_action x"
    using x by (auto simp: action_expectation_def Let_def split: if_splits)
  have env: "env_ok (ox_env ox)" using ox by (simp add: operation_ok_def)
  have failed: "fact_about x False L (operation_failure p v)" if "v \<in> failed_evidence" for v L
    by (rule failed_about [OF that fields(1,2)])
  obtain adm s1 where admit: "admit_now sha (ox_gate ox) (ox_env ox) x s = (adm, s1)"
    by (cases "admit_now sha (ox_gate ox) (ox_env ox) x s")
  note s1 = admit_now_sound [OF env admit]
  note inv1 = sound_inv [OF s1 inv]
  show ?thesis
  proof (cases adm)
    case (Inl e)
    then show ?thesis
      using x admit s1 failed
      by (cases e) (auto simp: run_operation_def Let_def failed_evidence_def intro!: operation_guarantee_quiet)
  next
    case (Inr a)
    from admitted_row [OF admit [unfolded Inr]] obtain r where row: "r \<in> set (admissions (snd s1))"
      "ad_action_id r = xp_action_id x" "ad_target_id r = xp_target_id x" by blast
    obtain v s2 where earlier: "earlier_result sha ox p s1 = (v, s2)" by (cases "earlier_result sha ox p s1")
    have s2: "sound (snd s1) (snd s2)" and v: "\<And>f. v = Some (Some f) \<Longrightarrow> fact_about x False (snd s2) f"
      using earlier_result_ok [OF ox inv1 row fields(1) earlier] by auto
    note s2 = sound_trans [OF s1 s2]
    note later = with_browser_ok [OF ox reg sound_inv [OF s2 inv] fields, of sha]
    show ?thesis
    proof (cases v)
      case None
      then show ?thesis
        using x admit Inr earlier s2 failed
        by (auto simp: run_operation_def Let_def failed_evidence_def intro!: operation_guarantee_quiet)
    next
      case (Some w)
      then show ?thesis
        using x admit Inr earlier s2 v later operation_guarantee_before [OF s2 inv]
        by (cases w) (auto simp: run_operation_def Let_def intro!: operation_guarantee_quiet)
    qed
  qed
qed

text \<open>
  C4. An action command whose identifiers the gate accepts always gets a result: a fact about its
  action and its target, with the evidence its message type allows, whatever the browser, the page,
  the clock and other threads do. At most one external action is attempted, only if the ledger had
  not granted its dispatch before; after an attempt the fact is never a failure; and a comment or a
  message is reported completed only if the ledger holds it as verified.
\<close>

theorem operation_reports_faithfully:
  assumes "operation_ok ox" and "published ct vf (or_registry orc)" and "ct_max_external ct \<le> 1"
    and "ledger_inv L" and "action_expectation c p = Some x" and "run_operation sha ox orc c p (w, L) = r"
  shows "ledger_inv (snd (od_state r)) \<and> evolves L (snd (od_state r)) \<and> disciplined (od_calls r)
    \<and> length (external_acts (od_calls r)) \<le> 1
    \<and> (external_acts (od_calls r) \<noteq> [] \<longrightarrow> effect_rank L (xp_action_id x) < 2
         \<and> 2 \<le> effect_rank (snd (od_state r)) (xp_action_id x))
    \<and> (\<exists>f. od_fact r = Some f \<and> fact_consistent f \<and> rf_action_id f = ac_action_id p
         \<and> rf_target_id f = ac_target_id p
         \<and> (external_acts (od_calls r) \<noteq> [] \<longrightarrow> rf_type f \<noteq> M_step_failed)
         \<and> (rf_type f = M_step_completed \<longrightarrow> ac_action p = Browse
              \<or> verified_in (snd (od_state r)) (ac_action_id p)))"
proof -
  have "ac_action_id p = xp_action_id x \<and> ac_target_id p = xp_target_id x \<and> ac_action p = xp_action x"
    using assms(5) by (auto simp: action_expectation_def Let_def split: if_splits)
  then show ?thesis
    using run_operation_ok [of ox ct vf orc "(w, L)" c p x sha] assms
    by (auto simp: operation_guarantee_def fact_about_def sound_def)
qed

definition quiet_operation :: "nat \<Rightarrow> nat operation" where
  "quiet_operation step = \<lparr>ox_gate = sample_gate, ox_env = (quiet_env 112)\<lparr>en_now := \<lambda>s. (Some (at_second (int (fst s))), s)\<rparr>,
     ox_open = (\<lambda>s. (Some (), (fst s + step, snd s))), ox_goto = (\<lambda>s. (Goto_done, s)),
     ox_entry = (\<lambda>s. (Some (), s)), ox_close = (\<lambda>s. (Some (), s))\<rparr>"

lemma quiet_operation_ok: "operation_ok (quiet_operation step)"
  using quiet_env_ok by (auto simp: operation_ok_def quiet_operation_def env_ok_def keeps_def)

definition the_command :: action_command where
  "the_command = \<lparr>ac_action_id = the_action, ac_target_id = the_target, ac_action = Comment,
     ac_candidate = the_candidate, ac_template_version = Some ''action-message-template.v1'',
     ac_template = Some ''hello''\<rparr>"

lemma the_command_expected: "action_expectation action_execute the_command = Some (it_expectation sample_intent)"
  by (simp add: action_expectation_def Let_def expectation_ok_def the_command_def sample_intent_def
      action_execute_def message_def id_defs hex_digit_def)

lemma one_external_step: "ct_max_external contract_v1 \<le> 1"
  by (simp add: contract_v1_def)

theorem operation_reports_faithfully_witness:
  "\<exists>f. od_fact (run_operation (\<lambda>_. fingerprint_b) (quiet_operation 1) sample_orchestrator action_execute the_command
      (120, running_ledger)) = Some f \<and> rf_action_id f = the_action"
  using operation_reports_faithfully [OF quiet_operation_ok sample_orchestrator_published one_external_step
      _ the_command_expected refl, of running_ledger "\<lambda>_. fingerprint_b" 1 120] sample_ledgers_inv
  by (auto simp: the_command_def)

subsection \<open>Time passes\<close>

text \<open>
  \<open>m\<close> is the latest instant the clock may have shown: a reading is not before it, no call turns it
  back, and opening the browser takes some time.
\<close>

definition passing_time :: "('p \<Rightarrow> instant) \<Rightarrow> 'p operation \<Rightarrow> bool" where
  "passing_time m ox \<longleftrightarrow>
     (\<forall>s v s1 d t. en_now (ox_env ox) s = (v, s1) \<longrightarrow> m (fst s) \<le> m (fst s1)
        \<and> (v = Some d \<longrightarrow> canonical_utc d = Some t \<longrightarrow> m (fst s) \<le> t \<and> t \<le> m (fst s1)))
     \<and> steady (\<lambda>a b. m (fst a) \<le> m (fst b)) (en_page (ox_env ox))
     \<and> (\<forall>s. m (fst s) \<le> m (fst (snd (ox_goto ox s)))) \<and> (\<forall>s. m (fst s) \<le> m (fst (snd (ox_entry ox s))))
     \<and> (\<forall>s. m (fst s) < m (fst (snd (ox_open ox s))))"

lemma passing_reading:
  assumes "passing_time m ox" "read_now (ox_env ox) s = (v, s1)"
  shows "m (fst s) \<le> m (fst s1)" and "v = Some (Aware 0 t) \<Longrightarrow> t \<le> m (fst s1)"
proof -
  obtain r where r: "en_now (ox_env ox) s = (r, s1)" and v: "v = Option.bind r (\<lambda>d. map_option (Aware 0) (canonical_utc d))"
    using assms(2) by (auto simp: read_now_def utc_reading_def split: prod.splits)
  have step: "m (fst s) \<le> m (fst s1)"
    "\<And>d t. r = Some d \<Longrightarrow> canonical_utc d = Some t \<Longrightarrow> t \<le> m (fst s1)"
    using assms(1) r unfolding passing_time_def by blast+
  then show "m (fst s) \<le> m (fst s1)" by simp
  show "t \<le> m (fst s1)" if "v = Some (Aware 0 t)"
    using that v step(2) by (auto simp: bind_eq_Some_conv)
qed

text \<open>What the operation's own admission leaves behind.\<close>

definition admitted_at :: "(bytes \<Rightarrow> bytes) \<Rightarrow> expectation \<Rightarrow> instant \<Rightarrow> ledger \<Rightarrow> bool" where
  "admitted_at sha x t L1 \<longleftrightarrow> ledger_inv L1
     \<and> (\<exists>g L second a. gate_admit sha g L x (Aware 0 t) second = (Inr a, L1))"

lemma admit_now_at:
  assumes ox: "operation_ok ox" "passing_time m ox" and inv: "ledger_inv (snd s)"
    and admit: "admit_now sha g (ox_env ox) x s = (Inr a, s1)"
  shows "\<exists>t. admitted_at sha x t (snd s1) \<and> t \<le> m (fst s1)"
proof -
  have env: "env_ok (ox_env ox)" using ox(1) by (simp add: operation_ok_def)
  from admit obtain first s2 second s3 L where first: "read_now (ox_env ox) s = (Some first, s2)"
    and second: "read_now (ox_env ox) s2 = (Some second, s3)"
    and g: "gate_admit sha g (snd s3) x first second = (Inr a, L)" "s1 = (fst s3, L)"
    by (auto simp: admit_now_def split: prod.splits option.splits if_splits)
  obtain t where t: "first = Aware 0 t" using gate_admission_row [OF g(1)] by blast
  have "t \<le> m (fst s2)" using passing_reading(2) [OF ox(2) first] t by simp
  also have "m (fst s2) \<le> m (fst s3)" by (rule passing_reading(1) [OF ox(2) second])
  finally have "t \<le> m (fst s1)" using g(2) by simp
  have "ledger_inv (snd s1)" by (rule sound_inv [OF admit_now_sound [OF env admit] inv])
  then have "admitted_at sha x t (snd s1)" using g t unfolding admitted_at_def by auto
  with \<open>t \<le> m (fst s1)\<close> show ?thesis by blast
qed

lemma execute_intent_refused:
  assumes ox: "operation_ok ox" "passing_time m ox" and at: "admitted_at sha x t L1"
    and s: "sound L1 (snd s)" "t < m (fst s)"
  shows "od_calls (execute_intent sha pf ox orc x p visit s) = []"
proof (cases "Option.bind (ac_template p) (\<lambda>source. make_intent pf x source (cp_display_name (ac_candidate p)))")
  case (Some it)
  then have it: "it_expectation it = x" by (auto simp: bind_eq_Some_conv make_intent_about)
  from at obtain g L second a where first: "gate_admit sha g L (it_expectation it) (Aware 0 t) second = (Inr a, L1)"
    and inv: "ledger_inv L1" by (auto simp: admitted_at_def it)
  obtain now s1 where now: "en_now (ox_env ox) (fst s, snd s) = (now, s1)"
    by (cases "en_now (ox_env ox) (fst s, snd s)")
  have "now \<noteq> Some (Aware 0 t)"
  proof
    assume "now = Some (Aware 0 t)"
    then have "m (fst s) \<le> t" using ox(2) now unfolding passing_time_def
      by (metis canonical_utc_Some prod.collapse)
    then show False using s(2) by simp
  qed
  moreover have "env_ok (ox_env ox)" "ledger_inv (snd s)" "evolves L1 (snd s)"
    using ox(1) s(1) inv by (simp_all add: operation_ok_def sound_def)
  ultimately have "ar_calls (run_action sha pf (ox_gate ox) (ox_env ox) orc it s) = []"
    using second_admission_refused [OF first _ _ _ now] by fastforce
  then show ?thesis using Some by (simp add: execute_intent_def Let_def)
qed (simp add: execute_intent_def)

lemma visit_time:
  assumes "passing_time m ox" "visit_profile ox orc s = (ob, cs, orc', s')"
  shows "m (fst s) \<le> m (fst s')"
proof (rule visit_steady [OF assms(2), where R = "\<lambda>a b. m (fst a) \<le> m (fst b)"])
  show "steady (\<lambda>a b. m (fst a) \<le> m (fst b)) (en_page (ox_env ox))"
    and "m (fst w) \<le> m (fst (snd (ox_goto ox w)))" for w
    using assms(1) unfolding passing_time_def by blast+
qed simp

lemma perform_refused:
  assumes ox: "operation_ok ox" "passing_time m ox" and at: "admitted_at sha x t L1"
    and s: "sound L1 (snd s)" "t < m (fst s)"
  shows "od_calls (perform_action sha ox orc x p s) = []"
proof (cases "ac_action p")
  case Direct_message
  obtain g s1 where goto: "ox_goto ox s = (g, s1)" by (cases "ox_goto ox s")
  have "m (fst s) \<le> m (fst s1)" using ox(2) goto unfolding passing_time_def by (metis snd_conv)
  then have "t < m (fst s1)" using s(2) by simp
  from execute_intent_refused [OF ox at sound_trans [OF s(1) operation_parts(1) [OF ox(1) goto]] this]
  show ?thesis using Direct_message goto
    by (cases g) (simp_all add: perform_action_def perform_message_def)
next
  case Comment
  obtain ob cs orc1 s1 where visit: "visit_profile ox orc s = (ob, cs, orc1, s1)" by (metis prod_cases4)
  obtain e s2 where entry: "ox_entry ox s1 = (e, s2)" by (cases "ox_entry ox s1")
  have "m (fst s1) \<le> m (fst s2)" using ox(2) entry unfolding passing_time_def by (metis snd_conv)
  then have "t < m (fst s2)" using s(2) visit_time [OF ox(2) visit] by simp
  note refused = execute_intent_refused [OF ox at sound_trans [OF sound_trans [OF s(1) visit_sound [OF ox(1) visit]]
        operation_parts(2) [OF ox(1) entry]] this]
  then show ?thesis using Comment visit entry
    by (simp add: perform_action_def perform_comment_def split: option.split)
qed (auto simp: perform_action_def perform_browse_def split: prod.split)

text \<open>
  C5. When opening the browser takes any time at all, the operation of a comment or message command
  never executes it: its own admission stores the clock reading it was made with, the execution asks
  the gate again, and the gate refuses the same action at a later reading. No call of the page
  belongs to the execution, whatever the ledger, the page, the skills and other threads do.
\<close>

theorem advancing_clock_never_acts:
  assumes "operation_ok ox" and "passing_time m ox" and "ledger_inv L"
  shows "od_calls (run_operation sha ox orc c p (w, L)) = []"
proof (cases "action_expectation c p")
  case (Some x)
  obtain adm s1 where admit: "admit_now sha (ox_gate ox) (ox_env ox) x (w, L) = (adm, s1)"
    by (cases "admit_now sha (ox_gate ox) (ox_env ox) x (w, L)")
  show ?thesis
  proof (cases adm)
    case (Inl e)
    then show ?thesis using Some admit by (cases e) (simp_all add: run_operation_def Let_def)
  next
    case (Inr a)
    have "ledger_inv (snd (w, L))" using assms(3) by simp
    from admit_now_at [OF assms(1,2) this admit [unfolded Inr]] obtain t
      where t: "admitted_at sha x t (snd s1)" "t \<le> m (fst s1)" by blast
    obtain v s2 where earlier: "earlier_result sha ox p s1 = (v, s2)" by (cases "earlier_result sha ox p s1")
    obtain e s3 where opened: "ox_open ox s1 = (e, s3)" by (cases "ox_open ox s1")
    have "m (fst s1) < m (fst s3)" using assms(2) opened unfolding passing_time_def by (metis snd_conv)
    then have late: "t < m (fst s3)" using t(2) by simp
    have "od_calls (with_browser sha ox orc x p s1) = []"
      using perform_refused [OF assms(1,2) t(1) operation_parts(3) [OF assms(1) opened] late]
      by (simp add: with_browser_def Let_def opened split: option.split)
    moreover have "v = Some None \<Longrightarrow> s2 = s1"
      using earlier by (auto simp: earlier_result_def result_of_def and_then_def query_def
          split: option.splits if_splits prod.splits)
    ultimately show ?thesis
      using Some admit Inr earlier by (auto simp: run_operation_def Let_def split: option.split)
  qed
qed (simp add: run_operation_def)

lemma quiet_operation_time: "0 < step \<Longrightarrow> passing_time (\<lambda>n. seconds (int n)) (quiet_operation step)"
  by (auto simp: passing_time_def quiet_operation_def steady_def quiet_env_def lift_def sample_page_def at_second_def
      canonical_utc_Some seconds_def split: prod.split)

theorem advancing_clock_never_acts_witness:
  "od_calls (run_operation (\<lambda>_. fingerprint_b) (quiet_operation 1) sample_orchestrator action_execute the_command
      (120, running_ledger)) = []"
  using advancing_clock_never_acts [OF quiet_operation_ok quiet_operation_time] sample_ledgers_inv by simp

end
