(* ===== verification/Command_Processor.thy ===== *)
theory Command_Processor
  imports Crash_Recovery Action_Operation
begin

text \<open>
  The processor of the executor's commands (\<open>executor/command_processor.py\<close>): a command is recorded
  in the ledger before anything is done for it, and its answer is one batch of messages that is
  committed to the outbox together with the new checkpoint, and found there when the command comes
  again.

  The discovery and the action operation are fields of the processor, since the code gets them as
  arguments; the action operation of the executor is the one of \<open>Action_Operation\<close>
  (\<open>action_operation\<close> below). The decoded message is the argument of \<open>handle_command\<close>; a text that is
  no message is \<open>None\<close>.
\<close>

subsection \<open>Decimal numbers\<close>

fun decimal :: "nat \<Rightarrow> str" where
  "decimal n = (if n < 10 then [char_of (48 + n)] else decimal (n div 10) @ [char_of (48 + n mod 10)])"

declare decimal.simps [simp del]

definition decimal_int :: "int \<Rightarrow> str" where
  "decimal_int k = (if k < 0 then CHR ''-'' # decimal (nat (- k)) else decimal (nat k))"

subsection \<open>The processor\<close>

datatype discovery_state =
    Discovery_completed | Discovery_login_required | Discovery_handoff_required | Discovery_failed

definition discovery_value :: "discovery_state \<Rightarrow> str" where
  "discovery_value st = (case st of Discovery_completed \<Rightarrow> ''completed''
     | Discovery_login_required \<Rightarrow> ''login_required''
     | Discovery_handoff_required \<Rightarrow> ''handoff_required'' | Discovery_failed \<Rightarrow> ''failed'')"

record discovery_result =
  dr_state :: discovery_state
  dr_evidence :: str
  dr_page_revision :: int
  dr_candidates :: "candidate_payload list"

definition discovery_result_ok :: "discovery_result \<Rightarrow> bool" where
  "discovery_result_ok r \<longleftrightarrow>
     dr_evidence r \<in> set (expected_evidence (discovery_value (dr_state r)))
     \<and> 0 < dr_page_revision r \<and> length (dr_candidates r) \<le> max_task_target_limit
     \<and> list_all (\<lambda>c. cp_page_revision c = dr_page_revision r) (dr_candidates r)
     \<and> (dr_state r = Discovery_completed \<longleftrightarrow> dr_candidates r \<noteq> [])"

record 'p processor =
  pr_installation :: str
  pr_executor :: str
  pr_now :: "'p \<times> ledger \<Rightarrow> py_datetime option \<times> ('p \<times> ledger)"
  pr_ids :: "('p, str) act"
  pr_discovery :: "(discovery_command \<Rightarrow> ('p, discovery_result) act) option"
  pr_action :: "(envelope \<Rightarrow> action_command \<Rightarrow> ('p, result_fact) act) option"

definition action_operation ::
  "(bytes \<Rightarrow> bytes) \<Rightarrow> 'p operation \<Rightarrow> orchestrator \<Rightarrow> envelope \<Rightarrow> action_command \<Rightarrow> ('p, result_fact) act" where
  "action_operation sha ox orc c p s = (let r = run_operation sha ox orc c p s in (od_fact r, od_state r))"

text \<open>\<open>_now\<close>: any aware datetime, in UTC.\<close>

definition processor_now :: "'p processor \<Rightarrow> ('p, instant) act" where
  "processor_now pr s = (case pr_now pr s of (v, s1) \<Rightarrow> (Option.bind v astimezone_utc, s1))"

subsection \<open>Messages\<close>

definition processor_message ::
  "'p processor \<Rightarrow> envelope \<Rightarrow> message_type \<Rightarrow> str \<Rightarrow> int \<Rightarrow> payload \<Rightarrow> ('p, envelope) act" where
  "processor_message pr c m key n p =
     and_then (processor_now pr) (\<lambda>now.
     and_then (new_id (pr_ids pr)) (\<lambda>mid.
       result_of (reply_to (pr_installation pr) (pr_executor pr) c m key n p (now, mid))))"

definition result_key :: "str \<Rightarrow> str" where
  "result_key mid = ''executor:result:'' @ mid"

definition event_key :: "str \<Rightarrow> int \<Rightarrow> str" where
  "event_key task n = ''executor:event:'' @ task @ '':'' @ decimal_int n"

definition discovery_key :: "str \<Rightarrow> str \<Rightarrow> str" where
  "discovery_key aid part = ''executor:discovery:'' @ aid @ '':'' @ part"

definition processor_result :: "'p processor \<Rightarrow> envelope \<Rightarrow> ('p, envelope) act" where
  "processor_result pr c =
     processor_message pr c (if message_type c = M_action_execute then M_action_accept else M_task_accept)
       (result_key (message_id c)) (sequence c) (P_object [(''accepted'', JBool True)])"

definition control_ack :: "'p processor \<Rightarrow> envelope \<Rightarrow> str \<Rightarrow> ('p, envelope) act" where
  "control_ack pr c source =
     processor_message pr c M_task_control_ack (result_key source) (sequence c)
       (P_object [(''acknowledged'', JBool True)])"

definition event_payload :: "envelope \<Rightarrow> message_type \<Rightarrow> payload option \<Rightarrow> payload" where
  "event_payload c m given =
     (case given of Some p \<Rightarrow> p
      | None \<Rightarrow>
          (if m = M_step_progress then P_object [(''progress_percent'', JInt 100)]
           else case payload c of P_action a \<Rightarrow> P_object [(''action_id'', JStr (ac_action_id a))]
             | _ \<Rightarrow> P_object []))"

definition processor_event ::
  "'p processor \<Rightarrow> envelope \<Rightarrow> message_type \<Rightarrow> int \<Rightarrow> payload option \<Rightarrow> ('p, envelope) act" where
  "processor_event pr c m n given =
     (if m \<in> event_types then processor_message pr c m (event_key (task_id c) n) n (event_payload c m given)
      else and_then (processor_now pr) (\<lambda>_. and_then (new_id (pr_ids pr)) (\<lambda>_. result_of None)))"

definition discovery_chunk ::
  "'p processor \<Rightarrow> envelope \<Rightarrow> int \<Rightarrow> int \<Rightarrow> int \<Rightarrow> candidate_payload list \<Rightarrow> ('p, envelope) act" where
  "discovery_chunk pr c revision count index cs =
     processor_message pr c M_task_discovery_batch
       (discovery_key (execution_attempt_id c) (''batch:'' @ decimal_int index)) index
       (P_batch \<lparr>db_page_revision = revision, db_batch_index = index, db_batch_count = count,
          db_candidates = cs\<rparr>)"

definition discovery_completed_message ::
  "'p processor \<Rightarrow> envelope \<Rightarrow> discovery_result \<Rightarrow> int \<Rightarrow> int \<Rightarrow> ('p, envelope) act" where
  "discovery_completed_message pr c r count n =
     processor_message pr c M_task_discovery_completed
       (discovery_key (execution_attempt_id c) ''completed'') n
       (P_completed \<lparr>dd_outcome = discovery_value (dr_state r), dd_evidence = dr_evidence r,
          dd_page_revision = dr_page_revision r, dd_batch_count = count,
          dd_candidate_count = int (length (dr_candidates r))\<rparr>)"

subsection \<open>Batches\<close>

definition started_batch :: "'p processor \<Rightarrow> envelope \<Rightarrow> int \<Rightarrow> ('p, envelope list) act" where
  "started_batch pr c baseline =
     and_then (processor_result pr c) (\<lambda>r.
     and_then (processor_event pr c M_task_started (baseline + 1) None) (\<lambda>e. result_of (Some [r, e])))"

definition action_batch :: "'p processor \<Rightarrow> envelope \<Rightarrow> result_fact \<Rightarrow> int \<Rightarrow> ('p, envelope list) act" where
  "action_batch pr c f last_event =
     and_then (processor_result pr c) (\<lambda>r.
     and_then (processor_event pr c M_step_started (last_event + 1) None) (\<lambda>e.
     and_then (processor_event pr c (rf_type f) (last_event + 2) (Some (fact_payload f)))
       (\<lambda>e'. result_of (Some [r, e, e']))))"

definition batch_count :: "'a list \<Rightarrow> nat" where
  "batch_count cs = (length cs + max_discovery_batch_candidates - 1) div max_discovery_batch_candidates"

definition candidate_chunk :: "'a list \<Rightarrow> nat \<Rightarrow> 'a list" where
  "candidate_chunk cs i = take max_discovery_batch_candidates (drop (i * max_discovery_batch_candidates) cs)"

definition discovery_batch_messages ::
  "'p processor \<Rightarrow> envelope \<Rightarrow> int \<Rightarrow> discovery_result \<Rightarrow> ('p, envelope list) act" where
  "discovery_batch_messages pr c revision r =
     (let cs = dr_candidates r; count = batch_count cs in
      and_then (processor_result pr c) (\<lambda>accepted.
      and_then (collect (\<lambda>i. discovery_chunk pr c revision (int count) (int i + 1) (candidate_chunk cs i)) [0..<count])
        (\<lambda>chunks.
      and_then (discovery_completed_message pr c r (int count) (int count + 1))
        (\<lambda>completed. result_of (Some (accepted # chunks @ [completed]))))))"

subsection \<open>Outcomes\<close>

text \<open>The batch of a command, with the last event and the state of its checkpoint.\<close>

type_synonym outcome = "envelope list \<times> int \<times> checkpoint_state"

definition action_outcome :: "'p processor \<Rightarrow> envelope \<Rightarrow> action_command \<Rightarrow> checkpoint_row \<Rightarrow> ('p, outcome) act" where
  "action_outcome pr c p checkpoint =
     (case pr_action pr of
        None \<Rightarrow> result_of None
      | Some operate \<Rightarrow>
          (if ck_state checkpoint \<noteq> CK_running then result_of None
           else and_then (operate c p) (\<lambda>f.
             if rf_action_id f = ac_action_id p \<and> rf_target_id f = ac_target_id p
             then and_then (action_batch pr c f (ck_last_event checkpoint)) (\<lambda>batch.
               result_of (Some (batch, ck_last_event checkpoint + 2,
                 if rf_type f = M_task_outcome_uncertain then CK_outcome_uncertain else CK_running)))
             else result_of None)))"

definition discovery_outcome ::
  "'p processor \<Rightarrow> envelope \<Rightarrow> discovery_command \<Rightarrow> checkpoint_row \<Rightarrow> ('p, outcome) act" where
  "discovery_outcome pr c p checkpoint =
     (if ck_state checkpoint \<noteq> CK_received \<or> ck_last_event checkpoint \<noteq> 0 then result_of None
      else case pr_discovery pr of
        None \<Rightarrow> result_of None
      | Some discover \<Rightarrow> and_then (discover p) (\<lambda>r.
          if discovery_result_ok r \<and> dr_page_revision r = dc_page_revision p
            \<and> int (length (dr_candidates r)) \<le> dc_target_limit p
          then and_then (discovery_batch_messages pr c (dc_page_revision p) r) (\<lambda>batch.
            result_of (Some (batch, int (length batch) - 1, CK_terminal)))
          else result_of None))"

definition offer_outcome :: "'p processor \<Rightarrow> envelope \<Rightarrow> checkpoint_row \<Rightarrow> ('p, outcome) act" where
  "offer_outcome pr c checkpoint =
     (if ck_state checkpoint \<noteq> CK_received then result_of None
      else case offer_baseline c of
        None \<Rightarrow> result_of None
      | Some baseline \<Rightarrow>
          (if ck_last_event checkpoint \<noteq> baseline then result_of None
           else and_then (started_batch pr c baseline) (\<lambda>batch.
             result_of (Some (batch, baseline + 1, CK_running)))))"

definition command_outcome :: "'p processor \<Rightarrow> envelope \<Rightarrow> checkpoint_row \<Rightarrow> ('p, outcome) act" where
  "command_outcome pr c checkpoint =
     (case payload c of
        P_action p \<Rightarrow> action_outcome pr c p checkpoint
      | P_discovery p \<Rightarrow> discovery_outcome pr c p checkpoint
      | _ \<Rightarrow> offer_outcome pr c checkpoint)"

text \<open>A commit that is refused may have been made before: its messages are looked up again.\<close>

definition commit_or_replay :: "codec \<Rightarrow> str \<Rightarrow> int \<Rightarrow> outcome \<Rightarrow> ('p, envelope list) act" where
  "commit_or_replay cd source revision out =
     (case out of (batch, last_event, state) \<Rightarrow>
        and_then (attempt (transact (\<lambda>L. commit_outcome cd L source revision state last_event batch)))
          (\<lambda>committed. case committed of
             Some entries \<Rightarrow> result_of (Some (map oe_message entries))
           | None \<Rightarrow> and_then (query (\<lambda>L. outbox_for_command L source)) (\<lambda>replay.
               result_of (if replay = [] then None else Some (map oe_message replay)))))"

subsection \<open>Controls\<close>

definition advance_control :: "codec \<Rightarrow> 'p processor \<Rightarrow> pending_control \<Rightarrow> ('p, envelope option) act" where
  "advance_control cd pr pc =
     and_then (processor_event pr (pc_command pc) (control_event_type pc) (pc_next_sequence pc) None) (\<lambda>event.
     and_then (transact (\<lambda>L. complete_task_control cd L (message_id (pc_command pc)) (pc_revision pc) event))
       (\<lambda>completed. result_of (Some (case completed of
          Some x \<Rightarrow> if oe_replayed x then None else Some (oe_message x) | None \<Rightarrow> None))))"

definition advance_controls :: "codec \<Rightarrow> 'p processor \<Rightarrow> str option \<Rightarrow> ('p, envelope list) act" where
  "advance_controls cd pr source =
     and_then (query (\<lambda>L. pending_task_controls L 100)) (\<lambda>pcs.
     and_then (collect (advance_control cd pr)
         (filter (\<lambda>pc. case source of None \<Rightarrow> True | Some i \<Rightarrow> message_id (pc_command pc) = i) pcs))
       (\<lambda>rs. result_of (Some (List.map_filter id rs))))"

definition receive_control :: "codec \<Rightarrow> 'p processor \<Rightarrow> envelope \<Rightarrow> ('p, Ledger_Commands.receipt) act" where
  "receive_control cd pr c =
     (if message_type c = M_task_emergency_stop
      then and_then (processor_now pr) (\<lambda>t. transact (\<lambda>L. receive_task_emergency_stop cd L c (Aware 0 t)))
      else transact (\<lambda>L. receive_command cd L c))"

definition acknowledge :: "codec \<Rightarrow> 'p processor \<Rightarrow> envelope \<Rightarrow> str \<Rightarrow> ('p, unit) act" where
  "acknowledge cd pr c source =
     and_then (control_ack pr c source) (\<lambda>ack.
     and_then (transact (\<lambda>L. enqueue_outbox cd L source ack)) (\<lambda>_. result_of (Some ())))"

definition handle_control :: "codec \<Rightarrow> 'p processor \<Rightarrow> envelope \<Rightarrow> ('p, envelope list) act" where
  "handle_control cd pr c =
     and_then (receive_control cd pr c) (\<lambda>receipt.
     and_then (query (\<lambda>L. outbox_for_command L (rc_message_id receipt))) (\<lambda>existing.
     and_then (if existing = [] then acknowledge cd pr c (rc_message_id receipt) else result_of (Some ())) (\<lambda>_.
     and_then (advance_controls cd pr (Some (rc_message_id receipt))) (\<lambda>_.
     and_then (query (\<lambda>L. outbox_for_command L (rc_message_id receipt))) (\<lambda>entries.
       result_of (case entries of
         e # _ \<Rightarrow> if message_type (oe_message e) = M_task_control_ack then Some (map oe_message entries) else None
       | [] \<Rightarrow> None))))))"

subsection \<open>Handling a command\<close>

definition answer_command :: "codec \<Rightarrow> 'p processor \<Rightarrow> envelope \<Rightarrow> Ledger_Commands.receipt \<Rightarrow> ('p, envelope list) act" where
  "answer_command cd pr c receipt =
     and_then (query (\<lambda>L. Option.bind (get_checkpoint L (rc_attempt_id receipt)) id)) (\<lambda>checkpoint.
     and_then (command_outcome pr c checkpoint)
       (commit_or_replay cd (rc_message_id receipt) (ck_revision checkpoint)))"

definition process_command :: "codec \<Rightarrow> 'p processor \<Rightarrow> envelope \<Rightarrow> ('p, envelope list) act" where
  "process_command cd pr c =
     (if message_type c \<in> control_types then handle_control cd pr c
      else and_then (transact (\<lambda>L. receive_command cd L c)) (\<lambda>receipt.
        and_then (query (\<lambda>L. outbox_for_command L (rc_message_id receipt))) (\<lambda>existing.
          if existing \<noteq> [] then result_of (Some (map oe_message existing))
          else answer_command cd pr c receipt)))"

datatype command_error = Command_rejected | Command_expired

definition addressed_to :: "'p processor \<Rightarrow> envelope \<Rightarrow> bool" where
  "addressed_to pr c \<longleftrightarrow> valid_envelope c \<and> message_type c \<in> inbound_types
     \<and> installation_id c = pr_installation pr \<and> executor_id c = pr_executor pr"

definition handle_command ::
  "codec \<Rightarrow> 'p processor \<Rightarrow> envelope option \<Rightarrow> 'p \<times> ledger \<Rightarrow> (command_error + envelope list) \<times> ('p \<times> ledger)" where
  "handle_command cd pr source s =
     (case source of
        None \<Rightarrow> (Inl Command_rejected, s)
      | Some c \<Rightarrow>
          (if \<not> addressed_to pr c then (Inl Command_rejected, s)
           else case processor_now pr s of
             (None, s1) \<Rightarrow> (Inl Command_rejected, s1)
           | (Some now, s1) \<Rightarrow>
               (if deadline_at c \<le> now then (Inl Command_expired, s1)
                else case process_command cd pr c s1 of
                  (None, s2) \<Rightarrow> (Inl Command_rejected, s2)
                | (Some ms, s2) \<Rightarrow> (Inr ms, s2))))"

subsection \<open>Delivery\<close>

definition processor_outbox :: "bool \<Rightarrow> 'p processor \<Rightarrow> ('p, envelope list) act" where
  "processor_outbox recover pr =
     and_then (processor_now pr) (\<lambda>t.
     and_then (transact (\<lambda>L. outbox_for_delivery L (Aware 0 t) recover)) (\<lambda>entries.
       result_of (Some (map oe_message entries))))"

definition poll_controls :: "codec \<Rightarrow> 'p processor \<Rightarrow> ('p, envelope list) act" where
  "poll_controls cd pr = advance_controls cd pr None"

definition processor_mark_delivered :: "str \<Rightarrow> ('p, bool) act" where
  "processor_mark_delivered mid = transact (\<lambda>L. mark_outbox_delivered L mid)"

definition emergency_stop_received :: "('p, bool) act" where
  "emergency_stop_received = query (\<lambda>L. Some (has_received_task_emergency_stop L))"

end
