(* ===== verification/Processor_Properties.thy ===== *)
theory Processor_Properties
  imports Command_Processor Operation_Properties Command_Properties
begin

text \<open>
  Properties of the command processor: which commands it refuses and what it does then, that its
  answers are durable and are given again, and the shape of the batches it commits.
\<close>

subsection \<open>What the processor does to the ledger\<close>

definition processor_ok :: "'p processor \<Rightarrow> bool" where
  "processor_ok pr \<longleftrightarrow> keeps_ledger (pr_now pr) \<and> keeps_ledger (pr_ids pr)
     \<and> (\<forall>discover p. pr_discovery pr = Some discover \<longrightarrow> keeps_ledger (discover p))
     \<and> (\<forall>operate c p. pr_action pr = Some operate \<longrightarrow> keeps_ledger (operate c p))"

lemma action_operation_keeps:
  assumes "operation_ok ox" "published ct vf (or_registry orc)" "ct_max_external ct \<le> 1"
  shows "keeps_ledger (action_operation sha ox orc c p)"
proof (rule keepsI)
  fix s r s' assume run: "action_operation sha ox orc c p s = (r, s')"
  show "sound (snd s) (snd s')"
  proof (cases "action_expectation c p")
    case None
    then show ?thesis using run by (simp add: action_operation_def run_operation_def)
  next
    case (Some x)
    have "sound (snd s) (snd s')" if "ledger_inv (snd s)"
      using run_operation_ok [OF assms that Some, of sha] run
      by (auto simp: action_operation_def Let_def operation_guarantee_def)
    then show ?thesis by (auto simp: sound_def)
  qed
qed

lemma keeps_processor_now: "processor_ok pr \<Longrightarrow> keeps_ledger (processor_now pr)"
  by (rule keepsI) (auto simp: processor_now_def processor_ok_def split: prod.splits intro: keepsD)

lemma keeps_new_id: "processor_ok pr \<Longrightarrow> keeps_ledger (new_id (pr_ids pr))"
  unfolding new_id_def processor_ok_def by (intro sound_world.keeps_and_then) auto

lemma keeps_processor_message: "processor_ok pr \<Longrightarrow> keeps_ledger (processor_message pr c m key n p)"
  unfolding processor_message_def
  by (intro sound_world.keeps_and_then keeps_processor_now keeps_new_id sound_world.keeps_result)

lemma keeps_processor_event: "processor_ok pr \<Longrightarrow> keeps_ledger (processor_event pr c m n given)"
  unfolding processor_event_def
  by (cases "m \<in> event_types")
    (simp_all add: keeps_processor_message sound_world.keeps_and_then keeps_processor_now keeps_new_id)

lemmas keeps_parts = sound_world.keeps_and_then sound_world.keeps_result sound_world.keeps_query
  sound_world.keeps_collect keeps_attempt keeps_processor_now keeps_processor_message keeps_processor_event

lemma keeps_batches:
  assumes "processor_ok pr"
  shows "keeps_ledger (started_batch pr c baseline)" "keeps_ledger (action_batch pr c f n)"
    "keeps_ledger (discovery_batch_messages pr c revision r)"
  using assms unfolding started_batch_def action_batch_def discovery_batch_messages_def processor_result_def
    discovery_chunk_def discovery_completed_message_def Let_def
  by (intro keeps_parts; assumption)+

lemma keeps_command_outcome:
  assumes "processor_ok pr"
  shows "keeps_ledger (command_outcome pr c checkpoint)"
proof -
  have "keeps_ledger (action_outcome pr c p checkpoint)" for p
    using assms unfolding action_outcome_def
    by (auto simp: processor_ok_def split: option.split intro!: keeps_parts keeps_batches)
  moreover have "keeps_ledger (discovery_outcome pr c p checkpoint)" for p
    using assms unfolding discovery_outcome_def
    by (auto simp: processor_ok_def split: option.split intro!: keeps_parts keeps_batches)
  moreover have "keeps_ledger (offer_outcome pr c checkpoint)"
    using assms unfolding offer_outcome_def by (auto split: option.split intro!: keeps_parts keeps_batches)
  ultimately show ?thesis by (simp add: command_outcome_def split: payload.split)
qed

lemma keeps_commit: "keeps_ledger (transact (\<lambda>L. commit_outcome cd L source revision st n batch))"
  by (rule sound_world.keeps_transact) (rule sound_commit_outcome)

lemma keeps_commit_or_replay: "keeps_ledger (commit_or_replay cd source revision out)"
  unfolding commit_or_replay_def
  by (auto split: prod.split option.split intro!: keeps_parts keeps_commit)

lemma keeps_advance_controls: "processor_ok pr \<Longrightarrow> keeps_ledger (advance_controls cd pr source)"
  unfolding advance_controls_def advance_control_def
  by (intro keeps_parts sound_world.keeps_transact) (auto intro: sound_complete_control)

lemma keeps_receive: "keeps_ledger (transact (\<lambda>L. receive_command cd L c))"
  by (rule sound_world.keeps_transact) (simp add: receive_command_def sound_receive_command)

lemma keeps_receive_control: "processor_ok pr \<Longrightarrow> keeps_ledger (receive_control cd pr c)"
  unfolding receive_control_def
  by (auto intro!: keeps_parts keeps_receive sound_world.keeps_transact intro: sound_receive_stop)

lemma keeps_acknowledge: "processor_ok pr \<Longrightarrow> keeps_ledger (acknowledge cd pr c source)"
  unfolding acknowledge_def control_ack_def
  by (intro keeps_parts sound_world.keeps_transact) (auto intro: sound_enqueue)

lemma keeps_handle_control: "processor_ok pr \<Longrightarrow> keeps_ledger (handle_control cd pr c)"
  unfolding handle_control_def
  by (auto intro!: keeps_parts keeps_advance_controls keeps_receive_control keeps_acknowledge)

lemma keeps_process_command: "processor_ok pr \<Longrightarrow> keeps_ledger (process_command cd pr c)"
  unfolding process_command_def answer_command_def
  by (auto intro!: keeps_parts keeps_handle_control keeps_receive keeps_command_outcome keeps_commit_or_replay)

lemma handle_command_keeps:
  assumes "processor_ok pr"
  shows "keeps_ledger (handle_command cd pr source)"
proof (rule keepsI)
  fix s r s' assume run: "handle_command cd pr source s = (r, s')"
  show "sound (snd s) (snd s')"
  proof (cases source)
    case (Some c)
    obtain v s1 where now: "processor_now pr s = (v, s1)" by (cases "processor_now pr s")
    obtain w s2 where process: "process_command cd pr c s1 = (w, s2)" by (cases "process_command cd pr c s1")
    have "sound (snd s) (snd s1)" by (rule keepsD [OF keeps_processor_now [OF assms] now])
    moreover have "sound (snd s1) (snd s2)" by (rule keepsD [OF keeps_process_command [OF assms] process])
    ultimately show ?thesis
      using run Some now process
      by (auto simp: handle_command_def split: if_splits option.splits intro: sound_trans)
  qed (use run in \<open>simp add: handle_command_def\<close>)
qed

text \<open>
  Whatever message comes, and whatever the operations, the clock and other threads do, handling
  it keeps the invariant of the ledger and moves it only forward; with the executor's action
  operation in place too.
\<close>

lemma commands_keep_ledger:
  assumes "processor_ok pr" and "operation_ok ox" and "published ct vf (or_registry orc)"
    and "ct_max_external ct \<le> 1" and "ledger_inv L"
    and "handle_command cd (pr\<lparr>pr_action := Some (action_operation sha ox orc)\<rparr>) source (p, L) = (r, (p', L'))"
  shows "ledger_inv L' \<and> evolves L L'"
proof -
  have "processor_ok (pr\<lparr>pr_action := Some (action_operation sha ox orc)\<rparr>)"
    using assms(1) action_operation_keeps [OF assms(2-4)] by (simp add: processor_ok_def)
  from keepsD [OF handle_command_keeps [OF this] assms(6)] show ?thesis
    using assms(5) by (simp add: sound_def)
qed

subsection \<open>Answers\<close>

text \<open>The messages the outbox holds for a command.\<close>

definition answered :: "ledger \<Rightarrow> str \<Rightarrow> envelope list" where
  "answered L source = map ob_envelope (filter (\<lambda>r. ob_source r = source) (outbox L))"

lemma read_entries: "read_all (\<lambda>r. entry_of_row r True) rows = Some es \<Longrightarrow> map oe_message es = map ob_envelope rows"
  by (induction rows arbitrary: es)
    (auto simp: bind_eq_Some_conv entry_of_row_def parse_outbound_def split: if_splits)

lemma outbox_answered:
  assumes "ledger_inv L" "outbox_for_command L source = Some es"
  shows "map oe_message es = answered L source"
proof -
  have "sort_key ob_ordinal (filter (\<lambda>r. ob_source r = source) (outbox L)) = filter (\<lambda>r. ob_source r = source) (outbox L)"
    using assms(1) by (intro sorted_by_ordinal) (simp add: inv_defs)
  then show ?thesis
    using assms(2) read_entries
    by (auto simp: outbox_for_command_def answered_def bind_eq_Some_conv canonical_uuid_v4_Some)
qed

lemma answered_later:
  assumes "evolves L L'"
  shows "take (length (answered L source)) (answered L' source) = answered L source"
proof -
  let ?n = "length (outbox L)" and ?P = "\<lambda>r. ob_source r = source"
  have "list_all2 outbox_le (outbox L) (take ?n (outbox L'))"
    using assms by (simp add: evolves_def table_le_def)
  then have "map ob_envelope (filter ?P (take ?n (outbox L'))) = answered L source"
    unfolding answered_def
  proof (induction rule: list_all2_induct)
    case (Cons a as b bs)
    then have "ob_source b = ob_source a \<and> ob_envelope b = ob_envelope a"
      by (cases a; cases b) (auto simp: outbox_le_def)
    then show ?case using Cons.IH by simp
  qed simp
  moreover have "answered L' source =
      map ob_envelope (filter ?P (take ?n (outbox L'))) @ map ob_envelope (filter ?P (drop ?n (outbox L')))"
    unfolding answered_def by (metis append_take_drop_id filter_append map_append)
  ultimately show ?thesis by simp
qed

text \<open>The row a command was recorded in.\<close>

definition recorded :: "codec \<Rightarrow> ledger \<Rightarrow> envelope \<Rightarrow> str \<Rightarrow> bool" where
  "recorded cd L c source \<longleftrightarrow> (\<exists>r \<in> set (commands L). cm_message_id r = source
     \<and> (cm_message_id r = message_id c \<or> cm_idempotency_key r = idempotency_key c)
     \<and> cm_intent_sha256 r = command_intent_fingerprint cd c)"

lemma recorded_later: "evolves L L' \<Longrightarrow> recorded cd L c source \<Longrightarrow> recorded cd L' c source"
proof -
  assume "evolves L L'" and r: "recorded cd L c source"
  then have "commands L = take (length (commands L)) (commands L')"
    by (simp add: evolves_def table_le_def list.rel_eq)
  then have "set (commands L) \<subseteq> set (commands L')" by (metis set_take_subset)
  then show "recorded cd L' c source" using r by (auto simp: recorded_def)
qed

lemma engage_if_commands: "engage_if L aid t = Some L' \<Longrightarrow> commands L' = commands L"
  by (auto simp: engage_if_def engage_emergency_stop_def engage_action_latch_def bind_eq_Some_conv Let_def
      split: option.splits if_splits prod.splits)

lemma receive_recorded:
  assumes "receive_command_at cd L c at = Some (receipt, L')"
  shows "recorded cd L' c (rc_message_id receipt)"
  using assms
proof (cases rule: receive_command_at_SomeD)
  case (fresh cks L1)
  have "commands L1 = commands L @ [command_row_of cd c]"
    using fresh(5) by (auto simp: insert_command_def bind_eq_Some_conv sql_insert_Some split: if_splits)
  then show ?thesis
    using engage_if_commands [OF fresh(6)] fresh(7) by (simp add: recorded_def receipt_of_row_def command_row_of_def)
next
  case (known r)
  then show ?thesis
    using engage_if_commands [OF known(6)] by (auto simp: recorded_def receipt_of_row_def)
qed

lemma commit_answered:
  assumes "commit_outcome cd L source n st event messages = Some (entries, L')"
  shows "map oe_message entries = answered L' source" "messages \<noteq> []" "map oe_message entries = messages"
proof -
  show messages: "messages \<noteq> []"
    using assms by (auto simp: commit_outcome_def bind_eq_Some_conv split: if_splits)
  from assms obtain c p cks where none: "\<forall>r \<in> set (outbox L). ob_source r \<noteq> source"
    and ins: "insert_outbox_all cd (L\<lparr>checkpoints := cks\<rparr>) source (next_ordinal (outbox L)) messages = Some L'"
    and entries: "entries = map (\<lambda>e. \<lparr>oe_message = e, oe_source = source, oe_replayed = False\<rparr>) messages"
    by (rule commit_outcome_SomeD)
  show "map oe_message entries = messages" using entries by (simp add: comp_def)
  have "map ob_envelope (appended_rows cd source k messages) = messages" for k
    by (induction cd source k messages rule: appended_rows.induct) (simp_all add: outbox_row_of_def)
  moreover have "filter (\<lambda>r. ob_source r = source) (appended_rows cd source k messages) = appended_rows cd source k messages" for k
    using appended_rows_source by (intro filter_True) blast
  moreover have "filter (\<lambda>r. ob_source r = source) (outbox L) = []" using none by (simp add: filter_empty_conv)
  ultimately show "map oe_message entries = answered L' source"
    using insert_outbox_all_SomeD [OF ins] entries by (simp add: answered_def comp_def)
qed

lemma commit_or_replay_answered:
  assumes "ledger_inv (snd s)" "commit_or_replay cd source revision out s = (Some ms, s')"
  shows "ms \<noteq> [] \<and> ms = answered (snd s') source"
proof -
  obtain batch n st where out: "out = (batch, n, st)" by (cases out)
  from assms(2) [unfolded out] obtain committed s1 where
    tried: "transact (\<lambda>L. commit_outcome cd L source revision st n batch) s = (committed, s1)"
    and rest: "(case committed of Some entries \<Rightarrow> result_of (Some (map oe_message entries))
       | None \<Rightarrow> and_then (query (\<lambda>L. outbox_for_command L source)) (\<lambda>replay.
           result_of (if replay = [] then None else Some (map oe_message replay)))) s1 = (Some ms, s')"
    by (auto simp: commit_or_replay_def and_then_Some attempt_Some)
  show ?thesis
  proof (cases committed)
    case None
    then have "s1 = s" using tried by (simp add: transact_None)
    then show ?thesis
      using None rest outbox_answered [OF assms(1)] by (auto simp: and_then_Some split: if_splits)
  next
    case (Some entries)
    then obtain L where "commit_outcome cd (snd s) source revision st n batch = Some (entries, L)" "s1 = (fst s, L)"
      using tried by (auto simp: transact_Some)
    then show ?thesis using Some rest commit_answered by fastforce
  qed
qed

lemma process_answered:
  assumes pr: "processor_ok pr" and inv: "ledger_inv (snd s)" and run: "process_command cd pr c s = (Some ms, s')"
  shows "\<exists>source. ms \<noteq> [] \<and> ms = answered (snd s') source \<and> recorded cd (snd s') c source"
proof (cases "message_type c \<in> control_types")
  case True
  then have "handle_control cd pr c s = (Some ms, s')" using run by (simp add: process_command_def)
  then obtain receipt s1 existing s2 u s3 moved s4 entries s5 where
    received: "receive_control cd pr c s = (Some receipt, s1)"
    and found: "query (\<lambda>L. outbox_for_command L (rc_message_id receipt)) s1 = (Some existing, s2)"
    and ack: "(if existing = [] then acknowledge cd pr c (rc_message_id receipt) else result_of (Some ())) s2 = (Some u, s3)"
    and controls: "advance_controls cd pr (Some (rc_message_id receipt)) s3 = (Some moved, s4)"
    and entries: "query (\<lambda>L. outbox_for_command L (rc_message_id receipt)) s4 = (Some entries, s5)"
    and returned: "result_of (case entries of
         e # _ \<Rightarrow> if message_type (oe_message e) = M_task_control_ack then Some (map oe_message entries) else None
       | [] \<Rightarrow> None) s5 = (Some ms, s')"
    unfolding handle_control_def and_then_Some by blast
  have recorded: "recorded cd (snd s1) c (rc_message_id receipt)"
    using received receive_recorded
    by (auto simp: receive_control_def receive_task_emergency_stop_def receive_command_def and_then_Some transact_Some
        split: if_splits)
  have s2: "s2 = s1" using found by simp
  have "sound (snd s) (snd s1)" by (rule keepsD [OF keeps_receive_control [OF pr] received])
  then have inv1: "ledger_inv (snd s1)" using inv by (simp add: sound_def)
  have "sound (snd s1) (snd s3)"
    using ack keepsD [OF keeps_acknowledge [OF pr], of cd c "rc_message_id receipt" s2 "Some u" s3]
    by (cases "existing = []") (simp_all add: s2)
  moreover have "sound (snd s3) (snd s4)" by (rule keepsD [OF keeps_advance_controls [OF pr] controls])
  ultimately have later: "ledger_inv (snd s4)" "evolves (snd s1) (snd s4)"
    using inv1 sound_trans by (auto simp: sound_def intro: evolves_trans)
  have "ms = map oe_message entries \<and> ms \<noteq> [] \<and> s' = s4"
    using entries returned by (auto split: list.splits if_splits)
  moreover have "map oe_message entries = answered (snd s4) (rc_message_id receipt)"
    using outbox_answered [OF later(1)] entries by simp
  ultimately show ?thesis using recorded_later [OF later(2) recorded] by auto
next
  case False
  then obtain receipt s1 existing s2 where
    received: "transact (\<lambda>L. receive_command cd L c) s = (Some receipt, s1)"
    and found: "query (\<lambda>L. outbox_for_command L (rc_message_id receipt)) s1 = (Some existing, s2)"
    and rest: "(if existing \<noteq> [] then result_of (Some (map oe_message existing)) else answer_command cd pr c receipt) s2
      = (Some ms, s')"
    using run unfolding process_command_def by (auto simp: and_then_Some)
  have s2: "s2 = s1" using found by simp
  have recorded: "recorded cd (snd s1) c (rc_message_id receipt)"
    using received receive_recorded by (auto simp: receive_command_def transact_Some)
  have "sound (snd s) (snd s1)" by (rule keepsD [OF keeps_receive received])
  then have inv1: "ledger_inv (snd s1)" using inv by (simp add: sound_def)
  show ?thesis
  proof (cases "existing = []")
    case False
    then have "ms = map oe_message existing" "ms \<noteq> []" "s' = s1" using rest by (auto simp: s2)
    moreover have "map oe_message existing = answered (snd s1) (rc_message_id receipt)"
      using outbox_answered [OF inv1] found by simp
    ultimately show ?thesis using recorded by auto
  next
    case True
    then obtain checkpoint s3 out s4 where
      checkpoint: "query (\<lambda>L. Option.bind (get_checkpoint L (rc_attempt_id receipt)) id) s1 = (Some checkpoint, s3)"
      and out: "command_outcome pr c checkpoint s3 = (Some out, s4)"
      and commit: "commit_or_replay cd (rc_message_id receipt) (ck_revision checkpoint) out s4 = (Some ms, s')"
      using rest unfolding answer_command_def s2 by (auto simp: and_then_Some)
    have "sound (snd s1) (snd s4)"
      using keepsD [OF keeps_command_outcome [OF pr] out] checkpoint by simp
    then have inv4: "ledger_inv (snd s4)" "evolves (snd s1) (snd s4)" using inv1 by (simp_all add: sound_def)
    have "sound (snd s4) (snd s')" by (rule keepsD [OF keeps_commit_or_replay commit])
    then have "evolves (snd s1) (snd s')" using inv4 by (auto simp: sound_def intro: evolves_trans)
    then show ?thesis
      using commit_or_replay_answered [OF inv4(1) commit] recorded_later [OF _ recorded] by blast
  qed
qed

text \<open>
  C6. What the processor returns for a command is durable: it is everything the outbox holds for the
  recorded command (in order, and not nothing), the command is recorded with the digest of its
  intent, and in every later ledger the outbox still begins with these messages for it.
\<close>

theorem answers_are_durable:
  assumes "processor_ok pr" and "ledger_inv L"
    and "handle_command cd pr (Some c) (p, L) = (Inr ms, (p', L'))"
  shows "\<exists>source. ms \<noteq> [] \<and> ms = answered L' source \<and> recorded cd L' c source
    \<and> (\<forall>later. evolves L' later \<longrightarrow> take (length ms) (answered later source) = ms)"
proof -
  from assms(3) obtain now s1 where now: "processor_now pr (p, L) = (Some now, s1)"
    and process: "process_command cd pr c s1 = (Some ms, (p', L'))"
    by (auto simp: handle_command_def split: if_splits option.splits prod.splits)
  have "sound L (snd s1)" using keepsD [OF keeps_processor_now [OF assms(1)] now] by simp
  then have "ledger_inv (snd s1)" using assms(2) by (simp add: sound_def)
  from process_answered [OF assms(1) this process] show ?thesis
    using answered_later by fastforce
qed

lemma command_rows_filter:
  assumes "sql_wf command_ok command_clash rows" "r \<in> set rows"
  shows "filter (\<lambda>x. cm_message_id x = cm_message_id r \<or> cm_idempotency_key x = cm_idempotency_key r) rows = [r]"
  using assms
  by (induction rows) (auto simp: sql_wf_def command_clash_def filter_empty_conv)

lemma replay_answer:
  assumes "ledger_inv L" and "list_all outbound_row (outbox L)"
    and "r \<in> set (commands L)" and "cm_message_id r = message_id c" and "cm_idempotency_key r = idempotency_key c"
    and "cm_intent_sha256 r = command_intent_fingerprint cd c" and "answered L (message_id c) \<noteq> []"
    and "addressed_to pr c" and "command_identity_ok L c" and "message_type c \<notin> control_types"
    and "processor_now pr (p, L) = (Some now, (p', L))" and "now < deadline_at c"
  shows "handle_command cd pr (Some c) (p, L) = (Inr (answered L (message_id c)), (p', L))"
proof -
  let ?same = "\<lambda>x. cm_message_id x = message_id c \<or> cm_idempotency_key x = idempotency_key c"
  have "filter ?same (commands L) = [r]"
    using command_rows_filter [of "commands L" r] assms(1,3-5) by (simp add: inv_defs)
  moreover have "message_type c \<noteq> M_task_emergency_stop" using assms(10) by (auto simp: control_types_def)
  ultimately have received: "receive_command cd L c = Some (receipt_of_row r True, L)"
    using receive_command_replay [of c L r cd] assms(6,9) by simp
  let ?rows = "filter (\<lambda>r. ob_source r = message_id c) (outbox L)"
  have "sort_key ob_ordinal ?rows = ?rows"
    using assms(1) by (intro sorted_by_ordinal) (simp add: inv_defs)
  moreover have "list_all outbound_row ?rows" using assms(2) by (auto simp: list_all_iff)
  moreover have "canonical_uuid_v4 (message_id c) = Some (message_id c)"
    using assms(8) by (simp add: addressed_to_def valid_envelope_def canonical_uuid_v4_Some)
  ultimately have "outbox_for_command L (message_id c) = Some (map replayed_entry ?rows)"
    by (simp add: outbox_for_command_def read_all_outbound)
  moreover have "map oe_message (map replayed_entry ?rows) = answered L (message_id c)"
    by (simp add: answered_def replayed_entry_def comp_def)
  ultimately have "process_command cd pr c (p', L) = (Some (answered L (message_id c)), (p', L))"
    using received assms(4,7,10)
    by (auto simp: process_command_def and_then_def transact_def query_def result_of_def receipt_of_row_def answered_def)
  then show ?thesis using assms(8,11,12) by (simp add: handle_command_def)
qed

text \<open>
  A command that was answered is answered again from the outbox, with no change of the ledger and
  without its operation (the statement holds for every operation, also for none): a redelivery never
  runs an action twice.
\<close>

lemma answered_command_replayed:
  assumes "ledger_inv L" and "list_all outbound_row (outbox L)"
    and "r \<in> set (commands L)" and "cm_message_id r = message_id c" and "cm_idempotency_key r = idempotency_key c"
    and "cm_intent_sha256 r = command_intent_fingerprint cd c" and "answered L (message_id c) \<noteq> []"
    and "addressed_to pr c" and "command_identity_ok L c" and "message_type c \<notin> control_types"
    and "processor_now pr (p, L) = (Some now, (p', L))" and "now < deadline_at c"
  shows "handle_command cd pr (Some c) (p, L) = (Inr (answered L (message_id c)), (p', L))"
  by (rule replay_answer [OF assms])

subsection \<open>A sample processor\<close>

text \<open>Its identifiers are numbered by the state.\<close>

definition sample_processor :: "nat processor" where
  "sample_processor = \<lparr>pr_installation = installation, pr_executor = executor,
     pr_now = (\<lambda>s. (Some (at_second 20), s)),
     pr_ids = (\<lambda>s. (Some (uuid (''0123456789abcdef'' ! (fst s mod 16))), (fst s + 1, snd s))),
     pr_discovery = None, pr_action = None\<rparr>"

lemma sample_processor_ok: "processor_ok sample_processor"
  by (simp add: processor_ok_def sample_processor_def keeps_def)

lemma offer_row_fields: "cm_message_id offer_row = message_id offer" "cm_idempotency_key offer_row = idempotency_key offer"
    "cm_intent_sha256 offer_row = command_intent_fingerprint sample_codec offer"
  by (simp_all add: offer_row_def command_row_of_def)

lemma offer_valid: "valid_envelope offer"
  by code_simp

lemma offer_addressed: "addressed_to sample_processor offer" "command_identity_ok running_ledger offer"
  using offer_valid
  by (simp_all add: addressed_to_def command_identity_ok_def sample_processor_def running_ledger)
    (simp_all add: sample_defs)

lemma offer_answered: "answered running_ledger (message_id offer) = [accept, started]"
  by (simp add: answered_def running_ledger outbox_row_of_def sample_defs)

lemma offer_known:
  "offer_row \<in> set (commands running_ledger)" "list_all outbound_row (outbox running_ledger)"
  "processor_now sample_processor (0, running_ledger) = (Some (seconds 20), (0, running_ledger))"
  "seconds 20 < deadline_at offer" "message_type offer \<notin> control_types"
proof -
  show "offer_row \<in> set (commands running_ledger)" by (simp add: running_ledger)
  show "list_all outbound_row (outbox running_ledger)"
    by (simp add: running_ledger outbound_row_def outbox_row_of_def sample_defs)
  show "processor_now sample_processor (0, running_ledger) = (Some (seconds 20), (0, running_ledger))"
    by (simp add: processor_now_def sample_processor_def at_second_def astimezone_utc_def seconds_def
        valid_instant_def max_instant_def)
  show "seconds 20 < deadline_at offer" by (simp add: sample_defs seconds_def)
  show "message_type offer \<notin> control_types" by (simp add: sample_defs)
qed

lemma offer_replayed:
  "handle_command sample_codec sample_processor (Some offer) (0, running_ledger) = (Inr [accept, started], (0, running_ledger))"
  using replay_answer [OF sample_ledgers_inv(1) offer_known(2,1) offer_row_fields _ offer_addressed offer_known(5,3,4)]
  by (simp add: offer_answered)

lemma answered_command_replayed_witness:
  "handle_command sample_codec sample_processor (Some offer) (0, running_ledger) = (Inr [accept, started], (0, running_ledger))"
  using answered_command_replayed [OF sample_ledgers_inv(1) offer_known(2,1) offer_row_fields _ offer_addressed
      offer_known(5,3,4)]
  by (simp add: offer_answered)

theorem answers_are_durable_witness: "\<exists>source. answered running_ledger source = [accept, started]"
  using answers_are_durable [OF sample_processor_ok sample_ledgers_inv(1) offer_replayed] by metis

lemma commands_keep_ledger_witness:
  "ledger_inv (snd (snd (handle_command sample_codec
     (sample_processor\<lparr>pr_action := Some (action_operation (\<lambda>_. fingerprint_b) (quiet_operation 1) sample_orchestrator)\<rparr>)
     (Some action_execute) (0, running_ledger))))"
  using commands_keep_ledger [OF sample_processor_ok quiet_operation_ok sample_orchestrator_published
      one_external_step sample_ledgers_inv(1)]
  by (metis prod.collapse)

end
