(* ===== verification/Processor_Messages.thy ===== *)
theory Processor_Messages
  imports Command_Processor Message_Properties
begin

text \<open>
  The messages the processor builds always pass their validation, as long as its clock and its
  identifier source work and the event numbers stay in range.
\<close>

subsection \<open>Keys\<close>

definition key_char :: "char \<Rightarrow> bool" where
  "key_char c \<longleftrightarrow> alnum c \<or> c \<in> set ''._:/-''"

lemma key_char_literals: "list_all key_char ''0123456789abcdef-:.''"
  by (simp add: key_char_def alnum_def)

lemma idempotency_key_append:
  "alnum c \<Longrightarrow> list_all key_char s \<Longrightarrow> length s \<le> 127 \<Longrightarrow> idempotency_key_ok (c # s)"
  by (auto simp: idempotency_key_ok_def key_char_def list_all_iff)

lemma uuid_key_chars:
  assumes "is_canonical_uuid_v4 s"
  shows "list_all key_char s" "length s = 36"
proof -
  show len: "length s = 36" using assms by (simp add: is_canonical_uuid_v4_def)
  have "key_char (s ! i)" if "i < length s" for i
  proof -
    have "uuid_shape i (s ! i)"
      using assms that by (auto simp: is_canonical_uuid_v4_def list_all_length nth_enumerate_eq)
    then have "s ! i \<in> set ''0123456789abcdef-:.''"
      by (auto simp: uuid_shape_def hex_digit_def split: if_splits)
    then show ?thesis using key_char_literals by (simp only: list_all_iff)
  qed
  then show "list_all key_char s" by (simp add: list_all_length)
qed

lemma digit_key_char: "n < 10 \<Longrightarrow> key_char (char_of (48 + n :: nat))"
proof -
  have "\<forall>n < 10. char_of (48 + n :: nat) \<in> set ''0123456789abcdef-:.''" by code_simp
  then show "n < 10 \<Longrightarrow> key_char (char_of (48 + n :: nat))" using key_char_literals by (auto simp only: list_all_iff)
qed

lemma decimal_key_chars: "list_all key_char (decimal n)"
proof (induction n rule: decimal.induct)
  case (1 n)
  then show ?case
    by (subst decimal.simps) (auto simp: digit_key_char [of "n mod 10", simplified] digit_key_char)
qed

lemma decimal_length: "n < 10 ^ Suc k \<Longrightarrow> length (decimal n) \<le> Suc k"
proof (induction k arbitrary: n)
  case (Suc k)
  then show ?case by (cases "n < 10") (subst decimal.simps, auto)+
qed (subst decimal.simps, simp)

lemma sequence_decimal:
  assumes "sequence_ok n"
  shows "list_all key_char (decimal_int n)" "length (decimal_int n) \<le> 16"
proof -
  have n: "1 \<le> n" "n \<le> 9007199254740991" using assms by (simp_all add: sequence_ok_def max_cross_runtime_sequence_def)
  then have "nat n < 10 ^ Suc 15" by simp
  then show "list_all key_char (decimal_int n)" "length (decimal_int n) \<le> 16"
    using n decimal_length [of "nat n" 15] by (simp_all add: decimal_int_def decimal_key_chars)
qed

lemma literal_key_chars:
  "list_all key_char ''xecutor:result:''" "list_all key_char ''xecutor:event:''" "list_all key_char ''xecutor:discovery:''"
  "list_all key_char ''batch:''" "list_all key_char ''completed''" "key_char CHR '':''" "alnum CHR ''e''"
  by (simp_all add: key_char_def alnum_def)

lemma result_key_ok: "is_canonical_uuid_v4 i \<Longrightarrow> idempotency_key_ok (result_key i)"
  using idempotency_key_append [OF literal_key_chars(7), of "''xecutor:result:'' @ i"] uuid_key_chars [of i]
    literal_key_chars(1) by (simp add: result_key_def)

lemma event_key_ok: "is_canonical_uuid_v4 i \<Longrightarrow> sequence_ok n \<Longrightarrow> idempotency_key_ok (event_key i n)"
  using idempotency_key_append [OF literal_key_chars(7), of "''xecutor:event:'' @ i @ '':'' @ decimal_int n"]
    uuid_key_chars [of i] sequence_decimal [of n] literal_key_chars(2,6) by (simp add: event_key_def)

lemma discovery_key_ok:
  assumes "is_canonical_uuid_v4 i" "list_all key_char part" "length part \<le> 50"
  shows "idempotency_key_ok (discovery_key i part)"
  using idempotency_key_append [OF literal_key_chars(7), of "''xecutor:discovery:'' @ i @ '':'' @ part"]
    uuid_key_chars [OF assms(1)] assms(2,3) literal_key_chars(3,6) by (simp add: discovery_key_def)

subsection \<open>Messages\<close>

definition responsive :: "'p processor \<Rightarrow> bool" where
  "responsive pr \<longleftrightarrow> is_canonical_uuid_v4 (pr_installation pr) \<and> is_canonical_uuid_v4 (pr_executor pr)
     \<and> (\<forall>s. \<exists>t s1. processor_now pr s = (Some t, s1) \<and> valid_instant t \<and> valid_instant (t + message_lifetime))
     \<and> (\<forall>s. \<exists>i s1. pr_ids pr s = (Some i, s1) \<and> is_canonical_uuid_v4 i)"

text \<open>The payload checks of a message, which do not depend on its other fields.\<close>

definition payload_valid :: "message_type \<Rightarrow> payload \<Rightarrow> bool" where
  "payload_valid m p \<longleftrightarrow> payload_value_ok 0 (payload_json p) \<and> (case p of
     P_object kvs \<Rightarrow> m \<in> result_types \<union> event_types \<and> distinct (map fst kvs)
   | P_batch b \<Rightarrow> m = M_task_discovery_batch \<and> discovery_batch_ok b
   | P_completed d \<Rightarrow> m = M_task_discovery_completed \<and> discovery_completed_ok d
   | _ \<Rightarrow> False)"

lemma payload_valid_outbound: "payload_valid m p \<Longrightarrow> m \<in> outbound_types"
  by (auto simp: payload_valid_def outbound_types_def split: payload.splits)

lemma payload_valid_envelope: "payload_valid (message_type e) (payload e) \<Longrightarrow> envelope_payload_ok e"
  by (auto simp: payload_valid_def envelope_payload_ok_def task_command_types_def result_types_def event_types_def
      split: payload.splits)

lemma processor_message_total:
  assumes pr: "responsive pr" and c: "valid_envelope c" and key: "idempotency_key_ok key" and n: "sequence_ok n"
    and p: "payload_valid m p"
  shows "\<exists>e s'. processor_message pr c m key n p s = (Some e, s')"
proof -
  obtain t s1 where now: "processor_now pr s = (Some t, s1)" "valid_instant t" "valid_instant (t + message_lifetime)"
    using pr unfolding responsive_def by blast
  obtain i s2 where mid: "pr_ids pr s1 = (Some i, s2)" "is_canonical_uuid_v4 i"
    using pr unfolding responsive_def by blast
  let ?e = "\<lparr>message_id = i, message_type = m, sent_at = t, deadline_at = t + message_lifetime,
       installation_id = pr_installation pr, executor_id = pr_executor pr, correlation_id = correlation_id c,
       idempotency_key = key, sequence = n, payload = p, task_id = task_id c,
       execution_attempt_id = execution_attempt_id c\<rparr>"
  have "0 < message_lifetime" by (simp add: message_lifetime_def seconds_def)
  then have "valid_envelope ?e"
    using pr c key n p now mid payload_valid_envelope [of ?e]
    by (simp add: valid_envelope_def responsive_def payload_valid_def)
  moreover have "m \<in> outbound_types" by (rule payload_valid_outbound [OF p])
  moreover have "add_delta t message_lifetime = Some (t + message_lifetime)"
    using now(3) by (simp add: add_delta_Some)
  ultimately have "reply_to (pr_installation pr) (pr_executor pr) c m key n p (t, i) = Some ?e"
    by (simp add: reply_to_def model_validate_Some)
  moreover have "new_id (pr_ids pr) s1 = (Some i, s2)"
    using mid by (simp add: new_id_def and_then_def result_of_def canonical_uuid_v4_Some)
  ultimately show ?thesis
    using now(1) by (simp add: processor_message_def and_then_def result_of_def)
qed

lemma accepted_valid: "m \<in> result_types \<Longrightarrow> payload_valid m (P_object [(''accepted'', JBool True)])"
  by (simp add: payload_valid_def payload_json_def payload_limits snake_field snake_char_def ascii_lower_def
      sensitive_payload_names_def sensitive_payload_segments_def)

lemma processor_result_total:
  assumes "responsive pr" "valid_envelope c"
  shows "\<exists>e s'. processor_result pr c s = (Some e, s')"
  unfolding processor_result_def using assms
  by (intro processor_message_total result_key_ok accepted_valid) (auto simp: valid_envelope_def result_types_def)

lemma processor_event_total:
  assumes "responsive pr" "valid_envelope c" "sequence_ok n" "m \<in> event_types"
    and "payload_valid m (event_payload c m given)"
  shows "\<exists>e s'. processor_event pr c m n given s = (Some e, s')"
  unfolding processor_event_def if_P [OF assms(4)] using assms
  by (intro processor_message_total event_key_ok) (auto simp: valid_envelope_def)

lemma action_id_valid:
  assumes "is_canonical_uuid_v4 i" "m \<in> event_types"
  shows "payload_valid m (P_object [(''action_id'', JStr i)])"
  using assms by (simp add: payload_valid_def payload_json_def payload_limits uuid_safe)

lemma evidence_code_safe: "\<not> unsafe_payload_string (evidence_code v)"
  by (cases v) (simp_all add: evidence_code_def plain_string_safe plain_char_def max_executor_string_length_def)

lemma fact_payload_valid:
  assumes "is_canonical_uuid_v4 (rf_action_id f)" "m \<in> event_types"
  shows "payload_valid m (fact_payload f)"
proof -
  have "\<not> unsafe_payload_string evidence_version"
    by (simp add: evidence_version_def plain_string_safe plain_char_def max_executor_string_length_def)
  moreover have "\<not> forbidden_field ''evidence_version''"
    by (simp add: snake_field snake_char_def ascii_lower_def sensitive_payload_names_def sensitive_payload_segments_def)
  ultimately show ?thesis
    using assms by (simp add: payload_valid_def fact_payload_def payload_json_def payload_limits uuid_safe evidence_code_safe)
qed

end
