(* ===== verification/Processor_Samples.thy ===== *)
theory Processor_Samples
  imports Processor_Messages Samples
begin

text \<open>
  Concrete values for the witnesses about the processor: valid commands and a processor whose
  operations succeed.
\<close>

text \<open>A processor over operations that always succeed, with identifiers numbered by the state.\<close>

definition the_fact :: result_fact where
  "the_fact = \<lparr>rf_action_id = the_action, rf_target_id = the_target, rf_type = M_step_completed,
     rf_evidence = Comment_confirmed\<rparr>"

definition found_candidates :: discovery_result where
  "found_candidates = \<lparr>dr_state = Discovery_completed, dr_evidence = ''candidates_extracted'', dr_page_revision = 1,
     dr_candidates = replicate 11 the_candidate\<rparr>"

definition succeeding_processor :: "nat processor" where
  "succeeding_processor = \<lparr>pr_installation = installation, pr_executor = executor,
     pr_now = (\<lambda>s. (Some (at_second 20), s)),
     pr_ids = (\<lambda>s. (Some (uuid (if even (fst s) then CHR ''a'' else CHR ''b'')), (fst s + 1, snd s))),
     pr_discovery = Some (\<lambda>p s. (Some found_candidates, s)), pr_action = Some (\<lambda>c p s. (Some the_fact, s))\<rparr>"

definition the_discovery :: discovery_command where
  "the_discovery = \<lparr>dc_keyword = ''word'', dc_target_limit = 20, dc_page_revision = 1\<rparr>"

definition discover_command :: envelope where
  "discover_command = message CHR ''8'' M_task_discover 1 (P_discovery the_discovery)"

definition checkpoint_in :: "checkpoint_state \<Rightarrow> int \<Rightarrow> checkpoint_row" where
  "checkpoint_in st n = \<lparr>ck_attempt_id = the_attempt, ck_task_id = the_task, ck_last_command = 1,
     ck_last_event = n, ck_state = st, ck_revision = 1\<rparr>"

definition sample_action_payload :: action_command where
  "sample_action_payload = (case payload action_execute of P_action p \<Rightarrow> p)"

lemma sample_texts_ok:
  "strip ''hello'' = ''hello''" "strip ''name'' = ''name''" "strip ''word'' = ''word''"
  "template_parts ''hello'' = ([], ''hello'')" "valid_platform_identifier ''t-1'' max_douyin_target_id_characters"
  by code_simp+

lemmas sample_limits = max_action_message_template_characters_def max_douyin_target_id_characters_def
  max_candidate_display_name_characters_def max_search_keyword_characters_def max_task_target_limit_def
  max_cross_runtime_sequence_def

lemma the_candidate_ok: "candidate_payload_ok the_candidate"
  using sample_texts_ok(5)
  by (simp add: candidate_payload_ok_def the_candidate_def candidate_ok_def valid_display_name_def valid_public_handle_def
      plain_text_safe plain_char_def sample_texts_ok sequence_ok_def sample_limits)

lemma hello_template: "message_template ''hello'' \<noteq> None"
  by (simp add: message_template_def plain_text_safe plain_char_def sample_texts_ok sample_limits)

lemma the_action_ok: "action_command_ok sample_action_payload"
  using the_candidate_ok hello_template
  by (simp add: action_command_ok_def sample_action_payload_def action_execute_def message_def id_defs hex_digit_def)

lemma the_discovery_ok: "discovery_command_ok the_discovery"
  by (simp add: discovery_command_ok_def search_input_ok_def the_discovery_def plain_text_safe plain_char_def
      sample_texts_ok sequence_ok_def sample_limits)

lemma action_key_ok: "idempotency_key_ok (''action:'' @ the_action)"
proof -
  have "is_canonical_uuid_v4 the_action" by (simp add: the_action_def hex_digit_def)
  then have "list_all key_char (''ction:'' @ the_action)" "length (''ction:'' @ the_action) \<le> 127"
    using uuid_key_chars by (simp_all add: key_char_def alnum_def)
  moreover have "alnum CHR ''a''" by (simp add: alnum_def)
  ultimately have "idempotency_key_ok (CHR ''a'' # ''ction:'' @ the_action)" by (rule idempotency_key_append [rotated])
  then show ?thesis by simp
qed

lemma sample_headers:
  "idempotency_key_ok ''key:8''" "valid_instant (seconds 10)"
  "valid_instant (seconds 900)" "valid_instant (seconds 20)" "valid_instant (seconds 20 + message_lifetime)"
  by (simp_all add: idempotency_key_ok_def alnum_def valid_instant_def max_instant_def seconds_def
      message_lifetime_def)

lemma action_execute_valid: "valid_envelope action_execute"
  using the_action_ok action_payload_safe [OF the_action_ok] sample_headers action_key_ok
  by (simp add: valid_envelope_def action_execute_def message_def sample_action_payload_def envelope_payload_ok_def
      task_command_types_def id_defs hex_digit_def sequence_ok_def sample_limits) (simp add: seconds_def)

lemma discover_valid: "valid_envelope discover_command"
  using the_discovery_ok discovery_payload_safe [OF the_discovery_ok] sample_headers
  by (simp add: valid_envelope_def discover_command_def message_def envelope_payload_ok_def
      task_command_types_def id_defs hex_digit_def sequence_ok_def sample_limits) (simp add: seconds_def)

lemma succeeding_responsive: "responsive succeeding_processor"
proof -
  have "is_canonical_uuid_v4 (uuid (if even n then CHR ''a'' else CHR ''b''))" for n :: nat
    by (simp add: hex_digit_def)
  then show ?thesis
    using sample_headers
    by (simp add: responsive_def succeeding_processor_def processor_now_def at_second_def astimezone_utc_def
        installation_def executor_def hex_digit_def)
qed

lemma the_fact_ok: "fact_consistent the_fact"
  by (simp add: the_fact_def fact_consistent_def success_evidence_def)

lemma found_candidates_ok:
  "discovery_result_ok found_candidates" "dr_page_revision found_candidates = dc_page_revision the_discovery"
  "int (length (dr_candidates found_candidates)) \<le> dc_target_limit the_discovery"
  "list_all candidate_payload_ok (dr_candidates found_candidates)"
  using the_candidate_ok
  by (simp_all add: discovery_result_ok_def found_candidates_def the_discovery_def expected_evidence_def
      discovery_value_def max_task_target_limit_def list_all_iff the_candidate_def)

end
