(* ===== verification/Processor_Batches.thy ===== *)
theory Processor_Batches
  imports Processor_Samples
begin

text \<open>
  The batches of messages a command is answered with: the messages of an action, and the candidates
  of a discovery cut into messages of bounded size.
\<close>

subsection \<open>One message\<close>

definition about_command :: "'p processor \<Rightarrow> envelope \<Rightarrow> envelope \<Rightarrow> bool" where
  "about_command pr c e \<longleftrightarrow> valid_envelope e \<and> message_type e \<in> outbound_types
     \<and> installation_id e = pr_installation pr \<and> executor_id e = pr_executor pr
     \<and> correlation_id e = correlation_id c \<and> task_id e = task_id c
     \<and> execution_attempt_id e = execution_attempt_id c \<and> deadline_at e = sent_at e + message_lifetime"

lemma processor_message_Some:
  assumes "processor_message pr c m key n p s = (Some e, s')"
  shows "about_command pr c e" "message_type e = m" "sequence e = n" "payload e = p" "idempotency_key e = key"
  using assms
  by (auto simp: processor_message_def and_then_Some reply_to_def bind_eq_Some_conv model_validate_Some
      add_delta_Some about_command_def split: if_splits)

lemma processor_event_Some:
  assumes "processor_event pr c m n given s = (Some e, s')"
  shows "about_command pr c e" "message_type e = m" "sequence e = n" "payload e = event_payload c m given"
proof -
  have "m \<in> event_types" using assms by (auto simp: processor_event_def and_then_Some split: if_splits)
  then have "processor_message pr c m (event_key (task_id c) n) n (event_payload c m given) s = (Some e, s')"
    using assms by (simp add: processor_event_def)
  from processor_message_Some [OF this]
  show "about_command pr c e" "message_type e = m" "sequence e = n" "payload e = event_payload c m given" by simp_all
qed

lemma processor_result_Some:
  assumes "processor_result pr c s = (Some e, s')"
  shows "about_command pr c e" "sequence e = sequence c" "payload e = P_object [(''accepted'', JBool True)]"
    "message_type e = (if message_type c = M_action_execute then M_action_accept else M_task_accept)"
  using processor_message_Some [OF assms [unfolded processor_result_def]] by simp_all

subsection \<open>Actions\<close>

text \<open>
  C7. The answer to an action command, when there is one: the operation was asked in a running
  attempt and returned a fact about this action and target, and the batch is exactly the acceptance,
  the start of the step and the fact, with the next two event numbers, all about the command; the
  attempt goes on unless the outcome is uncertain.
\<close>

theorem action_answer_exact:
  assumes "action_outcome pr c p checkpoint s = (Some (batch, n, st), s')" and "message_type c = M_action_execute"
  shows "\<exists>operate f s1. pr_action pr = Some operate \<and> operate c p s = (Some f, s1) \<and> ck_state checkpoint = CK_running
    \<and> rf_action_id f = ac_action_id p \<and> rf_target_id f = ac_target_id p
    \<and> list_all (about_command pr c) batch
    \<and> map message_type batch = [M_action_accept, M_step_started, rf_type f]
    \<and> map sequence batch = [sequence c, ck_last_event checkpoint + 1, ck_last_event checkpoint + 2]
    \<and> payload (last batch) = fact_payload f \<and> n = sequence (last batch)
    \<and> st = (if rf_type f = M_task_outcome_uncertain then CK_outcome_uncertain else CK_running)"
proof -
  from assms(1) obtain operate where operate: "pr_action pr = Some operate" "ck_state checkpoint = CK_running"
    and run: "and_then (operate c p) (\<lambda>f.
        if rf_action_id f = ac_action_id p \<and> rf_target_id f = ac_target_id p
        then and_then (action_batch pr c f (ck_last_event checkpoint)) (\<lambda>batch.
          result_of (Some (batch, ck_last_event checkpoint + 2,
            if rf_type f = M_task_outcome_uncertain then CK_outcome_uncertain else CK_running)))
        else result_of None) s = (Some (batch, n, st), s')"
    by (auto simp: action_outcome_def split: option.splits if_splits)
  from run obtain f s1 where f: "operate c p s = (Some f, s1)"
    and ids: "rf_action_id f = ac_action_id p" "rf_target_id f = ac_target_id p"
    and rest: "and_then (action_batch pr c f (ck_last_event checkpoint)) (\<lambda>batch.
          result_of (Some (batch, ck_last_event checkpoint + 2,
            if rf_type f = M_task_outcome_uncertain then CK_outcome_uncertain else CK_running))) s1
        = (Some (batch, n, st), s')"
    unfolding and_then_Some [of "operate c p"] by (auto split: if_splits)
  note op = operate(1) f operate(2) ids
  from rest obtain s5 where built: "action_batch pr c f (ck_last_event checkpoint) s1 = (Some batch, s5)"
    and n: "n = ck_last_event checkpoint + 2"
      "st = (if rf_type f = M_task_outcome_uncertain then CK_outcome_uncertain else CK_running)"
    unfolding and_then_Some [of "action_batch pr c f (ck_last_event checkpoint)"] by auto
  from built obtain r s2 e s3 e' s4 where r: "processor_result pr c s1 = (Some r, s2)"
    and e: "processor_event pr c M_step_started (ck_last_event checkpoint + 1) None s2 = (Some e, s3)"
    and e': "processor_event pr c (rf_type f) (ck_last_event checkpoint + 2) (Some (fact_payload f)) s3 = (Some e', s4)"
    and batch: "result_of (Some [r, e, e']) s4 = (Some batch, s5)"
    unfolding action_batch_def and_then_Some by blast
  have out: "batch = [r, e, e']" "n = ck_last_event checkpoint + 2"
      "st = (if rf_type f = M_task_outcome_uncertain then CK_outcome_uncertain else CK_running)"
    using batch n by simp_all
  note r = processor_result_Some [OF r] and e = processor_event_Some [OF e] and e' = processor_event_Some [OF e']
  have "list_all (about_command pr c) batch" using r(1) e(1) e'(1) by (simp add: out(1))
  moreover have "map message_type batch = [M_action_accept, M_step_started, rf_type f]"
    using r(4) e(2) e'(2) assms(2) by (simp add: out(1))
  moreover have "map sequence batch = [sequence c, ck_last_event checkpoint + 1, ck_last_event checkpoint + 2]"
    using r(2) e(3) e'(3) by (simp add: out(1))
  moreover have "payload (last batch) = fact_payload f" using e'(4) by (simp add: out(1) event_payload_def)
  moreover have "n = sequence (last batch)" using e'(3) out(2) by (simp add: out(1))
  ultimately show ?thesis
    using op out(3) by (intro exI [of _ operate] exI [of _ f] exI [of _ s1] conjI) assumption+
qed

subsection \<open>Discoveries\<close>

lemma chunks_concat:
  "concat (map (candidate_chunk cs) [0..<m]) = take (m * max_discovery_batch_candidates) cs"
proof (induction m)
  case (Suc m)
  have "take (Suc m * max_discovery_batch_candidates) cs = take (m * max_discovery_batch_candidates) cs
      @ take max_discovery_batch_candidates (drop (m * max_discovery_batch_candidates) cs)"
    by (metis add.commute mult_Suc take_add)
  then show ?case using Suc by (simp add: candidate_chunk_def)
qed simp

lemma chunks_cover: "concat (map (candidate_chunk cs) [0..<batch_count cs]) = cs"
proof -
  have "length cs \<le> batch_count cs * max_discovery_batch_candidates"
    by (simp add: batch_count_def max_discovery_batch_candidates_def)
  then show ?thesis by (simp add: chunks_concat)
qed

lemma collect_Some:
  "collect f xs s = (Some ys, s') \<Longrightarrow> list_all2 (\<lambda>x y. \<exists>a b. f x a = (Some y, b)) xs ys"
  by (induction xs arbitrary: s ys) (auto simp: and_then_Some)

definition batch_candidates :: "envelope \<Rightarrow> candidate_payload list" where
  "batch_candidates e = (case payload e of P_batch b \<Rightarrow> db_candidates b | _ \<Rightarrow> [])"

lemma discovery_chunk_Some:
  assumes "discovery_chunk pr c revision count i cs s = (Some e, s')"
  shows "about_command pr c e" "message_type e = M_task_discovery_batch" "sequence e = i" "batch_candidates e = cs"
  using processor_message_Some [OF assms [unfolded discovery_chunk_def]] by (simp_all add: batch_candidates_def)

lemma discovery_chunks_Some:
  assumes "collect (\<lambda>i. discovery_chunk pr c revision count (int i + 1) (candidate_chunk cs i)) [0..<m] s = (Some es, s')"
  shows "list_all (about_command pr c) es" "map message_type es = replicate m M_task_discovery_batch"
    "map sequence es = map (\<lambda>i. int i + 1) [0..<m]" "map batch_candidates es = map (candidate_chunk cs) [0..<m]"
proof -
  note all = collect_Some [OF assms]
  have len: "length es = m" using list_all2_lengthD [OF all] by simp
  have each: "about_command pr c (es ! i) \<and> message_type (es ! i) = M_task_discovery_batch
      \<and> sequence (es ! i) = int i + 1 \<and> batch_candidates (es ! i) = candidate_chunk cs i" if "i < m" for i
    using list_all2_nthD [OF all, of i] that discovery_chunk_Some by fastforce
  show "list_all (about_command pr c) es" using each len by (auto simp: list_all_length)
  show "map message_type es = replicate m M_task_discovery_batch"
    "map sequence es = map (\<lambda>i. int i + 1) [0..<m]" "map batch_candidates es = map (candidate_chunk cs) [0..<m]"
    using each len by (auto intro!: nth_equalityI)
qed

text \<open>
  C8. The answer to a discovery command carries every candidate of the discovery exactly once and in
  order: the acceptance, the batches numbered from 1, each with one to ten candidates, and the
  completion with the next number, which states how many batches and candidates there are; the
  checkpoint ends with that number.
\<close>

theorem discovery_answer_exact:
  assumes "discovery_outcome pr c p checkpoint s = (Some (batch, n, st), s')" and "message_type c = M_task_discover"
  shows "\<exists>discover r s1 k completed. pr_discovery pr = Some discover \<and> discover p s = (Some r, s1)
    \<and> list_all (about_command pr c) batch \<and> concat (map batch_candidates batch) = dr_candidates r
    \<and> map message_type batch = M_task_accept # replicate k M_task_discovery_batch @ [M_task_discovery_completed]
    \<and> map sequence batch = sequence c # map (\<lambda>i. int i + 1) [0..<k + 1]
    \<and> list_all (\<lambda>e. message_type e = M_task_discovery_batch \<longrightarrow>
         1 \<le> length (batch_candidates e) \<and> length (batch_candidates e) \<le> 10) batch
    \<and> payload (last batch) = P_completed completed \<and> dd_batch_count completed = int k
    \<and> dd_candidate_count completed = int (length (dr_candidates r)) \<and> n = int k + 1 \<and> st = CK_terminal"
proof -
  let ?rev = "dc_page_revision p"
  from assms(1) obtain discover r s1 where op: "pr_discovery pr = Some discover" "discover p s = (Some r, s1)"
    and built: "discovery_batch_messages pr c ?rev r s1 = (Some batch, s')"
    and out: "n = int (length batch) - 1" "st = CK_terminal"
    by (auto simp: discovery_outcome_def and_then_Some split: option.splits if_splits)
  let ?k = "batch_count (dr_candidates r)"
  from built obtain a s2 es s3 e s4 where a: "processor_result pr c s1 = (Some a, s2)"
    and es: "collect (\<lambda>i. discovery_chunk pr c ?rev (int ?k) (int i + 1) (candidate_chunk (dr_candidates r) i)) [0..<?k] s2
      = (Some es, s3)"
    and e: "discovery_completed_message pr c r (int ?k) (int ?k + 1) s3 = (Some e, s4)"
    and batch: "batch = a # es @ [e]"
    by (auto simp: discovery_batch_messages_def Let_def and_then_Some)
  note a = processor_result_Some [OF a] and e = processor_message_Some [OF e [unfolded discovery_completed_message_def]]
    and es = discovery_chunks_Some [OF es]
  have sizes: "1 \<le> length (batch_candidates x) \<and> length (batch_candidates x) \<le> 10"
    if "about_command pr c x" "message_type x = M_task_discovery_batch" for x
    using that by (auto simp: about_command_def valid_envelope_def envelope_payload_ok_def task_command_types_def
        batch_candidates_def discovery_batch_ok_def max_discovery_batch_candidates_def split: payload.splits)
  have about: "list_all (about_command pr c) batch" using a(1) e(1) es(1) by (simp add: batch)
  have "concat (map batch_candidates batch) = dr_candidates r"
    using a(3) e(4) es(4) by (simp add: batch chunks_cover) (simp add: batch_candidates_def)
  moreover have "length es = ?k" using es(2) by (metis length_map length_replicate)
  moreover have "list_all (\<lambda>e. message_type e = M_task_discovery_batch \<longrightarrow>
         1 \<le> length (batch_candidates e) \<and> length (batch_candidates e) \<le> 10) batch"
    using about sizes by (auto simp: list_all_iff)
  ultimately show ?thesis
    using op out about a(2,4) e(2-4) es(2,3) assms(2)
    by (intro exI [of _ discover] exI [of _ r] exI [of _ s1] exI [of _ ?k]
        exI [of _ "case payload e of P_completed d \<Rightarrow> d"]) (simp add: batch)
qed

subsection \<open>Answers are always built\<close>

lemma and_then_runs:
  "m s = (Some a, s1) \<Longrightarrow> \<exists>b s'. f a s1 = (Some b, s') \<Longrightarrow> \<exists>b s'. and_then m f s = (Some b, s')"
  by (simp add: and_then_def)

lemma collect_total:
  "(\<And>x s. x \<in> set xs \<Longrightarrow> \<exists>y s'. f x s = (Some y, s')) \<Longrightarrow> \<exists>ys s'. collect f xs s = (Some ys, s')"
proof (induction xs arbitrary: s)
  case (Cons x xs)
  obtain y s1 where y: "f x s = (Some y, s1)" using Cons.prems [of x s] by auto
  obtain ys s2 where "collect f xs s1 = (Some ys, s2)" using Cons.IH [of s1] Cons.prems by auto
  then show ?case using y by (simp add: and_then_def result_of_def)
qed (simp add: result_of_def)

lemma action_total:
  assumes "responsive pr" and "valid_envelope c" and "payload c = P_action p" and "message_type c = M_action_execute"
    and "pr_action pr = Some operate" and "operate c p s = (Some f, s1)" and "fact_consistent f"
    and "rf_action_id f = ac_action_id p" and "rf_target_id f = ac_target_id p"
    and "ck_state checkpoint = CK_running" and "0 \<le> ck_last_event checkpoint"
    and "ck_last_event checkpoint + 2 \<le> max_cross_runtime_sequence"
  shows "\<exists>out s'. action_outcome pr c p checkpoint s = (Some out, s')"
proof -
  have ids: "is_canonical_uuid_v4 (ac_action_id p)"
    using assms(2-4) by (auto simp: valid_envelope_def envelope_payload_ok_def task_command_types_def action_command_ok_def)
  have kind: "rf_type f \<in> event_types" using assms(7) by (auto simp: fact_consistent_def event_types_def)
  have seq: "sequence_ok (ck_last_event checkpoint + 1)" "sequence_ok (ck_last_event checkpoint + 2)"
    using assms(11,12) by (simp_all add: sequence_ok_def)
  obtain r s2 where r: "processor_result pr c s1 = (Some r, s2)"
    using processor_result_total [OF assms(1,2)] by blast
  have "payload_valid M_step_started (event_payload c M_step_started None)"
    using action_id_valid [OF ids, of M_step_started] assms(3) by (simp add: event_payload_def event_types_def)
  moreover have "M_step_started \<in> event_types" by (simp add: event_types_def)
  ultimately obtain e s3 where
    e: "processor_event pr c M_step_started (ck_last_event checkpoint + 1) None s2 = (Some e, s3)"
    using processor_event_total [OF assms(1,2) seq(1)] by blast
  have "payload_valid (rf_type f) (event_payload c (rf_type f) (Some (fact_payload f)))"
    using fact_payload_valid [OF _ kind] ids assms(8) by (simp add: event_payload_def)
  then obtain e' s4 where
    "processor_event pr c (rf_type f) (ck_last_event checkpoint + 2) (Some (fact_payload f)) s3 = (Some e', s4)"
    using processor_event_total [OF assms(1,2) seq(2) kind] by blast
  then have "action_batch pr c f (ck_last_event checkpoint) s1 = (Some [r, e, e'], s4)"
    using r e by (simp add: action_batch_def and_then_def result_of_def)
  then show ?thesis
    using assms(5,6,8-10) by (simp add: action_outcome_def and_then_def result_of_def)
qed

text \<open>
  C29. A finished action is always answered: if the clock and the identifier source work, the attempt
  runs, the event numbers stay in range and the operation returned a consistent fact about the
  command's action and target, the batch of the command is built.
\<close>

theorem finished_action_answered:
  assumes "responsive pr" and "valid_envelope c" and "payload c = P_action p" and "message_type c = M_action_execute"
    and "pr_action pr = Some operate" and "operate c p s = (Some f, s1)" and "fact_consistent f"
    and "rf_action_id f = ac_action_id p" and "rf_target_id f = ac_target_id p"
    and "ck_state checkpoint = CK_running" and "0 \<le> ck_last_event checkpoint"
    and "ck_last_event checkpoint + 2 \<le> max_cross_runtime_sequence"
  shows "\<exists>out s'. action_outcome pr c p checkpoint s = (Some out, s')"
  by (rule action_total [OF assms])

lemma discovery_total:
  assumes "responsive pr" and "valid_envelope c" and "payload c = P_discovery p" and "message_type c = M_task_discover"
    and "pr_discovery pr = Some discover" and "discover p s = (Some r, s1)" and "discovery_result_ok r"
    and "dr_page_revision r = dc_page_revision p" and "int (length (dr_candidates r)) \<le> dc_target_limit p"
    and "list_all candidate_payload_ok (dr_candidates r)"
    and "ck_state checkpoint = CK_received" and "ck_last_event checkpoint = 0"
  shows "\<exists>out s'. discovery_outcome pr c p checkpoint s = (Some out, s')"
proof -
  let ?cs = "dr_candidates r" and ?rev = "dc_page_revision p" and ?k = "batch_count (dr_candidates r)"
  have rev: "sequence_ok ?rev" and attempt: "is_canonical_uuid_v4 (execution_attempt_id c)"
    using assms(2-4)
    by (auto simp: valid_envelope_def envelope_payload_ok_def task_command_types_def discovery_command_ok_def)
  have few: "length ?cs \<le> 100" using assms(7) by (simp add: discovery_result_ok_def max_task_target_limit_def)
  then have k: "?k \<le> 10" by (simp add: batch_count_def max_discovery_batch_candidates_def)
  have keys: "list_all key_char (decimal_int (int i + 1)) \<and> length (decimal_int (int i + 1)) \<le> 16 \<and> sequence_ok (int i + 1)"
    if "i \<le> 10" for i
  proof -
    have "sequence_ok (int i + 1)" using that by (simp add: sequence_ok_def max_cross_runtime_sequence_def)
    then show ?thesis using sequence_decimal by simp
  qed
  obtain a s2 where a: "processor_result pr c s1 = (Some a, s2)" using processor_result_total [OF assms(1,2)] by blast
  have chunk: "\<exists>e s'. discovery_chunk pr c ?rev (int ?k) (int i + 1) (candidate_chunk ?cs i) s = (Some e, s')"
    if "i \<in> set [0..<?k]" for i s
  proof -
    have i: "i < ?k" "i < 10" using that k by simp_all
    then have some: "i * 10 < length ?cs" by (auto simp: batch_count_def max_discovery_batch_candidates_def)
    have "set (candidate_chunk ?cs i) \<subseteq> set ?cs"
      by (auto simp: candidate_chunk_def dest: in_set_takeD in_set_dropD)
    then have "list_all candidate_payload_ok (candidate_chunk ?cs i)"
      "list_all (\<lambda>x. cp_page_revision x = ?rev) (candidate_chunk ?cs i)"
      using assms(7,8,10) by (auto simp: list_all_iff discovery_result_ok_def)
    moreover have "1 \<le> length (candidate_chunk ?cs i)" "length (candidate_chunk ?cs i) \<le> 10"
      using some by (simp_all add: candidate_chunk_def max_discovery_batch_candidates_def)
    ultimately have "discovery_batch_ok \<lparr>db_page_revision = ?rev, db_batch_index = int i + 1,
        db_batch_count = int ?k, db_candidates = candidate_chunk ?cs i\<rparr>"
      using rev i k by (simp add: discovery_batch_ok_def max_discovery_batch_count_def max_discovery_batch_candidates_def)
    then show ?thesis
      unfolding discovery_chunk_def using assms(1,2) attempt keys [of i] i literal_key_chars(4)
      by (intro processor_message_total discovery_key_ok) (simp_all add: payload_valid_def batch_payload_safe)
  qed
  have "\<exists>es s3. collect (\<lambda>i. discovery_chunk pr c ?rev (int ?k) (int i + 1) (candidate_chunk ?cs i)) [0..<?k] s2
      = (Some es, s3)"
    by (rule collect_total) (rule chunk)
  then obtain es s3 where es: "collect (\<lambda>i. discovery_chunk pr c ?rev (int ?k) (int i + 1) (candidate_chunk ?cs i)) [0..<?k] s2
      = (Some es, s3)" by blast
  have "discovery_completed_ok \<lparr>dd_outcome = discovery_value (dr_state r), dd_evidence = dr_evidence r,
      dd_page_revision = dr_page_revision r, dd_batch_count = int ?k, dd_candidate_count = int (length ?cs)\<rparr>"
    using assms(7,8) rev few k
    by (cases "dr_state r") (auto simp: discovery_completed_ok_def discovery_result_ok_def discovery_value_def
        max_discovery_batch_count_def batch_count_def max_discovery_batch_candidates_def zdiv_int)
  then have payload: "payload_valid M_task_discovery_completed (P_completed \<lparr>dd_outcome = discovery_value (dr_state r),
      dd_evidence = dr_evidence r, dd_page_revision = dr_page_revision r, dd_batch_count = int ?k,
      dd_candidate_count = int (length ?cs)\<rparr>)"
    by (simp add: payload_valid_def completed_payload_safe)
  have "\<exists>e s4. discovery_completed_message pr c r (int ?k) (int ?k + 1) s3 = (Some e, s4)"
    unfolding discovery_completed_message_def using keys [OF k]
    by (intro processor_message_total [OF assms(1,2) discovery_key_ok [OF attempt literal_key_chars(5)] _ payload]) simp_all
  then obtain e s4 where "discovery_completed_message pr c r (int ?k) (int ?k + 1) s3 = (Some e, s4)" by blast
  then have "discovery_batch_messages pr c ?rev r s1 = (Some (a # es @ [e]), s4)"
    using a es by (simp add: discovery_batch_messages_def Let_def and_then_def result_of_def)
  then show ?thesis
    using assms(5-9,11,12) by (simp add: discovery_outcome_def and_then_def result_of_def)
qed

text \<open>
  A finished discovery is always answered: with at most a hundred valid candidates of the
  command's page revision, the batches and the completion pass their validation, so a discovery that
  ended is reported.
\<close>

lemma finished_discovery_answered:
  assumes "responsive pr" and "valid_envelope c" and "payload c = P_discovery p" and "message_type c = M_task_discover"
    and "pr_discovery pr = Some discover" and "discover p s = (Some r, s1)" and "discovery_result_ok r"
    and "dr_page_revision r = dc_page_revision p" and "int (length (dr_candidates r)) \<le> dc_target_limit p"
    and "list_all candidate_payload_ok (dr_candidates r)"
    and "ck_state checkpoint = CK_received" and "ck_last_event checkpoint = 0"
  shows "\<exists>out s'. discovery_outcome pr c p checkpoint s = (Some out, s')"
  by (rule discovery_total [OF assms])

subsection \<open>The samples are answered\<close>

lemma sample_action:
  "payload action_execute = P_action sample_action_payload" "message_type action_execute = M_action_execute"
  "pr_action succeeding_processor = Some (\<lambda>c p s. (Some the_fact, s))"
  "rf_action_id the_fact = ac_action_id sample_action_payload"
  "rf_target_id the_fact = ac_target_id sample_action_payload"
  "ck_state (checkpoint_in CK_running 5) = CK_running" "0 \<le> ck_last_event (checkpoint_in CK_running 5)"
  "ck_last_event (checkpoint_in CK_running 5) + 2 \<le> max_cross_runtime_sequence"
  by (simp_all add: action_execute_def sample_action_payload_def message_def succeeding_processor_def the_fact_def
      checkpoint_in_def max_cross_runtime_sequence_def)

lemma sample_discovery:
  "payload discover_command = P_discovery the_discovery" "message_type discover_command = M_task_discover"
  "pr_discovery succeeding_processor = Some (\<lambda>p s. (Some found_candidates, s))"
  "ck_state (checkpoint_in CK_received 0) = CK_received" "ck_last_event (checkpoint_in CK_received 0) = 0"
  by (simp_all add: discover_command_def message_def succeeding_processor_def checkpoint_in_def)

theorem finished_action_answered_witness:
  "\<exists>out s'. action_outcome succeeding_processor action_execute sample_action_payload (checkpoint_in CK_running 5)
     (0, fresh_ledger) = (Some out, s')"
  by (rule finished_action_answered [OF succeeding_responsive action_execute_valid sample_action(1,2,3) refl
      the_fact_ok sample_action(4-8)])

lemma finished_discovery_answered_witness:
  "\<exists>out s'. discovery_outcome succeeding_processor discover_command the_discovery (checkpoint_in CK_received 0)
     (0, fresh_ledger) = (Some out, s')"
  by (rule finished_discovery_answered [OF succeeding_responsive discover_valid sample_discovery(1,2,3) refl
      found_candidates_ok sample_discovery(4,5)])

theorem action_answer_exact_witness:
  "\<exists>batch n st s'. action_outcome succeeding_processor action_execute sample_action_payload (checkpoint_in CK_running 5)
      (0, fresh_ledger) = (Some (batch, n, st), s')
    \<and> map message_type batch = [M_action_accept, M_step_started, M_step_completed]"
proof -
  obtain batch n st s' where run: "action_outcome succeeding_processor action_execute sample_action_payload
      (checkpoint_in CK_running 5) (0, fresh_ledger) = (Some (batch, n, st), s')"
    using action_total [OF succeeding_responsive action_execute_valid sample_action(1,2,3) refl the_fact_ok sample_action(4-8)]
    by (metis prod_cases3)
  from action_answer_exact [OF run sample_action(2)]
  have "map message_type batch = [M_action_accept, M_step_started, M_step_completed]"
    by (auto simp: sample_action(3) the_fact_def)
  with run show ?thesis by (intro exI conjI)
qed

theorem discovery_answer_exact_witness:
  "\<exists>batch n st s'. discovery_outcome succeeding_processor discover_command the_discovery (checkpoint_in CK_received 0)
      (0, fresh_ledger) = (Some (batch, n, st), s')
    \<and> concat (map batch_candidates batch) = replicate 11 the_candidate"
proof -
  obtain batch n st s' where run: "discovery_outcome succeeding_processor discover_command the_discovery
      (checkpoint_in CK_received 0) (0, fresh_ledger) = (Some (batch, n, st), s')"
    using discovery_total [OF succeeding_responsive discover_valid sample_discovery(1,2,3) refl found_candidates_ok
        sample_discovery(4,5)] by (metis prod_cases3)
  from discovery_answer_exact [OF run sample_discovery(2)]
  have "concat (map batch_candidates batch) = replicate 11 the_candidate"
    by (elim exE conjE) (auto simp: sample_discovery(3) found_candidates_def)
  with run show ?thesis by (intro exI conjI)
qed

end
