(* ===== verification/Surface_Lease.thy ===== *)
theory Surface_Lease
  imports Complex_Main Prelude
begin

text \<open>
  The lease over the operations browser (\<open>executor/browser_surface_lease.py\<close>): the executor owns the
  browser, a borrower gets it for a limited time, and an expired or failed lease has to be reclaimed
  before anybody may act again.

  Times are the floats of a monotonic clock, as rationals; the float addition that computes a
  deadline is the parameter \<open>fadd\<close>, and a timeout that is no number is \<open>None\<close>. A call carries its
  clock readings: the first is the one \<open>_expire_if_due\<close> makes, the second the one a takeover computes
  its deadline from. The random token of a takeover is an argument.
\<close>

datatype lease_state = Owner_active | Leased | Reclaim_required

record surface_lease =
  sl_state :: lease_state
  sl_token :: "str option"
  sl_deadline :: rat

definition new_surface_lease :: surface_lease where
  "new_surface_lease = \<lparr>sl_state = Owner_active, sl_token = None, sl_deadline = 0\<rparr>"

definition max_lease_seconds :: rat where
  "max_lease_seconds = 3600"

text \<open>\<open>^http://127\.0\.0\.1:\d{2,5}$\<close>, matched in full.\<close>

definition cdp_url_ok :: "str \<Rightarrow> bool" where
  "cdp_url_ok url \<longleftrightarrow> (let prefix = ''http://127.0.0.1:''; port = drop (length prefix) url in
     take (length prefix) url = prefix \<and> 2 \<le> length port \<and> length port \<le> 5
     \<and> list_all (\<lambda>c. c \<in> set ''0123456789'') port)"

definition enter_reclaim :: "surface_lease \<Rightarrow> surface_lease" where
  "enter_reclaim m = m\<lparr>sl_state := Reclaim_required, sl_token := None, sl_deadline := 0\<rparr>"

definition expire_if_due :: "rat \<Rightarrow> surface_lease \<Rightarrow> surface_lease" where
  "expire_if_due now m = (if sl_state m = Leased \<and> sl_deadline m < now then enter_reclaim m else m)"

definition token_matches :: "surface_lease \<Rightarrow> str option \<Rightarrow> bool" where
  "token_matches m token \<longleftrightarrow> token \<noteq> None \<and> sl_token m = token"

definition own_again :: "surface_lease \<Rightarrow> surface_lease" where
  "own_again m = m\<lparr>sl_state := Owner_active, sl_token := None, sl_deadline := 0\<rparr>"

subsection \<open>Calls\<close>

datatype lease_call =
    Read_state
  | Begin_takeover str str "rat option" bool
  | Authorize_owner
  | Authorize_borrower "str option"
  | Release "str option" bool
  | Report_failure "str option"
  | Confirm_reclaimed

definition begin_takeover ::
  "(rat \<Rightarrow> rat \<Rightarrow> rat) \<Rightarrow> rat \<Rightarrow> str \<Rightarrow> str \<Rightarrow> rat option \<Rightarrow> bool \<Rightarrow> surface_lease \<Rightarrow> bool \<times> surface_lease" where
  "begin_takeover fadd later token url timeout paused m =
     (if sl_state m \<noteq> Owner_active \<or> \<not> paused \<or> \<not> cdp_url_ok url
        \<or> (case timeout of None \<Rightarrow> True | Some t \<Rightarrow> \<not> (0 < t \<and> t \<le> max_lease_seconds))
      then (False, m)
      else (True, m\<lparr>sl_token := Some token, sl_deadline := fadd later (the timeout), sl_state := Leased\<rparr>))"

definition release_lease :: "str option \<Rightarrow> bool \<Rightarrow> surface_lease \<Rightarrow> bool \<times> surface_lease" where
  "release_lease token confirmed m =
     (if sl_state m \<noteq> Leased \<or> \<not> token_matches m token \<or> \<not> confirmed then (False, m)
      else (True, own_again m))"

definition report_borrower_failure :: "str option \<Rightarrow> surface_lease \<Rightarrow> bool \<times> surface_lease" where
  "report_borrower_failure token m =
     (if sl_state m = Leased \<and> token_matches m token then (True, enter_reclaim m)
      else (sl_state m = Reclaim_required, m))"

definition confirm_surface_reclaimed :: "surface_lease \<Rightarrow> bool \<times> surface_lease" where
  "confirm_surface_reclaimed m =
     (if sl_state m \<noteq> Reclaim_required then (False, m) else (True, own_again m))"

text \<open>The outcome of a call (\<open>False\<close>: \<open>SurfaceLeaseRejected\<close>) and the manager after it.\<close>

fun lease_step ::
  "(rat \<Rightarrow> rat \<Rightarrow> rat) \<Rightarrow> rat \<times> rat \<times> lease_call \<Rightarrow> surface_lease \<Rightarrow> bool \<times> surface_lease" where
  "lease_step fadd (now, later, Read_state) m = (True, expire_if_due now m)"
| "lease_step fadd (now, later, Begin_takeover token url timeout paused) m =
     begin_takeover fadd later token url timeout paused (expire_if_due now m)"
| "lease_step fadd (now, later, Authorize_owner) m =
     (let m1 = expire_if_due now m in (sl_state m1 = Owner_active, m1))"
| "lease_step fadd (now, later, Authorize_borrower token) m =
     (let m1 = expire_if_due now m in (sl_state m1 = Leased \<and> token_matches m1 token, m1))"
| "lease_step fadd (now, later, Release token confirmed) m = release_lease token confirmed (expire_if_due now m)"
| "lease_step fadd (now, later, Report_failure token) m = report_borrower_failure token m"
| "lease_step fadd (now, later, Confirm_reclaimed) m = confirm_surface_reclaimed m"

fun lease_run :: "(rat \<Rightarrow> rat \<Rightarrow> rat) \<Rightarrow> (rat \<times> rat \<times> lease_call) list \<Rightarrow> surface_lease \<Rightarrow> surface_lease" where
  "lease_run fadd [] m = m"
| "lease_run fadd (x # xs) m = lease_run fadd xs (snd (lease_step fadd x m))"

subsection \<open>Invariant\<close>

lemma lease_run_append: "lease_run fadd (xs @ ys) m = lease_run fadd ys (lease_run fadd xs m)"
  by (induction xs arbitrary: m) auto

text \<open>There is a token exactly while the browser is leased.\<close>

definition lease_ok :: "surface_lease \<Rightarrow> bool" where
  "lease_ok m \<longleftrightarrow> (sl_token m \<noteq> None \<longleftrightarrow> sl_state m = Leased)"

lemmas lease_defs = expire_if_due_def enter_reclaim_def own_again_def begin_takeover_def release_lease_def
  report_borrower_failure_def confirm_surface_reclaimed_def token_matches_def lease_ok_def Let_def

lemma lease_step_ok: "lease_ok m \<Longrightarrow> lease_ok (snd (lease_step fadd x m))"
  by (cases "(fadd, x, m)" rule: lease_step.cases) (auto simp: lease_defs)

lemma lease_run_ok: "lease_ok m \<Longrightarrow> lease_ok (lease_run fadd xs m)"
  by (induction xs arbitrary: m) (auto intro: lease_step_ok)

lemma new_lease_ok: "lease_ok new_surface_lease"
  by (simp add: lease_ok_def new_surface_lease_def)

subsection \<open>Grants\<close>

text \<open>The takeover that the manager of a history is leased by.\<close>

definition granted_by ::
  "(rat \<Rightarrow> rat \<Rightarrow> rat) \<Rightarrow> (rat \<times> rat \<times> lease_call) list \<Rightarrow> rat \<times> rat \<times> lease_call \<Rightarrow>
   (rat \<times> rat \<times> lease_call) list \<Rightarrow> bool" where
  "granted_by fadd before x after \<longleftrightarrow>
     (\<exists>now later token url timeout. x = (now, later, Begin_takeover token url (Some timeout) True)
        \<and> cdp_url_ok url \<and> 0 < timeout \<and> timeout \<le> max_lease_seconds
        \<and> sl_state (expire_if_due now (lease_run fadd before new_surface_lease)) = Owner_active
        \<and> (\<forall>k \<le> length after. lease_run fadd (before @ x # take k after) new_surface_lease
             = \<lparr>sl_state = Leased, sl_token = Some token, sl_deadline = fadd later timeout\<rparr>))"

lemma leased_step:
  assumes "sl_state (snd (lease_step fadd x m)) = Leased"
  shows "snd (lease_step fadd x m) = m \<and> sl_state m = Leased
    \<or> (\<exists>now later token url timeout. x = (now, later, Begin_takeover token url (Some timeout) True)
        \<and> cdp_url_ok url \<and> 0 < timeout \<and> timeout \<le> max_lease_seconds
        \<and> sl_state (expire_if_due now m) = Owner_active
        \<and> snd (lease_step fadd x m) = \<lparr>sl_state = Leased, sl_token = Some token, sl_deadline = fadd later timeout\<rparr>)"
  using assms
  by (cases "(fadd, x, m)" rule: lease_step.cases)
    (auto simp: lease_defs split: if_splits option.splits intro!: surface_lease.equality)

lemma leased_granted:
  "sl_state (lease_run fadd xs new_surface_lease) = Leased \<Longrightarrow>
     \<exists>before x after. xs = before @ x # after \<and> granted_by fadd before x after"
proof (induction xs rule: rev_induct)
  case Nil
  then show ?case by (simp add: new_surface_lease_def)
next
  case (snoc x xs)
  let ?m = "lease_run fadd xs new_surface_lease"
  have run: "lease_run fadd (xs @ [x]) new_surface_lease = snd (lease_step fadd x ?m)"
    by (simp add: lease_run_append)
  then have "sl_state (snd (lease_step fadd x ?m)) = Leased" using snoc.prems by simp
  from leased_step [OF this] show ?case
  proof (elim disjE)
    assume same: "snd (lease_step fadd x ?m) = ?m \<and> sl_state ?m = Leased"
    then obtain before y after where xs: "xs = before @ y # after" and g: "granted_by fadd before y after"
      using snoc.IH by blast
    from g obtain n l t url d where y: "y = (n, l, Begin_takeover t url (Some d) True)"
      and ok: "cdp_url_ok url" "0 < d" "d \<le> max_lease_seconds"
        "sl_state (expire_if_due n (lease_run fadd before new_surface_lease)) = Owner_active"
      and held: "\<And>k. k \<le> length after \<Longrightarrow> lease_run fadd (before @ y # take k after) new_surface_lease
             = \<lparr>sl_state = Leased, sl_token = Some t, sl_deadline = fadd l d\<rparr>"
      unfolding granted_by_def by blast
    have "lease_run fadd (before @ y # take k (after @ [x])) new_surface_lease
        = \<lparr>sl_state = Leased, sl_token = Some t, sl_deadline = fadd l d\<rparr>" if "k \<le> length (after @ [x])" for k
    proof (cases "k \<le> length after")
      case False
      then have "k = length (after @ [x])" using that by simp
      then show ?thesis using same run xs held [of "length after"] by simp
    qed (use held in simp)
    then have "granted_by fadd before y (after @ [x])" using y ok unfolding granted_by_def by blast
    then show ?thesis using xs by (intro exI [of _ before] exI [of _ y] exI [of _ "after @ [x]"]) simp
  next
    assume "\<exists>now later token url timeout. x = (now, later, Begin_takeover token url (Some timeout) True)
        \<and> cdp_url_ok url \<and> 0 < timeout \<and> timeout \<le> max_lease_seconds
        \<and> sl_state (expire_if_due now ?m) = Owner_active
        \<and> snd (lease_step fadd x ?m) = \<lparr>sl_state = Leased, sl_token = Some token, sl_deadline = fadd later timeout\<rparr>"
    then have "granted_by fadd xs x []" unfolding granted_by_def using run by auto
    then show ?thesis by blast
  qed
qed

text \<open>
  C30. For every history of calls: the owner and a borrower are never allowed to act at the same
  time, and two different tokens never. A borrower is allowed only by the token of a takeover of the
  history that was granted to it in the owner's state, after a confirmed pause, for a loopback address
  and at most an hour, that no call has ended since, and whose deadline has not passed.
\<close>

theorem surface_has_one_controller:
  fixes fadd :: "rat \<Rightarrow> rat \<Rightarrow> rat"
  assumes "m = lease_run fadd xs new_surface_lease" and "fst (lease_step fadd (now, r, Authorize_borrower token) m)"
  shows "\<not> fst (lease_step fadd (now, r', Authorize_owner) m)
    \<and> (fst (lease_step fadd (now, r', Authorize_borrower token') m) \<longrightarrow> token' = token)
    \<and> (\<exists>before n l t url timeout after.
         xs = before @ (n, l, Begin_takeover t url (Some timeout) True) # after
         \<and> granted_by fadd before (n, l, Begin_takeover t url (Some timeout) True) after
         \<and> token = Some t \<and> now \<le> fadd l timeout)"
proof -
  have leased: "sl_state m = Leased" "sl_token m = token" "token \<noteq> None" "now \<le> sl_deadline m"
    using assms(2) by (auto simp: lease_defs split: if_splits)
  obtain before x after where xs: "xs = before @ x # after" and g: "granted_by fadd before x after"
    using leased_granted leased(1) assms(1) by metis
  from g obtain n l t url timeout where x: "x = (n, l, Begin_takeover t url (Some timeout) True)"
    and held: "\<forall>k \<le> length after. lease_run fadd (before @ x # take k after) new_surface_lease
             = \<lparr>sl_state = Leased, sl_token = Some t, sl_deadline = fadd l timeout\<rparr>"
    unfolding granted_by_def by blast
  have "m = \<lparr>sl_state = Leased, sl_token = Some t, sl_deadline = fadd l timeout\<rparr>"
    using held [rule_format, of "length after"] assms(1) xs by simp
  then have m: "sl_state m = Leased" "sl_token m = Some t" "sl_deadline m = fadd l timeout" by simp_all
  moreover have "\<not> fst (lease_step fadd (now, r', Authorize_owner) m)"
    and "fst (lease_step fadd (now, r', Authorize_borrower token') m) \<longrightarrow> token' = token"
    using m leased by (auto simp: lease_defs)
  moreover have "token = Some t" "now \<le> fadd l timeout" using m leased(2,4) by simp_all
  ultimately show ?thesis using xs g unfolding x by blast
qed

definition sample_takeover :: "rat \<times> rat \<times> lease_call" where
  "sample_takeover = (0, 1, Begin_takeover ''token'' ''http://127.0.0.1:9222'' (Some 60) True)"

lemma sample_lease:
  "lease_run (+) [sample_takeover] new_surface_lease = \<lparr>sl_state = Leased, sl_token = Some ''token'', sl_deadline = 61\<rparr>"
  by (simp add: sample_takeover_def lease_defs cdp_url_ok_def new_surface_lease_def max_lease_seconds_def)

theorem surface_has_one_controller_witness:
  "\<not> fst (lease_step (+) (5, 0, Authorize_owner) (lease_run (+) [sample_takeover] new_surface_lease))"
proof -
  have "fst (lease_step (+) (5, 0, Authorize_borrower (Some ''token'')) (lease_run (+) [sample_takeover] new_surface_lease))"
    unfolding sample_lease by (simp add: lease_defs)
  from surface_has_one_controller [OF refl this, of 0 None] show ?thesis by blast
qed

subsection \<open>Reclaiming\<close>

text \<open>
  After a failure or an expiry nobody acts: from a state that has to be reclaimed, no sequence of
  calls without a confirmed reclaim allows the owner or any borrower to act or grants a takeover; and
  a confirmation gives the surface back to the owner.
\<close>

lemma reclaim_blocks_everyone:
  assumes "sl_state m = Reclaim_required" and "list_all (\<lambda>(n, r, c). c \<noteq> Confirm_reclaimed) xs"
  shows "sl_state (lease_run fadd xs m) = Reclaim_required
    \<and> \<not> fst (lease_step fadd (now, r, Authorize_owner) (lease_run fadd xs m))
    \<and> \<not> fst (lease_step fadd (now, r, Authorize_borrower token) (lease_run fadd xs m))
    \<and> \<not> fst (lease_step fadd (now, r, Begin_takeover t url timeout p) (lease_run fadd xs m))
    \<and> fst (lease_step fadd (now, r, Authorize_owner) (lease_run fadd (xs @ [(n', r', Confirm_reclaimed)]) m))"
proof -
  have "sl_state (lease_run fadd xs m) = Reclaim_required"
    using assms
  proof (induction xs arbitrary: m)
    case (Cons x xs)
    have "sl_state (snd (lease_step fadd x m)) = Reclaim_required"
      using Cons.prems by (cases "(fadd, x, m)" rule: lease_step.cases) (auto simp: lease_defs)
    then show ?case using Cons by simp
  qed simp
  then show ?thesis by (simp add: lease_run_append lease_defs)
qed

lemma reclaim_blocks_everyone_witness:
  "\<not> fst (lease_step (+) (100, 0, Authorize_owner)
     (lease_run (+) [sample_takeover, (62, 0, Read_state), (63, 0, Release (Some ''token'') True)] new_surface_lease))"
proof -
  let ?m = "lease_run (+) [sample_takeover, (62, 0, Read_state)] new_surface_lease"
  have "sl_state ?m = Reclaim_required"
    by (simp add: sample_takeover_def lease_defs cdp_url_ok_def new_surface_lease_def max_lease_seconds_def)
  from reclaim_blocks_everyone [OF this, of "[(63, 0, Release (Some ''token'') True)]" "(+)" 100 0] show ?thesis
    by simp
qed

end
