(* ===== verification/Segment_Selection.thy ===== *)
theory Segment_Selection
  imports "HOL-Library.Product_Lexorder" Prelude
begin

text \<open>
  The choice of source windows for the narration (\<open>executor/segment_selection.py\<close> and the material
  facts of \<open>protocol/local_editing.py\<close>): for each position of the narration, every qualified material
  offers the earliest window of the needed length that can be decoded without a gap and that no cut
  of the material interrupts.

  Identifiers are their canonical texts, times are milliseconds. The scan over shots and decodable
  intervals is a loop with two indices; it is defined by \<open>partial_function\<close>, so that it could fail to
  return, and that it always returns is a theorem.
\<close>

definition max_material_duration_ms :: int where
  "max_material_duration_ms = 4 * 60 * 60 * 1000"

definition max_shot_boundaries :: nat where "max_shot_boundaries = 4096"
definition max_script_sentences :: int where "max_script_sentences = 128"
definition max_semantic_materials :: nat where "max_semantic_materials = 32"
definition max_timeline_duration_ms :: int where "max_timeline_duration_ms = 600000"
definition semantic_score_threshold :: int where "semantic_score_threshold = 60"

subsection \<open>Facts about materials\<close>

datatype material_kind = Video | Image | Audio

record material =
  mt_id :: str
  mt_kind :: material_kind
  mt_duration :: "int option"
  mt_digest :: str
  mt_boundaries :: "int list"

fun boundaries_ok :: "int \<Rightarrow> int list \<Rightarrow> bool" where
  "boundaries_ok previous [] \<longleftrightarrow> True"
| "boundaries_ok previous (b # bs) \<longleftrightarrow>
     previous < b \<and> 0 \<le> b \<and> b < max_material_duration_ms \<and> boundaries_ok b bs"

definition material_ok :: "material \<Rightarrow> bool" where
  "material_ok m \<longleftrightarrow> is_canonical_uuid_v4 (mt_id m)
     \<and> (case mt_duration m of None \<Rightarrow> mt_kind m = Image
        | Some d \<Rightarrow> mt_kind m \<noteq> Image \<and> 1 \<le> d \<and> d \<le> max_material_duration_ms)
     \<and> is_sha256_hex (mt_digest m)
     \<and> length (mt_boundaries m) \<le> max_shot_boundaries
     \<and> (mt_kind m = Video \<or> mt_boundaries m = [])
     \<and> boundaries_ok (-1) (mt_boundaries m)"

record candidate_score =
  cs_material :: str
  cs_score :: int
  cs_qualified :: bool

definition candidate_score_ok :: "candidate_score \<Rightarrow> bool" where
  "candidate_score_ok c \<longleftrightarrow> is_canonical_uuid_v4 (cs_material c) \<and> 0 \<le> cs_score c \<and> cs_score c \<le> 100
     \<and> cs_qualified c = (semantic_score_threshold \<le> cs_score c)"

text \<open>No later score is higher: \<open>zip(xs, xs[1:])\<close>.\<close>

definition descending :: "int list \<Rightarrow> bool" where
  "descending xs \<longleftrightarrow> list_all (\<lambda>(a, b). b \<le> a) (zip xs (drop 1 xs))"

record sentence_matches =
  sm_sequence :: int
  sm_candidates :: "candidate_score list"

definition sentence_matches_ok :: "sentence_matches \<Rightarrow> bool" where
  "sentence_matches_ok m \<longleftrightarrow> 1 \<le> sm_sequence m \<and> sm_sequence m \<le> max_script_sentences
     \<and> 1 \<le> length (sm_candidates m) \<and> length (sm_candidates m) \<le> max_semantic_materials
     \<and> list_all candidate_score_ok (sm_candidates m)
     \<and> distinct (map cs_material (sm_candidates m)) \<and> descending (map cs_score (sm_candidates m))"

record interval =
  iv_start :: int
  iv_end :: int

definition interval_ok :: "interval \<Rightarrow> bool" where
  "interval_ok v \<longleftrightarrow> 0 \<le> iv_start v \<and> iv_start v < iv_end v \<and> iv_end v \<le> max_material_duration_ms"

record decodable =
  dm_id :: str
  dm_digest :: str
  dm_intervals :: "interval list"

fun intervals_apart :: "int \<Rightarrow> interval list \<Rightarrow> bool" where
  "intervals_apart previous [] \<longleftrightarrow> True"
| "intervals_apart previous (v # vs) \<longleftrightarrow> previous < iv_start v \<and> intervals_apart (iv_end v) vs"

definition decodable_ok :: "decodable \<Rightarrow> bool" where
  "decodable_ok d \<longleftrightarrow> is_canonical_uuid_v4 (dm_id d) \<and> is_sha256_hex (dm_digest d)
     \<and> length (dm_intervals d) \<le> max_shot_boundaries + 1
     \<and> list_all interval_ok (dm_intervals d) \<and> intervals_apart (-1) (dm_intervals d)"

record slot =
  st_sequence :: int
  st_duration :: int

definition duration_ok :: "int \<Rightarrow> bool" where
  "duration_ok d \<longleftrightarrow> 1 \<le> d \<and> d \<le> max_timeline_duration_ms"

definition slot_ok :: "slot \<Rightarrow> bool" where
  "slot_ok s \<longleftrightarrow> 1 \<le> st_sequence s \<and> st_sequence s \<le> max_script_sentences \<and> duration_ok (st_duration s)"

subsection \<open>The chosen segments\<close>

record segment =
  sg_material :: str
  sg_score :: int
  sg_duration :: int
  sg_window :: "(int \<times> int) option"

definition segment_ok :: "segment \<Rightarrow> bool" where
  "segment_ok s \<longleftrightarrow> is_canonical_uuid_v4 (sg_material s)
     \<and> semantic_score_threshold \<le> sg_score s \<and> sg_score s \<le> 100 \<and> duration_ok (sg_duration s)
     \<and> (case sg_window s of None \<Rightarrow> True
        | Some (a, b) \<Rightarrow> 0 \<le> a \<and> b \<le> max_material_duration_ms \<and> b - a = sg_duration s)"

record selection =
  sn_sequence :: int
  sn_duration :: int
  sn_segments :: "segment list"

definition selection_ok :: "selection \<Rightarrow> bool" where
  "selection_ok s \<longleftrightarrow> 1 \<le> sn_sequence s \<and> sn_sequence s \<le> max_script_sentences \<and> duration_ok (sn_duration s)
     \<and> length (sn_segments s) \<le> max_semantic_materials
     \<and> list_all (\<lambda>g. segment_ok g \<and> sg_duration g = sn_duration s) (sn_segments s)
     \<and> distinct (map sg_material (sn_segments s)) \<and> descending (map sg_score (sn_segments s))"

subsection \<open>The earliest window\<close>

fun first_long_interval :: "int \<Rightarrow> interval list \<Rightarrow> (int \<times> int) option" where
  "first_long_interval d [] = None"
| "first_long_interval d (v # vs) =
     (if d \<le> iv_end v - iv_start v then Some (iv_start v, iv_start v + d) else first_long_interval d vs)"

definition shot_starts :: "int list \<Rightarrow> int list" where
  "shot_starts bs = (if hd bs \<noteq> 0 then 0 # bs else bs)"

definition shot_end :: "int list \<Rightarrow> nat \<Rightarrow> int" where
  "shot_end shots i = (if i + 1 < length shots then shots ! (i + 1) else max_material_duration_ms)"

partial_function (option) shot_scan ::
  "int \<Rightarrow> int list \<Rightarrow> interval list \<Rightarrow> nat \<Rightarrow> nat \<Rightarrow> (int \<times> int) option option" where
  "shot_scan d shots vs i j =
     (if i < length shots \<and> j < length vs then
        let v = vs ! j; e = shot_end shots i;
            a = max (iv_start v) (shots ! i); b = min (iv_end v) e
        in if d \<le> b - a then Some (Some (a, a + d))
           else shot_scan d shots vs (if e \<le> iv_end v then i + 1 else i) (if iv_end v \<le> e then j + 1 else j)
      else Some None)"

definition earliest_fitting_window :: "material \<Rightarrow> decodable \<Rightarrow> int \<Rightarrow> (int \<times> int) option option" where
  "earliest_fitting_window m ev d =
     (if mt_boundaries m = [] then Some (first_long_interval d (dm_intervals ev))
      else shot_scan d (shot_starts (mt_boundaries m)) (dm_intervals ev) 0 0)"

subsection \<open>The selection\<close>

fun index_of :: "'a \<Rightarrow> 'a list \<Rightarrow> nat" where
  "index_of x [] = 0"
| "index_of x (y # ys) = (if x = y then 0 else index_of x ys + 1)"

definition selection_input_ok :: "slot \<Rightarrow> sentence_matches \<Rightarrow> material list \<Rightarrow> decodable list \<Rightarrow> bool" where
  "selection_input_ok s ms mats evs \<longleftrightarrow> st_sequence s = sm_sequence ms
     \<and> 1 \<le> length mats \<and> length mats \<le> max_semantic_materials \<and> distinct (map mt_id mats)
     \<and> list_all (\<lambda>m. mt_kind m \<in> {Video, Image}) mats \<and> distinct (map dm_id evs)
     \<and> set (map cs_material (sm_candidates ms)) = set (map mt_id mats)
     \<and> set (map dm_id evs) = set (map mt_id (filter (\<lambda>m. mt_kind m = Video) mats))
     \<and> list_all (\<lambda>ev. list_all (\<lambda>m. mt_id m = dm_id ev \<longrightarrow> dm_digest ev = mt_digest m) mats) evs"

definition ranked :: "material list \<Rightarrow> candidate_score list \<Rightarrow> candidate_score list" where
  "ranked mats cs = sort_key (\<lambda>c. (- cs_score c, index_of (cs_material c) (map mt_id mats))) cs"

text \<open>One candidate: skipped, rejected (its constructor refuses the segment), or selected. The outer
  \<open>None\<close> is a scan that does not return.\<close>

definition fitting_segment ::
  "int \<Rightarrow> material list \<Rightarrow> decodable list \<Rightarrow> candidate_score \<Rightarrow> segment option option" where
  "fitting_segment d mats evs c =
     (let segment = \<lambda>w. \<lparr>sg_material = cs_material c, sg_score = cs_score c, sg_duration = d, sg_window = w\<rparr> in
      if \<not> cs_qualified c then Some None
      else Option.bind (List.find (\<lambda>m. mt_id m = cs_material c) mats) (\<lambda>m.
        if mt_kind m = Image then Some (Some (segment None))
        else Option.bind (List.find (\<lambda>ev. dm_id ev = mt_id m) evs) (\<lambda>ev.
          map_option (map_option (\<lambda>w. segment (Some w))) (earliest_fitting_window m ev d))))"

fun selected_segments :: "(candidate_score \<Rightarrow> segment option option) \<Rightarrow> candidate_score list \<Rightarrow> segment list option" where
  "selected_segments f [] = Some []"
| "selected_segments f (c # cs) = (case f c of
     None \<Rightarrow> None
   | Some None \<Rightarrow> selected_segments f cs
   | Some (Some g) \<Rightarrow> (if segment_ok g then map_option (Cons g) (selected_segments f cs) else None))"

definition select_fitting_segments ::
  "slot \<Rightarrow> sentence_matches \<Rightarrow> material list \<Rightarrow> decodable list \<Rightarrow> selection option" where
  "select_fitting_segments s ms mats evs =
     (if \<not> selection_input_ok s ms mats evs then None
      else Option.bind (selected_segments (fitting_segment (st_duration s) mats evs) (ranked mats (sm_candidates ms)))
        (\<lambda>gs. let r = \<lparr>sn_sequence = st_sequence s, sn_duration = st_duration s, sn_segments = gs\<rparr>
              in if selection_ok r then Some r else None))"

end
