(* ===== verification/Segment_Properties.thy ===== *)
theory Segment_Properties
  imports "HOL-Library.Multiset" Segment_Selection
begin

text \<open>
  What the selection of source windows guarantees: the scan returns, its window is the earliest one
  that fits, and a selection lists every qualified material that has a fitting window, in rank order.
\<close>

subsection \<open>The scan returns\<close>

lemma scan_total: "\<exists>r. shot_scan d shots vs i j = Some r"
proof (induction "(length shots - i) + (length vs - j)" arbitrary: i j rule: less_induct)
  case less
  show ?case
  proof (cases "i < length shots \<and> j < length vs \<and>
      \<not> d \<le> min (iv_end (vs ! j)) (shot_end shots i) - max (iv_start (vs ! j)) (shots ! i)")
    case True
    let ?i = "if shot_end shots i \<le> iv_end (vs ! j) then i + 1 else i"
    let ?j = "if iv_end (vs ! j) \<le> shot_end shots i then j + 1 else j"
    have "(length shots - ?i) + (length vs - ?j) < (length shots - i) + (length vs - j)" using True by auto
    from less [OF this] show ?thesis using True by (subst shot_scan.simps) (simp add: Let_def)
  next
    case False
    then show ?thesis by (subst shot_scan.simps) (auto simp: Let_def)
  qed
qed

text \<open>
  C32. The scan for a window always returns, on any shots and intervals, sorted or not, and for any
  duration: each round leaves a shot or an interval behind.
\<close>

theorem window_scan_returns: "\<exists>r. earliest_fitting_window m ev d = Some r"
  by (simp add: earliest_fitting_window_def scan_total)

subsection \<open>The reference\<close>

text \<open>A window fits when one decodable interval covers it and no cut falls inside it.\<close>

definition window_fits :: "int list \<Rightarrow> interval list \<Rightarrow> int \<Rightarrow> int \<Rightarrow> bool" where
  "window_fits bs vs d t \<longleftrightarrow> list_ex (\<lambda>v. iv_start v \<le> t \<and> t + d \<le> iv_end v) vs
     \<and> list_all (\<lambda>b. \<not> (t < b \<and> b < t + d)) bs"

definition earliest :: "(int \<Rightarrow> bool) \<Rightarrow> int \<Rightarrow> (int \<times> int) option \<Rightarrow> bool" where
  "earliest fits d r \<longleftrightarrow> (case r of None \<Rightarrow> \<forall>t. \<not> fits t
     | Some (a, b) \<Rightarrow> b = a + d \<and> fits a \<and> (\<forall>t. fits t \<longrightarrow> a \<le> t))"

lemma intervals_apart_starts:
  "intervals_apart p vs \<Longrightarrow> list_all interval_ok vs \<Longrightarrow> v \<in> set vs \<Longrightarrow> p < iv_start v"
  by (induction vs arbitrary: p) (force simp: interval_ok_def)+

lemma intervals_apart_nth:
  "intervals_apart p vs \<Longrightarrow> list_all interval_ok vs \<Longrightarrow> j < k \<Longrightarrow> k < length vs \<Longrightarrow> iv_end (vs ! j) < iv_start (vs ! k)"
proof (induction vs arbitrary: p j k)
  case (Cons v vs)
  then show ?case
    by (cases j; cases k) (auto intro: intervals_apart_starts [of "iv_end v" vs])
qed simp

lemma first_long_interval_earliest:
  assumes "intervals_apart p vs" "list_all interval_ok vs"
  shows "earliest (window_fits [] vs d) d (first_long_interval d vs)"
  using assms
proof (induction vs arbitrary: p)
  case Nil then show ?case by (simp add: earliest_def window_fits_def)
next
  case (Cons v vs)
  note rest = Cons.IH [of "iv_end v"] and starts = intervals_apart_starts [of "iv_end v" vs]
  show ?case
  proof (cases "d \<le> iv_end v - iv_start v")
    case True
    have vs: "interval_ok v" "list_all interval_ok vs" "intervals_apart (iv_end v) vs" using Cons.prems by simp_all
    have "iv_start v \<le> iv_start u" if "u \<in> set vs" for u
      using starts [OF vs(3,2) that] vs(1) by (simp add: interval_ok_def)
    then have "iv_start v \<le> t" if "window_fits [] (v # vs) d t" for t
      using that by (fastforce simp: window_fits_def list_ex_iff)
    moreover have "window_fits [] (v # vs) d (iv_start v)" using True by (simp add: window_fits_def)
    ultimately show ?thesis using True by (simp add: earliest_def)
  next
    case False
    then have "window_fits [] (v # vs) d t = window_fits [] vs d t" for t by (auto simp: window_fits_def)
    then show ?thesis using False rest Cons.prems by (simp add: earliest_def)
  qed
qed

subsection \<open>The scan\<close>

text \<open>The windows inside one shot and one interval.\<close>

definition window_in :: "int list \<Rightarrow> interval list \<Rightarrow> int \<Rightarrow> nat \<Rightarrow> nat \<Rightarrow> int \<Rightarrow> bool" where
  "window_in shots vs d k l t \<longleftrightarrow> k < length shots \<and> l < length vs \<and> shots ! k \<le> t \<and> t + d \<le> shot_end shots k
     \<and> iv_start (vs ! l) \<le> t \<and> t + d \<le> iv_end (vs ! l)"

lemma shot_end_later:
  "sorted shots \<Longrightarrow> i < k \<Longrightarrow> k < length shots \<Longrightarrow> shot_end shots i \<le> shots ! k"
  by (simp add: shot_end_def sorted_nth_mono)

lemma scan_earliest:
  assumes "sorted shots" "intervals_apart p vs" "list_all interval_ok vs" "1 \<le> d"
    and "shot_scan d shots vs i j = Some r"
  shows "earliest (\<lambda>t. \<exists>k\<ge>i. \<exists>l\<ge>j. window_in shots vs d k l t) d r"
  using assms(5)
proof (induction "(length shots - i) + (length vs - j)" arbitrary: i j rule: less_induct)
  case less
  let ?v = "vs ! j" and ?e = "shot_end shots i"
  let ?a = "max (iv_start ?v) (shots ! i)" and ?b = "min (iv_end ?v) ?e"
  have later: "shots ! i \<le> shots ! k" "iv_start ?v \<le> iv_start (vs ! l)"
    if "i \<le> k" "j \<le> l" "k < length shots" "l < length vs" for k l
  proof -
    show "shots ! i \<le> shots ! k" using that assms(1) by (simp add: sorted_nth_mono)
    have "interval_ok ?v" using that assms(3) by (simp add: list_all_length)
    then show "iv_start ?v \<le> iv_start (vs ! l)"
      using that intervals_apart_nth [OF assms(2,3), of j l] by (cases "j = l") (auto simp: interval_ok_def)
  qed
  show ?case
  proof (cases "i < length shots \<and> j < length vs")
    case inside: True
    show ?thesis
    proof (cases "d \<le> ?b - ?a")
      case True
      then have r: "r = Some (?a, ?a + d)" using less.prems inside by (subst (asm) shot_scan.simps) (simp add: Let_def)
      have "window_in shots vs d i j ?a" using True inside by (auto simp: window_in_def)
      moreover have "?a \<le> t" if "i \<le> k" "j \<le> l" "window_in shots vs d k l t" for k l t
        using later [of k l] that by (auto simp: window_in_def)
      ultimately show ?thesis unfolding earliest_def r by auto
    next
      case False
      let ?i = "if ?e \<le> iv_end ?v then i + 1 else i" and ?j = "if iv_end ?v \<le> ?e then j + 1 else j"
      have step: "shot_scan d shots vs ?i ?j = Some r"
        using less.prems inside False by (subst (asm) shot_scan.simps) (simp add: Let_def)
      have smaller: "(length shots - ?i) + (length vs - ?j) < (length shots - i) + (length vs - j)" using inside by auto
      have moved: "?i \<le> k \<and> ?j \<le> l" if w: "i \<le> k" "j \<le> l" "window_in shots vs d k l t" for k l t
      proof -
        have "\<not> (k = i \<and> l = j)" using False w by (auto simp: window_in_def)
        moreover have "k \<noteq> i" if "?e \<le> iv_end ?v" "j < l"
          using intervals_apart_nth [OF assms(2,3), of j l] w that assms(4) by (auto simp: window_in_def)
        moreover have "l \<noteq> j" if "iv_end ?v \<le> ?e" "i < k"
          using shot_end_later [OF assms(1), of i k] w that assms(4) by (auto simp: window_in_def)
        ultimately show ?thesis using w(1,2) by (auto simp: order_le_less)
      qed
      have "(\<exists>k\<ge>i. \<exists>l\<ge>j. window_in shots vs d k l t) \<longleftrightarrow> (\<exists>k\<ge>?i. \<exists>l\<ge>?j. window_in shots vs d k l t)" for t
      proof
        assume "\<exists>k\<ge>?i. \<exists>l\<ge>?j. window_in shots vs d k l t"
        then obtain k l where "?i \<le> k" "?j \<le> l" "window_in shots vs d k l t" by blast
        moreover have "i \<le> ?i" "j \<le> ?j" by auto
        ultimately show "\<exists>k\<ge>i. \<exists>l\<ge>j. window_in shots vs d k l t" by (meson order_trans)
      qed (use moved in blast)
      then show ?thesis using less.hyps [OF smaller step] by (simp only:)
    qed
  next
    case False
    then have "r = None" using less.prems by (subst (asm) shot_scan.simps) (auto simp: Let_def)
    then show ?thesis using False by (auto simp: earliest_def window_in_def)
  qed
qed

subsection \<open>Shots and cuts\<close>

lemma boundaries_ok_props:
  "boundaries_ok p bs \<Longrightarrow> sorted_wrt (<) bs \<and> list_all (\<lambda>b. p < b \<and> 0 \<le> b \<and> b < max_material_duration_ms) bs"
  by (induction bs arbitrary: p) (auto simp: list_all_iff, fastforce+)

lemma shot_starts_props:
  assumes "boundaries_ok (-1) bs" "bs \<noteq> []"
  shows "sorted_wrt (<) (shot_starts bs)" "shot_starts bs \<noteq> []" "shot_starts bs ! 0 = 0"
    "set (shot_starts bs) = insert 0 (set bs)"
proof -
  have all: "sorted_wrt (<) bs" "list_all (\<lambda>b. 0 \<le> b) bs"
    using boundaries_ok_props [OF assms(1)] by (simp_all add: list_all_iff)
  obtain b bs' where bs: "bs = b # bs'" using assms(2) by (cases bs) simp
  show "sorted_wrt (<) (shot_starts bs)" using all by (auto simp: shot_starts_def bs list_all_iff)
  show "shot_starts bs \<noteq> []" "shot_starts bs ! 0 = 0" "set (shot_starts bs) = insert 0 (set bs)"
    by (auto simp: shot_starts_def bs)
qed

text \<open>A window lies in one shot exactly when no cut falls inside it.\<close>

lemma inside_shot_iff:
  assumes "sorted_wrt (<) shots" "shots \<noteq> []" "shots ! 0 = 0" "0 \<le> t" "1 \<le> d" "t + d \<le> max_material_duration_ms"
  shows "(\<exists>k < length shots. shots ! k \<le> t \<and> t + d \<le> shot_end shots k)
    \<longleftrightarrow> list_all (\<lambda>b. \<not> (t < b \<and> b < t + d)) shots"
proof
  assume "\<exists>k < length shots. shots ! k \<le> t \<and> t + d \<le> shot_end shots k"
  then obtain k where k: "k < length shots" "shots ! k \<le> t" "t + d \<le> shot_end shots k" by blast
  have "\<not> (t < shots ! m \<and> shots ! m < t + d)" if "m < length shots" for m
  proof (cases "m \<le> k")
    case True
    then have "shots ! m \<le> shots ! k" using assms(1) k(1) by (simp add: sorted_nth_mono strict_sorted_imp_sorted)
    then show ?thesis using k(2) by simp
  next
    case False
    then have "shot_end shots k \<le> shots ! m"
      using shot_end_later [of shots k m] assms(1) that by (simp add: strict_sorted_imp_sorted)
    then show ?thesis using k(3) by simp
  qed
  then show "list_all (\<lambda>b. \<not> (t < b \<and> b < t + d)) shots" by (simp add: list_all_length)
next
  assume none: "list_all (\<lambda>b. \<not> (t < b \<and> b < t + d)) shots"
  let ?P = "\<lambda>k. k < length shots \<and> shots ! k \<le> t"
  define k where "k = Max {k. ?P k}"
  have fin: "finite {k. ?P k}" by simp
  have "?P 0" using assms(2,3,4) by simp
  then have k: "?P k" using Max_in [OF fin] unfolding k_def by blast
  have "t + d \<le> shot_end shots k"
  proof (cases "k + 1 < length shots")
    case True
    have "\<not> ?P (k + 1)"
    proof
      assume "?P (k + 1)"
      then have "k + 1 \<le> k" using Max_ge [OF fin, of "k + 1"] unfolding k_def by blast
      then show False by simp
    qed
    then have "t < shots ! (k + 1)" using True by simp
    moreover have "\<not> (t < shots ! (k + 1) \<and> shots ! (k + 1) < t + d)" using none True unfolding list_all_length by blast
    ultimately show ?thesis using True by (simp add: shot_end_def)
  qed (use assms(6) in \<open>simp add: shot_end_def\<close>)
  then show "\<exists>k < length shots. shots ! k \<le> t \<and> t + d \<le> shot_end shots k" using k by blast
qed

lemma windows_in_shots:
  assumes "boundaries_ok (-1) bs" "bs \<noteq> []" "list_all interval_ok vs" "1 \<le> d"
  shows "(\<exists>k\<ge>0. \<exists>l\<ge>0. window_in (shot_starts bs) vs d k l t) \<longleftrightarrow> window_fits bs vs d t"
proof -
  note shots = shot_starts_props [OF assms(1,2)]
  have "(\<exists>k < length (shot_starts bs). shot_starts bs ! k \<le> t \<and> t + d \<le> shot_end (shot_starts bs) k)
      \<longleftrightarrow> list_all (\<lambda>b. \<not> (t < b \<and> b < t + d)) bs"
    if "l < length vs" "iv_start (vs ! l) \<le> t" "t + d \<le> iv_end (vs ! l)" for l
  proof -
    have "interval_ok (vs ! l)" using assms(3) that by (simp add: list_all_length)
    then have "0 \<le> t" "t + d \<le> max_material_duration_ms" using that by (simp_all add: interval_ok_def)
    then show ?thesis
      using inside_shot_iff [OF shots(1-3) _ assms(4), of t] shots(4) by (simp add: list_all_iff)
  qed
  then have "(\<exists>l < length vs. (\<exists>k < length (shot_starts bs). shot_starts bs ! k \<le> t
        \<and> t + d \<le> shot_end (shot_starts bs) k) \<and> iv_start (vs ! l) \<le> t \<and> t + d \<le> iv_end (vs ! l))
      \<longleftrightarrow> window_fits bs vs d t"
    unfolding window_fits_def list_ex_length by blast
  then show ?thesis unfolding window_in_def by auto
qed

lemma earliest_window:
  assumes "material_ok m" "decodable_ok ev" "1 \<le> d"
  shows "\<exists>r. earliest_fitting_window m ev d = Some r
    \<and> earliest (window_fits (mt_boundaries m) (dm_intervals ev) d) d r"
proof (cases "mt_boundaries m = []")
  case True
  then show ?thesis
    using assms(2) first_long_interval_earliest by (auto simp: earliest_fitting_window_def decodable_ok_def)
next
  case False
  let ?bs = "mt_boundaries m" and ?vs = "dm_intervals ev"
  have bs: "boundaries_ok (-1) ?bs" and vs: "intervals_apart (-1) ?vs" "list_all interval_ok ?vs"
    using assms(1,2) by (simp_all add: material_ok_def decodable_ok_def)
  obtain r where r: "shot_scan d (shot_starts ?bs) ?vs 0 0 = Some r" using scan_total by blast
  have "sorted (shot_starts ?bs)" using shot_starts_props(1) [OF bs False] by (rule strict_sorted_imp_sorted)
  from scan_earliest [OF this vs assms(3) r] have "earliest (window_fits ?bs ?vs d) d r"
    unfolding windows_in_shots [OF bs False vs(2) assms(3)] .
  then show ?thesis using r False by (simp add: earliest_fitting_window_def)
qed

text \<open>
  C33. The scan over shots and decodable intervals computes its specification: it returns a window of
  the needed length that lies in one decodable interval and that no cut interrupts, and no such
  window starts earlier; it returns none exactly when there is none.
\<close>

theorem earliest_window_exact:
  assumes "material_ok m" and "decodable_ok ev" and "1 \<le> d"
  shows "\<exists>r. earliest_fitting_window m ev d = Some r
    \<and> earliest (window_fits (mt_boundaries m) (dm_intervals ev) d) d r"
  by (rule earliest_window [OF assms])

subsection \<open>The selection\<close>

text \<open>A material can fill the slot with a window (an image without one).\<close>

definition fills :: "int \<Rightarrow> material list \<Rightarrow> decodable list \<Rightarrow> str \<Rightarrow> (int \<times> int) option \<Rightarrow> bool" where
  "fills d mats evs i w \<longleftrightarrow> (\<exists>m \<in> set mats. mt_id m = i \<and>
     (if mt_kind m = Image then w = None
      else w \<noteq> None \<and> (\<exists>ev \<in> set evs. dm_id ev = i
        \<and> earliest (window_fits (mt_boundaries m) (dm_intervals ev) d) d w)))"

definition segment_of :: "int \<Rightarrow> candidate_score \<Rightarrow> (int \<times> int) option \<Rightarrow> segment" where
  "segment_of d c w = \<lparr>sg_material = cs_material c, sg_score = cs_score c, sg_duration = d, sg_window = w\<rparr>"

definition listed :: "int \<Rightarrow> material list \<Rightarrow> decodable list \<Rightarrow> candidate_score \<Rightarrow> segment \<Rightarrow> bool" where
  "listed d mats evs c g \<longleftrightarrow> g = segment_of d c (sg_window g) \<and> fills d mats evs (cs_material c) (sg_window g)"

definition fitting :: "int \<Rightarrow> material list \<Rightarrow> decodable list \<Rightarrow> candidate_score \<Rightarrow> bool" where
  "fitting d mats evs c \<longleftrightarrow> cs_qualified c \<and> (\<exists>w. fills d mats evs (cs_material c) w)"

lemma find_by_key:
  assumes "distinct (map k xs)" "x \<in> set xs"
  shows "List.find (\<lambda>y. k y = k x) xs = Some x"
  using assms by (induction xs) (auto simp: rev_image_eqI)

lemma same_key:
  "distinct (map k xs) \<Longrightarrow> x \<in> set xs \<Longrightarrow> y \<in> set xs \<Longrightarrow> k x = k y \<Longrightarrow> x = y"
  by (metis distinct_map inj_onD)

lemma fits_bounds:
  assumes "list_all interval_ok vs" "window_fits bs vs d t"
  shows "0 \<le> t" "t + d \<le> max_material_duration_ms"
  using assms by (auto simp: window_fits_def list_ex_iff list_all_iff interval_ok_def)

lemma fitting_segment_exact:
  assumes mats: "list_all material_ok mats" and evs: "list_all decodable_ok evs"
    and input: "selection_input_ok s ms mats evs" and c: "candidate_score_ok c" "cs_material c \<in> set (map mt_id mats)"
    and d: "duration_ok d"
  shows "\<exists>r. fitting_segment d mats evs c = Some r \<and> (case r of None \<Rightarrow> \<not> fitting d mats evs c
    | Some g \<Rightarrow> fitting d mats evs c \<and> segment_ok g \<and> listed d mats evs c g)"
proof (cases "cs_qualified c")
  case True
  obtain m where m: "m \<in> set mats" "cs_material c = mt_id m" using c(2) by auto
  have ids: "distinct (map mt_id mats)" "distinct (map dm_id evs)" using input by (simp_all add: selection_input_ok_def)
  note found = find_by_key [OF ids(1) m(1)]
  have only: "m' = m" if "m' \<in> set mats" "mt_id m' = mt_id m" for m' using same_key [OF ids(1)] that m(1) by blast
  have score: "semantic_score_threshold \<le> cs_score c" "cs_score c \<le> 100" "is_canonical_uuid_v4 (cs_material c)"
    using c(1) True by (simp_all add: candidate_score_ok_def)
  show ?thesis
  proof (cases "mt_kind m = Image")
    case image: True
    have fills: "fills d mats evs (cs_material c) None" using m image by (auto simp: fills_def)
    moreover have "fitting_segment d mats evs c = Some (Some (segment_of d c None))"
      using True found image by (simp add: fitting_segment_def m(2) segment_of_def Let_def)
    moreover have "segment_ok (segment_of d c None)" using score d by (simp add: segment_ok_def segment_of_def)
    ultimately show ?thesis using True by (auto simp: fitting_def listed_def segment_of_def)
  next
    case False
    then have video: "mt_kind m = Video" using input m(1) by (auto simp: selection_input_ok_def list_all_iff)
    then have "mt_id m \<in> set (map dm_id evs)" using input m(1) by (auto simp: selection_input_ok_def)
    then obtain ev where ev: "ev \<in> set evs" "dm_id ev = mt_id m" by auto
    have found_ev: "List.find (\<lambda>e. dm_id e = mt_id m) evs = Some ev" using find_by_key [OF ids(2) ev(1)] ev(2) by simp
    have only_ev: "e = ev" if "e \<in> set evs" "dm_id e = mt_id m" for e using same_key [OF ids(2)] that ev by metis
    have ok: "material_ok m" "decodable_ok ev" using mats evs m(1) ev(1) by (simp_all add: list_all_iff)
    have "1 \<le> d" using d by (simp add: duration_ok_def)
    from earliest_window [OF ok this] obtain r where r: "earliest_fitting_window m ev d = Some r"
      and first: "earliest (window_fits (mt_boundaries m) (dm_intervals ev) d) d r" by blast
    have run: "fitting_segment d mats evs c = Some (map_option (\<lambda>w. segment_of d c (Some w)) r)"
      using True found found_ev False r by (simp add: fitting_segment_def m(2) segment_of_def Let_def)
    have fills: "fills d mats evs (cs_material c) w \<longleftrightarrow> w \<noteq> None
        \<and> earliest (window_fits (mt_boundaries m) (dm_intervals ev) d) d w" for w
    proof
      assume "fills d mats evs (cs_material c) w"
      then obtain m' where "m' \<in> set mats" "mt_id m' = mt_id m" and w: "if mt_kind m' = Image then w = None
          else w \<noteq> None \<and> (\<exists>e \<in> set evs. dm_id e = mt_id m
            \<and> earliest (window_fits (mt_boundaries m') (dm_intervals e) d) d w)"
        by (auto simp: fills_def m(2))
      then show "w \<noteq> None \<and> earliest (window_fits (mt_boundaries m) (dm_intervals ev) d) d w"
        using only False only_ev by (metis (no_types, lifting))
    qed (use m ev False in \<open>auto simp: fills_def\<close>)
    show ?thesis
    proof (cases r)
      case None
      then have "\<not> window_fits (mt_boundaries m) (dm_intervals ev) d t" for t using first by (simp add: earliest_def)
      then have "\<not> fitting d mats evs c" by (auto simp: fitting_def fills earliest_def split: option.splits)
      then show ?thesis using run None by simp
    next
      case (Some w)
      obtain a b where w: "w = (a, b)" by (cases w)
      have "window_fits (mt_boundaries m) (dm_intervals ev) d a" "b = a + d"
        using first by (simp_all add: earliest_def Some w)
      moreover have "list_all interval_ok (dm_intervals ev)" using ok(2) by (simp add: decodable_ok_def)
      ultimately have "segment_ok (segment_of d c (Some w))"
        using fits_bounds score d by (fastforce simp: segment_ok_def segment_of_def w)
      moreover have "fills d mats evs (cs_material c) (Some w)" using first Some by (simp add: fills)
      ultimately show ?thesis using run Some True by (auto simp: fitting_def listed_def segment_of_def)
    qed
  qed
qed (simp add: fitting_segment_def fitting_def)

lemma selected_exact:
  assumes "\<And>c. c \<in> set cs \<Longrightarrow> \<exists>r. f c = Some r \<and> (case r of None \<Rightarrow> \<not> P c | Some g \<Rightarrow> P c \<and> segment_ok g \<and> Q c g)"
  shows "\<exists>gs. selected_segments f cs = Some gs \<and> list_all segment_ok gs \<and> list_all2 Q (filter P cs) gs"
  using assms
proof (induction cs)
  case (Cons c cs)
  obtain gs where gs: "selected_segments f cs = Some gs" "list_all segment_ok gs" "list_all2 Q (filter P cs) gs"
    using Cons by auto
  obtain r where "f c = Some r" "case r of None \<Rightarrow> \<not> P c | Some g \<Rightarrow> P c \<and> segment_ok g \<and> Q c g"
    using Cons.prems [of c] by auto
  then show ?case using gs by (cases r) auto
qed simp

subsection \<open>Order\<close>

lemma descendingI: "sorted_wrt (\<lambda>a b. b \<le> a) xs \<Longrightarrow> descending xs"
proof (induction xs)
  case (Cons x xs)
  then show ?case by (cases xs) (auto simp: descending_def)
qed (simp add: descending_def)

lemma ranked_order: "sorted_wrt (\<lambda>a b. cs_score b \<le> cs_score a) (ranked mats cs)"
proof -
  have "sorted (map (\<lambda>c. (- cs_score c, index_of (cs_material c) (map mt_id mats))) (ranked mats cs))"
    unfolding ranked_def by (rule sorted_sort_key)
  then show ?thesis by (auto simp: sorted_map less_eq_prod_simp elim!: sorted_wrt_mono_rel [rotated])
qed

lemma ranked_set: "set (ranked mats cs) = set cs" "length (ranked mats cs) = length cs"
  "distinct (map cs_material (ranked mats cs)) = distinct (map cs_material cs)"
proof -
  have "mset (map cs_material (ranked mats cs)) = mset (map cs_material cs)"
    unfolding ranked_def mset_map by (simp only: mset_sort)
  then show "distinct (map cs_material (ranked mats cs)) = distinct (map cs_material cs)" by (rule mset_eq_imp_distinct_iff)
qed (simp_all add: ranked_def)

lemma listed_fields:
  assumes "list_all2 (listed d mats evs) cs gs"
  shows "map sg_material gs = map cs_material cs" "map sg_score gs = map cs_score cs"
    "list_all (\<lambda>g. sg_duration g = d) gs" "length gs = length cs"
proof -
  have "sg_material g = cs_material c \<and> sg_score g = cs_score c \<and> sg_duration g = d" if "listed d mats evs c g" for c g
  proof -
    have "g = segment_of d c (sg_window g)" using that by (simp add: listed_def)
    then show ?thesis by (metis segment.select_convs(1-3) segment_of_def)
  qed
  note fields = this
  from assms have "map sg_material gs = map cs_material cs \<and> map sg_score gs = map cs_score cs
    \<and> list_all (\<lambda>g. sg_duration g = d) gs \<and> length gs = length cs"
    by (induction rule: list_all2_induct) (auto dest: fields)
  then show "map sg_material gs = map cs_material cs" "map sg_score gs = map cs_score cs"
    "list_all (\<lambda>g. sg_duration g = d) gs" "length gs = length cs" by simp_all
qed

lemma selection_exact:
  assumes "list_all material_ok mats" "list_all decodable_ok evs" "sentence_matches_ok ms" "slot_ok s"
    and input: "selection_input_ok s ms mats evs"
  shows "\<exists>r. select_fitting_segments s ms mats evs = Some r \<and> sn_sequence r = st_sequence s
    \<and> sn_duration r = st_duration s
    \<and> list_all2 (listed (st_duration s) mats evs)
        (filter (fitting (st_duration s) mats evs) (ranked mats (sm_candidates ms))) (sn_segments r)"
proof -
  let ?d = "st_duration s" and ?cs = "sm_candidates ms"
  let ?f = "fitting_segment ?d mats evs" and ?chosen = "filter (fitting ?d mats evs) (ranked mats ?cs)"
  have d: "duration_ok ?d" using assms(4) by (simp add: slot_ok_def)
  have cs: "candidate_score_ok c" "cs_material c \<in> set (map mt_id mats)" if "c \<in> set (ranked mats ?cs)" for c
    using that assms(3) input by (auto simp: ranked_set sentence_matches_ok_def selection_input_ok_def list_all_iff)
  obtain gs where gs: "selected_segments ?f (ranked mats ?cs) = Some gs" "list_all segment_ok gs"
    and listed: "list_all2 (listed ?d mats evs) ?chosen gs"
    using selected_exact [of "ranked mats ?cs" ?f "fitting ?d mats evs" "listed ?d mats evs"]
      fitting_segment_exact [OF assms(1,2) input cs d] by blast
  note fields = listed_fields [OF listed]
  have "distinct (map cs_material ?chosen)"
    using assms(3) by (intro distinct_map_filter) (simp add: ranked_set sentence_matches_ok_def)
  moreover have "descending (map cs_score ?chosen)"
    by (intro descendingI) (simp add: sorted_wrt_map sorted_wrt_filter [OF ranked_order])
  moreover have "length ?chosen \<le> max_semantic_materials"
    using assms(3) length_filter_le [of "fitting ?d mats evs" "ranked mats ?cs"]
    by (simp add: ranked_set sentence_matches_ok_def)
  ultimately have "selection_ok \<lparr>sn_sequence = st_sequence s, sn_duration = ?d, sn_segments = gs\<rparr>"
    using assms(4) d gs(2) fields by (simp add: selection_ok_def slot_ok_def list_all_iff)
  then show ?thesis using gs(1) listed input by (simp add: select_fitting_segments_def)
qed

text \<open>
  C34. A selection lists exactly the qualified materials that can fill the slot, by score and then in
  the order of the materials, each with its earliest window; it is rejected exactly when its inputs do
  not belong together, and never because of what was found.
\<close>

theorem selection_lists_what_fits:
  assumes "list_all material_ok mats" and "list_all decodable_ok evs" and "sentence_matches_ok ms" and "slot_ok s"
  shows "case select_fitting_segments s ms mats evs of
      None \<Rightarrow> \<not> selection_input_ok s ms mats evs
    | Some r \<Rightarrow> selection_input_ok s ms mats evs \<and> sn_sequence r = st_sequence s \<and> sn_duration r = st_duration s
        \<and> list_all2 (listed (st_duration s) mats evs)
            (filter (fitting (st_duration s) mats evs) (ranked mats (sm_candidates ms))) (sn_segments r)"
proof (cases "selection_input_ok s ms mats evs")
  case True
  from selection_exact [OF assms True] show ?thesis using True by auto
qed (simp add: select_fitting_segments_def)

subsection \<open>Samples\<close>

definition the_footage :: material where
  "the_footage = \<lparr>mt_id = ''00000000-0000-4000-8000-00000000000a'', mt_kind = Video, mt_duration = Some 9000,
     mt_digest = replicate 64 CHR ''0'', mt_boundaries = [1000, 5000]\<rparr>"

definition the_picture :: material where
  "the_picture = \<lparr>mt_id = ''00000000-0000-4000-8000-00000000000b'', mt_kind = Image, mt_duration = None,
     mt_digest = replicate 64 CHR ''1'', mt_boundaries = []\<rparr>"

definition the_evidence :: decodable where
  "the_evidence = \<lparr>dm_id = mt_id the_footage, dm_digest = mt_digest the_footage,
     dm_intervals = [\<lparr>iv_start = 500, iv_end = 4000\<rparr>, \<lparr>iv_start = 4500, iv_end = 9000\<rparr>]\<rparr>"

definition the_matches :: sentence_matches where
  "the_matches = \<lparr>sm_sequence = 1, sm_candidates = [
     \<lparr>cs_material = mt_id the_picture, cs_score = 90, cs_qualified = True\<rparr>,
     \<lparr>cs_material = mt_id the_footage, cs_score = 80, cs_qualified = True\<rparr>]\<rparr>"

definition the_slot :: slot where
  "the_slot = \<lparr>st_sequence = 1, st_duration = 2000\<rparr>"

lemmas segment_samples = the_footage_def the_picture_def the_evidence_def the_matches_def the_slot_def

lemma sample_materials:
  "material_ok the_footage" "material_ok the_picture" "decodable_ok the_evidence"
  by (simp_all add: material_ok_def decodable_ok_def segment_samples max_material_duration_ms_def
      max_shot_boundaries_def interval_ok_def is_canonical_uuid_v4_def uuid_shape_def hex_digit_def is_sha256_hex_def
      list_all_iff)

lemma sample_slot: "sentence_matches_ok the_matches" "slot_ok the_slot"
  "selection_input_ok the_slot the_matches [the_footage, the_picture] [the_evidence]"
  by (auto simp: sentence_matches_ok_def slot_ok_def selection_input_ok_def candidate_score_ok_def duration_ok_def
      segment_samples max_script_sentences_def max_semantic_materials_def max_timeline_duration_ms_def
      semantic_score_threshold_def descending_def is_canonical_uuid_v4_def uuid_shape_def hex_digit_def)

lemma sample_window: "earliest_fitting_window the_footage the_evidence 2000 = Some (Some (1000, 3000))"
  by (simp add: earliest_fitting_window_def segment_samples shot_starts_def shot_scan.simps shot_end_def Let_def)

theorem earliest_window_exact_witness:
  "earliest (window_fits [1000, 5000] (dm_intervals the_evidence) 2000) 2000 (Some (1000, 3000))"
  using earliest_window_exact [OF sample_materials(1,3), of 2000] sample_window by (simp add: the_footage_def)

theorem selection_lists_what_fits_witness:
  "\<exists>r. select_fitting_segments the_slot the_matches [the_footage, the_picture] [the_evidence] = Some r
    \<and> sn_duration r = 2000
    \<and> list_all2 (listed 2000 [the_footage, the_picture] [the_evidence])
        (filter (fitting 2000 [the_footage, the_picture] [the_evidence])
          (ranked [the_footage, the_picture] (sm_candidates the_matches))) (sn_segments r)"
proof -
  have "case select_fitting_segments the_slot the_matches [the_footage, the_picture] [the_evidence] of
      None \<Rightarrow> \<not> selection_input_ok the_slot the_matches [the_footage, the_picture] [the_evidence]
    | Some r \<Rightarrow> selection_input_ok the_slot the_matches [the_footage, the_picture] [the_evidence]
        \<and> sn_sequence r = st_sequence the_slot \<and> sn_duration r = st_duration the_slot
        \<and> list_all2 (listed (st_duration the_slot) [the_footage, the_picture] [the_evidence])
            (filter (fitting (st_duration the_slot) [the_footage, the_picture] [the_evidence])
              (ranked [the_footage, the_picture] (sm_candidates the_matches))) (sn_segments r)"
    by (rule selection_lists_what_fits) (simp_all add: sample_materials sample_slot)
  then show ?thesis using sample_slot(3) by (auto split: option.splits simp: the_slot_def)
qed

end
