(* ===== verification/Editing_Timeline.thy ===== *)
theory Editing_Timeline
  imports Complex_Main Safe_Text
begin

text \<open>
  The editing timeline (\<open>control_plane/domain/timeline.py\<close>): clips on lanes, and what their
  constructors accept. A record stands for the arguments of a constructor, and the predicate ending
  in \<open>_ok\<close> says that it does not raise.

  Identifiers of other resources are texts, levels are rationals (the constructor refuses a float
  that is not finite), and characters are those below 256, of whose categories C are the control
  characters and the soft hyphen.
\<close>

definition max_timeline_ms :: int where "max_timeline_ms = 600000"
definition min_timeline_ms :: int where "min_timeline_ms = 100"
definition max_source_ms :: int where "max_source_ms = 4 * 60 * 60 * 1000"
definition max_clips_per_track :: nat where "max_clips_per_track = 512"
definition max_transition_ms :: int where "max_transition_ms = 10000"
definition max_clip_text :: nat where "max_clip_text = 2000"
definition min_gain_db :: rat where "min_gain_db = - 60"
definition max_gain_db :: rat where "max_gain_db = 12"

datatype track_kind = Visual | Narration | Ambient | Music | Caption
datatype audio_mode = Auto_duck | Fixed_volume | Muted
datatype transition_kind = Fade | Dissolve | Wipe

definition track_kinds :: "track_kind list" where
  "track_kinds = [Visual, Narration, Ambient, Music, Caption]"

text \<open>\<open>^[a-z][a-z0-9-]{0,63}\Z\<close>.\<close>

definition local_id_ok :: "str \<Rightarrow> bool" where
  "local_id_ok s \<longleftrightarrow> s \<noteq> [] \<and> length s \<le> 64 \<and> ascii_lower (hd s)
     \<and> list_all (\<lambda>c. ascii_lower c \<or> ascii_digit c \<or> c = CHR ''-'') (tl s)"

definition category_c :: "char \<Rightarrow> bool" where
  "category_c c \<longleftrightarrow> code c \<le> 31 \<or> (127 \<le> code c \<and> code c \<le> 159) \<or> code c = 173"

definition clip_text_ok :: "nat \<Rightarrow> str \<Rightarrow> bool" where
  "clip_text_ok maximum s \<longleftrightarrow> s \<noteq> [] \<and> s = strip s \<and> length s \<le> maximum
     \<and> list_all (\<lambda>c. code c \<in> {9, 10} \<or> \<not> category_c c) s"

subsection \<open>Clips\<close>

record transition =
  tn_kind :: transition_kind
  tn_duration :: int

definition transition_ok :: "transition \<Rightarrow> bool" where
  "transition_ok x \<longleftrightarrow> 1 \<le> tn_duration x \<and> tn_duration x \<le> max_transition_ms"

record clip =
  cl_id :: str
  cl_start :: int
  cl_duration :: int
  cl_material :: "str option"
  cl_source_in :: "int option"
  cl_source_out :: "int option"
  cl_text :: "str option"
  cl_gain :: "rat option"
  cl_transition :: "transition option"
  cl_audio :: "audio_mode option"

definition clip_end :: "clip \<Rightarrow> int" where
  "clip_end c = cl_start c + cl_duration c"

definition source_window_ok :: "clip \<Rightarrow> bool" where
  "source_window_ok c \<longleftrightarrow> (case (cl_source_in c, cl_source_out c) of
     (None, None) \<Rightarrow> True
   | (Some a, Some b) \<Rightarrow> cl_material c \<noteq> None \<and> 0 \<le> a \<and> b \<le> max_source_ms \<and> b - a = cl_duration c
   | _ \<Rightarrow> False)"

definition gain_ok :: "clip \<Rightarrow> bool" where
  "gain_ok c \<longleftrightarrow> (case cl_gain c of None \<Rightarrow> True
     | Some g \<Rightarrow> cl_source_in c \<noteq> None \<and> min_gain_db \<le> g \<and> g \<le> max_gain_db)"

definition clip_transition_ok :: "clip \<Rightarrow> bool" where
  "clip_transition_ok c \<longleftrightarrow> (case cl_transition c of None \<Rightarrow> True
     | Some x \<Rightarrow> tn_duration x < cl_duration c)"

definition clip_ok :: "clip \<Rightarrow> bool" where
  "clip_ok c \<longleftrightarrow> local_id_ok (cl_id c) \<and> 0 \<le> cl_start c \<and> 1 \<le> cl_duration c
     \<and> cl_duration c \<le> max_timeline_ms \<and> cl_start c + cl_duration c \<le> max_timeline_ms
     \<and> (case cl_transition c of None \<Rightarrow> True | Some x \<Rightarrow> transition_ok x)
     \<and> (case cl_text c of None \<Rightarrow> True | Some s \<Rightarrow> clip_text_ok max_clip_text s)
     \<and> (cl_material c = None) \<noteq> (cl_text c = None)
     \<and> source_window_ok c \<and> gain_ok c \<and> clip_transition_ok c"

subsection \<open>Tracks\<close>

record track =
  tk_id :: str
  tk_kind :: track_kind
  tk_clips :: "clip list"

definition clip_shape_ok :: "track_kind \<Rightarrow> clip \<Rightarrow> bool" where
  "clip_shape_ok k c \<longleftrightarrow>
     (if k = Caption then cl_material c = None \<and> cl_transition c = None \<and> cl_audio c = None
      else cl_text c = None
        \<and> (if k = Visual then cl_gain c = None \<and> cl_audio c = None
           else cl_gain c \<noteq> None \<and> cl_transition c = None
             \<and> (if k = Ambient then cl_audio c \<noteq> None else cl_audio c = None)))"

definition overlap :: "clip \<Rightarrow> int" where
  "overlap c = (case cl_transition c of None \<Rightarrow> 0 | Some x \<Rightarrow> tn_duration x)"

text \<open>The loop of \<open>_validate_layout\<close>, from the end and the remaining tail of the previous clip.\<close>

fun layout_ok :: "track_kind \<Rightarrow> int \<Rightarrow> int \<Rightarrow> clip list \<Rightarrow> bool" where
  "layout_ok k previous_end previous_tail [] \<longleftrightarrow> True"
| "layout_ok k previous_end previous_tail (c # cs) \<longleftrightarrow>
     (if k \<noteq> Visual
      then previous_end \<le> cl_start c \<and> layout_ok k (clip_end c) previous_tail cs
      else \<not> (cl_transition c \<noteq> None \<and> previous_tail \<le> overlap c)
        \<and> cl_start c = previous_end - overlap c
        \<and> layout_ok k (clip_end c) (cl_duration c - overlap c) cs)"

definition track_ok :: "track \<Rightarrow> bool" where
  "track_ok tk \<longleftrightarrow> local_id_ok (tk_id tk) \<and> 1 \<le> length (tk_clips tk)
     \<and> length (tk_clips tk) \<le> max_clips_per_track \<and> list_all clip_ok (tk_clips tk)
     \<and> distinct (map cl_id (tk_clips tk)) \<and> list_all (clip_shape_ok (tk_kind tk)) (tk_clips tk)
     \<and> layout_ok (tk_kind tk) 0 0 (tk_clips tk)"

definition track_end :: "track \<Rightarrow> int" where
  "track_end tk = clip_end (last (tk_clips tk))"

subsection \<open>Timelines\<close>

record timeline =
  tl_id :: str
  tl_project :: str
  tl_revision :: int
  tl_duration :: int
  tl_tracks :: "track list"
  tl_created :: py_datetime

definition track_of :: "timeline \<Rightarrow> track_kind \<Rightarrow> track option" where
  "track_of fm k = List.find (\<lambda>tk. tk_kind tk = k) (tl_tracks fm)"

definition timeline_ok :: "timeline \<Rightarrow> bool" where
  "timeline_ok fm \<longleftrightarrow> 1 \<le> tl_revision fm \<and> min_timeline_ms \<le> tl_duration fm \<and> tl_duration fm \<le> max_timeline_ms
     \<and> 1 \<le> length (tl_tracks fm) \<and> length (tl_tracks fm) \<le> length track_kinds
     \<and> list_all track_ok (tl_tracks fm) \<and> distinct (map tk_id (tl_tracks fm))
     \<and> distinct (map tk_kind (tl_tracks fm)) \<and> canonical_utc (tl_created fm) \<noteq> None
     \<and> (case track_of fm Visual of None \<Rightarrow> False | Some p \<Rightarrow> track_end p = tl_duration fm)
     \<and> list_all (\<lambda>tk. list_all (\<lambda>c. clip_end c \<le> tl_duration fm) (tk_clips tk)) (tl_tracks fm)"

subsection \<open>What is playing\<close>

definition plays :: "int \<Rightarrow> clip \<Rightarrow> bool" where
  "plays t c \<longleftrightarrow> cl_start c \<le> t \<and> t < clip_end c"

definition playing :: "int \<Rightarrow> clip list \<Rightarrow> clip list" where
  "playing t cs = filter (plays t) cs"

text \<open>The clip is coming in by its transition.\<close>

definition coming_in :: "int \<Rightarrow> clip \<Rightarrow> bool" where
  "coming_in t c \<longleftrightarrow> cl_transition c \<noteq> None \<and> cl_start c \<le> t \<and> t < cl_start c + overlap c"

lemma clip_okD: "clip_ok c \<Longrightarrow> 1 \<le> cl_duration c \<and> 0 \<le> overlap c \<and> overlap c < cl_duration c"
  by (auto simp: clip_ok_def overlap_def clip_transition_ok_def transition_ok_def split: option.splits)

fun last_end :: "int \<Rightarrow> clip list \<Rightarrow> int" where
  "last_end e [] = e"
| "last_end e (c # cs) = last_end (clip_end c) cs"

lemma last_end_last: "cs \<noteq> [] \<Longrightarrow> last_end e cs = clip_end (last cs)"
  by (induction cs arbitrary: e) auto

lemma visual_last_end:
  "layout_ok Visual e w cs \<Longrightarrow> last_end e cs = e + sum_list (map (\<lambda>c. cl_duration c - overlap c) cs)"
  by (induction cs arbitrary: e w) (auto simp: clip_end_def)

lemma visual_later: "layout_ok Visual e w cs \<Longrightarrow> list_all clip_ok cs \<Longrightarrow> e \<le> last_end e cs"
proof (induction cs arbitrary: e w)
  case (Cons c cs)
  then have "clip_end c \<le> last_end (clip_end c) cs" by auto
  moreover have "e \<le> clip_end c" using Cons.prems clip_okD [of c] by (simp add: clip_end_def)
  ultimately show ?case by simp
qed simp

lemma visual_playing:
  assumes "layout_ok Visual e w cs" "list_all clip_ok cs" "0 \<le> w"
  shows "(t < e - w \<or> last_end e cs \<le> t \<longrightarrow> playing t cs = [])
    \<and> (e - w \<le> t \<and> t < e \<longrightarrow> playing t cs = [] \<or> (\<exists>c. playing t cs = [c] \<and> coming_in t c))
    \<and> (e \<le> t \<and> t < last_end e cs \<longrightarrow>
        (\<exists>c. playing t cs = [c]) \<or> (\<exists>c c'. playing t cs = [c, c'] \<and> coming_in t c'))"
  using assms
proof (induction cs arbitrary: e w)
  case Nil
  then show ?case by (auto simp: playing_def)
next
  case (Cons c cs)
  let ?e = "clip_end c" and ?w = "cl_duration c - overlap c"
  have c: "1 \<le> cl_duration c" "0 \<le> overlap c" "overlap c < cl_duration c"
    using clip_okD [of c] Cons.prems(2) by auto
  have start: "cl_start c = e - overlap c" and tail: "overlap c = 0 \<or> overlap c < w"
    and rest: "layout_ok Visual ?e ?w cs"
    using Cons.prems(1) by (auto simp: overlap_def split: option.splits)
  have e: "?e - ?w = e" "e < ?e" using start c by (simp_all add: clip_end_def)
  note IH = Cons.IH [OF rest]
  have later: "?e \<le> last_end ?e cs" using visual_later [OF rest] Cons.prems(2) by simp
  have into: "coming_in t c" if "cl_start c \<le> t" "t < e"
    using that start by (auto simp: coming_in_def overlap_def split: option.splits)
  have IH': "(t < e \<or> last_end ?e cs \<le> t \<longrightarrow> playing t cs = [])
    \<and> (e \<le> t \<and> t < ?e \<longrightarrow> playing t cs = [] \<or> (\<exists>c. playing t cs = [c] \<and> coming_in t c))
    \<and> (?e \<le> t \<and> t < last_end ?e cs \<longrightarrow>
        (\<exists>c. playing t cs = [c]) \<or> (\<exists>c c'. playing t cs = [c, c'] \<and> coming_in t c'))"
    using IH Cons.prems(2) c e by simp
  have step: "playing t (c # cs) = (if cl_start c \<le> t \<and> t < ?e then c # playing t cs else playing t cs)"
    by (simp add: playing_def plays_def)
  consider "t < cl_start c" | "cl_start c \<le> t" "t < e" | "e \<le> t" "t < ?e" | "?e \<le> t" by linarith
  then show ?case
  proof cases
    case 1
    then show ?thesis using IH' step start c tail later e by auto
  next
    case 2
    then have "playing t (c # cs) = [c]" using IH' step e by simp
    then show ?thesis using into 2 later e start tail Cons.prems(3) by auto
  next
    case 3
    then have "playing t (c # cs) = c # playing t cs" using step start c by simp
    then show ?thesis using IH' 3 later Cons.prems(3) by auto
  next
    case 4
    then show ?thesis using IH' step e Cons.prems(3) by auto
  qed
qed

lemma other_playing:
  assumes "layout_ok k e w cs" "k \<noteq> Visual" "list_all clip_ok cs"
  shows "(t < e \<longrightarrow> playing t cs = []) \<and> length (playing t cs) \<le> 1"
  using assms
proof (induction cs arbitrary: e)
  case (Cons c cs)
  have "1 \<le> cl_duration c" using Cons.prems clip_okD [of c] by simp
  moreover have "(t < clip_end c \<longrightarrow> playing t cs = []) \<and> length (playing t cs) \<le> 1"
    using Cons.IH [of "clip_end c"] Cons.prems by simp
  ultimately show ?case using Cons.prems by (auto simp: playing_def plays_def clip_end_def)
qed (simp add: playing_def)

text \<open>
  C35. The picture of an accepted timeline has no gap and no pile-up: at every moment of the film one
  clip is shown, or two while the second comes in by its transition; outside the film none; and the
  film lasts as long as its clips together, less their transitions.
\<close>

theorem picture_fills_the_film:
  assumes "timeline_ok fm"
  shows "\<exists>p. track_of fm Visual = Some p
    \<and> (\<forall>t. 0 \<le> t \<and> t < tl_duration fm \<longrightarrow>
        (\<exists>c. playing t (tk_clips p) = [c]) \<or> (\<exists>c c'. playing t (tk_clips p) = [c, c'] \<and> coming_in t c'))
    \<and> (\<forall>t. t < 0 \<or> tl_duration fm \<le> t \<longrightarrow> playing t (tk_clips p) = [])
    \<and> tl_duration fm = sum_list (map (\<lambda>c. cl_duration c - overlap c) (tk_clips p))"
proof -
  obtain p where p: "track_of fm Visual = Some p" "track_end p = tl_duration fm"
    using assms by (auto simp: timeline_ok_def split: option.splits)
  have found: "p \<in> set (tl_tracks fm)" "tk_kind p = Visual"
    using find_Some_set p(1) unfolding track_of_def by fastforce+
  then have "track_ok p" using assms by (simp add: timeline_ok_def list_all_iff)
  then have ok: "layout_ok Visual 0 0 (tk_clips p)" "list_all clip_ok (tk_clips p)" "tk_clips p \<noteq> []"
    using found(2) by (auto simp: track_ok_def)
  have "last_end 0 (tk_clips p) = tl_duration fm" using last_end_last [OF ok(3)] p(2) by (simp add: track_end_def)
  then show ?thesis
    using visual_playing [OF ok(1,2)] visual_last_end [OF ok(1)] p(1) by (intro exI [of _ p]) auto
qed

text \<open>
  On every other lane of an accepted timeline at most one clip plays at a time, and nothing plays
  outside the film.
\<close>

lemma other_lanes_play_one:
  assumes "timeline_ok fm" and "track_of fm k = Some p" and "k \<noteq> Visual"
  shows "length (playing t (tk_clips p)) \<le> 1 \<and> (t < 0 \<or> tl_duration fm \<le> t \<longrightarrow> playing t (tk_clips p) = [])"
proof -
  have found: "p \<in> set (tl_tracks fm)" "tk_kind p = k"
    using find_Some_set assms(2) unfolding track_of_def by fastforce+
  then have "track_ok p" and ends: "list_all (\<lambda>c. clip_end c \<le> tl_duration fm) (tk_clips p)"
    using assms(1) by (simp_all add: timeline_ok_def list_all_iff)
  then have ok: "layout_ok k 0 0 (tk_clips p)" "list_all clip_ok (tk_clips p)" using found(2) by (auto simp: track_ok_def)
  have "playing t (tk_clips p) = []" if "tl_duration fm \<le> t"
    using ends that by (auto simp: playing_def plays_def list_all_iff filter_empty_conv)
  then show ?thesis using other_playing [OF ok(1) assms(3) ok(2), of t] by auto
qed

subsection \<open>Samples\<close>

definition picture_clip :: "str \<Rightarrow> int \<Rightarrow> int \<Rightarrow> transition option \<Rightarrow> clip" where
  "picture_clip i s d x = \<lparr>cl_id = i, cl_start = s, cl_duration = d, cl_material = Some ''m'', cl_source_in = None,
     cl_source_out = None, cl_text = None, cl_gain = None, cl_transition = x, cl_audio = None\<rparr>"

definition caption_clip :: clip where
  "caption_clip = \<lparr>cl_id = ''t'', cl_start = 100, cl_duration = 900, cl_material = None, cl_source_in = None,
     cl_source_out = None, cl_text = Some ''hello'', cl_gain = None, cl_transition = None, cl_audio = None\<rparr>"

definition the_film :: timeline where
  "the_film = \<lparr>tl_id = ''f'', tl_project = ''p'', tl_revision = 1, tl_duration = 4500, tl_tracks = [
     \<lparr>tk_id = ''picture'', tk_kind = Visual, tk_clips = [picture_clip ''a'' 0 3000 None,
        picture_clip ''b'' 2500 2000 (Some \<lparr>tn_kind = Fade, tn_duration = 500\<rparr>)]\<rparr>,
     \<lparr>tk_id = ''text'', tk_kind = Caption, tk_clips = [caption_clip]\<rparr>], tl_created = Aware 0 0\<rparr>"

lemma hello_text: "clip_text_ok 2000 ''hello''"
proof -
  have "strip ''hello'' = ''hello''" by code_simp
  then show ?thesis by (simp add: clip_text_ok_def category_c_def)
qed

lemma the_film_ok: "timeline_ok the_film"
  using hello_text
  by (simp add: timeline_ok_def the_film_def picture_clip_def caption_clip_def track_ok_def clip_ok_def
      local_id_ok_def ascii_lower_def ascii_digit_def source_window_ok_def gain_ok_def clip_transition_ok_def
      transition_ok_def clip_shape_ok_def overlap_def clip_end_def track_end_def track_of_def track_kinds_def
      max_timeline_ms_def min_timeline_ms_def max_clips_per_track_def max_transition_ms_def max_clip_text_def)

theorem picture_fills_the_film_witness:
  "\<exists>p. track_of the_film Visual = Some p
    \<and> ((\<exists>c. playing 2600 (tk_clips p) = [c]) \<or> (\<exists>c c'. playing 2600 (tk_clips p) = [c, c'] \<and> coming_in 2600 c'))
    \<and> playing 4500 (tk_clips p) = []"
proof -
  have "tl_duration the_film = 4500" by (simp add: the_film_def)
  with picture_fills_the_film [OF the_film_ok] show ?thesis by auto
qed

lemma other_lanes_play_one_witness:
  "\<exists>p. track_of the_film Caption = Some p \<and> length (playing 500 (tk_clips p)) \<le> 1"
proof -
  obtain p where p: "track_of the_film Caption = Some p" by (simp add: track_of_def the_film_def)
  have "length (playing 500 (tk_clips p)) \<le> 1" using other_lanes_play_one [OF the_film_ok p, of 500] by simp
  then show ?thesis using p by blast
qed

end
