(* ===== verification/Job_Lifecycles.thy ===== *)
theory Job_Lifecycles
  imports Prelude Status_Graph
begin

text \<open>
  The lifecycles of editing jobs (\<open>control_plane/domain/editing_job.py\<close>) and of publish jobs
  (\<open>control_plane/domain/video_publishing.py\<close>): the status graphs as interpretations of \<open>lifecycle\<close>,
  and the methods of an editing job, whose every status says which facts the job must carry.
  Identifiers of other resources are texts.
\<close>

subsection \<open>Editing jobs\<close>

datatype editing_status = Job_queued | Job_running | Job_cancelling | Job_succeeded | Job_failed | Job_cancelled

definition editing_terminal :: "editing_status set" where
  "editing_terminal = {Job_succeeded, Job_failed, Job_cancelled}"

fun editing_transitions :: "editing_status \<Rightarrow> editing_status set" where
  "editing_transitions Job_queued = {Job_running, Job_cancelling, Job_failed}"
| "editing_transitions Job_running = {Job_cancelling, Job_succeeded, Job_failed}"
| "editing_transitions Job_cancelling = {Job_succeeded, Job_failed, Job_cancelled}"
| "editing_transitions Job_succeeded = {}"
| "editing_transitions Job_failed = {}"
| "editing_transitions Job_cancelled = {}"

interpretation editing: lifecycle editing_transitions editing_terminal
proof
  show "s \<in> editing_terminal \<longleftrightarrow> editing_transitions s = {}" for s
    by (cases s) (simp_all add: editing_terminal_def)
qed

datatype editing_failure =
    Invalid_timeline | Material_unavailable | Material_unsupported | Font_unavailable | Render_failed
  | Resource_exhausted | Permission_denied | Worker_lost

record editing_job =
  ej_id :: str
  ej_project :: str
  ej_timeline :: str
  ej_timeline_revision :: int
  ej_status :: editing_status
  ej_failure :: "editing_failure option"
  ej_output :: "str option"
  ej_created :: py_datetime
  ej_updated :: py_datetime

definition editing_facts_ok :: "editing_job \<Rightarrow> bool" where
  "editing_facts_ok j \<longleftrightarrow>
     (if ej_status j = Job_succeeded then ej_output j \<noteq> None \<and> ej_failure j = None
      else if ej_status j = Job_failed then ej_output j = None \<and> ej_failure j \<noteq> None
      else ej_output j = None \<and> ej_failure j = None)"

text \<open>\<open>earlier a b\<close>: \<open>a < b\<close> on datetimes that are in UTC.\<close>

definition earlier :: "py_datetime \<Rightarrow> py_datetime \<Rightarrow> bool" where
  "earlier a b \<longleftrightarrow> (case (canonical_utc a, canonical_utc b) of (Some x, Some y) \<Rightarrow> x < y | _ \<Rightarrow> False)"

definition editing_job_ok :: "editing_job \<Rightarrow> bool" where
  "editing_job_ok j \<longleftrightarrow> 1 \<le> ej_timeline_revision j
     \<and> canonical_utc (ej_created j) \<noteq> None \<and> canonical_utc (ej_updated j) \<noteq> None
     \<and> \<not> earlier (ej_updated j) (ej_created j) \<and> editing_facts_ok j"

datatype job_error = Invalid_transition | Invalid_model

definition moved_to ::
  "editing_status \<Rightarrow> py_datetime \<Rightarrow> (editing_job \<Rightarrow> editing_job) \<Rightarrow> editing_job \<Rightarrow> job_error + editing_job" where
  "moved_to st t facts j =
     (if st \<notin> editing_transitions (ej_status j) then Inl Invalid_transition
      else if canonical_utc t = None \<or> earlier t (ej_updated j) then Inl Invalid_model
      else let j' = facts (j\<lparr>ej_status := st, ej_updated := t\<rparr>)
           in if editing_job_ok j' then Inr j' else Inl Invalid_model)"

datatype editing_call =
    Start_job | Request_cancel | Succeed_job str | Fail_job editing_failure | Confirm_cancelled

fun editing_step :: "editing_call \<Rightarrow> py_datetime \<Rightarrow> editing_job \<Rightarrow> job_error + editing_job" where
  "editing_step Start_job t j = moved_to Job_running t (\<lambda>j. j) j"
| "editing_step Request_cancel t j = moved_to Job_cancelling t (\<lambda>j. j) j"
| "editing_step (Succeed_job a) t j = moved_to Job_succeeded t (\<lambda>j. j\<lparr>ej_output := Some a\<rparr>) j"
| "editing_step (Fail_job f) t j = moved_to Job_failed t (\<lambda>j. j\<lparr>ej_failure := Some f\<rparr>) j"
| "editing_step Confirm_cancelled t j = moved_to Job_cancelled t (\<lambda>j. j) j"

text \<open>A history of calls: a job is immutable, so a refused call leaves it as it is.\<close>

fun editing_history :: "(editing_call \<times> py_datetime) list \<Rightarrow> editing_job \<Rightarrow> editing_call list \<times> editing_job" where
  "editing_history [] j = ([], j)"
| "editing_history ((c, t) # cs) j = (case editing_step c t j of
     Inl e \<Rightarrow> editing_history cs j
   | Inr j' \<Rightarrow> (case editing_history cs j' of (as, k) \<Rightarrow> (c # as, k)))"

fun remaining :: "editing_status \<Rightarrow> nat" where
  "remaining Job_queued = 3"
| "remaining Job_running = 2"
| "remaining Job_cancelling = 1"
| "remaining _ = 0"

text \<open>The facts that no call changes.\<close>

definition job_identity :: "editing_job \<Rightarrow> str \<times> str \<times> str \<times> int \<times> py_datetime" where
  "job_identity j = (ej_id j, ej_project j, ej_timeline j, ej_timeline_revision j, ej_created j)"

text \<open>The result of the call that ended a job.\<close>

fun ended_by :: "editing_call \<Rightarrow> editing_job \<Rightarrow> bool" where
  "ended_by (Succeed_job a) j \<longleftrightarrow> ej_status j = Job_succeeded \<and> ej_output j = Some a"
| "ended_by (Fail_job f) j \<longleftrightarrow> ej_status j = Job_failed \<and> ej_failure j = Some f"
| "ended_by Confirm_cancelled j \<longleftrightarrow> ej_status j = Job_cancelled"
| "ended_by _ j \<longleftrightarrow> ej_status j \<notin> editing_terminal"

lemma editing_step_Inr:
  assumes "editing_step c t j = Inr j'"
  shows "editing_job_ok j'" "ej_status j' \<in> editing_transitions (ej_status j)" "job_identity j' = job_identity j"
    "\<not> earlier (ej_updated j') (ej_updated j)" "ended_by c j'"
  using assms
  by (cases c; auto simp: moved_to_def Let_def job_identity_def editing_terminal_def split: if_splits)+

lemma transitions_descend: "t \<in> editing_transitions s \<Longrightarrow> remaining t < remaining s"
  by (cases s) auto

lemma remaining_terminal: "remaining s = 0 \<longleftrightarrow> s \<in> editing_terminal"
  by (cases s) (simp_all add: editing_terminal_def)

lemma earlier_trans:
  "canonical_utc b \<noteq> None \<Longrightarrow> \<not> earlier b a \<Longrightarrow> \<not> earlier c b \<Longrightarrow> \<not> earlier c a"
  by (auto simp: earlier_def split: option.splits)

lemma editing_history_facts:
  assumes "editing_job_ok j" "editing_history cs j = (as, k)"
  shows "editing_job_ok k \<and> length as + remaining (ej_status k) \<le> remaining (ej_status j)
    \<and> job_identity k = job_identity j \<and> \<not> earlier (ej_updated k) (ej_updated j)
    \<and> (as \<noteq> [] \<longrightarrow> ended_by (last as) k)"
  using assms
proof (induction cs arbitrary: j as)
  case Nil
  then show ?case by (auto simp: earlier_def split: option.splits)
next
  case (Cons x cs)
  obtain c t where x: "x = (c, t)" by (cases x)
  show ?case
  proof (cases "editing_step c t j")
    case (Inl e)
    then show ?thesis using Cons x by simp
  next
    case (Inr j')
    obtain bs where bs: "editing_history cs j' = (bs, k)" "as = c # bs"
      using Cons.prems(2) Inr by (auto simp: x split: prod.splits)
    note step = editing_step_Inr [OF Inr]
    note IH = Cons.IH [OF step(1) bs(1)]
    have "\<not> earlier (ej_updated k) (ej_updated j)"
      using earlier_trans [OF _ step(4)] IH step(1) by (auto simp: editing_job_ok_def)
    moreover have "ended_by (last as) k"
    proof (cases bs)
      case Nil
      then have "k = j'" using bs(1)
      proof (induction cs)
        case (Cons y cs) then show ?case by (cases y) (auto split: sum.splits prod.splits)
      qed simp
      then show ?thesis using step(5) by (simp add: bs(2) Nil)
    qed (use IH in \<open>simp add: bs(2)\<close>)
    ultimately show ?thesis using IH step(3) transitions_descend [OF step(2)] bs(2) by auto
  qed
qed

text \<open>
  C36. The life of an editing job: whatever is called and when, at most three calls on a queued job
  are accepted, and none after it ended; the job stays valid, so it names an output exactly when it
  succeeded and a failure exactly when it failed, they are those of the accepted call that ended it,
  its identity never changes and its time never goes back.
\<close>

theorem editing_job_settles_once:
  assumes "editing_job_ok j" and "ej_status j = Job_queued" and "editing_history cs j = (accepted, k)"
  shows "length accepted \<le> 3 \<and> editing_job_ok k \<and> job_identity k = job_identity j
    \<and> \<not> earlier (ej_updated k) (ej_updated j)
    \<and> (ej_output k \<noteq> None \<longleftrightarrow> ej_status k = Job_succeeded) \<and> (ej_failure k \<noteq> None \<longleftrightarrow> ej_status k = Job_failed)
    \<and> (accepted \<noteq> [] \<longrightarrow> ended_by (last accepted) k)
    \<and> (ej_status k \<in> editing_terminal \<longrightarrow> editing_history later k = ([], k))"
proof -
  note facts = editing_history_facts [OF assms(1,3)]
  have "editing_history later k = ([], k)" if "ej_status k \<in> editing_terminal"
  proof -
    have "editing_step c t k = Inl Invalid_transition" for c t
      using that editing.terminal_iff_stuck [of "ej_status k"] by (cases c) (simp_all add: moved_to_def)
    then show ?thesis by (induction later) auto
  qed
  then show ?thesis using facts assms(2) by (auto simp: editing_job_ok_def editing_facts_ok_def split: if_splits)
qed

definition sample_job :: editing_job where
  "sample_job = \<lparr>ej_id = ''j'', ej_project = ''p'', ej_timeline = ''t'', ej_timeline_revision = 1,
     ej_status = Job_queued, ej_failure = None, ej_output = None, ej_created = Aware 0 0, ej_updated = Aware 0 0\<rparr>"

theorem editing_job_settles_once_witness:
  "\<exists>k. editing_history [(Start_job, Aware 0 1), (Start_job, Aware 0 2), (Request_cancel, Aware 0 3),
        (Succeed_job ''o'', Aware 0 4), (Confirm_cancelled, Aware 0 5)] sample_job
      = ([Start_job, Request_cancel, Succeed_job ''o''], k)
    \<and> ended_by (Succeed_job ''o'') k \<and> editing_history [(Confirm_cancelled, Aware 0 6)] k = ([], k)"
proof -
  obtain k where k: "editing_history [(Start_job, Aware 0 1), (Start_job, Aware 0 2), (Request_cancel, Aware 0 3),
        (Succeed_job ''o'', Aware 0 4), (Confirm_cancelled, Aware 0 5)] sample_job
      = ([Start_job, Request_cancel, Succeed_job ''o''], k)"
    by (simp add: sample_job_def moved_to_def Let_def earlier_def editing_job_ok_def editing_facts_ok_def)
  have "editing_job_ok sample_job" "ej_status sample_job = Job_queued"
    by (simp_all add: sample_job_def editing_job_ok_def editing_facts_ok_def earlier_def)
  from editing_job_settles_once [OF this k, of "[(Confirm_cancelled, Aware 0 6)]"]
  have "ended_by (Succeed_job ''o'') k"
    "ej_status k \<in> editing_terminal \<longrightarrow> editing_history [(Confirm_cancelled, Aware 0 6)] k = ([], k)" by simp_all
  moreover from this(1) have "ej_status k \<in> editing_terminal" by (simp add: editing_terminal_def)
  ultimately show ?thesis using k by blast
qed

subsection \<open>Publish jobs\<close>

datatype publish_status =
    Publish_draft | Awaiting_approval | Approved | Dispatching | Published | Rejected | Publish_failed
  | Publish_cancelling | Publish_cancelled | Publish_uncertain

definition publish_terminal :: "publish_status set" where
  "publish_terminal = {Published, Rejected, Publish_failed, Publish_cancelled}"

definition pre_dispatch :: "publish_status set" where
  "pre_dispatch = {Publish_draft, Awaiting_approval, Approved}"

fun publish_transitions :: "publish_status \<Rightarrow> publish_status set" where
  "publish_transitions Publish_draft = {Awaiting_approval, Publish_cancelling}"
| "publish_transitions Awaiting_approval = {Publish_draft, Approved, Publish_cancelling}"
| "publish_transitions Approved = {Dispatching, Publish_cancelling}"
| "publish_transitions Dispatching = {Published, Rejected, Publish_failed, Publish_uncertain, Publish_cancelling}"
| "publish_transitions Publish_cancelling = {Publish_cancelled, Published, Rejected, Publish_failed, Publish_uncertain}"
| "publish_transitions Published = {}"
| "publish_transitions Rejected = {}"
| "publish_transitions Publish_failed = {}"
| "publish_transitions Publish_cancelled = {}"
| "publish_transitions Publish_uncertain = {Published, Rejected, Publish_failed}"

definition may_dispatch :: "publish_status \<Rightarrow> bool" where
  "may_dispatch s \<longleftrightarrow> s = Approved"

definition publish_transition :: "publish_status \<Rightarrow> publish_status \<Rightarrow> publish_status option" where
  "publish_transition s t = (if t \<in> publish_transitions s then Some t else None)"

interpretation publish: lifecycle publish_transitions publish_terminal
proof
  show "s \<in> publish_terminal \<longleftrightarrow> publish_transitions s = {}" for s
    by (cases s) (simp_all add: publish_terminal_def)
qed

fun publish_follow :: "publish_status \<Rightarrow> publish_status list \<Rightarrow> bool" where
  "publish_follow s [] \<longleftrightarrow> True"
| "publish_follow s (t # ts) \<longleftrightarrow> (case publish_transition s t of None \<Rightarrow> False | Some u \<Rightarrow> publish_follow u ts)"

lemma publish_follow_walk: "publish_follow s ts \<longleftrightarrow> walk publish_transitions s ts"
  by (induction ts arbitrary: s) (auto simp: publish_transition_def)

lemma after_dispatch_closed:
  "s \<notin> pre_dispatch \<Longrightarrow> t \<in> publish_transitions s \<Longrightarrow> t \<in> - insert Dispatching pre_dispatch"
  by (cases s) (auto simp: pre_dispatch_def)

lemma after_dispatch_short:
  "s \<notin> pre_dispatch \<Longrightarrow> walk publish_transitions s ts \<Longrightarrow> length ts \<le> 3"
proof -
  define rank :: "publish_status \<Rightarrow> nat" where
    "rank s = (case s of Dispatching \<Rightarrow> 3 | Publish_cancelling \<Rightarrow> 2 | Publish_uncertain \<Rightarrow> 1 | _ \<Rightarrow> 0)" for s
  have "length ts \<le> rank s" if "s \<notin> pre_dispatch" "walk publish_transitions s ts" for s ts
    using that
  proof (induction ts arbitrary: s)
    case (Cons t ts)
    then have t: "t \<in> publish_transitions s" "walk publish_transitions t ts" by simp_all
    then have "length ts \<le> rank t" using Cons.IH after_dispatch_closed [OF Cons.prems(1) t(1)] by simp
    moreover have "rank t < rank s" using t(1) Cons.prems(1) by (cases s) (auto simp: rank_def pre_dispatch_def)
    ultimately show ?case by simp
  qed simp
  moreover have "rank s \<le> 3" by (simp add: rank_def split: publish_status.split)
  ultimately show "s \<notin> pre_dispatch \<Longrightarrow> walk publish_transitions s ts \<Longrightarrow> length ts \<le> 3"
    by (meson order_trans)
qed

lemma dispatch_predecessor: "Dispatching \<in> publish_transitions s \<Longrightarrow> may_dispatch s"
  by (cases s) (simp_all add: may_dispatch_def)

text \<open>
  A publish job is dispatched at most once, and only right after it was approved: in a sequence of
  accepted transitions from a draft, before the dispatch there are only statuses without an effect on
  the platform, and after it none of them and no second dispatch, for at most three more transitions.
\<close>

lemma publish_dispatched_after_approval:
  assumes "publish_follow Publish_draft (before @ Dispatching # after)"
  shows "may_dispatch (last (Publish_draft # before)) \<and> set before \<subseteq> pre_dispatch
    \<and> Dispatching \<notin> set after \<and> set after \<inter> pre_dispatch = {} \<and> length after \<le> 3"
proof -
  have w: "walk publish_transitions Publish_draft before"
    "Dispatching \<in> publish_transitions (last (Publish_draft # before))" "walk publish_transitions Dispatching after"
    using assms unfolding publish_follow_walk publish.walk_append by simp_all
  have D: "Dispatching \<notin> pre_dispatch" by (simp add: pre_dispatch_def)
  have after: "set after \<subseteq> - insert Dispatching pre_dispatch"
  proof (cases after)
    case (Cons t ts)
    then have t: "t \<in> - insert Dispatching pre_dispatch" "walk publish_transitions t ts"
      using w(3) after_dispatch_closed [OF D] by auto
    have "set ts \<subseteq> - insert Dispatching pre_dispatch"
      using after_dispatch_closed t by (intro publish.walk_stays [OF _ t]) blast
    then show ?thesis using t Cons by simp
  qed simp
  have "set before \<subseteq> pre_dispatch"
  proof (rule ccontr)
    assume "\<not> set before \<subseteq> pre_dispatch"
    then obtain x where "x \<in> set before" "x \<notin> pre_dispatch" by blast
    then obtain xs ys where split: "before = xs @ x # ys" by (auto dest: split_list)
    then have "walk publish_transitions x ys" using w(1) by (simp add: publish.walk_append)
    moreover have "last (Publish_draft # before) = last (x # ys)" by (simp add: split)
    ultimately have "last (x # ys) \<notin> pre_dispatch"
    proof (cases ys)
      case (Cons y zs)
      assume walk: "walk publish_transitions x ys" 
      have "set ys \<subseteq> - pre_dispatch"
        using after_dispatch_closed \<open>x \<notin> pre_dispatch\<close> walk
        by (intro publish.walk_stays [of "- pre_dispatch" x ys]) blast+
      then show ?thesis using Cons last_in_set [of ys] by auto
    qed (use \<open>x \<notin> pre_dispatch\<close> in simp)
    moreover have "Approved \<in> pre_dispatch" by (simp add: pre_dispatch_def)
    ultimately show False
      using dispatch_predecessor [OF w(2)] \<open>last (Publish_draft # before) = last (x # ys)\<close> by (simp add: may_dispatch_def)
  qed
  then show ?thesis using dispatch_predecessor [OF w(2)] after after_dispatch_short [OF D w(3)] by blast
qed

lemma publish_dispatched_after_approval_witness:
  "length [Publish_cancelling, Publish_uncertain, Published] \<le> 3
    \<and> Dispatching \<notin> set [Publish_cancelling, Publish_uncertain, Published]"
  using publish_dispatched_after_approval [of "[Awaiting_approval, Publish_draft, Awaiting_approval, Approved]"
      "[Publish_cancelling, Publish_uncertain, Published]"]
  by (simp add: publish_transition_def)

end
