(* ===== verification/Confirmation_Gate.thy ===== *)
theory Confirmation_Gate
  imports Prelude
begin

text \<open>
  The gate of the critical point (\<open>SideEffectConfirmationGate\<close> of \<open>executor/browser_use_safety.py\<close>): an
  external effect is presented, confirmed into a token, and the token is spent once.

  The dict of pending effects is a list of its items in insertion order. The random identifier of a
  presentation and the random token of a confirmation are arguments; that they do not repeat is a
  hypothesis of the theorems (\<open>fresh_history\<close>).
\<close>

record pending_effect =
  pn_action :: str
  pn_account :: str
  pn_hash :: str
  pn_token :: "str option"
  pn_dispatched :: bool

type_synonym confirmation_gate = "(str \<times> pending_effect) list"

text \<open>\<open>^[a-z][a-z0-9_]{0,63}$\<close>, matched in full.\<close>

definition action_name_ok :: "str \<Rightarrow> bool" where
  "action_name_ok s \<longleftrightarrow> s \<noteq> [] \<and> length s \<le> 64 \<and> hd s \<in> set ''abcdefghijklmnopqrstuvwxyz''
     \<and> list_all (\<lambda>c. c \<in> set ''abcdefghijklmnopqrstuvwxyz0123456789_'') (tl s)"

fun put_pending :: "str \<Rightarrow> pending_effect \<Rightarrow> confirmation_gate \<Rightarrow> confirmation_gate" where
  "put_pending cid p [] = [(cid, p)]"
| "put_pending cid p ((c, q) # g) = (if c = cid then (c, p) # g else (c, q) # put_pending cid p g)"

definition present_effect :: "str \<Rightarrow> str \<Rightarrow> str \<Rightarrow> str \<Rightarrow> confirmation_gate \<Rightarrow> confirmation_gate option" where
  "present_effect cid action account hash g =
     (if action_name_ok action \<and> account \<noteq> [] \<and> length account \<le> 128 \<and> is_sha256_hex hash
      then Some (put_pending cid \<lparr>pn_action = action, pn_account = account, pn_hash = hash, pn_token = None,
        pn_dispatched = False\<rparr> g)
      else None)"

definition authorize_dispatch :: "str \<Rightarrow> bool \<Rightarrow> str \<Rightarrow> confirmation_gate \<Rightarrow> confirmation_gate option" where
  "authorize_dispatch cid confirmed token g =
     (case map_of g cid of
        None \<Rightarrow> None
      | Some p \<Rightarrow> (if pn_dispatched p \<or> \<not> confirmed then None
          else Some (put_pending cid (p\<lparr>pn_token := Some token\<rparr>) g)))"

fun consume_dispatch :: "str \<Rightarrow> str \<Rightarrow> confirmation_gate \<Rightarrow> confirmation_gate option" where
  "consume_dispatch token hash [] = None"
| "consume_dispatch token hash ((cid, p) # g) =
     (if pn_token p = Some token
      then (if pn_dispatched p \<or> pn_hash p \<noteq> hash then None
            else Some ((cid, p\<lparr>pn_token := None, pn_dispatched := True\<rparr>) # g))
      else map_option (Cons (cid, p)) (consume_dispatch token hash g))"

subsection \<open>Histories\<close>

datatype gate_call =
    Present str str str str
  | Authorize str bool str
  | Consume str str

fun gate_call_step :: "gate_call \<Rightarrow> confirmation_gate \<Rightarrow> confirmation_gate option" where
  "gate_call_step (Present cid action account hash) g = present_effect cid action account hash g"
| "gate_call_step (Authorize cid confirmed token) g = authorize_dispatch cid confirmed token g"
| "gate_call_step (Consume token hash) g = consume_dispatch token hash g"

text \<open>The accepted calls and the gate after them; a rejected call changes nothing.\<close>

fun gate_run :: "gate_call list \<Rightarrow> confirmation_gate \<Rightarrow> gate_call list \<times> confirmation_gate" where
  "gate_run [] g = ([], g)"
| "gate_run (c # cs) g = (case gate_call_step c g of
     None \<Rightarrow> gate_run cs g
   | Some g' \<Rightarrow> (case gate_run cs g' of (as, k) \<Rightarrow> (c # as, k)))"

definition presented :: "gate_call list \<Rightarrow> str list" where
  "presented cs = List.map_filter (\<lambda>c. case c of Present cid _ _ _ \<Rightarrow> Some cid | _ \<Rightarrow> None) cs"

definition minted :: "gate_call list \<Rightarrow> str list" where
  "minted cs = List.map_filter (\<lambda>c. case c of Authorize _ _ t \<Rightarrow> Some t | _ \<Rightarrow> None) cs"

definition consumed :: "gate_call list \<Rightarrow> str list" where
  "consumed cs = List.map_filter (\<lambda>c. case c of Consume t _ \<Rightarrow> Some t | _ \<Rightarrow> None) cs"

definition fresh_history :: "gate_call list \<Rightarrow> bool" where
  "fresh_history cs \<longleftrightarrow> distinct (presented cs) \<and> distinct (minted cs)"

text \<open>
  Every spending in \<open>xs\<close> came after a presentation of the same content and its confirmation, and no
  token of that presentation had been spent.
\<close>

definition spending_explained :: "gate_call list \<Rightarrow> bool" where
  "spending_explained xs \<longleftrightarrow> (\<forall>before t h after. xs = before @ Consume t h # after \<longrightarrow>
     (\<exists>cid action account. Present cid action account h \<in> set before \<and> Authorize cid True t \<in> set before
        \<and> (\<forall>t'. Authorize cid True t' \<in> set before \<longrightarrow> t' \<notin> set (consumed before))))"

subsection \<open>Invariant\<close>

lemma fst_put_pending: "fst ` set (put_pending cid p g) = insert cid (fst ` set g)"
proof (induction g)
  case (Cons x g)
  then show ?case by (cases x) auto
qed simp

lemma distinct_put_pending: "distinct (map fst g) \<Longrightarrow> distinct (map fst (put_pending cid p g))"
proof (induction g)
  case (Cons x g)
  then show ?case using fst_put_pending [of cid p g] by (cases x) auto
qed simp

lemma set_put_pending:
  "distinct (map fst g) \<Longrightarrow> set (put_pending cid p g) = insert (cid, p) {x \<in> set g. fst x \<noteq> cid}"
proof (induction g)
  case (Cons x g)
  then show ?case by (cases x) (auto simp: rev_image_eqI)
qed simp

lemma history_append [simp]:
  "presented (xs @ ys) = presented xs @ presented ys" "minted (xs @ ys) = minted xs @ minted ys"
  "consumed (xs @ ys) = consumed xs @ consumed ys"
  by (simp_all add: presented_def minted_def consumed_def map_filter_def)

lemma history_simps [simp]:
  "presented [] = []" "minted [] = []" "consumed [] = []"
  "presented (Present cid a n h # cs) = cid # presented cs" "minted (Present cid a n h # cs) = minted cs"
  "consumed (Present cid a n h # cs) = consumed cs" "presented (Authorize cid b t # cs) = presented cs"
  "minted (Authorize cid b t # cs) = t # minted cs" "consumed (Authorize cid b t # cs) = consumed cs"
  "presented (Consume t h # cs) = presented cs" "minted (Consume t h # cs) = minted cs"
  "consumed (Consume t h # cs) = t # consumed cs"
  by (simp_all add: presented_def minted_def consumed_def map_filter_def)

lemma minted_member: "Authorize cid b t \<in> set xs \<Longrightarrow> t \<in> set (minted xs)"
  by (force simp: minted_def map_filter_def)

text \<open>What the accepted calls \<open>xs\<close> say about the gate.\<close>

definition item_explained :: "gate_call list \<Rightarrow> str \<times> pending_effect \<Rightarrow> bool" where
  "item_explained xs x \<longleftrightarrow> (case x of (cid, p) \<Rightarrow>
     Present cid (pn_action p) (pn_account p) (pn_hash p) \<in> set xs
     \<and> (\<forall>t. pn_token p = Some t \<longrightarrow> Authorize cid True t \<in> set xs \<and> t \<notin> set (consumed xs))
     \<and> (\<not> pn_dispatched p \<longrightarrow> (\<forall>t. Authorize cid True t \<in> set xs \<longrightarrow> t \<notin> set (consumed xs))))"

definition gate_inv :: "gate_call list \<Rightarrow> confirmation_gate \<Rightarrow> bool" where
  "gate_inv xs g \<longleftrightarrow> distinct (map fst g) \<and> list_all (item_explained xs) g
     \<and> (\<forall>c d t. Authorize c True t \<in> set xs \<and> Authorize d True t \<in> set xs \<longrightarrow> c = d)
     \<and> set (consumed xs) \<subseteq> set (minted xs) \<and> (\<forall>c b t. Authorize c b t \<in> set xs \<longrightarrow> c \<in> fst ` set g)
     \<and> fst ` set g \<subseteq> set (presented xs) \<and> spending_explained xs"

lemma gate_invD:
  assumes "gate_inv xs g"
  shows "distinct (map fst g)" "\<And>x. x \<in> set g \<Longrightarrow> item_explained xs x"
    "\<And>c d t. Authorize c True t \<in> set xs \<Longrightarrow> Authorize d True t \<in> set xs \<Longrightarrow> c = d"
    "set (consumed xs) \<subseteq> set (minted xs)" "\<And>c b t. Authorize c b t \<in> set xs \<Longrightarrow> c \<in> fst ` set g"
    "fst ` set g \<subseteq> set (presented xs)" "spending_explained xs"
proof -
  have owners: "\<forall>c d t. Authorize c True t \<in> set xs \<and> Authorize d True t \<in> set xs \<longrightarrow> c = d"
    using assms [unfolded gate_inv_def] by (elim conjE)
  have known: "\<forall>c b t. Authorize c b t \<in> set xs \<longrightarrow> c \<in> fst ` set g"
    using assms [unfolded gate_inv_def] by (elim conjE)
  show "distinct (map fst g)" "set (consumed xs) \<subseteq> set (minted xs)" "fst ` set g \<subseteq> set (presented xs)"
    "spending_explained xs" 
    using assms by (simp_all add: gate_inv_def)
  show "item_explained xs x" if "x \<in> set g" for x using assms that by (simp add: gate_inv_def list_all_iff)
  show "c = d" if "Authorize c True t \<in> set xs" "Authorize d True t \<in> set xs" for c d t using owners that by blast
  show "c \<in> fst ` set g" if "Authorize c b t \<in> set xs" for c b t using known that by blast
qed

lemma gate_invI:
  assumes "distinct (map fst g)" "\<And>x. x \<in> set g \<Longrightarrow> item_explained xs x"
    "\<And>c d t. Authorize c True t \<in> set xs \<Longrightarrow> Authorize d True t \<in> set xs \<Longrightarrow> c = d"
    "set (consumed xs) \<subseteq> set (minted xs)" "\<And>c b t. Authorize c b t \<in> set xs \<Longrightarrow> c \<in> fst ` set g"
    "fst ` set g \<subseteq> set (presented xs)" "spending_explained xs"
  shows "gate_inv xs g"
  using assms unfolding gate_inv_def list_all_iff by blast

lemma presented_member: "Present cid a n h \<in> set xs \<Longrightarrow> cid \<in> set (presented xs)"
  by (force simp: presented_def map_filter_def)

lemma spending_snoc:
  assumes "spending_explained xs"
    and "\<And>t h. c = Consume t h \<Longrightarrow> \<exists>cid action account. Present cid action account h \<in> set xs
      \<and> Authorize cid True t \<in> set xs \<and> (\<forall>t'. Authorize cid True t' \<in> set xs \<longrightarrow> t' \<notin> set (consumed xs))"
  shows "spending_explained (xs @ [c])"
  unfolding spending_explained_def
proof (intro allI impI)
  fix before t h after assume split: "xs @ [c] = before @ Consume t h # after"
  show "\<exists>cid action account. Present cid action account h \<in> set before \<and> Authorize cid True t \<in> set before
      \<and> (\<forall>t'. Authorize cid True t' \<in> set before \<longrightarrow> t' \<notin> set (consumed before))"
  proof (cases after rule: rev_cases)
    case Nil
    then show ?thesis using split assms(2) by simp
  next
    case (snoc after' y)
    then have "xs = before @ Consume t h # after'" using split by simp
    then show ?thesis using assms(1) unfolding spending_explained_def by blast
  qed
qed

lemma consume_dispatch_Some:
  assumes "consume_dispatch t h g = Some g'"
  shows "\<exists>before cid p after. g = before @ (cid, p) # after \<and> pn_token p = Some t \<and> \<not> pn_dispatched p
    \<and> pn_hash p = h \<and> g' = before @ (cid, p\<lparr>pn_token := None, pn_dispatched := True\<rparr>) # after"
  using assms
proof (induction g arbitrary: g')
  case (Cons x g)
  obtain cid p where x: "x = (cid, p)" by (cases x)
  show ?case
  proof (cases "pn_token p = Some t")
    case True
    then show ?thesis
      using Cons.prems x by (intro exI [of _ "[]"] exI [of _ cid] exI [of _ p] exI [of _ g]) (simp split: if_splits)
  next
    case False
    then obtain k where k: "consume_dispatch t h g = Some k" "g' = x # k" using Cons.prems x by auto
    from Cons.IH [OF k(1)] obtain before c q after where
      "g = before @ (c, q) # after \<and> pn_token q = Some t \<and> \<not> pn_dispatched q \<and> pn_hash q = h
        \<and> k = before @ (c, q\<lparr>pn_token := None, pn_dispatched := True\<rparr>) # after" by blast
    then show ?thesis
      using k(2) by (intro exI [of _ "x # before"] exI [of _ c] exI [of _ q] exI [of _ after]) simp
  qed
qed simp

lemma gate_inv_present:
  assumes inv: "gate_inv xs g" and step: "present_effect cid a n h g = Some g'" and fresh: "cid \<notin> set (presented xs)"
  shows "gate_inv (xs @ [Present cid a n h]) g'"
proof (rule gate_invI)
  note inv = gate_invD [OF inv]
  let ?p = "\<lparr>pn_action = a, pn_account = n, pn_hash = h, pn_token = None, pn_dispatched = False\<rparr>"
  have g': "g' = put_pending cid ?p g" using step by (simp add: present_effect_def split: if_splits)
  have new: "Authorize cid b t \<notin> set xs" for b t using inv(5,6) fresh by (meson subsetD)
  show "distinct (map fst g')" using inv(1) by (simp add: g' distinct_put_pending)
  show "item_explained (xs @ [Present cid a n h]) x" if "x \<in> set g'" for x
  proof -
    from that consider "x = (cid, ?p)" | "x \<in> set g" by (auto simp: g' set_put_pending [OF inv(1)])
    then show ?thesis
    proof cases
      case 1 then show ?thesis using new by (simp add: item_explained_def)
    next
      case 2 then show ?thesis using inv(2) [of x] by (auto simp: item_explained_def split: prod.splits)
    qed
  qed
  show "c = d" if "Authorize c True t \<in> set (xs @ [Present cid a n h])" "Authorize d True t \<in> set (xs @ [Present cid a n h])"
    for c d t using that inv(3) [of c t d] by simp
  show "set (consumed (xs @ [Present cid a n h])) \<subseteq> set (minted (xs @ [Present cid a n h]))" using inv(4) by simp
  show "c \<in> fst ` set g'" if "Authorize c b t \<in> set (xs @ [Present cid a n h])" for c b t
    using that inv(5) [of c b t] by (simp add: g' fst_put_pending)
  show "fst ` set g' \<subseteq> set (presented (xs @ [Present cid a n h]))"
    using inv(6) by (simp add: g' fst_put_pending subset_insertI2)
  show "spending_explained (xs @ [Present cid a n h])" using inv(7) by (rule spending_snoc) simp
qed

lemma gate_inv_authorize:
  assumes inv: "gate_inv xs g" and step: "authorize_dispatch cid b t g = Some g'" and fresh: "t \<notin> set (minted xs)"
  shows "gate_inv (xs @ [Authorize cid b t]) g'"
proof (rule gate_invI)
  note inv = gate_invD [OF inv]
  obtain p where p: "map_of g cid = Some p" "\<not> pn_dispatched p" "b" "g' = put_pending cid (p\<lparr>pn_token := Some t\<rparr>) g"
    using step by (auto simp: authorize_dispatch_def split: option.splits if_splits)
  have item: "item_explained xs (cid, p)" and known: "cid \<in> fst ` set g"
    using inv(2) map_of_SomeD [OF p(1)] by (simp_all add: rev_image_eqI)
  have new: "Authorize c b' t \<notin> set xs" "t \<notin> set (consumed xs)" for c b'
    using inv(4) fresh minted_member by blast+
  show "distinct (map fst g')" using inv(1) by (simp add: p(4) distinct_put_pending)
  show "item_explained (xs @ [Authorize cid b t]) x" if "x \<in> set g'" for x
  proof -
    from that consider "x = (cid, p\<lparr>pn_token := Some t\<rparr>)" | "x \<in> set g" by (auto simp: p(4) set_put_pending [OF inv(1)])
    then show ?thesis
    proof cases
      case 1 then show ?thesis using item new p(2,3) by (auto simp: item_explained_def)
    next
      case 2 then show ?thesis using inv(2) [of x] new by (auto simp: item_explained_def split: prod.splits)
    qed
  qed
  show "c = d" if "Authorize c True u \<in> set (xs @ [Authorize cid b t])" "Authorize d True u \<in> set (xs @ [Authorize cid b t])"
    for c d u using that inv(3) [of c u d] new(1) by auto
  show "set (consumed (xs @ [Authorize cid b t])) \<subseteq> set (minted (xs @ [Authorize cid b t]))" using inv(4) by auto
  show "c \<in> fst ` set g'" if "Authorize c b' u \<in> set (xs @ [Authorize cid b t])" for c b' u
    using that inv(5) [of c b' u] by (auto simp: p(4) fst_put_pending)
  show "fst ` set g' \<subseteq> set (presented (xs @ [Authorize cid b t]))"
    using inv(6) known by (auto simp: p(4) fst_put_pending)
  show "spending_explained (xs @ [Authorize cid b t])" using inv(7) by (rule spending_snoc) simp
qed

lemma gate_inv_consume:
  assumes inv: "gate_inv xs g" and step: "consume_dispatch t h g = Some g'"
  shows "gate_inv (xs @ [Consume t h]) g'"
proof (rule gate_invI)
  note inv = gate_invD [OF inv]
  obtain before cid p after where g: "g = before @ (cid, p) # after"
    and p: "pn_token p = Some t" "\<not> pn_dispatched p" "pn_hash p = h"
    and g': "g' = before @ (cid, p\<lparr>pn_token := None, pn_dispatched := True\<rparr>) # after"
    using consume_dispatch_Some [OF step] by blast
  have item: "item_explained xs (cid, p)" using inv(2) by (simp add: g)
  then have mine: "Authorize cid True t \<in> set xs" using p(1) by (simp add: item_explained_def)
  note owner = inv(3) [OF mine]
  have keys: "map fst g' = map fst g" by (simp add: g g')
  show "distinct (map fst g')" using inv(1) by (simp only: keys)
  show "item_explained (xs @ [Consume t h]) x" if x: "x \<in> set g'" for x
  proof (cases "fst x = cid")
    case True
    then have "x = (cid, p\<lparr>pn_token := None, pn_dispatched := True\<rparr>)"
      using x inv(1) by (auto simp: g g' rev_image_eqI)
    then show ?thesis using item by (simp add: item_explained_def)
  next
    case False
    then have "item_explained xs x" using x inv(2) [of x] by (auto simp: g g')
    moreover have "Authorize (fst x) True t \<notin> set xs" using False owner by blast
    ultimately show ?thesis by (auto simp: item_explained_def split: prod.splits)
  qed
  show "c = d" if "Authorize c True u \<in> set (xs @ [Consume t h])" "Authorize d True u \<in> set (xs @ [Consume t h])"
    for c d u using that inv(3) [of c u d] by simp
  show "set (consumed (xs @ [Consume t h])) \<subseteq> set (minted (xs @ [Consume t h]))"
    using inv(4) minted_member [OF mine] by simp
  have same: "fst ` set g' = fst ` set g" using keys by (metis set_map)
  show "c \<in> fst ` set g'" if "Authorize c b u \<in> set (xs @ [Consume t h])" for c b u
    using that inv(5) [of c b u] by (simp add: same)
  show "fst ` set g' \<subseteq> set (presented (xs @ [Consume t h]))" using inv(6) by (simp add: same)
  show "spending_explained (xs @ [Consume t h])"
    using inv(7)
  proof (rule spending_snoc)
    fix u k assume "Consume t h = Consume u k"
    then show "\<exists>cid action account. Present cid action account k \<in> set xs \<and> Authorize cid True u \<in> set xs
        \<and> (\<forall>t'. Authorize cid True t' \<in> set xs \<longrightarrow> t' \<notin> set (consumed xs))"
      using item mine p unfolding item_explained_def by auto
  qed
qed

lemma gate_run_inv:
  assumes "gate_inv xs g" "fresh_history (xs @ cs)" "gate_run cs g = (accepted, k)"
  shows "gate_inv (xs @ accepted) k"
  using assms
proof (induction cs arbitrary: xs g accepted)
  case (Cons c cs)
  show ?case
  proof (cases "gate_call_step c g")
    case None
    moreover have "fresh_history (xs @ cs)"
      using Cons.prems(2) by (cases c) (auto simp: fresh_history_def)
    ultimately show ?thesis using Cons by simp
  next
    case (Some g')
    obtain as where as: "gate_run cs g' = (as, k)" "accepted = c # as"
      using Cons.prems(3) Some by (auto split: prod.splits)
    have fresh: "fresh_history ((xs @ [c]) @ cs)" using Cons.prems(2) by simp
    have "gate_inv (xs @ [c]) g'"
    proof (cases c)
      case (Present cid a n h)
      then have "cid \<notin> set (presented xs)"
        using fresh by (simp add: fresh_history_def)
      then show ?thesis using gate_inv_present [OF Cons.prems(1)] Some Present by simp
    next
      case (Authorize cid b t)
      then have "t \<notin> set (minted xs)"
        using fresh by (simp add: fresh_history_def)
      then show ?thesis using gate_inv_authorize [OF Cons.prems(1)] Some Authorize by simp
    next
      case (Consume t h)
      then show ?thesis using gate_inv_consume [OF Cons.prems(1)] Some by simp
    qed
    from Cons.IH [OF this fresh as(1)] show ?thesis by (simp add: as(2))
  qed
qed simp

lemma gate_inv_empty: "gate_inv [] []"
  by (simp add: gate_inv_def spending_explained_def)

text \<open>
  C31. One approval, one spending: in any history of the gate in which the random identifiers and tokens
  do not repeat, a token is accepted only after the same content was presented and that presentation
  was explicitly confirmed into this token, and only if no token of this presentation has been spent
  before, whatever was confirmed again in between.
\<close>

theorem approval_spent_once:
  assumes "fresh_history cs" and "gate_run cs [] = (accepted, g)" and "accepted = before @ Consume t h # after"
  shows "\<exists>cid action account. Present cid action account h \<in> set before \<and> Authorize cid True t \<in> set before
    \<and> (\<forall>t'. Authorize cid True t' \<in> set before \<longrightarrow> t' \<notin> set (consumed before))"
proof -
  have "gate_inv ([] @ accepted) g" using gate_run_inv [OF gate_inv_empty _ assms(2)] assms(1) by simp
  then show ?thesis using assms(3) unfolding gate_inv_def spending_explained_def by (metis append_Nil)
qed

definition sample_hash :: str where
  "sample_hash = replicate 64 CHR ''a''"

lemma sample_hash_ok: "is_sha256_hex sample_hash"
  by (simp add: is_sha256_hex_def sample_hash_def list_all_iff hex_digit_def)

text \<open>A second confirmation replaces the token of the first; after the spending nothing is left.\<close>

theorem approval_spent_once_witness:
  "fst (gate_run [Present ''c'' ''douyin_publish'' ''me'' sample_hash, Authorize ''c'' True ''t'',
      Authorize ''c'' True ''u'', Consume ''t'' sample_hash, Consume ''u'' sample_hash,
      Consume ''u'' sample_hash, Authorize ''c'' True ''v''] [])
    = [Present ''c'' ''douyin_publish'' ''me'' sample_hash, Authorize ''c'' True ''t'', Authorize ''c'' True ''u'']
        @ Consume ''u'' sample_hash # []
    \<and> (\<exists>cid action account. Present cid action account sample_hash
        \<in> set [Present ''c'' ''douyin_publish'' ''me'' sample_hash, Authorize ''c'' True ''t'', Authorize ''c'' True ''u''])"
proof -
  let ?cs = "[Present ''c'' ''douyin_publish'' ''me'' sample_hash, Authorize ''c'' True ''t'',
      Authorize ''c'' True ''u'', Consume ''t'' sample_hash, Consume ''u'' sample_hash,
      Consume ''u'' sample_hash, Authorize ''c'' True ''v'']"
  have "fresh_history ?cs" by (simp add: fresh_history_def)
  moreover obtain g where run: "gate_run ?cs [] = ([Present ''c'' ''douyin_publish'' ''me'' sample_hash,
      Authorize ''c'' True ''t'', Authorize ''c'' True ''u''] @ Consume ''u'' sample_hash # [], g)"
    by (simp add: present_effect_def authorize_dispatch_def action_name_ok_def sample_hash_ok)
  ultimately show ?thesis using approval_spent_once [OF _ run refl] by (simp only: fst_conv) blast
qed

end
