(* ===== verification/Publish_Release.thy ===== *)
theory Publish_Release
  imports Ledger_World Safe_Text Surface_Lease Confirmation_Gate
begin

text \<open>
  The release of one publish (\<open>executor/rpa/douyin/publish_release.py\<close>): the operator's confirmation is
  compared, the visible surface and the ledger are asked, the approval is spent, the button is
  pressed, and the list of works decides what is reported.

  The world of a run is a \<open>surface\<close> (the page and everything else outside, the confirmation gate and
  the lease) together with the ledger. A call of the page or a clock may change all of it. The code of
  \<open>run\<close> is cut in two at the press: \<open>press_decision\<close> ends with a receipt or with the granted dispatch,
  and then \<open>press_and_settle\<close> calls the click, which is called nowhere else.
\<close>

record 'q surface =
  sf_outside :: 'q
  sf_gate :: confirmation_gate
  sf_lease :: surface_lease

datatype publish_page_state =
    Awaiting_artifact | Form_ready | Works_list_ready | Page_login_required | Page_risk_challenge
  | Page_dialog_blocked | Page_unknown

datatype release_state = Release_not_dispatched | Release_verified | Release_uncertain

datatype release_evidence =
    Stale_confirmation | Surface_lost | Release_ledger_unavailable | Form_not_ready
  | Submit_control_disabled | Release_prepare_unavailable | Release_permission_rejected
  | Dispatch_timed_out | Dispatch_unavailable | Works_list_login_required | Works_list_risk_challenge
  | Works_list_unavailable | Work_not_listed | Work_listed_ambiguously | Release_verification_unavailable
  | Work_listed | Release_replay_verified | Release_replay_uncertain

definition release_no_effect :: "release_evidence set" where
  "release_no_effect = {Stale_confirmation, Surface_lost, Release_ledger_unavailable}"

definition release_prepared :: "release_evidence set" where
  "release_prepared = {Stale_confirmation, Form_not_ready, Submit_control_disabled, Release_prepare_unavailable,
     Surface_lost, Release_permission_rejected}"

definition release_post_dispatch :: "release_evidence set" where
  "release_post_dispatch = {Dispatch_timed_out, Dispatch_unavailable, Works_list_login_required,
     Works_list_risk_challenge, Works_list_unavailable, Work_not_listed, Work_listed_ambiguously,
     Release_verification_unavailable, Release_replay_uncertain}"

subsection \<open>Confirmations and receipts\<close>

record publish_confirmation =
  pc_job_id :: str
  pc_content_hash :: str
  pc_account :: str
  pc_token :: str

definition max_account_characters :: nat where "max_account_characters = 64"

definition unsafe_account :: "str \<Rightarrow> bool" where
  "unsafe_account s \<longleftrightarrow> strip s = [] \<or> contains_control_or_bidi s \<or> is_unsafe_text s max_account_characters"

definition confirmation_ok :: "publish_confirmation \<Rightarrow> bool" where
  "confirmation_ok c \<longleftrightarrow> is_canonical_uuid_v4 (pc_job_id c) \<and> is_sha256_hex (pc_content_hash c)
     \<and> \<not> unsafe_account (pc_account c) \<and> is_sha256_hex (pc_token c)"

record preflight_receipt =
  pf_ready :: bool
  pf_content_hash :: "str option"
  pf_account :: "str option"

record publish_intent =
  pi_content_hash :: str
  pi_title :: str

definition confirmation_still_holds :: "preflight_receipt \<Rightarrow> publish_intent \<Rightarrow> publish_confirmation \<Rightarrow> bool" where
  "confirmation_still_holds r it c \<longleftrightarrow> pf_content_hash r = Some (pi_content_hash it)
     \<and> Some (pc_content_hash c) = pf_content_hash r \<and> Some (pc_account c) = pf_account r"

record release_receipt =
  rr_job :: str
  rr_state :: release_state
  rr_evidence :: release_evidence
  rr_dispatch_state :: "effect_state option"
  rr_dispatch_revision :: "int option"
  rr_replayed :: bool

definition release_receipt_ok :: "release_receipt \<Rightarrow> bool" where
  "release_receipt_ok r \<longleftrightarrow> is_canonical_uuid_v4 (rr_job r) \<and>
     (rr_state r = Release_not_dispatched \<and> rr_evidence r \<in> release_no_effect \<and> rr_dispatch_state r = None
        \<and> rr_dispatch_revision r = None \<and> \<not> rr_replayed r
      \<or> rr_state r = Release_not_dispatched \<and> rr_evidence r \<in> release_prepared \<and> rr_dispatch_state r = Some Prepared
        \<and> rr_dispatch_revision r = Some 1 \<and> \<not> rr_replayed r
      \<or> rr_state r = Release_verified \<and> rr_evidence r \<in> {Work_listed, Release_replay_verified}
        \<and> rr_dispatch_state r = Some Verified \<and> rr_dispatch_revision r = Some 3
        \<and> rr_replayed r = (rr_evidence r = Release_replay_verified)
      \<or> rr_state r = Release_uncertain \<and> rr_evidence r \<in> release_post_dispatch
        \<and> (rr_dispatch_state r = Some Dispatched \<and> rr_dispatch_revision r = Some 2
           \<or> rr_dispatch_state r = Some Uncertain \<and> rr_dispatch_revision r = Some 3)
        \<and> rr_replayed r = (rr_evidence r = Release_replay_uncertain))"

definition release_receipt :: "release_receipt \<Rightarrow> release_receipt option" where
  "release_receipt r = (if release_receipt_ok r then Some r else None)"

definition release_empty :: "str \<Rightarrow> release_evidence \<Rightarrow> release_receipt option" where
  "release_empty job e = release_receipt \<lparr>rr_job = job, rr_state = Release_not_dispatched, rr_evidence = e,
     rr_dispatch_state = None, rr_dispatch_revision = None, rr_replayed = False\<rparr>"

definition release_prepared_receipt :: "str \<Rightarrow> release_evidence \<Rightarrow> release_receipt option" where
  "release_prepared_receipt job e = release_receipt \<lparr>rr_job = job, rr_state = Release_not_dispatched,
     rr_evidence = e, rr_dispatch_state = Some Prepared, rr_dispatch_revision = Some 1, rr_replayed = False\<rparr>"

definition dispatch_receipt ::
  "str \<Rightarrow> release_state \<Rightarrow> release_evidence \<Rightarrow> publish_dispatch \<Rightarrow> bool \<Rightarrow> release_receipt option" where
  "dispatch_receipt job st e d replayed = release_receipt \<lparr>rr_job = job, rr_state = st, rr_evidence = e,
     rr_dispatch_state = Some (pg_state (pd_progress d)), rr_dispatch_revision = Some (pg_revision (pd_progress d)),
     rr_replayed = replayed\<rparr>"

text \<open>\<open>_receipt_for_existing\<close>: no receipt, or one, which its constructor may refuse.\<close>

definition release_replay :: "str \<Rightarrow> publish_dispatch \<Rightarrow> release_receipt option option" where
  "release_replay job d =
     (if \<not> pd_replayed d \<or> pg_state (pd_progress d) = Prepared then None
      else if pg_state (pd_progress d) = Verified
      then Some (dispatch_receipt job Release_verified Release_replay_verified d True)
      else Some (dispatch_receipt job Release_uncertain Release_replay_uncertain d True))"

definition works_list_evidence :: "publish_page_state \<Rightarrow> release_evidence" where
  "works_list_evidence st = (case st of Page_login_required \<Rightarrow> Works_list_login_required
     | Page_risk_challenge \<Rightarrow> Works_list_risk_challenge | _ \<Rightarrow> Works_list_unavailable)"

definition publish_verification_fingerprint :: "(bytes \<Rightarrow> bytes) \<Rightarrow> str \<Rightarrow> bytes" where
  "publish_verification_fingerprint sha h =
     sha (map of_char (''automation-tool.douyin.publish-verification.v1'') @ [0] @ map of_char h @ [0]
       @ map of_char ''douyin.publish-page.v1'' @ [0] @ map of_char ''work_listed_once'')"

subsection \<open>The environment of a run\<close>

text \<open>\<open>rl_click\<close>: the click returned, timed out (\<open>Some False\<close>) or raised something else.\<close>

record 'q release =
  rl_now :: "'q surface \<times> ledger \<Rightarrow> py_datetime option \<times> ('q surface \<times> ledger)"
  rl_monotonic :: "'q surface \<times> ledger \<Rightarrow> rat \<times> ('q surface \<times> ledger)"
  rl_observe :: "('q surface, publish_page_state) act"
  rl_submit_enabled :: "('q surface, bool) act"
  rl_submit_control :: "('q surface, unit) act"
  rl_click :: "('q surface, bool) act"
  rl_open_works :: "('q surface, publish_page_state) act"
  rl_works_titled :: "str \<Rightarrow> ('q surface, int) act"
  rl_interval :: int
  rl_executed :: bool

text \<open>The constructor binds the local policy and takes its interval.\<close>

definition bind_release_interval :: "int \<Rightarrow> int \<Rightarrow> ('q surface, int) act" where
  "bind_release_interval interval limit =
     and_then (transact (\<lambda>L. bind_action_hard_policy L (interval div seconds 1) limit))
       (\<lambda>bound. result_of (Some (hp_interval bound)))"

definition surface_owned :: "'q release \<Rightarrow> ('q surface, bool) act" where
  "surface_owned rl s =
     (if sl_state (sf_lease (fst s)) \<noteq> Leased then (Some (sl_state (sf_lease (fst s)) = Owner_active), s)
      else case rl_monotonic rl s of (now, s1) \<Rightarrow>
        (let m = expire_if_due now (sf_lease (fst s1))
         in (Some (sl_state m = Owner_active), ((fst s1)\<lparr>sf_lease := m\<rparr>, snd s1))))"

definition at_now :: "'q release \<Rightarrow> (py_datetime \<Rightarrow> ledger \<Rightarrow> ('a \<times> ledger) option) \<Rightarrow> ('q surface, 'a) act" where
  "at_now rl f = and_then (utc_reading (rl_now rl)) (\<lambda>t. transact (f t))"

definition spend_approval :: "str \<Rightarrow> str \<Rightarrow> ('q surface, unit) act" where
  "spend_approval token h s = (case consume_dispatch token h (sf_gate (fst s)) of
     None \<Rightarrow> (None, s) | Some g \<Rightarrow> (Some (), ((fst s)\<lparr>sf_gate := g\<rparr>, snd s)))"

subsection \<open>Up to the press\<close>

definition ends :: "release_receipt option \<Rightarrow> ('q surface, release_receipt + publish_dispatch) act" where
  "ends r = result_of (map_option Inl r)"

definition granted_press ::
  "'q release \<Rightarrow> publish_confirmation \<Rightarrow> ('q surface, release_receipt + publish_dispatch) act" where
  "granted_press rl c =
     and_then (attempt (spend_approval (pc_token c) (pc_content_hash c))) (\<lambda>spent.
       if spent = None then ends (release_prepared_receipt (pc_job_id c) Stale_confirmation)
       else and_then (attempt (at_now rl
           (\<lambda>t L. begin_publish_dispatch L (pc_job_id c) (pc_content_hash c) t (rl_interval rl)))) (\<lambda>begun.
         case begun of
           None \<Rightarrow> ends (release_prepared_receipt (pc_job_id c) Release_permission_rejected)
         | Some d \<Rightarrow> (case release_replay (pc_job_id c) d of
             Some r \<Rightarrow> ends r
           | None \<Rightarrow> result_of (Some (Inr d)))))"

definition armed_press ::
  "'q release \<Rightarrow> publish_confirmation \<Rightarrow> ('q surface, release_receipt + publish_dispatch) act" where
  "armed_press rl c =
     and_then (rl_observe rl) (\<lambda>form.
       if form \<noteq> Form_ready then ends (release_prepared_receipt (pc_job_id c) Form_not_ready)
       else and_then (attempt (rl_submit_enabled rl)) (\<lambda>armed.
         if armed = None then ends (release_prepared_receipt (pc_job_id c) Form_not_ready)
         else if armed = Some False then ends (release_prepared_receipt (pc_job_id c) Submit_control_disabled)
         else and_then (attempt (rl_submit_control rl)) (\<lambda>submit.
           if submit = None then ends (release_prepared_receipt (pc_job_id c) Release_prepare_unavailable)
           else and_then (surface_owned rl) (\<lambda>owned.
             if \<not> owned then ends (release_prepared_receipt (pc_job_id c) Surface_lost)
             else granted_press rl c))))"

definition press_decision ::
  "'q release \<Rightarrow> preflight_receipt \<Rightarrow> publish_intent \<Rightarrow> publish_confirmation \<Rightarrow>
   ('q surface, release_receipt + publish_dispatch) act" where
  "press_decision rl receipt it c =
     (if rl_executed rl \<or> \<not> pf_ready receipt \<or> \<not> confirmation_ok c then result_of None
      else if \<not> confirmation_still_holds receipt it c
      then ends (release_empty (pc_job_id c) Stale_confirmation)
      else and_then (surface_owned rl) (\<lambda>owned.
        if \<not> owned then ends (release_empty (pc_job_id c) Surface_lost)
        else and_then (attempt (at_now rl (\<lambda>t L. prepare_publish_dispatch L (pc_job_id c) (pc_content_hash c) t)))
          (\<lambda>prepared. case prepared of
             None \<Rightarrow> ends (release_empty (pc_job_id c) Release_ledger_unavailable)
           | Some d \<Rightarrow> (case release_replay (pc_job_id c) d of
               Some r \<Rightarrow> ends r
             | None \<Rightarrow> armed_press rl c))))"

subsection \<open>The press and after\<close>

definition release_uncertain ::
  "'q release \<Rightarrow> publish_confirmation \<Rightarrow> release_evidence \<Rightarrow> publish_dispatch \<Rightarrow> ('q surface, release_receipt) act" where
  "release_uncertain rl c e d =
     and_then (attempt (at_now rl (\<lambda>t L. mark_publish_dispatch_uncertain L (pc_job_id c) (pc_content_hash c) t)))
       (\<lambda>settled. result_of (dispatch_receipt (pc_job_id c) Release_uncertain e
          (case settled of None \<Rightarrow> d | Some d' \<Rightarrow> d') False))"

definition settle_against_works_list ::
  "(bytes \<Rightarrow> bytes) \<Rightarrow> 'q release \<Rightarrow> publish_intent \<Rightarrow> publish_confirmation \<Rightarrow> publish_dispatch \<Rightarrow>
   ('q surface, release_receipt) act" where
  "settle_against_works_list sha rl it c d =
     and_then (attempt (rl_open_works rl)) (\<lambda>works. case works of
       None \<Rightarrow> release_uncertain rl c Works_list_unavailable d
     | Some st \<Rightarrow>
         (if st \<noteq> Works_list_ready then release_uncertain rl c (works_list_evidence st) d
          else and_then (attempt (rl_works_titled rl (pi_title it))) (\<lambda>listed. case listed of
            None \<Rightarrow> release_uncertain rl c Works_list_unavailable d
          | Some n \<Rightarrow>
              (if n \<noteq> 1 then release_uncertain rl c (if n = 0 then Work_not_listed else Work_listed_ambiguously) d
               else and_then (attempt (at_now rl (\<lambda>t L. verify_publish_dispatch L (pc_job_id c) (pc_content_hash c)
                   (publish_verification_fingerprint sha (pc_content_hash c)) t))) (\<lambda>verified. case verified of
                 None \<Rightarrow> release_uncertain rl c Release_verification_unavailable d
               | Some d' \<Rightarrow> result_of (dispatch_receipt (pc_job_id c) Release_verified Work_listed d' False))))))"

definition press_and_settle ::
  "(bytes \<Rightarrow> bytes) \<Rightarrow> 'q release \<Rightarrow> publish_intent \<Rightarrow> publish_confirmation \<Rightarrow> publish_dispatch \<Rightarrow>
   ('q surface, release_receipt) act" where
  "press_and_settle sha rl it c d =
     and_then (attempt (rl_click rl)) (\<lambda>clicked. case clicked of
       None \<Rightarrow> release_uncertain rl c Dispatch_unavailable d
     | Some False \<Rightarrow> release_uncertain rl c Dispatch_timed_out d
     | Some True \<Rightarrow> settle_against_works_list sha rl it c d)"

definition run_release ::
  "(bytes \<Rightarrow> bytes) \<Rightarrow> 'q release \<Rightarrow> preflight_receipt \<Rightarrow> publish_intent \<Rightarrow> publish_confirmation \<Rightarrow>
   ('q surface, release_receipt) act" where
  "run_release sha rl receipt it c =
     and_then (press_decision rl receipt it c) (\<lambda>r. case r of
       Inl y \<Rightarrow> result_of (Some y)
     | Inr d \<Rightarrow> press_and_settle sha rl it c d)"

text \<open>The run calls the click, once.\<close>

definition presses ::
  "'q release \<Rightarrow> preflight_receipt \<Rightarrow> publish_intent \<Rightarrow> publish_confirmation \<Rightarrow> 'q surface \<times> ledger \<Rightarrow> bool" where
  "presses rl receipt it c s = (case fst (press_decision rl receipt it c s) of Some (Inr d) \<Rightarrow> True | _ \<Rightarrow> False)"

end
