(* ===== verification/Publish_Properties.thy ===== *)
theory Publish_Properties
  imports Publish_Release Samples
begin

text \<open>
  What a publish release may do and report: the press needs every guard, follows the only grant of the
  ledger for its job, and is always reported; over all releases of the executor a job is pressed at
  most once.
\<close>

subsection \<open>The ledger's publish rows\<close>

definition publish_row_shows :: "str \<Rightarrow> str \<Rightarrow> publish_dispatch \<Rightarrow> ledger \<Rightarrow> bool" where
  "publish_row_shows k h d L \<longleftrightarrow> progress_ok (pd_progress d) \<and> (\<exists>r. sql_lookup pu_job_id k (publish_dispatches L) = Some r
     \<and> pu_progress r = pd_progress d \<and> pu_content_hash r = h)"

definition verified_publish :: "ledger \<Rightarrow> str \<Rightarrow> str \<Rightarrow> bool" where
  "verified_publish L k h \<longleftrightarrow> (\<exists>r. sql_lookup pu_job_id k (publish_dispatches L) = Some r
     \<and> pg_state (pu_progress r) = Verified \<and> pu_content_hash r = h)"

lemma shows_verified: "publish_row_shows k h d L \<Longrightarrow> pg_state (pd_progress d) = Verified \<Longrightarrow> verified_publish L k h"
  by (auto simp: publish_row_shows_def verified_publish_def)

lemma read_shows:
  assumes "sql_lookup pu_job_id k (publish_dispatches L) = Some r" "read_publish_dispatch r b = Some d"
  shows "publish_row_shows k (pu_content_hash r) d L"
  using assms read_publish_dispatch_Some [OF assms(2)] read_publish_dispatch_progress_ok [OF assms(2)]
  by (auto simp: publish_row_shows_def)

lemma advance_shows:
  assumes adv: "advance_publish L k s n f = Some (d, L')"
    and r: "sql_lookup pu_job_id k (publish_dispatches L) = Some r" "pg_state (pu_progress r) = s"
      "pg_revision (pu_progress r) = n"
  shows "publish_row_shows k (pu_content_hash r) d L'"
proof -
  note lookup = advance_publish_lookup [OF adv r]
  from adv obtain x where "read_publish_dispatch x False = Some d"
    by (auto simp: advance_publish_def bind_eq_Some_conv split: if_splits)
  then have "progress_ok (pd_progress d)"
    using read_publish_dispatch_Some read_publish_dispatch_progress_ok by fastforce
  then show ?thesis using lookup advance_publish_SomeD [OF adv r] by (auto simp: publish_row_shows_def)
qed

lemma prepare_shows:
  assumes "prepare_publish_dispatch L k h stamp = Some (d, L')"
  shows "publish_row_shows k h d L'"
proof -
  obtain t where k: "is_canonical_uuid_v4 k" and t: "canonical_utc stamp = Some t" and h: "is_sha256_hex h"
    using assms by (auto simp: prepare_publish_dispatch_def bind_eq_Some_conv canonical_uuid_v4_Some split: if_splits)
  show ?thesis
  proof (cases "sql_lookup pu_job_id k (publish_dispatches L)")
    case (Some r)
    then have d: "read_publish_dispatch r True = Some d" "pd_content_hash d = h" "L' = L"
      using assms k t h
      by (auto simp: prepare_publish_dispatch_def bind_eq_Some_conv canonical_uuid_v4_def split: if_splits)
    then show ?thesis using read_shows [OF Some d(1)] read_publish_dispatch_Some [OF d(1)] by simp
  next
    case None
    let ?row = "\<lparr>pu_job_id = k, pu_content_hash = h, pu_progress = new_progress t\<rparr>"
    obtain rows where rows: "sql_insert publish_ok publish_clash ?row (publish_dispatches L) = Some rows"
      and d: "read_publish_dispatch ?row False = Some d" and L': "L' = L\<lparr>publish_dispatches := rows\<rparr>"
      using assms k t h None
      by (auto simp: prepare_publish_dispatch_def bind_eq_Some_conv canonical_uuid_v4_def Let_def split: if_splits)
    have "sql_lookup pu_job_id k rows = Some ?row"
      using rows None by (auto simp: sql_insert_def sql_lookup_def find_append split: if_splits)
    then show ?thesis using read_shows [of k L' ?row False d] d L' by simp
  qed
qed

lemma begin_shows:
  assumes "begin_publish_dispatch L k h stamp i = Some (d, L')"
  shows "publish_row_shows k h d L' \<and> (if pd_replayed d then pg_state (pd_progress d) \<noteq> Prepared
    else publish_rank L k < 2 \<and> 2 \<le> publish_rank L' k \<and> pg_state (pd_progress d) = Dispatched
      \<and> pg_revision (pd_progress d) = 2)"
proof -
  have hash: "pu_content_hash r = h \<and> progress_ok (pu_progress r)"
    if lookup: "sql_lookup pu_job_id k (publish_dispatches L) = Some r" for r
  proof -
    obtain cur where "read_publish_dispatch r False = Some cur" "pd_content_hash cur = h"
      using assms lookup
      by (auto simp: begin_publish_dispatch_def bind_eq_Some_conv canonical_uuid_v4_Some split: if_splits)
    then show ?thesis using read_publish_dispatch_Some read_publish_dispatch_progress_ok by metis
  qed
  from assms show ?thesis
  proof (cases rule: begin_publish_dispatch_SomeD)
    case (replay r)
    show ?thesis using replay hash [OF replay(1)] by (simp add: publish_row_shows_def)
  next
    case (grant r t)
    note facts = advance_publish_SomeD [OF grant(9,2,3,4)] and lookup = advance_publish_lookup [OF grant(9,2,3,4)]
    have "publish_row_shows k h d L'" using advance_shows [OF grant(9,2,3,4)] hash [OF grant(2)] by simp
    then show ?thesis
      using facts lookup grant(2,3) by (simp add: publish_rank_def table_rank_def mark_dispatched_def)
  qed
qed

lemma settle_shows:
  assumes "settle_publish_dispatch L k h target v stamp = Some (d, L')"
  shows "publish_row_shows k h d L' \<and> pg_state (pd_progress d) = target"
proof -
  from assms obtain r cur where r: "sql_lookup pu_job_id k (publish_dispatches L) = Some r"
      "read_publish_dispatch r False = Some cur" "pd_content_hash cur = h"
    and cases: "pg_state (pd_progress cur) = target \<and> read_publish_dispatch r True = Some d \<and> L' = L
      \<or> pg_state (pd_progress cur) = Dispatched
        \<and> (\<exists>t. advance_publish L k Dispatched 2 (mark_settled target v t) = Some (d, L'))"
    by (auto simp: settle_publish_dispatch_def bind_eq_Some_conv canonical_uuid_v4_Some split: if_splits)
  note cur = read_publish_dispatch_Some [OF r(2)] read_publish_dispatch_progress_ok [OF r(2)]
  from cases show ?thesis
  proof (elim disjE conjE exE)
    assume "read_publish_dispatch r True = Some d" "L' = L" "pg_state (pd_progress cur) = target"
    then show ?thesis using read_shows [OF r(1)] read_publish_dispatch_Some [of r True d] cur r(3) by simp
  next
    fix t assume "pg_state (pd_progress cur) = Dispatched" and adv: "advance_publish L k Dispatched 2 (mark_settled target v t) = Some (d, L')"
    then have state: "pg_state (pu_progress r) = Dispatched" "pg_revision (pu_progress r) = 2"
      using cur progress_ok_revision(2) by simp_all
    show ?thesis
      using advance_shows [OF adv r(1) state] advance_publish_SomeD [OF adv r(1) state] cur r(3)
      by (simp add: mark_settled_def)
  qed
qed

subsection \<open>Keeping the ledger\<close>

definition release_env_ok :: "'q release \<Rightarrow> bool" where
  "release_env_ok rl \<longleftrightarrow> keeps_ledger (rl_now rl) \<and> keeps_ledger (rl_monotonic rl) \<and> keeps_ledger (rl_observe rl)
     \<and> keeps_ledger (rl_submit_enabled rl) \<and> keeps_ledger (rl_submit_control rl) \<and> keeps_ledger (rl_click rl)
     \<and> keeps_ledger (rl_open_works rl) \<and> (\<forall>t. keeps_ledger (rl_works_titled rl t))"

lemma at_now_Some:
  "at_now rl f s = (Some a, s') \<longleftrightarrow> (\<exists>t s1. utc_reading (rl_now rl) s = (Some t, s1) \<and> f t (snd s1) = Some (a, snd s') \<and> fst s' = fst s1)"
  by (cases s') (auto simp: at_now_def and_then_Some transact_Some)

lemma keeps_at_now:
  assumes "release_env_ok rl" "\<And>t L a L'. f t L = Some (a, L') \<Longrightarrow> sound L L'"
  shows "keeps_ledger (at_now rl f)"
  unfolding at_now_def using assms
  by (intro sound_world.keeps_and_then keeps_utc_reading sound_world.keeps_transact) (auto simp: release_env_ok_def)

lemma keeps_surface_owned: "release_env_ok rl \<Longrightarrow> keeps_ledger (surface_owned rl)"
  by (rule keepsI) (auto simp: surface_owned_def release_env_ok_def Let_def sound_def split: if_splits prod.splits dest: keepsD)

lemma keeps_spend: "keeps_ledger (spend_approval token h)"
  by (rule keepsI) (auto simp: spend_approval_def sound_def split: option.splits)

lemma keeps_uncertain: "release_env_ok rl \<Longrightarrow> keeps_ledger (release_uncertain rl c e d)"
  unfolding release_uncertain_def
  by (intro sound_world.keeps_and_then keeps_attempt keeps_at_now sound_world.keeps_result)
    (auto simp: mark_publish_dispatch_uncertain_def intro: sound_settle_publish)

subsection \<open>Receipts\<close>

lemma release_empty_ok:
  "is_canonical_uuid_v4 k \<Longrightarrow> e \<in> release_no_effect \<Longrightarrow> \<exists>y. release_empty k e = Some y \<and> release_receipt_ok y
     \<and> rr_job y = k \<and> rr_state y = Release_not_dispatched"
  by (simp add: release_empty_def release_receipt_def release_receipt_ok_def)

lemma release_prepared_ok:
  "is_canonical_uuid_v4 k \<Longrightarrow> e \<in> release_prepared \<Longrightarrow> \<exists>y. release_prepared_receipt k e = Some y \<and> release_receipt_ok y
     \<and> rr_job y = k \<and> rr_state y = Release_not_dispatched"
  by (simp add: release_prepared_receipt_def release_receipt_def release_receipt_ok_def)

lemma progress_revision:
  "progress_ok p \<Longrightarrow> pg_revision p = (case pg_state p of Prepared \<Rightarrow> 1 | Dispatched \<Rightarrow> 2 | _ \<Rightarrow> 3)"
  by (cases "pg_state p") (simp_all add: progress_ok_def)

lemma dispatch_receipt_uncertain:
  assumes "is_canonical_uuid_v4 k" "progress_ok (pd_progress d)" "pg_state (pd_progress d) \<in> {Dispatched, Uncertain}"
    and "e \<in> release_post_dispatch" "b = (e = Release_replay_uncertain)"
  shows "\<exists>y. dispatch_receipt k Release_uncertain e d b = Some y \<and> release_receipt_ok y \<and> rr_job y = k
    \<and> rr_state y = Release_uncertain \<and> rr_replayed y = b"
  using assms progress_revision [OF assms(2)]
  by (auto simp: dispatch_receipt_def release_receipt_def release_receipt_ok_def)

lemma dispatch_receipt_verified:
  assumes "is_canonical_uuid_v4 k" "progress_ok (pd_progress d)" "pg_state (pd_progress d) = Verified"
    and "e = (if b then Release_replay_verified else Work_listed)"
  shows "\<exists>y. dispatch_receipt k Release_verified e d b = Some y \<and> release_receipt_ok y \<and> rr_job y = k
    \<and> rr_state y = Release_verified \<and> rr_replayed y = b"
  using assms progress_revision [OF assms(2)]
  by (auto simp: dispatch_receipt_def release_receipt_def release_receipt_ok_def)

text \<open>A receipt of a run that did not press, and of one that did.\<close>

definition honest_without_press :: "str \<Rightarrow> str \<Rightarrow> release_receipt \<Rightarrow> ledger \<Rightarrow> bool" where
  "honest_without_press k h y L \<longleftrightarrow> release_receipt_ok y \<and> rr_job y = k
     \<and> (rr_state y \<noteq> Release_not_dispatched \<longrightarrow> rr_replayed y)
     \<and> (rr_state y = Release_verified \<longrightarrow> verified_publish L k h)"

definition honest_after_press :: "str \<Rightarrow> str \<Rightarrow> release_receipt \<Rightarrow> ledger \<Rightarrow> bool" where
  "honest_after_press k h y L \<longleftrightarrow> release_receipt_ok y \<and> rr_job y = k
     \<and> rr_state y \<noteq> Release_not_dispatched \<and> \<not> rr_replayed y
     \<and> (rr_state y = Release_verified \<longrightarrow> verified_publish L k h)"

lemma replay_honest:
  assumes "release_replay k d = Some r" "publish_row_shows k h d L" "is_canonical_uuid_v4 k"
  shows "\<exists>y. r = Some y \<and> honest_without_press k h y L"
proof (cases "pg_state (pd_progress d) = Verified")
  case True
  then have "r = dispatch_receipt k Release_verified Release_replay_verified d True" "pd_replayed d"
    using assms(1) by (auto simp: release_replay_def split: if_splits)
  then show ?thesis
    using dispatch_receipt_verified [of k d Release_replay_verified True] True assms shows_verified [OF assms(2)]
    by (auto simp: honest_without_press_def publish_row_shows_def)
next
  case False
  then have "r = dispatch_receipt k Release_uncertain Release_replay_uncertain d True"
    "pg_state (pd_progress d) \<in> {Dispatched, Uncertain}"
    using assms(1) by (cases "pg_state (pd_progress d)"; auto simp: release_replay_def split: if_splits)+
  then show ?thesis
    using dispatch_receipt_uncertain [of k d Release_replay_uncertain True] assms
    by (auto simp: honest_without_press_def publish_row_shows_def release_post_dispatch_def)
qed

subsection \<open>Up to the press\<close>

definition granted :: "str \<Rightarrow> publish_dispatch \<Rightarrow> ledger \<Rightarrow> ledger \<Rightarrow> bool" where
  "granted k d L L' \<longleftrightarrow> publish_rank L k < 2 \<and> 2 \<le> publish_rank L' k \<and> progress_ok (pd_progress d)
     \<and> pg_state (pd_progress d) = Dispatched"

definition decides ::
  "str \<Rightarrow> str \<Rightarrow> (ledger \<Rightarrow> bool) \<Rightarrow> ('p, release_receipt + publish_dispatch) act \<Rightarrow> bool" where
  "decides k h P m \<longleftrightarrow> (\<forall>s r s'. ledger_inv (snd s) \<and> P (snd s) \<and> m s = (r, s') \<longrightarrow> sound (snd s) (snd s') \<and>
     (case r of None \<Rightarrow> True | Some (Inl y) \<Rightarrow> honest_without_press k h y (snd s')
      | Some (Inr d) \<Rightarrow> granted k d (snd s) (snd s')))"

lemma granted_earlier: "ledger_inv L \<Longrightarrow> sound L M \<Longrightarrow> granted k d M N \<Longrightarrow> granted k d L N"
  using publish_rank_evolves [of L M k] by (auto simp: granted_def sound_def)

lemma decides_then:
  assumes keeps: "keeps_ledger m" and post: "\<And>s a s'. m s = (Some a, s') \<Longrightarrow> Q a (snd s')"
    and rest: "\<And>a. decides k h (Q a) (f a)"
  shows "decides k h P (and_then m f)"
  unfolding decides_def
proof (intro allI impI, elim conjE)
  fix s r s' assume inv: "ledger_inv (snd s)" and run: "and_then m f s = (r, s')"
  obtain v s1 where m: "m s = (v, s1)" by (cases "m s")
  note first = keepsD [OF keeps m]
  show "sound (snd s) (snd s') \<and> (case r of None \<Rightarrow> True | Some (Inl y) \<Rightarrow> honest_without_press k h y (snd s')
      | Some (Inr d) \<Rightarrow> granted k d (snd s) (snd s'))"
  proof (cases v)
    case None
    then show ?thesis using run m first by (auto simp: and_then_def)
  next
    case (Some a)
    then have f: "f a s1 = (r, s')" using run m by (simp add: and_then_def)
    have "ledger_inv (snd s1)" using first inv by (simp add: sound_def)
    then have "sound (snd s1) (snd s') \<and> (case r of None \<Rightarrow> True | Some (Inl y) \<Rightarrow> honest_without_press k h y (snd s')
        | Some (Inr d) \<Rightarrow> granted k d (snd s1) (snd s'))"
      using rest [of a] f post [of s a s1] m Some unfolding decides_def by blast
    then show ?thesis
      using granted_earlier [OF inv first] sound_trans [OF first] by (auto split: option.splits sum.splits)
  qed
qed

lemma decides_ends:
  "(\<And>L. P L \<Longrightarrow> \<exists>y. r = Some y \<and> honest_without_press k h y L) \<Longrightarrow> decides k h P (ends r)"
  by (fastforce simp: decides_def ends_def result_of_def sound_def)

lemma decides_prepared:
  assumes "is_canonical_uuid_v4 k" "e \<in> release_prepared"
  shows "decides k h P (ends (release_prepared_receipt k e))"
  using release_prepared_ok [OF assms] by (intro decides_ends) (auto simp: honest_without_press_def)

lemma decides_empty:
  assumes "is_canonical_uuid_v4 k" "e \<in> release_no_effect"
  shows "decides k h P (ends (release_empty k e))"
  using release_empty_ok [OF assms] by (intro decides_ends) (auto simp: honest_without_press_def)

lemma decides_begin:
  assumes env: "release_env_ok rl" and k: "is_canonical_uuid_v4 k"
  shows "decides k h P (and_then (attempt (at_now rl (\<lambda>t L. begin_publish_dispatch L k h t i))) (\<lambda>begun.
    case begun of None \<Rightarrow> ends (release_prepared_receipt k Release_permission_rejected)
    | Some d \<Rightarrow> (case release_replay k d of Some r \<Rightarrow> ends r | None \<Rightarrow> result_of (Some (Inr d)))))"
    (is "decides k h P (and_then (attempt ?m) ?f)")
  unfolding decides_def
proof (intro allI impI, elim conjE)
  fix s r s' assume inv: "ledger_inv (snd s)" and run: "and_then (attempt ?m) ?f s = (r, s')"
  obtain v s1 where m: "?m s = (v, s1)" by (cases "?m s")
  have first: "sound (snd s) (snd s1)"
    by (rule keepsD [OF keeps_at_now [OF env] m]) (rule sound_begin_publish)
  have f: "?f v s1 = (r, s')" using run m by (simp add: and_then_def attempt_def)
  show "sound (snd s) (snd s') \<and> (case r of None \<Rightarrow> True | Some (Inl y) \<Rightarrow> honest_without_press k h y (snd s')
      | Some (Inr d) \<Rightarrow> granted k d (snd s) (snd s'))"
  proof (cases v)
    case None
    then show ?thesis
      using f first release_prepared_ok [OF k, of Release_permission_rejected]
      by (auto simp: ends_def result_of_def release_prepared_def honest_without_press_def)
  next
    case (Some d)
    obtain t s2 where t: "utc_reading (rl_now rl) s = (Some t, s2)" "begin_publish_dispatch (snd s2) k h t i = Some (d, snd s1)"
      using m Some by (auto simp: at_now_Some)
    note row = begin_shows [OF t(2)]
    have clock: "sound (snd s) (snd s2)"
      using env t(1) keepsD [OF keeps_utc_reading] by (fastforce simp: release_env_ok_def)
    show ?thesis
    proof (cases "release_replay k d")
      case (Some y)
      obtain z where "y = Some z" "honest_without_press k h z (snd s1)"
        using replay_honest [OF Some _ k] row by blast
      then show ?thesis using f first \<open>v = Some d\<close> Some by (auto simp: ends_def result_of_def)
    next
      case None
      then have "\<not> pd_replayed d" using row by (auto simp: release_replay_def split: if_splits)
      then have "granted k d (snd s2) (snd s1)" using row by (simp add: granted_def publish_row_shows_def)
      then show ?thesis
        using f first \<open>v = Some d\<close> None granted_earlier [OF inv clock] by (auto simp: result_of_def)
    qed
  qed
qed

lemma granted_press_decides:
  assumes "release_env_ok rl" "confirmation_ok c"
  shows "decides (pc_job_id c) (pc_content_hash c) P (granted_press rl c)"
proof -
  have k: "is_canonical_uuid_v4 (pc_job_id c)" using assms(2) by (simp add: confirmation_ok_def)
  show ?thesis
    unfolding granted_press_def
    by (intro decides_then [where Q = "\<lambda>_ _. True"] keeps_attempt keeps_spend)
      (auto intro: decides_prepared decides_begin [OF assms(1)] k simp: release_prepared_def split: if_splits)
qed

lemma armed_press_decides:
  assumes "release_env_ok rl" "confirmation_ok c"
  shows "decides (pc_job_id c) (pc_content_hash c) P (armed_press rl c)"
proof -
  have k: "is_canonical_uuid_v4 (pc_job_id c)" using assms(2) by (simp add: confirmation_ok_def)
  have prepared: "decides (pc_job_id c) (pc_content_hash c) R (ends (release_prepared_receipt (pc_job_id c) e))"
    if "e \<in> release_prepared" for e R using decides_prepared [OF k that] .
  note pieces = decides_then [where Q = "\<lambda>_ _. True"] prepared granted_press_decides [OF assms]
    keeps_surface_owned [OF assms(1)]
  have keeps: "keeps_ledger (rl_observe rl)" "keeps_ledger (attempt (rl_submit_enabled rl))"
    "keeps_ledger (attempt (rl_submit_control rl))"
    using assms(1) by (auto simp: release_env_ok_def)
  show ?thesis
    unfolding armed_press_def
    by (auto simp: release_prepared_def intro!: pieces keeps)
qed

lemma press_decision_decides:
  assumes env: "release_env_ok rl"
  shows "decides (pc_job_id c) (pc_content_hash c) P (press_decision rl receipt it c)"
proof (cases "rl_executed rl \<or> \<not> pf_ready receipt \<or> \<not> confirmation_ok c")
  case True
  then have "press_decision rl receipt it c = result_of None" by (simp add: press_decision_def)
  then show ?thesis by (simp add: decides_def result_of_def sound_def)
next
  case False
  let ?k = "pc_job_id c" and ?h = "pc_content_hash c"
  have c: "confirmation_ok c" and k: "is_canonical_uuid_v4 ?k" using False by (simp_all add: confirmation_ok_def)
  have empty: "decides ?k ?h R (ends (release_empty ?k e))" if "e \<in> release_no_effect" for e R
    using decides_empty [OF k that] .
  let ?m = "at_now rl (\<lambda>t L. prepare_publish_dispatch L ?k ?h t)"
  let ?Q = "\<lambda>v L. \<forall>d. v = Some d \<longrightarrow> publish_row_shows ?k ?h d L"
  have row: "?Q v (snd s')" if "attempt ?m s = (Some v, s')" for s v s'
    using that prepare_shows by (fastforce simp: attempt_Some at_now_Some)
  have replay: "decides ?k ?h (?Q (Some d)) (ends r)" if "release_replay ?k d = Some r" for d r
    using replay_honest [OF that _ k] by (intro decides_ends) blast
  have keeps: "keeps_ledger (attempt ?m)"
    by (intro keeps_attempt keeps_at_now [OF env]) (rule sound_prepare_publish)
  have inner: "decides ?k ?h R (and_then (attempt ?m) (\<lambda>prepared. case prepared of
      None \<Rightarrow> ends (release_empty ?k Release_ledger_unavailable)
    | Some d \<Rightarrow> (case release_replay ?k d of Some r \<Rightarrow> ends r | None \<Rightarrow> armed_press rl c)))" for R
  proof (rule decides_then [where Q = ?Q and m = "attempt ?m", OF keeps row])
    fix v
    show "decides ?k ?h (?Q v) (case v of None \<Rightarrow> ends (release_empty ?k Release_ledger_unavailable)
      | Some d \<Rightarrow> (case release_replay ?k d of Some r \<Rightarrow> ends r | None \<Rightarrow> armed_press rl c))"
    proof (cases v)
      case None then show ?thesis by (simp add: empty release_no_effect_def)
    next
      case (Some d)
      then show ?thesis using replay [of d] armed_press_decides [OF env c] by (cases "release_replay ?k d") simp_all
    qed
  qed
  have "decides ?k ?h P (and_then (surface_owned rl) (\<lambda>owned. if \<not> owned then ends (release_empty ?k Surface_lost)
      else and_then (attempt ?m) (\<lambda>prepared. case prepared of
          None \<Rightarrow> ends (release_empty ?k Release_ledger_unavailable)
        | Some d \<Rightarrow> (case release_replay ?k d of Some r \<Rightarrow> ends r | None \<Rightarrow> armed_press rl c))))"
    by (rule decides_then [where Q = "\<lambda>_ _. True", OF keeps_surface_owned [OF env]])
      (simp_all add: inner empty release_no_effect_def)
  then show ?thesis using False by (simp add: press_decision_def empty release_no_effect_def)
qed

subsection \<open>After the press\<close>

definition reports :: "str \<Rightarrow> str \<Rightarrow> ('p, release_receipt) act \<Rightarrow> bool" where
  "reports k h m \<longleftrightarrow> keeps_ledger m \<and> (\<forall>s. \<exists>y s'. m s = (Some y, s') \<and> honest_after_press k h y (snd s'))"

lemma reportsD:
  assumes "reports k h m"
  shows "keeps_ledger m" "\<exists>y s'. m s = (Some y, s') \<and> honest_after_press k h y (snd s')"
  using assms unfolding reports_def by blast+

lemma reportsI:
  "keeps_ledger m \<Longrightarrow> (\<And>s. \<exists>y s'. m s = (Some y, s') \<and> honest_after_press k h y (snd s')) \<Longrightarrow> reports k h m"
  unfolding reports_def by blast

lemma uncertain_reports:
  assumes env: "release_env_ok rl" and k: "is_canonical_uuid_v4 (pc_job_id c)"
    and d: "progress_ok (pd_progress d)" "pg_state (pd_progress d) = Dispatched"
    and e: "e \<in> release_post_dispatch - {Release_replay_uncertain}"
  shows "reports (pc_job_id c) (pc_content_hash c) (release_uncertain rl c e d)"
proof -
  have "\<exists>y s'. release_uncertain rl c e d s = (Some y, s') \<and> honest_after_press (pc_job_id c) (pc_content_hash c) y (snd s')" for s
  proof -
    let ?m = "at_now rl (\<lambda>t L. mark_publish_dispatch_uncertain L (pc_job_id c) (pc_content_hash c) t)"
    obtain v s1 where m: "?m s = (v, s1)" by (cases "?m s")
    let ?d = "case v of None \<Rightarrow> d | Some d' \<Rightarrow> d'"
    have "progress_ok (pd_progress ?d) \<and> pg_state (pd_progress ?d) \<in> {Dispatched, Uncertain}"
      using d m settle_shows by (cases v)
        (fastforce simp: at_now_Some mark_publish_dispatch_uncertain_def publish_row_shows_def)+
    then obtain y where "dispatch_receipt (pc_job_id c) Release_uncertain e ?d False = Some y" "release_receipt_ok y"
        "rr_job y = pc_job_id c" "rr_state y = Release_uncertain" "\<not> rr_replayed y"
      using dispatch_receipt_uncertain [OF k, of ?d e False] e by auto
    then show ?thesis
      using m by (auto simp: release_uncertain_def and_then_def attempt_def result_of_def honest_after_press_def)
  qed
  then show ?thesis by (intro reportsI keeps_uncertain [OF env])
qed

lemma reports_attempt:
  assumes "keeps_ledger m" and "\<And>s v s'. m s = (v, s') \<Longrightarrow> \<exists>y s''. f v s' = (Some y, s'') \<and> honest_after_press k h y (snd s'')"
    and "\<And>v. keeps_ledger (f v)"
  shows "reports k h (and_then (attempt m) f)"
proof -
  have "\<exists>y s'. and_then (attempt m) f s = (Some y, s') \<and> honest_after_press k h y (snd s')" for s
    using assms(2) [of s] by (cases "m s") (simp add: and_then_def attempt_def)
  then show ?thesis by (intro reportsI sound_world.keeps_and_then keeps_attempt assms(1,3))
qed

lemma reports_then:
  "keeps_ledger m \<Longrightarrow> (\<And>v. reports k h (f v)) \<Longrightarrow> reports k h (and_then (attempt m) f)"
  using reportsD by (intro reports_attempt) blast+

lemma verify_reports:
  assumes env: "release_env_ok rl" and k: "is_canonical_uuid_v4 (pc_job_id c)"
    and d: "progress_ok (pd_progress d)" "pg_state (pd_progress d) = Dispatched"
  shows "reports (pc_job_id c) (pc_content_hash c)
    (and_then (attempt (at_now rl (\<lambda>t L. verify_publish_dispatch L (pc_job_id c) (pc_content_hash c) v t))) (\<lambda>verified.
       case verified of None \<Rightarrow> release_uncertain rl c Release_verification_unavailable d
       | Some d' \<Rightarrow> result_of (dispatch_receipt (pc_job_id c) Release_verified Work_listed d' False)))"
    (is "reports ?k ?h (and_then (attempt ?m) ?f)")
proof (rule reports_attempt)
  have "sound L L'" if "verify_publish_dispatch L ?k ?h v t = Some (x, L')" for t L x L'
    using that unfolding verify_publish_dispatch_def by (rule sound_settle_publish)
  then show "keeps_ledger ?m" by (intro keeps_at_now [OF env])
  have unc: "reports ?k ?h (release_uncertain rl c Release_verification_unavailable d)"
    using uncertain_reports [OF env k d] by (simp add: release_post_dispatch_def)
  then show "keeps_ledger (?f w)" for w using reportsD(1) by (cases w) simp_all
  fix s w s' assume m: "?m s = (w, s')"
  show "\<exists>y s''. ?f w s' = (Some y, s'') \<and> honest_after_press ?k ?h y (snd s'')"
  proof (cases w)
    case None
    then show ?thesis using reportsD(2) [OF unc] by simp
  next
    case (Some d')
    then have "publish_row_shows ?k ?h d' (snd s')" "pg_state (pd_progress d') = Verified"
      using m settle_shows by (fastforce simp: at_now_Some verify_publish_dispatch_def)+
    then show ?thesis
      using dispatch_receipt_verified [OF k, of d' Work_listed False] shows_verified Some
      by (auto simp: result_of_def honest_after_press_def publish_row_shows_def)
  qed
qed

lemma settle_reports:
  assumes env: "release_env_ok rl" and k: "is_canonical_uuid_v4 (pc_job_id c)"
    and d: "progress_ok (pd_progress d)" "pg_state (pd_progress d) = Dispatched"
  shows "reports (pc_job_id c) (pc_content_hash c) (press_and_settle sha rl it c d)"
proof -
  let ?k = "pc_job_id c" and ?h = "pc_content_hash c"
  have unc: "reports ?k ?h (release_uncertain rl c e d)" if "e \<in> release_post_dispatch - {Release_replay_uncertain}" for e
    using uncertain_reports [OF env k d that] .
  have keeps: "keeps_ledger (rl_click rl)" "keeps_ledger (rl_open_works rl)" "keeps_ledger (rl_works_titled rl t)" for t
    using env by (simp_all add: release_env_ok_def)
  have handoff: "works_list_evidence st \<in> release_post_dispatch - {Release_replay_uncertain}" for st
    by (cases st) (simp_all add: works_list_evidence_def release_post_dispatch_def)
  let ?verify = "and_then (attempt (at_now rl (\<lambda>t L. verify_publish_dispatch L ?k ?h
      (publish_verification_fingerprint sha ?h) t))) (\<lambda>verified. case verified of
        None \<Rightarrow> release_uncertain rl c Release_verification_unavailable d
      | Some d' \<Rightarrow> result_of (dispatch_receipt ?k Release_verified Work_listed d' False))"
  let ?listed = "\<lambda>listed. case listed of None \<Rightarrow> release_uncertain rl c Works_list_unavailable d
    | Some n \<Rightarrow> (if n \<noteq> 1 then release_uncertain rl c (if n = 0 then Work_not_listed else Work_listed_ambiguously) d
        else ?verify)"
  let ?works = "\<lambda>works. case works of None \<Rightarrow> release_uncertain rl c Works_list_unavailable d
    | Some st \<Rightarrow> (if st \<noteq> Works_list_ready then release_uncertain rl c (works_list_evidence st) d
        else and_then (attempt (rl_works_titled rl (pi_title it))) ?listed)"
  have verify: "reports ?k ?h ?verify" by (rule verify_reports [OF env k d])
  have unavailable: "reports ?k ?h (release_uncertain rl c Works_list_unavailable d)"
    "reports ?k ?h (release_uncertain rl c (if n = 0 then Work_not_listed else Work_listed_ambiguously) d)" for n :: int
    by (rule unc; simp add: release_post_dispatch_def)+
  have listed: "reports ?k ?h (?listed v)" for v :: "int option"
  proof (cases v)
    case None
    then show ?thesis using unavailable(1) by (simp only: option.case)
  next
    case (Some n)
    then show ?thesis using unavailable(2) [of n] verify by (cases "n = 1") simp_all
  qed
  have works: "reports ?k ?h (settle_against_works_list sha rl it c d)"
    unfolding settle_against_works_list_def
  proof (rule reports_then [OF keeps(2)])
    fix v
    show "reports ?k ?h (?works v)"
    proof (cases v)
      case None
      then show ?thesis using unavailable(1) by (simp only: option.case)
    next
      case (Some st)
      then show ?thesis
        using unc [OF handoff [of st]] reports_then [OF keeps(3) listed, of "pi_title it"]
        by (cases "st = Works_list_ready") simp_all
    qed
  qed
  show ?thesis
    unfolding press_and_settle_def
  proof (rule reports_then [OF keeps(1)])
    fix clicked
    show "reports ?k ?h (case clicked of None \<Rightarrow> release_uncertain rl c Dispatch_unavailable d
      | Some False \<Rightarrow> release_uncertain rl c Dispatch_timed_out d | Some True \<Rightarrow> settle_against_works_list sha rl it c d)"
      using unc works by (simp add: release_post_dispatch_def split: option.split bool.split)
  qed
qed

subsection \<open>One run\<close>

lemma run_release_guarantee:
  assumes env: "release_env_ok rl" and inv: "ledger_inv (snd s)" and run: "run_release sha rl receipt it c s = (r, s')"
  shows "sound (snd s) (snd s')
    \<and> (presses rl receipt it c s \<longrightarrow> publish_rank (snd s) (pc_job_id c) < 2 \<and> 2 \<le> publish_rank (snd s') (pc_job_id c)
        \<and> (\<exists>y. r = Some y \<and> honest_after_press (pc_job_id c) (pc_content_hash c) y (snd s')))
    \<and> (\<not> presses rl receipt it c s \<longrightarrow>
        (\<forall>y. r = Some y \<longrightarrow> honest_without_press (pc_job_id c) (pc_content_hash c) y (snd s')))"
proof -
  let ?k = "pc_job_id c" and ?h = "pc_content_hash c"
  obtain v s1 where v: "press_decision rl receipt it c s = (v, s1)" by (cases "press_decision rl receipt it c s")
  have decided: "sound (snd s) (snd s1) \<and> (case v of None \<Rightarrow> True | Some (Inl y) \<Rightarrow> honest_without_press ?k ?h y (snd s1)
      | Some (Inr d) \<Rightarrow> granted ?k d (snd s) (snd s1))"
    using press_decision_decides [OF env, of c "\<lambda>_. True" receipt it] inv v unfolding decides_def by blast
  show ?thesis
  proof (cases "presses rl receipt it c s")
    case False
    then show ?thesis
      using decided run v by (auto simp: presses_def run_release_def and_then_def result_of_def split: option.splits sum.splits)
  next
    case True
    then obtain d where d: "v = Some (Inr d)" using v by (auto simp: presses_def split: option.splits sum.splits)
    then have granted: "granted ?k d (snd s) (snd s1)" using decided by simp
    have "is_canonical_uuid_v4 ?k"
    proof (rule ccontr)
      assume "\<not> is_canonical_uuid_v4 ?k"
      then have "press_decision rl receipt it c s = (None, s)"
        by (simp add: press_decision_def confirmation_ok_def result_of_def)
      then show False using v d by simp
    qed
    then have reports: "reports ?k ?h (press_and_settle sha rl it c d)"
      using settle_reports [OF env] granted by (simp add: granted_def)
    have after: "press_and_settle sha rl it c d s1 = (r, s')"
      using run v d by (simp add: run_release_def and_then_def)
    have "ledger_inv (snd s1)" using decided inv by (simp add: sound_def)
    moreover have settled: "sound (snd s1) (snd s')" using keepsD [OF reportsD(1) [OF reports] after] .
    ultimately have "publish_rank (snd s1) ?k \<le> publish_rank (snd s') ?k"
      by (intro publish_rank_evolves) (simp add: sound_def)
    moreover have "sound (snd s) (snd s')" using decided settled sound_trans by blast
    moreover have "\<exists>y. r = Some y \<and> honest_after_press ?k ?h y (snd s')" using reportsD(2) [OF reports, of s1] after by auto
    ultimately show ?thesis using True granted by (auto simp: granted_def)
  qed
qed

text \<open>
  C22. A release reports what happened: whatever the page does and other threads change, the ledger
  keeps its invariant; a run that pressed the button always returns a receipt, which its constructor
  accepts, names the job, never says ``not dispatched'' and says ``verified'' only if the ledger holds
  the job as verified with the confirmed content; a run that did not press returns ``not dispatched''
  or the recorded outcome of an earlier press.
\<close>

theorem release_reports_faithfully:
  assumes "release_env_ok rl" and "ledger_inv L" and "run_release sha rl receipt it c (w, L) = (r, (w', L'))"
  shows "ledger_inv L' \<and> evolves L L'
    \<and> (presses rl receipt it c (w, L) \<longrightarrow>
        (\<exists>y. r = Some y \<and> honest_after_press (pc_job_id c) (pc_content_hash c) y L'))
    \<and> (\<not> presses rl receipt it c (w, L) \<longrightarrow>
        (\<forall>y. r = Some y \<longrightarrow> honest_without_press (pc_job_id c) (pc_content_hash c) y L'))"
  using run_release_guarantee [OF assms(1) _ assms(3)] assms(2) by (auto simp: sound_def)

subsection \<open>What a press needs\<close>

lemma press_decision_chain:
  assumes "fst (press_decision rl receipt it c s) = Some (Inr d)"
  shows "\<not> rl_executed rl \<and> pf_ready receipt \<and> confirmation_ok c \<and> confirmation_still_holds receipt it c
    \<and> (\<exists>s1 s'. armed_press rl c s1 = (Some (Inr d), s'))"
proof -
  obtain s' where run: "press_decision rl receipt it c s = (Some (Inr d), s')"
    using assms by (cases "press_decision rl receipt it c s") simp
  then have checks: "\<not> rl_executed rl" "pf_ready receipt" "confirmation_ok c" "confirmation_still_holds receipt it c"
    by (auto simp: press_decision_def ends_def split: if_splits)
  from run checks obtain owned s1 where "surface_owned rl s = (Some owned, s1)" and rest: "(if \<not> owned
        then ends (release_empty (pc_job_id c) Surface_lost)
        else and_then (attempt (at_now rl (\<lambda>t L. prepare_publish_dispatch L (pc_job_id c) (pc_content_hash c) t)))
          (\<lambda>prepared. case prepared of
             None \<Rightarrow> ends (release_empty (pc_job_id c) Release_ledger_unavailable)
           | Some d \<Rightarrow> (case release_replay (pc_job_id c) d of
               Some r \<Rightarrow> ends r
             | None \<Rightarrow> armed_press rl c))) s1 = (Some (Inr d), s')"
    unfolding press_decision_def by (simp add: and_then_Some) blast
  from rest have "owned" by (cases owned) (simp_all add: ends_def)
  with rest obtain v s2 where "(case v of
             None \<Rightarrow> ends (release_empty (pc_job_id c) Release_ledger_unavailable)
           | Some d \<Rightarrow> (case release_replay (pc_job_id c) d of
               Some r \<Rightarrow> ends r
             | None \<Rightarrow> armed_press rl c)) s2 = (Some (Inr d), s')"
    by (simp add: and_then_Some) blast
  then have "armed_press rl c s2 = (Some (Inr d), s')"
    by (cases v; cases "release_replay (pc_job_id c) (the v)") (simp_all add: ends_def)
  then show ?thesis using checks by blast
qed

lemma armed_press_chain:
  assumes run: "armed_press rl c s1 = (Some (Inr d), s')"
  shows "\<exists>s2 s3 s4 s5. rl_observe rl s1 = (Some Form_ready, s2) \<and> rl_submit_enabled rl s2 = (Some True, s3)
    \<and> rl_submit_control rl s3 = (Some (), s4) \<and> surface_owned rl s4 = (Some True, s5)
    \<and> granted_press rl c s5 = (Some (Inr d), s')"
proof -
  let ?granted = "\<lambda>owned. if \<not> owned then ends (release_prepared_receipt (pc_job_id c) Surface_lost) else granted_press rl c"
  let ?submit = "\<lambda>submit. if submit = None then ends (release_prepared_receipt (pc_job_id c) Release_prepare_unavailable)
      else and_then (surface_owned rl) ?granted"
  let ?armed = "\<lambda>armed. if armed = None then ends (release_prepared_receipt (pc_job_id c) Form_not_ready)
      else if armed = Some False then ends (release_prepared_receipt (pc_job_id c) Submit_control_disabled)
      else and_then (attempt (rl_submit_control rl)) ?submit"
  from run obtain form s2 where form: "rl_observe rl s1 = (Some form, s2)"
    and rest: "(if form \<noteq> Form_ready then ends (release_prepared_receipt (pc_job_id c) Form_not_ready)
      else and_then (attempt (rl_submit_enabled rl)) ?armed) s2 = (Some (Inr d), s')"
    unfolding armed_press_def and_then_Some [of "rl_observe rl"] by blast
  have ready: "form = Form_ready" using rest by (cases "form = Form_ready") (simp_all add: ends_def)
  with rest have "and_then (attempt (rl_submit_enabled rl)) ?armed s2 = (Some (Inr d), s')" by simp
  then obtain armed s3 where armed: "rl_submit_enabled rl s2 = (armed, s3)" and rest: "?armed armed s3 = (Some (Inr d), s')"
    unfolding and_then_Some [of "attempt (rl_submit_enabled rl)"] attempt_Some by blast
  have enabled: "armed = Some True" using rest by (cases armed; cases "the armed") (simp_all add: ends_def)
  with rest have "and_then (attempt (rl_submit_control rl)) ?submit s3 = (Some (Inr d), s')" by simp
  then obtain submit s4 where submit: "rl_submit_control rl s3 = (submit, s4)" and rest: "?submit submit s4 = (Some (Inr d), s')"
    unfolding and_then_Some [of "attempt (rl_submit_control rl)"] attempt_Some by blast
  have found: "submit = Some ()" using rest by (cases submit) (simp_all add: ends_def)
  with rest have "and_then (surface_owned rl) ?granted s4 = (Some (Inr d), s')" by simp
  then obtain owned s5 where owned: "surface_owned rl s4 = (Some owned, s5)" and rest: "?granted owned s5 = (Some (Inr d), s')"
    unfolding and_then_Some [of "surface_owned rl"] by blast
  have own: "owned" using rest by (cases owned) (simp_all add: ends_def)
  with rest have "granted_press rl c s5 = (Some (Inr d), s')" by simp
  then show ?thesis
    using form ready armed enabled submit found owned own
    by (intro exI [of _ s2] exI [of _ s3] exI [of _ s4] exI [of _ s5]) simp
qed

lemma granted_press_chain:
  assumes run: "granted_press rl c s5 = (Some (Inr d), s')"
  shows "\<exists>g t s7. consume_dispatch (pc_token c) (pc_content_hash c) (sf_gate (fst s5)) = Some g
    \<and> utc_reading (rl_now rl) ((fst s5)\<lparr>sf_gate := g\<rparr>, snd s5) = (Some t, s7)
    \<and> grants_publish (snd s7) (Op_begin_publish (pc_job_id c) (pc_content_hash c) t (rl_interval rl)) (pc_job_id c)"
proof -
  let ?start = "at_now rl (\<lambda>t L. begin_publish_dispatch L (pc_job_id c) (pc_content_hash c) t (rl_interval rl))"
  let ?decide = "\<lambda>begun. case begun of
      None \<Rightarrow> ends (release_prepared_receipt (pc_job_id c) Release_permission_rejected)
    | Some d \<Rightarrow> (case release_replay (pc_job_id c) d of Some r \<Rightarrow> ends r | None \<Rightarrow> result_of (Some (Inr d)))"
  let ?spent = "\<lambda>spent. if spent = None then ends (release_prepared_receipt (pc_job_id c) Stale_confirmation)
      else and_then (attempt ?start) ?decide"
  from run obtain v s6 where spend: "spend_approval (pc_token c) (pc_content_hash c) s5 = (v, s6)"
    and rest: "?spent v s6 = (Some (Inr d), s')"
    unfolding granted_press_def and_then_Some [of "attempt (spend_approval (pc_token c) (pc_content_hash c))"] attempt_Some
    by blast
  have "v \<noteq> None" using rest by (cases v) (simp_all add: ends_def)
  then obtain g where g: "consume_dispatch (pc_token c) (pc_content_hash c) (sf_gate (fst s5)) = Some g"
    and s6: "s6 = ((fst s5)\<lparr>sf_gate := g\<rparr>, snd s5)"
    using spend by (auto simp: spend_approval_def split: option.splits)
  from rest \<open>v \<noteq> None\<close> have "and_then (attempt ?start) ?decide s6 = (Some (Inr d), s')" by simp
  then obtain b s8 where b: "?start s6 = (b, s8)" and rest: "?decide b s8 = (Some (Inr d), s')"
    unfolding and_then_Some [of "attempt ?start"] attempt_Some by blast
  obtain e where e: "b = Some e" using rest by (cases b) (simp_all add: ends_def)
  have replay: "release_replay (pc_job_id c) e = None"
    using rest e by (cases "release_replay (pc_job_id c) e") (simp_all add: ends_def)
  obtain t s7 where t: "utc_reading (rl_now rl) s6 = (Some t, s7)"
    and begun: "begin_publish_dispatch (snd s7) (pc_job_id c) (pc_content_hash c) t (rl_interval rl) = Some (e, snd s8)"
    using b e by (auto simp: at_now_Some)
  have "\<not> pd_replayed e" using begin_shows [OF begun] replay by (auto simp: release_replay_def split: if_splits)
  then have "grants_publish (snd s7) (Op_begin_publish (pc_job_id c) (pc_content_hash c) t (rl_interval rl)) (pc_job_id c)"
    using begun by (simp add: grants_publish_def)
  then show ?thesis using g t s6 by blast
qed

text \<open>
  C21. The button is pressed only when everything holds, in this order: the confirmation still names
  the account and the content of the preflight receipt and of the filled form; the form is ready and
  its button enabled; the executor owns the visible surface; the gate holds the unspent approval of
  exactly this content, and spends it; and then the ledger grants this job its dispatch.
\<close>

theorem press_is_guarded:
  assumes "presses rl receipt it c s"
  shows "confirmation_still_holds receipt it c \<and> (\<exists>s1 s2 s3 s4 s5 g t s7.
      rl_observe rl s1 = (Some Form_ready, s2) \<and> rl_submit_enabled rl s2 = (Some True, s3)
    \<and> rl_submit_control rl s3 = (Some (), s4) \<and> surface_owned rl s4 = (Some True, s5)
    \<and> consume_dispatch (pc_token c) (pc_content_hash c) (sf_gate (fst s5)) = Some g
    \<and> utc_reading (rl_now rl) ((fst s5)\<lparr>sf_gate := g\<rparr>, snd s5) = (Some t, s7)
    \<and> grants_publish (snd s7) (Op_begin_publish (pc_job_id c) (pc_content_hash c) t (rl_interval rl)) (pc_job_id c))"
proof -
  obtain d where d: "fst (press_decision rl receipt it c s) = Some (Inr d)"
    using assms by (auto simp: presses_def split: option.splits sum.splits)
  from press_decision_chain [OF d] obtain s1 s' where "confirmation_still_holds receipt it c"
    "armed_press rl c s1 = (Some (Inr d), s')" by blast
  with armed_press_chain [OF this(2)] granted_press_chain show ?thesis by metis
qed

subsection \<open>All releases\<close>

text \<open>Releases, other calls of the ledger, and any change of the surface between them, in any order.\<close>

datatype 'q release_op =
    Ledger_work ledger_op
  | Elsewhere "'q surface \<Rightarrow> 'q surface"
  | Release "'q release" preflight_receipt publish_intent publish_confirmation

fun release_step :: "codec \<Rightarrow> (bytes \<Rightarrow> bytes) \<Rightarrow> 'q surface \<times> ledger \<Rightarrow> 'q release_op \<Rightarrow> 'q surface \<times> ledger" where
  "release_step cd sha s (Ledger_work op) = (fst s, ledger_step cd (snd s) op)"
| "release_step cd sha s (Elsewhere f) = (f (fst s), snd s)"
| "release_step cd sha s (Release rl receipt it c) = snd (run_release sha rl receipt it c s)"

fun pressed :: "'q surface \<times> ledger \<Rightarrow> 'q release_op \<Rightarrow> str \<Rightarrow> bool" where
  "pressed s (Release rl receipt it c) k \<longleftrightarrow> pc_job_id c = k \<and> presses rl receipt it c s"
| "pressed s _ k \<longleftrightarrow> False"

fun release_op_ok :: "'q release_op \<Rightarrow> bool" where
  "release_op_ok (Release rl receipt it c) \<longleftrightarrow> release_env_ok rl"
| "release_op_ok _ \<longleftrightarrow> True"

lemma release_step_guarantee:
  assumes "ledger_inv (snd s)" "release_op_ok x"
  shows "sound (snd s) (snd (release_step cd sha s x))
    \<and> (pressed s x k \<longrightarrow> publish_rank (snd s) k < 2 \<and> 2 \<le> publish_rank (snd (release_step cd sha s x)) k)"
proof (cases x)
  case (Release rl receipt it c)
  obtain r s' where run: "run_release sha rl receipt it c s = (r, s')" by (cases "run_release sha rl receipt it c s")
  show ?thesis using run_release_guarantee [OF _ assms(1) run] assms(2) Release run by auto
qed (use sound_step [of "snd s"] assms(1) in \<open>auto simp: sound_def\<close>)

interpretation press_once: one_shot "\<lambda>s. ledger_inv (snd s)" "release_step cd sha" "\<lambda>s. publish_rank (snd s)" pressed 2
    release_op_ok for cd sha
proof
  fix s :: "'a surface \<times> ledger" and x :: "'a release_op" and k :: str
  assume "ledger_inv (snd s)" and "release_op_ok x"
  note op = release_step_guarantee [OF this, of cd sha k]
  then show "ledger_inv (snd (release_step cd sha s x))"
    and "publish_rank (snd s) k \<le> publish_rank (snd (release_step cd sha s x)) k"
    using \<open>ledger_inv (snd s)\<close> by (auto simp: sound_def publish_rank_evolves)
  show "publish_rank (snd s) k < 2" and "2 \<le> publish_rank (snd (release_step cd sha s x)) k" if "pressed s x k"
    using op that by simp_all
qed

text \<open>
  C20. Over any history of the executor (releases, also repeated for the same job and with new
  approvals, each with other threads interleaving, and any other calls of the ledger), the publish
  button is pressed at most once for one job.
\<close>

theorem published_once_ever:
  assumes "list_all release_op_ok ops"
  shows "length (filter (\<lambda>(s, x). pressed s x job) (run_states (release_step cd sha) (w, new_ledger inst exec) ops)) \<le> 1"
  by (rule press_once.at_most_one_grant) (simp_all add: new_ledger_inv assms)

subsection \<open>Samples\<close>

text \<open>A release in which nothing interleaves, over a page that lists the work once.\<close>

definition quiet_release :: "nat release" where
  "quiet_release = \<lparr>rl_now = (\<lambda>s. (Some (at_second 60), s)), rl_monotonic = (\<lambda>s. (0, s)),
     rl_observe = (\<lambda>s. (Some Form_ready, s)), rl_submit_enabled = (\<lambda>s. (Some True, s)),
     rl_submit_control = (\<lambda>s. (Some (), s)), rl_click = (\<lambda>s. (Some True, s)),
     rl_open_works = (\<lambda>s. (Some Works_list_ready, s)), rl_works_titled = (\<lambda>t s. (Some 1, s)),
     rl_interval = 30, rl_executed = False\<rparr>"

definition sample_confirmation :: publish_confirmation where
  "sample_confirmation = \<lparr>pc_job_id = the_job, pc_content_hash = sample_hash, pc_account = ''me'',
     pc_token = sample_hash\<rparr>"

definition sample_preflight :: preflight_receipt where
  "sample_preflight = \<lparr>pf_ready = True, pf_content_hash = Some sample_hash, pf_account = Some ''me''\<rparr>"

definition sample_publish_intent :: publish_intent where
  "sample_publish_intent = \<lparr>pi_content_hash = sample_hash, pi_title = ''film''\<rparr>"

definition approved_surface :: "nat surface" where
  "approved_surface = \<lparr>sf_outside = 0, sf_gate = [(''c'', \<lparr>pn_action = ''douyin_publish'', pn_account = ''me'',
     pn_hash = sample_hash, pn_token = Some sample_hash, pn_dispatched = False\<rparr>)], sf_lease = new_surface_lease\<rparr>"

lemma quiet_release_ok: "release_env_ok quiet_release"
  by (simp add: release_env_ok_def quiet_release_def keeps_def sound_def)

lemma sample_confirmation_ok: "confirmation_ok sample_confirmation"
proof -
  have "strip ''me'' \<noteq> []" "\<not> contains_control_or_bidi ''me''" by code_simp+
  then show ?thesis
    using sample_hash_ok
    by (simp add: confirmation_ok_def sample_confirmation_def unsafe_account_def plain_text_safe plain_char_def
        max_account_characters_def the_job_def hex_digit_def)
qed

lemma sample_presses: "presses quiet_release sample_preflight sample_publish_intent sample_confirmation
    (approved_surface, fresh_ledger)"
proof -
  have job: "is_canonical_uuid_v4 the_job" by (simp add: the_job_def hex_digit_def)
  have holds: "confirmation_still_holds sample_preflight sample_publish_intent sample_confirmation"
    by (simp add: confirmation_still_holds_def sample_preflight_def sample_publish_intent_def sample_confirmation_def)
  have lengths: "length the_job = 36" "length sample_hash = 64" by (simp_all add: the_job_def sample_hash_def)
  show ?thesis
    using sample_confirmation_ok holds job sample_hash_ok lengths
    by (simp add: presses_def press_decision_def armed_press_def granted_press_def quiet_release_def and_then_def
        attempt_def ends_def result_of_def surface_owned_def at_now_def utc_reading_def transact_def spend_approval_def
        sample_preflight_def sample_confirmation_def approved_surface_def new_surface_lease_def release_replay_def
        prepare_publish_dispatch_def begin_publish_dispatch_def canonical_uuid_v4_def publish_permitted_def
        read_emergency_stop_def read_publish_dispatch_def progress_ok_def new_progress_def previous_publish_at_def
        map_filter_def advance_publish_def publish_at_def move_publish_def mark_dispatched_def Let_def at_second_def
        fresh_ledger_def new_ledger_def seconds_def sql_insert_def sql_lookup_def sql_update_def sql_rowcount_def
        publish_ok_def publish_clash_def guard_ok_def latest_def)
qed

theorem release_reports_faithfully_witness:
  "\<exists>y. fst (run_release (\<lambda>_. fingerprint_b) quiet_release sample_preflight sample_publish_intent sample_confirmation
      (approved_surface, fresh_ledger)) = Some y \<and> rr_job y = the_job \<and> rr_state y \<noteq> Release_not_dispatched"
proof -
  obtain r w L where run: "run_release (\<lambda>_. fingerprint_b) quiet_release sample_preflight sample_publish_intent
      sample_confirmation (approved_surface, fresh_ledger) = (r, (w, L))" by (metis prod_cases3)
  have "ledger_inv fresh_ledger" by (simp add: fresh_ledger_def new_ledger_inv)
  from release_reports_faithfully [OF quiet_release_ok this run] sample_presses obtain y where
    "r = Some y" "honest_after_press (pc_job_id sample_confirmation) (pc_content_hash sample_confirmation) y L" by blast
  then have "r = Some y \<and> rr_job y = the_job \<and> rr_state y \<noteq> Release_not_dispatched"
    by (simp add: honest_after_press_def sample_confirmation_def)
  then show ?thesis unfolding run by auto
qed

theorem press_is_guarded_witness:
  "confirmation_still_holds sample_preflight sample_publish_intent sample_confirmation
    \<and> (\<exists>s. fst (surface_owned quiet_release s) = Some True)"
  using press_is_guarded [OF sample_presses] by (metis fst_conv)

theorem published_once_ever_witness:
  "length (filter (\<lambda>(s, x). pressed s x the_job) (run_states (release_step sample_codec (\<lambda>_. fingerprint_b))
     (approved_surface, new_ledger installation executor)
     (replicate 2 (Release quiet_release sample_preflight sample_publish_intent sample_confirmation)))) \<le> 1"
  by (rule published_once_ever) (simp add: quiet_release_ok numeral_2_eq_2)

end
