(* ===== verification/Plane_Schema.thy ===== *)
theory Plane_Schema
  imports Candidate_Policy Task_Lifecycle Sql_Table Action_Result
begin

text \<open>
  The tables of the Control Plane that task events reach (\<open>infrastructure/database/schema.py\<close>) with
  their \<open>CHECK\<close>, \<open>PRIMARY KEY\<close> and \<open>UNIQUE\<close> constraints, and the closed value sets they store
  (\<open>domain/execution_models.py\<close>, \<open>domain/task_events.py\<close>, \<open>domain/task_commands.py\<close>).

  A timestamp is a UTC instant, an identifier its canonical text. Left out of the rows: the columns
  that no operation of the model reads (the versions, \<open>safe_message\<close>, times of creation that equal another
  column), and the single platform, \<open>douyin\<close>.
  Foreign keys are not checked: every statement of the model inserts identifiers it has just read
  from the table the key refers to. Counters are unbounded; the column type is \<open>BIGINT\<close>.
\<close>

datatype installation_status = Installation_active | Installation_revoked

datatype attempt_status =
    Attempt_pending | Attempt_offered | Attempt_accepted | Attempt_running | Attempt_paused
  | Attempt_awaiting_human | Attempt_cancelling | Attempt_succeeded | Attempt_partially_succeeded
  | Attempt_failed | Attempt_cancelled | Attempt_rejected | Attempt_expired | Attempt_uncertain

definition terminal_attempt :: "attempt_status set" where
  "terminal_attempt = {Attempt_succeeded, Attempt_partially_succeeded, Attempt_failed, Attempt_cancelled,
     Attempt_rejected, Attempt_expired, Attempt_uncertain}"

datatype action_status =
    Action_planned | Action_authorized | Action_prepared | Action_dispatched | Action_verified
  | Action_was_cancelled | Action_uncertain

datatype action_outcome =
    Outcome_pending | Outcome_succeeded | Outcome_failed | Outcome_cancelled | Outcome_unsure

datatype task_event_type =
    Ev_task_created | Ev_validation_started | Ev_validation_failed | Ev_awaiting_platform_login
  | Ev_discovery_started | Ev_awaiting_confirmation | Ev_target_selection_updated | Ev_targets_confirmed
  | Ev_task_started | Ev_step_started | Ev_step_progress | Ev_step_completed | Ev_step_failed
  | Ev_awaiting_human | Ev_task_paused | Ev_task_resumed | Ev_task_cancelling | Ev_task_cancelled
  | Ev_task_completed | Ev_task_partially_completed | Ev_task_failed | Ev_task_outcome_uncertain

datatype command_status =
  Command_pending | Command_in_flight | Command_delivered | Command_acknowledged | Command_rejected
  | Command_expired

subsection \<open>Rows\<close>

record installation_row =
  in_id :: str
  in_status :: installation_status

record task_row =
  tr_id :: str
  tr_installation :: str
  tr_attempt :: "str option"
  tr_last_event :: int
  tr_status :: task_status
  tr_revision :: int
  tr_created :: instant
  tr_updated :: instant

definition task_row_ok :: "task_row \<Rightarrow> bool" where
  "task_row_ok r \<longleftrightarrow> is_canonical_uuid_v4 (tr_id r) \<and> 0 < tr_revision r
     \<and> 0 \<le> tr_last_event r \<and> tr_last_event r \<le> max_cross_runtime_sequence \<and> tr_created r \<le> tr_updated r"

record attempt_row =
  ta_id :: str
  ta_task :: str
  ta_installation :: str
  ta_status :: attempt_status
  ta_revision :: int
  ta_created :: instant
  ta_updated :: instant
  ta_started :: "instant option"
  ta_finished :: "instant option"

text \<open>\<open>coalesce\<close>.\<close>

definition coalesce :: "'a option \<Rightarrow> 'a \<Rightarrow> 'a" where
  "coalesce v d = (case v of None \<Rightarrow> d | Some x \<Rightarrow> x)"

definition attempt_row_ok :: "attempt_row \<Rightarrow> bool" where
  "attempt_row_ok r \<longleftrightarrow> is_canonical_uuid_v4 (ta_id r) \<and> 0 < ta_revision r
     \<and> ta_created r \<le> ta_updated r \<and> ta_created r \<le> coalesce (ta_started r) (ta_created r)
     \<and> (case ta_finished r of None \<Rightarrow> True | Some t \<Rightarrow> coalesce (ta_started r) (ta_created r) \<le> t)
     \<and> coalesce (ta_finished r) (coalesce (ta_started r) (ta_created r)) \<le> ta_updated r
     \<and> (ta_status r \<in> terminal_attempt) = (ta_finished r \<noteq> None)"

record action_row =
  tx_id :: str
  tx_attempt :: str
  tx_task :: str
  tx_installation :: str
  tx_ordinal :: int
  tx_status :: action_status
  tx_outcome :: action_outcome
  tx_evidence :: "result_evidence option"
  tx_revision :: int
  tx_created :: instant
  tx_updated :: instant
  tx_finished :: "instant option"

definition result_coherent :: "action_status \<Rightarrow> action_outcome \<Rightarrow> result_evidence option \<Rightarrow> bool \<Rightarrow> bool" where
  "result_coherent st out ev finished \<longleftrightarrow>
     (st \<in> {Action_planned, Action_authorized, Action_prepared, Action_dispatched} \<and> out = Outcome_pending
        \<and> ev = None \<and> \<not> finished)
   \<or> (st = Action_verified \<and> out \<in> {Outcome_succeeded, Outcome_failed} \<and> ev \<noteq> None \<and> finished)
   \<or> (st = Action_was_cancelled \<and> out = Outcome_cancelled \<and> ev = Some Action_cancelled \<and> finished)
   \<or> (st = Action_uncertain \<and> out = Outcome_unsure \<and> ev \<noteq> None \<and> finished)"

definition evidence_coherent :: "action_outcome \<Rightarrow> result_evidence option \<Rightarrow> bool" where
  "evidence_coherent out ev \<longleftrightarrow> (case ev of None \<Rightarrow> True | Some v \<Rightarrow>
     (out = Outcome_succeeded \<and> v \<in> success_evidence) \<or> (out = Outcome_failed \<and> v \<in> failed_evidence)
   \<or> (out = Outcome_cancelled \<and> v = Action_cancelled) \<or> (out = Outcome_unsure \<and> v \<in> uncertain_evidence))"

definition action_row_ok :: "action_row \<Rightarrow> bool" where
  "action_row_ok r \<longleftrightarrow> is_canonical_uuid_v4 (tx_id r) \<and> 0 < tx_ordinal r \<and> 0 < tx_revision r
     \<and> tx_created r \<le> tx_updated r
     \<and> (case tx_finished r of None \<Rightarrow> True | Some t \<Rightarrow> tx_created r \<le> t \<and> t \<le> tx_updated r)
     \<and> result_coherent (tx_status r) (tx_outcome r) (tx_evidence r) (tx_finished r \<noteq> None)
     \<and> evidence_coherent (tx_outcome r) (tx_evidence r)"

text \<open>\<open>UNIQUE\<close>: the identifier, and one action of an ordinal per attempt.\<close>

definition action_clash :: "action_row \<Rightarrow> action_row \<Rightarrow> bool" where
  "action_clash a b \<longleftrightarrow> tx_id a = tx_id b \<or> (tx_attempt a = tx_attempt b \<and> tx_ordinal a = tx_ordinal b)"

definition max_action_risk_limit :: int where
  "max_action_risk_limit = max_cross_runtime_sequence"

definition max_task_interval_seconds :: int where
  "max_task_interval_seconds = 3600"

text \<open>The UTC day of an instant.\<close>

definition utc_day :: "instant \<Rightarrow> int" where
  "utc_day t = t div seconds 86400"

record authorization_row =
  az_action_id :: str
  az_target :: str
  az_attempt :: str
  az_task :: str
  az_installation :: str
  az_ordinal :: int
  az_action :: exposure_action
  az_interval :: int
  az_task_limit :: int
  az_daily_limit :: int
  az_threshold :: int
  az_task_count :: int
  az_daily_count :: int
  az_day :: int
  az_authorized :: instant

definition limit_ok :: "int \<Rightarrow> bool" where
  "limit_ok n \<longleftrightarrow> 1 \<le> n \<and> n \<le> max_action_risk_limit"

definition authorization_ok :: "authorization_row \<Rightarrow> bool" where
  "authorization_ok r \<longleftrightarrow> 1 \<le> az_interval r \<and> az_interval r \<le> max_task_interval_seconds
     \<and> 1 \<le> az_task_limit r \<and> az_task_limit r \<le> int max_task_target_limit
     \<and> limit_ok (az_daily_limit r) \<and> limit_ok (az_threshold r)
     \<and> 1 \<le> az_task_count r \<and> az_task_count r \<le> az_task_limit r
     \<and> 1 \<le> az_daily_count r \<and> az_daily_count r \<le> az_daily_limit r
     \<and> az_day r = utc_day (az_authorized r)"

definition authorization_clash :: "authorization_row \<Rightarrow> authorization_row \<Rightarrow> bool" where
  "authorization_clash a b \<longleftrightarrow> az_action_id a = az_action_id b
     \<or> (az_task a = az_task b \<and> az_action a = az_action b \<and> az_task_count a = az_task_count b)
     \<or> (az_installation a = az_installation b \<and> az_action a = az_action b \<and> az_day a = az_day b
        \<and> az_daily_count a = az_daily_count b)"

record risk_result_row =
  rz_action_id :: str
  rz_installation :: str
  rz_action :: exposure_action
  rz_outcome :: action_outcome
  rz_failures :: int
  rz_threshold :: int
  rz_open :: bool
  rz_handoff :: bool
  rz_observed :: instant

definition risk_result_ok :: "risk_result_row \<Rightarrow> bool" where
  "risk_result_ok r \<longleftrightarrow> rz_outcome r \<in> {Outcome_succeeded, Outcome_failed}
     \<and> 0 \<le> rz_failures r \<and> rz_failures r \<le> max_action_risk_limit
     \<and> limit_ok (rz_threshold r)
     \<and> (if rz_outcome r = Outcome_failed then 0 < rz_failures r else rz_failures r = 0 \<or> rz_open r)
     \<and> (rz_handoff r \<longrightarrow> rz_outcome r = Outcome_failed \<and> rz_open r \<and> rz_threshold r \<le> rz_failures r)"

record circuit_row =
  fc_installation :: str
  fc_action :: exposure_action
  fc_failures :: int
  fc_open :: bool
  fc_revision :: int
  fc_last_action :: str
  fc_opened_by :: "str option"
  fc_opened_at :: "instant option"
  fc_created :: instant
  fc_updated :: instant

definition circuit_ok :: "circuit_row \<Rightarrow> bool" where
  "circuit_ok r \<longleftrightarrow> 0 \<le> fc_failures r \<and> fc_failures r \<le> max_action_risk_limit \<and> 0 < fc_revision r
     \<and> (if fc_open r then 0 < fc_failures r \<and> fc_opened_by r \<noteq> None \<and> fc_opened_at r \<noteq> None
        else fc_opened_by r = None \<and> fc_opened_at r = None)
     \<and> fc_created r \<le> fc_updated r
     \<and> (case fc_opened_at r of None \<Rightarrow> True | Some t \<Rightarrow> fc_created r \<le> t \<and> t \<le> fc_updated r)"

definition circuit_scope :: "circuit_row \<Rightarrow> str \<times> exposure_action" where
  "circuit_scope r = (fc_installation r, fc_action r)"

record event_row =
  te_task :: str
  te_installation :: str
  te_sequence :: int
  te_type :: task_event_type
  te_revision :: int
  te_status :: task_status
  te_attempt :: "str option"
  te_action :: "str option"
  te_message :: "str option"
  te_key :: str
  te_fingerprint :: bytes
  te_progress :: "int option"
  te_occurred :: instant
  te_recorded :: instant

definition event_row_ok :: "event_row \<Rightarrow> bool" where
  "event_row_ok r \<longleftrightarrow> sequence_ok (te_sequence r) \<and> 0 < te_revision r
     \<and> (case te_message r of None \<Rightarrow> True | Some m \<Rightarrow> is_canonical_uuid_v4 m)
     \<and> idempotency_key_ok (te_key r) \<and> length (te_fingerprint r) = 32
     \<and> (case te_progress r of None \<Rightarrow> True | Some n \<Rightarrow> te_type r = Ev_step_progress \<and> 0 \<le> n \<and> n \<le> 100)
     \<and> (te_action r = None \<or> te_attempt r \<noteq> None) \<and> te_occurred r \<le> te_recorded r"

definition event_clash :: "event_row \<Rightarrow> event_row \<Rightarrow> bool" where
  "event_clash a b \<longleftrightarrow> (te_task a = te_task b \<and> te_sequence a = te_sequence b)
     \<or> (te_installation a = te_installation b \<and> te_message a = te_message b \<and> te_message a \<noteq> None)
     \<or> (te_installation a = te_installation b \<and> te_key a = te_key b)"

record definition_row =
  td_task :: str
  td_installation :: str
  td_action :: exposure_action
  td_template :: "str option"
  td_interval :: int

record confirmation_row =
  cf_task :: str
  cf_installation :: str
  cf_message :: str
  cf_page :: int
  cf_selection :: int
  cf_revision :: int
  cf_count :: int
  cf_action :: exposure_action
  cf_template :: "str option"
  cf_fingerprint :: bytes
  cf_confirmed :: instant

record target_row =
  tg_id :: str
  tg_task :: str
  tg_installation :: str
  tg_ordinal :: int
  tg_page :: int
  tg_disposition :: disposition

record exclusion_row =
  xc_target :: str
  xc_task :: str
  xc_installation :: str
  xc_page :: int

text \<open>A command of the outbox towards the executor; its type is that of the message.\<close>

record plane_command =
  tc_message_id :: str
  tc_correlation :: str
  tc_installation :: str
  tc_task :: str
  tc_attempt :: str
  tc_sequence :: int
  tc_type :: message_type
  tc_confirmation :: "str option"
  tc_action :: "str option"
  tc_baseline :: "int option"
  tc_status :: command_status
  tc_key :: str
  tc_revision :: int
  tc_deliveries :: int
  tc_next_delivery :: "instant option"
  tc_lease :: "instant option"
  tc_delivered :: "instant option"
  tc_acknowledged :: "instant option"
  tc_response_id :: "str option"
  tc_response :: "message_type option"
  tc_deadline :: instant
  tc_created :: instant
  tc_updated :: instant

definition opt_ok :: "('a \<Rightarrow> bool) \<Rightarrow> 'a option \<Rightarrow> bool" where
  "opt_ok p v \<longleftrightarrow> (case v of None \<Rightarrow> True | Some x \<Rightarrow> p x)"

text \<open>\<open>ck_task_commands_time_order\<close>, \<open>status_coherence\<close> and \<open>response_coherence\<close>.\<close>

definition command_times_ok :: "plane_command \<Rightarrow> bool" where
  "command_times_ok r \<longleftrightarrow> tc_created r < tc_deadline r \<and> tc_created r \<le> tc_updated r
     \<and> opt_ok (\<lambda>t. tc_created r \<le> t \<and> t < tc_deadline r) (tc_next_delivery r)
     \<and> opt_ok (\<lambda>t. tc_updated r < t \<and> t \<le> tc_deadline r) (tc_lease r)
     \<and> opt_ok (\<lambda>t. tc_created r \<le> t \<and> t \<le> tc_deadline r) (tc_delivered r)
     \<and> opt_ok (\<lambda>t. (case tc_delivered r of None \<Rightarrow> False | Some d \<Rightarrow> d \<le> t) \<and> t \<le> tc_deadline r)
         (tc_acknowledged r)"

definition command_coherent :: "plane_command \<Rightarrow> bool" where
  "command_coherent r \<longleftrightarrow>
     (let scheduled = tc_next_delivery r \<noteq> None; leased = tc_lease r \<noteq> None; delivered = tc_delivered r \<noteq> None;
          acknowledged = tc_acknowledged r \<noteq> None; answered = tc_response_id r \<noteq> None;
          silent = tc_acknowledged r = None \<and> tc_response_id r = None \<and> tc_response r = None
      in case tc_status r of
           Command_pending \<Rightarrow> scheduled \<and> \<not> leased \<and> \<not> delivered \<and> silent
         | Command_in_flight \<Rightarrow> 0 < tc_deliveries r \<and> \<not> scheduled \<and> leased \<and> \<not> delivered \<and> silent
         | Command_delivered \<Rightarrow> 0 < tc_deliveries r \<and> \<not> scheduled \<and> \<not> leased \<and> delivered \<and> silent
         | Command_acknowledged \<Rightarrow> 0 < tc_deliveries r \<and> \<not> scheduled \<and> \<not> leased \<and> delivered \<and> acknowledged
             \<and> answered \<and> tc_response r \<in> Some ` {M_task_accept, M_task_control_ack, M_action_accept}
         | Command_rejected \<Rightarrow> 0 < tc_deliveries r \<and> \<not> scheduled \<and> \<not> leased \<and> delivered \<and> acknowledged
             \<and> answered \<and> tc_response r \<in> Some ` {M_task_reject, M_action_reject}
         | Command_expired \<Rightarrow> \<not> scheduled \<and> \<not> leased \<and> silent \<and> (delivered \<longrightarrow> 0 < tc_deliveries r))"

definition response_coherent :: "message_type \<Rightarrow> message_type option \<Rightarrow> bool" where
  "response_coherent ty resp \<longleftrightarrow> (case resp of None \<Rightarrow> True | Some x \<Rightarrow>
     (ty \<in> {M_task_offer, M_task_discover} \<and> x \<in> {M_task_accept, M_task_reject})
   \<or> (ty = M_action_execute \<and> x \<in> {M_action_accept, M_action_reject})
   \<or> (ty \<in> control_types \<and> x = M_task_control_ack))"

definition plane_command_ok :: "plane_command \<Rightarrow> bool" where
  "plane_command_ok r \<longleftrightarrow> is_canonical_uuid_v4 (tc_message_id r) \<and> is_canonical_uuid_v4 (tc_correlation r)
     \<and> opt_ok is_canonical_uuid_v4 (tc_response_id r) \<and> opt_ok is_canonical_uuid_v4 (tc_confirmation r)
     \<and> opt_ok is_canonical_uuid_v4 (tc_action r) \<and> sequence_ok (tc_sequence r) \<and> tc_type r \<in> inbound_types
     \<and> idempotency_key_ok (tc_key r) \<and> 0 < tc_revision r \<and> 0 \<le> tc_deliveries r
     \<and> command_times_ok r \<and> command_coherent r \<and> response_coherent (tc_type r) (tc_response r)
     \<and> (tc_confirmation r = None \<or> tc_type r \<in> {M_task_offer, M_action_execute})
     \<and> (if tc_type r = M_action_execute then tc_action r \<noteq> None \<and> tc_confirmation r \<noteq> None else tc_action r = None)
     \<and> (case tc_baseline r of None \<Rightarrow> tc_type r \<noteq> M_task_offer
        | Some n \<Rightarrow> tc_type r = M_task_offer \<and> 0 \<le> n \<and> n < max_cross_runtime_sequence)"

definition plane_command_clash :: "plane_command \<Rightarrow> plane_command \<Rightarrow> bool" where
  "plane_command_clash a b \<longleftrightarrow> tc_message_id a = tc_message_id b
     \<or> (tc_attempt a = tc_attempt b \<and> tc_sequence a = tc_sequence b)
     \<or> (tc_installation a = tc_installation b \<and> tc_key a = tc_key b)
     \<or> (tc_installation a = tc_installation b \<and> tc_response_id a = tc_response_id b \<and> tc_response_id a \<noteq> None)
     \<or> (tc_action a = tc_action b \<and> tc_action a \<noteq> None)"

record control_plane =
  pl_installations :: "installation_row list"
  pl_tasks :: "task_row list"
  pl_attempts :: "attempt_row list"
  pl_actions :: "action_row list"
  pl_authorizations :: "authorization_row list"
  pl_results :: "risk_result_row list"
  pl_circuits :: "circuit_row list"
  pl_events :: "event_row list"
  pl_definitions :: "definition_row list"
  pl_confirmations :: "confirmation_row list"
  pl_targets :: "target_row list"
  pl_exclusions :: "exclusion_row list"
  pl_healthy :: "str list"
  pl_gates :: "str list"
  pl_commands :: "plane_command list"

definition same_key :: "('r \<Rightarrow> 'k) \<Rightarrow> 'r \<Rightarrow> 'r \<Rightarrow> bool" where
  "same_key key a b \<longleftrightarrow> key a = key b"

lemma same_key_iff [simp]: "same_key key a b \<longleftrightarrow> key a = key b"
  by (simp add: same_key_def)

interpretation task_table: keyed_table task_row_ok "same_key tr_id" tr_id
  by unfold_locales simp

interpretation attempt_table: keyed_table attempt_row_ok "same_key ta_id" ta_id
  by unfold_locales simp

interpretation action_table: keyed_table action_row_ok action_clash tx_id
  by unfold_locales (simp add: action_clash_def)

interpretation result_table: keyed_table risk_result_ok "same_key rz_action_id" rz_action_id
  by unfold_locales simp

interpretation circuit_table: keyed_table circuit_ok "same_key circuit_scope" circuit_scope
  by unfold_locales simp

interpretation event_table: keyed_table event_row_ok event_clash "\<lambda>r. (te_task r, te_sequence r)"
  by unfold_locales (simp add: event_clash_def)

interpretation plane_command_table: keyed_table plane_command_ok plane_command_clash tc_message_id
  by unfold_locales (simp add: plane_command_clash_def)

interpretation authorization_table: keyed_table authorization_ok authorization_clash az_action_id
  by unfold_locales (simp add: authorization_clash_def)

text \<open>
  \<open>pl_gates\<close> holds the installations with a gate on the platform, \<open>pl_healthy\<close> those whose session on
  it is healthy.
\<close>

definition plane_wf :: "control_plane \<Rightarrow> bool" where
  "plane_wf P \<longleftrightarrow> sql_wf task_row_ok (same_key tr_id) (pl_tasks P)
     \<and> sql_wf attempt_row_ok (same_key ta_id) (pl_attempts P)
     \<and> sql_wf action_row_ok action_clash (pl_actions P)
     \<and> sql_wf risk_result_ok (same_key rz_action_id) (pl_results P)
     \<and> sql_wf circuit_ok (same_key circuit_scope) (pl_circuits P)
     \<and> sql_wf event_row_ok event_clash (pl_events P)
     \<and> sql_wf plane_command_ok plane_command_clash (pl_commands P)
     \<and> sql_wf authorization_ok authorization_clash (pl_authorizations P)"

end
