(* ===== verification/Event_Plan.thy ===== *)
theory Event_Plan
  imports Plane_Schema
begin

text \<open>
  What the Control Plane makes of an executor event before it touches the database
  (\<open>control_plane/application/task_event_convergence.py\<close>): the closed table of targets, the reading of
  the payload and the checks of \<open>PendingTaskEvent\<close>. A rejected event is \<open>None\<close>.

  The digest of the canonical JSON text of a message without its identifier and its time of sending is
  the parameter \<open>dg\<close>, applied to the message with the two fields blanked.
\<close>

record event_plan =
  ep_type :: task_event_type
  ep_task :: "task_status option"
  ep_attempt :: "attempt_status option"

definition plan_of :: "task_event_type \<Rightarrow> (task_status \<times> attempt_status) option \<Rightarrow> event_plan" where
  "plan_of ev target = \<lparr>ep_type = ev, ep_task = map_option fst target, ep_attempt = map_option snd target\<rparr>"

fun event_plans :: "message_type \<Rightarrow> event_plan option" where
  "event_plans M_task_started = Some (plan_of Ev_task_started (Some (Running, Attempt_running)))"
| "event_plans M_step_started = Some (plan_of Ev_step_started None)"
| "event_plans M_step_progress = Some (plan_of Ev_step_progress None)"
| "event_plans M_step_completed = Some (plan_of Ev_step_completed None)"
| "event_plans M_step_failed = Some (plan_of Ev_step_failed None)"
| "event_plans M_session_login_required =
     Some (plan_of Ev_awaiting_platform_login (Some (Awaiting_platform_login, Attempt_awaiting_human)))"
| "event_plans M_handoff_requested =
     Some (plan_of Ev_awaiting_human (Some (Awaiting_human, Attempt_awaiting_human)))"
| "event_plans M_task_paused = Some (plan_of Ev_task_paused (Some (Paused, Attempt_paused)))"
| "event_plans M_task_resumed = Some (plan_of Ev_task_resumed (Some (Running, Attempt_running)))"
| "event_plans M_task_cancelled = Some (plan_of Ev_task_cancelled (Some (Cancelled, Attempt_cancelled)))"
| "event_plans M_task_completed = Some (plan_of Ev_task_completed (Some (Succeeded, Attempt_succeeded)))"
| "event_plans M_task_partially_completed =
     Some (plan_of Ev_task_partially_completed (Some (Partially_succeeded, Attempt_partially_succeeded)))"
| "event_plans M_task_failed = Some (plan_of Ev_task_failed (Some (Failed, Attempt_failed)))"
| "event_plans M_task_outcome_uncertain =
     Some (plan_of Ev_task_outcome_uncertain (Some (task_status.Outcome_uncertain, Attempt_uncertain)))"
| "event_plans _ = None"

subsection \<open>The action of an event\<close>

record action_plan =
  ap_action :: "str option"
  ap_status :: "action_status option"
  ap_outcome :: "action_outcome option"
  ap_evidence :: "result_evidence option"
  ap_progress :: "int option"

definition no_action :: action_plan where
  "no_action = \<lparr>ap_action = None, ap_status = None, ap_outcome = None, ap_evidence = None, ap_progress = None\<rparr>"

definition action_event_types :: "message_type set" where
  "action_event_types =
     {M_step_started, M_step_progress, M_step_completed, M_step_failed, M_task_outcome_uncertain}"

definition allowed_fields :: "message_type \<Rightarrow> str set" where
  "allowed_fields ty = {''action_id''}
     \<union> (if ty = M_step_progress then {''progress_percent''} else {})
     \<union> (if ty \<in> {M_step_completed, M_step_failed, M_task_outcome_uncertain}
        then {''evidence'', ''evidence_version''} else {})"

text \<open>\<open>payload.get\<close>: a field that is missing and a field that is null read alike.\<close>

definition get_field :: "(str \<times> json) list \<Rightarrow> str \<Rightarrow> json option" where
  "get_field kvs k = (case map_of kvs k of Some JNull \<Rightarrow> None | v \<Rightarrow> v)"

text \<open>\<open>ActionId.parse\<close> on a JSON value; \<open>UUID.version\<close> is 4 only for the RFC 4122 variant.\<close>

definition parse_action_id :: "json \<Rightarrow> str option" where
  "parse_action_id v = (case v of JStr s \<Rightarrow> canonical_uuid_v4 s | _ \<Rightarrow> None)"

definition all_evidence :: "result_evidence list" where
  "all_evidence = [Awaiting_execution, Action_pending, Action_in_progress, Profile_visible, Comment_confirmed,
     Message_confirmed, Executor_reported_success, User_excluded, Duplicate_in_task, Duplicate_in_history,
     Blacklisted, Action_cancelled, Evidence_admission_rejected, Local_safety_limit, Login_required,
     Dialog_blocked, Messaging_not_allowed, Follow_required, Timed_out, Page_version_unknown,
     Conflicting_anchors, Page_unavailable, Evidence_verification_unavailable, Executor_reported_failure,
     Dispatch_timed_out, Dispatch_unavailable, Final_state_unconfirmed, Recovery_unconfirmed]"

text \<open>\<open>ActionResultEvidence(value)\<close>.\<close>

definition parse_result_evidence :: "str \<Rightarrow> result_evidence option" where
  "parse_result_evidence s = List.find (\<lambda>v. evidence_code v = s) all_evidence"

definition payload_evidence :: "(str \<times> json) list \<Rightarrow> str option \<Rightarrow> result_evidence option option" where
  "payload_evidence kvs action = (case (get_field kvs ''evidence'', get_field kvs ''evidence_version'') of
     (None, None) \<Rightarrow> Some None
   | (Some (JStr s), Some (JStr v)) \<Rightarrow>
       (if action \<noteq> None \<and> v = evidence_version then map_option Some (parse_result_evidence s) else None)
   | _ \<Rightarrow> None)"

definition payload_progress :: "(str \<times> json) list \<Rightarrow> int option" where
  "payload_progress kvs = (case get_field kvs ''progress_percent'' of
     Some (JInt n) \<Rightarrow> if 0 \<le> n \<and> n \<le> 100 then Some n else None
   | _ \<Rightarrow> None)"

text \<open>\<open>evidence or fallback\<close>, the fallback only for an event that names an action.\<close>

definition resolved_evidence :: "result_evidence option \<Rightarrow> str option \<Rightarrow> result_evidence \<Rightarrow> result_evidence option" where
  "resolved_evidence ev action fallback =
     (case ev of Some v \<Rightarrow> Some v | None \<Rightarrow> (if action = None then None else Some fallback))"

definition within :: "result_evidence option \<Rightarrow> result_evidence set \<Rightarrow> bool" where
  "within ev E \<longleftrightarrow> (case ev of None \<Rightarrow> True | Some v \<Rightarrow> v \<in> E)"

definition action_plan_of :: "message_type \<Rightarrow> (str \<times> json) list \<Rightarrow> action_plan option" where
  "action_plan_of ty kvs =
     (if ty \<notin> action_event_types then (if kvs = [] then Some no_action else None)
      else if \<not> fst ` set kvs \<subseteq> allowed_fields ty then None
      else do {
        action \<leftarrow> (case map_of kvs ''action_id'' of None \<Rightarrow> Some None
          | Some v \<Rightarrow> map_option Some (parse_action_id v));
        ev \<leftarrow> payload_evidence kvs action;
        progress \<leftarrow> (if ty = M_step_progress then map_option Some (payload_progress kvs) else Some None);
        (let settled = (\<lambda>st out E fallback.
               let v = resolved_evidence ev action fallback in
               if \<not> within v E then None
               else Some \<lparr>ap_action = action, ap_status = (if action = None then None else Some st),
                 ap_outcome = (if action = None then None else Some out), ap_evidence = v, ap_progress = None\<rparr>)
         in if ty = M_step_started
            then Some (no_action\<lparr>ap_action := action,
              ap_status := (if action = None then None else Some Action_dispatched)\<rparr>)
            else if ty = M_step_completed
            then settled Action_verified Outcome_succeeded success_evidence Executor_reported_success
            else if ty = M_step_failed
            then settled Action_verified Outcome_failed failed_evidence Executor_reported_failure
            else if ty = M_task_outcome_uncertain \<and> action \<noteq> None
            then settled Action_uncertain Outcome_unsure uncertain_evidence Final_state_unconfirmed
            else Some (no_action\<lparr>ap_action := action, ap_progress := progress\<rparr>))
      })"

subsection \<open>Pending events\<close>

record pending_event =
  pe_message :: envelope
  pe_type :: task_event_type
  pe_task :: "task_status option"
  pe_attempt :: "attempt_status option"
  pe_action :: "str option"
  pe_status :: "action_status option"
  pe_outcome :: "action_outcome option"
  pe_progress :: "int option"
  pe_fingerprint :: bytes
  pe_received :: instant
  pe_evidence :: "result_evidence option"

text \<open>The evidence a pending event of an action falls back to.\<close>

definition fallback_evidence :: "action_outcome option \<Rightarrow> result_evidence option" where
  "fallback_evidence out = (case out of
     Some Outcome_succeeded \<Rightarrow> Some Executor_reported_success
   | Some Outcome_failed \<Rightarrow> Some Executor_reported_failure
   | Some Outcome_unsure \<Rightarrow> Some Final_state_unconfirmed
   | _ \<Rightarrow> None)"

definition outcome_evidence :: "action_outcome \<Rightarrow> result_evidence set option" where
  "outcome_evidence out = (case out of
     Outcome_succeeded \<Rightarrow> Some success_evidence
   | Outcome_failed \<Rightarrow> Some failed_evidence
   | Outcome_unsure \<Rightarrow> Some uncertain_evidence
   | _ \<Rightarrow> None)"

definition evidence_matches :: "action_outcome option \<Rightarrow> result_evidence option \<Rightarrow> bool" where
  "evidence_matches out ev \<longleftrightarrow> (case Option.bind out outcome_evidence of None \<Rightarrow> True
     | Some E \<Rightarrow> (case ev of None \<Rightarrow> False | Some v \<Rightarrow> v \<in> E))"

text \<open>\<open>__post_init__\<close>: the event with its evidence completed, or a rejection.\<close>

definition checked_pending :: "pending_event \<Rightarrow> pending_event option" where
  "checked_pending pe =
     (let ev = (if pe_action pe \<noteq> None \<and> pe_evidence pe = None then fallback_evidence (pe_outcome pe)
                else pe_evidence pe) in
      if (pe_action pe = None \<longrightarrow> pe_status pe = None \<and> pe_outcome pe = None \<and> ev = None)
        \<and> evidence_matches (pe_outcome pe) ev
        \<and> (case pe_progress pe of None \<Rightarrow> True | Some n \<Rightarrow> 0 \<le> n \<and> n \<le> 100)
        \<and> length (pe_fingerprint pe) = 32
      then Some (pe\<lparr>pe_evidence := ev\<rparr>) else None)"

definition event_fingerprint :: "(envelope \<Rightarrow> bytes) \<Rightarrow> envelope \<Rightarrow> bytes" where
  "event_fingerprint dg m = dg (intent_of m)"

text \<open>\<open>receive\<close> up to the repository.\<close>

definition pending_of :: "(envelope \<Rightarrow> bytes) \<Rightarrow> instant \<Rightarrow> envelope \<Rightarrow> pending_event option" where
  "pending_of dg now m =
     (if now < sent_at m \<or> deadline_at m \<le> now then None
      else do {
        plan \<leftarrow> event_plans (message_type m);
        kvs \<leftarrow> (case payload m of P_object kvs \<Rightarrow> Some kvs | _ \<Rightarrow> None);
        ap \<leftarrow> action_plan_of (message_type m) kvs;
        checked_pending \<lparr>pe_message = m, pe_type = ep_type plan, pe_task = ep_task plan,
          pe_attempt = ep_attempt plan, pe_action = ap_action ap, pe_status = ap_status ap,
          pe_outcome = ap_outcome ap, pe_progress = ap_progress ap,
          pe_fingerprint = event_fingerprint dg m, pe_received = now, pe_evidence = ap_evidence ap\<rparr>
      })"

end
