(* ===== verification/Event_Convergence.thy ===== *)
theory Event_Convergence
  imports Event_Plan
begin

text \<open>
  The durable convergence of an executor event
  (\<open>control_plane/infrastructure/database/task_event_convergence_repository.py\<close>): one transaction that
  recognises a replay, checks the event against the task, its attempt, the controls and the action, keeps
  the failure circuit, and appends the event with every projection. \<open>None\<close> is a raised
  exception, whose transaction is rolled back. The row locks make transactions of one installation follow
  each other; a step of the model is one transaction.
\<close>

definition step_event_types :: "message_type set" where
  "step_event_types = {M_step_started, M_step_progress, M_step_completed, M_step_failed}"

definition step_task_statuses :: "task_status set" where
  "step_task_statuses = {Running, Cancelling}"

definition step_attempt_statuses :: "attempt_status set" where
  "step_attempt_statuses = {Attempt_running, Attempt_cancelling}"

fun attempt_transitions :: "attempt_status \<Rightarrow> attempt_status set" where
  "attempt_transitions Attempt_pending = {Attempt_running, Attempt_awaiting_human}"
| "attempt_transitions Attempt_offered = {Attempt_running, Attempt_awaiting_human}"
| "attempt_transitions Attempt_accepted = {Attempt_running, Attempt_awaiting_human}"
| "attempt_transitions Attempt_running =
     {Attempt_paused, Attempt_awaiting_human, Attempt_succeeded, Attempt_partially_succeeded, Attempt_failed,
      Attempt_cancelled, Attempt_uncertain}"
| "attempt_transitions Attempt_paused =
     {Attempt_running, Attempt_awaiting_human, Attempt_cancelled, Attempt_uncertain}"
| "attempt_transitions Attempt_awaiting_human =
     {Attempt_running, Attempt_failed, Attempt_cancelled, Attempt_uncertain}"
| "attempt_transitions Attempt_cancelling =
     {Attempt_succeeded, Attempt_partially_succeeded, Attempt_failed, Attempt_cancelled, Attempt_uncertain}"
| "attempt_transitions Attempt_succeeded = {}"
| "attempt_transitions Attempt_partially_succeeded = {}"
| "attempt_transitions Attempt_failed = {}"
| "attempt_transitions Attempt_cancelled = {}"
| "attempt_transitions Attempt_rejected = {}"
| "attempt_transitions Attempt_expired = {}"
| "attempt_transitions Attempt_uncertain = {}"

interpretation attempt: lifecycle attempt_transitions terminal_attempt
proof
  show "s \<in> terminal_attempt \<longleftrightarrow> attempt_transitions s = {}" for s
    by (cases s) (simp_all add: terminal_attempt_def)
qed

definition next_task_status :: "task_status \<Rightarrow> pending_event \<Rightarrow> task_status option" where
  "next_task_status current pe = (case pe_task pe of
     None \<Rightarrow> (if message_type (pe_message pe) \<in> step_event_types \<and> current \<in> step_task_statuses
        then Some current else None)
   | Some target \<Rightarrow> (case task_transition (Some current) (Some target) of Inl _ \<Rightarrow> None | Inr s \<Rightarrow> Some s))"

definition next_attempt_status :: "attempt_status \<Rightarrow> pending_event \<Rightarrow> attempt_status option" where
  "next_attempt_status current pe = (case pe_attempt pe of
     None \<Rightarrow> (if message_type (pe_message pe) \<in> step_event_types \<and> current \<in> step_attempt_statuses
        then Some current else None)
   | Some target \<Rightarrow> (if target \<in> attempt_transitions current then Some target else None))"

definition validate_action :: "action_row \<Rightarrow> pending_event \<Rightarrow> (action_status \<times> action_outcome) option" where
  "validate_action r pe =
     (let st = tx_status r; out = tx_outcome r in
      if message_type (pe_message pe) = M_step_progress
      then (if st = Action_dispatched \<and> out = Outcome_pending then Some (st, out) else None)
      else if pe_status pe = Some Action_dispatched
      then (if st \<in> {Action_authorized, Action_prepared, Action_dispatched} \<and> out = Outcome_pending
        then Some (Action_dispatched, out) else None)
      else if pe_status pe = Some Action_verified \<and> pe_outcome pe = Some Outcome_succeeded
      then (if st = Action_dispatched \<and> out = Outcome_pending then Some (Action_verified, Outcome_succeeded) else None)
      else if pe_status pe = Some Action_verified \<and> pe_outcome pe = Some Outcome_failed
      then (if st \<in> {Action_authorized, Action_prepared, Action_dispatched} \<and> out = Outcome_pending
        then Some (Action_verified, Outcome_failed) else None)
      else if pe_status pe = Some Action_uncertain \<and> pe_outcome pe = Some Outcome_unsure
      then (if st = Action_dispatched \<and> out = Outcome_pending then Some (Action_uncertain, Outcome_unsure) else None)
      else None)"

subsection \<open>The failure circuit\<close>

definition circuit_at :: "str \<Rightarrow> exposure_action \<Rightarrow> control_plane \<Rightarrow> circuit_row option" where
  "circuit_at inst a P = sql_lookup circuit_scope (inst, a) (pl_circuits P)"

text \<open>\<open>UPDATE \<dots> WHERE \<dots> RETURNING\<close> read with \<open>scalar_one\<close>: of exactly one row.\<close>

definition update_one :: "('r \<Rightarrow> bool) \<Rightarrow> ('r \<Rightarrow> bool) \<Rightarrow> ('r \<Rightarrow> 'r) \<Rightarrow> 'r list \<Rightarrow> 'r list option" where
  "update_one row_ok here f rows =
     (if sql_rowcount here rows = 1 then sql_update row_ok here f rows else None)"

definition update_circuit ::
  "circuit_row \<Rightarrow> (circuit_row \<Rightarrow> circuit_row) \<Rightarrow> control_plane \<Rightarrow> control_plane option" where
  "update_circuit c f P = map_option (\<lambda>cs. P\<lparr>pl_circuits := cs\<rparr>)
     (update_one circuit_ok (\<lambda>r. circuit_scope r = circuit_scope c \<and> fc_revision r = fc_revision c) f
       (pl_circuits P))"

text \<open>What the circuit of a scope, if there is one, says before the result.\<close>

definition prior_failures :: "circuit_row option \<Rightarrow> int" where
  "prior_failures circuit = (case circuit of None \<Rightarrow> 0 | Some c \<Rightarrow> fc_failures c)"

definition already_open :: "circuit_row option \<Rightarrow> bool" where
  "already_open circuit \<longleftrightarrow> (case circuit of None \<Rightarrow> False | Some c \<Rightarrow> fc_open c)"

definition failures_after :: "circuit_row option \<Rightarrow> action_outcome \<Rightarrow> int option" where
  "failures_after circuit out =
     (if out = Outcome_succeeded then Some (if already_open circuit then prior_failures circuit else 0)
      else if max_action_risk_limit \<le> prior_failures circuit then None
      else Some (prior_failures circuit + 1))"

definition opened_now :: "authorization_row \<Rightarrow> circuit_row option \<Rightarrow> action_outcome \<Rightarrow> int \<Rightarrow> bool" where
  "opened_now az circuit out failures \<longleftrightarrow>
     out = Outcome_failed \<and> \<not> already_open circuit \<and> az_threshold az \<le> failures"

definition risk_result ::
  "authorization_row \<Rightarrow> circuit_row option \<Rightarrow> action_outcome \<Rightarrow> int \<Rightarrow> instant \<Rightarrow> risk_result_row" where
  "risk_result az circuit out failures now =
     \<lparr>rz_action_id = az_action_id az, rz_installation = az_installation az, rz_action = az_action az,
      rz_outcome = out, rz_failures = failures, rz_threshold = az_threshold az,
      rz_open = (already_open circuit \<or> opened_now az circuit out failures),
      rz_handoff = opened_now az circuit out failures, rz_observed = now\<rparr>"

definition first_circuit :: "authorization_row \<Rightarrow> action_outcome \<Rightarrow> int \<Rightarrow> instant \<Rightarrow> circuit_row" where
  "first_circuit az out failures now =
     (let opened = opened_now az None out failures in
      \<lparr>fc_installation = az_installation az, fc_action = az_action az, fc_failures = failures,
       fc_open = opened, fc_revision = 1, fc_last_action = az_action_id az,
       fc_opened_by = (if opened then Some (az_action_id az) else None),
       fc_opened_at = (if opened then Some now else None), fc_created = now, fc_updated = now\<rparr>)"

definition next_circuit ::
  "authorization_row \<Rightarrow> circuit_row \<Rightarrow> action_outcome \<Rightarrow> int \<Rightarrow> instant \<Rightarrow> circuit_row \<Rightarrow> circuit_row" where
  "next_circuit az c out failures now r =
     (let opened = opened_now az (Some c) out failures in
      r\<lparr>fc_failures := failures, fc_open := fc_open c \<or> opened, fc_revision := fc_revision c + 1,
        fc_last_action := az_action_id az,
        fc_opened_by := (if opened then Some (az_action_id az) else fc_opened_by r),
        fc_opened_at := (if opened then Some now else fc_opened_at r), fc_updated := now\<rparr>)"

text \<open>The authorized final result an event brings.\<close>

definition final_result :: "pending_event \<Rightarrow> control_plane \<Rightarrow> (authorization_row \<times> action_outcome) option" where
  "final_result pe P =
     (if message_type (pe_message pe) \<notin> {M_step_completed, M_step_failed} then None
      else do {
        aid \<leftarrow> pe_action pe;
        out \<leftarrow> pe_outcome pe;
        require (out \<in> {Outcome_succeeded, Outcome_failed});
        az \<leftarrow> sql_lookup az_action_id aid (pl_authorizations P);
        Some (az, out)
      })"

definition record_risk_result :: "pending_event \<Rightarrow> control_plane \<Rightarrow> (bool \<times> control_plane) option" where
  "record_risk_result pe P = (case final_result pe P of
     None \<Rightarrow> Some (False, P)
   | Some (az, out) \<Rightarrow> (let circuit = circuit_at (az_installation az) (az_action az) P in do {
       require (sql_lookup rz_action_id (az_action_id az) (pl_results P) = None);
       require (case circuit of None \<Rightarrow> True | Some c \<Rightarrow> fc_updated c \<le> pe_received pe);
       failures \<leftarrow> failures_after circuit out;
       rs \<leftarrow> sql_insert risk_result_ok (same_key rz_action_id)
         (risk_result az circuit out failures (pe_received pe)) (pl_results P);
       P1 \<leftarrow> (case circuit of
           None \<Rightarrow> do {
             cs \<leftarrow> sql_insert circuit_ok (same_key circuit_scope)
               (first_circuit az out failures (pe_received pe)) (pl_circuits P);
             Some (P\<lparr>pl_circuits := cs\<rparr>)
           }
         | Some c \<Rightarrow> update_circuit c (next_circuit az c out failures (pe_received pe)) P);
       Some (opened_now az circuit out failures, P1\<lparr>pl_results := rs\<rparr>)
     }))"

text \<open>The circuit that a resumed task may close: its own, of its action, and open.\<close>

definition owned_circuit :: "pending_event \<Rightarrow> control_plane \<Rightarrow> circuit_row option" where
  "owned_circuit pe P =
     (let inst = installation_id (pe_message pe); task = task_id (pe_message pe) in
      if message_type (pe_message pe) \<noteq> M_task_resumed then None
      else do {
        d \<leftarrow> List.find (\<lambda>d. td_task d = task \<and> td_installation d = inst) (pl_definitions P);
        c \<leftarrow> List.find (\<lambda>c. circuit_scope c = (inst, td_action d) \<and> fc_open c) (pl_circuits P);
        opener \<leftarrow> fc_opened_by c;
        az \<leftarrow> sql_lookup az_action_id opener (pl_authorizations P);
        require (az_task az = task);
        Some c
      })"

definition closed_circuit :: "circuit_row \<Rightarrow> instant \<Rightarrow> circuit_row \<Rightarrow> circuit_row" where
  "closed_circuit c now r = r\<lparr>fc_failures := 0, fc_open := False, fc_revision := fc_revision c + 1,
     fc_opened_by := None, fc_opened_at := None, fc_updated := now\<rparr>"

definition clear_owned_circuit :: "pending_event \<Rightarrow> control_plane \<Rightarrow> control_plane option" where
  "clear_owned_circuit pe P = (case owned_circuit pe P of
     None \<Rightarrow> Some P
   | Some c \<Rightarrow> do {
       require (fc_updated c \<le> pe_received pe);
       update_circuit c (closed_circuit c (pe_received pe)) P
     })"

subsection \<open>Controls\<close>

definition pause_resume_commands :: "message_type set" where
  "pause_resume_commands = {M_task_pause, M_task_resume}"

definition termination_commands :: "message_type set" where
  "termination_commands = {M_task_cancel, M_task_emergency_stop}"

text \<open>The commands an event answers, among its family; no requirement for the other events.\<close>

definition expected_controls ::
  "message_type \<Rightarrow> task_status \<Rightarrow> (message_type set \<times> message_type set) option" where
  "expected_controls ty current =
     (if ty = M_task_cancelled \<or> (ty = M_task_outcome_uncertain \<and> current = Cancelling)
      then Some (termination_commands, termination_commands)
      else if ty = M_task_paused then Some ({M_task_pause}, pause_resume_commands)
      else if ty = M_task_resumed then Some ({M_task_resume}, pause_resume_commands)
      else None)"

fun latest_by :: "('r \<Rightarrow> int) \<Rightarrow> 'r list \<Rightarrow> 'r option" where
  "latest_by key [] = None"
| "latest_by key (r # rs) = (case latest_by key rs of
     None \<Rightarrow> Some r
   | Some m \<Rightarrow> Some (if key m < key r then r else m))"

definition latest_control :: "envelope \<Rightarrow> message_type set \<Rightarrow> control_plane \<Rightarrow> plane_command option" where
  "latest_control m family P = latest_by tc_sequence
     (filter (\<lambda>c. tc_attempt c = execution_attempt_id m \<and> tc_task c = task_id m
        \<and> tc_installation c = installation_id m \<and> tc_type c \<in> family) (pl_commands P))"

definition control_confirmed :: "pending_event \<Rightarrow> task_status \<Rightarrow> control_plane \<Rightarrow> bool" where
  "control_confirmed pe current P \<longleftrightarrow>
     (let m = pe_message pe in case expected_controls (message_type m) current of
        None \<Rightarrow> True
      | Some (expected, family) \<Rightarrow> (case latest_control m family P of
          None \<Rightarrow> False
        | Some c \<Rightarrow> tc_type c \<in> expected \<and> tc_status c = Command_acknowledged
            \<and> tc_response c = Some M_task_control_ack \<and> tc_correlation c = correlation_id m
            \<and> (case tc_acknowledged c of None \<Rightarrow> False | Some t \<Rightarrow> t \<le> pe_received pe)))"

subsection \<open>One transaction\<close>

record snapshot =
  sh_task :: str
  sh_status :: task_status
  sh_revision :: int
  sh_last_event :: int
  sh_updated :: instant

definition snapshot_of :: "task_row \<Rightarrow> snapshot" where
  "snapshot_of r = \<lparr>sh_task = tr_id r, sh_status = tr_status r, sh_revision = tr_revision r,
     sh_last_event = tr_last_event r, sh_updated = tr_updated r\<rparr>"

text \<open>
  The two lookups of a replay: nothing known (\<open>Some False\<close>), the event itself (\<open>Some True\<close>), or another
  event under one of its names (\<open>None\<close>).
\<close>

definition replay_of :: "pending_event \<Rightarrow> control_plane \<Rightarrow> bool option" where
  "replay_of pe P =
     (let m = pe_message pe; inst = installation_id m;
          by_message = List.find (\<lambda>e. te_installation e = inst \<and> te_message e = Some (message_id m)) (pl_events P);
          by_key = List.find (\<lambda>e. te_installation e = inst \<and> te_key e = idempotency_key m) (pl_events P);
          same = (\<lambda>e. case e of None \<Rightarrow> True | Some r \<Rightarrow> te_fingerprint r = pe_fingerprint pe) in
      if by_message = None \<and> by_key = None then Some False
      else if same by_message \<and> same by_key
        \<and> (case (by_message, by_key) of
             (Some a, Some b) \<Rightarrow> te_task a = te_task b \<and> te_sequence a = te_sequence b | _ \<Rightarrow> True)
      then Some True else None)"

definition moved_attempt :: "pending_event \<Rightarrow> attempt_row \<Rightarrow> attempt_status \<Rightarrow> attempt_row \<Rightarrow> attempt_row" where
  "moved_attempt pe a st r = r\<lparr>ta_status := st, ta_revision := ta_revision a + 1, ta_updated := pe_received pe,
     ta_started := (if st = Attempt_running \<and> ta_started a = None then Some (pe_received pe) else ta_started r),
     ta_finished := (if st \<in> terminal_attempt then Some (pe_received pe) else ta_finished r)\<rparr>"

definition move_attempt :: "pending_event \<Rightarrow> attempt_row \<Rightarrow> attempt_status \<Rightarrow> control_plane \<Rightarrow> control_plane option" where
  "move_attempt pe a st P =
     (if st = ta_status a then Some P
      else map_option (\<lambda>rs. P\<lparr>pl_attempts := rs\<rparr>)
        (update_one attempt_row_ok (\<lambda>r. ta_id r = ta_id a \<and> ta_revision r = ta_revision a)
          (moved_attempt pe a st) (pl_attempts P)))"

definition moved_action ::
  "pending_event \<Rightarrow> action_row \<Rightarrow> action_status \<Rightarrow> action_outcome \<Rightarrow> action_row \<Rightarrow> action_row" where
  "moved_action pe x st out r =
     (let ended = st \<in> {Action_verified, Action_uncertain} in
      r\<lparr>tx_status := st, tx_outcome := out, tx_revision := tx_revision x + 1, tx_updated := pe_received pe,
        tx_finished := (if ended then Some (pe_received pe) else tx_finished r),
        tx_evidence := (if ended then pe_evidence pe else tx_evidence r)\<rparr>)"

definition move_action ::
  "pending_event \<Rightarrow> (action_row \<times> action_status \<times> action_outcome) option \<Rightarrow> control_plane \<Rightarrow> control_plane option" where
  "move_action pe step P = (case step of
     None \<Rightarrow> Some P
   | Some (x, st, out) \<Rightarrow>
       (if (st, out) = (tx_status x, tx_outcome x) then Some P
        else map_option (\<lambda>rs. P\<lparr>pl_actions := rs\<rparr>)
          (update_one action_row_ok (\<lambda>r. tx_id r = tx_id x \<and> tx_revision r = tx_revision x)
            (moved_action pe x st out) (pl_actions P))))"

text \<open>The action an event names, with its next status.\<close>

definition action_step ::
  "pending_event \<Rightarrow> control_plane \<Rightarrow> (action_row \<times> action_status \<times> action_outcome) option option" where
  "action_step pe P = (case pe_action pe of
     None \<Rightarrow> Some None
   | Some aid \<Rightarrow> do {
       let m = pe_message pe;
       x \<leftarrow> List.find (\<lambda>r. tx_id r = aid \<and> tx_attempt r = execution_attempt_id m \<and> tx_task r = task_id m
          \<and> tx_installation r = installation_id m) (pl_actions P);
       require (tx_updated x \<le> pe_received pe);
       (st, out) \<leftarrow> validate_action x pe;
       Some (Some (x, st, out))
     })"

text \<open>The event type, the task status and the attempt status that are persisted.\<close>

definition next_statuses ::
  "pending_event \<Rightarrow> bool \<Rightarrow> task_row \<Rightarrow> attempt_row \<Rightarrow> (task_event_type \<times> task_status \<times> attempt_status) option" where
  "next_statuses pe opened t a =
     (if opened \<and> tr_status t = Running
      then (case task_transition (Some (tr_status t)) (Some Awaiting_human) of
          Inl _ \<Rightarrow> None | Inr s \<Rightarrow> Some (Ev_awaiting_human, s, Attempt_awaiting_human))
      else do {
        ts \<leftarrow> next_task_status (tr_status t) pe;
        as \<leftarrow> next_attempt_status (ta_status a) pe;
        Some (pe_type pe, ts, as)
      })"

definition event_row_of :: "pending_event \<Rightarrow> task_row \<Rightarrow> task_event_type \<Rightarrow> task_status \<Rightarrow> event_row" where
  "event_row_of pe t ty st = (let m = pe_message pe in
     \<lparr>te_task = task_id m, te_installation = installation_id m, te_sequence = sequence m, te_type = ty,
      te_revision = tr_revision t + 1, te_status = st, te_attempt = Some (execution_attempt_id m),
      te_action = pe_action pe, te_message = Some (message_id m), te_key = idempotency_key m,
      te_fingerprint = pe_fingerprint pe, te_progress = pe_progress pe, te_occurred = sent_at m,
      te_recorded = pe_received pe\<rparr>)"

definition append_event ::
  "pending_event \<Rightarrow> task_row \<Rightarrow> task_event_type \<Rightarrow> task_status \<Rightarrow> control_plane \<Rightarrow> control_plane option" where
  "append_event pe t ty st P = map_option (\<lambda>es. P\<lparr>pl_events := es\<rparr>)
     (sql_insert event_row_ok event_clash (event_row_of pe t ty st) (pl_events P))"

definition moved_task :: "pending_event \<Rightarrow> task_row \<Rightarrow> task_status \<Rightarrow> task_row" where
  "moved_task pe t st = t\<lparr>tr_status := st, tr_revision := tr_revision t + 1,
     tr_last_event := sequence (pe_message pe), tr_updated := pe_received pe\<rparr>"

definition move_task :: "pending_event \<Rightarrow> task_row \<Rightarrow> task_status \<Rightarrow> control_plane \<Rightarrow> control_plane option" where
  "move_task pe t st P = map_option (\<lambda>ts. P\<lparr>pl_tasks := ts\<rparr>)
     (update_one task_row_ok (\<lambda>r. tr_id r = tr_id t \<and> tr_installation r = tr_installation t
        \<and> tr_revision r = tr_revision t \<and> tr_last_event r = tr_last_event t)
       (\<lambda>r. moved_task pe r st) (pl_tasks P))"

text \<open>The event is new: what it changes.\<close>

definition converge_new :: "pending_event \<Rightarrow> task_row \<Rightarrow> control_plane \<Rightarrow> (snapshot \<times> control_plane) option" where
  "converge_new pe t P = do {
     let m = pe_message pe;
     require (sequence m = tr_last_event t + 1 \<and> tr_updated t \<le> pe_received pe);
     a \<leftarrow> List.find (\<lambda>r. ta_id r = execution_attempt_id m \<and> ta_task r = task_id m
        \<and> ta_installation r = installation_id m) (pl_attempts P);
     require (ta_updated a \<le> pe_received pe);
     require (control_confirmed pe (tr_status t) P);
     step \<leftarrow> action_step pe P;
     (opened, P1) \<leftarrow> record_risk_result pe P;
     (ty, ts, as) \<leftarrow> next_statuses pe opened t a;
     P2 \<leftarrow> clear_owned_circuit pe P1;
     P3 \<leftarrow> move_attempt pe a as P2;
     P4 \<leftarrow> move_action pe step P3;
     P5 \<leftarrow> append_event pe t ty ts P4;
     P6 \<leftarrow> move_task pe t ts P5;
     Some (snapshot_of (moved_task pe t ts), P6)
   }"

definition converge :: "pending_event \<Rightarrow> control_plane \<Rightarrow> (snapshot \<times> bool \<times> control_plane) option" where
  "converge pe P = do {
     let m = pe_message pe;
     require (List.find (\<lambda>r. in_id r = installation_id m) (pl_installations P) \<noteq> None);
     t \<leftarrow> List.find (\<lambda>r. tr_id r = task_id m \<and> tr_installation r = installation_id m) (pl_tasks P);
     require (tr_attempt t = Some (execution_attempt_id m));
     known \<leftarrow> replay_of pe P;
     (if known then Some (snapshot_of t, True, P)
      else do {
        (s, P') \<leftarrow> converge_new pe t P;
        Some (s, False, P')
      })
   }"

text \<open>\<open>TaskEventConvergenceService.receive\<close>; a rejected event leaves the database as it was.\<close>

definition receive_event ::
  "(envelope \<Rightarrow> bytes) \<Rightarrow> instant \<Rightarrow> envelope \<Rightarrow> control_plane \<Rightarrow> (snapshot \<times> bool) option \<times> control_plane" where
  "receive_event dg now m P = (case pending_of dg now m of
     None \<Rightarrow> (None, P)
   | Some pe \<Rightarrow> (case converge pe P of
       None \<Rightarrow> (None, P)
     | Some (s, duplicate, P') \<Rightarrow> (Some (s, duplicate), P')))"

end
