(* ===== verification/Plane_Commands.thy ===== *)
theory Plane_Commands
  imports Event_Convergence
begin

text \<open>
  The outbox of commands towards the executor
  (\<open>control_plane/infrastructure/database/task_command_repository.py\<close>): enqueueing a command or a
  control, expiring, claiming for delivery under a lease, and the answer of the executor. Each operation
  is one transaction; \<open>None\<close> is a raised exception and rolls it back.

  \<open>claim_command\<close> ends with the claimed row; the payload that is then joined to it (the search of a
  discovery, the candidate of an action) is left out.
\<close>

subsection \<open>Statements\<close>

text \<open>An \<open>UPDATE\<close> that may change a \<open>UNIQUE\<close> column.\<close>

definition update_unique ::
  "('r \<Rightarrow> bool) \<Rightarrow> ('r \<Rightarrow> 'r \<Rightarrow> bool) \<Rightarrow> ('r \<Rightarrow> bool) \<Rightarrow> ('r \<Rightarrow> 'r) \<Rightarrow> 'r list \<Rightarrow> 'r list option" where
  "update_unique row_ok clash here f rows = do {
     rs \<leftarrow> sql_update row_ok here f rows;
     require (sql_wf row_ok clash rs);
     Some rs
   }"

definition command_at :: "str \<Rightarrow> int \<Rightarrow> plane_command \<Rightarrow> bool" where
  "command_at mid revision r \<longleftrightarrow> tc_message_id r = mid \<and> tc_revision r = revision"

text \<open>One command is rewritten, its revision raised; the new row is returned.\<close>

definition rewrite_command ::
  "plane_command \<Rightarrow> (plane_command \<Rightarrow> plane_command) \<Rightarrow> control_plane \<Rightarrow> (plane_command \<times> control_plane) option" where
  "rewrite_command c f P =
     (let here = command_at (tc_message_id c) (tc_revision c);
          g = (\<lambda>r. (f r)\<lparr>tc_revision := tc_revision r + 1\<rparr>) in
      if sql_rowcount here (pl_commands P) = 1
      then map_option (\<lambda>rs. (g c, P\<lparr>pl_commands := rs\<rparr>))
        (update_unique plane_command_ok plane_command_clash here g (pl_commands P))
      else None)"

text \<open>The foreign key of a command to its attempt.\<close>

definition insert_plane_command :: "plane_command \<Rightarrow> control_plane \<Rightarrow> control_plane option" where
  "insert_plane_command c P =
     (if list_ex (\<lambda>a. ta_id a = tc_attempt c \<and> ta_task a = tc_task c \<and> ta_installation a = tc_installation c)
          (pl_attempts P)
      then map_option (\<lambda>cs. P\<lparr>pl_commands := cs\<rparr>)
        (sql_insert plane_command_ok plane_command_clash c (pl_commands P))
      else None)"

definition active_installation :: "str \<Rightarrow> control_plane \<Rightarrow> bool" where
  "active_installation inst P \<longleftrightarrow>
     (case List.find (\<lambda>r. in_id r = inst) (pl_installations P) of
        None \<Rightarrow> False | Some r \<Rightarrow> in_status r = Installation_active)"

definition task_at :: "str \<Rightarrow> str \<Rightarrow> control_plane \<Rightarrow> task_row option" where
  "task_at task inst P = List.find (\<lambda>r. tr_id r = task \<and> tr_installation r = inst) (pl_tasks P)"

definition definition_at :: "str \<Rightarrow> str \<Rightarrow> control_plane \<Rightarrow> definition_row option" where
  "definition_at task inst P = List.find (\<lambda>d. td_task d = task \<and> td_installation d = inst) (pl_definitions P)"

definition confirmation_at :: "str \<Rightarrow> str \<Rightarrow> control_plane \<Rightarrow> confirmation_row option" where
  "confirmation_at task inst P =
     List.find (\<lambda>d. cf_task d = task \<and> cf_installation d = inst) (pl_confirmations P)"

definition command_by_key :: "str \<Rightarrow> str \<Rightarrow> control_plane \<Rightarrow> plane_command option" where
  "command_by_key inst key P = List.find (\<lambda>c. tc_installation c = inst \<and> tc_key c = key) (pl_commands P)"

subsection \<open>Enqueueing a command\<close>

record new_command =
  nc_message_id :: str
  nc_correlation :: str
  nc_installation :: str
  nc_task :: str
  nc_attempt :: str
  nc_sequence :: int
  nc_type :: message_type
  nc_key :: str
  nc_deadline :: instant
  nc_created :: instant

definition new_command_ok :: "new_command \<Rightarrow> bool" where
  "new_command_ok n \<longleftrightarrow> is_canonical_uuid_v4 (nc_message_id n) \<and> is_canonical_uuid_v4 (nc_correlation n)
     \<and> sequence_ok (nc_sequence n) \<and> nc_type n \<in> inbound_types \<and> idempotency_key_ok (nc_key n)
     \<and> nc_created n < nc_deadline n"

text \<open>The confirmation, with the task and the definition it is joined to.\<close>

definition confirmed_task ::
  "str \<Rightarrow> str \<Rightarrow> control_plane \<Rightarrow> (confirmation_row \<times> task_row \<times> definition_row) option" where
  "confirmed_task task inst P = do {
     c \<leftarrow> confirmation_at task inst P;
     t \<leftarrow> task_at task inst P;
     d \<leftarrow> definition_at task inst P;
     Some (c, t, d)
   }"

definition same_command_intent :: "plane_command \<Rightarrow> new_command \<Rightarrow> str option \<Rightarrow> bool" where
  "same_command_intent c n confirmation \<longleftrightarrow> tc_installation c = nc_installation n \<and> tc_task c = nc_task n
     \<and> tc_attempt c = nc_attempt n \<and> tc_sequence c = nc_sequence n \<and> tc_type c = nc_type n
     \<and> tc_confirmation c = confirmation \<and> tc_key c = nc_key n \<and> tc_deadline c = nc_deadline n"

definition fresh_command :: "new_command \<Rightarrow> str option \<Rightarrow> int option \<Rightarrow> plane_command" where
  "fresh_command n confirmation baseline =
     \<lparr>tc_message_id = nc_message_id n, tc_correlation = nc_correlation n, tc_installation = nc_installation n,
      tc_task = nc_task n, tc_attempt = nc_attempt n, tc_sequence = nc_sequence n, tc_type = nc_type n,
      tc_confirmation = confirmation, tc_action = None, tc_baseline = baseline, tc_status = Command_pending,
      tc_key = nc_key n, tc_revision = 1, tc_deliveries = 0, tc_next_delivery = Some (nc_created n),
      tc_lease = None, tc_delivered = None, tc_acknowledged = None, tc_response_id = None, tc_response = None,
      tc_deadline = nc_deadline n, tc_created = nc_created n, tc_updated = nc_created n\<rparr>"

text \<open>The sequence of the last task event, which an offer carries.\<close>

definition command_baseline :: "new_command \<Rightarrow> control_plane \<Rightarrow> int option option" where
  "command_baseline n P =
     (if nc_type n \<noteq> M_task_offer then Some None
      else do {
        t \<leftarrow> task_at (nc_task n) (nc_installation n) P;
        require (0 \<le> tr_last_event t \<and> tr_last_event t < max_cross_runtime_sequence);
        Some (Some (tr_last_event t))
      })"

definition confirmation_current :: "confirmation_row \<times> task_row \<times> definition_row \<Rightarrow> bool" where
  "confirmation_current j \<longleftrightarrow> (case j of (c, t, d) \<Rightarrow> tr_status t = Queued \<and> tr_revision t = cf_revision c
     \<and> cf_action c = td_action d \<and> cf_template c = td_template d)"

definition enqueue_command :: "new_command \<Rightarrow> control_plane \<Rightarrow> (plane_command \<times> control_plane) option" where
  "enqueue_command n P =
     (let inst = nc_installation n; task = nc_task n;
          confirmed = (nc_type n = M_task_offer \<and> definition_at task inst P \<noteq> None);
          joined = (if confirmed then confirmed_task task inst P else None);
          confirmation = map_option (\<lambda>(c, _). cf_message c) joined in do {
        require (new_command_ok n \<and> active_installation inst P);
        baseline \<leftarrow> command_baseline n P;
        (case command_by_key inst (nc_key n) P of
           Some c \<Rightarrow> (if same_command_intent c n confirmation then Some (c, P) else None)
         | None \<Rightarrow> do {
             require (confirmed \<longrightarrow> (case joined of None \<Rightarrow> False | Some j \<Rightarrow> confirmation_current j));
             require (inst \<notin> set (pl_gates P));
             let c = fresh_command n confirmation baseline;
             P' \<leftarrow> insert_plane_command c P;
             Some (c, P')
           })
      })"

subsection \<open>Enqueueing a control\<close>

record new_control =
  nk_message_id :: str
  nk_correlation :: str
  nk_installation :: str
  nk_task :: str
  nk_type :: message_type
  nk_key :: str
  nk_deadline :: instant
  nk_created :: instant

definition new_control_ok :: "new_control \<Rightarrow> bool" where
  "new_control_ok k \<longleftrightarrow> is_canonical_uuid_v4 (nk_message_id k) \<and> is_canonical_uuid_v4 (nk_correlation k)
     \<and> nk_type k \<in> control_types \<and> idempotency_key_ok (nk_key k) \<and> nk_created k < nk_deadline k"

definition cancellable_attempt :: "attempt_status set" where
  "cancellable_attempt = {Attempt_pending, Attempt_offered, Attempt_accepted, Attempt_running, Attempt_paused,
     Attempt_awaiting_human}"

text \<open>May the control be given to a task and an attempt in this state?\<close>

definition control_admitted :: "new_control \<Rightarrow> task_row \<Rightarrow> attempt_row \<Rightarrow> bool" where
  "control_admitted k t a \<longleftrightarrow>
     (if nk_type k \<in> termination_commands
      then can_transition (Some (tr_status t)) (Some Cancelling) \<and> ta_status a \<in> cancellable_attempt
        \<and> tr_updated t \<le> nk_created k \<and> ta_updated a \<le> nk_created k
      else if nk_type k = M_task_pause then tr_status t = Running \<and> ta_status a = Attempt_running
      else tr_status t = task_status.Paused \<and> ta_status a = Attempt_paused)"

definition last_command_sequence :: "str \<Rightarrow> new_control \<Rightarrow> control_plane \<Rightarrow> int" where
  "last_command_sequence aid k P = foldr max (map tc_sequence (filter (\<lambda>c. tc_attempt c = aid
     \<and> tc_task c = nk_task k \<and> tc_installation c = nk_installation k) (pl_commands P))) 0"

definition control_command :: "new_control \<Rightarrow> str \<Rightarrow> int \<Rightarrow> plane_command" where
  "control_command k aid n = fresh_command
     \<lparr>nc_message_id = nk_message_id k, nc_correlation = nk_correlation k, nc_installation = nk_installation k,
      nc_task = nk_task k, nc_attempt = aid, nc_sequence = n, nc_type = nk_type k, nc_key = nk_key k,
      nc_deadline = nk_deadline k, nc_created = nk_created k\<rparr> None None"

text \<open>The first termination moves the task and its attempt to cancelling.\<close>

definition start_cancelling :: "new_control \<Rightarrow> task_row \<Rightarrow> attempt_row \<Rightarrow> control_plane \<Rightarrow> control_plane option" where
  "start_cancelling k t a P = do {
     ts \<leftarrow> update_one task_row_ok (\<lambda>r. tr_id r = tr_id t \<and> tr_installation r = tr_installation t
         \<and> tr_revision r = tr_revision t \<and> tr_status r = tr_status t)
       (\<lambda>r. r\<lparr>tr_status := Cancelling, tr_revision := tr_revision r + 1, tr_updated := nk_created k\<rparr>) (pl_tasks P);
     as \<leftarrow> update_one attempt_row_ok (\<lambda>r. ta_id r = ta_id a \<and> ta_revision r = ta_revision a
         \<and> ta_status r = ta_status a)
       (\<lambda>r. r\<lparr>ta_status := Attempt_cancelling, ta_revision := ta_revision r + 1, ta_updated := nk_created k\<rparr>)
       (pl_attempts P);
     Some (P\<lparr>pl_tasks := ts, pl_attempts := as\<rparr>)
   }"

definition enqueue_control :: "new_control \<Rightarrow> control_plane \<Rightarrow> (plane_command \<times> bool \<times> control_plane) option" where
  "enqueue_control k P =
     (let inst = nk_installation k in do {
        require (new_control_ok k \<and> active_installation inst P);
        (case command_by_key inst (nk_key k) P of
           Some c \<Rightarrow> (if tc_task c = nk_task k \<and> tc_type c = nk_type k then Some (c, False, P) else None)
         | None \<Rightarrow> do {
             t \<leftarrow> task_at (nk_task k) inst P;
             aid \<leftarrow> tr_attempt t;
             a \<leftarrow> List.find (\<lambda>r. ta_id r = aid \<and> ta_task r = nk_task k \<and> ta_installation r = inst) (pl_attempts P);
             require (control_admitted k t a);
             let last = last_command_sequence aid k P;
             require (last < 2 ^ 53 - 1);
             let c = control_command k aid (last + 1);
             P1 \<leftarrow> insert_plane_command c P;
             P2 \<leftarrow> (if nk_type k \<in> termination_commands then start_cancelling k t a P1 else Some P1);
             Some (c, True, P2)
           })
      })"

subsection \<open>Delivery\<close>

definition silenced :: "command_status \<Rightarrow> instant \<Rightarrow> plane_command \<Rightarrow> plane_command" where
  "silenced st now r = r\<lparr>tc_status := st, tc_next_delivery := None, tc_lease := None, tc_acknowledged := None,
     tc_response_id := None, tc_response := None, tc_updated := now\<rparr>"

definition expire_due :: "str \<Rightarrow> instant \<Rightarrow> control_plane \<Rightarrow> (int \<times> control_plane) option" where
  "expire_due inst now P =
     (let here = (\<lambda>r. tc_installation r = inst \<and> tc_status r \<in> {Command_pending, Command_in_flight, Command_delivered}
        \<and> tc_deadline r \<le> now \<and> tc_updated r \<le> now) in
      map_option (\<lambda>rs. (sql_rowcount here (pl_commands P), P\<lparr>pl_commands := rs\<rparr>))
        (sql_update plane_command_ok here
          (\<lambda>r. (silenced Command_expired now r)\<lparr>tc_revision := tc_revision r + 1\<rparr>) (pl_commands P)))"

definition delivery_due :: "instant \<Rightarrow> instant \<Rightarrow> bool \<Rightarrow> plane_command \<Rightarrow> bool" where
  "delivery_due now retry_before recover r \<longleftrightarrow> (case tc_status r of
     Command_pending \<Rightarrow> (case tc_next_delivery r of None \<Rightarrow> False | Some t \<Rightarrow> t \<le> now)
   | Command_in_flight \<Rightarrow> (case tc_lease r of None \<Rightarrow> False | Some t \<Rightarrow> t \<le> now)
   | Command_delivered \<Rightarrow> (case tc_delivered r of None \<Rightarrow> False
       | Some t \<Rightarrow> if recover then t < retry_before else t \<le> retry_before)
   | _ \<Rightarrow> False)"

text \<open>An offer or an action leaves only with the confirmation it was made for.\<close>

definition release_allowed :: "control_plane \<Rightarrow> plane_command \<Rightarrow> bool" where
  "release_allowed P r \<longleftrightarrow> tc_type r \<notin> {M_task_offer, M_action_execute}
     \<or> (tc_confirmation r = None \<and> definition_at (tc_task r) (tc_installation r) P = None)
     \<or> (case (tc_confirmation r, confirmed_task (tc_task r) (tc_installation r) P) of
          (Some m, Some (c, t, d)) \<Rightarrow> cf_message c = m \<and> tr_status t \<in> {Queued, Running}
            \<and> cf_revision c \<le> tr_revision t \<and> cf_action c = td_action d \<and> cf_template c = td_template d
        | _ \<Rightarrow> False)"

text \<open>\<open>ORDER BY deadline_at, created_at, message_id LIMIT 1\<close>.\<close>

definition delivered_before :: "plane_command \<Rightarrow> plane_command \<Rightarrow> bool" where
  "delivered_before a b \<longleftrightarrow> tc_deadline a < tc_deadline b
     \<or> (tc_deadline a = tc_deadline b \<and> (tc_created a < tc_created b
        \<or> (tc_created a = tc_created b
           \<and> lexordp (<) (map of_char (tc_message_id a) :: nat list) (map of_char (tc_message_id b)))))"

fun first_command :: "plane_command list \<Rightarrow> plane_command option" where
  "first_command [] = None"
| "first_command (r # rs) = (case first_command rs of
     None \<Rightarrow> Some r | Some m \<Rightarrow> Some (if delivered_before m r then m else r))"

definition claimable :: "str \<Rightarrow> instant \<Rightarrow> instant \<Rightarrow> bool \<Rightarrow> control_plane \<Rightarrow> plane_command \<Rightarrow> bool" where
  "claimable inst now retry_before recover P r \<longleftrightarrow> tc_installation r = inst \<and> now < tc_deadline r
     \<and> tc_updated r \<le> now \<and> delivery_due now retry_before recover r \<and> release_allowed P r
     \<and> (inst \<in> set (pl_gates P) \<longrightarrow> tc_type r \<in> termination_commands)"

definition leased_command :: "instant \<Rightarrow> instant \<Rightarrow> plane_command \<Rightarrow> plane_command" where
  "leased_command now lease r = (silenced Command_in_flight now r)\<lparr>tc_deliveries := tc_deliveries r + 1,
     tc_lease := Some (min lease (tc_deadline r)), tc_delivered := None\<rparr>"

text \<open>The outer option is an exception, the inner one a claim of nothing.\<close>

definition claim_command ::
  "str \<Rightarrow> instant \<Rightarrow> instant \<Rightarrow> instant \<Rightarrow> bool \<Rightarrow> control_plane \<Rightarrow> (plane_command option \<times> control_plane) option" where
  "claim_command inst now lease retry_before recover P =
     (if lease \<le> now then None
      else if \<not> active_installation inst P then Some (None, P)
      else (case first_command (filter (claimable inst now retry_before recover P) (pl_commands P)) of
          None \<Rightarrow> Some (None, P)
        | Some c \<Rightarrow> map_option (\<lambda>(r, P'). (Some r, P')) (rewrite_command c (leased_command now lease) P)))"

definition mark_command_delivered ::
  "str \<Rightarrow> int \<Rightarrow> instant \<Rightarrow> control_plane \<Rightarrow> (plane_command \<times> control_plane) option" where
  "mark_command_delivered mid revision now P = do {
     c \<leftarrow> List.find (\<lambda>r. command_at mid revision r \<and> tc_status r = Command_in_flight \<and> tc_updated r \<le> now
        \<and> now < tc_deadline r) (pl_commands P);
     rewrite_command c (\<lambda>r. r\<lparr>tc_status := Command_delivered, tc_lease := None, tc_delivered := Some now,
       tc_updated := now\<rparr>) P
   }"

definition release_for_retry ::
  "str \<Rightarrow> int \<Rightarrow> instant \<Rightarrow> instant \<Rightarrow> control_plane \<Rightarrow> (plane_command \<times> control_plane) option" where
  "release_for_retry mid revision now retry P = do {
     require (now \<le> retry);
     c \<leftarrow> List.find (\<lambda>r. command_at mid revision r \<and> tc_status r = Command_in_flight) (pl_commands P);
     require (tc_updated c \<le> now);
     let expired = (tc_deadline c \<le> now \<or> tc_deadline c \<le> retry);
     rewrite_command c (\<lambda>r. (silenced (if expired then Command_expired else Command_pending) now r)
       \<lparr>tc_next_delivery := (if expired then None else Some retry), tc_delivered := None\<rparr>) P
   }"

subsection \<open>The answer of the executor\<close>

definition response_payload_ok :: "envelope \<Rightarrow> bool" where
  "response_payload_ok m \<longleftrightarrow> payload_eq (payload m)
     (if message_type m \<in> {M_task_accept, M_action_accept} then P_object [(''accepted'', JBool True)]
      else if message_type m \<in> {M_task_reject, M_action_reject} then P_object [(''accepted'', JBool False)]
      else P_object [(''acknowledged'', JBool True)])"

definition response_matches :: "message_type \<Rightarrow> message_type \<Rightarrow> bool" where
  "response_matches command response \<longleftrightarrow>
     (if command \<in> {M_task_offer, M_task_discover} then response \<in> {M_task_accept, M_task_reject}
      else if command = M_action_execute then response \<in> {M_action_accept, M_action_reject}
      else response = M_task_control_ack)"

definition acknowledge_command :: "envelope \<Rightarrow> instant \<Rightarrow> control_plane \<Rightarrow> (plane_command \<times> control_plane) option" where
  "acknowledge_command m now P = do {
     require (message_type m \<in> result_types \<and> response_payload_ok m);
     c \<leftarrow> List.find (\<lambda>r. tc_installation r = installation_id m \<and> tc_task r = task_id m
        \<and> tc_attempt r = execution_attempt_id m \<and> tc_correlation r = correlation_id m
        \<and> tc_sequence r = sequence m) (pl_commands P);
     require (response_matches (tc_type c) (message_type m));
     (case tc_status c of
        Command_acknowledged \<Rightarrow> (if tc_response c = Some (message_type m) then Some (c, P) else None)
      | Command_rejected \<Rightarrow> (if tc_response c = Some (message_type m) then Some (c, P) else None)
      | Command_expired \<Rightarrow> Some (c, P)
      | Command_delivered \<Rightarrow>
          (if tc_deadline c < now then rewrite_command c (silenced Command_expired now) P
           else rewrite_command c (\<lambda>r. r\<lparr>tc_status := (if message_type m \<in> {M_task_reject, M_action_reject}
                then Command_rejected else Command_acknowledged), tc_acknowledged := Some now,
               tc_response_id := Some (message_id m), tc_response := Some (message_type m), tc_updated := now\<rparr>) P)
      | _ \<Rightarrow> None)
   }"

end
