(* ===== verification/Plane_Authorization.thy ===== *)
theory Plane_Authorization
  imports Plane_Commands
begin

text \<open>
  The authorization of an action
  (\<open>control_plane/infrastructure/database/action_risk_authorization_repository.py\<close>, with the policy of
  \<open>domain/action_risk_policy.py\<close> and the confirmed intent of \<open>application/task_target_previews.py\<close>): one
  transaction that checks the circuit, the task, the session, the confirmation of the targets and the
  limits, and writes the action with its authorization. SHA-256 is the parameter \<open>sha\<close>.
\<close>

record risk_policy =
  po_installation :: str
  po_action :: exposure_action
  po_interval :: int
  po_task_limit :: int
  po_daily_limit :: int
  po_threshold :: int

definition risk_policy_ok :: "risk_policy \<Rightarrow> bool" where
  "risk_policy_ok p \<longleftrightarrow> 1 \<le> po_interval p \<and> po_interval p \<le> max_task_interval_seconds
     \<and> 1 \<le> po_task_limit p \<and> po_task_limit p \<le> int max_task_target_limit
     \<and> limit_ok (po_daily_limit p) \<and> limit_ok (po_threshold p)"

subsection \<open>The confirmed intent\<close>

record confirmed_intent =
  nt_installation :: str
  nt_task :: str
  nt_page :: int
  nt_selection :: int
  nt_action :: exposure_action
  nt_template :: "str option"
  nt_targets :: "str list"

definition template_present :: "exposure_action \<Rightarrow> str option \<Rightarrow> bool" where
  "template_present a t \<longleftrightarrow> (case t of None \<Rightarrow> a = Browse | Some s \<Rightarrow> a \<noteq> Browse \<and> message_template s \<noteq> None)"

definition intent_ok :: "confirmed_intent \<Rightarrow> bool" where
  "intent_ok it \<longleftrightarrow> sequence_ok (nt_page it) \<and> sequence_ok (nt_selection it)
     \<and> template_present (nt_action it) (nt_template it)
     \<and> 1 \<le> length (nt_targets it) \<and> length (nt_targets it) \<le> max_task_target_limit \<and> distinct (nt_targets it)"

fun decimal :: "nat \<Rightarrow> str" where
  "decimal n = (if n < 10 then [''0123456789'' ! n] else decimal (n div 10) @ [''0123456789'' ! (n mod 10)])"

fun comma_separated :: "str list \<Rightarrow> str" where
  "comma_separated [] = []"
| "comma_separated [s] = s"
| "comma_separated (s # t # ss) = s @ '','' @ comma_separated (t # ss)"

definition json_field :: "str \<Rightarrow> str \<Rightarrow> str" where
  "json_field k v = json_quote k @ '':'' @ v"

text \<open>The canonical text of the intent; its revisions are positive.\<close>

definition intent_text :: "confirmed_intent \<Rightarrow> str" where
  "intent_text it = ''{'' @ comma_separated [
     json_field ''action'' (json_quote (action_name (nt_action it))),
     json_field ''confirmationRevision'' (decimal (nat (nt_selection it))),
     json_field ''installationId'' (json_quote (nt_installation it)),
     json_field ''messageTemplate'' (case nt_template it of None \<Rightarrow> ''null'' | Some s \<Rightarrow> json_quote s),
     json_field ''pageRevision'' (decimal (nat (nt_page it))),
     json_field ''selectedTargetIds'' (''['' @ comma_separated (map json_quote (nt_targets it)) @ '']''),
     json_field ''taskId'' (json_quote (nt_task it)),
     json_field ''version'' (json_quote ''task-target-confirmation-intent.v1'')] @ ''}''"

definition intent_fingerprint :: "(bytes \<Rightarrow> bytes) \<Rightarrow> confirmed_intent \<Rightarrow> bytes" where
  "intent_fingerprint sha it = sha (encode_ascii (intent_text it))"

subsection \<open>The targets\<close>

definition target_before :: "target_row \<Rightarrow> target_row \<Rightarrow> bool" where
  "target_before a b \<longleftrightarrow> tg_ordinal a < tg_ordinal b
     \<or> (tg_ordinal a = tg_ordinal b
        \<and> lexordp (<) (map of_char (tg_id a) :: nat list) (map of_char (tg_id b)))"

fun insert_target :: "target_row \<Rightarrow> target_row list \<Rightarrow> target_row list" where
  "insert_target t [] = [t]"
| "insert_target t (u # us) = (if target_before u t then u # insert_target t us else t # u # us)"

text \<open>\<open>ORDER BY ordinal, id\<close>.\<close>

fun sort_targets :: "target_row list \<Rightarrow> target_row list" where
  "sort_targets [] = []"
| "sort_targets (t # ts) = insert_target t (sort_targets ts)"

definition excluded_on_page :: "control_plane \<Rightarrow> target_row \<Rightarrow> bool" where
  "excluded_on_page P t \<longleftrightarrow> list_ex (\<lambda>x. xc_target x = tg_id t \<and> xc_task x = tg_task t
     \<and> xc_installation x = tg_installation t \<and> xc_page x = tg_page t) (pl_exclusions P)"

definition selected_targets :: "str \<Rightarrow> str \<Rightarrow> int \<Rightarrow> control_plane \<Rightarrow> str list" where
  "selected_targets task inst page P = map tg_id (sort_targets (filter (\<lambda>t. tg_task t = task
     \<and> tg_installation t = inst \<and> tg_page t = page \<and> tg_disposition t = Eligible \<and> \<not> excluded_on_page P t)
     (pl_targets P)))"

definition user_excluded :: "str \<Rightarrow> str \<Rightarrow> str \<Rightarrow> control_plane \<Rightarrow> bool" where
  "user_excluded target task inst P \<longleftrightarrow> list_ex (\<lambda>x. xc_target x = target \<and> xc_task x = task
     \<and> xc_installation x = inst) (pl_exclusions P)"

subsection \<open>Requests\<close>

record authorization_request =
  aq_action_id :: str
  aq_target :: str
  aq_attempt :: str
  aq_task :: str
  aq_installation :: str
  aq_policy :: risk_policy
  aq_time :: instant

datatype risk_limit = Risk_minimum_interval | Risk_task_limit | Risk_daily_limit | Risk_circuit

datatype authorization_answer =
    Authorization_rejected
  | Authorization_limited risk_limit
  | Authorized authorization_row

definition same_authorization_intent :: "authorization_row \<Rightarrow> authorization_request \<Rightarrow> bool" where
  "same_authorization_intent r q \<longleftrightarrow> az_action_id r = aq_action_id q \<and> az_target r = aq_target q
     \<and> az_attempt r = aq_attempt q \<and> az_task r = aq_task q \<and> az_installation r = aq_installation q
     \<and> az_action r = po_action (aq_policy q)"

text \<open>The task is running its current attempt, which is running too.\<close>

definition attempt_running :: "authorization_request \<Rightarrow> task_row option \<Rightarrow> attempt_row option \<Rightarrow> bool" where
  "attempt_running q t a \<longleftrightarrow> (case (t, a) of
     (Some t, Some a) \<Rightarrow> tr_status t = Running \<and> tr_attempt t = Some (aq_attempt q)
       \<and> ta_status a = Attempt_running \<and> tr_updated t \<le> aq_time q \<and> ta_updated a \<le> aq_time q
   | _ \<Rightarrow> False)"

definition intent_of_confirmation ::
  "authorization_request \<Rightarrow> confirmation_row \<Rightarrow> definition_row \<Rightarrow> control_plane \<Rightarrow> confirmed_intent" where
  "intent_of_confirmation q c d P =
     \<lparr>nt_installation = aq_installation q, nt_task = aq_task q, nt_page = cf_page c, nt_selection = cf_selection c,
      nt_action = po_action (aq_policy q), nt_template = td_template d,
      nt_targets = selected_targets (aq_task q) (aq_installation q) (cf_page c) P\<rparr>"

definition target_confirmed ::
  "(bytes \<Rightarrow> bytes) \<Rightarrow> authorization_request \<Rightarrow> task_row \<Rightarrow> confirmation_row \<Rightarrow> definition_row \<Rightarrow> target_row \<Rightarrow>
   control_plane \<Rightarrow> bool" where
  "target_confirmed sha q t c d g P \<longleftrightarrow> (let it = intent_of_confirmation q c d P in
     intent_ok it \<and> tg_page g = cf_page c \<and> tg_disposition g = Eligible
     \<and> \<not> user_excluded (aq_target q) (aq_task q) (aq_installation q) P
     \<and> cf_action c = nt_action it \<and> cf_template c = nt_template it
     \<and> cf_fingerprint c = intent_fingerprint sha it \<and> cf_count c = int (length (nt_targets it))
     \<and> cf_revision c \<le> tr_revision t \<and> cf_confirmed c \<le> aq_time q)"

definition scope_authorizations :: "authorization_request \<Rightarrow> control_plane \<Rightarrow> authorization_row list" where
  "scope_authorizations q P = filter (\<lambda>r. az_installation r = aq_installation q
     \<and> az_action r = po_action (aq_policy q)) (pl_authorizations P)"

definition task_authorizations :: "authorization_request \<Rightarrow> control_plane \<Rightarrow> authorization_row list" where
  "task_authorizations q P = filter (\<lambda>r. az_task r = aq_task q
     \<and> az_action r = po_action (aq_policy q)) (pl_authorizations P)"

definition daily_authorizations :: "authorization_request \<Rightarrow> control_plane \<Rightarrow> authorization_row list" where
  "daily_authorizations q P = filter (\<lambda>r. az_day r = utc_day (aq_time q)) (scope_authorizations q P)"

definition effective_interval :: "authorization_request \<Rightarrow> definition_row \<Rightarrow> int" where
  "effective_interval q d = max (po_interval (aq_policy q)) (td_interval d)"

text \<open>The newest authorization of the scope: too late for it (\<open>None\<close>), too soon after it, or neither.\<close>

definition newest_authorization :: "authorization_request \<Rightarrow> control_plane \<Rightarrow> instant option" where
  "newest_authorization q P = (case map az_authorized (scope_authorizations q P) of
     [] \<Rightarrow> None | t # ts \<Rightarrow> Some (foldr max ts t))"

definition limit_reached :: "authorization_request \<Rightarrow> definition_row \<Rightarrow> control_plane \<Rightarrow> authorization_answer option" where
  "limit_reached q d P =
     (if po_task_limit (aq_policy q) \<le> int (length (task_authorizations q P))
      then Some (Authorization_limited Risk_task_limit)
      else if po_daily_limit (aq_policy q) \<le> int (length (daily_authorizations q P))
      then Some (Authorization_limited Risk_daily_limit)
      else (case newest_authorization q P of
          None \<Rightarrow> None
        | Some previous \<Rightarrow>
            (if aq_time q < previous then Some Authorization_rejected
             else if aq_time q < previous + seconds (effective_interval q d)
             then Some (Authorization_limited Risk_minimum_interval)
             else None)))"

definition new_authorization ::
  "authorization_request \<Rightarrow> definition_row \<Rightarrow> target_row \<Rightarrow> control_plane \<Rightarrow> authorization_row" where
  "new_authorization q d g P =
     \<lparr>az_action_id = aq_action_id q, az_target = aq_target q, az_attempt = aq_attempt q, az_task = aq_task q,
      az_installation = aq_installation q, az_ordinal = tg_ordinal g, az_action = po_action (aq_policy q),
      az_interval = effective_interval q d, az_task_limit = po_task_limit (aq_policy q),
      az_daily_limit = po_daily_limit (aq_policy q), az_threshold = po_threshold (aq_policy q),
      az_task_count = int (length (task_authorizations q P)) + 1,
      az_daily_count = int (length (daily_authorizations q P)) + 1, az_day = utc_day (aq_time q),
      az_authorized = aq_time q\<rparr>"

definition authorized_action :: "authorization_request \<Rightarrow> target_row \<Rightarrow> action_row" where
  "authorized_action q g =
     \<lparr>tx_id = aq_action_id q, tx_attempt = aq_attempt q, tx_task = aq_task q, tx_installation = aq_installation q,
      tx_ordinal = tg_ordinal g, tx_status = Action_authorized, tx_outcome = Outcome_pending, tx_evidence = None,
      tx_revision = 1, tx_created = aq_time q, tx_updated = aq_time q, tx_finished = None\<rparr>"

text \<open>What the constructor of the authorization asks beyond the constraints of its row.\<close>

definition authorization_record_ok :: "authorization_row \<Rightarrow> bool" where
  "authorization_record_ok r \<longleftrightarrow> 1 \<le> az_ordinal r \<and> az_ordinal r \<le> int max_task_target_limit"

definition write_authorization ::
  "authorization_request \<Rightarrow> definition_row \<Rightarrow> target_row \<Rightarrow> control_plane \<Rightarrow> authorization_answer \<times> control_plane" where
  "write_authorization q d g P =
     (case (sql_insert action_row_ok action_clash (authorized_action q g) (pl_actions P),
            sql_insert authorization_ok authorization_clash (new_authorization q d g P) (pl_authorizations P)) of
        (Some xs, Some zs) \<Rightarrow>
          (if authorization_record_ok (new_authorization q d g P)
           then (Authorized (new_authorization q d g P), P\<lparr>pl_actions := xs, pl_authorizations := zs\<rparr>)
           else (Authorization_rejected, P))
      | _ \<Rightarrow> (Authorization_rejected, P))"

definition authorize_new ::
  "(bytes \<Rightarrow> bytes) \<Rightarrow> authorization_request \<Rightarrow> control_plane \<Rightarrow> authorization_answer \<times> control_plane" where
  "authorize_new sha q P =
     (let task = aq_task q; inst = aq_installation q; t = task_at task inst P;
          a = List.find (\<lambda>r. ta_id r = aq_attempt q \<and> ta_task r = task \<and> ta_installation r = inst) (pl_attempts P);
          g = List.find (\<lambda>r. tg_id r = aq_target q \<and> tg_task r = task \<and> tg_installation r = inst) (pl_targets P) in
      if (case circuit_at inst (po_action (aq_policy q)) P of None \<Rightarrow> False | Some c \<Rightarrow> fc_open c)
      then (Authorization_limited Risk_circuit, P)
      else if \<not> attempt_running q t a then (Authorization_rejected, P)
      else (case (definition_at task inst P, confirmation_at task inst P, t, g) of
          (Some d, Some c, Some t, Some g) \<Rightarrow>
            (if td_action d \<noteq> po_action (aq_policy q) \<or> inst \<notin> set (pl_healthy P) \<or> inst \<in> set (pl_gates P)
               \<or> \<not> target_confirmed sha q t c d g P
             then (Authorization_rejected, P)
             else (case limit_reached q d P of
                 Some answer \<Rightarrow> (answer, P)
               | None \<Rightarrow> write_authorization q d g P))
        | _ \<Rightarrow> (Authorization_rejected, P)))"

definition authorize ::
  "(bytes \<Rightarrow> bytes) \<Rightarrow> authorization_request \<Rightarrow> control_plane \<Rightarrow> authorization_answer \<times> control_plane" where
  "authorize sha q P =
     (if \<not> risk_policy_ok (aq_policy q) \<or> po_installation (aq_policy q) \<noteq> aq_installation q
        \<or> \<not> active_installation (aq_installation q) P then (Authorization_rejected, P)
      else (case sql_lookup az_action_id (aq_action_id q) (pl_authorizations P) of
          Some r \<Rightarrow> ((if same_authorization_intent r q then Authorized r else Authorization_rejected), P)
        | None \<Rightarrow> authorize_new sha q P))"

end
