(* ===== verification/Plane_Facts.thy ===== *)
theory Plane_Facts
  imports Plane_Commands
begin

text \<open>
  What the operations of the Control Plane change: inversion of a successful transaction, the frame of
  each of its parts, and the preservation of the constraints.
\<close>

subsection \<open>Statements\<close>

lemma guarded_Some:
  "(if b then x else None) = Some y \<longleftrightarrow> b \<and> x = Some y" "(if b then None else x) = Some y \<longleftrightarrow> \<not> b \<and> x = Some y"
  by simp_all

lemmas transaction = bind_eq_Some_conv guarded_Some Let_def

lemma update_one_Some:
  "update_one row_ok here f rows = Some rows' \<longleftrightarrow> sql_rowcount here rows = 1
     \<and> rows' = map (\<lambda>r. if here r then f r else r) rows \<and> (\<forall>r \<in> set rows. here r \<longrightarrow> row_ok (f r))"
  by (auto simp: update_one_def sql_update_Some)

lemma update_one_wf:
  assumes "sql_wf row_ok (same_key key) rows" "update_one row_ok here f rows = Some rows'" "\<And>r. key (f r) = key r"
  shows "sql_wf row_ok (same_key key) rows'"
proof -
  have "sql_update row_ok here f rows = Some rows'" using assms(2) by (simp add: update_one_def split: if_splits)
  then show ?thesis by (rule sql_wf_update [OF assms(1)]) (simp_all add: assms(3))
qed

lemma update_unique_Some:
  "update_unique row_ok clash here f rows = Some rows' \<longleftrightarrow>
     sql_update row_ok here f rows = Some rows' \<and> sql_wf row_ok clash rows'"
  by (auto simp: update_unique_def bind_eq_Some_conv)

context keyed_table
begin

text \<open>An update by key and conditions the row meets rewrites that row.\<close>

lemma map_at_key:
  assumes "sql_wf row_ok clash rows" "r \<in> set rows" "Q r"
  shows "map (\<lambda>x. if key x = key r \<and> Q x then f x else x) rows = map (\<lambda>x. if key x = key r then f r else x) rows"
proof (rule map_cong [OF refl])
  fix x assume "x \<in> set rows"
  then show "(if key x = key r \<and> Q x then f x else x) = (if key x = key r then f r else x)"
    using key_inj [OF assms(1) _ assms(2)] assms(3) by auto
qed

end

lemma find_Some_mem: "List.find Q rows = Some r \<Longrightarrow> r \<in> set rows \<and> Q r"
  using find_Some_set by fastforce

subsection \<open>Parts of a convergence\<close>

lemma update_circuit_frame: "update_circuit c f P = Some P' \<Longrightarrow> \<exists>C. P' = P\<lparr>pl_circuits := C\<rparr>"
  by (auto simp: update_circuit_def)

definition circuits_after ::
  "authorization_row \<Rightarrow> circuit_row option \<Rightarrow> action_outcome \<Rightarrow> int \<Rightarrow> instant \<Rightarrow> circuit_row list \<Rightarrow> circuit_row list \<Rightarrow> bool" where
  "circuits_after az circuit out n now rows rows' \<longleftrightarrow> (case circuit of
     None \<Rightarrow> sql_insert circuit_ok (same_key circuit_scope) (first_circuit az out n now) rows = Some rows'
   | Some c \<Rightarrow> update_one circuit_ok (\<lambda>r. circuit_scope r = circuit_scope c \<and> fc_revision r = fc_revision c)
       (next_circuit az c out n now) rows = Some rows')"

lemma record_Some:
  assumes "record_risk_result pe P = Some (opened, P')" and "final_result pe P = Some (az, out)"
  shows "\<exists>n R C. sql_lookup rz_action_id (az_action_id az) (pl_results P) = None
    \<and> opt_ok (\<lambda>c. fc_updated c \<le> pe_received pe) (circuit_at (az_installation az) (az_action az) P)
    \<and> failures_after (circuit_at (az_installation az) (az_action az) P) out = Some n
    \<and> sql_insert risk_result_ok (same_key rz_action_id)
        (risk_result az (circuit_at (az_installation az) (az_action az) P) out n (pe_received pe)) (pl_results P) = Some R
    \<and> circuits_after az (circuit_at (az_installation az) (az_action az) P) out n (pe_received pe) (pl_circuits P) C
    \<and> opened = opened_now az (circuit_at (az_installation az) (az_action az) P) out n
    \<and> P' = P\<lparr>pl_circuits := C, pl_results := R\<rparr>"
proof (cases "circuit_at (az_installation az) (az_action az) P")
  case None
  then show ?thesis using assms
    by (auto simp: record_risk_result_def Let_def bind_eq_Some_conv circuits_after_def opt_ok_def split: if_splits)
next
  case (Some c)
  then show ?thesis using assms
    by (auto simp: record_risk_result_def Let_def bind_eq_Some_conv circuits_after_def opt_ok_def update_circuit_def
        split: if_splits)
qed

lemma record_None:
  "record_risk_result pe P = Some (opened, P') \<Longrightarrow> final_result pe P = None \<Longrightarrow> \<not> opened \<and> P' = P"
  by (simp add: record_risk_result_def)

lemma record_frame:
  assumes "record_risk_result pe P = Some (opened, P')"
  shows "\<exists>C R. P' = P\<lparr>pl_circuits := C, pl_results := R\<rparr>"
proof (cases "final_result pe P")
  case None
  have "P = P\<lparr>pl_circuits := pl_circuits P, pl_results := pl_results P\<rparr>" by simp
  then show ?thesis using record_None [OF assms None] by metis
next
  case (Some r)
  then obtain az out where "final_result pe P = Some (az, out)" by (cases r) auto
  then show ?thesis using record_Some [OF assms] by blast
qed

lemma clear_frame: "clear_owned_circuit pe P = Some P' \<Longrightarrow> \<exists>C. P' = P\<lparr>pl_circuits := C\<rparr>"
proof (cases "owned_circuit pe P")
  case None
  moreover assume "clear_owned_circuit pe P = Some P'"
  ultimately have "P' = P\<lparr>pl_circuits := pl_circuits P\<rparr>" by (simp add: clear_owned_circuit_def)
  then show ?thesis by blast
next
  case (Some c)
  moreover assume "clear_owned_circuit pe P = Some P'"
  ultimately show ?thesis by (auto simp: clear_owned_circuit_def dest!: update_circuit_frame split: if_splits)
qed

definition attempts_after :: "pending_event \<Rightarrow> attempt_row \<Rightarrow> attempt_status \<Rightarrow> attempt_row list \<Rightarrow> attempt_row list \<Rightarrow> bool" where
  "attempts_after pe a st rows rows' \<longleftrightarrow>
     (if st = ta_status a then rows' = rows
      else update_one attempt_row_ok (\<lambda>r. ta_id r = ta_id a \<and> ta_revision r = ta_revision a)
        (moved_attempt pe a st) rows = Some rows')"

definition actions_after ::
  "pending_event \<Rightarrow> (action_row \<times> action_status \<times> action_outcome) option \<Rightarrow> action_row list \<Rightarrow> action_row list \<Rightarrow> bool" where
  "actions_after pe step rows rows' \<longleftrightarrow> (case step of
     None \<Rightarrow> rows' = rows
   | Some (x, st, out) \<Rightarrow> (if (st, out) = (tx_status x, tx_outcome x) then rows' = rows
        else update_one action_row_ok (\<lambda>r. tx_id r = tx_id x \<and> tx_revision r = tx_revision x)
          (moved_action pe x st out) rows = Some rows'))"

lemma move_attempt_Some:
  "move_attempt pe a st P = Some P' \<longleftrightarrow> (\<exists>A. attempts_after pe a st (pl_attempts P) A \<and> P' = P\<lparr>pl_attempts := A\<rparr>)"
  by (auto simp: move_attempt_def attempts_after_def)

lemma move_action_Some:
  "move_action pe step P = Some P' \<longleftrightarrow> (\<exists>X. actions_after pe step (pl_actions P) X \<and> P' = P\<lparr>pl_actions := X\<rparr>)"
  by (auto simp: move_action_def actions_after_def split: option.splits)

text \<open>The whole transaction, table by table.\<close>

lemma converge_new_tables:
  assumes "converge_new pe t P = Some (s, P')"
  shows "\<exists>a step opened P1 P2 ty ts st T A X E.
    sequence (pe_message pe) = tr_last_event t + 1 \<and> tr_updated t \<le> pe_received pe
    \<and> List.find (\<lambda>r. ta_id r = execution_attempt_id (pe_message pe) \<and> ta_task r = task_id (pe_message pe)
        \<and> ta_installation r = installation_id (pe_message pe)) (pl_attempts P) = Some a
    \<and> ta_updated a \<le> pe_received pe \<and> control_confirmed pe (tr_status t) P \<and> action_step pe P = Some step
    \<and> record_risk_result pe P = Some (opened, P1) \<and> clear_owned_circuit pe P1 = Some P2
    \<and> next_statuses pe opened t a = Some (ty, ts, st)
    \<and> attempts_after pe a st (pl_attempts P) A \<and> actions_after pe step (pl_actions P) X
    \<and> sql_insert event_row_ok event_clash (event_row_of pe t ty ts) (pl_events P) = Some E
    \<and> update_one task_row_ok (\<lambda>r. tr_id r = tr_id t \<and> tr_installation r = tr_installation t
        \<and> tr_revision r = tr_revision t \<and> tr_last_event r = tr_last_event t) (\<lambda>r. moved_task pe r ts) (pl_tasks P) = Some T
    \<and> s = snapshot_of (moved_task pe t ts)
    \<and> P' = P\<lparr>pl_tasks := T, pl_attempts := A, pl_actions := X, pl_results := pl_results P2,
        pl_circuits := pl_circuits P2, pl_events := E\<rparr>"
proof -
  let ?m = "pe_message pe"
  from assms obtain a step opened P1 ty ts st P2 P3 P4 P5 P6 where
    seq: "sequence ?m = tr_last_event t + 1" "tr_updated t \<le> pe_received pe" and
    a: "List.find (\<lambda>r. ta_id r = execution_attempt_id ?m \<and> ta_task r = task_id ?m
        \<and> ta_installation r = installation_id ?m) (pl_attempts P) = Some a" "ta_updated a \<le> pe_received pe" and
    c: "control_confirmed pe (tr_status t) P" "action_step pe P = Some step" and
    r: "record_risk_result pe P = Some (opened, P1)" "next_statuses pe opened t a = Some (ty, ts, st)" and
    k: "clear_owned_circuit pe P1 = Some P2" "move_attempt pe a st P2 = Some P3" "move_action pe step P3 = Some P4"
      "append_event pe t ty ts P4 = Some P5" "move_task pe t ts P5 = Some P6"
      "s = snapshot_of (moved_task pe t ts)" "P' = P6"
    unfolding converge_new_def Let_def
    by (auto simp: bind_eq_Some_conv split: if_splits prod.splits)
  obtain C1 R where P1: "P1 = P\<lparr>pl_circuits := C1, pl_results := R\<rparr>" using record_frame [OF r(1)] by blast
  obtain C2 where P2: "P2 = P1\<lparr>pl_circuits := C2\<rparr>" using clear_frame [OF k(1)] by blast
  obtain A where A: "attempts_after pe a st (pl_attempts P) A" "P3 = P2\<lparr>pl_attempts := A\<rparr>"
    using k(2) by (auto simp: move_attempt_Some P1 P2)
  obtain X where X: "actions_after pe step (pl_actions P) X" "P4 = P3\<lparr>pl_actions := X\<rparr>"
    using k(3) by (auto simp: move_action_Some P1 P2 A(2))
  obtain E where E: "sql_insert event_row_ok event_clash (event_row_of pe t ty ts) (pl_events P) = Some E"
      "P5 = P4\<lparr>pl_events := E\<rparr>"
    using k(4) by (auto simp: append_event_def P1 P2 A(2) X(2))
  obtain T where T: "update_one task_row_ok (\<lambda>r. tr_id r = tr_id t \<and> tr_installation r = tr_installation t
        \<and> tr_revision r = tr_revision t \<and> tr_last_event r = tr_last_event t) (\<lambda>r. moved_task pe r ts) (pl_tasks P) = Some T"
      "P6 = P5\<lparr>pl_tasks := T\<rparr>"
    using k(5) by (auto simp: move_task_def P1 P2 A(2) X(2) E(2))
  have "P' = P\<lparr>pl_tasks := T, pl_attempts := A, pl_actions := X, pl_results := pl_results P2,
        pl_circuits := pl_circuits P2, pl_events := E\<rparr>"
    by (simp add: k(7) T(2) E(2) X(2) A(2) P2 P1)
  then show ?thesis using seq a c r k(1,6) A(1) X(1) E(1) T(1) by blast
qed

end
