(* ===== verification/Plane_Runs.thy ===== *)
theory Plane_Runs
  imports Plane_Authorization Plane_Facts
begin

text \<open>
  Histories of the Control Plane: its operations as calls, each one transaction, in any order. A call
  that raises leaves the tables as they were. \<open>dg\<close> digests an event, \<open>sha\<close> is SHA-256.
\<close>

datatype plane_op =
    Receive instant envelope
  | Enqueue new_command
  | Control new_control
  | Expire str instant
  | Claim str instant instant instant bool
  | Deliver str int instant
  | Release str int instant instant
  | Answer envelope instant
  | Authorize authorization_request

definition or_unchanged :: "control_plane \<Rightarrow> ('a \<times> control_plane) option \<Rightarrow> control_plane" where
  "or_unchanged P r = (case r of None \<Rightarrow> P | Some (_, P') \<Rightarrow> P')"

fun plane_step :: "(envelope \<Rightarrow> bytes) \<Rightarrow> (bytes \<Rightarrow> bytes) \<Rightarrow> plane_op \<Rightarrow> control_plane \<Rightarrow> control_plane" where
  "plane_step dg sha (Receive now m) P = snd (receive_event dg now m P)"
| "plane_step dg sha (Enqueue n) P = or_unchanged P (enqueue_command n P)"
| "plane_step dg sha (Control k) P = or_unchanged P (map_option snd (enqueue_control k P))"
| "plane_step dg sha (Expire inst now) P = or_unchanged P (expire_due inst now P)"
| "plane_step dg sha (Claim inst now lease before recover) P =
     or_unchanged P (claim_command inst now lease before recover P)"
| "plane_step dg sha (Deliver mid revision now) P = or_unchanged P (mark_command_delivered mid revision now P)"
| "plane_step dg sha (Release mid revision now retry) P = or_unchanged P (release_for_retry mid revision now retry P)"
| "plane_step dg sha (Answer m now) P = or_unchanged P (acknowledge_command m now P)"
| "plane_step dg sha (Authorize q) P = snd (authorize sha q P)"

definition plane_run :: "(envelope \<Rightarrow> bytes) \<Rightarrow> (bytes \<Rightarrow> bytes) \<Rightarrow> plane_op list \<Rightarrow> control_plane \<Rightarrow> control_plane" where
  "plane_run dg sha ops P = fold (plane_step dg sha) ops P"

lemma plane_run_simps [simp]:
  "plane_run dg sha [] P = P" "plane_run dg sha (op # ops) P = plane_run dg sha ops (plane_step dg sha op P)"
  by (simp_all add: plane_run_def)

text \<open>
  The interface of what a history preserves: a predicate is kept by the four kinds of step, an accepted
  new event, a first termination, an authorization, and a change of the command outbox.
\<close>

definition event_step :: "(envelope \<Rightarrow> bytes) \<Rightarrow> control_plane \<Rightarrow> control_plane \<Rightarrow> bool" where
  "event_step dg P P' \<longleftrightarrow> (\<exists>now m pe t s. pending_of dg now m = Some pe \<and> task_at (task_id m) (installation_id m) P = Some t
     \<and> tr_attempt t = Some (execution_attempt_id m) \<and> replay_of pe P = Some False \<and> converge_new pe t P = Some (s, P'))"

definition cancel_step :: "control_plane \<Rightarrow> control_plane \<Rightarrow> bool" where
  "cancel_step P P' \<longleftrightarrow> (\<exists>k t a. task_at (nk_task k) (nk_installation k) P = Some t \<and> tr_attempt t = Some (ta_id a)
     \<and> a \<in> set (pl_attempts P) \<and> nk_type k \<in> termination_commands \<and> control_admitted k t a
     \<and> start_cancelling k t a P = Some P')"

definition authorization_step :: "(bytes \<Rightarrow> bytes) \<Rightarrow> control_plane \<Rightarrow> control_plane \<Rightarrow> bool" where
  "authorization_step sha P P' \<longleftrightarrow> (\<exists>q r. authorize sha q P = (Authorized r, P') \<and> P' \<noteq> P)"

definition outbox_step :: "control_plane \<Rightarrow> control_plane \<Rightarrow> bool" where
  "outbox_step P P' \<longleftrightarrow> (\<exists>C. P' = P\<lparr>pl_commands := C\<rparr> \<and>
     (sql_wf plane_command_ok plane_command_clash (pl_commands P) \<longrightarrow> sql_wf plane_command_ok plane_command_clash C))"

locale plane_property =
  fixes dg :: "envelope \<Rightarrow> bytes" and sha :: "bytes \<Rightarrow> bytes" and Q :: "control_plane \<Rightarrow> bool"
  assumes on_event: "Q P \<Longrightarrow> event_step dg P P' \<Longrightarrow> Q P'"
    and on_cancel: "Q P \<Longrightarrow> cancel_step P P' \<Longrightarrow> Q P'"
    and on_authorization: "Q P \<Longrightarrow> authorization_step sha P P' \<Longrightarrow> Q P'"
    and on_outbox: "Q P \<Longrightarrow> outbox_step P P' \<Longrightarrow> Q P'"

lemma outbox_refl [simp]: "outbox_step P P"
  unfolding outbox_step_def by (intro exI [of _ "pl_commands P"]) simp

lemma insert_plane_command_outbox: "insert_plane_command c P = Some P' \<Longrightarrow> outbox_step P P'"
  by (auto simp: insert_plane_command_def outbox_step_def dest: sql_wf_insert split: if_splits)

lemma rewrite_command_outbox: "rewrite_command c f P = Some (r, P') \<Longrightarrow> outbox_step P P'"
  by (auto simp: rewrite_command_def outbox_step_def Let_def update_unique_Some split: if_splits)

text \<open>An update that can only end clashes keeps the constraints.\<close>

lemma sql_wf_update_less:
  assumes wf: "sql_wf row_ok clash rows" and up: "sql_update row_ok here f rows = Some rows'"
    and less: "\<And>a b. clash (f a) b \<Longrightarrow> clash a b" "\<And>a b. clash a (f b) \<Longrightarrow> clash a b"
  shows "sql_wf row_ok clash rows'"
proof -
  let ?g = "\<lambda>r. if here r then f r else r"
  have "clash a b" if "clash (?g a) (?g b)" for a b
  proof -
    have "clash a (?g b)" using that less(1) [of a "?g b"] by (cases "here a") simp_all
    then show ?thesis using less(2) [of a b] by (cases "here b") simp_all
  qed
  then have mono: "\<not> clash (?g a) (?g b)" if "\<not> clash a b" for a b using that by blast
  have "sorted_wrt (\<lambda>a b. \<not> clash (?g a) (?g b)) rows"
    using wf [unfolded sql_wf_def, THEN conjunct2] by (rule sorted_wrt_mono_rel [rotated]) (rule mono)
  moreover have "list_all row_ok (map ?g rows)" "rows' = map ?g rows"
    using wf up by (auto simp: sql_wf_def sql_update_Some list_all_iff)
  ultimately show ?thesis by (simp add: sql_wf_def sorted_wrt_map)
qed

lemma expire_outbox:
  assumes "expire_due inst now P = Some (n, P')"
  shows "outbox_step P P'"
proof -
  obtain C here where C: "P' = P\<lparr>pl_commands := C\<rparr>" "sql_update plane_command_ok here
      (\<lambda>r. (silenced Command_expired now r)\<lparr>tc_revision := tc_revision r + 1\<rparr>) (pl_commands P) = Some C"
    using assms unfolding expire_due_def Let_def by auto
  have "sql_wf plane_command_ok plane_command_clash C" if "sql_wf plane_command_ok plane_command_clash (pl_commands P)"
    by (rule sql_wf_update_less [OF that C(2)]) (auto simp: plane_command_clash_def silenced_def)
  then show ?thesis using C(1) by (auto simp: outbox_step_def)
qed

lemma enqueue_outbox_step:
  assumes "enqueue_command n P = Some (c, P')"
  shows "outbox_step P P'"
proof -
  have "P' = P \<or> (\<exists>d. insert_plane_command d P = Some P')"
  proof (cases "command_by_key (nc_installation n) (nc_key n) P")
    case None
    with assms show ?thesis
      by (auto simp: enqueue_command_def transaction)
  next
    case (Some d)
    with assms show ?thesis
      by (auto simp: enqueue_command_def transaction)
  qed
  then show ?thesis using insert_plane_command_outbox outbox_refl by blast
qed

lemma claim_outbox: "claim_command inst now lease b rec P = Some (c, P') \<Longrightarrow> outbox_step P P'"
  by (auto simp: claim_command_def dest: rewrite_command_outbox split: if_splits option.splits)

lemma deliver_outbox: "mark_command_delivered mid n now P = Some (c, P') \<Longrightarrow> outbox_step P P'"
  by (auto simp: mark_command_delivered_def bind_eq_Some_conv dest: rewrite_command_outbox)

lemma release_outbox: "release_for_retry mid n now retry P = Some (c, P') \<Longrightarrow> outbox_step P P'"
  by (auto simp: release_for_retry_def transaction dest: rewrite_command_outbox)

lemma answer_outbox:
  assumes "acknowledge_command m now P = Some (c, P')"
  shows "outbox_step P P'"
proof -
  have "P' = P \<or> (\<exists>d f. rewrite_command d f P = Some (c, P'))"
    using assms unfolding acknowledge_command_def transaction
    by (elim conjE exE) (auto split: command_status.split_asm if_split_asm)
  then show ?thesis using rewrite_command_outbox outbox_refl by blast
qed

lemma insert_plane_command_frame: "insert_plane_command c P = Some P' \<Longrightarrow> \<exists>C. P' = P\<lparr>pl_commands := C\<rparr>"
  by (auto simp: insert_plane_command_def split: if_splits)

lemma control_steps:
  assumes "enqueue_control k P = Some (c, created, P')"
  shows "\<exists>P1. outbox_step P P1 \<and> (P' = P1 \<or> cancel_step P1 P')"
proof (cases "command_by_key (nk_installation k) (nk_key k) P")
  case (Some d)
  then have "P' = P" using assms by (auto simp: enqueue_control_def bind_eq_Some_conv Let_def split: if_splits)
  then show ?thesis using outbox_refl by blast
next
  case None
  from assms None obtain t a aid d P1 where
    t: "task_at (nk_task k) (nk_installation k) P = Some t" "tr_attempt t = Some aid" and
    a: "List.find (\<lambda>r. ta_id r = aid \<and> ta_task r = nk_task k \<and> ta_installation r = nk_installation k)
      (pl_attempts P) = Some a" "control_admitted k t a" and
    P1: "insert_plane_command d P = Some P1"
      "(if nk_type k \<in> termination_commands then start_cancelling k t a P1 else Some P1) = Some P'"
    by (auto simp: enqueue_control_def transaction)
  obtain C where C: "P1 = P\<lparr>pl_commands := C\<rparr>" using insert_plane_command_frame [OF P1(1)] by blast
  have a': "a \<in> set (pl_attempts P)" "ta_id a = aid" using find_Some_mem [OF a(1)] by simp_all
  have "cancel_step P1 P'" if "nk_type k \<in> termination_commands"
    unfolding cancel_step_def using that t a(2) a' P1(2)
    by (intro exI [of _ k] exI [of _ t] exI [of _ a]) (simp add: C task_at_def)
  then show ?thesis using insert_plane_command_outbox [OF P1(1)] P1(2) by (cases "nk_type k \<in> termination_commands") auto
qed

lemma receive_steps:
  "snd (receive_event dg now m P) = P \<or> event_step dg P (snd (receive_event dg now m P))"
proof (cases "pending_of dg now m")
  case (Some pe)
  then have m: "pe_message pe = m"
    by (auto simp: pending_of_def bind_eq_Some_conv checked_pending_def Let_def split: if_splits)
  show ?thesis
  proof (cases "converge pe P")
    case (Some r)
    then obtain s d P' where r: "converge pe P = Some (s, d, P')" by (cases r) auto
    then obtain t known where t: "task_at (task_id m) (installation_id m) P = Some t"
        "tr_attempt t = Some (execution_attempt_id m)" "replay_of pe P = Some known"
        "(if known then Some (snapshot_of t, True, P) else Option.bind (converge_new pe t P) (\<lambda>(s, P'). Some (s, False, P')))
          = Some (s, d, P')"
      by (auto simp: converge_def transaction task_at_def m)
    show ?thesis
    proof (cases known)
      case True
      then show ?thesis using t(4) r \<open>pending_of dg now m = Some pe\<close> by (simp add: receive_event_def)
    next
      case False
      then have "converge_new pe t P = Some (s, P')" using t(4) by (auto simp: bind_eq_Some_conv)
      then have "event_step dg P P'"
        unfolding event_step_def using t(1-3) False \<open>pending_of dg now m = Some pe\<close>
        by (intro exI [of _ now] exI [of _ m] exI [of _ pe] exI [of _ t] exI [of _ s]) simp
      then show ?thesis using r \<open>pending_of dg now m = Some pe\<close> by (simp add: receive_event_def)
    qed
  qed (use Some in \<open>simp add: receive_event_def\<close>)
qed (simp add: receive_event_def)

lemma authorize_steps: "snd (authorize sha q P) = P \<or> authorization_step sha P (snd (authorize sha q P))"
proof -
  obtain y P' where y: "authorize sha q P = (y, P')" by (cases "authorize sha q P")
  show ?thesis
  proof (cases y)
    case (Authorized r)
    then show ?thesis using y unfolding authorization_step_def by auto
  qed (use y in \<open>auto simp: authorize_def authorize_new_def write_authorization_def limit_reached_def Let_def
      split: if_splits option.splits\<close>)
qed

context plane_property
begin

lemma keeps_received: "Q P \<Longrightarrow> Q (snd (receive_event dg now m P))"
  using receive_steps [of dg now m P] on_event by metis

lemma keeps_authorize: "Q P \<Longrightarrow> Q (snd (authorize sha q P))"
  using authorize_steps [of sha q P] on_authorization by metis

lemma keeps_control:
  assumes "Q P"
  shows "Q (or_unchanged P (map_option snd (enqueue_control k P)))"
proof (cases "enqueue_control k P")
  case (Some r)
  then obtain c created P' where r: "enqueue_control k P = Some (c, created, P')" by (cases r) auto
  from control_steps [OF r] assms have "Q P'" using on_outbox on_cancel by metis
  then show ?thesis by (simp add: r or_unchanged_def)
qed (simp add: assms or_unchanged_def)

lemma keeps_outbox: "Q P \<Longrightarrow> (\<And>c P'. r = Some (c, P') \<Longrightarrow> outbox_step P P') \<Longrightarrow> Q (or_unchanged P r)"
  by (auto simp: or_unchanged_def intro: on_outbox split: option.split)

lemma keeps_step: "Q P \<Longrightarrow> Q (plane_step dg sha op P)"
  by (cases op) (simp_all add: keeps_received keeps_authorize keeps_control keeps_outbox enqueue_outbox_step
      expire_outbox claim_outbox deliver_outbox release_outbox answer_outbox)

lemma keeps_run: "Q P \<Longrightarrow> Q (plane_run dg sha ops P)"
  by (induction ops arbitrary: P) (simp_all add: keeps_step)

end

end
