(* ===== verification/Plane_Invariant.thy ===== *)
theory Plane_Invariant
  imports Plane_Runs
begin

text \<open>
  What every history of the Control Plane keeps: the constraints of the tables, the log of events, the
  agreement of a task with its attempt, and the results of actions.
\<close>

subsection \<open>Steps, table by table\<close>

lemma event_step_tables:
  assumes "event_step dg P P'"
  shows "\<exists>now m pe t a step opened P1 P2 ty ts st T A X E.
    pending_of dg now m = Some pe \<and> pe_message pe = m \<and> task_at (task_id m) (installation_id m) P = Some t
    \<and> tr_attempt t = Some (execution_attempt_id m) \<and> replay_of pe P = Some False
    \<and> sequence m = tr_last_event t + 1 \<and> tr_updated t \<le> pe_received pe
    \<and> List.find (\<lambda>r. ta_id r = execution_attempt_id m \<and> ta_task r = task_id m
        \<and> ta_installation r = installation_id m) (pl_attempts P) = Some a
    \<and> ta_updated a \<le> pe_received pe \<and> control_confirmed pe (tr_status t) P \<and> action_step pe P = Some step
    \<and> record_risk_result pe P = Some (opened, P1) \<and> clear_owned_circuit pe P1 = Some P2
    \<and> next_statuses pe opened t a = Some (ty, ts, st)
    \<and> attempts_after pe a st (pl_attempts P) A \<and> actions_after pe step (pl_actions P) X
    \<and> sql_insert event_row_ok event_clash (event_row_of pe t ty ts) (pl_events P) = Some E
    \<and> update_one task_row_ok (\<lambda>r. tr_id r = tr_id t \<and> tr_installation r = tr_installation t
        \<and> tr_revision r = tr_revision t \<and> tr_last_event r = tr_last_event t) (\<lambda>r. moved_task pe r ts) (pl_tasks P) = Some T
    \<and> P' = P\<lparr>pl_tasks := T, pl_attempts := A, pl_actions := X, pl_results := pl_results P2,
        pl_circuits := pl_circuits P2, pl_events := E\<rparr>"
proof -
  from assms obtain now m pe t s where
    pe: "pending_of dg now m = Some pe" and t: "task_at (task_id m) (installation_id m) P = Some t"
      "tr_attempt t = Some (execution_attempt_id m)" "replay_of pe P = Some False" and
    c: "converge_new pe t P = Some (s, P')" unfolding event_step_def by blast
  have m: "pe_message pe = m" using pe by (auto simp: pending_of_def checked_pending_def transaction)
  show ?thesis using converge_new_tables [OF c, unfolded m] pe t m by blast
qed

lemma cancel_step_tables:
  assumes "cancel_step P P'"
  shows "\<exists>k t a T A. t \<in> set (pl_tasks P) \<and> tr_id t = nk_task k \<and> tr_attempt t = Some (ta_id a)
    \<and> a \<in> set (pl_attempts P) \<and> nk_type k \<in> termination_commands \<and> control_admitted k t a
    \<and> update_one task_row_ok (\<lambda>r. tr_id r = tr_id t \<and> tr_installation r = tr_installation t
         \<and> tr_revision r = tr_revision t \<and> tr_status r = tr_status t)
       (\<lambda>r. r\<lparr>tr_status := Cancelling, tr_revision := tr_revision r + 1, tr_updated := nk_created k\<rparr>) (pl_tasks P) = Some T
    \<and> update_one attempt_row_ok (\<lambda>r. ta_id r = ta_id a \<and> ta_revision r = ta_revision a \<and> ta_status r = ta_status a)
       (\<lambda>r. r\<lparr>ta_status := Attempt_cancelling, ta_revision := ta_revision r + 1, ta_updated := nk_created k\<rparr>)
       (pl_attempts P) = Some A
    \<and> P' = P\<lparr>pl_tasks := T, pl_attempts := A\<rparr>"
proof -
  from assms obtain k t a where
    k: "task_at (nk_task k) (nk_installation k) P = Some t" "tr_attempt t = Some (ta_id a)" "a \<in> set (pl_attempts P)"
      "nk_type k \<in> termination_commands" "control_admitted k t a" and
    c: "start_cancelling k t a P = Some P'" unfolding cancel_step_def by blast
  have t: "t \<in> set (pl_tasks P)" "tr_id t = nk_task k" using find_Some_mem k(1) unfolding task_at_def by fastforce+
  show ?thesis using c k t unfolding start_cancelling_def transaction by blast
qed

lemma authorization_step_tables:
  assumes "authorization_step sha P P'"
  shows "\<exists>q d g t c X Z. sql_lookup az_action_id (aq_action_id q) (pl_authorizations P) = None
    \<and> \<not> already_open (circuit_at (aq_installation q) (po_action (aq_policy q)) P)
    \<and> risk_policy_ok (aq_policy q) \<and> attempt_running q (task_at (aq_task q) (aq_installation q) P)
        (List.find (\<lambda>r. ta_id r = aq_attempt q \<and> ta_task r = aq_task q \<and> ta_installation r = aq_installation q) (pl_attempts P))
    \<and> definition_at (aq_task q) (aq_installation q) P = Some d
    \<and> confirmation_at (aq_task q) (aq_installation q) P = Some c
    \<and> task_at (aq_task q) (aq_installation q) P = Some t
    \<and> List.find (\<lambda>r. tg_id r = aq_target q \<and> tg_task r = aq_task q \<and> tg_installation r = aq_installation q)
        (pl_targets P) = Some g
    \<and> target_confirmed sha q t c d g P \<and> limit_reached q d P = None
    \<and> sql_insert action_row_ok action_clash (authorized_action q g) (pl_actions P) = Some X
    \<and> sql_insert authorization_ok authorization_clash (new_authorization q d g P) (pl_authorizations P) = Some Z
    \<and> P' = P\<lparr>pl_actions := X, pl_authorizations := Z\<rparr>"
proof -
  obtain q r where q: "authorize sha q P = (Authorized r, P')" "P' \<noteq> P" using assms unfolding authorization_step_def by blast
  have fresh: "sql_lookup az_action_id (aq_action_id q) (pl_authorizations P) = None" "risk_policy_ok (aq_policy q)"
    using q by (auto simp: authorize_def split: if_split_asm option.split_asm)
  have new: "authorize_new sha q P = (Authorized r, P')"
    using q fresh by (auto simp: authorize_def split: if_split_asm)
  then obtain d c t g where
    run: "\<not> already_open (circuit_at (aq_installation q) (po_action (aq_policy q)) P)"
      "attempt_running q (task_at (aq_task q) (aq_installation q) P)
        (List.find (\<lambda>r. ta_id r = aq_attempt q \<and> ta_task r = aq_task q \<and> ta_installation r = aq_installation q) (pl_attempts P))" and
    rows: "definition_at (aq_task q) (aq_installation q) P = Some d"
      "confirmation_at (aq_task q) (aq_installation q) P = Some c" "task_at (aq_task q) (aq_installation q) P = Some t"
      "List.find (\<lambda>r. tg_id r = aq_target q \<and> tg_task r = aq_task q \<and> tg_installation r = aq_installation q)
        (pl_targets P) = Some g" and
    ok: "target_confirmed sha q t c d g P" and
    rest: "(case limit_reached q d P of Some answer \<Rightarrow> (answer, P) | None \<Rightarrow> write_authorization q d g P) = (Authorized r, P')"
    unfolding authorize_new_def Let_def already_open_def by (auto split: if_split_asm option.split_asm)
  have lim: "limit_reached q d P = None" using rest q(2) by (auto split: option.split_asm)
  then have "write_authorization q d g P = (Authorized r, P')" using rest by simp
  then obtain X Z where "sql_insert action_row_ok action_clash (authorized_action q g) (pl_actions P) = Some X"
    "sql_insert authorization_ok authorization_clash (new_authorization q d g P) (pl_authorizations P) = Some Z"
    "P' = P\<lparr>pl_actions := X, pl_authorizations := Z\<rparr>"
    unfolding write_authorization_def by (auto split: option.split_asm if_split_asm)
  then show ?thesis using fresh run rows ok lim by blast
qed

subsection \<open>Constraints\<close>

lemma update_circuit_wf:
  assumes "update_circuit c f P = Some P'" "sql_wf circuit_ok (same_key circuit_scope) (pl_circuits P)"
    "\<And>r. circuit_scope (f r) = circuit_scope r"
  shows "sql_wf circuit_ok (same_key circuit_scope) (pl_circuits P')"
  using assms(1) update_one_wf [OF assms(2) _ assms(3)] by (auto simp: update_circuit_def)

lemma scope_next_circuit [simp]: "circuit_scope (next_circuit az c out n now r) = circuit_scope r"
  by (simp add: next_circuit_def Let_def circuit_scope_def)

lemma scope_closed_circuit [simp]: "circuit_scope (closed_circuit c now r) = circuit_scope r"
  by (simp add: closed_circuit_def circuit_scope_def)

lemma clear_wf:
  "clear_owned_circuit pe P = Some P' \<Longrightarrow> sql_wf circuit_ok (same_key circuit_scope) (pl_circuits P) \<Longrightarrow>
   sql_wf circuit_ok (same_key circuit_scope) (pl_circuits P') \<and> pl_results P' = pl_results P"
  by (auto simp: clear_owned_circuit_def transaction dest: update_circuit_wf update_circuit_frame split: option.split_asm)

lemma record_wf:
  assumes "record_risk_result pe P = Some (opened, P')"
    and "sql_wf circuit_ok (same_key circuit_scope) (pl_circuits P)"
    and "sql_wf risk_result_ok (same_key rz_action_id) (pl_results P)"
  shows "sql_wf circuit_ok (same_key circuit_scope) (pl_circuits P')
    \<and> sql_wf risk_result_ok (same_key rz_action_id) (pl_results P')"
proof (cases "final_result pe P")
  case None
  then show ?thesis using record_None [OF assms(1)] assms by simp
next
  case (Some r)
  then obtain az out where "final_result pe P = Some (az, out)" by (cases r) auto
  from record_Some [OF assms(1) this] obtain n R C where
    R: "sql_insert risk_result_ok (same_key rz_action_id)
        (risk_result az (circuit_at (az_installation az) (az_action az) P) out n (pe_received pe)) (pl_results P) = Some R" and
    C: "circuits_after az (circuit_at (az_installation az) (az_action az) P) out n (pe_received pe) (pl_circuits P) C" and
    P': "P' = P\<lparr>pl_circuits := C, pl_results := R\<rparr>" by blast
  have "sql_wf circuit_ok (same_key circuit_scope) C"
    using C assms(2) by (auto simp: circuits_after_def intro: sql_wf_insert update_one_wf split: option.split_asm)
  then show ?thesis using sql_wf_insert [OF assms(3) R] P' by simp
qed

lemma attempts_wf:
  "attempts_after pe a st rows rows' \<Longrightarrow> sql_wf attempt_row_ok (same_key ta_id) rows \<Longrightarrow>
   sql_wf attempt_row_ok (same_key ta_id) rows'"
  by (auto simp: attempts_after_def moved_attempt_def intro: update_one_wf split: if_split_asm)

lemma actions_wf:
  assumes "actions_after pe step rows rows'" "sql_wf action_row_ok action_clash rows"
  shows "sql_wf action_row_ok action_clash rows'"
proof -
  have "sql_wf action_row_ok action_clash rows'" if "update_one action_row_ok here (moved_action pe x st out) rows = Some rows'"
    for here x st out
  proof -
    have "sql_update action_row_ok here (moved_action pe x st out) rows = Some rows'"
      using that by (simp add: update_one_def split: if_split_asm)
    then show ?thesis
      by (rule sql_wf_update [OF assms(2)]) (simp_all add: moved_action_def Let_def action_clash_def)
  qed
  then show ?thesis using assms by (auto simp: actions_after_def split: option.split_asm prod.split_asm if_split_asm)
qed

lemmas plane_wf_parts = plane_wf_def [THEN iffD1]

interpretation constraints: plane_property dg sha plane_wf for dg sha
proof
  fix P P'
  assume wf: "plane_wf P"
  note parts = wf [unfolded plane_wf_def]
  show "plane_wf P'" if step: "event_step dg P P'"
  proof -
    from event_step_tables [OF step] obtain pe t a step opened P1 P2 ty ts st T A X E here where
      r: "record_risk_result pe P = Some (opened, P1)" "clear_owned_circuit pe P1 = Some P2" and
      A: "attempts_after pe a st (pl_attempts P) A" and X: "actions_after pe step (pl_actions P) X" and
      E: "sql_insert event_row_ok event_clash (event_row_of pe t ty ts) (pl_events P) = Some E" and
      T: "update_one task_row_ok here (\<lambda>r. moved_task pe r ts) (pl_tasks P) = Some T" and
      P': "P' = P\<lparr>pl_tasks := T, pl_attempts := A, pl_actions := X, pl_results := pl_results P2,
        pl_circuits := pl_circuits P2, pl_events := E\<rparr>" by blast
    have "sql_wf task_row_ok (same_key tr_id) T" using parts by (intro update_one_wf [OF _ T]) (simp_all add: moved_task_def)
    moreover note attempts_wf [OF A] actions_wf [OF X] record_wf [OF r(1)] clear_wf [OF r(2)]
    moreover have "sql_wf event_row_ok event_clash E" using parts E by (blast intro: sql_wf_insert)
    ultimately show ?thesis using parts by (simp add: P' plane_wf_def)
  qed
  show "plane_wf P'" if step: "cancel_step P P'"
  proof -
    from cancel_step_tables [OF step] obtain f g here here' T A where
      T: "update_one task_row_ok here f (pl_tasks P) = Some T" "\<And>r. tr_id (f r) = tr_id r" and
      A: "update_one attempt_row_ok here' g (pl_attempts P) = Some A" "\<And>r. ta_id (g r) = ta_id r" and
      P': "P' = P\<lparr>pl_tasks := T, pl_attempts := A\<rparr>" by fastforce
    have "sql_wf task_row_ok (same_key tr_id) T" by (rule update_one_wf [OF _ T(1)]) (use parts T(2) in simp_all)
    moreover have "sql_wf attempt_row_ok (same_key ta_id) A"
      by (rule update_one_wf [OF _ A(1)]) (use parts A(2) in simp_all)
    ultimately show ?thesis using parts by (simp add: P' plane_wf_def)
  qed
  show "plane_wf P'" if step: "authorization_step sha P P'"
    using authorization_step_tables [OF step] parts by (auto simp: plane_wf_def intro: sql_wf_insert)
  show "plane_wf P'" if "outbox_step P P'"
    using that parts by (auto simp: outbox_step_def plane_wf_def)
qed

end
