(* ===== verification/Plane_Log.thy ===== *)
theory Plane_Log
  imports Plane_Invariant
begin

text \<open>
  The event log of the Control Plane, the agreement of tasks and attempts, and the results of actions in
  every history.
\<close>

context keyed_table
begin

lemma update_at_key:
  assumes "sql_wf row_ok clash rows" "r \<in> set rows" "update_one row_ok (\<lambda>x. key x = key r \<and> Q x) f rows = Some rows'" "Q r"
  shows "rows' = map (\<lambda>x. if key x = key r then f r else x) rows \<and> row_ok (f r)"
  using map_at_key [where Q = Q and f = f, OF assms(1,2,4)] assms(2-4) by (auto simp: update_one_Some)

end

lemma task_update:
  assumes "plane_wf P" "t \<in> set (pl_tasks P)"
    and "update_one task_row_ok (\<lambda>r. tr_id r = tr_id t \<and> tr_installation r = tr_installation t
      \<and> tr_revision r = tr_revision t \<and> Q r) f (pl_tasks P) = Some T" "Q t"
  shows "T = map (\<lambda>x. if tr_id x = tr_id t then f t else x) (pl_tasks P) \<and> task_row_ok (f t)"
  using assms by (intro task_table.update_at_key [where Q = "\<lambda>r. tr_installation r = tr_installation t
      \<and> tr_revision r = tr_revision t \<and> Q r"]) (simp_all add: plane_wf_def)

lemma attempt_update:
  assumes "plane_wf P" "a \<in> set (pl_attempts P)" "attempts_after pe a st (pl_attempts P) A"
  shows "A = map (\<lambda>x. if ta_id x = ta_id a then (if st = ta_status a then a else moved_attempt pe a st a) else x) (pl_attempts P)"
proof (cases "st = ta_status a")
  case True
  have "map (\<lambda>x. if ta_id x = ta_id a then a else x) (pl_attempts P) = pl_attempts P"
    using assms(1,2) attempt_table.key_inj [of "pl_attempts P" _ a] by (intro map_idI) (auto simp: plane_wf_def)
  then show ?thesis using assms(3) True by (simp add: attempts_after_def)
next
  case False
  then have "update_one attempt_row_ok (\<lambda>r. ta_id r = ta_id a \<and> ta_revision r = ta_revision a)
      (moved_attempt pe a st) (pl_attempts P) = Some A" using assms(3) by (simp add: attempts_after_def)
  from attempt_table.update_at_key [where Q = "\<lambda>r. ta_revision r = ta_revision a", OF _ assms(2) this] assms(1) show ?thesis using False by (simp add: plane_wf_def)
qed

lemma found_task: "task_at i j P = Some t \<Longrightarrow> t \<in> set (pl_tasks P) \<and> tr_id t = i \<and> tr_installation t = j"
  unfolding task_at_def by (drule find_Some_mem) simp

subsection \<open>The log\<close>

definition numbered :: "event_row list \<Rightarrow> task_row \<Rightarrow> bool" where
  "numbered es t \<longleftrightarrow> (\<forall>n. (\<exists>e \<in> set es. te_task e = tr_id t \<and> te_sequence e = n) \<longleftrightarrow> 1 \<le> n \<and> n \<le> tr_last_event t)"

definition covers :: "task_row \<Rightarrow> event_row \<Rightarrow> bool" where
  "covers t e \<longleftrightarrow> (te_task e = tr_id t \<longrightarrow> te_revision e \<le> tr_revision t \<and> te_recorded e \<le> tr_updated t)"

definition in_order :: "event_row \<Rightarrow> event_row \<Rightarrow> bool" where
  "in_order e e' \<longleftrightarrow> (te_task e = te_task e' \<and> te_sequence e < te_sequence e' \<longrightarrow>
     te_revision e < te_revision e' \<and> te_recorded e \<le> te_recorded e')"

definition log_ok :: "control_plane \<Rightarrow> bool" where
  "log_ok P \<longleftrightarrow> (\<forall>t \<in> set (pl_tasks P). numbered (pl_events P) t \<and> (\<forall>e \<in> set (pl_events P). covers t e))
     \<and> (\<forall>e \<in> set (pl_events P). \<forall>e' \<in> set (pl_events P). in_order e e')"

lemma log_okI:
  assumes "\<And>t. t \<in> set (pl_tasks P) \<Longrightarrow> numbered (pl_events P) t"
    "\<And>t e. t \<in> set (pl_tasks P) \<Longrightarrow> e \<in> set (pl_events P) \<Longrightarrow> covers t e"
    "\<And>e e'. e \<in> set (pl_events P) \<Longrightarrow> e' \<in> set (pl_events P) \<Longrightarrow> in_order e e'"
  shows "log_ok P"
  using assms unfolding log_ok_def by blast

lemma log_event:
  assumes wf: "plane_wf P" and log: "log_ok P" and step: "event_step dg P P'"
  shows "log_ok P'"
proof -
  from event_step_tables [OF step] obtain pe m t ty ts T E where
    m: "pe_message pe = m" and t: "task_at (task_id m) (installation_id m) P = Some t" and
    seq: "sequence m = tr_last_event t + 1" "tr_updated t \<le> pe_received pe" and
    E: "sql_insert event_row_ok event_clash (event_row_of pe t ty ts) (pl_events P) = Some E" and
    T: "update_one task_row_ok (\<lambda>r. tr_id r = tr_id t \<and> tr_installation r = tr_installation t
        \<and> tr_revision r = tr_revision t \<and> tr_last_event r = tr_last_event t) (\<lambda>r. moved_task pe r ts) (pl_tasks P) = Some T" and
    P': "pl_tasks P' = T" "pl_events P' = E" by fastforce
  note mem = found_task [OF t]
  have T': "T = map (\<lambda>x. if tr_id x = tr_id t then moved_task pe t ts else x) (pl_tasks P)" "task_row_ok (moved_task pe t ts)"
    using task_update [OF wf _ T] mem by simp_all
  let ?e = "event_row_of pe t ty ts"
  have E': "E = pl_events P @ [?e]" using E by (simp add: sql_insert_Some)
  have new: "te_task ?e = tr_id t" "te_sequence ?e = tr_last_event t + 1" "te_revision ?e = tr_revision t + 1"
    "te_recorded ?e = pe_received pe"
    using mem seq by (simp_all add: event_row_of_def Let_def m)
  have old: "numbered (pl_events P) t" "\<And>e. e \<in> set (pl_events P) \<Longrightarrow> covers t e" using log mem by (auto simp: log_ok_def)
  have last: "0 \<le> tr_last_event t" using mem wf by (auto simp: plane_wf_def dest!: sql_wf_row simp: task_row_ok_def)
  have below: "te_sequence e \<le> tr_last_event t" if "e \<in> set (pl_events P)" "te_task e = tr_id t" for e
    using old(1) that unfolding numbered_def by blast
  have moved: "numbered (pl_events P @ [?e]) (moved_task pe t ts)"
    using old(1) new seq(1) last unfolding numbered_def by (auto simp: moved_task_def m)
  show ?thesis
  proof (rule log_okI, unfold P')
    show "numbered E u" if u: "u \<in> set T" for u
    proof (cases "tr_id u = tr_id t")
      case True
      then have "u = moved_task pe t ts" using u by (auto simp: T' split: if_split_asm)
      then show ?thesis using moved E' by simp
    next
      case False
      then have "u \<in> set (pl_tasks P)" using u by (auto simp: T' moved_task_def split: if_split_asm)
      then have "numbered (pl_events P) u" using log by (simp add: log_ok_def)
      then show ?thesis using False new(1) by (simp add: numbered_def E')
    qed
    show "covers u e" if u: "u \<in> set T" and e: "e \<in> set E" for u e
    proof (cases "tr_id u = tr_id t")
      case True
      then have "u = moved_task pe t ts" using u by (auto simp: T' split: if_split_asm)
      then show ?thesis using old(2) e new seq(2) by (fastforce simp: covers_def E' moved_task_def)
    next
      case False
      then have "u \<in> set (pl_tasks P)" using u by (auto simp: T' moved_task_def split: if_split_asm)
      then show ?thesis using log e new(1) False by (auto simp: log_ok_def E' covers_def)
    qed
    show "in_order e e'" if "e \<in> set E" "e' \<in> set E" for e e'
    proof -
      have "in_order e ?e" if "e \<in> set (pl_events P)" for e
        using old(2) [OF that] new seq(2) by (auto simp: in_order_def covers_def)
      moreover have "in_order ?e e" if "e \<in> set (pl_events P)" for e
        using below [OF that] new by (fastforce simp: in_order_def)
      moreover have "in_order ?e ?e" by (simp add: in_order_def)
      ultimately show ?thesis using that log by (auto simp: E' log_ok_def)
    qed
  qed
qed

lemma log_cancel:
  assumes wf: "plane_wf P" and log: "log_ok P" and step: "cancel_step P P'"
  shows "log_ok P'"
proof -
  from cancel_step_tables [OF step] obtain k t a T where
    t: "t \<in> set (pl_tasks P)" and ok: "nk_type k \<in> termination_commands" "control_admitted k t a" and
    T: "update_one task_row_ok (\<lambda>r. tr_id r = tr_id t \<and> tr_installation r = tr_installation t
         \<and> tr_revision r = tr_revision t \<and> tr_status r = tr_status t)
       (\<lambda>r. r\<lparr>tr_status := Cancelling, tr_revision := tr_revision r + 1, tr_updated := nk_created k\<rparr>) (pl_tasks P) = Some T" and
    P': "pl_tasks P' = T" "pl_events P' = pl_events P" by fastforce
  let ?t = "t\<lparr>tr_status := Cancelling, tr_revision := tr_revision t + 1, tr_updated := nk_created k\<rparr>"
  have T': "T = map (\<lambda>x. if tr_id x = tr_id t then ?t else x) (pl_tasks P)" using task_update [OF wf t T] by simp
  have late: "tr_updated t \<le> nk_created k" using ok by (simp add: control_admitted_def)
  show ?thesis
  proof (rule log_okI, unfold P')
    have same: "numbered (pl_events P) ?t = numbered (pl_events P) t" by (simp add: numbered_def)
    show "numbered (pl_events P) u" if "u \<in> set T" for u
    proof -
      have "u \<in> set (pl_tasks P) \<or> u = ?t" using that by (auto simp: T' split: if_split_asm)
      then show ?thesis using log t same by (auto simp: log_ok_def)
    qed
    show "covers u e" if "u \<in> set T" "e \<in> set (pl_events P)" for u e
      using that log t late by (fastforce simp: T' log_ok_def covers_def split: if_split_asm)
    show "in_order e e'" if "e \<in> set (pl_events P)" "e' \<in> set (pl_events P)" for e e'
      using that log by (simp add: log_ok_def)
  qed
qed

lemma authorization_frame:
  "authorization_step sha P P' \<Longrightarrow> \<exists>X Z. P' = P\<lparr>pl_actions := X, pl_authorizations := Z\<rparr>"
  using authorization_step_tables by fastforce

lemma outbox_frame: "outbox_step P P' \<Longrightarrow> \<exists>C. P' = P\<lparr>pl_commands := C\<rparr>"
  by (auto simp: outbox_step_def)

interpretation event_log: plane_property dg sha "\<lambda>P. plane_wf P \<and> log_ok P" for dg sha
proof
  fix P P'
  assume P: "plane_wf P \<and> log_ok P"
  show "plane_wf P' \<and> log_ok P'" if "event_step dg P P'"
    using that P constraints.on_event log_event by blast
  show "plane_wf P' \<and> log_ok P'" if "cancel_step P P'"
    using that P constraints.on_cancel log_cancel by blast
  show "plane_wf P' \<and> log_ok P'" if "authorization_step sha P P'"
    using that P constraints.on_authorization authorization_frame [OF that] by (auto simp: log_ok_def)
  show "plane_wf P' \<and> log_ok P'" if "outbox_step P P'"
    using that P constraints.on_outbox outbox_frame [OF that] by (auto simp: log_ok_def)
qed

end
