(* ===== verification/Plane_Safety.thy ===== *)
theory Plane_Safety
  imports Plane_Log
begin

text \<open>
  What every history of the Control Plane keeps beyond the log: the legal moves of a task and the status of its
  attempt, settled rows, the failure circuits, and the accounts of the authorizations.
\<close>

subsection \<open>Statuses of a task and its attempt\<close>

text \<open>
  The statuses the current attempt of a task can have, by the status of the task. A discovery that ends at a
  login, a handoff or an error leaves a failed attempt behind, and one that ends with targets a succeeded
  attempt; a confirmation takes the attempt away, and the task is then offered with an attempt of its own.
\<close>

fun attempt_view :: "task_status \<Rightarrow> attempt_status set" where
  "attempt_view Queued = {Attempt_pending, Attempt_offered, Attempt_accepted}"
| "attempt_view Awaiting_platform_login = {Attempt_awaiting_human, Attempt_failed}"
| "attempt_view Running = {Attempt_running}"
| "attempt_view task_status.Paused = {Attempt_paused}"
| "attempt_view Awaiting_human = {Attempt_awaiting_human, Attempt_failed}"
| "attempt_view Cancelling = {Attempt_cancelling}"
| "attempt_view Succeeded = {Attempt_succeeded}"
| "attempt_view Partially_succeeded = {Attempt_partially_succeeded}"
| "attempt_view Failed = {Attempt_failed}"
| "attempt_view Cancelled = {Attempt_cancelled}"
| "attempt_view task_status.Outcome_uncertain = {Attempt_uncertain}"
| "attempt_view _ = UNIV"

definition projected :: "task_row \<Rightarrow> attempt_row \<Rightarrow> bool" where
  "projected t a \<longleftrightarrow> (tr_attempt t = Some (ta_id a) \<longrightarrow>
     ta_task a = tr_id t \<and> ta_status a \<in> attempt_view (tr_status t))"

definition agreeing :: "control_plane \<Rightarrow> bool" where
  "agreeing P \<longleftrightarrow> (\<forall>t \<in> set (pl_tasks P). \<forall>a \<in> set (pl_attempts P). projected t a)"

text \<open>
  Two transactions outside this part of the model end an attempt: the last message of a discovery, and the
  finalization of a task all of whose actions are settled. They write the pair of statuses by the cases
  below; what they write agrees, and is a move of the lifecycle.
\<close>

definition discovery_end :: "str \<Rightarrow> (task_status \<times> attempt_status) option" where
  "discovery_end outcome = map_of
     [(''completed'', (Awaiting_confirmation, Attempt_succeeded)),
      (''login_required'', (Awaiting_platform_login, Attempt_failed)),
      (''handoff_required'', (Awaiting_human, Attempt_failed)),
      (''failed'', (Failed, Attempt_failed))] outcome"

definition settled_result :: "action_outcome list \<Rightarrow> task_status \<times> attempt_status \<times> task_event_type" where
  "settled_result outcomes =
     (let succeeded = length (filter (\<lambda>outcome. outcome = Outcome_succeeded) outcomes) in
      if Outcome_unsure \<in> set outcomes then (task_status.Outcome_uncertain, Attempt_uncertain, Ev_task_outcome_uncertain)
      else if succeeded = length outcomes then (Succeeded, Attempt_succeeded, Ev_task_completed)
      else if succeeded > 0 then (Partially_succeeded, Attempt_partially_succeeded, Ev_task_partially_completed)
      else (Failed, Attempt_failed, Ev_task_failed))"

lemma discovery_end_agrees:
  "discovery_end outcome = Some (s, st) \<Longrightarrow> st \<in> attempt_view s \<and> s \<in> task_transitions Discovering_targets"
  by (auto simp: discovery_end_def split: if_splits)

lemma settled_result_agrees:
  "settled_result outcomes = (s, st, ty) \<Longrightarrow>
     st \<in> attempt_view s \<and> s \<in> task_transitions Running \<and> st \<in> attempt_transitions Attempt_running"
  by (auto simp: settled_result_def Let_def split: if_splits)

lemma pending_plan:
  assumes "pending_of dg now m = Some pe"
  shows "\<exists>plan. event_plans (message_type m) = Some plan \<and> pe_type pe = ep_type plan \<and> pe_task pe = ep_task plan
    \<and> pe_attempt pe = ep_attempt plan \<and> pe_message pe = m \<and> pe_received pe = now \<and> sent_at m \<le> now
    \<and> now < deadline_at m \<and> pe_fingerprint pe = event_fingerprint dg m"
  using assms by (auto simp: pending_of_def checked_pending_def transaction split: if_splits)

lemma plan_targets:
  "event_plans ty = Some plan \<Longrightarrow> (ep_task plan = None \<and> ep_attempt plan = None) \<or>
   (\<exists>s st. ep_task plan = Some s \<and> ep_attempt plan = Some st \<and> st \<in> attempt_view s)"
  by (cases ty) (auto simp: plan_of_def)

lemma task_transition_Inr: "task_transition (Some c) (Some s) = Inr s' \<longleftrightarrow> s \<in> task_transitions c \<and> s' = s"
  by (auto simp: task_transition_def)

lemma next_statuses_move:
  assumes "next_statuses pe opened t a = Some (ty, ts, st)" "pending_of dg now m = Some pe"
  shows "(ts = tr_status t \<and> st = ta_status a \<and> tr_status t \<in> step_task_statuses)
    \<or> (ts \<in> task_transitions (tr_status t) \<and> st \<in> attempt_view ts
      \<and> (st \<in> attempt_transitions (ta_status a) \<or> tr_status t = Running \<and> st = Attempt_awaiting_human))"
proof (cases "opened \<and> tr_status t = Running")
  case True
  then show ?thesis using assms(1) by (auto simp: next_statuses_def task_transition_def)
next
  case False
  then have n: "next_task_status (tr_status t) pe = Some ts" "next_attempt_status (ta_status a) pe = Some st"
    using assms(1) by (auto simp: next_statuses_def bind_eq_Some_conv)
  obtain plan where plan: "event_plans (message_type m) = Some plan" "pe_task pe = ep_task plan"
    "pe_attempt pe = ep_attempt plan" using pending_plan [OF assms(2)] by blast
  from plan_targets [OF plan(1)] show ?thesis
    using n plan(2,3) by (auto simp: next_task_status_def next_attempt_status_def task_transition_Inr
      split: if_split_asm sum.split_asm)
qed

text \<open>What an accepted event does to the tables of tasks and attempts.\<close>

lemma event_rows:
  assumes wf: "plane_wf P" and step: "event_step dg P P'"
  shows "\<exists>now m pe t a ts st ty. pending_of dg now m = Some pe \<and> pe_message pe = m \<and> t \<in> set (pl_tasks P) \<and> a \<in> set (pl_attempts P)
    \<and> tr_attempt t = Some (ta_id a) \<and> ta_task a = tr_id t \<and> tr_id t = task_id m
    \<and> ((ts = tr_status t \<and> st = ta_status a \<and> tr_status t \<in> step_task_statuses)
       \<or> (ts \<in> task_transitions (tr_status t) \<and> st \<in> attempt_view ts
         \<and> (st \<in> attempt_transitions (ta_status a) \<or> tr_status t = Running \<and> st = Attempt_awaiting_human)))
    \<and> pl_tasks P' = map (\<lambda>x. if tr_id x = tr_id t then moved_task pe t ts else x) (pl_tasks P)
    \<and> pl_attempts P' = map (\<lambda>x. if ta_id x = ta_id a then (if st = ta_status a then a else moved_attempt pe a st a) else x)
        (pl_attempts P)
    \<and> pl_events P' = pl_events P @ [event_row_of pe t ty ts]"
proof -
  from event_step_tables [OF step] obtain now m pe t a opened ty ts st T A E where
    pe: "pending_of dg now m = Some pe" "pe_message pe = m" and t: "task_at (task_id m) (installation_id m) P = Some t"
      "tr_attempt t = Some (execution_attempt_id m)" and
    a: "List.find (\<lambda>r. ta_id r = execution_attempt_id m \<and> ta_task r = task_id m
        \<and> ta_installation r = installation_id m) (pl_attempts P) = Some a" and
    n: "next_statuses pe opened t a = Some (ty, ts, st)" and A: "attempts_after pe a st (pl_attempts P) A" and
    E: "sql_insert event_row_ok event_clash (event_row_of pe t ty ts) (pl_events P) = Some E" and
    T: "update_one task_row_ok (\<lambda>r. tr_id r = tr_id t \<and> tr_installation r = tr_installation t
        \<and> tr_revision r = tr_revision t \<and> tr_last_event r = tr_last_event t) (\<lambda>r. moved_task pe r ts) (pl_tasks P) = Some T" and
    P': "pl_tasks P' = T" "pl_attempts P' = A" "pl_events P' = E" by fastforce
  note mt = found_task [OF t(1)] and ma = find_Some_mem [OF a]
  have "T = map (\<lambda>x. if tr_id x = tr_id t then moved_task pe t ts else x) (pl_tasks P)"
    using task_update [OF wf _ T] mt by simp
  moreover note attempt_update [OF wf _ A]
  moreover have "E = pl_events P @ [event_row_of pe t ty ts]" using E by (simp add: sql_insert_Some)
  ultimately show ?thesis
    using pe mt ma t(2) next_statuses_move [OF n pe(1)] P'
    by (intro exI [of _ now] exI [of _ m] exI [of _ pe] exI [of _ t] exI [of _ a] exI [of _ ts] exI [of _ st] exI [of _ ty]) simp
qed

lemma cancel_rows:
  assumes wf: "plane_wf P" and step: "cancel_step P P'"
  shows "\<exists>now t a. t \<in> set (pl_tasks P) \<and> a \<in> set (pl_attempts P) \<and> tr_attempt t = Some (ta_id a)
    \<and> Cancelling \<in> task_transitions (tr_status t) \<and> ta_status a \<in> cancellable_attempt \<and> tr_updated t \<le> now
    \<and> P' = P\<lparr>pl_tasks := map (\<lambda>x. if tr_id x = tr_id t then t\<lparr>tr_status := Cancelling, tr_revision := tr_revision t + 1,
          tr_updated := now\<rparr> else x) (pl_tasks P),
        pl_attempts := map (\<lambda>x. if ta_id x = ta_id a then a\<lparr>ta_status := Attempt_cancelling, ta_revision := ta_revision a + 1,
          ta_updated := now\<rparr> else x) (pl_attempts P)\<rparr>"
proof -
  from cancel_step_tables [OF step] obtain k t a T A where
    t: "t \<in> set (pl_tasks P)" "a \<in> set (pl_attempts P)" "tr_attempt t = Some (ta_id a)" and
    ok: "nk_type k \<in> termination_commands" "control_admitted k t a" and
    T: "update_one task_row_ok (\<lambda>r. tr_id r = tr_id t \<and> tr_installation r = tr_installation t
         \<and> tr_revision r = tr_revision t \<and> tr_status r = tr_status t)
       (\<lambda>r. r\<lparr>tr_status := Cancelling, tr_revision := tr_revision r + 1, tr_updated := nk_created k\<rparr>) (pl_tasks P) = Some T" and
    A: "update_one attempt_row_ok (\<lambda>r. ta_id r = ta_id a \<and> ta_revision r = ta_revision a \<and> ta_status r = ta_status a)
       (\<lambda>r. r\<lparr>ta_status := Attempt_cancelling, ta_revision := ta_revision r + 1, ta_updated := nk_created k\<rparr>)
       (pl_attempts P) = Some A" and
    P': "P' = P\<lparr>pl_tasks := T, pl_attempts := A\<rparr>" by blast
  have T': "T = map (\<lambda>x. if tr_id x = tr_id t then t\<lparr>tr_status := Cancelling, tr_revision := tr_revision t + 1,
          tr_updated := nk_created k\<rparr> else x) (pl_tasks P)" using task_update [OF wf t(1) T] by simp
  have A': "A = map (\<lambda>x. if ta_id x = ta_id a then a\<lparr>ta_status := Attempt_cancelling, ta_revision := ta_revision a + 1,
          ta_updated := nk_created k\<rparr> else x) (pl_attempts P)"
    using attempt_table.update_at_key [where Q = "\<lambda>r. ta_revision r = ta_revision a \<and> ta_status r = ta_status a", OF _ t(2) A] wf
    by (simp add: plane_wf_def)
  have "Cancelling \<in> task_transitions (tr_status t)" "ta_status a \<in> cancellable_attempt" "tr_updated t \<le> nk_created k"
    using ok by (simp_all add: control_admitted_def can_transition_def)
  then show ?thesis using t P' unfolding T' A' by blast
qed

lemma agreeing_after:
  assumes "agreeing P" "t \<in> set (pl_tasks P)" "a \<in> set (pl_attempts P)" "tr_attempt t = Some (ta_id a)"
    "tr_id t' = tr_id t" "tr_attempt t' = tr_attempt t" "ta_id a' = ta_id a" "ta_task a' = ta_task a"
    "ta_status a' \<in> attempt_view (tr_status t')"
    "pl_tasks P' = map (\<lambda>x. if tr_id x = tr_id t then t' else x) (pl_tasks P)"
    "pl_attempts P' = map (\<lambda>x. if ta_id x = ta_id a then a' else x) (pl_attempts P)"
  shows "agreeing P'"
proof -
  have link: "ta_task a = tr_id t" using assms(1-4) by (auto simp: agreeing_def projected_def)
  have each: "projected (if tr_id x = tr_id t then t' else x) (if ta_id y = ta_id a then a' else y)"
    if "x \<in> set (pl_tasks P)" "y \<in> set (pl_attempts P)" for x y
  proof -
    have "projected x y" "projected x a" "projected t y" using assms(1-3) that by (auto simp: agreeing_def)
    then show ?thesis using assms(4-9) link by (auto simp: projected_def)
  qed
  show ?thesis unfolding agreeing_def assms(10,11) set_map using each by blast
qed

text \<open>The two steps that move a task, as one frame.\<close>

definition task_moved :: "task_row \<Rightarrow> task_row \<Rightarrow> control_plane \<Rightarrow> control_plane \<Rightarrow> bool" where
  "task_moved t t' P P' \<longleftrightarrow> t \<in> set (pl_tasks P) \<and> tr_id t' = tr_id t \<and> tr_attempt t' = tr_attempt t
     \<and> tr_installation t' = tr_installation t
     \<and> pl_tasks P' = map (\<lambda>x. if tr_id x = tr_id t then t' else x) (pl_tasks P)
     \<and> (tr_status t' = tr_status t \<and> tr_status t \<in> step_task_statuses \<or> tr_status t' \<in> task_transitions (tr_status t))"

lemma event_task_moved:
  assumes "plane_wf P" "event_step dg P P'"
  shows "\<exists>t t'. task_moved t t' P P'"
proof -
  from event_rows [OF assms] obtain pe t ts where
    t: "t \<in> set (pl_tasks P)" "pl_tasks P' = map (\<lambda>x. if tr_id x = tr_id t then moved_task pe t ts else x) (pl_tasks P)"
    and mv: "ts = tr_status t \<and> tr_status t \<in> step_task_statuses \<or> ts \<in> task_transitions (tr_status t)" by blast
  have "task_moved t (moved_task pe t ts) P P'"
    unfolding task_moved_def using t mv by (simp add: moved_task_def)
  then show ?thesis by blast
qed

lemma cancel_task_moved:
  assumes "plane_wf P" "cancel_step P P'"
  shows "\<exists>t t'. task_moved t t' P P'"
proof -
  from cancel_rows [OF assms] obtain now t A where
    t: "t \<in> set (pl_tasks P)" "Cancelling \<in> task_transitions (tr_status t)"
      "P' = P\<lparr>pl_tasks := map (\<lambda>x. if tr_id x = tr_id t then t\<lparr>tr_status := Cancelling, tr_revision := tr_revision t + 1,
          tr_updated := now\<rparr> else x) (pl_tasks P), pl_attempts := A\<rparr>" by blast
  have "task_moved t (t\<lparr>tr_status := Cancelling, tr_revision := tr_revision t + 1, tr_updated := now\<rparr>) P P'"
    unfolding task_moved_def using t by simp
  then show ?thesis by blast
qed

interpretation agreement: plane_property dg sha "\<lambda>P. plane_wf P \<and> agreeing P" for dg sha
proof
  fix P P'
  assume P: "plane_wf P \<and> agreeing P"
  show "plane_wf P' \<and> agreeing P'" if step: "event_step dg P P'"
  proof
    show "plane_wf P'" using step P constraints.on_event by blast
    from P have "plane_wf P" ..
    from event_rows [OF this step] obtain pe t a ts st where
      t: "t \<in> set (pl_tasks P)" "a \<in> set (pl_attempts P)" "tr_attempt t = Some (ta_id a)" "ta_task a = tr_id t" and
      mv: "ts = tr_status t \<and> st = ta_status a \<and> tr_status t \<in> step_task_statuses
        \<or> ts \<in> task_transitions (tr_status t) \<and> st \<in> attempt_view ts" and
      P': "pl_tasks P' = map (\<lambda>x. if tr_id x = tr_id t then moved_task pe t ts else x) (pl_tasks P)"
      "pl_attempts P' = map (\<lambda>x. if ta_id x = ta_id a then (if st = ta_status a then a else moved_attempt pe a st a) else x)
        (pl_attempts P)" by blast
    have "projected t a" using P t by (simp add: agreeing_def)
    then have "st \<in> attempt_view ts" using mv t by (auto simp: projected_def)
    then show "agreeing P'" using P t
      by (intro agreeing_after [OF _ t(1-3) _ _ _ _ _ P']) (auto simp: moved_task_def moved_attempt_def)
  qed
  show "plane_wf P' \<and> agreeing P'" if step: "cancel_step P P'"
  proof
    show "plane_wf P'" using step P constraints.on_cancel by blast
    from P have "plane_wf P" ..
    from cancel_rows [OF this step] obtain now t a where
      t: "t \<in> set (pl_tasks P)" "a \<in> set (pl_attempts P)" "tr_attempt t = Some (ta_id a)" and
      P': "P' = P\<lparr>pl_tasks := map (\<lambda>x. if tr_id x = tr_id t then t\<lparr>tr_status := Cancelling, tr_revision := tr_revision t + 1,
          tr_updated := now\<rparr> else x) (pl_tasks P),
        pl_attempts := map (\<lambda>x. if ta_id x = ta_id a then a\<lparr>ta_status := Attempt_cancelling, ta_revision := ta_revision a + 1,
          ta_updated := now\<rparr> else x) (pl_attempts P)\<rparr>" by blast
    show "agreeing P'"
      by (rule agreeing_after [OF _ t, where t' = "t\<lparr>tr_status := Cancelling, tr_revision := tr_revision t + 1,
          tr_updated := now\<rparr>" and a' = "a\<lparr>ta_status := Attempt_cancelling, ta_revision := ta_revision a + 1,
          ta_updated := now\<rparr>"]) (simp_all add: P' P [THEN conjunct2])
  qed
  show "plane_wf P' \<and> agreeing P'" if "authorization_step sha P P'"
    using that P constraints.on_authorization authorization_frame [OF that] by (auto simp: agreeing_def)
  show "plane_wf P' \<and> agreeing P'" if "outbox_step P P'"
    using that P constraints.on_outbox outbox_frame [OF that] by (auto simp: agreeing_def)
qed

subsection \<open>Moves of a task\<close>

text \<open>
  What one operation may do to the row of a task: nothing, a step that the last event of the log records, or
  the first termination, which the log learns of by a later event. The status moves along one transition, or
  stays where a task can report the progress of its steps.
\<close>

definition task_move :: "control_plane \<Rightarrow> control_plane \<Rightarrow> task_row \<Rightarrow> task_row \<Rightarrow> bool" where
  "task_move P P' t u \<longleftrightarrow> u = t \<or>
     (tr_id u = tr_id t \<and> tr_installation u = tr_installation t \<and> tr_attempt u = tr_attempt t
      \<and> tr_revision u = tr_revision t + 1 \<and>
      ((\<exists>e. pl_events P' = pl_events P @ [e] \<and> te_task e = tr_id t \<and> te_status e = tr_status u
          \<and> te_revision e = tr_revision u \<and>
          (tr_status u \<in> task_transitions (tr_status t) \<or>
           tr_status u = tr_status t \<and> tr_status t \<in> {Running, Cancelling})) \<or>
       pl_events P' = pl_events P \<and> tr_status u = Cancelling \<and> Cancelling \<in> task_transitions (tr_status t)))"

definition attempt_move :: "attempt_row \<Rightarrow> attempt_row \<Rightarrow> bool" where
  "attempt_move a b \<longleftrightarrow> b = a \<or>
     (ta_id b = ta_id a \<and> ta_task b = ta_task a \<and> ta_revision b = ta_revision a + 1 \<and>
      (ta_status b \<in> attempt_transitions (ta_status a) \<or>
       ta_status b = Attempt_cancelling \<and> ta_status a \<in> cancellable_attempt))"

definition lawful :: "control_plane \<Rightarrow> control_plane \<Rightarrow> bool" where
  "lawful P P' \<longleftrightarrow> list_all2 (task_move P P') (pl_tasks P) (pl_tasks P') \<and>
     (agreeing P \<longrightarrow> list_all2 attempt_move (pl_attempts P) (pl_attempts P'))"

lemma list_all2_moved: "(\<And>x. x \<in> set xs \<Longrightarrow> R x (f x)) \<Longrightarrow> list_all2 R xs (map f xs)"
  by (simp add: list.rel_map list_all2_same)

lemma lawful_frame:
  assumes "pl_tasks P' = pl_tasks P" "pl_attempts P' = pl_attempts P"
  shows "lawful P P'"
  by (simp add: lawful_def assms list_all2_same task_move_def attempt_move_def)

lemma lawful_rows:
  assumes wf: "plane_wf P" and rows: "t \<in> set (pl_tasks P)" "a \<in> set (pl_attempts P)"
    and tasks: "pl_tasks P' = map (\<lambda>x. if tr_id x = tr_id t then t' else x) (pl_tasks P)"
    and attempts: "pl_attempts P' = map (\<lambda>x. if ta_id x = ta_id a then a' else x) (pl_attempts P)"
    and moves: "task_move P P' t t'" "agreeing P \<Longrightarrow> attempt_move a a'"
  shows "lawful P P'"
proof -
  have "x = t" if "x \<in> set (pl_tasks P)" "tr_id x = tr_id t" for x
    using task_table.key_inj [OF _ that(1) rows(1) that(2)] wf by (simp add: plane_wf_def)
  moreover have "x = a" if "x \<in> set (pl_attempts P)" "ta_id x = ta_id a" for x
    using attempt_table.key_inj [OF _ that(1) rows(2) that(2)] wf by (simp add: plane_wf_def)
  ultimately show ?thesis
    unfolding lawful_def tasks attempts using moves
    by (auto intro!: list_all2_moved) (auto simp: task_move_def attempt_move_def)
qed

lemma event_lawful:
  assumes wf: "plane_wf P" and step: "event_step dg P P'"
  shows "lawful P P'"
proof -
  from event_rows [OF assms] obtain m pe t a ts st ty where
    t: "pe_message pe = m" "t \<in> set (pl_tasks P)" "a \<in> set (pl_attempts P)" "tr_attempt t = Some (ta_id a)"
      "ta_task a = tr_id t" "tr_id t = task_id m" and
    mv: "ts = tr_status t \<and> st = ta_status a \<and> tr_status t \<in> step_task_statuses
      \<or> ts \<in> task_transitions (tr_status t) \<and> st \<in> attempt_view ts
        \<and> (st \<in> attempt_transitions (ta_status a) \<or> tr_status t = Running \<and> st = Attempt_awaiting_human)" and
    P': "pl_tasks P' = map (\<lambda>x. if tr_id x = tr_id t then moved_task pe t ts else x) (pl_tasks P)"
      "pl_attempts P' = map (\<lambda>x. if ta_id x = ta_id a then (if st = ta_status a then a else moved_attempt pe a st a) else x)
        (pl_attempts P)"
      "pl_events P' = pl_events P @ [event_row_of pe t ty ts]" by blast
  have "task_move P P' t (moved_task pe t ts)"
    using mv t(1,6) by (auto simp: task_move_def P'(3) moved_task_def event_row_of_def Let_def step_task_statuses_def)
  moreover have "attempt_move a (if st = ta_status a then a else moved_attempt pe a st a)" if "agreeing P"
  proof -
    have "projected t a" using that t by (simp add: agreeing_def)
    then have "tr_status t = Running \<longrightarrow> ta_status a = Attempt_running" using t by (auto simp: projected_def)
    then show ?thesis using mv by (auto simp: attempt_move_def moved_attempt_def)
  qed
  ultimately show ?thesis using lawful_rows [OF wf t(2,3) P'(1,2)] by blast
qed

lemma cancel_lawful:
  assumes wf: "plane_wf P" and step: "cancel_step P P'"
  shows "lawful P P'"
proof -
  from cancel_rows [OF assms] obtain now t a where
    t: "t \<in> set (pl_tasks P)" "a \<in> set (pl_attempts P)" "Cancelling \<in> task_transitions (tr_status t)"
      "ta_status a \<in> cancellable_attempt" and
    P': "P' = P\<lparr>pl_tasks := map (\<lambda>x. if tr_id x = tr_id t then t\<lparr>tr_status := Cancelling, tr_revision := tr_revision t + 1,
          tr_updated := now\<rparr> else x) (pl_tasks P),
        pl_attempts := map (\<lambda>x. if ta_id x = ta_id a then a\<lparr>ta_status := Attempt_cancelling, ta_revision := ta_revision a + 1,
          ta_updated := now\<rparr> else x) (pl_attempts P)\<rparr>" by blast
  show ?thesis
    by (rule lawful_rows [OF wf t(1,2), where t' = "t\<lparr>tr_status := Cancelling, tr_revision := tr_revision t + 1,
          tr_updated := now\<rparr>" and a' = "a\<lparr>ta_status := Attempt_cancelling, ta_revision := ta_revision a + 1,
          ta_updated := now\<rparr>"]) (use t(3,4) in \<open>simp_all add: P' task_move_def attempt_move_def\<close>)
qed

text \<open>One operation is one of the four kinds of step; a first termination follows the row of its command.\<close>

lemma operation_lawful:
  assumes wf: "plane_wf P"
  shows "lawful P (plane_step dg sha op P)"
proof -
  have same: "lawful P P" by (simp add: lawful_frame)
  have out: "lawful P P1" if "outbox_step P P1" for P1 using outbox_frame [OF that] by (auto intro: lawful_frame)
  have each: "lawful P (or_unchanged P r)" if "\<And>c P1. r = Some (c, P1) \<Longrightarrow> outbox_step P P1" for r :: "('z \<times> control_plane) option"
    using same out that by (auto simp: or_unchanged_def split: option.split)
  show ?thesis
  proof (cases op)
    case (Receive now m)
    then show ?thesis using receive_steps [of dg now m P] same event_lawful [OF wf] by auto
  next
    case (Authorize q)
    from authorize_steps [of sha q P] show ?thesis
    proof
      assume "authorization_step sha P (snd (authorize sha q P))"
      from authorization_frame [OF this] show ?thesis by (auto simp: Authorize intro: lawful_frame)
    qed (simp add: Authorize same)
  next
    case (Control k)
    show ?thesis
    proof (cases "enqueue_control k P")
      case (Some r)
      then obtain c created P' where r: "enqueue_control k P = Some (c, created, P')" by (cases r) auto
      from control_steps [OF r] obtain P1 where P1: "outbox_step P P1" "P' = P1 \<or> cancel_step P1 P'" by blast
      have "lawful P P'" if "cancel_step P1 P'"
      proof -
        from outbox_frame [OF P1(1)] obtain C where C: "P1 = P\<lparr>pl_commands := C\<rparr>" by blast
        have "task_move P1 P' = task_move P P'" "agreeing P1 = agreeing P"
          by (intro ext) (simp_all add: C task_move_def agreeing_def)
        then show ?thesis
          using cancel_lawful [OF constraints.on_outbox [OF wf P1(1)] that] by (simp add: lawful_def C)
      qed
      then show ?thesis using P1(2) out [OF P1(1)] by (auto simp: Control r or_unchanged_def)
    qed (simp add: Control or_unchanged_def same)
  qed (auto intro!: each dest: enqueue_outbox_step expire_outbox claim_outbox deliver_outbox release_outbox answer_outbox)
qed

subsection \<open>Finished tasks and settled actions\<close>

definition task_events :: "str \<Rightarrow> control_plane \<Rightarrow> event_row list" where
  "task_events i P = filter (\<lambda>e. te_task e = i) (pl_events P)"

lemma not_moved:
  assumes "plane_wf P" "u \<in> set (pl_tasks P)" "tr_status u \<in> terminal_statuses" "task_moved t t' P P'"
  shows "u \<in> set (pl_tasks P') \<and> tr_id t \<noteq> tr_id u"
proof -
  have "tr_id t \<noteq> tr_id u"
  proof
    assume "tr_id t = tr_id u"
    then have "u = t" using task_table.key_inj [of "pl_tasks P" u t] assms(1,2,4) by (simp add: plane_wf_def task_moved_def)
    then show False using assms(3,4) task.terminal_iff_stuck [of "tr_status t"]
      by (auto simp: task_moved_def step_task_statuses_def terminal_statuses_def)
  qed
  then show ?thesis using assms(2,4) by (force simp: task_moved_def)
qed

definition finished_as :: "task_row \<Rightarrow> event_row list \<Rightarrow> control_plane \<Rightarrow> bool" where
  "finished_as u es P \<longleftrightarrow> u \<in> set (pl_tasks P) \<and> task_events (tr_id u) P = es"

interpretation finish: plane_property dg sha "\<lambda>P. plane_wf P \<and> tr_status u \<in> terminal_statuses \<and> finished_as u es P"
  for dg sha u es
proof
  fix P P'
  assume P: "plane_wf P \<and> tr_status u \<in> terminal_statuses \<and> finished_as u es P"
  then have wf: "plane_wf P" and u: "u \<in> set (pl_tasks P)" "tr_status u \<in> terminal_statuses" by (auto simp: finished_as_def)
  show "plane_wf P' \<and> tr_status u \<in> terminal_statuses \<and> finished_as u es P'" if step: "event_step dg P P'"
  proof -
    from event_rows [OF wf step] obtain m pe t ts ty where
      t: "pe_message pe = m" "t \<in> set (pl_tasks P)" "tr_id t = task_id m" and
      mv: "ts = tr_status t \<and> tr_status t \<in> step_task_statuses \<or> ts \<in> task_transitions (tr_status t)" and
      P': "pl_tasks P' = map (\<lambda>x. if tr_id x = tr_id t then moved_task pe t ts else x) (pl_tasks P)"
      "pl_events P' = pl_events P @ [event_row_of pe t ty ts]" by blast
    have "task_moved t (moved_task pe t ts) P P'"
      using t mv P' by (simp add: task_moved_def) (simp add: moved_task_def)
    from not_moved [OF wf u this] t(1,3) P have "finished_as u es P'"
      by (auto simp: finished_as_def task_events_def P'(2) event_row_of_def Let_def)
    then show ?thesis using P step constraints.on_event by blast
  qed
  show "plane_wf P' \<and> tr_status u \<in> terminal_statuses \<and> finished_as u es P'" if step: "cancel_step P P'"
  proof -
    from cancel_task_moved [OF wf step] obtain t t' where "task_moved t t' P P'" by blast
    from not_moved [OF wf u this] P cancel_rows [OF wf step] have "finished_as u es P'"
      by (auto simp: finished_as_def task_events_def)
    then show ?thesis using P step constraints.on_cancel by blast
  qed
  show "plane_wf P' \<and> tr_status u \<in> terminal_statuses \<and> finished_as u es P'" if "authorization_step sha P P'"
    using that P constraints.on_authorization authorization_frame [OF that] by (auto simp: finished_as_def task_events_def)
  show "plane_wf P' \<and> tr_status u \<in> terminal_statuses \<and> finished_as u es P'" if "outbox_step P P'"
    using that P constraints.on_outbox outbox_frame [OF that] by (auto simp: finished_as_def task_events_def)
qed

lemma validate_pending: "validate_action x pe = Some r \<Longrightarrow> tx_outcome x = Outcome_pending"
  by (auto simp: validate_action_def Let_def split: if_split_asm)

lemma action_step_row:
  assumes "action_step pe P = Some (Some (y, st, out))"
  shows "y \<in> set (pl_actions P) \<and> tx_outcome y = Outcome_pending"
proof (cases "pe_action pe")
  case (Some aid)
  with assms obtain r where r: "List.find (\<lambda>r. tx_id r = aid \<and> tx_attempt r = execution_attempt_id (pe_message pe)
      \<and> tx_task r = task_id (pe_message pe) \<and> tx_installation r = installation_id (pe_message pe)) (pl_actions P) = Some r"
    "validate_action r pe = Some (st, out)" "y = r"
    by (auto simp: action_step_def transaction)
  show ?thesis using find_Some_mem [OF r(1)] validate_pending [OF r(2)] r(3) by simp
qed (use assms in \<open>simp add: action_step_def\<close>)

lemma actions_keep_settled:
  assumes "sql_wf action_row_ok action_clash rows" "x \<in> set rows" "tx_outcome x \<noteq> Outcome_pending"
    "actions_after pe (Some (y, st, out)) rows rows'" "y \<in> set rows" "tx_outcome y = Outcome_pending"
  shows "x \<in> set rows'"
proof -
  have "tx_id x \<noteq> tx_id y" using action_table.key_inj [OF assms(1,2,5)] assms(3,6) by auto
  then show ?thesis using assms(2,4) by (force simp: actions_after_def update_one_Some split: if_split_asm)
qed

interpretation settled: plane_property dg sha
  "\<lambda>P. plane_wf P \<and> tx_outcome x \<noteq> Outcome_pending \<and> x \<in> set (pl_actions P)" for dg sha x
proof
  fix P P'
  assume P: "plane_wf P \<and> tx_outcome x \<noteq> Outcome_pending \<and> x \<in> set (pl_actions P)"
  show "plane_wf P' \<and> tx_outcome x \<noteq> Outcome_pending \<and> x \<in> set (pl_actions P')" if step: "event_step dg P P'"
  proof -
    from event_step_tables [OF step] obtain pe a' X where
      s: "action_step pe P = Some a'" "actions_after pe a' (pl_actions P) X" "pl_actions P' = X" by fastforce
    have "x \<in> set X"
    proof (cases a')
      case None
      then show ?thesis using s P by (simp add: actions_after_def)
    next
      case (Some r)
      then obtain y st out where r: "a' = Some (y, st, out)" by (cases r) auto
      then have "y \<in> set (pl_actions P)" "tx_outcome y = Outcome_pending"
        using action_step_row [of pe P y st out] s(1) by simp_all
      then show ?thesis using P s(2) r by (auto simp: plane_wf_def intro: actions_keep_settled [of "pl_actions P" x pe y st out])
    qed
    then show ?thesis using s(3) P step constraints.on_event by blast
  qed
  show "plane_wf P' \<and> tx_outcome x \<noteq> Outcome_pending \<and> x \<in> set (pl_actions P')" if step: "cancel_step P P'"
    using step P constraints.on_cancel cancel_rows [OF _ step] by fastforce
  show "plane_wf P' \<and> tx_outcome x \<noteq> Outcome_pending \<and> x \<in> set (pl_actions P')" if step: "authorization_step sha P P'"
    using step P constraints.on_authorization authorization_step_tables [OF step] by (fastforce simp: sql_insert_Some)
  show "plane_wf P' \<and> tx_outcome x \<noteq> Outcome_pending \<and> x \<in> set (pl_actions P')" if "outbox_step P P'"
    using that P constraints.on_outbox outbox_frame [OF that] by auto
qed

end
