(* ===== verification/Plane_Risk.thy ===== *)
theory Plane_Risk
  imports Plane_Safety
begin

text \<open>
  The failure circuits in every history: a handoff is earned by consecutive failures, an open circuit waits
  for the task that opened it; and the accounts of the authorizations.
\<close>

lemma cancel_frame: "cancel_step P P' \<Longrightarrow> \<exists>T A. P' = P\<lparr>pl_tasks := T, pl_attempts := A\<rparr>"
  by (drule cancel_step_tables) blast

subsection \<open>Failures in a row\<close>

definition result_scope :: "risk_result_row \<Rightarrow> str \<times> exposure_action" where
  "result_scope r = (rz_installation r, rz_action r)"

definition trailing :: "str \<times> exposure_action \<Rightarrow> risk_result_row list \<Rightarrow> int" where
  "trailing s rs = int (length (takeWhile (\<lambda>r. rz_outcome r = Outcome_failed)
     (rev (filter (\<lambda>r. result_scope r = s) rs))))"

lemma trailing_nonneg [simp]: "0 \<le> trailing s rs"
  by (simp add: trailing_def)

lemma trailing_snoc:
  "trailing s (rs @ [r]) = (if result_scope r \<noteq> s then trailing s rs
     else if rz_outcome r = Outcome_failed then trailing s rs + 1 else 0)"
  by (simp add: trailing_def)

text \<open>Each handoff closes a row of at least its threshold of failures.\<close>

fun earned :: "risk_result_row list \<Rightarrow> risk_result_row list \<Rightarrow> bool" where
  "earned pre [] = True"
| "earned pre (r # rs) \<longleftrightarrow>
     (rz_handoff r \<longrightarrow> rz_threshold r \<le> trailing (result_scope r) (pre @ [r])) \<and> earned (pre @ [r]) rs"

lemma earned_snoc:
  "earned pre (rs @ [r]) \<longleftrightarrow> earned pre rs
     \<and> (rz_handoff r \<longrightarrow> rz_threshold r \<le> trailing (result_scope r) (pre @ rs @ [r]))"
  by (induction rs arbitrary: pre) auto

lemma earned_at:
  "earned pre (ps @ r # qs) \<Longrightarrow> rz_handoff r \<Longrightarrow> rz_threshold r \<le> trailing (result_scope r) (pre @ ps @ [r])"
proof (induction ps arbitrary: pre)
  case (Cons p ps)
  then show ?case using Cons.IH [of "pre @ [p]"] by simp
qed simp

definition grounded :: "control_plane \<Rightarrow> bool" where
  "grounded P \<longleftrightarrow> earned [] (pl_results P)
     \<and> (\<forall>c \<in> set (pl_circuits P). \<not> fc_open c \<longrightarrow> fc_failures c \<le> trailing (circuit_scope c) (pl_results P))"

text \<open>What an accepted event does to the circuits.\<close>

definition recorded :: "authorization_row \<Rightarrow> action_outcome \<Rightarrow> int \<Rightarrow> instant \<Rightarrow> control_plane \<Rightarrow> control_plane \<Rightarrow> bool" where
  "recorded az out n now P P' \<longleftrightarrow> (let c = circuit_at (az_installation az) (az_action az) P in
     out \<in> {Outcome_succeeded, Outcome_failed} \<and> failures_after c out = Some n
     \<and> pl_results P' = pl_results P @ [risk_result az c out n now]
     \<and> circuits_after az c out n now (pl_circuits P) (pl_circuits P'))"

definition cleared :: "pending_event \<Rightarrow> circuit_row \<Rightarrow> control_plane \<Rightarrow> control_plane \<Rightarrow> bool" where
  "cleared pe c P P' \<longleftrightarrow> owned_circuit pe P = Some c \<and> pl_results P' = pl_results P
     \<and> update_one circuit_ok (\<lambda>r. circuit_scope r = circuit_scope c \<and> fc_revision r = fc_revision c)
         (closed_circuit c (pe_received pe)) (pl_circuits P) = Some (pl_circuits P')
     \<and> (\<exists>e. pl_events P' = pl_events P @ [e] \<and> te_type e = Ev_task_resumed \<and> te_task e = task_id (pe_message pe))"

lemma final_outcome:
  "final_result pe P = Some (az, out) \<Longrightarrow> out \<in> {Outcome_succeeded, Outcome_failed}
     \<and> message_type (pe_message pe) \<noteq> M_task_resumed"
  by (auto simp: final_result_def bind_eq_Some_conv split: if_split_asm)

lemma not_owned: "message_type (pe_message pe) \<noteq> M_task_resumed \<Longrightarrow> owned_circuit pe P = None"
  by (simp add: owned_circuit_def)

lemma event_risk:
  assumes step: "event_step dg P P'"
  shows "(pl_results P' = pl_results P \<and> pl_circuits P' = pl_circuits P)
    \<or> (\<exists>az out n now. recorded az out n now P P') \<or> (\<exists>pe c. cleared pe c P P')"
proof -
  from event_step_tables [OF step] obtain now m pe t a opened P1 P2 ty ts st E where
    pe: "pending_of dg now m = Some pe" "pe_message pe = m" and
    r: "record_risk_result pe P = Some (opened, P1)" "clear_owned_circuit pe P1 = Some P2"
      "next_statuses pe opened t a = Some (ty, ts, st)" and
    E: "sql_insert event_row_ok event_clash (event_row_of pe t ty ts) (pl_events P) = Some E" and
    P': "pl_results P' = pl_results P2" "pl_circuits P' = pl_circuits P2" "pl_events P' = E" by fastforce
  show ?thesis
  proof (cases "final_result pe P")
    case None
    then have P1: "\<not> opened" "P1 = P" using record_None [OF r(1)] by auto
    show ?thesis
    proof (cases "owned_circuit pe P")
      case None
      then show ?thesis using r(2) P1 P' by (simp add: clear_owned_circuit_def)
    next
      case (Some c)
      then have ty: "message_type m = M_task_resumed" using not_owned pe(2) by fastforce
      have "pe_type pe = Ev_task_resumed" using pending_plan [OF pe(1)] ty by (auto simp: plan_of_def)
      then have "ty = Ev_task_resumed" using r(3) P1(1) by (auto simp: next_statuses_def bind_eq_Some_conv)
      then have "\<exists>e. pl_events P' = pl_events P @ [e] \<and> te_type e = Ev_task_resumed \<and> te_task e = task_id m"
        using E P'(3) pe(2) by (auto simp: sql_insert_Some event_row_of_def Let_def)
      then have "cleared pe c P P'"
        using Some r(2) P1 P' pe(2) by (auto simp: cleared_def clear_owned_circuit_def update_circuit_def transaction)
      then show ?thesis by blast
    qed
  next
    case (Some f)
    then obtain az out where f: "final_result pe P = Some (az, out)" by (cases f) auto
    note out = final_outcome [OF f]
    have P2: "P2 = P1" using r(2) not_owned [of pe P1] out by (simp add: clear_owned_circuit_def)
    from record_Some [OF r(1) f] obtain n R C where
      "failures_after (circuit_at (az_installation az) (az_action az) P) out = Some n"
      "sql_insert risk_result_ok (same_key rz_action_id)
        (risk_result az (circuit_at (az_installation az) (az_action az) P) out n (pe_received pe)) (pl_results P) = Some R"
      "circuits_after az (circuit_at (az_installation az) (az_action az) P) out n (pe_received pe) (pl_circuits P) C"
      "P1 = P\<lparr>pl_circuits := C, pl_results := R\<rparr>" by blast
    then have "recorded az out n (pe_received pe) P P'"
      using out P' P2 by (simp add: recorded_def Let_def sql_insert_Some)
    then show ?thesis by blast
  qed
qed

lemma circuit_found: "circuit_at i x P = Some c \<Longrightarrow> c \<in> set (pl_circuits P) \<and> circuit_scope c = (i, x)"
  unfolding circuit_at_def by (rule sql_lookup_SomeD)

lemma circuit_update:
  assumes "plane_wf P" "c \<in> set (pl_circuits P)"
    and "update_one circuit_ok (\<lambda>r. circuit_scope r = circuit_scope c \<and> fc_revision r = fc_revision c) f (pl_circuits P) = Some C"
  shows "C = map (\<lambda>x. if circuit_scope x = circuit_scope c then f c else x) (pl_circuits P)"
  using circuit_table.update_at_key [where Q = "\<lambda>r. fc_revision r = fc_revision c", OF _ assms(2,3)] assms(1)
  by (simp add: plane_wf_def)

lemma grounded_recorded:
  assumes wf: "plane_wf P" and g: "grounded P" and rec: "recorded az out n now P P'"
  shows "grounded P'"
proof -
  let ?s = "(az_installation az, az_action az)"
  define c where "c = circuit_at (az_installation az) (az_action az) P"
  define r where "r = risk_result az c out n now"
  have out: "out \<in> {Outcome_succeeded, Outcome_failed}" "failures_after c out = Some n" and
    R: "pl_results P' = pl_results P @ [r]" and C: "circuits_after az c out n now (pl_circuits P) (pl_circuits P')"
    using rec by (simp_all add: recorded_def Let_def c_def r_def)
  have rs: "result_scope r = ?s" "rz_outcome r = out" "rz_threshold r = az_threshold az"
    "rz_handoff r = opened_now az c out n" by (simp_all add: r_def risk_result_def result_scope_def)
  have below: "n \<le> trailing ?s (pl_results P')" if closed: "\<not> already_open c"
  proof (cases c)
    case None
    then show ?thesis using out closed rs by (auto simp: R trailing_snoc failures_after_def prior_failures_def split: if_split_asm)
  next
    case (Some d)
    have d: "d \<in> set (pl_circuits P)" "circuit_scope d = ?s" using circuit_found Some c_def by metis+
    then have "fc_failures d \<le> trailing ?s (pl_results P)" using g closed Some by (force simp: grounded_def already_open_def)
    then show ?thesis using out closed rs Some
      by (auto simp: R trailing_snoc failures_after_def prior_failures_def split: if_split_asm)
  qed
  have "rz_handoff r \<longrightarrow> rz_threshold r \<le> trailing ?s (pl_results P')"
    using below rs by (auto simp: opened_now_def)
  then have "earned [] (pl_results P')" using g rs by (simp add: grounded_def R earned_snoc)
  moreover have "fc_failures d \<le> trailing (circuit_scope d) (pl_results P')"
    if "d \<in> set (pl_circuits P')" "\<not> fc_open d" for d
  proof (cases "circuit_scope d = ?s")
    case False
    then have "d \<in> set (pl_circuits P)"
    proof (cases c)
      case None
      then show ?thesis using C that(1) False
        by (auto simp: circuits_after_def sql_insert_Some first_circuit_def Let_def circuit_scope_def)
    next
      case (Some e)
      then have e: "e \<in> set (pl_circuits P)" "circuit_scope e = ?s" using circuit_found c_def by metis+
      have "pl_circuits P' = map (\<lambda>x. if circuit_scope x = circuit_scope e then next_circuit az e out n now e else x) (pl_circuits P)"
        using C Some by (intro circuit_update [OF wf e(1)]) (simp add: circuits_after_def)
      then show ?thesis using that(1) False e(2) by (auto split: if_split_asm)
    qed
    then show ?thesis using False g that(2) rs(1) by (auto simp: grounded_def R trailing_snoc)
  next
    case True
    show ?thesis
    proof (cases c)
      case None
      then have "pl_circuits P' = pl_circuits P @ [first_circuit az out n now]"
        using C by (simp add: circuits_after_def sql_insert_Some)
      moreover have "?s \<notin> circuit_scope ` set (pl_circuits P)" using None
        by (simp add: c_def circuit_at_def sql_lookup_None)
      then have "d \<notin> set (pl_circuits P)" using True by (metis imageI)
      ultimately have "d = first_circuit az out n now" using that(1) by simp
      then show ?thesis using below None True by (simp add: already_open_def first_circuit_def Let_def)
    next
      case (Some e)
      then have e: "e \<in> set (pl_circuits P)" "circuit_scope e = ?s" using circuit_found c_def by metis+
      have "pl_circuits P' = map (\<lambda>x. if circuit_scope x = circuit_scope e then next_circuit az e out n now e else x) (pl_circuits P)"
        using C Some by (intro circuit_update [OF wf e(1)]) (simp add: circuits_after_def)
      then have "d = next_circuit az e out n now e" using that(1) True e(2) by (auto split: if_split_asm)
      then show ?thesis using below Some True that(2) by (simp add: already_open_def next_circuit_def Let_def)
    qed
  qed
  ultimately show ?thesis by (simp add: grounded_def)
qed

lemma owned_mem: "owned_circuit pe P = Some c \<Longrightarrow> c \<in> set (pl_circuits P) \<and> fc_open c"
  by (auto simp: owned_circuit_def transaction dest!: find_Some_mem)

lemma cleared_rows:
  assumes "plane_wf P" "cleared pe c P P'"
  shows "pl_circuits P' = map (\<lambda>x. if circuit_scope x = circuit_scope c then closed_circuit c (pe_received pe) c else x) (pl_circuits P)"
  using assms owned_mem by (intro circuit_update [OF assms(1)]) (auto simp: cleared_def)

lemma grounded_cleared:
  assumes "plane_wf P" "grounded P" "cleared pe c P P'"
  shows "grounded P'"
proof -
  have "pl_results P' = pl_results P" using assms(3) by (simp add: cleared_def)
  then show ?thesis using assms(2) cleared_rows [OF assms(1,3)]
    by (auto simp: grounded_def closed_circuit_def split: if_split_asm)
qed

lemma grounded_same:
  "pl_results P' = pl_results P \<and> pl_circuits P' = pl_circuits P \<Longrightarrow> grounded P \<Longrightarrow> grounded P'"
  by (simp add: grounded_def)

interpretation circuits: plane_property dg sha "\<lambda>P. plane_wf P \<and> grounded P" for dg sha
proof
  fix P P'
  assume P: "plane_wf P \<and> grounded P"
  show "plane_wf P' \<and> grounded P'" if step: "event_step dg P P'"
  proof
    show "plane_wf P'" using step P constraints.on_event by blast
    from event_risk [OF step] show "grounded P'"
      using P by (blast intro: grounded_recorded grounded_cleared grounded_same)
  qed
  show "plane_wf P' \<and> grounded P'" if step: "cancel_step P P'"
    using step P constraints.on_cancel cancel_frame [OF step] by (auto simp: grounded_def)
  show "plane_wf P' \<and> grounded P'" if "authorization_step sha P P'"
    using that P constraints.on_authorization authorization_frame [OF that] by (auto simp: grounded_def)
  show "plane_wf P' \<and> grounded P'" if "outbox_step P P'"
    using that P constraints.on_outbox outbox_frame [OF that] by (auto simp: grounded_def)
qed

subsection \<open>Open circuits\<close>

definition open_for :: "str \<times> exposure_action \<Rightarrow> str \<Rightarrow> control_plane \<Rightarrow> bool" where
  "open_for s x P \<longleftrightarrow> (\<exists>c \<in> set (pl_circuits P). circuit_scope c = s \<and> fc_open c \<and> fc_opened_by c = Some x)"

definition authorized_for :: "str \<Rightarrow> str \<Rightarrow> control_plane \<Rightarrow> bool" where
  "authorized_for x task P \<longleftrightarrow> (\<exists>az \<in> set (pl_authorizations P). az_action_id az = x \<and> az_task az = task)"

definition resumed_since :: "nat \<Rightarrow> str \<Rightarrow> control_plane \<Rightarrow> bool" where
  "resumed_since n task P \<longleftrightarrow> list_ex (\<lambda>e. te_type e = Ev_task_resumed \<and> te_task e = task) (drop n (pl_events P))"

lemma open_recorded:
  assumes wf: "plane_wf P" and o: "open_for s x P" and rec: "recorded az out n now P P'"
  shows "open_for s x P'"
proof -
  define d where "d = circuit_at (az_installation az) (az_action az) P"
  from o obtain c where c: "c \<in> set (pl_circuits P)" "circuit_scope c = s" "fc_open c" "fc_opened_by c = Some x"
    unfolding open_for_def by blast
  have C: "circuits_after az d out n now (pl_circuits P) (pl_circuits P')" using rec by (simp add: recorded_def Let_def d_def)
  show ?thesis
  proof (cases d)
    case None
    then show ?thesis using C c by (auto simp: circuits_after_def sql_insert_Some open_for_def)
  next
    case (Some e)
    then have e: "e \<in> set (pl_circuits P)" using circuit_found d_def by metis
    have C': "pl_circuits P' = map (\<lambda>x. if circuit_scope x = circuit_scope e then next_circuit az e out n now e else x) (pl_circuits P)"
      using C Some by (intro circuit_update [OF wf e]) (simp add: circuits_after_def)
    show ?thesis
    proof (cases "circuit_scope c = circuit_scope e")
      case True
      then have "c = e" using circuit_table.key_inj [OF _ c(1) e] wf by (simp add: plane_wf_def)
      then have "next_circuit az e out n now e \<in> set (pl_circuits P')" "circuit_scope (next_circuit az e out n now e) = s"
        "fc_open (next_circuit az e out n now e)" "fc_opened_by (next_circuit az e out n now e) = Some x"
        using c C' e by (force, simp_all add: next_circuit_def Let_def opened_now_def already_open_def circuit_scope_def)
      then show ?thesis unfolding open_for_def by blast
    next
      case False
      then have "c \<in> set (pl_circuits P')" using c(1) C' by force
      then show ?thesis using c unfolding open_for_def by blast
    qed
  qed
qed

lemma open_cleared:
  assumes wf: "plane_wf P" and o: "open_for s x P" "authorized_for x task P" and cl: "cleared pe d P P'"
    and n: "n \<le> length (pl_events P)"
  shows "open_for s x P' \<or> resumed_since n task P'"
proof -
  from o obtain c where c: "c \<in> set (pl_circuits P)" "circuit_scope c = s" "fc_open c" "fc_opened_by c = Some x"
    unfolding open_for_def by blast
  have own: "owned_circuit pe P = Some d" and d: "d \<in> set (pl_circuits P)"
    using cl owned_mem by (auto simp: cleared_def)
  note C' = cleared_rows [OF wf cl]
  show ?thesis
  proof (cases "circuit_scope c = circuit_scope d")
    case True
    then have "c = d" using circuit_table.key_inj [OF _ c(1) d] wf by (simp add: plane_wf_def)
    with own c(4) obtain az where az: "sql_lookup az_action_id x (pl_authorizations P) = Some az" "az_task az = task_id (pe_message pe)"
      by (auto simp: owned_circuit_def transaction)
    have "az_task az = task"
      using o(2) sql_lookup_SomeD [OF az(1)] authorization_table.key_inj [of "pl_authorizations P" _ az] wf
      by (auto simp: authorized_for_def plane_wf_def)
    moreover obtain e where e: "pl_events P' = pl_events P @ [e]" "te_type e = Ev_task_resumed" "te_task e = task_id (pe_message pe)"
      using cl by (auto simp: cleared_def)
    ultimately have "resumed_since n task P'" using n az(2) by (simp add: resumed_since_def)
    then show ?thesis ..
  next
    case False
    then have "c \<in> set (pl_circuits P')" using c(1) C' by force
    then show ?thesis using c unfolding open_for_def by blast
  qed
qed

definition waits :: "str \<times> exposure_action \<Rightarrow> str \<Rightarrow> str \<Rightarrow> nat \<Rightarrow> control_plane \<Rightarrow> bool" where
  "waits s x task n P \<longleftrightarrow> plane_wf P \<and> authorized_for x task P \<and> n \<le> length (pl_events P)
     \<and> (open_for s x P \<or> resumed_since n task P)"

lemma event_appends:
  assumes "event_step dg P P'"
  shows "\<exists>e. pl_events P' = pl_events P @ [e] \<and> pl_authorizations P' = pl_authorizations P"
  using event_step_tables [OF assms] by (fastforce simp: sql_insert_Some)

lemma waits_event:
  assumes w: "waits s x task n P" and step: "event_step dg P P'"
  shows "waits s x task n P'"
proof -
  have wf: "plane_wf P" and az: "authorized_for x task P" and n: "n \<le> length (pl_events P)" using w by (simp_all add: waits_def)
  obtain e where e: "pl_events P' = pl_events P @ [e]" "pl_authorizations P' = pl_authorizations P"
    using event_appends [OF step] by blast
  have "open_for s x P' \<or> resumed_since n task P'"
  proof (cases "open_for s x P")
    case True
    from event_risk [OF step] show ?thesis
    proof (elim disjE exE)
      assume "pl_results P' = pl_results P \<and> pl_circuits P' = pl_circuits P"
      then show ?thesis using True by (simp add: open_for_def)
    next
      fix az out k now assume "recorded az out k now P P'"
      then show ?thesis using open_recorded [OF wf True] by blast
    next
      fix pe c assume "cleared pe c P P'"
      then show ?thesis using open_cleared [OF wf True az _ n] by blast
    qed
  next
    case False
    then have "resumed_since n task P" using w by (simp add: waits_def)
    then show ?thesis using e n by (simp add: resumed_since_def)
  qed
  moreover have "plane_wf P'" using constraints.on_event [OF wf step] .
  ultimately show ?thesis using az n e by (simp add: waits_def authorized_for_def)
qed

interpretation waiting: plane_property dg sha "waits s x task n" for dg sha s x task n
proof
  fix P P'
  assume P: "waits s x task n P"
  then have wf: "plane_wf P" by (simp add: waits_def)
  show "waits s x task n P'" if "event_step dg P P'"
    using that P waits_event by blast
  show "waits s x task n P'" if step: "cancel_step P P'"
    using P constraints.on_cancel [OF wf step] cancel_frame [OF step]
    by (auto simp: waits_def authorized_for_def open_for_def resumed_since_def)
  show "waits s x task n P'" if step: "authorization_step sha P P'"
  proof -
    have "\<exists>X z. P' = P\<lparr>pl_actions := X, pl_authorizations := pl_authorizations P @ [z]\<rparr>"
      using authorization_step_tables [OF step] by (auto simp: sql_insert_Some)
    then show ?thesis using P constraints.on_authorization [OF wf step]
      by (auto simp: waits_def authorized_for_def open_for_def resumed_since_def)
  qed
  show "waits s x task n P'" if step: "outbox_step P P'"
    using P constraints.on_outbox [OF wf step] outbox_frame [OF step]
    by (auto simp: waits_def authorized_for_def open_for_def resumed_since_def)
qed

subsection \<open>Accounts of the authorizations\<close>

definition same_scope :: "authorization_row \<Rightarrow> authorization_row \<Rightarrow> bool" where
  "same_scope a b \<longleftrightarrow> az_installation a = az_installation b \<and> az_action a = az_action b"

definition same_task :: "authorization_row \<Rightarrow> authorization_row \<Rightarrow> bool" where
  "same_task a b \<longleftrightarrow> az_task a = az_task b \<and> az_action a = az_action b"

definition same_day :: "authorization_row \<Rightarrow> authorization_row \<Rightarrow> bool" where
  "same_day a b \<longleftrightarrow> same_scope a b \<and> az_day a = az_day b"

definition accounted :: "authorization_row list \<Rightarrow> authorization_row \<Rightarrow> bool" where
  "accounted pre b \<longleftrightarrow> az_task_count b = 1 + int (length (filter (\<lambda>a. same_task a b) pre))
     \<and> az_daily_count b = 1 + int (length (filter (\<lambda>a. same_day a b) pre))
     \<and> (\<forall>a \<in> set pre. same_scope a b \<longrightarrow> az_authorized a + seconds (az_interval b) \<le> az_authorized b)"

fun accounts :: "authorization_row list \<Rightarrow> authorization_row list \<Rightarrow> bool" where
  "accounts pre [] = True"
| "accounts pre (b # bs) \<longleftrightarrow> accounted pre b \<and> accounts (pre @ [b]) bs"

lemma accounts_append: "accounts pre (as @ bs) \<longleftrightarrow> accounts pre as \<and> accounts (pre @ as) bs"
  by (induction as arbitrary: pre) auto

lemma foldr_max_ge: "x \<in> set (t # ts) \<Longrightarrow> x \<le> foldr max ts (t :: int)"
  by (induction ts) auto

lemma newest_ge:
  "a \<in> set (scope_authorizations q P) \<Longrightarrow> \<exists>m. newest_authorization q P = Some m \<and> az_authorized a \<le> m"
proof -
  assume a: "a \<in> set (scope_authorizations q P)"
  then obtain z zs where z: "scope_authorizations q P = z # zs" by (cases "scope_authorizations q P") auto
  have "az_authorized a \<in> set (az_authorized z # map az_authorized zs)" using a z by auto
  from foldr_max_ge [OF this] show ?thesis using z by (simp add: newest_authorization_def)
qed

lemma new_accounted:
  assumes "limit_reached q d P = None"
  shows "accounted (pl_authorizations P) (new_authorization q d g P)"
proof -
  let ?z = "new_authorization q d g P"
  have z: "az_task ?z = aq_task q" "az_action ?z = po_action (aq_policy q)" "az_installation ?z = aq_installation q"
    "az_day ?z = utc_day (aq_time q)" "az_interval ?z = effective_interval q d" "az_authorized ?z = aq_time q"
    "az_task_count ?z = int (length (task_authorizations q P)) + 1"
    "az_daily_count ?z = int (length (daily_authorizations q P)) + 1"
    by (simp_all add: new_authorization_def)
  have "filter (\<lambda>a. same_task a ?z) (pl_authorizations P) = task_authorizations q P"
    by (simp add: same_task_def z task_authorizations_def)
  moreover have "filter (\<lambda>a. same_day a ?z) (pl_authorizations P) = daily_authorizations q P"
    by (simp add: same_day_def same_scope_def z daily_authorizations_def scope_authorizations_def)
  moreover have "az_authorized a + seconds (effective_interval q d) \<le> aq_time q"
    if "a \<in> set (pl_authorizations P)" "same_scope a ?z" for a
  proof -
    have "a \<in> set (scope_authorizations q P)" using that z by (simp add: scope_authorizations_def same_scope_def)
    from newest_ge [OF this] show ?thesis using assms by (auto simp: limit_reached_def split: if_split_asm)
  qed
  ultimately show ?thesis by (simp add: accounted_def z)
qed

interpretation books: plane_property dg sha "\<lambda>P. plane_wf P \<and> accounts [] (pl_authorizations P)" for dg sha
proof
  fix P P'
  assume P: "plane_wf P \<and> accounts [] (pl_authorizations P)"
  show "plane_wf P' \<and> accounts [] (pl_authorizations P')" if step: "event_step dg P P'"
    using step P constraints.on_event event_appends [OF step] by auto
  show "plane_wf P' \<and> accounts [] (pl_authorizations P')" if step: "cancel_step P P'"
    using step P constraints.on_cancel cancel_frame [OF step] by auto
  show "plane_wf P' \<and> accounts [] (pl_authorizations P')" if step: "authorization_step sha P P'"
    using step P constraints.on_authorization authorization_step_tables [OF step]
    by (auto simp: sql_insert_Some accounts_append new_accounted)
  show "plane_wf P' \<and> accounts [] (pl_authorizations P')" if "outbox_step P P'"
    using that P constraints.on_outbox outbox_frame [OF that] by auto
qed

end
