(* ===== verification/Plane_Delivery.thy ===== *)
theory Plane_Delivery
  imports Plane_Risk
begin

text \<open>
  One event and its redeliveries: an accepted event stays known, a known event changes nothing, and the next
  event of a task that asks for a legal move is accepted.
\<close>

subsection \<open>Redelivery\<close>

lemma sql_clash_eq:
  assumes "sql_wf row_ok clash rows" "a \<in> set rows" "b \<in> set rows" "clash a b" "\<And>x y. clash x y \<Longrightarrow> clash y x"
  shows "a = b"
  using assms(1-4)
proof (induction rows)
  case (Cons r rows)
  then have "sql_wf row_ok clash rows" "\<forall>x \<in> set rows. \<not> clash r x" by (simp_all add: sql_wf_def)
  then show ?case using Cons assms(5) by (metis set_ConsD)
qed simp

lemma event_clash_sym: "event_clash a b \<Longrightarrow> event_clash b a"
  unfolding event_clash_def by metis

lemma find_event:
  assumes "plane_wf P" "e \<in> set (pl_events P)" "Q e" "\<And>x. Q x \<Longrightarrow> event_clash x e"
  shows "List.find Q (pl_events P) = Some e"
proof (cases "List.find Q (pl_events P)")
  case None
  then show ?thesis using assms(2,3) by (auto simp: find_None_iff)
next
  case (Some x)
  then have "x \<in> set (pl_events P)" "Q x" using find_Some_mem [OF Some] by simp_all
  then have "x = e" using sql_clash_eq [of event_row_ok event_clash "pl_events P" x e] assms event_clash_sym
    by (auto simp: plane_wf_def)
  then show ?thesis using Some by simp
qed

definition event_of :: "(envelope \<Rightarrow> bytes) \<Rightarrow> envelope \<Rightarrow> event_row \<Rightarrow> bool" where
  "event_of dg m e \<longleftrightarrow> te_installation e = installation_id m \<and> te_message e = Some (message_id m)
     \<and> te_key e = idempotency_key m \<and> te_fingerprint e = event_fingerprint dg m"

definition accepted_as :: "(envelope \<Rightarrow> bytes) \<Rightarrow> envelope \<Rightarrow> control_plane \<Rightarrow> bool" where
  "accepted_as dg m P \<longleftrightarrow> plane_wf P \<and> (\<exists>e \<in> set (pl_events P). event_of dg m e)
     \<and> (\<exists>r \<in> set (pl_installations P). in_id r = installation_id m)
     \<and> (\<exists>t \<in> set (pl_tasks P). tr_id t = task_id m \<and> tr_installation t = installation_id m
          \<and> tr_attempt t = Some (execution_attempt_id m))"

lemma accepted_moved:
  assumes "accepted_as dg m P" "task_moved t t' P P'" "plane_wf P'" "set (pl_events P) \<subseteq> set (pl_events P')"
    "pl_installations P' = pl_installations P"
  shows "accepted_as dg m P'"
proof -
  obtain u where u: "u \<in> set (pl_tasks P)" "tr_id u = task_id m" "tr_installation u = installation_id m"
    "tr_attempt u = Some (execution_attempt_id m)" using assms(1) unfolding accepted_as_def by blast
  have t: "t \<in> set (pl_tasks P)" "tr_id t' = tr_id t" "tr_attempt t' = tr_attempt t" "tr_installation t' = tr_installation t"
    "pl_tasks P' = map (\<lambda>x. if tr_id x = tr_id t then t' else x) (pl_tasks P)" using assms(2) by (simp_all add: task_moved_def)
  define v where "v = (if tr_id u = tr_id t then t' else u)"
  have "u = t" if "tr_id u = tr_id t"
    using task_table.key_inj [OF _ u(1) t(1) that] assms(1) by (simp add: accepted_as_def plane_wf_def)
  then have "tr_id v = task_id m" "tr_installation v = installation_id m" "tr_attempt v = Some (execution_attempt_id m)"
    using u t by (auto simp: v_def)
  moreover have "v \<in> set (pl_tasks P')" unfolding t(5) v_def using u(1) by auto
  ultimately show ?thesis using assms(1,3-5) unfolding accepted_as_def by (metis subsetD)
qed

interpretation acceptance: plane_property dg' sha "accepted_as dg m" for dg' sha dg m
proof
  fix P P'
  assume P: "accepted_as dg m P"
  then have wf: "plane_wf P" by (simp add: accepted_as_def)
  show "accepted_as dg m P'" if step: "event_step dg' P P'"
  proof -
    obtain t t' where "task_moved t t' P P'" using event_task_moved [OF wf step] by blast
    moreover have "pl_installations P' = pl_installations P" using event_step_tables [OF step] by fastforce
    ultimately show ?thesis
      using P event_appends [OF step] constraints.on_event [OF wf step] by (elim accepted_moved) auto
  qed
  show "accepted_as dg m P'" if step: "cancel_step P P'"
  proof -
    obtain t t' where "task_moved t t' P P'" using cancel_task_moved [OF wf step] by blast
    then show ?thesis using P cancel_frame [OF step] constraints.on_cancel [OF wf step] by (elim accepted_moved) auto
  qed
  show "accepted_as dg m P'" if step: "authorization_step sha P P'"
    using P constraints.on_authorization [OF wf step] authorization_frame [OF step] by (auto simp: accepted_as_def)
  show "accepted_as dg m P'" if step: "outbox_step P P'"
    using P constraints.on_outbox [OF wf step] outbox_frame [OF step] by (auto simp: accepted_as_def)
qed

lemma received_accepted:
  assumes "plane_wf P" "receive_event dg now m P = (Some (s, False), P')"
  shows "accepted_as dg m P' \<and> (\<exists>pe. pending_of dg now m = Some pe)"
proof -
  obtain pe where pe: "pending_of dg now m = Some pe" and c: "converge pe P = Some (s, False, P')"
    using assms(2) by (auto simp: receive_event_def split: option.split_asm prod.split_asm)
  have m: "pe_message pe = m" "pe_fingerprint pe = event_fingerprint dg m" using pending_plan [OF pe] by auto
  from c obtain t known where i: "List.find (\<lambda>r. in_id r = installation_id m) (pl_installations P) \<noteq> None" and
    t: "task_at (task_id m) (installation_id m) P = Some t" "tr_attempt t = Some (execution_attempt_id m)" and
    n: "replay_of pe P = Some known" "(if known then Some (snapshot_of t, True, P)
      else Option.bind (converge_new pe t P) (\<lambda>(s, P'). Some (s, False, P'))) = Some (s, False, P')"
    by (auto simp: converge_def transaction task_at_def m)
  then have new: "\<not> known" "converge_new pe t P = Some (s, P')" by (auto simp: bind_eq_Some_conv split: if_split_asm)
  have "replay_of pe P = Some False" using n(1) new(1) by simp
  then have step: "event_step dg P P'" unfolding event_step_def using pe t new(2) by blast
  from converge_new_tables [OF new(2)] obtain ty ts E where
    E: "sql_insert event_row_ok event_clash (event_row_of pe t ty ts) (pl_events P) = Some E" "pl_events P' = E"
      "pl_installations P' = pl_installations P" by fastforce
  have "event_of dg m (event_row_of pe t ty ts)" by (simp add: event_of_def event_row_of_def Let_def m)
  then have e: "\<exists>e \<in> set (pl_events P'). event_of dg m e" using E by (auto simp: sql_insert_Some)
  have r: "\<exists>r \<in> set (pl_installations P'). in_id r = installation_id m"
    using i E(3) by (auto dest!: find_Some_mem)
  obtain u u' where mv: "task_moved u u' P P'" using event_task_moved [OF assms(1) step] by blast
  have "\<exists>v \<in> set (pl_tasks P'). tr_id v = task_id m \<and> tr_installation v = installation_id m
      \<and> tr_attempt v = Some (execution_attempt_id m)"
  proof (cases "tr_id t = tr_id u")
    case True
    then have "t = u" using task_table.key_inj [of "pl_tasks P" t u] assms(1) mv found_task [OF t(1)]
      by (simp add: plane_wf_def task_moved_def)
    then have "u' \<in> set (pl_tasks P')" using mv by (force simp: task_moved_def)
    then show ?thesis using mv \<open>t = u\<close> t(2) found_task [OF t(1)] by (metis task_moved_def)
  next
    case False
    then have "t \<in> set (pl_tasks P')" using mv found_task [OF t(1)] by (force simp: task_moved_def)
    then show ?thesis using t(2) found_task [OF t(1)] by blast
  qed
  then show ?thesis using constraints.on_event [OF assms(1) step] e r pe by (simp add: accepted_as_def)
qed

lemma replay_found:
  assumes "plane_wf P" "e \<in> set (pl_events P)" "te_installation e = installation_id (pe_message pe)"
    "te_key e = idempotency_key (pe_message pe)"
  shows "replay_of pe P \<noteq> Some False"
proof -
  have "List.find (\<lambda>e. te_installation e = installation_id (pe_message pe) \<and> te_key e = idempotency_key (pe_message pe))
      (pl_events P) = Some e"
    by (rule find_event [OF assms(1,2)]) (use assms(3,4) in \<open>auto simp: event_clash_def\<close>)
  then show ?thesis by (simp add: replay_of_def Let_def)
qed

lemma known_key_unchanged:
  assumes "plane_wf P" "e \<in> set (pl_events P)" "te_installation e = installation_id m" "te_key e = idempotency_key m"
  shows "snd (receive_event dg now m P) = P"
proof (cases "pending_of dg now m")
  case (Some pe)
  then have "pe_message pe = m" using pending_plan by blast
  then have "replay_of pe P \<noteq> Some False" using replay_found assms by blast
  then show ?thesis using Some
    by (auto simp: receive_event_def converge_def transaction split: option.split)
qed (simp add: receive_event_def)

lemma pending_again:
  "pending_of dg now m = Some pe \<Longrightarrow> sent_at m \<le> now' \<Longrightarrow> now' < deadline_at m \<Longrightarrow>
   pending_of dg now' m = Some (pe\<lparr>pe_received := now'\<rparr>)"
  by (auto simp: pending_of_def checked_pending_def transaction Let_def split: if_split_asm)

lemma redelivered:
  assumes acc: "accepted_as dg m P" and pe: "pending_of dg now m = Some pe" and i: "sent_at m \<le> now'" "now' < deadline_at m"
  shows "\<exists>t \<in> set (pl_tasks P). tr_id t = task_id m \<and> receive_event dg now' m P = (Some (snapshot_of t, True), P)"
proof -
  have wf: "plane_wf P" using acc by (simp add: accepted_as_def)
  let ?pe = "pe\<lparr>pe_received := now'\<rparr>"
  have m: "pe_message pe = m" "pe_fingerprint pe = event_fingerprint dg m" using pending_plan [OF pe] by auto
  obtain e r t where e: "e \<in> set (pl_events P)" "event_of dg m e" and
    r: "r \<in> set (pl_installations P)" "in_id r = installation_id m" and
    t: "t \<in> set (pl_tasks P)" "tr_id t = task_id m" "tr_installation t = installation_id m"
      "tr_attempt t = Some (execution_attempt_id m)" using acc unfolding accepted_as_def by blast
  have "List.find (\<lambda>e. te_installation e = installation_id m \<and> te_message e = Some (message_id m)) (pl_events P) = Some e"
    by (rule find_event [OF wf e(1)]) (use e(2) in \<open>auto simp: event_clash_def event_of_def\<close>)
  moreover have "List.find (\<lambda>e. te_installation e = installation_id m \<and> te_key e = idempotency_key m) (pl_events P) = Some e"
    by (rule find_event [OF wf e(1)]) (use e(2) in \<open>auto simp: event_clash_def event_of_def\<close>)
  ultimately have "replay_of ?pe P = Some True"
    using e(2) m by (simp add: replay_of_def Let_def event_of_def)
  moreover have "List.find (\<lambda>r. tr_id r = task_id m \<and> tr_installation r = installation_id m) (pl_tasks P) = Some t"
  proof (cases "List.find (\<lambda>r. tr_id r = task_id m \<and> tr_installation r = installation_id m) (pl_tasks P)")
    case None
    then show ?thesis using t by (auto simp: find_None_iff)
  next
    case (Some u)
    then have "u = t" using find_Some_mem [OF Some] t task_table.key_inj [of "pl_tasks P" u t] wf by (simp add: plane_wf_def)
    then show ?thesis using Some by simp
  qed
  moreover have "List.find (\<lambda>r. in_id r = installation_id m) (pl_installations P) \<noteq> None"
    using r by (auto simp: find_None_iff)
  ultimately have "converge ?pe P = Some (snapshot_of t, True, P)" using t(4) m by (auto simp: converge_def require_def)
  then show ?thesis using t pending_again [OF pe i] by (auto simp: receive_event_def)
qed

subsection \<open>Acceptance\<close>

text \<open>An event that names no action, comes next in its task and asks for a legal move.\<close>

definition next_event :: "(envelope \<Rightarrow> bytes) \<Rightarrow> envelope \<Rightarrow> instant \<Rightarrow> task_row \<Rightarrow> attempt_row \<Rightarrow> bool" where
  "next_event dg m now t a \<longleftrightarrow> sent_at m \<le> now \<and> now < deadline_at m \<and> tr_updated t \<le> now \<and> ta_updated a \<le> now
     \<and> payload m = P_object [] \<and> length (event_fingerprint dg m) = 32
     \<and> is_canonical_uuid_v4 (message_id m) \<and> idempotency_key_ok (idempotency_key m)
     \<and> task_id m = tr_id t \<and> installation_id m = tr_installation t \<and> tr_attempt t = Some (ta_id a)
     \<and> ta_task a = tr_id t \<and> ta_installation a = tr_installation t \<and> execution_attempt_id m = ta_id a
     \<and> sequence m = tr_last_event t + 1 \<and> sequence m \<le> max_cross_runtime_sequence"

definition unknown_event :: "envelope \<Rightarrow> control_plane \<Rightarrow> bool" where
  "unknown_event m P \<longleftrightarrow> list_all (\<lambda>e. te_installation e = installation_id m \<longrightarrow>
     te_message e \<noteq> Some (message_id m) \<and> te_key e \<noteq> idempotency_key m) (pl_events P)"

lemma pending_plain:
  assumes "next_event dg m now t a" "event_plans (message_type m) = Some plan" "ep_task plan = Some s"
  shows "pending_of dg now m = Some \<lparr>pe_message = m, pe_type = ep_type plan, pe_task = ep_task plan,
    pe_attempt = ep_attempt plan, pe_action = None, pe_status = None, pe_outcome = None, pe_progress = None,
    pe_fingerprint = event_fingerprint dg m, pe_received = now, pe_evidence = None\<rparr>"
proof -
  have "action_plan_of (message_type m) [] = Some no_action"
    using assms(2,3) by (cases "message_type m")
      (auto simp: plan_of_def action_plan_of_def action_event_types_def payload_evidence_def get_field_def no_action_def
        payload_progress_def)
  then show ?thesis using assms(1,2)
    by (simp add: pending_of_def next_event_def no_action_def checked_pending_def evidence_matches_def Let_def)
qed

lemma plain_inserted:
  assumes "plane_wf P" "log_ok P" "t \<in> set (pl_tasks P)" "next_event dg m now t a" "unknown_event m P"
    "pending_of dg now m = Some pe" "pe_action pe = None" "pe_progress pe = None"
  shows "sql_insert event_row_ok event_clash (event_row_of pe t ty ts) (pl_events P) = Some (pl_events P @ [event_row_of pe t ty ts])"
proof -
  let ?e = "event_row_of pe t ty ts"
  note m = pending_plan [OF assms(6)] assms(4) [unfolded next_event_def]
  have "te_sequence e \<noteq> sequence m" if "e \<in> set (pl_events P)" "te_task e = task_id m" for e
    using assms(2-4) that by (force simp: log_ok_def numbered_def next_event_def)
  then have "\<not> event_clash e ?e" if "e \<in> set (pl_events P)" for e
    using that assms(5) m by (auto simp: event_clash_def event_row_of_def Let_def unknown_event_def list_all_iff)
  moreover have "0 < tr_revision t" "0 \<le> tr_last_event t"
    using assms(1,3) by (auto simp: plane_wf_def task_row_ok_def dest: sql_wf_row)
  then have "event_row_ok ?e" using m assms(7,8)
    by (auto simp: event_row_ok_def event_row_of_def Let_def sequence_ok_def)
  ultimately show ?thesis by (simp add: sql_insert_Some)
qed

context keyed_table
begin

lemma update_at_key_Some:
  assumes "sql_wf row_ok clash rows" "r \<in> set rows" "Q r" "row_ok (f r)"
  shows "update_one row_ok (\<lambda>x. key x = key r \<and> Q x) f rows = Some (map (\<lambda>x. if key x = key r then f r else x) rows)"
proof -
  have "sql_rowcount (\<lambda>x. key x = key r \<and> Q x) rows = 1"
    using rowcount_at_key [OF assms(1)] lookup_row [OF assms(1,2)] assms(3) by simp
  moreover have "row_ok (f x)" if "x \<in> set rows" "key x = key r" for x
    using key_inj [OF assms(1) that(1) assms(2) that(2)] assms(4) by simp
  ultimately show ?thesis using map_at_key [where Q = Q and f = f, OF assms(1-3)] by (simp add: update_one_Some)
qed

end

lemma attempt_move_strict: "st \<in> attempt_transitions s \<Longrightarrow> st \<noteq> s"
  by (cases s) auto

lemma moved_attempt_row:
  assumes "attempt_row_ok a" "st \<in> attempt_transitions (ta_status a)" "ta_updated a \<le> pe_received pe"
  shows "attempt_row_ok (moved_attempt pe a st a)"
proof -
  have "ta_status a \<notin> terminal_attempt" using attempt.terminal_iff_stuck assms(2) by auto
  then show ?thesis using assms by (auto simp: attempt_row_ok_def moved_attempt_def coalesce_def split: option.split_asm)
qed

lemma plain_converges:
  assumes wf: "plane_wf P" "log_ok P" and rows: "t \<in> set (pl_tasks P)" "a \<in> set (pl_attempts P)"
    and m: "next_event dg m now t a" "unknown_event m P" and plan: "event_plans (message_type m) = Some plan"
      "ep_task plan = Some s" "ep_attempt plan = Some st" "message_type m \<noteq> M_task_resumed"
    and free: "expected_controls (message_type m) (tr_status t) = None"
    and moves: "s \<in> task_transitions (tr_status t)" "st \<in> attempt_transitions (ta_status a)"
    and pe: "pending_of dg now m = Some pe" "pe_task pe = Some s" "pe_attempt pe = Some st" "pe_action pe = None"
      "pe_progress pe = None"
  shows "converge_new pe t P = Some (snapshot_of (moved_task pe t s), P\<lparr>
    pl_tasks := map (\<lambda>x. if tr_id x = tr_id t then moved_task pe t s else x) (pl_tasks P),
    pl_attempts := map (\<lambda>x. if ta_id x = ta_id a then moved_attempt pe a st a else x) (pl_attempts P),
    pl_events := pl_events P @ [event_row_of pe t (pe_type pe) s]\<rparr>)"
proof -
  note pm = pending_plan [OF pe(1)]
  note nx = m(1) [unfolded next_event_def]
  have pem: "pe_message pe = m" "pe_received pe = now" using pm by auto
  have "List.find (\<lambda>r. ta_id r = execution_attempt_id m \<and> ta_task r = task_id m \<and> ta_installation r = installation_id m)
      (pl_attempts P) = Some a"
  proof (cases "List.find (\<lambda>r. ta_id r = execution_attempt_id m \<and> ta_task r = task_id m \<and> ta_installation r = installation_id m)
      (pl_attempts P)")
    case None
    then show ?thesis using rows(2) nx by (auto simp: find_None_iff)
  next
    case (Some b)
    then have "b = a" using find_Some_mem [OF Some] nx attempt_table.key_inj [OF _ _ rows(2), of b] wf(1)
      by (simp add: plane_wf_def)
    then show ?thesis using Some by simp
  qed
  moreover have "attempt_row_ok a" using sql_wf_row [OF _ rows(2), of attempt_row_ok "same_key ta_id"] wf(1) by (simp add: plane_wf_def)
  then have "move_attempt pe a st P =
      Some (P\<lparr>pl_attempts := map (\<lambda>x. if ta_id x = ta_id a then moved_attempt pe a st a else x) (pl_attempts P)\<rparr>)"
    using attempt_table.update_at_key_Some [where Q = "\<lambda>r. ta_revision r = ta_revision a", OF _ rows(2)]
      moved_attempt_row [OF _ moves(2), of pe] attempt_move_strict [OF moves(2)] wf(1) nx pem
    by (simp add: move_attempt_def plane_wf_def)
  moreover have "task_row_ok t" using sql_wf_row [OF _ rows(1), of task_row_ok "same_key tr_id"] wf(1) by (simp add: plane_wf_def)
  then have "task_row_ok (moved_task pe t s)"
    using nx pem by (auto simp: task_row_ok_def moved_task_def)
  then have "update_one task_row_ok (\<lambda>r. tr_id r = tr_id t \<and> tr_installation r = tr_installation t
        \<and> tr_revision r = tr_revision t \<and> tr_last_event r = tr_last_event t) (\<lambda>r. moved_task pe r s) (pl_tasks P)
      = Some (map (\<lambda>x. if tr_id x = tr_id t then moved_task pe t s else x) (pl_tasks P))"
    using wf(1) rows(1) by (intro task_table.update_at_key_Some) (simp_all add: plane_wf_def)
  moreover note plain_inserted [OF wf rows(1) m pe(1,4,5)]
  moreover have "final_result pe P = None" "owned_circuit pe P = None" "control_confirmed pe (tr_status t) P"
    "action_step pe P = Some None" "next_statuses pe False t a = Some (pe_type pe, s, st)"
    using pe plan(4) free moves pem not_owned [of pe P]
    by (simp_all add: final_result_def control_confirmed_def action_step_def next_statuses_def next_task_status_def
        next_attempt_status_def task_transition_def)
  ultimately show ?thesis using nx pem
    by (simp add: converge_new_def record_risk_result_def clear_owned_circuit_def
        move_action_def append_event_def move_task_def)
qed

lemma replay_unknown:
  "unknown_event m P \<Longrightarrow> pe_message pe = m \<Longrightarrow> replay_of pe P = Some False"
proof -
  assume u: "unknown_event m P" and m: "pe_message pe = m"
  have "List.find (\<lambda>e. te_installation e = installation_id m \<and> te_message e = Some (message_id m)) (pl_events P) = None"
    "List.find (\<lambda>e. te_installation e = installation_id m \<and> te_key e = idempotency_key m) (pl_events P) = None"
    using u by (auto simp: find_None_iff unknown_event_def list_all_iff)
  then show ?thesis using m by (simp add: replay_of_def)
qed

lemma task_found: "plane_wf P \<Longrightarrow> t \<in> set (pl_tasks P) \<Longrightarrow> task_at (tr_id t) (tr_installation t) P = Some t"
proof -
  assume wf: "plane_wf P" and t: "t \<in> set (pl_tasks P)"
  show ?thesis
  proof (cases "task_at (tr_id t) (tr_installation t) P")
    case None
    then show ?thesis using t by (auto simp: task_at_def find_None_iff)
  next
    case (Some u)
    then show ?thesis using found_task [OF Some] task_table.key_inj [OF _ _ t, of u] wf by (simp add: plane_wf_def)
  qed
qed

subsection \<open>Refusals\<close>

text \<open>
  A success or an uncertain outcome is refused for an action that is not known to be dispatched; only
  \<open>step.started\<close> makes it so.
\<close>

lemma undispatched_result_refused:
  "tx_status x \<noteq> Action_dispatched \<Longrightarrow> pe_status pe \<noteq> Some Action_dispatched \<Longrightarrow> pe_outcome pe \<noteq> Some Outcome_failed \<Longrightarrow>
   validate_action x pe = None"
  by (auto simp: validate_action_def Let_def)

text \<open>A resumption cannot be asked for a task that a failure circuit has handed over to a human.\<close>

lemma resume_refused_awaiting_human:
  "nk_type k = M_task_resume \<Longrightarrow> tr_status t = Awaiting_human \<Longrightarrow> \<not> control_admitted k t a"
  by (simp add: control_admitted_def termination_commands_def)

end
