(* ===== verification/Plane_Properties.thy ===== *)
theory Plane_Properties
  imports Plane_Delivery Samples
begin

text \<open>
  What the Control Plane promises about the events of its executors, over whole histories of its operations.
  \<open>dg\<close> digests a message, \<open>sha\<close> is SHA-256; both are arbitrary.
\<close>

subsection \<open>Samples\<close>

definition sample_digest :: "envelope \<Rightarrow> bytes" where
  "sample_digest m = fingerprint_a"

definition sample_sha :: "bytes \<Rightarrow> bytes" where
  "sample_sha b = fingerprint_b"

definition sample_task :: task_row where
  "sample_task = \<lparr>tr_id = the_task, tr_installation = installation, tr_attempt = Some the_attempt, tr_last_event = 0,
     tr_status = Running, tr_revision = 3, tr_created = 0, tr_updated = seconds 5\<rparr>"

definition sample_attempt :: attempt_row where
  "sample_attempt = \<lparr>ta_id = the_attempt, ta_task = the_task, ta_installation = installation,
     ta_status = Attempt_running, ta_revision = 2, ta_created = 0, ta_updated = seconds 5,
     ta_started = Some (seconds 5), ta_finished = None\<rparr>"

definition sample_action :: action_row where
  "sample_action = \<lparr>tx_id = the_action, tx_attempt = the_attempt, tx_task = the_task, tx_installation = installation,
     tx_ordinal = 1, tx_status = Action_dispatched, tx_outcome = Outcome_pending, tx_evidence = None,
     tx_revision = 2, tx_created = seconds 6, tx_updated = seconds 7, tx_finished = None\<rparr>"

definition sample_authorization :: authorization_row where
  "sample_authorization = \<lparr>az_action_id = the_action, az_target = the_target, az_attempt = the_attempt, az_task = the_task,
     az_installation = installation, az_ordinal = 1, az_action = Comment, az_interval = 30, az_task_limit = 2,
     az_daily_limit = 5, az_threshold = 1, az_task_count = 1, az_daily_count = 1, az_day = 0,
     az_authorized = seconds 6\<rparr>"

text \<open>A running task with one dispatched comment, and a second target confirmed with it.\<close>

definition sample_plane :: control_plane where
  "sample_plane = \<lparr>
     pl_installations = [\<lparr>in_id = installation, in_status = Installation_active\<rparr>],
     pl_tasks = [sample_task], pl_attempts = [sample_attempt], pl_actions = [sample_action],
     pl_authorizations = [sample_authorization], pl_results = [], pl_circuits = [], pl_events = [],
     pl_definitions = [\<lparr>td_task = the_task, td_installation = installation, td_action = Comment,
       td_template = Some ''hello'', td_interval = 30\<rparr>],
     pl_confirmations = [\<lparr>cf_task = the_task, cf_installation = installation, cf_message = uuid CHR ''c'', cf_page = 1,
       cf_selection = 1, cf_revision = 2, cf_count = 2, cf_action = Comment, cf_template = Some ''hello'',
       cf_fingerprint = fingerprint_b, cf_confirmed = seconds 4\<rparr>],
     pl_targets = [\<lparr>tg_id = the_target, tg_task = the_task, tg_installation = installation, tg_ordinal = 1, tg_page = 1,
         tg_disposition = Eligible\<rparr>,
       \<lparr>tg_id = uuid CHR ''9'', tg_task = the_task, tg_installation = installation, tg_ordinal = 2, tg_page = 1,
         tg_disposition = Eligible\<rparr>],
     pl_exclusions = [], pl_healthy = [installation], pl_gates = [], pl_commands = []\<rparr>"

definition second_request :: authorization_request where
  "second_request = \<lparr>aq_action_id = uuid CHR ''d'', aq_target = uuid CHR ''9'', aq_attempt = the_attempt, aq_task = the_task,
     aq_installation = installation, aq_policy = \<lparr>po_installation = installation, po_action = Comment, po_interval = 20,
       po_task_limit = 2, po_daily_limit = 5, po_threshold = 1\<rparr>, aq_time = seconds 40\<rparr>"

definition failed_event :: envelope where
  "failed_event = message CHR ''f'' M_step_failed 1 (P_object [(''action_id'', JStr the_action)])"

definition completed_event :: envelope where
  "completed_event = message CHR ''e'' M_task_completed 1 (P_object [])"

lemmas sample_rows = sample_plane_def sample_task_def sample_attempt_def sample_action_def sample_authorization_def

lemma sample_plane_wf: "plane_wf sample_plane" by code_simp

lemma sample_log: "log_ok sample_plane"
  by (auto simp: log_ok_def numbered_def sample_rows)

definition opened_plane :: control_plane where
  "opened_plane = plane_step sample_digest sample_sha (Receive (seconds 20) failed_event) sample_plane"

lemma opened_receive:
  "fst (receive_event sample_digest (seconds 20) failed_event sample_plane) = Some
    (\<lparr>sh_task = the_task, sh_status = Awaiting_human, sh_revision = 4, sh_last_event = 1, sh_updated = seconds 20\<rparr>, False)"
  by code_simp

lemma second_authorized:
  "pl_authorizations (plane_step sample_digest sample_sha (Authorize second_request) sample_plane) =
     [sample_authorization, sample_authorization\<lparr>az_action_id := uuid CHR ''d'', az_target := uuid CHR ''9'', az_ordinal := 2,
       az_task_count := 2, az_daily_count := 2, az_authorized := seconds 40\<rparr>]"
  by code_simp

lemma opened_rows:
  "open_for (installation, Comment) the_action opened_plane" "authorized_for the_action the_task opened_plane"
  "pl_results opened_plane = [\<lparr>rz_action_id = the_action, rz_installation = installation, rz_action = Comment,
     rz_outcome = Outcome_failed, rz_failures = 1, rz_threshold = 1, rz_open = True, rz_handoff = True, rz_observed = seconds 20\<rparr>]"
  by code_simp+


subsection \<open>Properties\<close>

text \<open>
  C9. An executor event converges once. After an event was accepted, and whatever the Control Plane does then,
  a message of the same intent (a redelivery, or the same event under a new message identifier) changes
  nothing, and the event itself is answered, until its deadline, as a duplicate with the current
  state of its task.
\<close>

theorem event_converges_once:
  assumes "plane_wf P" "receive_event dg now m P = (Some (s, False), P')" "intent_of m' = intent_of m"
  shows "snd (receive_event dg now' m' (plane_run dg sha ops P')) = plane_run dg sha ops P'
    \<and> (sent_at m \<le> now' \<and> now' < deadline_at m \<longrightarrow>
        (\<exists>t \<in> set (pl_tasks (plane_run dg sha ops P')). tr_id t = task_id m
          \<and> receive_event dg now' m (plane_run dg sha ops P') = (Some (snapshot_of t, True), plane_run dg sha ops P')))"
proof -
  let ?P = "plane_run dg sha ops P'"
  obtain pe where pe: "pending_of dg now m = Some pe" and "accepted_as dg m P'" using received_accepted [OF assms(1,2)] by blast
  from acceptance.keeps_run [OF this(2)] have acc: "accepted_as dg m ?P" .
  then obtain e where e: "plane_wf ?P" "e \<in> set (pl_events ?P)" "event_of dg m e" unfolding accepted_as_def by blast
  have "installation_id m' = installation_id m" "idempotency_key m' = idempotency_key m"
    using arg_cong [OF assms(3), of installation_id] arg_cong [OF assms(3), of idempotency_key] by (simp_all add: intent_of_def)
  then have "snd (receive_event dg now' m' ?P) = ?P" using e known_key_unchanged [of ?P e m' dg now'] by (simp add: event_of_def)
  then show ?thesis using redelivered [OF acc pe] by blast
qed

theorem event_converges_once_witness:
  "snd (receive_event sample_digest (seconds 30) (failed_event\<lparr>message_id := uuid CHR ''0''\<rparr>) opened_plane) = opened_plane"
proof -
  obtain s P' where r: "receive_event sample_digest (seconds 20) failed_event sample_plane = (Some (s, False), P')" "P' = opened_plane"
    using opened_receive by (cases "receive_event sample_digest (seconds 20) failed_event sample_plane")
      (simp add: opened_plane_def)
  show ?thesis
    using event_converges_once [OF sample_plane_wf r(1), of "failed_event\<lparr>message_id := uuid CHR ''0''\<rparr>" "seconds 30" sample_sha "[]"] r(2)
    by (simp add: intent_of_def)
qed

text \<open>
  C12. The event log of every history is complete and in order: the events of each task are numbered from
  one to its last event without a gap, none is newer than its task, and revisions and times of
  recording grow with the numbers.
\<close>

theorem event_log_in_order:
  assumes "plane_wf P" "log_ok P"
  shows "log_ok (plane_run dg sha ops P)"
  using event_log.keeps_run [of P dg sha ops] assms by simp

theorem event_log_in_order_witness:
  "log_ok (plane_run sample_digest sample_sha [Receive (seconds 20) failed_event] sample_plane)"
  by (rule event_log_in_order [OF sample_plane_wf sample_log])

text \<open>
  C11. A task follows its lifecycle, operation by operation. Whatever the history before it, one operation
  keeps the rows of the tasks at their places and gives a row at most one move: one transition of the task
  lifecycle (or, in Running and Cancelling, a report of progress that leaves the status), with the next
  revision and an event at the end of the log that records the new status; or the move to Cancelling by a
  first termination, which adds no event. Where the current attempts agree with their tasks at the start,
  they agree after every operation, and each attempt makes at most one move, along a transition of its own
  lifecycle or from a status that can be cancelled to cancelling.
\<close>

theorem task_follows_lifecycle:
  assumes "plane_wf P" "P1 = plane_run dg sha ops P" "P2 = plane_step dg sha op P1"
  shows "list_all2 (task_move P1 P2) (pl_tasks P1) (pl_tasks P2)
    \<and> (agreeing P \<longrightarrow> agreeing P2 \<and> list_all2 attempt_move (pl_attempts P1) (pl_attempts P2))"
proof -
  have "lawful P1 P2"
    using operation_lawful constraints.keeps_run [OF assms(1)] assms(2,3) by metis
  moreover have "agreeing P1 \<and> agreeing P2" if "agreeing P"
    using agreement.keeps_run [of P dg sha ops] agreement.keeps_step [of P1 dg sha op] assms that by simp
  ultimately show ?thesis by (auto simp: lawful_def)
qed

theorem task_follows_lifecycle_witness:
  "\<exists>t u. pl_tasks sample_plane = [t] \<and> pl_tasks opened_plane = [u] \<and> task_move sample_plane opened_plane t u
     \<and> tr_status t = Running \<and> tr_status u = Awaiting_human \<and> agreeing opened_plane
     \<and> list_all2 attempt_move (pl_attempts sample_plane) (pl_attempts opened_plane)"
proof -
  have P1: "sample_plane = plane_run sample_digest sample_sha [] sample_plane" by simp
  have P2: "opened_plane = plane_step sample_digest sample_sha (Receive (seconds 20) failed_event) sample_plane"
    by (simp only: opened_plane_def)
  have t: "pl_tasks sample_plane = [sample_task]" "tr_status sample_task = Running" "agreeing sample_plane"
    by (simp_all add: sample_rows agreeing_def projected_def)
  have u: "map tr_status (pl_tasks opened_plane) = [Awaiting_human]" by code_simp
  from task_follows_lifecycle [OF sample_plane_wf P1 P2] t u show ?thesis
    by (auto simp: list_all2_Cons1)
qed

text \<open>
  C15. What is settled stays. No history changes the row of a task in a terminal status or adds an event to
  it, and none changes the row of an action that has an outcome.
\<close>

theorem settled_rows_final:
  assumes "plane_wf P"
  shows "(t \<in> set (pl_tasks P) \<and> tr_status t \<in> terminal_statuses \<longrightarrow>
      t \<in> set (pl_tasks (plane_run dg sha ops P)) \<and> task_events (tr_id t) (plane_run dg sha ops P) = task_events (tr_id t) P)
    \<and> (x \<in> set (pl_actions P) \<and> tx_outcome x \<noteq> Outcome_pending \<longrightarrow> x \<in> set (pl_actions (plane_run dg sha ops P)))"
  using finish.keeps_run [of P t "task_events (tr_id t) P" dg sha ops] settled.keeps_run [of P x dg sha ops] assms
  by (simp add: finished_as_def)

theorem settled_rows_final_witness:
  "\<exists>x. tx_outcome x = Outcome_failed \<and> x \<in> set (pl_actions (plane_run sample_digest sample_sha
     [Receive (seconds 30) failed_event, Authorize second_request] opened_plane))"
proof -
  have "list_ex (\<lambda>x. tx_outcome x = Outcome_failed) (pl_actions opened_plane)" by code_simp
  then obtain x where x: "x \<in> set (pl_actions opened_plane)" "tx_outcome x = Outcome_failed" by (auto simp: list_ex_iff)
  have "plane_wf opened_plane" unfolding opened_plane_def by (rule constraints.keeps_step [OF sample_plane_wf])
  from settled_rows_final [OF this, of undefined sample_digest sample_sha
      "[Receive (seconds 30) failed_event, Authorize second_request]" x] x show ?thesis by auto
qed

text \<open>
  C14. A failure circuit hands over to a human only for a row of failures. In every history a result that
  opens the circuit of an installation and an action is the last of at least as many consecutive
  failures in that scope as the threshold of its authorization says, and a closed circuit never counts
  more failures than the scope has had in a row.
\<close>

theorem handoff_is_earned:
  assumes "plane_wf P" "grounded P" "pl_results (plane_run dg sha ops P) = pre @ r # post" "rz_handoff r"
  shows "rz_threshold r \<le> trailing (result_scope r) (pre @ [r])
    \<and> (\<forall>c \<in> set (pl_circuits (plane_run dg sha ops P)). \<not> fc_open c \<longrightarrow>
        fc_failures c \<le> trailing (circuit_scope c) (pl_results (plane_run dg sha ops P)))"
  using circuits.keeps_run [of P dg sha ops] assms earned_at [of "[]" pre r post] by (simp add: grounded_def)

theorem handoff_is_earned_witness:
  "\<exists>r. pl_results opened_plane = [r] \<and> 1 \<le> trailing (result_scope r) [r]"
proof -
  have run: "opened_plane = plane_run sample_digest sample_sha [Receive (seconds 20) failed_event] sample_plane"
    by (simp add: opened_plane_def)
  obtain r where r: "pl_results opened_plane = [] @ r # []" "rz_handoff r" "rz_threshold r = 1" using opened_rows(3) by simp
  have "grounded sample_plane" by (simp add: grounded_def sample_plane_def)
  from handoff_is_earned [OF sample_plane_wf this r(1) [unfolded run] r(2)] r(1,3) show ?thesis by auto
qed

text \<open>
  C13. An open circuit waits for the task that opened it. In every history it stays open under the same
  opening action until the log holds a new resumption of the task that action was authorized for.
\<close>

theorem open_circuit_waits:
  assumes "plane_wf P" "open_for scope x P" "authorized_for x task P"
    and "\<not> resumed_since (length (pl_events P)) task (plane_run dg sha ops P)"
  shows "open_for scope x (plane_run dg sha ops P)"
  using waiting.keeps_run [of scope x task "length (pl_events P)" P dg sha ops] assms by (simp add: waits_def)

theorem open_circuit_waits_witness:
  "open_for (installation, Comment) the_action
     (plane_run sample_digest sample_sha [Receive (seconds 30) failed_event, Authorize second_request] opened_plane)"
proof -
  have "plane_wf opened_plane" unfolding opened_plane_def by (rule constraints.keeps_step [OF sample_plane_wf])
  moreover have "\<not> resumed_since (length (pl_events opened_plane)) the_task
      (plane_run sample_digest sample_sha [Receive (seconds 30) failed_event, Authorize second_request] opened_plane)"
    by code_simp
  ultimately show ?thesis using opened_rows(1,2) by (intro open_circuit_waits)
qed

text \<open>
  C10. The authorizations of every history keep their limits: each one stays below the limit of its task and
  the daily limit of its installation and action, and follows every earlier authorization of that
  scope by at least its interval.
\<close>

theorem authorizations_within_limits:
  assumes "plane_wf P" "accounts [] (pl_authorizations P)" "pl_authorizations (plane_run dg sha ops P) = pre @ b # post"
  shows "int (length (filter (\<lambda>a. same_task a b) pre)) < az_task_limit b
    \<and> int (length (filter (\<lambda>a. same_day a b) pre)) < az_daily_limit b
    \<and> (\<forall>a \<in> set pre. same_scope a b \<longrightarrow> az_authorized a + seconds (az_interval b) \<le> az_authorized b)"
proof -
  have *: "plane_wf (plane_run dg sha ops P)" "accounts [] (pre @ b # post)"
    using books.keeps_run [of P dg sha ops] assms by simp_all
  then have "authorization_ok b" using sql_wf_row [of authorization_ok authorization_clash "pre @ b # post" b] assms(3)
    by (simp add: plane_wf_def)
  then show ?thesis using *(2) by (simp add: accounts_append accounted_def authorization_ok_def)
qed

theorem authorizations_within_limits_witness:
  "az_authorized sample_authorization + seconds 30 \<le> seconds 40"
proof -
  have run: "pl_authorizations (plane_run sample_digest sample_sha [Authorize second_request] sample_plane) =
     [sample_authorization] @ (sample_authorization\<lparr>az_action_id := uuid CHR ''d'', az_target := uuid CHR ''9'', az_ordinal := 2,
       az_task_count := 2, az_daily_count := 2, az_authorized := seconds 40\<rparr>) # []"
    using second_authorized by simp
  have "accounts [] (pl_authorizations sample_plane)" by (simp add: sample_rows accounted_def)
  from authorizations_within_limits [OF sample_plane_wf this run] show ?thesis
    by (simp add: same_scope_def sample_authorization_def)
qed

text \<open>
  C16. The next event is accepted. An event without an action that carries the next number of its task, is in
  time, is unknown, needs no acknowledged control and asks for a legal move of the task and of its
  attempt is accepted, moves both, and is appended to the log.
\<close>

theorem next_event_accepted:
  assumes "plane_wf P" "log_ok P" "t \<in> set (pl_tasks P)" "a \<in> set (pl_attempts P)"
    and "list_ex (\<lambda>r. in_id r = installation_id m) (pl_installations P)"
    and "next_event dg m now t a" "unknown_event m P"
    and "event_plans (message_type m) = Some plan" "ep_task plan = Some s" "ep_attempt plan = Some st"
    and "message_type m \<noteq> M_task_resumed" "expected_controls (message_type m) (tr_status t) = None"
    and "s \<in> task_transitions (tr_status t)" "st \<in> attempt_transitions (ta_status a)"
  shows "\<exists>P'. receive_event dg now m P = (Some (\<lparr>sh_task = tr_id t, sh_status = s, sh_revision = tr_revision t + 1,
      sh_last_event = tr_last_event t + 1, sh_updated = now\<rparr>, False), P')
    \<and> (\<exists>b \<in> set (pl_attempts P'). ta_id b = ta_id a \<and> ta_status b = st)
    \<and> (\<exists>e. pl_events P' = pl_events P @ [e] \<and> event_of dg m e \<and> te_sequence e = tr_last_event t + 1 \<and> te_status e = s)"
proof -
  note m = assms(6) [unfolded next_event_def]
  note pe = pending_plain [OF assms(6,8,9)]
  define pe where "pe = \<lparr>pe_message = m, pe_type = ep_type plan, pe_task = ep_task plan,
    pe_attempt = ep_attempt plan, pe_action = None, pe_status = None, pe_outcome = None, pe_progress = None,
    pe_fingerprint = event_fingerprint dg m, pe_received = now, pe_evidence = None\<rparr>"
  have new: "converge_new pe t P = Some (snapshot_of (moved_task pe t s), P\<lparr>
    pl_tasks := map (\<lambda>x. if tr_id x = tr_id t then moved_task pe t s else x) (pl_tasks P),
    pl_attempts := map (\<lambda>x. if ta_id x = ta_id a then moved_attempt pe a st a else x) (pl_attempts P),
    pl_events := pl_events P @ [event_row_of pe t (pe_type pe) s]\<rparr>)" (is "_ = Some (_, ?P)")
    by (rule plain_converges [OF assms(1-4,6-14)]) (simp_all add: pe pe_def assms(9,10))
  have "replay_of pe P = Some False" using replay_unknown [OF assms(7)] by (simp add: pe_def)
  then have "converge pe P = Some (snapshot_of (moved_task pe t s), False, ?P)"
    using task_found [OF assms(1,3)] assms(5) m new
    by (auto simp: converge_def task_at_def pe_def require_def find_None_iff list_ex_iff)
  then have r: "receive_event dg now m P = (Some (snapshot_of (moved_task pe t s), False), ?P)"
    using pe by (simp add: receive_event_def pe_def)
  have b: "\<exists>b \<in> set (pl_attempts ?P). ta_id b = ta_id a \<and> ta_status b = st"
  proof
    show "moved_attempt pe a st a \<in> set (pl_attempts ?P)" using assms(4) by force
    show "ta_id (moved_attempt pe a st a) = ta_id a \<and> ta_status (moved_attempt pe a st a) = st"
      by (simp add: moved_attempt_def)
  qed
  have e: "pl_events ?P = pl_events P @ [event_row_of pe t (pe_type pe) s] \<and> event_of dg m (event_row_of pe t (pe_type pe) s)
      \<and> te_sequence (event_row_of pe t (pe_type pe) s) = tr_last_event t + 1
      \<and> te_status (event_row_of pe t (pe_type pe) s) = s"
    using m by (simp add: event_of_def event_row_of_def Let_def pe_def)
  have snap: "snapshot_of (moved_task pe t s) = \<lparr>sh_task = tr_id t, sh_status = s, sh_revision = tr_revision t + 1,
      sh_last_event = tr_last_event t + 1, sh_updated = now\<rparr>"
    using m by (simp add: snapshot_of_def moved_task_def pe_def)
  show ?thesis
    by (rule exI [of _ ?P], intro conjI, rule r [unfolded snap], rule b, rule exI, rule e)
qed

theorem next_event_accepted_witness:
  "\<exists>P'. receive_event sample_digest (seconds 20) completed_event sample_plane = (Some (\<lparr>sh_task = the_task,
     sh_status = Succeeded, sh_revision = 4, sh_last_event = 1, sh_updated = seconds 20\<rparr>, False), P')"
proof -
  have "\<exists>P'. receive_event sample_digest (seconds 20) completed_event sample_plane = (Some (\<lparr>sh_task = tr_id sample_task,
      sh_status = Succeeded, sh_revision = tr_revision sample_task + 1, sh_last_event = tr_last_event sample_task + 1,
      sh_updated = seconds 20\<rparr>, False), P')
    \<and> (\<exists>b \<in> set (pl_attempts P'). ta_id b = ta_id sample_attempt \<and> ta_status b = Attempt_succeeded)
    \<and> (\<exists>e. pl_events P' = pl_events sample_plane @ [e] \<and> event_of sample_digest completed_event e
        \<and> te_sequence e = tr_last_event sample_task + 1 \<and> te_status e = Succeeded)"
  proof (rule next_event_accepted [where plan = "plan_of Ev_task_completed (Some (Succeeded, Attempt_succeeded))"])
    show "plane_wf sample_plane" "log_ok sample_plane" by (rule sample_plane_wf, rule sample_log)
    show "next_event sample_digest completed_event (seconds 20) sample_task sample_attempt"
      "unknown_event completed_event sample_plane" "list_ex (\<lambda>r. in_id r = installation_id completed_event) (pl_installations sample_plane)"
      "expected_controls (message_type completed_event) (tr_status sample_task) = None"
      by code_simp+
  qed (simp_all add: sample_rows completed_event_def message_def plan_of_def)
  then show ?thesis by (auto simp: sample_task_def)
qed

end
