(* ===== verification/Spec2Isabelle.thy ===== *)
theory Spec2Isabelle
  imports Dispatch_Properties Command_Properties Outcome_Properties Domain_Properties
    Message_Properties Skill_Properties Action_Properties Recovery_Properties Operation_Properties
    Processor_Properties Processor_Batches Surface_Lease Segment_Properties Editing_Timeline
    Job_Lifecycles Publish_Properties Plane_Properties
begin

text \<open>
  automation-tool runs marketing actions on a short-video platform: a Control Plane (a server with a
  PostgreSQL database) decides what may be done, and a Local Executor (a Python process beside a
  browser) does it. This development models the parts that carry the guarantees: that an external
  action happens at most once and only under an authorization, that every command is answered and every
  event recorded exactly once, that a crash never repeats an action, and that the recorded state is
  one the program may be in. Paths are below \<open>backend/src/automation_tool/\<close>.

  \<^bold>\<open>How the parts interact.\<close> The Control Plane enqueues a signed command in its outbox. The executor receives
  it into its SQLite ledger, a gate admits the action, an execution takes the one dispatch grant of the ledger,
  presses, verifies and settles the effect, and the processor commits the outcome: a batch of messages in the
  outbox of the ledger. They are delivered to the Control Plane, which converges each event in one
  transaction onto the task, its attempt, its action and the failure circuit. After a crash the
  recovery settles what was left in the ledger without ever dispatching again.

  \<^bold>\<open>Conventions.\<close> A Python object is a record, an enumeration a datatype; an exception is \<open>None\<close>, or \<open>Inl\<close> of an
  error where the caller looks at it. A database table is the list of its rows in order of insertion, with
  a predicate for its \<open>CHECK\<close> constraints and one for a clash of its keys (\<open>Sql_Table\<close>, with the locale
  \<open>keyed_table\<close> for what a key gives); a transaction is a function from a database to an optional
  database, and a raised exception leaves the old one. Python integers are \<open>int\<close>. An instant is a number of microseconds
  since the epoch (\<open>py_datetime\<close> keeps the offset where the code looks at it). Text is a
  \<open>string\<close> of code points as far as the code inspects it; bytes are words of eight bits.

  \<^bold>\<open>Shared.\<close> \<open>Prelude\<close> (generic lemmas, \<open>require\<close>, instants, identifiers), \<open>Sql_Table\<close>, \<open>Status_Graph\<close> (the
  locale \<open>lifecycle\<close> of a closed status graph, interpreted on every transition table), \<open>One_Shot\<close> (the
  locale of a permission that is granted once), \<open>Samples\<close> and \<open>Processor_Samples\<close> (values of the witnesses).

  \<^bold>\<open>Messages and values.\<close> \<open>Wire\<close> (\<open>protocol/executor_envelope.py\<close>, \<open>protocol/action_authorization.py\<close>: message
  types, envelopes, payload rules, claims), \<open>Json_Text\<close> (canonical JSON text), \<open>Safe_Text\<close> (\<open>protocol/safe_text.py\<close>),
  \<open>Shared_Policies\<close> (search, candidate and message template), \<open>Candidate_Policy\<close>
  (\<open>control_plane/domain/douyin_candidate_policy.py\<close>), \<open>Task_Lifecycle\<close> (\<open>control_plane/domain/task_state_machine.py\<close>).
  \<open>Payload_Rules\<close> states the rules for payloads by the words of a field name and the shapes of a text, apart from the
  routines, and shows that the routines decide them. \<open>Message_Properties\<close> and \<open>Domain_Properties\<close> hold the properties.

  \<^bold>\<open>The ledger of the executor\<close> (\<open>executor/ledger.py\<close>). \<open>Ledger_Schema\<close>: tables and constraints; \<open>Ledger_Effects\<close>:
  admission, prepare, the dispatch grant, settlement; \<open>Ledger_Commands\<close>: receipt and replay of commands, emergency stop;
  \<open>Ledger_Outbox\<close>: enqueueing, outcomes, controls; \<open>Ledger_Delivery\<close>: delivery, acknowledgement, requeueing and the
  recovery of effects. \<open>Ledger_Runs\<close> makes the operations one step function. \<open>Evolution\<close> states the invariant of
  the ledger and the order in which its rows move, \<open>Ledger_Writes\<close>, \<open>Ledger_Soundness\<close> and \<open>Outbox_Soundness\<close> show
  that every operation respects both, \<open>Effect_Facts\<close> and \<open>Guard_Frame\<close> say what single operations change. \<open>Dispatch_Properties\<close>, \<open>Command_Properties\<close>, \<open>Outcome_Properties\<close> and
  \<open>Outbox_Properties\<close> hold the properties over whole histories; \<open>Delivery_Scan\<close> shows that the loop of the delivery
  query is one pass over the outbox.

  \<^bold>\<open>Actions.\<close> \<open>Action_Gate\<close> (\<open>executor/action_gate.py\<close>), \<open>Action_Execution\<close> (\<open>executor/rpa/douyin/comment_action.py\<close>,
  \<open>direct_message_action.py\<close>), \<open>Action_Result\<close> (\<open>action_result.py\<close>, \<open>browse.py\<close>), \<open>Action_Operation\<close>
  (\<open>executor/action_operation.py\<close>). An execution is a replayed skill whose page, clock and
  identifier source may also change the ledger, as other threads do (\<open>Ledger_World\<close>). \<open>Replay_Facts\<close> and
  \<open>Replay_Invariant\<close> (the locale of what every answer of a page keeps), \<open>Execution_Facts\<close> and \<open>Operation_Facts\<close> carry
  \<open>Action_Properties\<close> and \<open>Operation_Properties\<close>.

  \<^bold>\<open>Recovery.\<close> \<open>Effect_Recovery\<close> (\<open>executor/rpa/douyin/side_effect_recovery.py\<close>), \<open>Crash_Recovery\<close>
  (\<open>executor/crash_recovery.py\<close>), \<open>Recovery_Facts\<close>, \<open>Recovery_Runs\<close>, \<open>Recovery_Properties\<close>.

  \<^bold>\<open>Commands.\<close> \<open>Command_Processor\<close> (\<open>executor/command_processor.py\<close>: decoded message to committed batch),
  \<open>Processor_Messages\<close> (what it sends passes validation), \<open>Processor_Properties\<close>, \<open>Processor_Batches\<close>.

  \<^bold>\<open>Skills.\<close> \<open>Skill_Document\<close> and \<open>Skill_Codec\<close> (\<open>executor/automation_skill.py\<close>), \<open>Skill_Replay\<close> (replayer and handback),
  \<open>Skill_Orchestrator\<close> (registry, router, orchestrator, management view),
  \<open>Skill_Properties\<close>.

  \<^bold>\<open>Browser surface, publishing, editing.\<close> \<open>Surface_Lease\<close> (\<open>executor/browser_surface_lease.py\<close>),
  \<open>Confirmation_Gate\<close> (\<open>executor/browser_use_safety.py\<close>), \<open>Publish_Release\<close> and \<open>Publish_Properties\<close>
  (\<open>executor/rpa/douyin/publish_release.py\<close>), \<open>Segment_Selection\<close> and \<open>Segment_Properties\<close>
  (\<open>executor/segment_selection.py\<close>), \<open>Editing_Timeline\<close> (\<open>control_plane/domain/timeline.py\<close>), \<open>Job_Lifecycles\<close>
  (\<open>control_plane/domain/editing_job.py\<close>, \<open>video_publishing.py\<close>).

  \<^bold>\<open>The Control Plane\<close> (\<open>control_plane/infrastructure/database/\<close>). \<open>Plane_Schema\<close>: the tables; \<open>Event_Plan\<close>
  (\<open>application/task_event_convergence.py\<close>) and \<open>Event_Convergence\<close>
  (\<open>task_event_convergence_repository.py\<close>): the reading of an executor event and its transaction;
  \<open>Plane_Commands\<close> (\<open>task_command_repository.py\<close>); \<open>Plane_Authorization\<close>
  (\<open>action_risk_authorization_repository.py\<close>). \<open>Plane_Runs\<close> makes the operations one step function and states the
  locale \<open>plane_property\<close>: what the four kinds of step keep, every history keeps. \<open>Plane_Facts\<close> inverts the
  transactions. \<open>Plane_Invariant\<close>, \<open>Plane_Log\<close>, \<open>Plane_Safety\<close>, \<open>Plane_Risk\<close> and \<open>Plane_Delivery\<close> interpret the locale for the
  constraints, the event log, statuses and settled rows, circuits and authorizations, and redelivery;
  \<open>Plane_Properties\<close> holds the properties.

  \<^bold>\<open>Parameters.\<close> What is not code of the repository is an argument: the codec of messages with SHA-256, the verifier of
  signatures, the answers of a page to an execution, the clock (a function or a list of readings), fresh
  identifiers and tokens, the opening of a browser, the contract of skill documents, the addition of a lease
  duration. The theorems hold for all of them; hypotheses on them, such as a digest of 32 bytes,
  are named in the statement, and a witness shows that they can be met.

  \<^bold>\<open>Loops and bounds.\<close> Loops are structural recursion on the list they consume: rows of a table, messages of a batch,
  shots of a film, steps of a skill. The scan of the delivery query and two loops over text end because a
  measure falls (a \<open>termination\<close> proof each). The window search is a \<open>while\<close> loop of two cursors: it is a
  partial function, and \<open>window_scan_returns\<close> proves that it always returns. No function takes fuel. Histories are
  lists of operations of any length.

  \<^bold>\<open>Left out.\<close> Real concurrency: a step is one transaction or one call between two awaits; the locks of the
  databases make this the granularity of the code. Foreign keys of PostgreSQL. Input and output: sockets, files, the
  browser, ffmpeg, language models; with them the media analysis, rendering and motion authoring.
  HTTP endpoints, accounts and credentials, the Bilibili client, the read models, and the frontend.
\<close>

end
